(* ===== verification/Prelude.thy ===== *)
theory Prelude
  imports Complex_Main
begin

text \<open>
  What every component of the development shares: the fact collections the component
  proofs extend, and generic lemmas on lists and options. A JavaScript \<open>Array.find\<close> is
  \<open>List.find\<close>, \<open>Array.filter\<close> and \<open>Array.map\<close> are the list functions of the same
  name, \<open>Array.some\<close> and \<open>Array.every\<close> are \<open>list_ex\<close> and \<open>list_all\<close>; \<open>undefined\<close> and
  \<open>null\<close> are \<open>None\<close>; a thrown exception is the left side of a sum.
\<close>

named_theorems js_arith \<open>exactness and order facts about binary64 arithmetic\<close>
named_theorems js_date \<open>facts about the calendar functions\<close>

section \<open>Options\<close>

definition coalesce :: "'a option \<Rightarrow> 'a \<Rightarrow> 'a" where
  \<comment> \<open>the operator \<open>a ?? b\<close>\<close>
  "coalesce a b = (case a of None \<Rightarrow> b | Some x \<Rightarrow> x)"

lemma coalesce_simps [simp]: "coalesce None b = b" "coalesce (Some x) b = x"
  by (simp_all add: coalesce_def)

section \<open>Lists\<close>

fun find_index :: "('a \<Rightarrow> bool) \<Rightarrow> 'a list \<Rightarrow> nat option" where
  \<comment> \<open>\<open>Array.findIndex\<close>, with \<open>-1\<close> as \<open>None\<close>\<close>
  "find_index P [] = None"
| "find_index P (x # xs) = (if P x then Some 0 else map_option Suc (find_index P xs))"

lemma find_index_SomeD: "find_index P xs = Some i \<Longrightarrow> i < length xs \<and> P (xs ! i)"
  by (induction xs arbitrary: i) (auto split: if_splits)

lemma find_index_None_iff: "find_index P xs = None \<longleftrightarrow> (\<forall>x\<in>set xs. \<not> P x)"
  by (induction xs) auto

lemma find_Some_mem: "List.find P xs = Some x \<Longrightarrow> x \<in> set xs \<and> P x"
  by (induction xs) (auto split: if_splits)

lemma find_None_mem: "List.find P xs = None \<longleftrightarrow> (\<forall>x\<in>set xs. \<not> P x)"
  by (induction xs) auto

text \<open>
  \<open>xs.reduce (\<lambda>acc e. \<dots>)\<close> without an initial value: the first element is the
  accumulator; an empty array throws, so callers guard it and the model never asks for it.
\<close>

definition reduce1 :: "('a \<Rightarrow> 'a \<Rightarrow> 'a) \<Rightarrow> 'a \<Rightarrow> 'a list \<Rightarrow> 'a" where
  "reduce1 f x xs = foldl f x xs"

text \<open>Reducing with a strict comparison keeps the first of the maximal elements.\<close>

definition keep_max :: "('a \<Rightarrow> 'b::linorder) \<Rightarrow> 'a \<Rightarrow> 'a list \<Rightarrow> 'a" where
  "keep_max k x xs = reduce1 (\<lambda>acc e. if k e > k acc then e else acc) x xs"

lemma keep_max_simps [simp]:
  "keep_max k x [] = x"
  "keep_max k x (y # ys) = keep_max k (if k y > k x then y else x) ys"
  by (simp_all add: keep_max_def reduce1_def)

lemma keep_max_in: "keep_max k x xs \<in> set (x # xs)"
  by (induction xs arbitrary: x) (simp, fastforce)

lemma keep_max_ge: "y \<in> set (x # xs) \<Longrightarrow> k y \<le> k (keep_max k x xs)"
proof (induction xs arbitrary: x y)
  case Nil
  then show ?case by simp
next
  case (Cons z zs)
  let ?x' = "if k z > k x then z else x"
  have "k x \<le> k ?x'" "k z \<le> k ?x'" by auto
  moreover have "k ?x' \<le> k (keep_max k ?x' zs)" by (rule Cons.IH) simp
  moreover have "w \<in> set zs \<Longrightarrow> k w \<le> k (keep_max k ?x' zs)" for w by (rule Cons.IH) simp
  ultimately show ?case using Cons.prems by fastforce
qed

lemma sum_list_replicate_rat: "sum_list (replicate n (x :: rat)) = of_nat n * x"
  by (induction n) (simp_all add: algebra_simps)

lemma sum_list_replicate_int: "sum_list (replicate n (x :: int)) = int n * x"
  by (induction n) (simp_all add: algebra_simps)

text \<open>Sorting by a key after appending an element that no key exceeds.\<close>

lemma insort_key_snoc: "k y \<le> k x \<Longrightarrow> insort_key k y (zs @ [x]) = insort_key k y zs @ [x]"
  by (induction zs) auto

lemma sort_key_snoc: "\<forall>y\<in>set xs. k y \<le> k x \<Longrightarrow> sort_key k (xs @ [x]) = sort_key k xs @ [x]"
  by (induction xs) (simp_all add: insort_key_snoc)

lemma sum_list_sort_key: "sum_list (map f (sort_key k xs)) = (sum_list (map f xs) :: 'b::comm_monoid_add)"
proof -
  have "sum_list (map f (insort_key k x ys)) = f x + (sum_list (map f ys) :: 'b)" for x ys
    by (induction ys) (simp_all add: add.left_commute)
  then show ?thesis by (induction xs) simp_all
qed

lemma sum_list_update_group:
  "i < length xs \<Longrightarrow> sum_list (map g (xs[i := y])) = sum_list (map g xs) - g (xs ! i) + (g y :: 'b::ab_group_add)"
  by (induction xs arbitrary: i) (auto simp: nth_Cons split: nat.splits)

lemma map_id_update:
  assumes "map key xs = [0..<length xs]" "i < length xs"
  shows "map (\<lambda>x. if key x = i then f x else x) xs = xs[i := f (xs ! i)]"
proof (rule nth_equalityI)
  have k: "key (xs ! j) = j" if "j < length xs" for j
    using assms(1) that by (metis (no_types, lifting) add.left_neutral length_map nth_map nth_upt)
  fix j assume "j < length (map (\<lambda>x. if key x = i then f x else x) xs)"
  then show "map (\<lambda>x. if key x = i then f x else x) xs ! j = xs[i := f (xs ! i)] ! j"
    using k by (auto simp: nth_list_update)
qed simp

lemma find_by_key:
  assumes "map key xs = [0..<length xs]" "List.find (\<lambda>x. key x = i \<and> P x) xs = Some x"
  shows "i < length xs" "xs ! i = x" "key x = i" "P x"
proof -
  have x: "x \<in> set xs" "key x = i" "P x" using find_Some_mem[OF assms(2)] by simp_all
  then obtain j where j: "j < length xs" "xs ! j = x" by (auto simp: in_set_conv_nth)
  then have "key x = j" using assms(1) by (metis (no_types, lifting) add.left_neutral length_map nth_map nth_upt)
  then show "i < length xs" "xs ! i = x" "key x = i" "P x" using j x by simp_all
qed

end
