(* ===== verification/JsDate.thy ===== *)
theory JsDate
  imports Prelude
begin

text \<open>
  JavaScript dates. A \<open>Date\<close> is its time value, an \<open>int\<close> of milliseconds since
  1970-01-01T00:00:00Z (the invalid date is not modelled), and the accessors the source
  calls are the functions of the ECMAScript specification on it: the proleptic Gregorian
  calendar, months numbered from 0, \<open>Date.UTC\<close> and the setters normalising a month or a
  day that overflows. The functions on local time take the offset of the server's zone from
  UTC, in milliseconds, as an argument (a fixed offset: Indian time has no daylight saving).
  The last section proves that the accessors invert \<open>Date.UTC\<close>.
\<close>

type_synonym date = int

definition ms_per_day :: int where "ms_per_day = 86400000"

section \<open>Days and years\<close>

definition day_of :: "date \<Rightarrow> int" where
  "day_of t = t div ms_per_day"

definition leap_year :: "int \<Rightarrow> bool" where
  "leap_year y \<longleftrightarrow> y mod 4 = 0 \<and> (y mod 100 \<noteq> 0 \<or> y mod 400 = 0)"

definition day_from_year :: "int \<Rightarrow> int" where
  "day_from_year y = 365 * (y - 1970) + (y - 1969) div 4 - (y - 1901) div 100 + (y - 1601) div 400"

lemma div_plus_one:
  fixes x n :: int assumes "0 < n"
  shows "(x + 1) div n = x div n + (if (x + 1) mod n = 0 then 1 else 0)"
proof -
  define q r where "q = x div n" and "r = x mod n"
  have x: "x = q * n + r" "0 \<le> r" "r < n" using assms by (simp_all add: q_def r_def)
  show ?thesis
  proof (cases "r + 1 = n")
    case True
    then have "x + 1 = (q + 1) * n" using x by (simp add: distrib_right)
    then show ?thesis using assms by (simp add: q_def)
  next
    case False
    then have r: "0 \<le> r + 1" "r + 1 < n" using x by auto
    have "x + 1 = n * q + (r + 1)" using x(1) by (simp add: mult.commute)
    then have "(x + 1) div n = q" "(x + 1) mod n = r + 1"
      using r by (rule int_div_pos_eq, rule int_mod_pos_eq)
    moreover have "r + 1 \<noteq> 0" using x(2) by simp
    ultimately show ?thesis by (simp add: q_def)
  qed
qed

lemma mod_diff_multiple: "(n::int) dvd c \<Longrightarrow> (y - c) mod n = y mod n"
  by (metis dvd_imp_mod_0 mod_diff_right_eq diff_zero)

lemma day_from_year_Suc: "day_from_year (y + 1) = day_from_year y + (if leap_year y then 366 else 365)"
proof -
  have 4: "(y + 1 - 1969) div 4 = (y - 1969) div 4 + (if y mod 4 = 0 then 1 else 0)"
    using div_plus_one[of 4 "y - 1969"] mod_diff_multiple[of 4 1968 y] by (simp add: algebra_simps)
  have 100: "(y + 1 - 1901) div 100 = (y - 1901) div 100 + (if y mod 100 = 0 then 1 else 0)"
    using div_plus_one[of 100 "y - 1901"] mod_diff_multiple[of 100 1900 y] by (simp add: algebra_simps)
  have 400: "(y + 1 - 1601) div 400 = (y - 1601) div 400 + (if y mod 400 = 0 then 1 else 0)"
    using div_plus_one[of 400 "y - 1601"] mod_diff_multiple[of 400 1600 y] by (simp add: algebra_simps)
  have d: "y mod 100 = 0 \<Longrightarrow> y mod 4 = 0" "y mod 400 = 0 \<Longrightarrow> y mod 100 = 0"
    unfolding mod_eq_0_iff_dvd by (erule dvd_trans[rotated], simp)+
  show ?thesis unfolding day_from_year_def leap_year_def 4 100 400
    using d by (cases "y mod 4 = 0"; cases "y mod 100 = 0"; cases "y mod 400 = 0") simp_all
qed

lemma day_from_year_gap: "day_from_year y + 365 \<le> day_from_year (y + 1)"
  by (simp add: day_from_year_Suc)

lemma day_from_year_add: "day_from_year y + 365 * int n \<le> day_from_year (y + int n)"
proof (induction n)
  case (Suc n)
  then show ?case using day_from_year_gap[of "y + int n"] by (simp add: algebra_simps)
qed simp

lemma day_from_year_strict_mono: assumes "y < z" shows "day_from_year y < day_from_year z"
proof -
  from assms obtain n where "z = y + int n" "0 < n" by (metis zless_iff_Suc_zadd zero_less_Suc)
  then show ?thesis using day_from_year_add[of y n] by simp
qed

lemma day_from_year_mono: "y \<le> z \<Longrightarrow> day_from_year y \<le> day_from_year z"
  using day_from_year_strict_mono[of y z] by (cases "y = z") auto

function climb_year :: "int \<Rightarrow> int \<Rightarrow> int" where
  "climb_year y d = (if day_from_year (y + 1) \<le> d then climb_year (y + 1) d else y)"
  by pat_completeness auto
termination
proof (relation "measure (\<lambda>(y, d). nat (d - day_from_year y))")
  fix y d assume "day_from_year (y + 1) \<le> d"
  then show "((y + 1, d), y, d) \<in> measure (\<lambda>(y, d). nat (d - day_from_year y))"
    using day_from_year_gap[of y] by auto
qed simp

declare climb_year.simps [simp del]

definition year_of_day :: "int \<Rightarrow> int" where
  \<comment> \<open>the last year that starts on or before the day\<close>
  "year_of_day d = climb_year (1970 + (if 0 \<le> d then d div 366 else d div 365)) d"

lemma climb_year_bounds:
  "day_from_year y \<le> d \<Longrightarrow> day_from_year (climb_year y d) \<le> d \<and> d < day_from_year (climb_year y d + 1)"
proof (induction y d rule: climb_year.induct)
  case (1 y d)
  then show ?case by (cases "day_from_year (y + 1) \<le> d") (auto simp: climb_year.simps[of y d])
qed

lemma floor_terms:
  fixes k :: int
  shows "4 * ((k + 1) div 4) \<le> k + 1" "k - 30 \<le> 100 * ((k + 69) div 100)" "400 * ((k + 369) div 400) \<le> k + 369"
  using pos_mod_bound[of 100 "k + 69"] by (simp_all add: minus_mod_eq_mult_div[symmetric])

lemma day_from_year_upper: assumes "0 \<le> k" shows "day_from_year (1970 + k) \<le> 366 * k"
proof -
  consider "k = 0" | "k = 1" | "2 \<le> k" using assms by linarith
  then show ?thesis
    by cases (use floor_terms[of k] in \<open>simp_all add: day_from_year_def algebra_simps\<close>)
qed

lemma day_from_year_lower: assumes "k \<le> 0" shows "day_from_year (1970 + k) \<le> 365 * k"
proof -
  consider "k = 0" | "k = -1" | "k = -2" | "k = -3" | "k = -4" | "k = -5" | "k = -6" | "k \<le> -7"
    using assms by linarith
  then show ?thesis
    by cases (use floor_terms[of k] in \<open>simp_all add: day_from_year_def algebra_simps\<close>)
qed

lemma year_of_day_bounds:
  "day_from_year (year_of_day d) \<le> d" "d < day_from_year (year_of_day d + 1)"
proof -
  have "day_from_year (1970 + (if 0 \<le> d then d div 366 else d div 365)) \<le> d"
  proof (cases "0 \<le> d")
    case True
    then have "day_from_year (1970 + d div 366) \<le> 366 * (d div 366)" by (intro day_from_year_upper) simp
    also have "\<dots> \<le> d" by presburger
    finally show ?thesis using True by simp
  next
    case False
    then have "d div 365 \<le> 0" by presburger
    then have "day_from_year (1970 + d div 365) \<le> 365 * (d div 365)" by (rule day_from_year_lower)
    also have "\<dots> \<le> d" by presburger
    finally show ?thesis using False by simp
  qed
  from climb_year_bounds[OF this]
  show "day_from_year (year_of_day d) \<le> d" "d < day_from_year (year_of_day d + 1)"
    by (simp_all add: year_of_day_def)
qed

lemma year_of_day_unique:
  assumes "day_from_year y \<le> d" "d < day_from_year (y + 1)" shows "year_of_day d = y"
proof (rule ccontr)
  assume "year_of_day d \<noteq> y"
  then consider "year_of_day d + 1 \<le> y" | "y + 1 \<le> year_of_day d" by linarith
  then show False
    by cases (use assms year_of_day_bounds[of d] day_from_year_mono in fastforce)+
qed

section \<open>Months\<close>

definition month_start :: "bool \<Rightarrow> int \<Rightarrow> int" where
  \<comment> \<open>days of the year before month \<open>m\<close>, 0 to 11\<close>
  "month_start l m = [0, 31, 59, 90, 120, 151, 181, 212, 243, 273, 304, 334] ! nat m
     + (if l \<and> 2 \<le> m then 1 else 0)"

definition month_days :: "bool \<Rightarrow> int \<Rightarrow> int" where
  "month_days l m = [31, 28, 31, 30, 31, 30, 31, 31, 30, 31, 30, 31] ! nat m
     + (if l \<and> m = 1 then 1 else 0)"

definition month_of_doy :: "bool \<Rightarrow> int \<Rightarrow> int" where
  "month_of_doy l n = int (length (filter (\<lambda>m. month_start l m \<le> n) [1, 2, 3, 4, 5, 6, 7, 8, 9, 10, 11]))"

lemma month_cases: "0 \<le> m \<Longrightarrow> m \<le> 11 \<Longrightarrow> m \<in> {0, 1, 2, 3, 4, 5, 6, 7, 8, 9, 10, 11::int}"
  by simp presburger

lemma month_of_doy_start:
  assumes "0 \<le> m" "m \<le> 11" "1 \<le> d" "d \<le> month_days l m"
  shows "month_of_doy l (month_start l m + d - 1) = m"
  using month_cases[OF assms(1,2)] assms(3,4)
  by (elim insertE; cases l; simp add: month_of_doy_def month_start_def month_days_def)

lemma month_start_bound:
  assumes "0 \<le> m" "m \<le> 11" "1 \<le> d" "d \<le> month_days l m"
  shows "0 \<le> month_start l m + d - 1" "month_start l m + d - 1 < (if l then 366 else 365)"
  using month_cases[OF assms(1,2)] assms(3,4)
  by (elim insertE; cases l; simp add: month_start_def month_days_def)+

lemma month_of_doy_bounds:
  assumes "0 \<le> n" "n < (if l then 366 else 365)"
  shows "0 \<le> month_of_doy l n" "month_of_doy l n \<le> 11"
    and "month_start l (month_of_doy l n) \<le> n"
    and "n - month_start l (month_of_doy l n) < month_days l (month_of_doy l n)"
  using assms by (cases l; auto simp: month_of_doy_def month_start_def month_days_def)+

section \<open>The accessors\<close>

definition doy_of_day :: "int \<Rightarrow> int" where
  "doy_of_day d = d - day_from_year (year_of_day d)"

definition month_of_day :: "int \<Rightarrow> int" where
  "month_of_day d = month_of_doy (leap_year (year_of_day d)) (doy_of_day d)"

definition mday_of_day :: "int \<Rightarrow> int" where
  "mday_of_day d = doy_of_day d - month_start (leap_year (year_of_day d)) (month_of_day d) + 1"

definition getUTCFullYear :: "date \<Rightarrow> int" where "getUTCFullYear t = year_of_day (day_of t)"
definition getUTCMonth :: "date \<Rightarrow> int" where "getUTCMonth t = month_of_day (day_of t)"
definition getUTCDate :: "date \<Rightarrow> int" where "getUTCDate t = mday_of_day (day_of t)"
definition getUTCDay :: "date \<Rightarrow> int" where "getUTCDay t = (day_of t + 4) mod 7"

definition make_day :: "int \<Rightarrow> int \<Rightarrow> int \<Rightarrow> int" where
  "make_day y m d = day_from_year (y + m div 12)
     + month_start (leap_year (y + m div 12)) (m mod 12) + d - 1"

definition date_UTC :: "int \<Rightarrow> int \<Rightarrow> int \<Rightarrow> date" where
  \<comment> \<open>\<open>Date.UTC(y, m, d)\<close>, with years given in full\<close>
  "date_UTC y m d = make_day y m d * ms_per_day"

definition setUTCHours :: "date \<Rightarrow> int \<Rightarrow> int \<Rightarrow> date" where
  \<comment> \<open>\<open>t.setUTCHours(h, m, 0, 0)\<close>\<close>
  "setUTCHours t h m = day_of t * ms_per_day + h * 3600000 + m * 60000"

definition addUTCDays :: "date \<Rightarrow> int \<Rightarrow> date" where
  \<comment> \<open>\<open>t.setUTCDate(t.getUTCDate() + n)\<close>\<close>
  "addUTCDays t n = make_day (getUTCFullYear t) (getUTCMonth t) (getUTCDate t + n) * ms_per_day
     + t mod ms_per_day"

definition addUTCMonths :: "date \<Rightarrow> int \<Rightarrow> date" where
  \<comment> \<open>\<open>t.setUTCMonth(t.getUTCMonth() + n)\<close>\<close>
  "addUTCMonths t n = make_day (getUTCFullYear t) (getUTCMonth t + n) (getUTCDate t) * ms_per_day
     + t mod ms_per_day"

definition addUTCYears :: "date \<Rightarrow> int \<Rightarrow> date" where
  \<comment> \<open>\<open>t.setUTCFullYear(t.getUTCFullYear() + n)\<close>\<close>
  "addUTCYears t n = make_day (getUTCFullYear t + n) (getUTCMonth t) (getUTCDate t) * ms_per_day
     + t mod ms_per_day"

text \<open>The same setters on local time, at a zone offset \<open>tz\<close>.\<close>

definition addLocalMonths :: "int \<Rightarrow> date \<Rightarrow> int \<Rightarrow> date" where
  "addLocalMonths tz t n = addUTCMonths (t + tz) n - tz"

definition addLocalYears :: "int \<Rightarrow> date \<Rightarrow> int \<Rightarrow> date" where
  "addLocalYears tz t n = addUTCYears (t + tz) n - tz"

section \<open>The accessors invert the constructor\<close>

lemma doy_of_day_bounds:
  "0 \<le> doy_of_day d" "doy_of_day d < (if leap_year (year_of_day d) then 366 else 365)"
  using year_of_day_bounds[of d] by (auto simp: doy_of_day_def day_from_year_Suc)

lemma month_of_day_bounds [js_date]: "0 \<le> month_of_day d" "month_of_day d \<le> 11"
  unfolding month_of_day_def by (rule month_of_doy_bounds[OF doy_of_day_bounds])+

lemma mday_of_day_bounds [js_date]:
  "1 \<le> mday_of_day d" "mday_of_day d \<le> month_days (leap_year (year_of_day d)) (month_of_day d)"
  using month_of_doy_bounds(3,4)[OF doy_of_day_bounds[of d]]
  by (simp_all add: mday_of_day_def month_of_day_def)

lemma make_day_of_day [js_date]: "make_day (year_of_day d) (month_of_day d) (mday_of_day d + n) = d + n"
  using month_of_day_bounds[of d]
  by (simp add: make_day_def mday_of_day_def doy_of_day_def)

lemma make_day_of_day_0 [js_date]: "make_day (year_of_day d) (month_of_day d) (mday_of_day d) = d"
  using make_day_of_day[of d 0] by simp

lemma civil_of_make_day:
  assumes "0 \<le> m" "m \<le> 11" "1 \<le> d" "d \<le> month_days (leap_year y) m"
  shows "year_of_day (make_day y m d) = y"
    and "month_of_day (make_day y m d) = m"
    and "mday_of_day (make_day y m d) = d"
proof -
  note b = month_start_bound[OF assms]
  have md: "make_day y m d = day_from_year y + (month_start (leap_year y) m + d - 1)"
    using assms by (simp add: make_day_def)
  show y: "year_of_day (make_day y m d) = y"
    by (rule year_of_day_unique) (use b in \<open>auto simp: md day_from_year_Suc split: if_splits\<close>)
  then have doy: "doy_of_day (make_day y m d) = month_start (leap_year y) m + d - 1"
    by (simp add: doy_of_day_def md)
  then show m: "month_of_day (make_day y m d) = m"
    using month_of_doy_start[OF assms] by (simp add: month_of_day_def y)
  show "mday_of_day (make_day y m d) = d" by (simp add: mday_of_day_def doy y m)
qed

lemma addUTCDays_eq [js_date]: "addUTCDays t n = t + n * ms_per_day"
  by (simp add: addUTCDays_def getUTCFullYear_def getUTCMonth_def getUTCDate_def make_day_of_day
      day_of_def distrib_right ms_per_day_def)

lemma day_of_midnight [simp, js_date]: "day_of (d * ms_per_day) = d"
  by (simp add: day_of_def ms_per_day_def)

lemma date_UTC_self [js_date]:
  "date_UTC (getUTCFullYear t) (getUTCMonth t) (getUTCDate t) = day_of t * ms_per_day"
  by (simp add: date_UTC_def getUTCFullYear_def getUTCMonth_def getUTCDate_def make_day_of_day_0)

section \<open>Numbers and dates as strings\<close>

fun nat_digits :: "nat \<Rightarrow> string" where
  "nat_digits n = (if n < 10 then [char_of (48 + n)] else nat_digits (n div 10) @ [char_of (48 + n mod 10)])"

declare nat_digits.simps [simp del]

definition int_str :: "int \<Rightarrow> string" where
  \<comment> \<open>\<open>String(n)\<close> of an integer\<close>
  "int_str n = (if n < 0 then ''-'' @ nat_digits (nat (- n)) else nat_digits (nat n))"

definition pad2 :: "string \<Rightarrow> string" where
  \<comment> \<open>\<open>s.padStart(2, '0')\<close>\<close>
  "pad2 s = replicate (2 - length s) CHR ''0'' @ s"

end
