(* ===== verification/JsNumber.thy ===== *)
theory JsNumber
  imports Prelude "HOL-Library.Log_Nat"
begin

text \<open>
  JavaScript numbers. A finite \<open>number\<close> is an IEEE binary64 value, that is a rational
  \<open>m * 2 ^ e\<close> with \<open>\<bar>m\<bar> < 2 ^ 53\<close>; the type of the model is \<open>rat\<close> and every arithmetic
  operation of the source whose exact result need not be such a value is followed by \<open>fl\<close>,
  the rounding to nearest, ties to even. The exponent range is not bounded: overflow to
  infinity above \<open>2 ^ 1024\<close> and subnormal results below \<open>2 ^ -1022\<close> are outside the
  model (no amount, duration or percentage of the program comes near them).
  \<open>Math.round x\<close> is \<open>\<lfloor>x + 1/2\<rfloor>\<close>, which is \<open>round\<close> of the library; \<open>Math.floor\<close> and
  \<open>Math.ceil\<close> are \<open>floor\<close> and \<open>ceiling\<close>.
\<close>

section \<open>Rounding to binary64\<close>

definition rne :: "rat \<Rightarrow> int" where
  \<comment> \<open>nearest integer, ties to even\<close>
  "rne x = (let f = \<lfloor>x\<rfloor>; d = x - of_int f in
     if d < 1/2 then f else if d > 1/2 then f + 1 else if even f then f else f + 1)"

definition flexp :: "rat \<Rightarrow> int" where
  \<comment> \<open>for a positive \<open>x\<close>, the exponent \<open>e\<close> with \<open>2 ^ 52 \<le> x / 2 ^ e < 2 ^ 53\<close>\<close>
  "flexp x = (let e = bitlen (fst (quotient_of x)) - bitlen (snd (quotient_of x)) - 53
     in if x < 2 powi (e + 53) then e else e + 1)"

definition fl :: "rat \<Rightarrow> rat" where
  "fl x = (if x = 0 then 0
     else sgn x * of_int (rne (\<bar>x\<bar> * 2 powi (- flexp \<bar>x\<bar>))) * 2 powi (flexp \<bar>x\<bar>))"

section \<open>The operators of the source\<close>

definition jadd :: "rat \<Rightarrow> rat \<Rightarrow> rat" where "jadd x y = fl (x + y)"
definition jsub :: "rat \<Rightarrow> rat \<Rightarrow> rat" where "jsub x y = fl (x - y)"
definition jmul :: "rat \<Rightarrow> rat \<Rightarrow> rat" where "jmul x y = fl (x * y)"
definition jdiv :: "rat \<Rightarrow> rat \<Rightarrow> rat" where
  \<comment> \<open>for a divisor that is not zero\<close>
  "jdiv x y = fl (x / y)"

definition number_epsilon :: rat where
  \<comment> \<open>\<open>Number.EPSILON\<close>\<close>
  "number_epsilon = 1 / 2 ^ 52"

section \<open>Nearest integers\<close>

lemma rne_error: "\<bar>of_int (rne x) - x\<bar> \<le> 1/2"
proof -
  have "of_int \<lfloor>x\<rfloor> \<le> x" "x < of_int \<lfloor>x\<rfloor> + 1" by linarith+
  then show ?thesis by (auto simp: rne_def Let_def abs_le_iff)
qed

lemma rne_of_int [simp]: "rne (of_int k) = k"
  by (simp add: rne_def)

lemma rne_mono: assumes "x \<le> y" shows "rne x \<le> rne y"
proof (cases "\<lfloor>x\<rfloor> = \<lfloor>y\<rfloor>")
  case True
  then show ?thesis using assms by (auto simp: rne_def Let_def)
next
  case False
  with assms have *: "\<lfloor>x\<rfloor> + 1 \<le> \<lfloor>y\<rfloor>" using floor_mono[OF assms] by linarith
  have "rne x \<le> \<lfloor>x\<rfloor> + 1" "\<lfloor>y\<rfloor> \<le> rne y" by (auto simp: rne_def Let_def)
  with * show ?thesis by linarith
qed

section \<open>The exponent\<close>

lemma two_powi_pos [simp]: "(0::rat) < 2 powi e"
  by (simp add: zero_less_power_int)

lemma flexp_bounds:
  assumes "0 < x"
  shows "2 powi (flexp x + 52) \<le> x" and "x < 2 powi (flexp x + 53)"
proof -
  obtain p q where pq: "quotient_of x = (p, q)" by fastforce
  have q: "0 < q" using pq quotient_of_denom_pos by blast
  have x: "x = of_int p / of_int q" using pq quotient_of_div by blast
  have p: "0 < p" using assms x q by (simp add: zero_less_divide_iff)
  define a b where "a = bitlen p" and "b = bitlen q"
  have a1: "1 \<le> a" and b1: "1 \<le> b"
    using p q compute_bitlen[of p] compute_bitlen[of q] bitlen_nonneg[of "p div 2"] bitlen_nonneg[of "q div 2"]
    by (simp_all add: a_def b_def)
  have pw: "(of_int (2 ^ nat n) :: rat) = 2 powi n" if "0 \<le> n" for n
    using that by (simp add: power_int_def)
  have P: "(2 :: rat) powi (a - 1) \<le> of_int p" "of_int p < (2::rat) powi a"
    using bitlen_bounds[OF p] a1
    by (metis a_def pw of_int_le_iff of_int_less_iff diff_ge_0_iff_ge order_trans zero_le_one)+
  have Q: "(2 :: rat) powi (b - 1) \<le> of_int q" "of_int q < (2::rat) powi b"
    using bitlen_bounds[OF q] b1
    by (metis b_def pw of_int_le_iff of_int_less_iff diff_ge_0_iff_ge order_trans zero_le_one)+
  have qpos: "(0::rat) < of_int q" using q by simp
  define e where "e = a - b - 53"
  have lo: "2 powi (e + 52) \<le> x"
  proof -
    have "(2::rat) powi (e + 52) * of_int q \<le> 2 powi (e + 52) * 2 powi b"
      using Q(2) by (intro mult_left_mono) auto
    also have "\<dots> = (2::rat) powi (a - 1)" by (simp add: e_def flip: power_int_add)
    also have "\<dots> \<le> of_int p" by (rule P(1))
    finally show ?thesis using qpos by (simp add: x pos_le_divide_eq)
  qed
  have hi: "x < 2 powi (e + 54)"
  proof -
    have "of_int p < (2::rat) powi a" by (rule P(2))
    also have "\<dots> = (2::rat) powi (e + 54) * 2 powi (b - 1)" by (simp add: e_def flip: power_int_add)
    also have "\<dots> \<le> (2::rat) powi (e + 54) * of_int q" using Q(1) by (intro mult_left_mono) auto
    finally show ?thesis using qpos by (simp add: x pos_divide_less_eq)
  qed
  have fe: "flexp x = (if x < 2 powi (e + 53) then e else e + 1)"
    by (simp add: flexp_def pq a_def b_def e_def Let_def)
  show "2 powi (flexp x + 52) \<le> x" using lo fe by (auto simp: add.commute split: if_splits)
  show "x < 2 powi (flexp x + 53)" using hi fe by (auto simp: add.commute split: if_splits)
qed


lemma two_powi_less_iff [simp]: "(2::rat) powi a < 2 powi b \<longleftrightarrow> a < b"
  using power_int_strict_increasing[of a b "2::rat"] power_int_increasing[of b a "2::rat"]
  by (cases "a < b") (auto simp: not_less)

lemma two_powi_le_iff [simp]: "(2::rat) powi a \<le> 2 powi b \<longleftrightarrow> a \<le> b"
  using two_powi_less_iff[of b a] by (simp only: not_less[symmetric])

lemma flexp_unique:
  assumes "0 < x" "2 powi (e + 52) \<le> x" "x < 2 powi (e + 53)"
  shows "flexp x = e"
proof -
  note b = flexp_bounds[OF assms(1)]
  have "(2::rat) powi (e + 52) < 2 powi (flexp x + 53)" using assms(2) b(2) by (rule order_le_less_trans)
  moreover have "(2::rat) powi (flexp x + 52) < 2 powi (e + 53)" using b(1) assms(3) by (rule order_le_less_trans)
  ultimately show ?thesis by simp
qed

lemma flexp_mono: assumes "0 < x" "x \<le> y" shows "flexp x \<le> flexp y"
proof -
  have "(2::rat) powi (flexp x + 52) \<le> x" using assms(1) by (rule flexp_bounds)
  also have "\<dots> \<le> y" by (rule assms(2))
  also have "\<dots> < 2 powi (flexp y + 53)" using assms by (intro flexp_bounds) simp
  finally show ?thesis by simp
qed

section \<open>Rounding: sign, error, exactness, order\<close>

lemma fl_0 [simp, js_arith]: "fl 0 = 0"
  by (simp add: fl_def)

lemma fl_pos: "0 < x \<Longrightarrow> fl x = of_int (rne (x * 2 powi (- flexp x))) * 2 powi (flexp x)"
  by (simp add: fl_def)

lemma fl_minus [simp, js_arith]: "fl (- x) = - fl x"
  by (simp add: fl_def)

lemma fl_error_pos:
  assumes "0 < x" shows "\<bar>fl x - x\<bar> \<le> x / 2 ^ 53"
proof -
  define e where "e = flexp x"
  define y where "y = x * 2 powi (- e)"
  have x: "x = y * 2 powi e" by (simp add: y_def power_int_minus)
  have "fl x - x = (of_int (rne y) - y) * 2 powi e"
    using assms by (simp add: fl_pos flip: e_def y_def) (simp add: x left_diff_distrib)
  then have "\<bar>fl x - x\<bar> = \<bar>of_int (rne y) - y\<bar> * 2 powi e" by (simp add: abs_mult)
  also have "\<dots> \<le> 1/2 * 2 powi e" using rne_error by (intro mult_right_mono) auto
  also have "\<dots> = 2 powi (e + 52) / 2 ^ 53" by (simp add: power_int_add)
  also have "\<dots> \<le> x / 2 ^ 53" using flexp_bounds(1)[OF assms] by (intro divide_right_mono) (auto simp: e_def)
  finally show ?thesis .
qed

lemma fl_error: "\<bar>fl x - x\<bar> \<le> \<bar>x\<bar> / 2 ^ 53"
proof -
  consider "x = 0" | "0 < x" | "0 < - x" by linarith
  then show ?thesis
  proof cases
    case 3
    then show ?thesis using fl_error_pos[OF 3] by simp
  qed (use fl_error_pos in auto)
qed

lemma fl_exact_pos:
  assumes "0 < m" "m \<le> 2 ^ 53" shows "fl (of_int m * 2 powi k) = of_int m * 2 powi k"
proof -
  define x :: rat where "x = of_int m * 2 powi k"
  define e where "e = flexp x"
  have pos: "0 < x" using assms by (simp add: x_def)
  have "m < 2 ^ 53 \<or> m = 2 ^ 53" using assms by linarith
  then obtain n :: int where n: "x * 2 powi (- e) = of_int n"
  proof
    assume "m < 2 ^ 53"
    then have "(of_int m :: rat) < 2 powi 53" by (simp add: power_int_def)
    then have "x < 2 powi (k + 53)" by (simp add: x_def power_int_add)
    with flexp_bounds(1)[OF pos] have "(2::rat) powi (e + 52) < 2 powi (k + 53)"
      unfolding e_def by (rule order_le_less_trans)
    then have "0 \<le> k - e" by simp
    moreover have "x * 2 powi (- e) = of_int m * 2 powi (k - e)"
      by (simp add: x_def mult.assoc flip: power_int_add)
    ultimately have "x * 2 powi (- e) = of_int (m * 2 ^ nat (k - e))"
      by (simp add: power_int_def)
    then show thesis by (rule that)
  next
    assume m: "m = 2 ^ 53"
    have x2: "x = 2 powi (k + 53)" by (simp add: x_def m power_int_add)
    have "e = k + 1" unfolding e_def
      by (rule flexp_unique[OF pos]) (simp_all add: x2)
    then have "x * 2 powi (- e) = 2 powi 52" by (simp add: x2 flip: power_int_add)
    then have "x * 2 powi (- e) = of_int (2 ^ 52)" by simp
    then show thesis by (rule that)
  qed
  have "fl x = of_int n * 2 powi e" using pos n by (simp add: fl_pos flip: e_def)
  also have "\<dots> = x" by (simp flip: n) (simp add: power_int_minus)
  finally show ?thesis by (simp add: x_def)
qed

lemma fl_exact:
  assumes "\<bar>m\<bar> \<le> 2 ^ 53" shows "fl (of_int m * 2 powi k) = of_int m * 2 powi k"
proof -
  consider "m = 0" | "0 < m" | "0 < - m" by linarith
  then show ?thesis
  proof cases
    case 3
    then have "fl (of_int (- m) * 2 powi k) = of_int (- m) * 2 powi k"
      using assms by (intro fl_exact_pos) auto
    then show ?thesis by simp
  qed (use assms fl_exact_pos in auto)
qed

lemma fl_of_int: "\<bar>k\<bar> \<le> 2 ^ 53 \<Longrightarrow> fl (of_int k) = of_int k"
  using fl_exact[of k 0] by simp

lemma fl_of_int_bound [js_arith]: "\<bar>k\<bar> \<le> 9007199254740992 \<Longrightarrow> fl (of_int k) = of_int k"
  by (rule fl_of_int) simp

lemma fl_numeral [simp]: "(numeral n :: int) \<le> 9007199254740992 \<Longrightarrow> fl (numeral n) = numeral n"
  using fl_of_int[of "numeral n"] by simp

lemma fl_one [simp]: "fl 1 = 1"
  using fl_of_int[of 1] by simp

lemma fl_gt_zero: assumes "0 < x" shows "0 < fl x"
proof -
  have "x - fl x \<le> x / 2 ^ 53" using fl_error_pos[OF assms] by (rule abs_le_D2[THEN order_trans[rotated]]) simp
  moreover have "x / 2 ^ 53 < x" using assms by (simp add: divide_less_eq)
  ultimately show ?thesis by linarith
qed

lemma fl_nonneg: "0 \<le> x \<Longrightarrow> 0 \<le> fl x"
  using fl_gt_zero[of x] by (cases "x = 0") auto

lemma fl_mono_pos:
  assumes "0 < x" "x \<le> y" shows "fl x \<le> fl y"
proof -
  define e f where "e = flexp x" and "f = flexp y"
  have y: "0 < y" using assms by simp
  have fx: "fl x = of_int (rne (x * 2 powi (- e))) * 2 powi e"
   and fy: "fl y = of_int (rne (y * 2 powi (- f))) * 2 powi f"
    using assms y by (simp_all add: fl_pos e_def f_def)
  consider "e = f" | "e < f" using flexp_mono[OF assms] by (fastforce simp: e_def f_def)
  then show ?thesis
  proof cases
    case 1
    have "rne (x * 2 powi (- e)) \<le> rne (y * 2 powi (- e))"
      using assms by (intro rne_mono mult_right_mono) auto
    then show ?thesis unfolding fx fy 1 by (intro mult_right_mono) (auto simp: 1)
  next
    case 2
    have "x * 2 powi (- e) \<le> 2 powi (e + 53) * 2 powi (- e)"
      using flexp_bounds(2)[OF assms(1)] by (intro mult_right_mono) (auto simp: e_def)
    also have "\<dots> = 2 powi 53" by (simp flip: power_int_add)
    also have "\<dots> = of_int (2 ^ 53)" by (simp add: power_int_def)
    finally have "rne (x * 2 powi (- e)) \<le> rne (of_int (2 ^ 53))" by (rule rne_mono)
    then have "fl x \<le> of_int (2 ^ 53) * 2 powi e"
      unfolding fx rne_of_int by (intro mult_right_mono) (auto simp only: of_int_le_iff two_powi_pos less_imp_le)
    also have "\<dots> = 2 powi (e + 53)" by (simp add: power_int_add)
    also have "\<dots> \<le> 2 powi (f + 52)" using 2 by simp
    also have "\<dots> = of_int (2 ^ 52) * 2 powi f" by (simp add: power_int_add)
    also have "\<dots> \<le> fl y"
    proof -
      have "of_int (2 ^ 52) = (2::rat) powi 52" by (simp add: power_int_def)
      also have "\<dots> = 2 powi (f + 52) * 2 powi (- f)" by (simp flip: power_int_add)
      also have "\<dots> \<le> y * 2 powi (- f)"
        using flexp_bounds(1)[OF y] by (intro mult_right_mono) (auto simp: f_def)
      finally have "rne (of_int (2 ^ 52)) \<le> rne (y * 2 powi (- f))" by (rule rne_mono)
      then show ?thesis
        unfolding fy rne_of_int by (intro mult_right_mono) (auto simp only: of_int_le_iff two_powi_pos less_imp_le)
    qed
    finally show ?thesis .
  qed
qed

lemma fl_mono: assumes "x \<le> y" shows "fl x \<le> fl y"
proof -
  consider "0 < x" | "y < 0" | "x \<le> 0" "0 \<le> y" by linarith
  then show ?thesis
  proof cases
    case 1
    then show ?thesis using assms by (rule fl_mono_pos)
  next
    case 2
    then have "fl (- y) \<le> fl (- x)" using assms by (intro fl_mono_pos) auto
    then show ?thesis by simp
  next
    case 3
    then have "0 \<le> fl (- x)" "0 \<le> fl y" by (simp_all add: fl_nonneg del: fl_minus)
    then have "fl x \<le> 0" "0 \<le> fl y" by simp_all
    then show ?thesis by (rule order_trans)
  qed
qed

lemma fl_le_int: "x \<le> of_int k \<Longrightarrow> \<bar>k\<bar> \<le> 2 ^ 53 \<Longrightarrow> fl x \<le> of_int k"
  using fl_mono[of x "of_int k"] fl_of_int[of k] by simp

lemma fl_ge_int: "of_int k \<le> x \<Longrightarrow> \<bar>k\<bar> \<le> 2 ^ 53 \<Longrightarrow> of_int k \<le> fl x"
  using fl_mono[of "of_int k" x] fl_of_int[of k] by simp

lemma fl_pos_iff [simp]: "0 < fl x \<longleftrightarrow> 0 < x"
proof
  assume "0 < x"
  then show "0 < fl x" by (rule fl_gt_zero)
next
  assume "0 < fl x"
  show "0 < x"
  proof (rule ccontr)
    assume "\<not> 0 < x"
    then have "fl x \<le> fl 0" by (intro fl_mono) simp
    with \<open>0 < fl x\<close> show False by simp
  qed
qed

lemma fl_zero_iff [simp]: "fl x = 0 \<longleftrightarrow> x = 0"
proof
  assume "fl x = 0"
  then have "\<not> 0 < fl x" "\<not> 0 < fl (- x)" by simp_all
  then show "x = 0" unfolding fl_pos_iff by linarith
qed simp

lemma fl_neg_iff [simp]: "fl x < 0 \<longleftrightarrow> x < 0"
  using fl_pos_iff[of "- x"] by simp

lemma fl_nonneg_iff [simp]: "0 \<le> fl x \<longleftrightarrow> 0 \<le> x"
  using fl_neg_iff[of x] by linarith

lemma fl_nonpos_iff [simp]: "fl x \<le> 0 \<longleftrightarrow> x \<le> 0"
  using fl_pos_iff[of x] by linarith

section \<open>Values of the format and multiples of one half\<close>

lemma fl_representable: "\<exists>m k. \<bar>m\<bar> \<le> 2 ^ 53 \<and> fl x = of_int m * 2 powi k"
proof -
  have pos: "\<exists>m k. \<bar>m\<bar> \<le> 2 ^ 53 \<and> fl y = of_int m * 2 powi k" if y: "0 < y" for y
  proof -
    define e where "e = flexp y"
    define z where "z = y * 2 powi (- e)"
    have "y < 2 powi (e + 53)" unfolding e_def using y by (rule flexp_bounds)
    then have "z < 2 powi (e + 53) * 2 powi (- e)" unfolding z_def by (rule mult_strict_right_mono) simp
    also have "2 powi (e + 53) * 2 powi (- e) = (of_int (2 ^ 53) :: rat)"
      by (subst power_int_add[symmetric]) (simp_all add: power_int_def)
    finally have "rne z \<le> 2 ^ 53" using rne_mono[of z "of_int (2 ^ 53)"] unfolding rne_of_int by simp
    moreover have "0 \<le> z" unfolding z_def using y by simp
    then have "0 \<le> rne z" using rne_mono[of 0 z] rne_of_int[of 0] by simp
    ultimately have "\<bar>rne z\<bar> \<le> 2 ^ 53" by simp
    moreover have "fl y = of_int (rne z) * 2 powi e" unfolding z_def e_def by (rule fl_pos[OF y])
    ultimately show ?thesis by blast
  qed
  consider "x = 0" | "0 < x" | "0 < - x" by linarith
  then show ?thesis
  proof cases
    case 1
    then have "\<bar>0::int\<bar> \<le> 2 ^ 53 \<and> fl x = of_int 0 * 2 powi 0" by simp
    then show ?thesis by blast
  next
    case 3
    from pos[OF 3] obtain m k where "\<bar>m\<bar> \<le> 2 ^ 53" "- fl x = of_int m * 2 powi k" by auto
    then have "\<bar>- m\<bar> \<le> 2 ^ 53 \<and> fl x = of_int (- m) * 2 powi k" by (simp add: minus_equation_iff[of "fl x"])
    then show ?thesis by blast
  qed (rule pos)
qed

lemma fl_idem [simp]: "fl (fl x) = fl x"
  using fl_representable[of x] fl_exact by force

definition halves :: "int \<Rightarrow> rat \<Rightarrow> bool" where
  \<comment> \<open>\<open>x\<close> is a multiple of one half of absolute value at most \<open>b / 2\<close>\<close>
  "halves b x \<longleftrightarrow> of_int \<lfloor>2 * x\<rfloor> = 2 * x \<and> \<bar>\<lfloor>2 * x\<rfloor>\<bar> \<le> b"

lemma halves_iff: "halves b x \<longleftrightarrow> (\<exists>k. x = of_int k / 2 \<and> \<bar>k\<bar> \<le> b)"
proof
  assume h: "halves b x"
  have "x = 2 * x / 2" by simp
  also have "\<dots> = of_int \<lfloor>2 * x\<rfloor> / 2" using h unfolding halves_def by (simp only:)
  finally have "x = of_int \<lfloor>2 * x\<rfloor> / 2 \<and> \<bar>\<lfloor>2 * x\<rfloor>\<bar> \<le> b" using h unfolding halves_def by blast
  then show "\<exists>k. x = of_int k / 2 \<and> \<bar>k\<bar> \<le> b" by blast
next
  assume "\<exists>k. x = of_int k / 2 \<and> \<bar>k\<bar> \<le> b"
  then obtain k where k: "x = of_int k / 2" "\<bar>k\<bar> \<le> b" by blast
  have "2 * x = of_int k" unfolding k(1) by simp
  with k(2) show "halves b x" unfolding halves_def by (simp only: floor_of_int)
qed

lemma halves_0 [simp]: "0 \<le> b \<Longrightarrow> halves b 0" by (simp add: halves_def)

lemma halves_mono: "halves a x \<Longrightarrow> a \<le> b \<Longrightarrow> halves b x" by (auto simp: halves_def)

lemma halves_uminus [simp]: "halves b (- x) \<longleftrightarrow> halves b x"
proof -
  have "halves b (- y)" if "halves b y" for y
    using that unfolding halves_iff by (metis abs_minus_cancel minus_divide_left of_int_minus)
  from this[of x] this[of "- x"] show ?thesis by auto
qed

lemma halves_add: "halves a x \<Longrightarrow> halves b y \<Longrightarrow> halves (a + b) (x + y)"
  unfolding halves_iff
  by (metis (no_types, lifting) abs_triangle_ineq add_divide_distrib add_mono of_int_add order_trans)

lemma halves_diff: "halves a x \<Longrightarrow> halves b y \<Longrightarrow> halves (a + b) (x - y)"
  using halves_add[of a x b "- y"] by simp

lemma fl_halves: assumes "halves b x" "b \<le> 2 ^ 53" shows "fl x = x"
proof -
  obtain k where k: "x = of_int k / 2" "\<bar>k\<bar> \<le> b" using assms(1) unfolding halves_iff by blast
  have x: "x = of_int k * 2 powi (- 1)" by (simp add: k(1) power_int_minus)
  have "\<bar>k\<bar> \<le> 2 ^ 53" using k(2) assms(2) by simp
  then show ?thesis unfolding x by (rule fl_exact)
qed

end
