(* ===== verification/JsString.thy ===== *)
theory JsString
  imports JsDate JsNumber
begin

text \<open>
  JavaScript strings, as lists of characters. The strings of the program's keys, codes and
  times are ASCII, where one \<open>char\<close> is one UTF-16 unit; texts outside ASCII (the dash in
  some messages) are their UTF-8 bytes and are only ever concatenated.
\<close>

section \<open>Comparison, splitting and joining\<close>

fun str_less :: "string \<Rightarrow> string \<Rightarrow> bool" where
  \<comment> \<open>the operator \<open><\<close> on strings: lexicographic on code units\<close>
  "str_less [] ys = (ys \<noteq> [])"
| "str_less (x # xs) [] = False"
| "str_less (x # xs) (y # ys) = (if x = y then str_less xs ys else (of_char x :: nat) < of_char y)"

definition str_le :: "string \<Rightarrow> string \<Rightarrow> bool" where
  "str_le xs ys = (\<not> str_less ys xs)"

lemma str_less_irrefl [simp]: "\<not> str_less xs xs"
  by (induction xs) auto

lemma str_less_Nil [simp]: "\<not> str_less xs []"
  by (cases xs) auto

lemma str_less_asym: "str_less xs ys \<Longrightarrow> \<not> str_less ys xs"
  by (induction xs ys rule: str_less.induct) (auto split: if_splits)

lemma str_less_trans: "str_less xs ys \<Longrightarrow> str_less ys zs \<Longrightarrow> str_less xs zs"
proof (induction xs ys arbitrary: zs rule: str_less.induct)
  case (3 x xs y ys)
  then show ?case by (cases zs) (auto split: if_splits)
qed (auto elim: str_less.elims)

lemma str_less_linear: "str_less xs ys \<or> xs = ys \<or> str_less ys xs"
proof (induction xs ys rule: str_less.induct)
  case (1 ys)
  then show ?case by (cases ys) auto
next
  case (3 x xs y ys)
  then show ?case by (auto simp: linorder_neq_iff dest: arg_cong[where f = char_of])
      (metis char_of_char linorder_neqE_nat)+
qed simp

fun split_on :: "char \<Rightarrow> string \<Rightarrow> string list" where
  \<comment> \<open>\<open>s.split(c)\<close> for a one-character separator\<close>
  "split_on c [] = [[]]"
| "split_on c (x # xs) = (if x = c then [] # split_on c xs
     else (case split_on c xs of [] \<Rightarrow> [[x]] | w # ws \<Rightarrow> (x # w) # ws))"

fun join_with :: "char \<Rightarrow> string list \<Rightarrow> string" where
  \<comment> \<open>\<open>xs.join(c)\<close>\<close>
  "join_with c [] = []"
| "join_with c [w] = w"
| "join_with c (w # v # ws) = w @ c # join_with c (v # ws)"

lemma split_on_nonempty [simp]: "split_on c s \<noteq> []"
  by (cases s) (auto split: list.splits)

lemma join_split [simp]: "join_with c (split_on c s) = s"
proof (induction s)
  case (Cons x xs)
  then show ?case by (cases "split_on c xs"; cases "tl (split_on c xs)") auto
qed simp

lemma split_on_no_sep: "c \<notin> set s \<Longrightarrow> split_on c s = [s]"
  by (induction s) auto

lemma split_on_append_sep: "c \<notin> set w \<Longrightarrow> split_on c (w @ c # s) = w # split_on c s"
  by (induction w) auto

definition ends_with :: "string \<Rightarrow> string \<Rightarrow> bool" where
  \<comment> \<open>\<open>s.endsWith(t)\<close>\<close>
  "ends_with s t = (length t \<le> length s \<and> drop (length s - length t) s = t)"

definition starts_with :: "string \<Rightarrow> string \<Rightarrow> bool" where
  \<comment> \<open>\<open>s.startsWith(t)\<close>\<close>
  "starts_with s t = (take (length t) s = t)"

lemma ends_with_iff: "ends_with s t \<longleftrightarrow> (\<exists>r. s = r @ t)"
proof
  assume "ends_with s t"
  then have "s = take (length s - length t) s @ t" by (simp add: ends_with_def) (metis append_take_drop_id)
  then show "\<exists>r. s = r @ t" by blast
qed (auto simp: ends_with_def)

definition is_space :: "char \<Rightarrow> bool" where
  "is_space c = (c \<in> {CHR '' '', CHR 0x09, CHR 0x0A, CHR 0x0B, CHR 0x0C, CHR 0x0D})"

definition trim :: "string \<Rightarrow> string" where
  \<comment> \<open>\<open>s.trim()\<close>\<close>
  "trim s = rev (dropWhile is_space (rev (dropWhile is_space s)))"

definition to_lower :: "string \<Rightarrow> string" where
  \<comment> \<open>\<open>s.toLowerCase()\<close>\<close>
  "to_lower s = map (\<lambda>c. let n = (of_char c :: nat) in if 65 \<le> n \<and> n \<le> 90 then char_of (n + 32) else c) s"

section \<open>Numbers in strings\<close>

definition is_digit :: "char \<Rightarrow> bool" where
  "is_digit c = (48 \<le> (of_char c :: nat) \<and> (of_char c :: nat) \<le> 57)"

definition digit_val :: "char \<Rightarrow> int" where
  "digit_val c = int (of_char c) - 48"

definition digits_val :: "string \<Rightarrow> int" where
  "digits_val ds = foldl (\<lambda>n c. 10 * n + digit_val c) 0 ds"

definition parse_unsigned :: "string \<Rightarrow> int option" where
  "parse_unsigned s = (let ds = takeWhile is_digit s in if ds = [] then None else Some (digits_val ds))"

definition parse_int :: "string \<Rightarrow> int option" where
  \<comment> \<open>\<open>parseInt(s, 10)\<close>; \<open>NaN\<close> is \<open>None\<close>\<close>
  "parse_int s = (case dropWhile is_space s of
      [] \<Rightarrow> None
    | c # cs \<Rightarrow> if c = CHR ''-'' then map_option uminus (parse_unsigned cs)
        else if c = CHR ''+'' then parse_unsigned cs
        else parse_unsigned (c # cs))"

lemma nat_digits_are_digits: "c \<in> set (nat_digits n) \<Longrightarrow> is_digit c"
proof (induction n rule: nat_digits.induct)
  case (1 n)
  have d: "is_digit (char_of (48 + k))" if "k < 10" for k :: nat
    using that by (simp add: is_digit_def)
  show ?case
  proof (cases "n < 10")
    case True
    then show ?thesis using "1.prems" d by (simp add: nat_digits.simps[of n])
  next
    case False
    then consider "c \<in> set (nat_digits (n div 10))" | "c = char_of (48 + n mod 10)"
      using "1.prems" by (auto simp: nat_digits.simps[of n])
    then show ?thesis by cases (use False "1.IH" d[of "n mod 10"] in auto)
  qed
qed

lemma digits_val_snoc: "digits_val (ds @ [c]) = 10 * digits_val ds + digit_val c"
  by (simp add: digits_val_def)

lemma digits_val_nat_digits: "digits_val (nat_digits n) = int n"
proof (induction n rule: nat_digits.induct)
  case (1 n)
  have d: "digit_val (char_of (48 + k)) = int k" if "k < 10" for k :: nat
    using that by (simp add: digit_val_def)
  show ?case
  proof (cases "n < 10")
    case True
    then show ?thesis by (simp add: nat_digits.simps[of n] digits_val_def d)
  next
    case False
    then have "digits_val (nat_digits n) = 10 * int (n div 10) + int (n mod 10)"
      using 1 d[of "n mod 10"] by (simp add: nat_digits.simps[of n] digits_val_snoc)
    also have "\<dots> = int (10 * (n div 10) + n mod 10)" by (simp only: of_nat_add of_nat_mult of_nat_numeral)
    also have "\<dots> = int n" by (simp only: mult_div_mod_eq)
    finally show ?thesis .
  qed
qed

lemma nat_digits_nonempty [simp]: "nat_digits n \<noteq> []"
  by (subst nat_digits.simps) simp

lemma int_str_inj: "0 \<le> a \<Longrightarrow> 0 \<le> b \<Longrightarrow> int_str a = int_str b \<longleftrightarrow> a = b"
  by (metis digits_val_nat_digits int_nat_eq int_str_def not_less)

lemma int_str_digits: "0 \<le> a \<Longrightarrow> c \<in> set (int_str a) \<Longrightarrow> is_digit c"
  using nat_digits_are_digits by (simp add: int_str_def)

lemma pad2_val: "0 \<le> a \<Longrightarrow> digits_val (pad2 (int_str a)) = a"
proof -
  assume "0 \<le> a"
  have z: "digits_val (replicate k CHR ''0'' @ s) = digits_val s" for k s
    by (induction k) (simp_all add: digits_val_def digit_val_def)
  show ?thesis using \<open>0 \<le> a\<close> digits_val_nat_digits by (simp add: pad2_def z int_str_def)
qed

lemma pad2_digits: "0 \<le> a \<Longrightarrow> c \<in> set (pad2 (int_str a)) \<Longrightarrow> is_digit c"
  using int_str_digits by (auto simp: pad2_def is_digit_def)


text \<open>
  \<open>String(x)\<close> of a number: the shortest decimal that rounds back to \<open>x\<close>, the closest one
  when several are that short. Written out for magnitudes from \<open>10 ^ -6\<close> up to \<open>10 ^ 21\<close>,
  where JavaScript uses no exponent; thirty decimals are more than any of them needs.
\<close>

fun num_decimals :: "nat \<Rightarrow> rat \<Rightarrow> nat \<Rightarrow> nat" where
  "num_decimals 0 x d = d"
| "num_decimals (Suc n) x d =
     (if fl (of_int (round (x * 10 ^ d)) / 10 ^ d) = x then d else num_decimals n x (Suc d))"

definition num_str :: "rat \<Rightarrow> string" where
  "num_str x = (if x = of_int \<lfloor>x\<rfloor> then int_str \<lfloor>x\<rfloor>
     else let d = num_decimals 30 \<bar>x\<bar> 1; m = round (\<bar>x\<bar> * 10 ^ d);
              f = int_str (m mod 10 ^ d)
       in (if x < 0 then ''-'' else []) @ int_str (m div 10 ^ d) @ ''.''
          @ replicate (d - length f) CHR ''0'' @ f)"

lemma num_str_of_int [simp]: "num_str (of_int k) = int_str k"
  by (simp add: num_str_def)

end
