(* ===== verification/AttProjection.thy ===== *)
theory AttProjection
  imports JsString "HOL-Library.Multiset"
begin

text \<open>
  The attendance projection, \<open>src/src/modules/attendance/projection/compute.ts\<close>: the pure
  function that folds the raw punch events of one member on one day, the shift and the
  workspace policy into the daily summary stored on the attendance row. A time value is an
  \<open>int\<close> of milliseconds; minutes are binary64 numbers. A shift time that is not \<open>HH:mm\<close> makes
  an invalid \<open>Date\<close>, which is \<open>None\<close> here; the numbers computed from it are \<open>NaN\<close>, again
  \<open>None\<close>, and every comparison with \<open>NaN\<close> is false, as in the source.
\<close>

section \<open>Events, shifts and policies\<close>

datatype attendance_source = Src_manual | Src_manual_override | Src_device_push | Src_connector
  | Src_file_upload | Src_auto_cron | Src_regularization | Src_kiosk | Src_self | Src_leave

datatype punch_type = CHECK_IN | CHECK_OUT | BREAK_OUT | BREAK_IN | OT_IN | OT_OUT | STATUS_SET

record event_input =
  timestamp :: date
  punchType :: punch_type
  statusValue :: "string option"
  ev_source :: attendance_source

datatype shift_type = Fixed | Flexi | Split | Break

record shift_snapshot =
  startTime :: string
  endTime :: string
  gracePeriodMinutes :: rat
  halfDayAfterLateMinutes :: rat
  shiftType :: shift_type
  requiredHoursPerDay :: "rat option"

record early_departure_policy =
  ed_enabled :: bool
  ed_thresholdMinutes :: rat
  countAsHalfDay :: bool

record ot_policy =
  ot_enabled :: bool
  ot_thresholdMinutes :: rat
  capMinutes :: "rat option"

record policy_snapshot =
  earlyDeparture :: early_departure_policy
  ot :: ot_policy

record daily_summary =
  status :: string
  checkIn :: "date option"
  checkOut :: "date option"
  workedMinutes :: "rat option"
  lateMinutes :: "rat option"
  earlyMinutes :: rat
  otMinutes :: "rat option"
  computeReason :: string
  sum_dominantSource :: attendance_source

section \<open>Helpers\<close>

definition parseShiftTime :: "string \<Rightarrow> date \<Rightarrow> date option" where
  "parseShiftTime hhmm d = (let ws = split_on CHR '':'' hhmm in
     case parse_int (ws ! 0) of None \<Rightarrow> None
     | Some h \<Rightarrow> if length ws < 2 then None
         else (case parse_int (ws ! 1) of None \<Rightarrow> None | Some m \<Rightarrow> Some (setUTCHours d h m)))"

definition shiftEndOf :: "shift_snapshot \<Rightarrow> date \<Rightarrow> date option" where
  \<comment> \<open>the end of the shift, a day later for a shift that crosses midnight\<close>
  "shiftEndOf sh d = map_option
     (\<lambda>e. if str_le (endTime sh) (startTime sh) then addUTCDays e 1 else e)
     (parseShiftTime (endTime sh) d)"

definition status_setters :: "event_input list \<Rightarrow> event_input list" where
  "status_setters es = filter (\<lambda>e. punchType e = STATUS_SET \<and> statusValue e \<noteq> None) es"

definition override_pool :: "event_input list \<Rightarrow> event_input list" where
  "override_pool es = (let ss = status_setters es; os = filter (\<lambda>e. ev_source e = Src_manual_override) ss
     in if os \<noteq> [] then os else ss)"

definition resolveFromStatusSet :: "event_input list \<Rightarrow> (string \<times> attendance_source) option" where
  "resolveFromStatusSet es = (case override_pool es of [] \<Rightarrow> None
     | e # rest \<Rightarrow> let latest = keep_max timestamp e rest
         in Some (the (statusValue latest), ev_source latest))"

definition computeProjectionForPhaseA :: "event_input list \<Rightarrow> (string \<times> attendance_source) option" where
  "computeProjectionForPhaseA es = (if es = [] then None
     else if status_setters es = [] then None
     else (let overrides = filter (\<lambda>e. ev_source e = Src_manual_override) (status_setters es);
               pool = (if length overrides > 0 then overrides else status_setters es);
               latest = keep_max timestamp (hd pool) (tl pool)
           in Some (the (statusValue latest), ev_source latest)))"

definition calcOtMinutes :: "date \<Rightarrow> date option \<Rightarrow> ot_policy \<Rightarrow> rat option" where
  "calcOtMinutes co shiftEnd p = (if \<not> ot_enabled p then Some 0
     else case shiftEnd of None \<Rightarrow> None
     | Some e \<Rightarrow> let rawOt = jsub (jdiv (jsub (of_int co) (of_int e)) 60000) (ot_thresholdMinutes p) in
         if rawOt \<le> 0 then Some 0
         else Some (case capMinutes p of Some cap \<Rightarrow> min rawOt cap | None \<Rightarrow> rawOt))"

definition calcEarlyMinutes :: "date \<Rightarrow> date option \<Rightarrow> early_departure_policy \<Rightarrow> rat" where
  "calcEarlyMinutes co shiftEnd p = (if \<not> ed_enabled p then 0
     else case shiftEnd of None \<Rightarrow> 0
     | Some e \<Rightarrow> let rawEarly = jsub (jdiv (jsub (of_int e) (of_int co)) 60000) (ed_thresholdMinutes p)
         in if rawEarly > 0 then rawEarly else 0)"

definition graceCreditedCheckIn :: "date \<Rightarrow> date option \<Rightarrow> rat \<Rightarrow> date" where
  "graceCreditedCheckIn ci shiftStart grace = (case shiftStart of None \<Rightarrow> ci
     | Some s \<Rightarrow> let lateMs = jsub (of_int ci) (of_int s)
         in if lateMs > 0 \<and> lateMs \<le> jmul grace 60000 then s else ci)"

fun source_priority :: "attendance_source \<Rightarrow> nat" where
  "source_priority Src_manual_override = 8"
| "source_priority Src_regularization = 7"
| "source_priority Src_leave = 7"
| "source_priority Src_device_push = 6"
| "source_priority Src_kiosk = 5"
| "source_priority Src_self = 4"
| "source_priority Src_connector = 3"
| "source_priority Src_file_upload = 2"
| "source_priority Src_auto_cron = 1"
| "source_priority Src_manual = 0"

definition dominantSource :: "event_input list \<Rightarrow> attendance_source" where
  "dominantSource es = (case es of [] \<Rightarrow> Src_manual
     | e # rest \<Rightarrow> ev_source (keep_max (source_priority \<circ> ev_source) e rest))"

record attendance_session =
  sess_in :: date
  sess_out :: "date option"

fun pair_punches :: "event_input list \<Rightarrow> attendance_session list" where
  \<comment> \<open>the loop of \<open>pairSessions\<close> over the sorted punches\<close>
  "pair_punches [] = []"
| "pair_punches [p] = (if punchType p = CHECK_IN then [\<lparr>sess_in = timestamp p, sess_out = None\<rparr>] else [])"
| "pair_punches (p # q # ps) = (if punchType p = CHECK_IN
     then if punchType q = CHECK_OUT
       then \<lparr>sess_in = timestamp p, sess_out = Some (timestamp q)\<rparr> # pair_punches ps
       else \<lparr>sess_in = timestamp p, sess_out = None\<rparr> # pair_punches (q # ps)
     else pair_punches (q # ps))"

definition sorted_punches :: "event_input list \<Rightarrow> event_input list" where
  "sorted_punches es = sort_key timestamp (filter (\<lambda>e. punchType e = CHECK_IN \<or> punchType e = CHECK_OUT) es)"

definition pairSessions :: "event_input list \<Rightarrow> attendance_session list" where
  "pairSessions es = pair_punches (sorted_punches es)"

section \<open>The parts the shift types share\<close>

definition timestamps_of :: "punch_type \<Rightarrow> event_input list \<Rightarrow> date list" where
  "timestamps_of pt es = map timestamp (filter (\<lambda>e. punchType e = pt) es)"

definition earliest :: "date list \<Rightarrow> date option" where
  "earliest ts = (case ts of [] \<Rightarrow> None | t # us \<Rightarrow> Some (foldl min t us))"

definition latest :: "date list \<Rightarrow> date option" where
  "latest ts = (case ts of [] \<Rightarrow> None | t # us \<Rightarrow> Some (foldl max t us))"

definition firstCheckIn :: "event_input list \<Rightarrow> date option" where
  "firstCheckIn es = earliest (timestamps_of CHECK_IN es)"

definition lastCheckOut :: "event_input list \<Rightarrow> date option" where
  "lastCheckOut es = latest (timestamps_of CHECK_OUT es)"

definition minutes_between :: "date \<Rightarrow> date \<Rightarrow> rat" where
  \<comment> \<open>\<open>(b.getTime() - a.getTime()) / 60000\<close>\<close>
  "minutes_between a b = jdiv (jsub (of_int b) (of_int a)) 60000"

definition absent_summary :: "attendance_source \<Rightarrow> daily_summary" where
  "absent_summary src = \<lparr>status = ''absent'', checkIn = None, checkOut = None, workedMinutes = None,
     lateMinutes = Some 0, earlyMinutes = 0, otMinutes = Some 0,
     computeReason = ''No check-in recorded. Marked absent.'', sum_dominantSource = src\<rparr>"

definition late_minutes :: "date \<Rightarrow> date option \<Rightarrow> rat \<Rightarrow> rat option" where
  "late_minutes ci shiftStart grace = (case shiftStart of None \<Rightarrow> None
     | Some s \<Rightarrow> let lateMs = max 0 (jsub (jsub (of_int ci) (of_int s)) (jmul grace 60000))
         in Some (jdiv lateMs 60000))"

definition late_status :: "rat option \<Rightarrow> rat \<Rightarrow> string" where
  "late_status late halfDayAfter = (case late of None \<Rightarrow> ''half_day''
     | Some l \<Rightarrow> if l = 0 then ''present'' else if l < halfDayAfter then ''late'' else ''half_day'')"

definition early_downgrade :: "rat \<Rightarrow> early_departure_policy \<Rightarrow> string \<Rightarrow> string" where
  "early_downgrade early p st =
     (if early > 0 \<and> countAsHalfDay p \<and> (st = ''present'' \<or> st = ''late'') then ''half_day'' else st)"

definition ot_of :: "date option \<Rightarrow> date option \<Rightarrow> ot_policy \<Rightarrow> rat option" where
  "ot_of co shiftEnd p = (case co of None \<Rightarrow> Some 0
     | Some c \<Rightarrow> if ot_enabled p then calcOtMinutes c shiftEnd p else Some 0)"

definition early_of :: "date option \<Rightarrow> date option \<Rightarrow> early_departure_policy \<Rightarrow> rat" where
  "early_of co shiftEnd p = (case co of None \<Rightarrow> 0 | Some c \<Rightarrow> calcEarlyMinutes c shiftEnd p)"

definition em_dash :: string where "em_dash = [CHR 0xE2, CHR 0x80, CHR 0x94]"

definition hhmm_str :: "date \<Rightarrow> string" where
  \<comment> \<open>\<open>d.toISOString().slice(11, 16)\<close>\<close>
  "hhmm_str d = pad2 (int_str (d mod ms_per_day div 3600000)) @ '':''
     @ pad2 (int_str (d mod 3600000 div 60000))"

definition with_early :: "rat \<Rightarrow> string \<Rightarrow> string" where
  "with_early early base =
     (if early > 0 then base @ '' Left '' @ int_str (round early) @ '' min early.'' else base)"

definition late_suffix :: "rat option \<Rightarrow> string" where
  "late_suffix late = (case late of None \<Rightarrow> []
     | Some l \<Rightarrow> if l > 0 then '' ('' @ int_str (round l) @ '' min late)'' else [])"

section \<open>The four shift types\<close>

definition computeFixed ::
  "event_input list \<Rightarrow> shift_snapshot \<Rightarrow> policy_snapshot \<Rightarrow> date \<Rightarrow> attendance_source \<Rightarrow> daily_summary" where
  "computeFixed es sh pol d src = (case firstCheckIn es of None \<Rightarrow> absent_summary src
     | Some ci \<Rightarrow>
       let co = lastCheckOut es;
           shiftStart = parseShiftTime (startTime sh) d;
           shiftEnd = shiftEndOf sh d;
           late = late_minutes ci shiftStart (gracePeriodMinutes sh);
           st = late_status late (halfDayAfterLateMinutes sh);
           eff = graceCreditedCheckIn ci shiftStart (gracePeriodMinutes sh);
           worked = map_option (minutes_between eff) co;
           otm = ot_of co shiftEnd (ot pol);
           early = early_of co shiftEnd (earlyDeparture pol);
           base = ''Check-in at '' @ hhmm_str ci @ late_suffix late @ (case worked of
               Some w \<Rightarrow> ''. Worked '' @ int_str (round w) @ '' min.''
             | None \<Rightarrow> ''. No checkout recorded '' @ em_dash @ '' worked time unavailable.'')
       in \<lparr>status = early_downgrade early (earlyDeparture pol) st, checkIn = Some ci, checkOut = co,
           workedMinutes = worked, lateMinutes = late, earlyMinutes = early, otMinutes = otm,
           computeReason = with_early early base, sum_dominantSource = src\<rparr>)"

definition computeFlexi ::
  "event_input list \<Rightarrow> shift_snapshot \<Rightarrow> policy_snapshot \<Rightarrow> date \<Rightarrow> attendance_source \<Rightarrow> daily_summary" where
  "computeFlexi es sh pol d src = (case firstCheckIn es of None \<Rightarrow> absent_summary src
     | Some ci \<Rightarrow>
       let co = lastCheckOut es;
           worked = map_option (minutes_between ci) co;
           required = jmul (coalesce (requiredHoursPerDay sh) 8) 60;
           st = (case worked of None \<Rightarrow> ''half_day'' | Some w \<Rightarrow> if w < required then ''half_day'' else ''present'');
           otm = (case worked of None \<Rightarrow> 0
             | Some w \<Rightarrow> if ot_enabled (ot pol) \<and> w > required
                 then let raw = jsub (jsub w required) (ot_thresholdMinutes (ot pol))
                   in if raw > 0 then (case capMinutes (ot pol) of Some cap \<Rightarrow> min raw cap | None \<Rightarrow> raw) else 0
                 else 0);
           reason = (case worked of
               Some w \<Rightarrow> ''Flexi shift. Worked '' @ int_str (round w) @ '' min (required '' @ num_str required @ '' min).''
             | None \<Rightarrow> ''Flexi shift. No checkout recorded '' @ em_dash @ '' worked time unavailable.'')
       in \<lparr>status = st, checkIn = Some ci, checkOut = co, workedMinutes = worked, lateMinutes = Some 0,
           earlyMinutes = 0, otMinutes = Some otm, computeReason = reason, sum_dominantSource = src\<rparr>)"

definition block_minutes :: "date \<Rightarrow> attendance_session list \<Rightarrow> rat" where
  \<comment> \<open>the sum over the closed blocks, the first one from the grace-credited check-in\<close>
  "block_minutes firstIn bs = (case bs of [] \<Rightarrow> 0
     | b # rest \<Rightarrow> foldl (\<lambda>acc x. jadd acc (minutes_between (sess_in x) (the (sess_out x))))
         (jadd 0 (minutes_between firstIn (the (sess_out b)))) rest)"

definition computeSplit ::
  "event_input list \<Rightarrow> shift_snapshot \<Rightarrow> policy_snapshot \<Rightarrow> date \<Rightarrow> attendance_source \<Rightarrow> daily_summary" where
  "computeSplit es sh pol d src = (case pairSessions es of [] \<Rightarrow> absent_summary src
     | b # rest \<Rightarrow>
       let blocks = b # rest;
           ci = sess_in b;
           co = sess_out (last blocks);
           shiftStart = parseShiftTime (startTime sh) d;
           shiftEnd = shiftEndOf sh d;
           effFirst = graceCreditedCheckIn ci shiftStart (gracePeriodMinutes sh);
           worked = (if list_ex (\<lambda>x. sess_out x = None) blocks then None else Some (block_minutes effFirst blocks));
           late = late_minutes ci shiftStart (gracePeriodMinutes sh);
           st = late_status late (halfDayAfterLateMinutes sh);
           otm = ot_of co shiftEnd (ot pol);
           early = early_of co shiftEnd (earlyDeparture pol);
           base = ''Split shift: '' @ int_str (int (length blocks)) @ (case worked of
               Some w \<Rightarrow> '' block(s). Total worked: '' @ int_str (round w) @ '' min.''
             | None \<Rightarrow> '' block(s). Some blocks missing checkout '' @ em_dash @ '' worked time unavailable.'')
       in \<lparr>status = early_downgrade early (earlyDeparture pol) st, checkIn = Some ci, checkOut = co,
           workedMinutes = worked, lateMinutes = late, earlyMinutes = early, otMinutes = otm,
           computeReason = with_early early base, sum_dominantSource = src\<rparr>)"

fun total_break :: "rat \<Rightarrow> event_input list \<Rightarrow> event_input list \<Rightarrow> rat" where
  \<comment> \<open>the loop that pairs the sorted \<open>BREAK_OUT\<close>s with the sorted \<open>BREAK_IN\<close>s by position\<close>
  "total_break acc (bo # bos) (bi # bis) =
     total_break (jadd acc (minutes_between (timestamp bo) (timestamp bi))) bos bis"
| "total_break acc bos bis = acc"

definition breaks_of :: "punch_type \<Rightarrow> event_input list \<Rightarrow> event_input list" where
  "breaks_of pt es = sort_key timestamp (filter (\<lambda>e. punchType e = pt) es)"

definition computeBreak ::
  "event_input list \<Rightarrow> shift_snapshot \<Rightarrow> policy_snapshot \<Rightarrow> date \<Rightarrow> attendance_source \<Rightarrow> daily_summary" where
  "computeBreak es sh pol d src = (case firstCheckIn es of None \<Rightarrow> absent_summary src
     | Some ci \<Rightarrow>
       let co = lastCheckOut es;
           totalBreak = total_break 0 (breaks_of BREAK_OUT es) (breaks_of BREAK_IN es);
           shiftStart = parseShiftTime (startTime sh) d;
           shiftEnd = shiftEndOf sh d;
           eff = graceCreditedCheckIn ci shiftStart (gracePeriodMinutes sh);
           worked = map_option (\<lambda>c. jsub (minutes_between eff c) totalBreak) co;
           late = late_minutes ci shiftStart (gracePeriodMinutes sh);
           st = late_status late (halfDayAfterLateMinutes sh);
           otm = ot_of co shiftEnd (ot pol);
           early = early_of co shiftEnd (earlyDeparture pol);
           base = (case worked of
               Some w \<Rightarrow> ''Break shift. Net worked: '' @ int_str (round w) @ '' min (break: ''
                 @ int_str (round totalBreak) @ '' min).''
             | None \<Rightarrow> ''Break shift. No checkout recorded '' @ em_dash @ '' worked time unavailable.'')
       in \<lparr>status = early_downgrade early (earlyDeparture pol) st, checkIn = Some ci, checkOut = co,
           workedMinutes = worked, lateMinutes = late, earlyMinutes = early, otMinutes = otm,
           computeReason = with_early early base, sum_dominantSource = src\<rparr>)"

definition computeDailySummary ::
  "event_input list \<Rightarrow> shift_snapshot \<Rightarrow> policy_snapshot \<Rightarrow> date \<Rightarrow> daily_summary" where
  "computeDailySummary es sh pol d = (let src = dominantSource es in
     case resolveFromStatusSet es of
       Some (st, osrc) \<Rightarrow>
         (let ci = firstCheckIn es; co = lastCheckOut es;
              worked = (case (ci, co) of (Some a, Some b) \<Rightarrow> Some (minutes_between a b) | _ \<Rightarrow> None)
          in \<lparr>status = st, checkIn = ci, checkOut = co, workedMinutes = worked, lateMinutes = Some 0,
              earlyMinutes = 0, otMinutes = Some 0,
              computeReason = ''Status set manually: '' @ st @ ''.'', sum_dominantSource = osrc\<rparr>)
     | None \<Rightarrow> (case shiftType sh of
           Fixed \<Rightarrow> computeFixed es sh pol d src
         | Flexi \<Rightarrow> computeFlexi es sh pol d src
         | Split \<Rightarrow> computeSplit es sh pol d src
         | Break \<Rightarrow> computeBreak es sh pol d src))"


section \<open>Status setters\<close>

lemma override_pool_nonempty: "override_pool es = [] \<longleftrightarrow> status_setters es = []"
  by (auto simp: override_pool_def Let_def filter_empty_conv)

lemma resolveFromStatusSet_None: "resolveFromStatusSet es = None \<longleftrightarrow> status_setters es = []"
  by (auto simp: resolveFromStatusSet_def Let_def simp flip: override_pool_nonempty split: list.splits)

lemma phaseA_eq_resolve: "computeProjectionForPhaseA es = resolveFromStatusSet es"
proof (cases "status_setters es = []")
  case True
  then show ?thesis using resolveFromStatusSet_None[of es] by (simp add: computeProjectionForPhaseA_def)
next
  case False
  then have "es \<noteq> []" by (auto simp: status_setters_def)
  with False show ?thesis
    by (auto simp: computeProjectionForPhaseA_def resolveFromStatusSet_def override_pool_def Let_def
        split: list.splits)
qed

lemma resolveFromStatusSet_SomeE:
  assumes "resolveFromStatusSet es = Some (st, osrc)"
  obtains e where "e \<in> set (override_pool es)" "statusValue e = Some st" "ev_source e = osrc"
    "\<And>x. x \<in> set (override_pool es) \<Longrightarrow> timestamp x \<le> timestamp e"
proof -
  obtain f rest where pool: "override_pool es = f # rest"
    using assms by (auto simp: resolveFromStatusSet_def split: list.splits)
  let ?e = "keep_max timestamp f rest"
  have mem: "?e \<in> set (override_pool es)" unfolding pool by (rule keep_max_in)
  then have "statusValue ?e \<noteq> None"
    by (auto simp: override_pool_def status_setters_def Let_def split: if_splits)
  moreover have "the (statusValue ?e) = st" "ev_source ?e = osrc"
    using assms by (simp_all add: resolveFromStatusSet_def pool Let_def)
  ultimately have "statusValue ?e = Some st" "ev_source ?e = osrc" by auto
  moreover have "timestamp x \<le> timestamp ?e" if "x \<in> set (override_pool es)" for x
    using that unfolding pool by (rule keep_max_ge)
  ultimately show thesis using mem that by blast
qed

lemma daily_summary_status_set:
  "resolveFromStatusSet es = Some (st, osrc) \<Longrightarrow>
     status (computeDailySummary es sh pol d) = st \<and> sum_dominantSource (computeDailySummary es sh pol d) = osrc
     \<and> lateMinutes (computeDailySummary es sh pol d) = Some 0
     \<and> earlyMinutes (computeDailySummary es sh pol d) = 0
     \<and> otMinutes (computeDailySummary es sh pol d) = Some 0"
  by (simp add: computeDailySummary_def Let_def)

lemma daily_summary_no_status_set:
  "status_setters es = [] \<Longrightarrow> computeDailySummary es sh pol d = (case shiftType sh of
     Fixed \<Rightarrow> computeFixed es sh pol d (dominantSource es) | Flexi \<Rightarrow> computeFlexi es sh pol d (dominantSource es)
   | Split \<Rightarrow> computeSplit es sh pol d (dominantSource es) | Break \<Rightarrow> computeBreak es sh pol d (dominantSource es))"
  using resolveFromStatusSet_None[of es] by (simp add: computeDailySummary_def Let_def)

section \<open>Sessions\<close>

definition session_end :: "attendance_session \<Rightarrow> date" where
  "session_end s = coalesce (sess_out s) (sess_in s)"

lemma pair_punches_times:
  "s \<in> set (pair_punches ps) \<Longrightarrow> sess_in s \<in> timestamp ` {e \<in> set ps. punchType e = CHECK_IN}
     \<and> (\<forall>t. sess_out s = Some t \<longrightarrow> t \<in> timestamp ` {e \<in> set ps. punchType e = CHECK_OUT})"
  by (induction ps rule: pair_punches.induct) (auto split: if_splits)

lemma pair_punches_sorted:
  "sorted (map timestamp ps) \<Longrightarrow>
     sorted_wrt (\<lambda>a b. session_end a \<le> sess_in b) (pair_punches ps)
     \<and> (\<forall>s\<in>set (pair_punches ps). sess_in s \<le> session_end s)"
proof (induction ps rule: pair_punches.induct)
  case (3 p q ps)
  have after: "timestamp r \<le> sess_in s" if "s \<in> set (pair_punches xs)" "\<forall>x\<in>set xs. timestamp r \<le> timestamp x" for s xs r
    using pair_punches_times[OF that(1)] that(2) by auto
  have q: "timestamp p \<le> sess_in s" if "s \<in> set (pair_punches (q # ps))" for s
    using that 3(4) by (intro after) auto
  have ps: "timestamp q \<le> sess_in s" if "s \<in> set (pair_punches ps)" for s
    using that 3(4) by (intro after) auto
  show ?case using 3 q ps by (auto simp: session_end_def)
qed (auto simp: session_end_def)

lemma pair_punches_length:
  "length (pair_punches ps) = length (filter (\<lambda>e. punchType e = CHECK_IN) ps)"
  by (induction ps rule: pair_punches.induct) auto

lemma sorted_punches_sorted: "sorted (map timestamp (sorted_punches es))"
  by (simp add: sorted_punches_def)

lemma sorted_punches_mset:
  "mset (sorted_punches es) = mset (filter (\<lambda>e. punchType e = CHECK_IN \<or> punchType e = CHECK_OUT) es)"
  by (simp add: sorted_punches_def)

lemma filter_sorted_punches_length:
  "length (filter (\<lambda>e. punchType e = CHECK_IN) (sorted_punches es)) = length (filter (\<lambda>e. punchType e = CHECK_IN) es)"
proof -
  have "filter_mset (\<lambda>e. punchType e = CHECK_IN) (mset (sorted_punches es)) = mset (filter (\<lambda>e. punchType e = CHECK_IN) es)"
    by (simp add: sorted_punches_mset flip: mset_filter) (rule arg_cong[where f = mset], rule filter_cong; auto)
  then show ?thesis by (metis mset_filter size_mset)
qed


section \<open>Ranges of the computed minutes\<close>

lemma late_minutes_nonneg: "late_minutes ci s g = Some l \<Longrightarrow> 0 \<le> l"
  by (auto simp: late_minutes_def Let_def jdiv_def split: option.splits)

lemma calcOtMinutes_range:
  assumes "calcOtMinutes c e p = Some m" "\<And>cap. capMinutes p = Some cap \<Longrightarrow> 0 \<le> cap"
  shows "0 \<le> m \<and> (\<forall>cap. capMinutes p = Some cap \<longrightarrow> m \<le> cap) \<and> (\<not> ot_enabled p \<longrightarrow> m = 0)"
  using assms by (auto simp: calcOtMinutes_def Let_def split: option.splits if_splits)

lemma calcEarlyMinutes_range: "0 \<le> calcEarlyMinutes c e p \<and> (\<not> ed_enabled p \<longrightarrow> calcEarlyMinutes c e p = 0)"
  by (auto simp: calcEarlyMinutes_def Let_def split: option.splits)

lemma ot_of_range:
  assumes "ot_of co e p = Some m" "\<And>cap. capMinutes p = Some cap \<Longrightarrow> 0 \<le> cap"
  shows "0 \<le> m \<and> (\<forall>cap. capMinutes p = Some cap \<longrightarrow> m \<le> cap) \<and> (\<not> ot_enabled p \<longrightarrow> m = 0)"
  using assms calcOtMinutes_range by (fastforce simp: ot_of_def split: option.splits if_splits)

lemma early_of_range: "0 \<le> early_of co e p \<and> (\<not> ed_enabled p \<longrightarrow> early_of co e p = 0)"
  using calcEarlyMinutes_range by (auto simp: early_of_def split: option.splits)

definition minutes_in_range :: "policy_snapshot \<Rightarrow> daily_summary \<Rightarrow> bool" where
  "minutes_in_range pol s \<longleftrightarrow>
     (\<forall>l. lateMinutes s = Some l \<longrightarrow> 0 \<le> l)
     \<and> 0 \<le> earlyMinutes s \<and> (\<not> ed_enabled (earlyDeparture pol) \<longrightarrow> earlyMinutes s = 0)
     \<and> (\<forall>m. otMinutes s = Some m \<longrightarrow> 0 \<le> m \<and> (\<forall>cap. capMinutes (ot pol) = Some cap \<longrightarrow> m \<le> cap)
          \<and> (\<not> ot_enabled (ot pol) \<longrightarrow> m = 0))"

lemma minutes_in_range_shift_types:
  assumes "\<And>cap. capMinutes (ot pol) = Some cap \<Longrightarrow> 0 \<le> cap"
  shows "minutes_in_range pol (computeFixed es sh pol d src)"
    and "minutes_in_range pol (computeFlexi es sh pol d src)"
    and "minutes_in_range pol (computeSplit es sh pol d src)"
    and "minutes_in_range pol (computeBreak es sh pol d src)"
proof -
  have otr: "0 \<le> m \<and> (\<forall>cap. capMinutes (ot pol) = Some cap \<longrightarrow> m \<le> cap) \<and> (\<not> ot_enabled (ot pol) \<longrightarrow> m = 0)"
    if "ot_of co e (ot pol) = Some m" for co e m
    using ot_of_range[OF that assms] .
  note facts = late_minutes_nonneg early_of_range[of _ _ "earlyDeparture pol"] otr assms
  show "minutes_in_range pol (computeFixed es sh pol d src)"
    using facts by (auto simp: minutes_in_range_def computeFixed_def absent_summary_def Let_def split: option.splits)
  show "minutes_in_range pol (computeFlexi es sh pol d src)"
    using facts by (auto simp: minutes_in_range_def computeFlexi_def absent_summary_def Let_def split: option.splits)
  show "minutes_in_range pol (computeSplit es sh pol d src)"
    using facts by (auto simp: minutes_in_range_def computeSplit_def absent_summary_def Let_def split: option.splits list.splits)
  show "minutes_in_range pol (computeBreak es sh pol d src)"
    using facts by (auto simp: minutes_in_range_def computeBreak_def absent_summary_def Let_def split: option.splits)
qed

section \<open>Lateness in exact arithmetic\<close>

text \<open>
  With whole-minute settings the binary64 computation of lateness decides exactly the
  comparison of milliseconds it stands for.
\<close>

definition whole_minutes :: "rat \<Rightarrow> int \<Rightarrow> bool" where
  \<comment> \<open>a setting that is a whole number of minutes, up to about nineteen years\<close>
  "whole_minutes x n \<longleftrightarrow> x = of_int n \<and> 0 \<le> n \<and> n \<le> 10000000"

lemma fl_quotient_less:
  assumes "0 \<le> a" "0 \<le> h" "h \<le> 10000000"
  shows "fl (of_int a / 60000) < of_int h \<longleftrightarrow> a < 60000 * h"
proof
  define q :: rat where "q = of_int a / 60000"
  have a: "of_int a = q * 60000" by (simp add: q_def)
  assume lt: "fl (of_int a / 60000) < of_int h"
  show "a < 60000 * h"
  proof (rule ccontr)
    assume "\<not> a < 60000 * h"
    then have "(of_int (60000 * h) :: rat) \<le> of_int a" by (simp only: of_int_le_iff)
    then have "of_int h \<le> q" unfolding a of_int_mult by simp
    then have "of_int h \<le> fl q" using assms by (intro fl_ge_int) auto
    with lt show False by (simp add: q_def)
  qed
next
  define q :: rat where "q = of_int a / 60000"
  have a: "of_int a = q * 60000" by (simp add: q_def)
  assume "a < 60000 * h"
  then have "a + 1 \<le> 60000 * h" by linarith
  then have "(of_int (a + 1) :: rat) \<le> of_int (60000 * h)" by (simp only: of_int_le_iff)
  then have q: "q * 60000 + 1 \<le> 60000 * of_int h" by (simp add: a)
  have q0: "0 \<le> q" using assms by (simp add: q_def)
  have h: "(of_int h :: rat) \<le> 10000000" using assms(3) by (metis of_int_le_iff of_int_numeral)
  have "fl q - q \<le> \<bar>fl q - q\<bar>" by (rule abs_ge_self)
  also have "\<dots> \<le> \<bar>q\<bar> / 2 ^ 53" by (rule fl_error)
  also have "\<dots> = q / 9007199254740992" using q0 by simp
  finally have "fl q \<le> q + q / 9007199254740992" by simp
  then have "fl q < of_int h" using q h by (simp add: field_simps)
  then show "fl (of_int a / 60000) < of_int h" by (simp add: q_def)
qed

lemma late_status_exact:
  assumes g: "whole_minutes grace g" and h: "whole_minutes hda h" and d: "\<bar>ci - s\<bar> \<le> 1000000000000000"
  shows "late_status (late_minutes ci (Some s) grace) hda =
    (if ci - s \<le> g * 60000 then ''present''
     else if ci - s < (g + h) * 60000 then ''late'' else ''half_day'')"
proof -
  have 1: "jsub (of_int ci) (of_int s) = of_int (ci - s)"
    using d unfolding jsub_def of_int_diff[symmetric] by (intro fl_of_int) simp
  have 2: "jmul grace 60000 = of_int (g * 60000)"
    using g fl_of_int[of "g * 60000"] by (simp add: whole_minutes_def jmul_def)
  have "\<bar>ci - s - g * 60000\<bar> \<le> 2 ^ 53"
    using d g by (simp add: whole_minutes_def abs_le_iff)
  then have 3: "jsub (of_int (ci - s)) (of_int (g * 60000)) = of_int (ci - s - g * 60000)"
    unfolding jsub_def of_int_diff[symmetric] by (rule fl_of_int)
  define a where "a = max 0 (ci - s - g * 60000)"
  have late: "late_minutes ci (Some s) grace = Some (fl (of_int a / 60000))"
    by (simp only: late_minutes_def option.case Let_def 1 2 3 jdiv_def a_def of_int_max of_int_0)
  have "fl (of_int a / 60000) = 0 \<longleftrightarrow> a = 0" by simp
  moreover have "fl (of_int a / 60000) < hda \<longleftrightarrow> a < 60000 * h"
    using fl_quotient_less[of a h] h by (simp add: whole_minutes_def a_def)
  ultimately have st: "late_status (late_minutes ci (Some s) grace) hda =
      (if a = 0 then ''present'' else if a < 60000 * h then ''late'' else ''half_day'')"
    by (simp only: late late_status_def option.case)
  have "a = 0 \<longleftrightarrow> ci - s \<le> g * 60000" by (auto simp: a_def)
  moreover have "a < 60000 * h \<longleftrightarrow> ci - s < (g + h) * 60000" if "a \<noteq> 0"
    using that by (auto simp: a_def distrib_right)
  ultimately show ?thesis unfolding st by auto
qed

section \<open>Order of arrival\<close>

lemma timestamps_of_mset: "mset es = mset es' \<Longrightarrow> mset (timestamps_of pt es) = mset (timestamps_of pt es')"
  by (simp add: timestamps_of_def mset_filter)

lemma foldl_min_Min: "foldl min (t :: int) us = Min (insert t (set us))"
proof (induction us arbitrary: t)
  case (Cons u us)
  have "foldl min t (u # us) = Min (insert (min t u) (set us))" by (simp add: Cons.IH)
  then show ?case by (cases us) (simp_all add: min.assoc)
qed simp

lemma foldl_max_Max: "foldl max (t :: int) us = Max (insert t (set us))"
proof (induction us arbitrary: t)
  case (Cons u us)
  have "foldl max t (u # us) = Max (insert (max t u) (set us))" by (simp add: Cons.IH)
  then show ?case by (cases us) (simp_all add: max.assoc)
qed simp

lemma earliest_eq: "earliest ts = (if ts = [] then None else Some (Min (set ts)))"
  by (cases ts) (simp_all add: earliest_def foldl_min_Min)

lemma latest_eq: "latest ts = (if ts = [] then None else Some (Max (set ts)))"
  by (cases ts) (simp_all add: latest_def foldl_max_Max)

lemma mset_eq_Nil: "mset xs = mset ys \<Longrightarrow> (xs = []) = (ys = [])"
  by (metis mset_zero_iff)

lemma firstCheckIn_mset: assumes "mset es = mset es'" shows "firstCheckIn es = firstCheckIn es'"
proof -
  have "mset (timestamps_of CHECK_IN es) = mset (timestamps_of CHECK_IN es')" using assms by (rule timestamps_of_mset)
  from mset_eq_setD[OF this] mset_eq_Nil[OF this] show ?thesis by (simp add: firstCheckIn_def earliest_eq)
qed

lemma lastCheckOut_mset: assumes "mset es = mset es'" shows "lastCheckOut es = lastCheckOut es'"
proof -
  have "mset (timestamps_of CHECK_OUT es) = mset (timestamps_of CHECK_OUT es')" using assms by (rule timestamps_of_mset)
  from mset_eq_setD[OF this] mset_eq_Nil[OF this] show ?thesis by (simp add: lastCheckOut_def latest_eq)
qed

fun total_break_times :: "rat \<Rightarrow> date list \<Rightarrow> date list \<Rightarrow> rat" where
  "total_break_times acc (a # as) (b # bs) = total_break_times (jadd acc (minutes_between a b)) as bs"
| "total_break_times acc as bs = acc"

lemma total_break_times_eq: "total_break acc os is = total_break_times acc (map timestamp os) (map timestamp is)"
  by (induction acc os "is" rule: total_break.induct) auto

lemma breaks_of_times: "map timestamp (breaks_of pt es) = sort (timestamps_of pt es)"
  unfolding breaks_of_def timestamps_of_def by (rule properties_for_sort[symmetric]) simp_all

lemma total_break_mset:
  assumes "mset es = mset es'"
  shows "total_break 0 (breaks_of BREAK_OUT es) (breaks_of BREAK_IN es)
       = total_break 0 (breaks_of BREAK_OUT es') (breaks_of BREAK_IN es')"
  using timestamps_of_mset[OF assms] by (simp add: total_break_times_eq breaks_of_times) (metis properties_for_sort mset_sort sorted_sort)

lemma shift_types_order_of_arrival:
  assumes "mset es = mset es'"
  shows "computeFixed es sh pol d src = computeFixed es' sh pol d src"
    and "computeFlexi es sh pol d src = computeFlexi es' sh pol d src"
    and "computeBreak es sh pol d src = computeBreak es' sh pol d src"
proof -
  note eqs = firstCheckIn_mset[OF assms] lastCheckOut_mset[OF assms] total_break_mset[OF assms]
  show "computeFixed es sh pol d src = computeFixed es' sh pol d src"
    by (simp only: computeFixed_def eqs)
  show "computeFlexi es sh pol d src = computeFlexi es' sh pol d src"
    by (simp only: computeFlexi_def eqs)
  show "computeBreak es sh pol d src = computeBreak es' sh pol d src"
    by (simp only: computeBreak_def eqs)
qed

lemma source_only:
  "computeFixed es sh pol d src\<lparr>sum_dominantSource := x\<rparr> = computeFixed es sh pol d x"
  "computeFlexi es sh pol d src\<lparr>sum_dominantSource := x\<rparr> = computeFlexi es sh pol d x"
  "computeBreak es sh pol d src\<lparr>sum_dominantSource := x\<rparr> = computeBreak es sh pol d x"
  by (simp_all add: computeFixed_def computeFlexi_def computeBreak_def absent_summary_def Let_def split: option.splits)

lemma status_setters_mset: "mset es = mset es' \<Longrightarrow> status_setters es = [] \<Longrightarrow> status_setters es' = []"
  unfolding status_setters_def filter_empty_conv by (drule mset_eq_setD) simp

section \<open>Sample inputs\<close>

definition hour_at :: "int \<Rightarrow> int \<Rightarrow> date" where
  \<comment> \<open>an instant of 2026-03-02\<close>
  "hour_at h m = date_UTC 2026 2 2 + h * 3600000 + m * 60000"

definition punch :: "punch_type \<Rightarrow> int \<Rightarrow> int \<Rightarrow> event_input" where
  "punch pt h m = \<lparr>timestamp = hour_at h m, punchType = pt, statusValue = None, ev_source = Src_device_push\<rparr>"

definition set_status :: "string \<Rightarrow> attendance_source \<Rightarrow> int \<Rightarrow> event_input" where
  "set_status v src h = \<lparr>timestamp = hour_at h 0, punchType = STATUS_SET, statusValue = Some v, ev_source = src\<rparr>"

definition day_shift :: "shift_type \<Rightarrow> shift_snapshot" where
  "day_shift st = \<lparr>startTime = ''09:00'', endTime = ''18:00'', gracePeriodMinutes = 10,
     halfDayAfterLateMinutes = 60, shiftType = st, requiredHoursPerDay = None\<rparr>"

definition plain_policy :: policy_snapshot where
  "plain_policy = \<lparr>earlyDeparture = \<lparr>ed_enabled = False, ed_thresholdMinutes = 30, countAsHalfDay = False\<rparr>,
     ot = \<lparr>ot_enabled = True, ot_thresholdMinutes = 30, capMinutes = Some 120\<rparr>\<rparr>"

section \<open>Properties\<close>

text \<open>
  A manual override wins: when the day holds a \<open>STATUS_SET\<close> event from
  \<open>manual_override\<close>, the daily status is the value of such an event, the latest one, and
  the summary carries neither lateness nor early leave nor overtime, whatever the shift type.
\<close>

theorem manual_override_wins:
  assumes "x \<in> set es" "punchType x = STATUS_SET" "statusValue x = Some v" "ev_source x = Src_manual_override"
  shows "\<exists>e \<in> set es. ev_source e = Src_manual_override \<and> punchType e = STATUS_SET
    \<and> statusValue e = Some (status (computeDailySummary es sh pol d))
    \<and> (\<forall>y \<in> set es. punchType y = STATUS_SET \<and> statusValue y \<noteq> None \<and> ev_source y = Src_manual_override
          \<longrightarrow> timestamp y \<le> timestamp e)
    \<and> sum_dominantSource (computeDailySummary es sh pol d) = Src_manual_override
    \<and> lateMinutes (computeDailySummary es sh pol d) = Some 0
    \<and> earlyMinutes (computeDailySummary es sh pol d) = 0
    \<and> otMinutes (computeDailySummary es sh pol d) = Some 0"
proof -
  let ?O = "filter (\<lambda>e. ev_source e = Src_manual_override) (status_setters es)"
  have "x \<in> set ?O" using assms by (simp add: status_setters_def)
  then have pool: "override_pool es = ?O" by (auto simp: override_pool_def Let_def filter_empty_conv)
  have "status_setters es \<noteq> []" using \<open>x \<in> set ?O\<close> by auto
  then obtain st osrc where r: "resolveFromStatusSet es = Some (st, osrc)"
    using resolveFromStatusSet_None[of es] by auto
  obtain e where "e \<in> set ?O" "statusValue e = Some st" "ev_source e = osrc"
    "\<And>y. y \<in> set ?O \<Longrightarrow> timestamp y \<le> timestamp e"
    using resolveFromStatusSet_SomeE[OF r, unfolded pool] by metis
  with daily_summary_status_set[OF r, of sh pol d] show ?thesis
    by (intro bexI[of _ e]) (auto simp: status_setters_def)
qed

theorem manual_override_wins_witness:
  "\<exists>e \<in> set [punch CHECK_IN 9 0, set_status ''leave'' Src_leave 20, set_status ''present'' Src_manual_override 10].
     ev_source e = Src_manual_override \<and> punchType e = STATUS_SET
    \<and> statusValue e = Some (status (computeDailySummary
        [punch CHECK_IN 9 0, set_status ''leave'' Src_leave 20, set_status ''present'' Src_manual_override 10]
        (day_shift Fixed) plain_policy (hour_at 0 0)))"
  using manual_override_wins[of "set_status ''present'' Src_manual_override 10"
      "[punch CHECK_IN 9 0, set_status ''leave'' Src_leave 20, set_status ''present'' Src_manual_override 10]"
      "''present''" "day_shift Fixed" plain_policy "hour_at 0 0"]
  by (simp only: list.set insert_iff simp_thms) (auto simp: set_status_def)

text \<open>
  The two projections agree: the retained phase-A projection returns a status exactly
  when the policy engine takes its status-set branch, and then with the same status and the
  same dominant source.
\<close>

theorem phaseA_agrees_with_summary:
  "(computeProjectionForPhaseA es = None \<longleftrightarrow> status_setters es = [])
   \<and> (\<forall>st osrc. computeProjectionForPhaseA es = Some (st, osrc) \<longrightarrow>
        status (computeDailySummary es sh pol d) = st
        \<and> sum_dominantSource (computeDailySummary es sh pol d) = osrc)"
  using daily_summary_status_set by (simp add: phaseA_eq_resolve resolveFromStatusSet_None)

theorem phaseA_agrees_with_summary_witness:
  "status (computeDailySummary [punch CHECK_IN 9 0, set_status ''leave'' Src_leave 20] (day_shift Flexi) plain_policy (hour_at 0 0))
     = ''leave''"
proof -
  have "computeProjectionForPhaseA [punch CHECK_IN 9 0, set_status ''leave'' Src_leave 20] = Some (''leave'', Src_leave)"
    by (simp add: computeProjectionForPhaseA_def status_setters_def punch_def set_status_def)
  then show ?thesis
    using phaseA_agrees_with_summary[of "[punch CHECK_IN 9 0, set_status ''leave'' Src_leave 20]" "day_shift Flexi" plain_policy "hour_at 0 0"]
    by blast
qed

text \<open>
  Punch pairing is well formed: every \<open>CHECK_IN\<close> opens exactly one session, sessions
  are disjoint and in order of time, a session never closes before it opens, and its ends
  are the times of recorded \<open>CHECK_IN\<close> and \<open>CHECK_OUT\<close> punches.
\<close>

theorem pairSessions_well_formed:
  "length (pairSessions es) = length (filter (\<lambda>e. punchType e = CHECK_IN) es)
   \<and> sorted_wrt (\<lambda>a b. session_end a \<le> sess_in b) (pairSessions es)
   \<and> list_all (\<lambda>s. sess_in s \<le> session_end s
        \<and> sess_in s \<in> timestamp ` {e \<in> set es. punchType e = CHECK_IN}
        \<and> set_option (sess_out s) \<subseteq> timestamp ` {e \<in> set es. punchType e = CHECK_OUT}) (pairSessions es)"
proof -
  have set: "{e \<in> set (sorted_punches es). punchType e = CHECK_IN} = {e \<in> set es. punchType e = CHECK_IN}"
    "{e \<in> set (sorted_punches es). punchType e = CHECK_OUT} = {e \<in> set es. punchType e = CHECK_OUT}"
    by (auto simp: sorted_punches_def)
  show ?thesis unfolding pairSessions_def
    using pair_punches_sorted[OF sorted_punches_sorted[of es]] pair_punches_times[of _ "sorted_punches es"]
    by (auto simp: pair_punches_length filter_sorted_punches_length list_all_iff set)
qed

text \<open>
  Whatever the shift type, the minutes of the summary are in range: lateness and early
  leave are not negative, overtime is not negative, is 0 when the policy has overtime off
  and never exceeds the policy's cap, and early leave is 0 when its rule is off.
\<close>

theorem summary_minutes_in_range:
  assumes "\<And>cap. capMinutes (ot pol) = Some cap \<Longrightarrow> 0 \<le> cap"
  shows "minutes_in_range pol (computeDailySummary es sh pol d)"
proof (cases "resolveFromStatusSet es")
  case None
  then show ?thesis using minutes_in_range_shift_types[OF assms]
    by (simp add: computeDailySummary_def Let_def split: shift_type.split)
next
  case (Some r)
  obtain st osrc where "r = (st, osrc)" by (cases r)
  with daily_summary_status_set[of es st osrc sh pol d] Some assms show ?thesis
    by (simp add: minutes_in_range_def)
qed

theorem summary_minutes_in_range_witness:
  "minutes_in_range plain_policy
     (computeDailySummary [punch CHECK_IN 9 5, punch CHECK_OUT 22 0] (day_shift Fixed) plain_policy (hour_at 0 0))"
  by (rule summary_minutes_in_range) (simp add: plain_policy_def)

text \<open>
  C40. Lateness is decided exactly: on a fixed shift with whole-minute settings, a readable
  start time and early leave not downgraded, the status of a day with a check-in is
  \<open>present\<close> up to the end of the grace period, \<open>late\<close> until \<open>halfDayAfterLateMinutes\<close> more
  have passed, \<open>half_day\<close> from then on. The binary64 division by 60000 never moves a punch
  across a boundary.
\<close>

theorem fixed_status_exact:
  assumes "status_setters es = []" "shiftType sh = Fixed" "firstCheckIn es = Some ci"
    and "parseShiftTime (startTime sh) d = Some s"
    and "whole_minutes (gracePeriodMinutes sh) g" "whole_minutes (halfDayAfterLateMinutes sh) h"
    and "\<bar>ci - s\<bar> \<le> 1000000000000000" "\<not> countAsHalfDay (earlyDeparture pol)"
  shows "status (computeDailySummary es sh pol d) =
    (if ci \<le> s + g * 60000 then ''present''
     else if ci < s + (g + h) * 60000 then ''late'' else ''half_day'')"
proof -
  have "status (computeDailySummary es sh pol d) =
      late_status (late_minutes ci (Some s) (gracePeriodMinutes sh)) (halfDayAfterLateMinutes sh)"
    using assms by (simp add: daily_summary_no_status_set computeFixed_def Let_def early_downgrade_def)
  then show ?thesis using late_status_exact[OF assms(5-7)] by (simp add: diff_le_eq diff_less_eq add.commute)
qed

theorem fixed_status_exact_witness:
  "status (computeDailySummary [punch CHECK_IN 9 11] (day_shift Fixed) plain_policy (hour_at 0 0)) = ''late''"
proof -
  have "parseShiftTime ''09:00'' (hour_at 0 0) = Some (hour_at 9 0)" by code_simp
  moreover have "firstCheckIn [punch CHECK_IN 9 11] = Some (hour_at 9 11)" by code_simp
  moreover have "status_setters [punch CHECK_IN 9 11] = []" by code_simp
  ultimately show ?thesis
    using fixed_status_exact[of "[punch CHECK_IN 9 11]" "day_shift Fixed" "hour_at 9 11" "hour_at 0 0"
        "hour_at 9 0" 10 60 plain_policy]
    by (simp add: day_shift_def plain_policy_def whole_minutes_def hour_at_def)
qed

text \<open>
  The order in which the day's punches arrive does not matter: for fixed, flexible and
  break shifts any permutation of the events gives the same summary, the dominant source
  apart (ties of priority are resolved by position).
\<close>

theorem summary_order_of_arrival:
  assumes "mset es = mset es'" "status_setters es = []" "shiftType sh \<noteq> Split"
  shows "computeDailySummary es sh pol d\<lparr>sum_dominantSource := x\<rparr>
       = computeDailySummary es' sh pol d\<lparr>sum_dominantSource := x\<rparr>"
  using assms status_setters_mset[OF assms(1,2)]
  by (cases "shiftType sh") (simp_all add: daily_summary_no_status_set source_only shift_types_order_of_arrival[OF assms(1)])

theorem summary_order_of_arrival_witness:
  "computeDailySummary [punch CHECK_OUT 18 0, punch CHECK_IN 9 0] (day_shift Fixed) plain_policy (hour_at 0 0)
      \<lparr>sum_dominantSource := Src_manual\<rparr>
   = computeDailySummary [punch CHECK_IN 9 0, punch CHECK_OUT 18 0] (day_shift Fixed) plain_policy (hour_at 0 0)
      \<lparr>sum_dominantSource := Src_manual\<rparr>"
  by (rule summary_order_of_arrival) (simp_all add: status_setters_def punch_def day_shift_def)

text \<open>
  A shift whose start time is not of the form \<open>HH:mm\<close> marks every member who checks in
  as \<open>half_day\<close>, with \<open>NaN\<close> for the late minutes.
\<close>

theorem unreadable_start_is_half_day:
  assumes "status_setters es = []" "shiftType sh = Fixed" "firstCheckIn es = Some ci"
    and "parseShiftTime (startTime sh) d = None"
  shows "status (computeDailySummary es sh pol d) = ''half_day'' \<and> lateMinutes (computeDailySummary es sh pol d) = None"
  using assms by (simp add: daily_summary_no_status_set computeFixed_def Let_def early_downgrade_def
      late_minutes_def late_status_def)

theorem unreadable_start_is_half_day_witness:
  "status (computeDailySummary [punch CHECK_IN 9 0] ((day_shift Fixed)\<lparr>startTime := ''nine''\<rparr>) plain_policy (hour_at 0 0))
     = ''half_day''"
proof -
  have "parseShiftTime ''nine'' (hour_at 0 0) = None" by code_simp
  moreover have "firstCheckIn [punch CHECK_IN 9 0] = Some (hour_at 9 0)" by code_simp
  moreover have "status_setters [punch CHECK_IN 9 0] = []" by code_simp
  ultimately show ?thesis
    using unreadable_start_is_half_day[of "[punch CHECK_IN 9 0]" "(day_shift Fixed)\<lparr>startTime := ''nine''\<rparr>"
        "hour_at 9 0" "hour_at 0 0" plain_policy]
    by (simp add: day_shift_def)
qed

text \<open>
  Breaks are paired by position, not by time: a \<open>BREAK_IN\<close> recorded before the first
  \<open>BREAK_OUT\<close> is taken as its end, and the break time becomes negative.
\<close>

theorem stray_break_in_counts_negative:
  "total_break 0 (breaks_of BREAK_OUT [punch BREAK_IN 9 0, punch BREAK_OUT 12 0])
     (breaks_of BREAK_IN [punch BREAK_IN 9 0, punch BREAK_OUT 12 0]) = -180"
  by code_simp

end
