(* ===== verification/LeaveDays.thy ===== *)
theory LeaveDays
  imports JsString
begin

text \<open>
  The pure day arithmetic of the leave module, \<open>src/src/modules/leave/leave-request.util.ts\<close>:
  weekly-off parsing, day keys, the resolution of the approval chain, the expansion of a date
  range into charged days, the paid / loss-of-pay split and the months a range touches.
  The days of a request are half-days and whole days of one calendar year; their sums and
  differences are exact in binary64 (\<open>fl_halves\<close>), so the operators \<open>+\<close> and \<open>-\<close> of this
  file are the exact ones on \<open>rat\<close>.
\<close>

section \<open>Weekly off days and day keys\<close>

definition weekday_by_name :: "string \<Rightarrow> int option" where
  "weekday_by_name w = map_of [
     (''sunday'', 0), (''sun'', 0), (''monday'', 1), (''mon'', 1), (''tuesday'', 2), (''tue'', 2),
     (''wednesday'', 3), (''wed'', 3), (''thursday'', 4), (''thu'', 4), (''friday'', 5), (''fri'', 5),
     (''saturday'', 6), (''sat'', 6)] w"

definition parseWeeklyOff :: "string list option \<Rightarrow> int set" where
  "parseWeeklyOff weeklyOff =
     set (List.map_filter (\<lambda>raw. weekday_by_name (to_lower (trim raw))) (coalesce weeklyOff []))"

definition dayKey :: "date \<Rightarrow> string" where
  \<comment> \<open>\<open>YYYY-MM-DD\<close> of the UTC day\<close>
  "dayKey d = int_str (getUTCFullYear d) @ ''-'' @ pad2 (int_str (getUTCMonth d + 1))
     @ ''-'' @ pad2 (int_str (getUTCDate d))"

text \<open>Two dates have the same key exactly when they fall on the same UTC day.\<close>

lemma dayKey_eq_iff:
  assumes "0 \<le> getUTCFullYear a" "0 \<le> getUTCFullYear b"
  shows "dayKey a = dayKey b \<longleftrightarrow> day_of a = day_of b"
proof
  assume k: "dayKey a = dayKey b"
  have split: "split_on CHR ''-'' (dayKey d) =
      [int_str (getUTCFullYear d), pad2 (int_str (getUTCMonth d + 1)), pad2 (int_str (getUTCDate d))]"
    if "0 \<le> getUTCFullYear d" for d
  proof -
    have nd: "CHR ''-'' \<notin> set s" if "\<And>c. c \<in> set s \<Longrightarrow> is_digit c" for s
      using that by (fastforce simp: is_digit_def)
    have "0 \<le> getUTCMonth d + 1" "0 \<le> getUTCDate d"
      using month_of_day_bounds mday_of_day_bounds by (auto simp: getUTCMonth_def getUTCDate_def intro: order_trans[OF zero_le_one])
    then show ?thesis using that
      by (simp add: dayKey_def split_on_append_sep split_on_no_sep nd int_str_digits pad2_digits)
  qed
  from k split[OF assms(1)] split[OF assms(2)]
  have "int_str (getUTCFullYear a) = int_str (getUTCFullYear b)"
    "digits_val (pad2 (int_str (getUTCMonth a + 1))) = digits_val (pad2 (int_str (getUTCMonth b + 1)))"
    "digits_val (pad2 (int_str (getUTCDate a))) = digits_val (pad2 (int_str (getUTCDate b)))" by auto
  moreover have "0 \<le> getUTCMonth a + 1" "0 \<le> getUTCMonth b + 1" "0 \<le> getUTCDate a" "0 \<le> getUTCDate b"
    using month_of_day_bounds mday_of_day_bounds
    by (auto simp: getUTCMonth_def getUTCDate_def intro: order_trans[OF zero_le_one])
  ultimately have "getUTCFullYear a = getUTCFullYear b" "getUTCMonth a = getUTCMonth b" "getUTCDate a = getUTCDate b"
    using assms by (simp_all add: pad2_val int_str_inj)
  then show "day_of a = day_of b"
    unfolding getUTCFullYear_def getUTCMonth_def getUTCDate_def by (metis make_day_of_day_0)
qed (simp add: dayKey_def getUTCFullYear_def getUTCMonth_def getUTCDate_def)

section \<open>The approval chain\<close>

datatype decision = Approved | Rejected

record approval_step =
  level :: int
  approverUserId :: string
  decision :: "decision option"
  decidedAt :: "date option"
  step_note :: "string option"

definition buildApproverChainExcludingSelf :: "string list \<Rightarrow> string option \<Rightarrow> approval_step list" where
  "buildApproverChainExcludingSelf approvers self =
     (let others = filter (\<lambda>uid. self = None \<or> Some uid \<noteq> self) approvers
      in map2 (\<lambda>i uid. \<lparr>level = int i + 1, approverUserId = uid, decision = None, decidedAt = None, step_note = None\<rparr>)
           [0..<length others] others)"

record manager_candidate =
  linkedUserId :: "string option"
  mgr_isActive :: "bool option"
  mgr_isDeleted :: "bool option"

definition pickManagerApprover :: "manager_candidate option \<Rightarrow> string option \<Rightarrow> string option" where
  "pickManagerApprover manager self = (case manager of None \<Rightarrow> None
     | Some m \<Rightarrow> if mgr_isDeleted m = Some True \<or> mgr_isActive m = Some False then None
         else (case linkedUserId m of None \<Rightarrow> None
           | Some uid \<Rightarrow> if self = Some uid then None else Some uid))"

definition resolveApproverChainForMember ::
  "string option \<Rightarrow> manager_candidate option \<Rightarrow> string list \<Rightarrow> string option \<Rightarrow> approval_step list" where
  "resolveApproverChainForMember self manager settingsApprovers owner =
     (case pickManagerApprover manager self of
        Some uid \<Rightarrow> buildApproverChainExcludingSelf [uid] self
      | None \<Rightarrow> let settingsChain = buildApproverChainExcludingSelf settingsApprovers self
          in if length settingsChain > 0 then settingsChain
             else buildApproverChainExcludingSelf
               (case owner of None \<Rightarrow> [] | Some u \<Rightarrow> if u = [] then [] else [u]) self)"

section \<open>Charged days\<close>

datatype half_day_session = NoHalf | FirstHalf | SecondHalf

record working_day =
  wd_date :: date
  wd_quantity :: rat

definition utc_midnight :: "date \<Rightarrow> date" where
  \<comment> \<open>\<open>Date.UTC(d.getUTCFullYear(), d.getUTCMonth(), d.getUTCDate())\<close>\<close>
  "utc_midnight d = date_UTC (getUTCFullYear d) (getUTCMonth d) (getUTCDate d)"

definition day_is_off :: "string set \<Rightarrow> int set \<Rightarrow> date \<Rightarrow> bool" where
  "day_is_off holidays weeklyOff c = (dayKey c \<in> holidays \<or> getUTCDay c \<in> weeklyOff)"

function expand_loop ::
  "date \<Rightarrow> date \<Rightarrow> bool \<Rightarrow> half_day_session \<Rightarrow> half_day_session \<Rightarrow> string set \<Rightarrow> int set \<Rightarrow> bool \<Rightarrow> working_day list" where
  "expand_loop cursor end isFirst firstHalf lastHalf holidays weeklyOff sandwich =
     (if cursor \<le> end then
        (if sandwich \<or> \<not> day_is_off holidays weeklyOff cursor
         then [\<lparr>wd_date = cursor, wd_quantity =
                 (if cursor = end \<and> lastHalf \<noteq> NoHalf then 1/2
                  else if isFirst \<and> firstHalf \<noteq> NoHalf then 1/2 else 1)\<rparr>]
         else [])
        @ expand_loop (addUTCDays cursor 1) end False firstHalf lastHalf holidays weeklyOff sandwich
      else [])"
  by pat_completeness auto
termination
  by (relation "measure (\<lambda>(c, e, _). nat (e + 1 - c))") (auto simp: addUTCDays_eq ms_per_day_def)

declare expand_loop.simps [simp del]

definition expandWorkingDays ::
  "date \<Rightarrow> date \<Rightarrow> half_day_session \<Rightarrow> half_day_session \<Rightarrow> string set \<Rightarrow> int set \<Rightarrow> bool \<Rightarrow> working_day list" where
  "expandWorkingDays fromDate toDate firstHalf lastHalf holidays weeklyOff sandwich =
     expand_loop (utc_midnight fromDate) (utc_midnight toDate) True firstHalf lastHalf holidays weeklyOff sandwich"

section \<open>The paid / loss-of-pay split\<close>

record leave_day_segment =
  seg_date :: date
  seg_leaveTypeId :: string
  seg_quantity :: rat

record leave_decomposition =
  segments :: "leave_day_segment list"
  paidDays :: rat
  lwpDays :: rat
  totalDays :: rat

fun decompose_loop ::
  "working_day list \<Rightarrow> rat \<Rightarrow> string \<Rightarrow> string \<Rightarrow> leave_day_segment list \<Rightarrow> rat \<Rightarrow> rat \<Rightarrow> leave_decomposition" where
  "decompose_loop [] available paidId lwpId segs paid lwp =
     \<lparr>segments = segs, paidDays = paid, lwpDays = lwp, totalDays = paid + lwp\<rparr>"
| "decompose_loop (w # ws) available paidId lwpId segs paid lwp =
     (if paid + wd_quantity w \<le> available
      then decompose_loop ws available paidId lwpId
        (segs @ [\<lparr>seg_date = wd_date w, seg_leaveTypeId = paidId, seg_quantity = wd_quantity w\<rparr>])
        (paid + wd_quantity w) lwp
      else decompose_loop ws available paidId lwpId
        (segs @ [\<lparr>seg_date = wd_date w, seg_leaveTypeId = lwpId, seg_quantity = wd_quantity w\<rparr>])
        paid (lwp + wd_quantity w))"

definition decomposePaidLwp :: "working_day list \<Rightarrow> rat \<Rightarrow> string \<Rightarrow> string \<Rightarrow> leave_decomposition" where
  "decomposePaidLwp ws available paidId lwpId = decompose_loop ws available paidId lwpId [] 0 0"

definition chargeAllToType :: "working_day list \<Rightarrow> string \<Rightarrow> leave_day_segment list" where
  "chargeAllToType ws typeId =
     map (\<lambda>d. \<lparr>seg_date = wd_date d, seg_leaveTypeId = typeId, seg_quantity = wd_quantity d\<rparr>) ws"

section \<open>Leave types, statuses, months\<close>

record leave_type_class =
  cls_isLwp :: bool
  cls_isCompOff :: bool
  cls_isEntitlement :: bool
  cls_balanceTracked :: bool

definition classifyLeaveType :: "string \<Rightarrow> string \<Rightarrow> bool \<Rightarrow> leave_type_class" where
  "classifyLeaveType code accrualMode compOff =
     (let isLwp = (code = ''LWP''); isCO = (\<not> isLwp \<and> compOff);
          isEnt = (\<not> isLwp \<and> \<not> isCO \<and> accrualMode = ''none'')
      in \<lparr>cls_isLwp = isLwp, cls_isCompOff = isCO, cls_isEntitlement = isEnt,
          cls_balanceTracked = (\<not> isLwp \<and> \<not> isEnt)\<rparr>)"

definition leaveDayStatusValue :: "rat \<Rightarrow> string" where
  "leaveDayStatusValue q = (if q \<ge> 1 then ''on_leave'' else ''half_day'')"

lemma addUTCMonths_later: "t < addUTCMonths t 1"
proof -
  let ?y = "getUTCFullYear t" and ?m = "getUTCMonth t" and ?d = "getUTCDate t"
  have m: "0 \<le> ?m" "?m \<le> 11" using month_of_day_bounds by (auto simp: getUTCMonth_def)
  have ms: "month_start l k < month_start l (k + 1)" if "0 \<le> k" "k \<le> 10" for l k
  proof -
    have "k \<in> {0,1,2,3,4,5,6,7,8,9,10}" using that by simp presburger
    then show ?thesis by (elim insertE) (simp_all add: month_start_def)
  qed
  have yend: "month_start l 11 < (if l then 366 else 365)" "month_start l 0 = 0" for l
    by (simp_all add: month_start_def)
  have "make_day ?y ?m ?d < make_day ?y (?m + 1) ?d"
  proof (cases "?m = 11")
    case True
    then show ?thesis using yend[of "leap_year ?y"] yend(2) by (simp add: make_day_def day_from_year_Suc)
  next
    case False
    then have "0 \<le> ?m" "?m \<le> 10" using m by auto
    then show ?thesis using ms[of ?m "leap_year ?y"] by (simp add: make_day_def)
  qed
  moreover have "make_day ?y ?m ?d = day_of t"
    by (simp add: getUTCFullYear_def getUTCMonth_def getUTCDate_def make_day_of_day_0)
  ultimately have "day_of t * ms_per_day < make_day ?y (?m + 1) ?d * ms_per_day"
    by (simp add: ms_per_day_def)
  moreover have "t = day_of t * ms_per_day + t mod ms_per_day" by (simp add: day_of_def)
  ultimately show ?thesis unfolding addUTCMonths_def by linarith
qed

function months_loop :: "date \<Rightarrow> date \<Rightarrow> (int \<times> int) list" where
  \<comment> \<open>pairs of month, counted from 1, and year\<close>
  "months_loop cursor end = (if cursor \<le> end
     then (getUTCMonth cursor + 1, getUTCFullYear cursor) # months_loop (addUTCMonths cursor 1) end
     else [])"
  by pat_completeness auto
termination
  by (relation "measure (\<lambda>(c, e). nat (e + 1 - c))") (auto simp: addUTCMonths_later intro: zless_nat_conj[THEN iffD2])

declare months_loop.simps [simp del]

definition affectedMonths :: "date \<Rightarrow> date \<Rightarrow> (int \<times> int) list" where
  "affectedMonths from to = months_loop (date_UTC (getUTCFullYear from) (getUTCMonth from) 1)
     (date_UTC (getUTCFullYear to) (getUTCMonth to) 1)"

definition rangesOverlap :: "date \<Rightarrow> date \<Rightarrow> date \<Rightarrow> date \<Rightarrow> bool" where
  "rangesOverlap aFrom aTo bFrom bTo = (aFrom \<le> bTo \<and> bFrom \<le> aTo)"

section \<open>Month arithmetic\<close>

definition month_index :: "date \<Rightarrow> int" where
  "month_index t = getUTCFullYear t * 12 + getUTCMonth t"

definition first_of :: "int \<Rightarrow> date" where
  "first_of k = date_UTC (k div 12) (k mod 12) 1"

lemma first_of_accessors:
  "getUTCFullYear (first_of k) = k div 12" "getUTCMonth (first_of k) = k mod 12" "getUTCDate (first_of k) = 1"
proof -
  have b: "0 \<le> k mod 12" "k mod 12 \<le> 11" by presburger+
  have "1 \<le> month_days l m" if "0 \<le> m" "m \<le> 11" for l m
    using month_cases[OF that] by (elim insertE) (simp_all add: month_days_def)
  note civil_of_make_day[OF b order_refl this[OF b]]
  then show "getUTCFullYear (first_of k) = k div 12" "getUTCMonth (first_of k) = k mod 12" "getUTCDate (first_of k) = 1"
    by (simp_all add: first_of_def date_UTC_def getUTCFullYear_def getUTCMonth_def getUTCDate_def)
qed

lemma make_day_month_carry:
  "make_day (k div 12) (k mod 12 + 1) 1 = make_day ((k + 1) div 12) ((k + 1) mod 12) 1"
proof -
  define q r where "q = k div 12" and "r = k mod 12"
  have k: "k = 12 * q + r" "0 \<le> r" "r < 12" by (simp_all add: q_def r_def)
  show ?thesis
  proof (cases "r = 11")
    case True
    then have "k + 1 = 12 * (q + 1) + 0" using k by simp
    then have "(k + 1) div 12 = q + 1" "(k + 1) mod 12 = 0" by simp_all
    then show ?thesis using True by (simp add: make_day_def flip: q_def r_def)
  next
    case False
    then have "k + 1 = 12 * q + (r + 1)" "0 \<le> r + 1" "r + 1 < 12" using k by auto
    then have "(k + 1) div 12 = q" "(k + 1) mod 12 = r + 1"
      by (rule int_div_pos_eq, rule int_mod_pos_eq)
    then show ?thesis by (simp flip: q_def r_def)
  qed
qed

lemma first_of_Suc: "addUTCMonths (first_of k) 1 = first_of (k + 1)"
proof -
  have "first_of k mod ms_per_day = 0" by (simp add: first_of_def date_UTC_def)
  then show ?thesis
    by (simp add: addUTCMonths_def first_of_accessors make_day_month_carry) (simp add: first_of_def date_UTC_def)
qed

lemma first_of_less: "first_of k < first_of (k + 1)"
  using addUTCMonths_later[of "first_of k"] by (simp add: first_of_Suc)

lemma first_of_add: "first_of k < first_of (k + int (Suc n))"
proof (induction n)
  case 0
  then show ?case by (simp add: first_of_less)
next
  case (Suc n)
  then show ?case using first_of_less[of "k + int (Suc n)"] by (simp add: algebra_simps)
qed

lemma first_of_strict_mono: "j < k \<Longrightarrow> first_of j < first_of k"
  using first_of_add[of j "nat (k - j - 1)"] by simp

lemma first_of_le_iff [simp]: "first_of j \<le> first_of k \<longleftrightarrow> j \<le> k"
  using first_of_strict_mono[of j k] first_of_strict_mono[of k j] by (cases j k rule: linorder_cases) auto

lemma first_of_month_index: "first_of (month_index t) \<le> t" "t < first_of (month_index t + 1)"
proof -
  let ?y = "getUTCFullYear t" and ?m = "getUTCMonth t" and ?d = "getUTCDate t"
  have m: "0 \<le> ?m" "?m \<le> 11" using month_of_day_bounds by (auto simp: getUTCMonth_def)
  then have ix: "month_index t div 12 = ?y" "month_index t mod 12 = ?m" by (auto simp: month_index_def)
  have t: "t = make_day ?y ?m ?d * ms_per_day + t mod ms_per_day"
    using mult_div_mod_eq[of ms_per_day t] by (simp add: getUTCFullYear_def getUTCMonth_def getUTCDate_def make_day_of_day_0 day_of_def mult.commute)
  have r: "0 \<le> t mod ms_per_day" "t mod ms_per_day < ms_per_day" by (simp_all add: ms_per_day_def)
  have d: "1 \<le> ?d" "?d \<le> month_days (leap_year ?y) ?m"
    using mday_of_day_bounds[of "day_of t"] by (simp_all add: getUTCFullYear_def getUTCMonth_def getUTCDate_def)
  have sh: "make_day ?y ?m ?d = make_day ?y ?m 1 + (?d - 1)" by (simp add: make_day_def)
  have f: "first_of (month_index t) = make_day ?y ?m 1 * ms_per_day" by (simp add: first_of_def ix date_UTC_def)
  show "first_of (month_index t) \<le> t" unfolding f using t d(1) r by (simp add: sh ms_per_day_def)
  have nx: "first_of (month_index t + 1) = make_day ?y (?m + 1) 1 * ms_per_day"
    using make_day_month_carry[of "month_index t"] by (simp add: first_of_def date_UTC_def ix)
  have "make_day ?y (?m + 1) 1 = make_day ?y ?m 1 + month_days (leap_year ?y) ?m"
    using month_cases[OF m]
    by (elim insertE; cases "leap_year ?y"; simp add: make_day_def month_start_def month_days_def day_from_year_Suc)
  then show "t < first_of (month_index t + 1)" unfolding nx using t d(2) r by (simp add: sh ms_per_day_def)
qed

lemma month_index_mono: assumes "a \<le> b" shows "month_index a \<le> month_index b"
proof (rule ccontr)
  assume "\<not> month_index a \<le> month_index b"
  then have "first_of (month_index b + 1) \<le> first_of (month_index a)" by simp
  also have "\<dots> \<le> a" by (rule first_of_month_index)
  also have "\<dots> \<le> b" by (rule assms)
  also have "\<dots> < first_of (month_index b + 1)" by (rule first_of_month_index)
  finally show False by simp
qed

lemma months_loop_eq:
  "months_loop (first_of j) (first_of k) = map (\<lambda>i. (i mod 12 + 1, i div 12)) [j..k]"
proof (induction "nat (k + 1 - j)" arbitrary: j)
  case 0
  then show ?case by (simp add: months_loop.simps[of "first_of j"])
next
  case (Suc n)
  then have "j \<le> k" by simp
  then show ?case using Suc
    by (simp add: months_loop.simps[of "first_of j"] first_of_accessors first_of_Suc upto_rec1)
qed

lemma affectedMonths_eq:
  "affectedMonths from to = map (\<lambda>i. (i mod 12 + 1, i div 12)) [month_index from..month_index to]"
proof -
  have "date_UTC (getUTCFullYear t) (getUTCMonth t) 1 = first_of (month_index t)" for t
    using month_of_day_bounds[of "day_of t"] by (simp add: first_of_def month_index_def getUTCMonth_def)
  then show ?thesis by (simp add: affectedMonths_def months_loop_eq)
qed

section \<open>The loops against their specifications\<close>

lemma expand_loop_eq:
  "expand_loop (a * ms_per_day) (b * ms_per_day) f fh lh hol wo sw =
     concat (map (\<lambda>d. if sw \<or> \<not> day_is_off hol wo (d * ms_per_day)
        then [\<lparr>wd_date = d * ms_per_day, wd_quantity =
           (if d = b \<and> lh \<noteq> NoHalf then 1/2 else if f \<and> d = a \<and> fh \<noteq> NoHalf then 1/2 else 1)\<rparr>]
        else []) [a..b])"
proof (induction "nat (b + 1 - a)" arbitrary: a f)
  case 0
  then have "\<not> a * ms_per_day \<le> b * ms_per_day" by (simp add: ms_per_day_def)
  with 0 show ?case by (simp add: expand_loop.simps[of "a * ms_per_day"])
next
  case (Suc n)
  then have ab: "a \<le> b" by simp
  have cd: "addUTCDays (a * ms_per_day) 1 = (a + 1) * ms_per_day" by (simp add: addUTCDays_eq distrib_right)
  have le: "a * ms_per_day \<le> b * ms_per_day" "(a * ms_per_day = b * ms_per_day) = (a = b)"
    using ab by (simp_all add: ms_per_day_def)
  have IH: "expand_loop ((a + 1) * ms_per_day) (b * ms_per_day) False fh lh hol wo sw =
     concat (map (\<lambda>d. if sw \<or> \<not> day_is_off hol wo (d * ms_per_day)
        then [\<lparr>wd_date = d * ms_per_day, wd_quantity =
           (if d = b \<and> lh \<noteq> NoHalf then 1/2 else if False \<and> d = a + 1 \<and> fh \<noteq> NoHalf then 1/2 else 1)\<rparr>]
        else []) [a + 1..b])"
    by (rule Suc(1)) (use Suc(2) in simp)
  have rest: "concat (map (\<lambda>d. if sw \<or> \<not> day_is_off hol wo (d * ms_per_day)
        then [\<lparr>wd_date = d * ms_per_day, wd_quantity =
           (if d = b \<and> lh \<noteq> NoHalf then 1/2 else if f \<and> d = a \<and> fh \<noteq> NoHalf then 1/2 else 1)\<rparr>]
        else []) [a + 1..b]) =
     concat (map (\<lambda>d. if sw \<or> \<not> day_is_off hol wo (d * ms_per_day)
        then [\<lparr>wd_date = d * ms_per_day, wd_quantity =
           (if d = b \<and> lh \<noteq> NoHalf then 1/2 else if False \<and> d = a + 1 \<and> fh \<noteq> NoHalf then 1/2 else 1)\<rparr>]
        else []) [a + 1..b])"
    by (rule arg_cong[where f = concat], rule map_cong) auto
  show ?case
    by (subst expand_loop.simps) (simp only: le cd IH rest[symmetric] upto_rec1[OF ab] list.map concat.simps if_True, simp)
qed

lemma utc_midnight_eq: "utc_midnight t = day_of t * ms_per_day"
  by (simp add: utc_midnight_def date_UTC_self)

definition paid_total :: "string \<Rightarrow> leave_day_segment list \<Rightarrow> rat" where
  "paid_total ty segs = sum_list (map seg_quantity (filter (\<lambda>s. seg_leaveTypeId s = ty) segs))"

lemma paid_total_simps [simp]:
  "paid_total ty [] = 0"
  "paid_total ty (segs @ [s]) = paid_total ty segs + (if seg_leaveTypeId s = ty then seg_quantity s else 0)"
  by (simp_all add: paid_total_def)

lemma decompose_loop_segments:
  "map (\<lambda>s. (seg_date s, seg_quantity s)) (segments (decompose_loop ws av pid lid segs paid lwp))
     = map (\<lambda>s. (seg_date s, seg_quantity s)) segs @ map (\<lambda>w. (wd_date w, wd_quantity w)) ws"
  by (induction ws arbitrary: segs paid lwp) simp_all

lemma decompose_loop_total:
  "totalDays (decompose_loop ws av pid lid segs paid lwp) = paid + lwp + sum_list (map wd_quantity ws)"
  by (induction ws arbitrary: segs paid lwp) simp_all

lemma decompose_loop_total_split:
  "totalDays (decompose_loop ws av pid lid segs paid lwp)
     = paidDays (decompose_loop ws av pid lid segs paid lwp) + lwpDays (decompose_loop ws av pid lid segs paid lwp)"
  by (induction ws arbitrary: segs paid lwp) simp_all

lemma decompose_loop_paid:
  "pid \<noteq> lid \<Longrightarrow>
     paidDays (decompose_loop ws av pid lid segs paid lwp)
       = paid - paid_total pid segs + paid_total pid (segments (decompose_loop ws av pid lid segs paid lwp))
   \<and> lwpDays (decompose_loop ws av pid lid segs paid lwp)
       = lwp - paid_total lid segs + paid_total lid (segments (decompose_loop ws av pid lid segs paid lwp))"
  by (induction ws arbitrary: segs paid lwp) simp_all

lemma decompose_loop_bound:
  "paid \<le> av \<Longrightarrow> paidDays (decompose_loop ws av pid lid segs paid lwp) \<le> av"
  by (induction ws arbitrary: segs paid lwp) simp_all

lemma decompose_loop_greedy:
  assumes "pid \<noteq> lid" "paid \<le> av" "\<forall>w\<in>set ws. 0 \<le> wd_quantity w"
    and "\<forall>s\<in>set segs. seg_leaveTypeId s = lid \<longrightarrow> av < paid + seg_quantity s"
  shows "\<forall>s\<in>set (segments (decompose_loop ws av pid lid segs paid lwp)). seg_leaveTypeId s = lid \<longrightarrow>
     av < paidDays (decompose_loop ws av pid lid segs paid lwp) + seg_quantity s"
  using assms
proof (induction ws arbitrary: segs paid lwp)
  case (Cons w ws)
  have q: "0 \<le> wd_quantity w" "\<forall>w\<in>set ws. 0 \<le> wd_quantity w" using Cons.prems by simp_all
  show ?case
  proof (cases "paid + wd_quantity w \<le> av")
    case True
    have "\<forall>s\<in>set (segs @ [\<lparr>seg_date = wd_date w, seg_leaveTypeId = pid, seg_quantity = wd_quantity w\<rparr>]).
        seg_leaveTypeId s = lid \<longrightarrow> av < (paid + wd_quantity w) + seg_quantity s"
      using Cons.prems(1,4) q by (force intro: less_le_trans)
    from Cons.IH[OF Cons.prems(1) True q(2) this] True show ?thesis by simp
  next
    case False
    have "\<forall>s\<in>set (segs @ [\<lparr>seg_date = wd_date w, seg_leaveTypeId = lid, seg_quantity = wd_quantity w\<rparr>]).
        seg_leaveTypeId s = lid \<longrightarrow> av < paid + seg_quantity s"
      using Cons.prems(4) False by auto
    from Cons.IH[OF Cons.prems(1,2) q(2) this] False show ?thesis by simp
  qed
qed simp

lemma build_chain_approvers:
  "map approverUserId (buildApproverChainExcludingSelf us self) = filter (\<lambda>u. Some u \<noteq> self) us"
proof -
  have "filter (\<lambda>u. self = None \<or> Some u \<noteq> self) us = filter (\<lambda>u. Some u \<noteq> self) us"
    by (rule filter_cong) auto
  then show ?thesis
    by (auto simp: buildApproverChainExcludingSelf_def Let_def intro!: nth_equalityI)
qed

lemma build_chain_levels:
  "map level (buildApproverChainExcludingSelf us self) = map int [1..<Suc (length (buildApproverChainExcludingSelf us self))]"
  by (auto simp: buildApproverChainExcludingSelf_def Let_def simp del: upt_Suc intro!: nth_equalityI)

lemma build_chain_undecided: "s \<in> set (buildApproverChainExcludingSelf us self) \<Longrightarrow> decision s = None"
  by (auto simp: buildApproverChainExcludingSelf_def Let_def in_set_conv_nth)

lemma build_chain_Nil: "buildApproverChainExcludingSelf us self = [] \<longleftrightarrow> (\<forall>u\<in>set us. Some u = self)"
proof -
  have "buildApproverChainExcludingSelf us self = [] \<longleftrightarrow> map approverUserId (buildApproverChainExcludingSelf us self) = []"
    by simp
  then show ?thesis by (simp add: build_chain_approvers filter_empty_conv)
qed

lemma pick_manager_not_self: "pickManagerApprover m self = Some u \<Longrightarrow> Some u \<noteq> self"
  by (auto simp: pickManagerApprover_def split: option.splits if_splits)

lemma resolve_chain_built:
  "\<exists>us. resolveApproverChainForMember self manager settings owner = buildApproverChainExcludingSelf us self"
  by (auto simp: resolveApproverChainForMember_def Let_def split: option.splits)

text \<open>
  Concrete days for the examples: Monday 12 (1768176000000) and, half, Tuesday 13
  (1768262400000) January 2026, and Tuesday 20 January (1768867200000).
\<close>

lemma january_days:
  "expandWorkingDays 1768176000000 1768262400000 NoHalf FirstHalf {} {0} False
     = [\<lparr>wd_date = 1768176000000, wd_quantity = 1\<rparr>, \<lparr>wd_date = 1768262400000, wd_quantity = 1/2\<rparr>]"
  "expandWorkingDays 1768867200000 1768867200000 NoHalf NoHalf {} {0} False
     = [\<lparr>wd_date = 1768867200000, wd_quantity = 1\<rparr>]"
  "parseWeeklyOff (Some [''Sunday'']) = {0}"
  "getUTCFullYear 1768176000000 = 2026" "getUTCFullYear 1768262400000 = 2026" "getUTCFullYear 1768867200000 = 2026"
  by code_simp+

section \<open>Properties\<close>

text \<open>
  The charged days of a range are exactly its days that are not a holiday and not a
  weekly off (every day under the sandwich rule), once each and in order; a day counts one
  half when it is the last day with a half-day session or the first day with one, else 1.
\<close>

theorem expandWorkingDays_exact:
  "map wd_date (expandWorkingDays from to fh lh hol wo sw)
     = filter (\<lambda>c. sw \<or> \<not> day_is_off hol wo c) (map (\<lambda>d. d * ms_per_day) [day_of from..day_of to])
   \<and> list_all (\<lambda>w. wd_quantity w =
        (if wd_date w = utc_midnight to \<and> lh \<noteq> NoHalf \<or> wd_date w = utc_midnight from \<and> fh \<noteq> NoHalf
         then 1/2 else 1)) (expandWorkingDays from to fh lh hol wo sw)"
proof -
  have inj: "(x * ms_per_day = y * ms_per_day) = (x = y)" for x y by (simp add: ms_per_day_def)
  have nz: "ms_per_day \<noteq> 0" by (simp add: ms_per_day_def)
  have dates: "map wd_date (concat (map (\<lambda>d. if P d then [\<lparr>wd_date = f d, wd_quantity = q d\<rparr>] else []) ds))
      = filter (\<lambda>c. c \<in> f ` {d. P d}) (map f ds)" if "inj f" for P f q and ds :: "int list"
    using that by (induction ds) (auto dest: injD)
  have img: "c \<in> (\<lambda>d. d * ms_per_day) ` {d. sw \<or> \<not> day_is_off hol wo (d * ms_per_day)} \<longleftrightarrow> sw \<or> \<not> day_is_off hol wo c"
    if "c \<in> set (map (\<lambda>d. d * ms_per_day) [day_of from..day_of to])" for c using that by auto
  show ?thesis unfolding expandWorkingDays_def utc_midnight_eq expand_loop_eq
    by (subst dates) (auto simp: inj nz inj_def list_all_iff intro!: filter_cong img split: if_splits)
qed

theorem expandWorkingDays_exact_witness:
  "map wd_date (expandWorkingDays (date_UTC 2026 0 2) (date_UTC 2026 0 5) NoHalf FirstHalf {} {0} False)
     = map (\<lambda>d. date_UTC 2026 0 d) [2, 3, 5]"
proof -
  have "filter (\<lambda>c. False \<or> \<not> day_is_off {} {0} c) (map (\<lambda>d. d * ms_per_day) [day_of (date_UTC 2026 0 2)..day_of (date_UTC 2026 0 5)])
      = map (\<lambda>d. date_UTC 2026 0 d) [2, 3, 5]" by code_simp
  then show ?thesis
    using expandWorkingDays_exact[of "date_UTC 2026 0 2" "date_UTC 2026 0 5" NoHalf FirstHalf "{}" "{0}" False] by metis
qed

text \<open>
  The split of charged days against a paid balance loses nothing and overdraws
  nothing: every day keeps its date and quantity in order and goes to one of the two types,
  the paid and unpaid totals are the sums of their segments and add up to the charge, the
  paid total never exceeds the balance, and a day goes unpaid only if it no longer fits.
\<close>

theorem decomposePaidLwp_sound:
  assumes "paidId \<noteq> lwpId" "0 \<le> available" "\<forall>w\<in>set ws. 0 \<le> wd_quantity w"
  defines "r \<equiv> decomposePaidLwp ws available paidId lwpId"
  shows "map (\<lambda>s. (seg_date s, seg_quantity s)) (segments r) = map (\<lambda>w. (wd_date w, wd_quantity w)) ws
    \<and> totalDays r = sum_list (map wd_quantity ws) \<and> totalDays r = paidDays r + lwpDays r
    \<and> paidDays r = paid_total paidId (segments r) \<and> lwpDays r = paid_total lwpId (segments r)
    \<and> paidDays r \<le> available
    \<and> (\<forall>s\<in>set (segments r). seg_leaveTypeId s = lwpId \<longrightarrow> available < paidDays r + seg_quantity s)"
proof -
  note rd = r_def decomposePaidLwp_def
  have 1: "map (\<lambda>s. (seg_date s, seg_quantity s)) (segments r) = map (\<lambda>w. (wd_date w, wd_quantity w)) ws"
    unfolding rd by (simp add: decompose_loop_segments)
  have 2: "totalDays r = sum_list (map wd_quantity ws)" unfolding rd by (simp add: decompose_loop_total)
  have 3: "totalDays r = paidDays r + lwpDays r" unfolding rd by (rule decompose_loop_total_split)
  have 4: "paidDays r = paid_total paidId (segments r) \<and> lwpDays r = paid_total lwpId (segments r)"
    using decompose_loop_paid[OF assms(1), of ws available "[]" 0 0] unfolding rd by simp
  have 5: "paidDays r \<le> available" unfolding rd by (rule decompose_loop_bound) (rule assms)
  have 6: "\<forall>s\<in>set (segments r). seg_leaveTypeId s = lwpId \<longrightarrow> available < paidDays r + seg_quantity s"
    unfolding rd by (rule decompose_loop_greedy[OF assms(1-3)]) simp
  from 1 2 3 4 5 6 show ?thesis by simp
qed

theorem decomposePaidLwp_sound_witness:
  "paidDays (decomposePaidLwp [\<lparr>wd_date = 0, wd_quantity = 1\<rparr>, \<lparr>wd_date = 86400000, wd_quantity = 1\<rparr>] (3/2) ''CL'' ''LWP'') \<le> 3/2"
  using decomposePaidLwp_sound[of "''CL''" "''LWP''" "3/2"
      "[\<lparr>wd_date = 0, wd_quantity = 1\<rparr>, \<lparr>wd_date = 86400000, wd_quantity = 1\<rparr>]"]
  by simp

text \<open>
  Separation of duties in leave approval: the resolved chain never contains the
  applicant, its levels count from 1 and are undecided; an eligible reporting manager is the
  whole chain, and the chain is empty (auto-approval) only when there is no eligible manager
  and every configured approver and the owner is the applicant.
\<close>

theorem approver_chain_sound:
  "(\<forall>s\<in>set (resolveApproverChainForMember self manager approvers owner). Some (approverUserId s) \<noteq> self \<and> decision s = None)
   \<and> map level (resolveApproverChainForMember self manager approvers owner)
       = map int [1..<Suc (length (resolveApproverChainForMember self manager approvers owner))]
   \<and> (\<forall>u. pickManagerApprover manager self = Some u \<longrightarrow>
        map approverUserId (resolveApproverChainForMember self manager approvers owner) = [u])
   \<and> (resolveApproverChainForMember self manager approvers owner = [] \<longleftrightarrow>
        pickManagerApprover manager self = None \<and> (\<forall>u\<in>set approvers. Some u = self)
        \<and> (owner = None \<or> owner = Some [] \<or> owner = self))"
proof -
  obtain us where us: "resolveApproverChainForMember self manager approvers owner = buildApproverChainExcludingSelf us self"
    using resolve_chain_built by blast
  have "Some (approverUserId s) \<noteq> self" if "s \<in> set (buildApproverChainExcludingSelf us self)" for s
    using arg_cong[OF build_chain_approvers[of us self], of set] that by auto
  then have a: "\<forall>s\<in>set (resolveApproverChainForMember self manager approvers owner). Some (approverUserId s) \<noteq> self \<and> decision s = None"
    unfolding us using build_chain_undecided by blast
  have b: "map level (resolveApproverChainForMember self manager approvers owner)
       = map int [1..<Suc (length (resolveApproverChainForMember self manager approvers owner))]"
    unfolding us by (rule build_chain_levels)
  have c: "map approverUserId (resolveApproverChainForMember self manager approvers owner) = [u]"
    if "pickManagerApprover manager self = Some u" for u
    using that pick_manager_not_self[OF that] by (simp add: resolveApproverChainForMember_def build_chain_approvers)
  have d: "resolveApproverChainForMember self manager approvers owner = [] \<longleftrightarrow>
        pickManagerApprover manager self = None \<and> (\<forall>u\<in>set approvers. Some u = self)
        \<and> (owner = None \<or> owner = Some [] \<or> owner = self)"
    using pick_manager_not_self[of manager self]
    by (auto simp: resolveApproverChainForMember_def Let_def build_chain_Nil split: option.splits)
  from a b c d show ?thesis by blast
qed

theorem approver_chain_sound_witness:
  "map approverUserId (resolveApproverChainForMember (Some ''u1'')
     (Some \<lparr>linkedUserId = Some ''u2'', mgr_isActive = Some True, mgr_isDeleted = None\<rparr>) [''u1'', ''u3''] (Some ''u4'')) = [''u2'']"
proof -
  have "pickManagerApprover (Some \<lparr>linkedUserId = Some ''u2'', mgr_isActive = Some True, mgr_isDeleted = None\<rparr>) (Some ''u1'') = Some ''u2''"
    by (simp add: pickManagerApprover_def)
  then show ?thesis using approver_chain_sound by blast
qed

text \<open>
  The payroll-lock check looks at every month it must: the calendar month of each
  instant of a leave range is among its affected months, which are consecutive and distinct.
\<close>

theorem affectedMonths_complete:
  assumes "from \<le> t" "t \<le> to"
  shows "(getUTCMonth t + 1, getUTCFullYear t) \<in> set (affectedMonths from to) \<and> distinct (affectedMonths from to)"
proof -
  have m: "0 \<le> getUTCMonth t" "getUTCMonth t \<le> 11" using month_of_day_bounds by (auto simp: getUTCMonth_def)
  then have "(getUTCMonth t + 1, getUTCFullYear t) = (\<lambda>i. (i mod 12 + 1, i div 12)) (month_index t)"
    by (auto simp: month_index_def)
  moreover have "month_index t \<in> set [month_index from..month_index to]"
    using month_index_mono[OF assms(1)] month_index_mono[OF assms(2)] by simp
  moreover have "inj (\<lambda>i::int. (i mod 12 + 1, i div 12))"
    by (rule injI) (metis add_right_cancel mult_div_mod_eq prod.inject)
  ultimately show ?thesis
    unfolding affectedMonths_eq distinct_map by (auto intro: inj_on_subset)
qed

theorem affectedMonths_complete_witness:
  "(getUTCMonth (date_UTC 2026 1 10) + 1, getUTCFullYear (date_UTC 2026 1 10))
     \<in> set (affectedMonths (date_UTC 2026 0 28) (date_UTC 2026 2 3))"
proof -
  have "date_UTC 2026 0 28 \<le> date_UTC 2026 1 10" "date_UTC 2026 1 10 \<le> date_UTC 2026 2 3"
    by code_simp+
  then show ?thesis using affectedMonths_complete by blast
qed

end
