(* ===== verification/LeaveLedger.thy ===== *)
theory LeaveLedger
  imports LeaveDays
begin

text \<open>
  The leave ledger and its balance projection: \<open>src/src/modules/leave/leave-ledger.util.ts\<close>
  and \<open>leave-ledger.service.ts\<close>. The two MongoDB collections are the fields of
  \<open>ledger_db\<close>: the append-only list of entries and the map from a bucket (member, leave
  type, year) to its balance row. An entry's \<open>_id\<close> is its position in the list. The unique
  index on (bucket, seq) is the duplicate check of \<open>create_entry\<close>; what concurrent writers
  do between a read and the insert that follows is an argument of \<open>appendEntry\<close>. The
  audit-only columns \<open>actorUserId\<close>, \<open>reason\<close> and \<open>sourceWorkDate\<close> are left out.
\<close>

section \<open>Totals\<close>

datatype entry_type = Opening | Accrual | Usage | Usage_reversal | Adjustment | Carry_forward
  | Lapse | Encashment | Comp_off_credit | Comp_off_expiry

record leave_totals =
  openingDays :: rat
  credited :: rat
  used :: rat
  pending :: rat
  lapsed :: rat
  encashed :: rat

definition emptyTotals :: leave_totals where
  "emptyTotals = \<lparr>openingDays = 0, credited = 0, used = 0, pending = 0, lapsed = 0, encashed = 0\<rparr>"

fun applyEntryToTotals :: "leave_totals \<Rightarrow> entry_type \<Rightarrow> rat \<Rightarrow> leave_totals" where
  "applyEntryToTotals t Opening q = t\<lparr>openingDays := jadd (openingDays t) q\<rparr>"
| "applyEntryToTotals t Accrual q = t\<lparr>credited := jadd (credited t) q\<rparr>"
| "applyEntryToTotals t Carry_forward q = t\<lparr>credited := jadd (credited t) q\<rparr>"
| "applyEntryToTotals t Comp_off_credit q = t\<lparr>credited := jadd (credited t) q\<rparr>"
| "applyEntryToTotals t Adjustment q = t\<lparr>credited := jadd (credited t) q\<rparr>"
| "applyEntryToTotals t Usage q = t\<lparr>used := jadd (used t) (- q)\<rparr>"
| "applyEntryToTotals t Usage_reversal q = t\<lparr>used := jadd (used t) (- q)\<rparr>"
| "applyEntryToTotals t Lapse q = t\<lparr>lapsed := jadd (lapsed t) (- q)\<rparr>"
| "applyEntryToTotals t Comp_off_expiry q = t\<lparr>lapsed := jadd (lapsed t) (- q)\<rparr>"
| "applyEntryToTotals t Encashment q = t\<lparr>encashed := jadd (encashed t) (- q)\<rparr>"

definition computeAvailable :: "leave_totals \<Rightarrow> rat" where
  "computeAvailable t = jsub (jsub (jsub (jsub (jadd (openingDays t) (credited t)) (used t)) (pending t))
     (lapsed t)) (encashed t)"

section \<open>The two collections\<close>

record bucket =
  b_workspaceId :: string
  b_teamMemberId :: string
  b_leaveTypeId :: string
  b_year :: int

datatype source_ref = Source_leave_request nat | Source_comp_off_request nat | Source_manual | Source_cron

record ledger_entry =
  entry_id :: nat
  entry_bucket :: bucket
  seq :: int
  entryType :: entry_type
  quantity :: rat
  effectiveDate :: date
  sourceRef :: source_ref
  lotExpiresOn :: "date option"
  lotRemaining :: "rat option"

record leave_balance = leave_totals +
  available :: rat
  lastLedgerSeq :: int

record ledger_db =
  ledger :: "ledger_entry list"
  balances :: "bucket \<Rightarrow> leave_balance option"

definition empty_ledger_db :: ledger_db where
  "empty_ledger_db = \<lparr>ledger = [], balances = (\<lambda>_. None)\<rparr>"

definition entries_of :: "ledger_db \<Rightarrow> bucket \<Rightarrow> ledger_entry list" where
  "entries_of db b = filter (\<lambda>e. entry_bucket e = b) (ledger db)"

definition getBalance :: "ledger_db \<Rightarrow> bucket \<Rightarrow> leave_balance option" where
  "getBalance db b = balances db b"

section \<open>Rebuilding a balance row\<close>

definition fold_entries :: "leave_totals \<Rightarrow> ledger_entry list \<Rightarrow> leave_totals" where
  "fold_entries t es = foldl (\<lambda>t e. applyEntryToTotals t (entryType e) (quantity e)) t es"

definition projection_row :: "ledger_entry list \<Rightarrow> rat \<Rightarrow> leave_balance" where
  "projection_row es pend =
     (let t = (fold_entries emptyTotals es)\<lparr>pending := pend\<rparr>
      in leave_totals.extend t \<lparr>available = computeAvailable t,
           lastLedgerSeq = foldl (\<lambda>m e. if seq e > m then seq e else m) 0 es\<rparr>)"

definition stored_pending :: "ledger_db \<Rightarrow> bucket \<Rightarrow> rat" where
  "stored_pending db b = (case balances db b of None \<Rightarrow> 0 | Some r \<Rightarrow> pending r)"

definition rebuildBucket :: "ledger_db \<Rightarrow> bucket \<Rightarrow> ledger_db" where
  "rebuildBucket db b = db\<lparr>balances := (balances db)(b \<mapsto>
     projection_row (sort_key seq (entries_of db b)) (stored_pending db b))\<rparr>"

text \<open>\<open>$inc\<close> with \<open>upsert\<close>: a missing row is inserted with the schema's zeros first.\<close>

definition zero_balance :: leave_balance where
  "zero_balance = leave_totals.extend emptyTotals \<lparr>available = 0, lastLedgerSeq = 0\<rparr>"

definition adjustPending :: "bucket \<Rightarrow> rat \<Rightarrow> ledger_db \<Rightarrow> ledger_db" where
  "adjustPending b delta db =
     (let r = coalesce (balances db b) zero_balance;
          db' = db\<lparr>balances := (balances db)(b \<mapsto> r\<lparr>pending := jadd (pending r) delta\<rparr>)\<rparr>
      in rebuildBucket db' b)"

section \<open>Appending an entry\<close>

record append_input =
  in_bucket :: bucket
  in_type :: entry_type
  in_quantity :: rat
  in_effectiveDate :: date
  in_source :: source_ref
  in_lotExpiresOn :: "date option"
  in_lotRemaining :: "rat option"

definition SEQ_RETRY_LIMIT :: nat where "SEQ_RETRY_LIMIT = 4"

definition next_seq :: "ledger_db \<Rightarrow> bucket \<Rightarrow> int" where
  "next_seq db b = (case entries_of db b of [] \<Rightarrow> 0 | e # es \<Rightarrow> seq (keep_max seq e es)) + 1"

definition new_entry :: "ledger_db \<Rightarrow> append_input \<Rightarrow> int \<Rightarrow> ledger_entry" where
  "new_entry db inp s = \<lparr>entry_id = length (ledger db), entry_bucket = in_bucket inp, seq = s,
     entryType = in_type inp, quantity = in_quantity inp, effectiveDate = in_effectiveDate inp,
     sourceRef = in_source inp, lotExpiresOn = in_lotExpiresOn inp, lotRemaining = in_lotRemaining inp\<rparr>"

definition create_entry :: "ledger_db \<Rightarrow> append_input \<Rightarrow> int \<Rightarrow> (ledger_db \<times> ledger_entry) option" where
  \<comment> \<open>\<open>None\<close>: the unique index on (bucket, seq) rejects the insert\<close>
  "create_entry db inp s =
     (if \<exists>e\<in>set (entries_of db (in_bucket inp)). seq e = s then None
      else Some (db\<lparr>ledger := ledger db @ [new_entry db inp s]\<rparr>, new_entry db inp s))"

type_synonym interference = "(ledger_db \<Rightarrow> ledger_db) list"

datatype ledger_error = Seq_allocation_failed

fun append_attempts ::
  "nat \<Rightarrow> interference \<Rightarrow> append_input \<Rightarrow> ledger_db \<Rightarrow> (ledger_error + ledger_entry) \<times> ledger_db" where
  "append_attempts 0 others inp db = (Inl Seq_allocation_failed, db)"
| "append_attempts (Suc n) others inp db =
     (let s = next_seq db (in_bucket inp);
          db' = (case others of [] \<Rightarrow> db | f # _ \<Rightarrow> f db)
      in case create_entry db' inp s of
           Some (db'', e) \<Rightarrow> (Inr e, rebuildBucket db'' (in_bucket inp))
         | None \<Rightarrow> append_attempts n (tl others) inp db')"

definition appendEntry ::
  "interference \<Rightarrow> append_input \<Rightarrow> ledger_db \<Rightarrow> (ledger_error + ledger_entry) \<times> ledger_db" where
  "appendEntry others inp db = append_attempts SEQ_RETRY_LIMIT others inp db"

definition postAdjustment ::
  "bucket \<Rightarrow> rat \<Rightarrow> date \<Rightarrow> ledger_db \<Rightarrow> (ledger_error + ledger_entry) \<times> ledger_db" where
  "postAdjustment b q now db = appendEntry []
     \<lparr>in_bucket = b, in_type = Adjustment, in_quantity = q, in_effectiveDate = now,
      in_source = Source_manual, in_lotExpiresOn = None, in_lotRemaining = None\<rparr> db"

text \<open>An append with no concurrent writer: the state it leaves.\<close>

definition post :: "append_input \<Rightarrow> ledger_db \<Rightarrow> ledger_db" where
  "post inp db = snd (appendEntry [] inp db)"

section \<open>Invariant\<close>

definition ledger_ok :: "ledger_db \<Rightarrow> bool" where
  "ledger_ok db \<longleftrightarrow> distinct (map (\<lambda>e. (entry_bucket e, seq e)) (ledger db))
     \<and> (\<forall>e\<in>set (ledger db). 1 \<le> seq e)
     \<and> map entry_id (ledger db) = [0..<length (ledger db)]"

definition balances_ok :: "ledger_db \<Rightarrow> bool" where
  "balances_ok db \<longleftrightarrow>
     (\<forall>b r. balances db b = Some r \<longrightarrow> r = projection_row (sort_key seq (entries_of db b)) (pending r))
     \<and> (\<forall>e\<in>set (ledger db). balances db (entry_bucket e) \<noteq> None)"

definition totals_of :: "ledger_db \<Rightarrow> bucket \<Rightarrow> leave_totals" where
  "totals_of db b = (case balances db b of None \<Rightarrow> emptyTotals | Some r \<Rightarrow> leave_totals.truncate r)"

definition available_of :: "ledger_db \<Rightarrow> bucket \<Rightarrow> rat" where
  \<comment> \<open>\<open>balance?.available ?? 0\<close>\<close>
  "available_of db b = (case getBalance db b of None \<Rightarrow> 0 | Some r \<Rightarrow> available r)"

section \<open>Lemmas\<close>

lemma entries_of_ledger_snoc [simp]:
  "entries_of (db\<lparr>ledger := ledger db @ [e]\<rparr>) b = entries_of db b @ (if entry_bucket e = b then [e] else [])"
  by (simp add: entries_of_def)

lemma entries_of_balances [simp]: "entries_of (db\<lparr>balances := f\<rparr>) b = entries_of db b"
  by (simp add: entries_of_def)

lemma rebuild_ledger [simp]: "ledger (rebuildBucket db b) = ledger db"
  "entries_of (rebuildBucket db b) b' = entries_of db b'"
  by (simp_all add: rebuildBucket_def)

lemma next_seq_greater: "e \<in> set (entries_of db b) \<Longrightarrow> seq e < next_seq db b"
  using keep_max_ge[of e _ _ seq] by (fastforce simp: next_seq_def split: list.splits)

lemma next_seq_pos:
  assumes "ledger_ok db" shows "1 \<le> next_seq db b"
proof (cases "entries_of db b")
  case (Cons e es)
  then have "e \<in> set (entries_of db b)" by simp
  then have "1 \<le> seq e" "seq e < next_seq db b"
    using assms next_seq_greater by (auto simp: ledger_ok_def entries_of_def)
  then show ?thesis by simp
qed (simp add: next_seq_def)

lemma new_entry_simps [simp]:
  "entry_id (new_entry db inp s) = length (ledger db)" "entry_bucket (new_entry db inp s) = in_bucket inp"
  "seq (new_entry db inp s) = s" "entryType (new_entry db inp s) = in_type inp"
  "quantity (new_entry db inp s) = in_quantity inp" "effectiveDate (new_entry db inp s) = in_effectiveDate inp"
  "sourceRef (new_entry db inp s) = in_source inp" "lotExpiresOn (new_entry db inp s) = in_lotExpiresOn inp"
  "lotRemaining (new_entry db inp s) = in_lotRemaining inp"
  by (simp_all add: new_entry_def)

lemma appendEntry_alone:
  "appendEntry [] inp db = (Inr (new_entry db inp (next_seq db (in_bucket inp))),
     rebuildBucket (db\<lparr>ledger := ledger db @ [new_entry db inp (next_seq db (in_bucket inp))]\<rparr>) (in_bucket inp))"
proof -
  have "\<not> (\<exists>e\<in>set (entries_of db (in_bucket inp)). seq e = next_seq db (in_bucket inp))"
    using next_seq_greater by fastforce
  then show ?thesis
    by (simp add: appendEntry_def SEQ_RETRY_LIMIT_def create_entry_def numeral_eq_Suc Let_def)
qed

lemma post_eq: "post inp db =
   rebuildBucket (db\<lparr>ledger := ledger db @ [new_entry db inp (next_seq db (in_bucket inp))]\<rparr>) (in_bucket inp)"
  by (simp add: post_def appendEntry_alone)

lemma apply_pending [simp]:
  "applyEntryToTotals (t\<lparr>pending := p\<rparr>) ty q = (applyEntryToTotals t ty q)\<lparr>pending := p\<rparr>"
  "pending (applyEntryToTotals t ty q) = pending t"
  by (cases ty; simp)+

lemma fold_entries_snoc [simp]:
  "fold_entries t [] = t"
  "fold_entries t (es @ [e]) = applyEntryToTotals (fold_entries t es) (entryType e) (quantity e)"
  by (simp_all add: fold_entries_def)

lemma truncate_projection [simp]:
  "leave_totals.truncate (projection_row es p) = (fold_entries emptyTotals es)\<lparr>pending := p\<rparr>"
  by (simp add: projection_row_def Let_def leave_totals.defs)

lemma pending_projection [simp]: "pending (projection_row es p) = p"
  by (simp add: projection_row_def Let_def leave_totals.defs)

lemma available_projection:
  "available (projection_row es p) = computeAvailable ((fold_entries emptyTotals es)\<lparr>pending := p\<rparr>)"
  by (simp add: projection_row_def Let_def leave_totals.defs)

lemma totals_of_row:
  assumes "balances_ok db" "balances db b = Some r"
  shows "totals_of db b = (fold_entries emptyTotals (sort_key seq (entries_of db b)))\<lparr>pending := pending r\<rparr>"
proof -
  have "r = projection_row (sort_key seq (entries_of db b)) (pending r)"
    using assms unfolding balances_ok_def by blast
  then have "leave_totals.truncate r = (fold_entries emptyTotals (sort_key seq (entries_of db b)))\<lparr>pending := pending r\<rparr>"
    by (metis truncate_projection)
  then show ?thesis by (simp add: totals_of_def assms(2))
qed

lemma no_row_no_entries: "balances_ok db \<Longrightarrow> balances db b = None \<Longrightarrow> entries_of db b = []"
  by (auto simp: balances_ok_def entries_of_def filter_empty_conv)

lemma emptyTotals_pending [simp]: "emptyTotals\<lparr>pending := 0\<rparr> = emptyTotals" "pending emptyTotals = 0"
  by (simp_all add: emptyTotals_def)

lemma totals_of_fold:
  assumes "balances_ok db"
  shows "totals_of db b = (fold_entries emptyTotals (sort_key seq (entries_of db b)))\<lparr>pending := stored_pending db b\<rparr>"
proof (cases "balances db b")
  case None
  then show ?thesis using no_row_no_entries[OF assms None] by (simp add: totals_of_def stored_pending_def)
next
  case (Some r)
  then show ?thesis using totals_of_row[OF assms Some] by (simp add: stored_pending_def)
qed

lemma available_of_totals:
  assumes "balances_ok db" shows "available_of db b = computeAvailable (totals_of db b)"
proof (cases "balances db b")
  case None
  then show ?thesis by (simp add: available_of_def getBalance_def totals_of_def computeAvailable_def emptyTotals_def jadd_def jsub_def)
next
  case (Some r)
  then have "r = projection_row (sort_key seq (entries_of db b)) (pending r)"
    using assms unfolding balances_ok_def by blast
  then have "available r = computeAvailable ((fold_entries emptyTotals (sort_key seq (entries_of db b)))\<lparr>pending := pending r\<rparr>)"
    by (metis available_projection)
  then show ?thesis using totals_of_row[OF assms Some] by (simp add: available_of_def getBalance_def Some)
qed

lemma sort_entries_snoc:
  "sort_key seq (entries_of db b @ [new_entry db inp (next_seq db b)])
     = sort_key seq (entries_of db b) @ [new_entry db inp (next_seq db b)]"
  using next_seq_greater[of _ db b] by (intro sort_key_snoc) (auto intro: less_imp_le)

subsection \<open>Rebuilding and posting keep the projection exact\<close>

lemma rebuild_ok:
  assumes "\<forall>b'. b' \<noteq> b \<longrightarrow> (\<forall>r. balances db b' = Some r \<longrightarrow> r = projection_row (sort_key seq (entries_of db b')) (pending r))
      \<and> (balances db b' = None \<longrightarrow> entries_of db b' = [])"
  shows "balances_ok (rebuildBucket db b)"
  using assms unfolding balances_ok_def rebuildBucket_def
  by (auto simp: entries_of_def filter_empty_conv)

lemma post_balances_ok: "balances_ok db \<Longrightarrow> balances_ok (post inp db)"
  unfolding post_eq by (rule rebuild_ok) (auto simp: balances_ok_def entries_of_def filter_empty_conv)

lemma create_ledger_ok:
  "ledger_ok db \<Longrightarrow> create_entry db inp s = Some (db', e) \<Longrightarrow> 1 \<le> s \<Longrightarrow> ledger_ok db'"
  by (auto simp: ledger_ok_def create_entry_def entries_of_def split: if_splits; metis)

lemma ledger_ok_balances [simp]: "ledger_ok (db\<lparr>balances := f\<rparr>) = ledger_ok db"
  by (simp add: ledger_ok_def)

lemma rebuild_ledger_ok [simp]: "ledger_ok (rebuildBucket db b) = ledger_ok db"
  by (simp add: rebuildBucket_def)

lemma post_ledger_ok:
  assumes "ledger_ok db" shows "ledger_ok (post inp db)"
proof -
  have "create_entry db inp (next_seq db (in_bucket inp)) =
      Some (db\<lparr>ledger := ledger db @ [new_entry db inp (next_seq db (in_bucket inp))]\<rparr>, new_entry db inp (next_seq db (in_bucket inp)))"
    using next_seq_greater by (fastforce simp: create_entry_def)
  from create_ledger_ok[OF assms this next_seq_pos[OF assms]] show ?thesis by (simp add: post_eq)
qed

lemma post_ledger: "ledger (post inp db) = ledger db @ [new_entry db inp (next_seq db (in_bucket inp))]"
  by (simp add: post_eq)

lemma post_entries: "entries_of (post inp db) b =
    entries_of db b @ (if in_bucket inp = b then [new_entry db inp (next_seq db b)] else [])"
  by (simp add: post_eq)

lemma stored_pending_rebuild [simp]: "stored_pending (rebuildBucket db b) b' = stored_pending db b'"
  by (simp add: stored_pending_def rebuildBucket_def)

lemma stored_pending_ledger [simp]: "stored_pending (db\<lparr>ledger := l\<rparr>) b = stored_pending db b"
  by (simp add: stored_pending_def)

lemma post_pending [simp]: "stored_pending (post inp db) b = stored_pending db b"
  by (simp add: post_eq)

lemma post_totals:
  assumes "balances_ok db"
  shows "totals_of (post inp db) b = (if in_bucket inp = b
     then applyEntryToTotals (totals_of db b) (in_type inp) (in_quantity inp) else totals_of db b)"
  using assms post_balances_ok[OF assms, of inp]
  by (simp add: totals_of_fold post_entries sort_entries_snoc)

subsection \<open>Interference\<close>

definition append_only :: "(ledger_db \<Rightarrow> ledger_db) \<Rightarrow> bool" where
  "append_only f \<longleftrightarrow> (\<forall>d. ledger_ok d \<longrightarrow> ledger_ok (f d) \<and> (\<exists>es. ledger (f d) = ledger d @ es))"

definition append_outcome ::
  "ledger_db \<Rightarrow> append_input \<Rightarrow> bool \<Rightarrow> (ledger_error + ledger_entry) \<times> ledger_db \<Rightarrow> bool" where
  \<comment> \<open>nothing is lost, the index stays unique, and a reported entry is the one inserted and folded\<close>
  "append_outcome db inp may_fail r \<longleftrightarrow>
     ledger_ok (snd r) \<and> (\<exists>es. ledger (snd r) = ledger db @ es)
     \<and> (case fst r of Inl _ \<Rightarrow> may_fail
        | Inr e \<Rightarrow> (\<exists>es. ledger (snd r) = ledger db @ es @ [e])
            \<and> entry_bucket e = in_bucket inp \<and> entryType e = in_type inp \<and> quantity e = in_quantity inp
            \<and> getBalance (snd r) (in_bucket inp) = Some (projection_row
                 (sort_key seq (entries_of (snd r) (in_bucket inp))) (stored_pending (snd r) (in_bucket inp))))"

lemma append_outcome_later:
  "append_outcome db' inp m r \<Longrightarrow> ledger db' = ledger db @ es \<Longrightarrow> (m \<Longrightarrow> m') \<Longrightarrow> append_outcome db inp m' r"
  by (auto simp: append_outcome_def split: sum.splits)

lemma append_attempts_outcome:
  assumes "ledger_ok db" "\<forall>f\<in>set others. append_only f"
  shows "append_outcome db inp (n \<le> length others) (append_attempts n others inp db)"
  using assms
proof (induction n arbitrary: others db)
  case 0
  then show ?case by (simp add: append_outcome_def)
next
  case (Suc n)
  define s where "s = next_seq db (in_bucket inp)"
  define db' where "db' = (case others of [] \<Rightarrow> db | f # _ \<Rightarrow> f db)"
  have db': "ledger_ok db' \<and> (\<exists>es. ledger db' = ledger db @ es)"
    using Suc.prems by (auto simp: db'_def append_only_def split: list.splits)
  then obtain es where es: "ledger db' = ledger db @ es" by blast
  have s: "1 \<le> s" unfolding s_def by (rule next_seq_pos) (rule Suc.prems)
  show ?case
  proof (cases "create_entry db' inp s")
    case None
    have oth: "others \<noteq> []"
    proof
      assume "others = []"
      then have "db' = db" by (simp add: db'_def)
      then have "create_entry db' inp s \<noteq> None"
        using next_seq_greater[of _ db "in_bucket inp"] by (fastforce simp: create_entry_def s_def)
      then show False using None by simp
    qed
    have tl: "\<forall>f\<in>set (tl others). append_only f" using Suc.prems(2) by (cases others) auto
    have r: "append_attempts (Suc n) others inp db = append_attempts n (tl others) inp db'"
      using None by (simp add: Let_def s_def db'_def)
    have "Suc n \<le> length others" if "n \<le> length (tl others)" using oth that by (cases others) auto
    from append_outcome_later[OF Suc.IH[OF conjunct1[OF db'] tl] es this] show ?thesis unfolding r .
  next
    case (Some p)
    then obtain db'' e where p: "create_entry db' inp s = Some (db'', e)" by (cases p) auto
    have r: "append_attempts (Suc n) others inp db = (Inr e, rebuildBucket db'' (in_bucket inp))"
      using p by (simp add: Let_def s_def db'_def)
    have d: "db'' = db'\<lparr>ledger := ledger db' @ [e]\<rparr>" "e = new_entry db' inp s"
      using p by (auto simp: create_entry_def split: if_splits)
    have "getBalance (rebuildBucket db'' b) b =
        Some (projection_row (sort_key seq (entries_of (rebuildBucket db'' b) b)) (stored_pending (rebuildBucket db'' b) b))" for b
      unfolding getBalance_def stored_pending_rebuild rebuild_ledger by (simp add: rebuildBucket_def)
    then show ?thesis
      using create_ledger_ok[OF conjunct1[OF db'] p s] unfolding r append_outcome_def by (simp add: d es)
  qed
qed

section \<open>The ledger as a store of postings\<close>

text \<open>
  What the accrual, year-end and comp-off services use of the ledger: postings, and the
  totals of a bucket. The law says that a posting moves the totals of its own bucket by the
  entry rule and no other's; the facts below it hold for any sequence of postings.
\<close>

locale posting_store =
  fixes put :: "append_input \<Rightarrow> 'db \<Rightarrow> 'db"
    and totals :: "'db \<Rightarrow> bucket \<Rightarrow> leave_totals"
    and ok :: "'db \<Rightarrow> bool"
  assumes put_ok: "ok db \<Longrightarrow> ok (put p db)"
    and put_totals: "ok db \<Longrightarrow> totals (put p db) b =
      (if in_bucket p = b then applyEntryToTotals (totals db b) (in_type p) (in_quantity p) else totals db b)"
begin

lemma fold_ok: "ok db \<Longrightarrow> ok (fold put ps db)"
  by (induction ps arbitrary: db) (simp_all add: put_ok)

lemma fold_totals: "ok db \<Longrightarrow> totals (fold put ps db) b =
    foldl (\<lambda>t p. applyEntryToTotals t (in_type p) (in_quantity p)) (totals db b) (filter (\<lambda>p. in_bucket p = b) ps)"
  by (induction ps arbitrary: db) (simp_all add: put_ok put_totals)

lemma fold_other: "ok db \<Longrightarrow> \<forall>p\<in>set ps. in_bucket p \<noteq> b \<Longrightarrow> totals (fold put ps db) b = totals db b"
  by (simp add: fold_totals filter_empty_conv[THEN iffD2])

lemma fold_pending: "ok db \<Longrightarrow> pending (totals (fold put ps db) b) = pending (totals db b)"
  by (induction ps arbitrary: db) (simp_all add: put_ok put_totals)

end

interpretation leave_store: posting_store post totals_of balances_ok
  by unfold_locales (simp_all add: post_balances_ok post_totals)

section \<open>Exact arithmetic within the bounds\<close>

definition bounded_totals :: "int \<Rightarrow> leave_totals \<Rightarrow> bool" where
  "bounded_totals n t \<longleftrightarrow> halves n (openingDays t) \<and> halves n (credited t) \<and> halves n (used t)
     \<and> halves n (pending t) \<and> halves n (lapsed t) \<and> halves n (encashed t)"

lemma computeAvailable_exact:
  assumes "bounded_totals n t" "6 * n \<le> 2 ^ 53" "0 \<le> n"
  shows "computeAvailable t = openingDays t + credited t - used t - pending t - lapsed t - encashed t"
proof -
  note h = assms(1)[unfolded bounded_totals_def]
  have 1: "halves (n + n) (openingDays t + credited t)" by (rule halves_add) (use h in auto)
  have 2: "halves (n + n + n) (openingDays t + credited t - used t)" by (rule halves_diff[OF 1]) (use h in auto)
  have 3: "halves (n + n + n + n) (openingDays t + credited t - used t - pending t)" by (rule halves_diff[OF 2]) (use h in auto)
  have 4: "halves (n + n + n + n + n) (openingDays t + credited t - used t - pending t - lapsed t)" by (rule halves_diff[OF 3]) (use h in auto)
  have 5: "halves (n + n + n + n + n + n) (openingDays t + credited t - used t - pending t - lapsed t - encashed t)"
    by (rule halves_diff[OF 4]) (use h in auto)
  show ?thesis using assms(2,3)
    by (simp add: computeAvailable_def jadd_def jsub_def fl_halves[OF 1] fl_halves[OF 2] fl_halves[OF 3] fl_halves[OF 4] fl_halves[OF 5])
qed

lemma apply_exact:
  assumes "bounded_totals n t" "halves m q" "n + m \<le> 2 ^ 53"
  shows "openingDays (applyEntryToTotals t ty q) + credited (applyEntryToTotals t ty q)
       - used (applyEntryToTotals t ty q) - pending (applyEntryToTotals t ty q)
       - lapsed (applyEntryToTotals t ty q) - encashed (applyEntryToTotals t ty q)
     = openingDays t + credited t - used t - pending t - lapsed t - encashed t + q"
    and "0 \<le> m \<Longrightarrow> bounded_totals (n + m) (applyEntryToTotals t ty q)"
proof -
  have e: "jadd x q = x + q" "jadd x (- q) = x - q" "halves (n + m) (x + q)" "halves (n + m) (x - q)"
    if "halves n x" for x
  proof -
    show a: "halves (n + m) (x + q)" by (rule halves_add[OF that assms(2)])
    show b: "halves (n + m) (x - q)" by (rule halves_diff[OF that assms(2)])
    show "jadd x q = x + q" "jadd x (- q) = x - q"
      using fl_halves[OF a assms(3)] fl_halves[OF b assms(3)] by (simp_all add: jadd_def)
  qed
  show "openingDays (applyEntryToTotals t ty q) + credited (applyEntryToTotals t ty q)
       - used (applyEntryToTotals t ty q) - pending (applyEntryToTotals t ty q)
       - lapsed (applyEntryToTotals t ty q) - encashed (applyEntryToTotals t ty q)
     = openingDays t + credited t - used t - pending t - lapsed t - encashed t + q"
    using assms(1) by (cases ty) (simp_all add: bounded_totals_def e)
  show "bounded_totals (n + m) (applyEntryToTotals t ty q)" if "0 \<le> m"
    using assms(1) that by (cases ty) (auto simp: bounded_totals_def e intro: halves_mono[of n])
qed

lemma post_available:
  assumes "balances_ok db" "bounded_totals n (totals_of db b)" "halves m (in_quantity inp)"
    and "6 * (n + m) \<le> 2 ^ 53" "0 \<le> n" "0 \<le> m"
  shows "available_of (post inp db) b = (if in_bucket inp = b then available_of db b + in_quantity inp else available_of db b)"
    and "bounded_totals (n + m) (totals_of (post inp db) b)"
proof -
  have nm: "n + m \<le> 2 ^ 53" "6 * n \<le> 2 ^ 53" using assms(4-6) by simp_all
  have old: "available_of db b = openingDays (totals_of db b) + credited (totals_of db b) - used (totals_of db b)
      - pending (totals_of db b) - lapsed (totals_of db b) - encashed (totals_of db b)"
    unfolding available_of_totals[OF assms(1)] by (rule computeAvailable_exact[OF assms(2) nm(2) assms(5)])
  note app = apply_exact[OF assms(2,3) nm(1), of "in_type inp"]
  show bt: "bounded_totals (n + m) (totals_of (post inp db) b)"
    using app(2)[OF assms(6)] assms(2,6)
    by (auto simp: post_totals[OF assms(1)] bounded_totals_def intro: halves_mono[of n])
  show "available_of (post inp db) b = (if in_bucket inp = b then available_of db b + in_quantity inp else available_of db b)"
    using computeAvailable_exact[OF bt assms(4)] assms(5,6) app(1) old
    by (auto simp: available_of_totals[OF post_balances_ok[OF assms(1)]] available_of_totals[OF assms(1)] post_totals[OF assms(1)])
qed

lemma post_append_only: "append_only (post inp)"
  unfolding append_only_def by (simp add: post_ledger_ok post_ledger)

lemma empty_ledger_ok [simp]: "ledger_ok empty_ledger_db" "balances_ok empty_ledger_db"
  by (simp_all add: ledger_ok_def balances_ok_def empty_ledger_db_def)

section \<open>Properties\<close>


definition sample_bucket :: bucket where
  "sample_bucket = \<lparr>b_workspaceId = ''w'', b_teamMemberId = ''m'', b_leaveTypeId = ''CL'', b_year = 2026\<rparr>"

definition sample_input :: "entry_type \<Rightarrow> rat \<Rightarrow> append_input" where
  "sample_input ty q = \<lparr>in_bucket = sample_bucket, in_type = ty, in_quantity = q, in_effectiveDate = 0,
     in_source = Source_manual, in_lotExpiresOn = None, in_lotRemaining = None\<rparr>"

lemma sample_totals:
  "totals_of (post (sample_input Accrual 12) empty_ledger_db) sample_bucket = emptyTotals\<lparr>credited := 12\<rparr>"
proof -
  have "totals_of empty_ledger_db sample_bucket = emptyTotals" by (simp add: totals_of_def empty_ledger_db_def)
  then show ?thesis by (simp add: post_totals sample_input_def emptyTotals_def jadd_def)
qed


text \<open>
  C31. Every entry type moves the stored available balance of its bucket by exactly its
  signed quantity and leaves every other bucket alone: credits raise it, debits lower it, and
  binary64 loses nothing as long as quantities and totals are half-days within the bounds.
\<close>

theorem entry_moves_available:
  assumes "balances_ok db" "bounded_totals (2 ^ 40) (totals_of db b)" "halves (2 ^ 40) (in_quantity inp)"
  shows "available_of (snd (appendEntry [] inp db)) b
     = (if in_bucket inp = b then available_of db b + in_quantity inp else available_of db b)"
  using post_available(1)[OF assms] unfolding post_def by simp

theorem entry_moves_available_witness:
  "available_of (snd (appendEntry [] (sample_input Usage (- 3/2)) (post (sample_input Accrual 12) empty_ledger_db))) sample_bucket
     = available_of (post (sample_input Accrual 12) empty_ledger_db) sample_bucket + (- 3/2)"
proof -
  have t: "bounded_totals (2 ^ 40) (totals_of (post (sample_input Accrual 12) empty_ledger_db) sample_bucket)"
    unfolding sample_totals by (simp add: bounded_totals_def emptyTotals_def halves_def)
  have q: "halves (2 ^ 40) (in_quantity (sample_input Usage (- 3/2)))"
    by (simp add: halves_def sample_input_def)
  from entry_moves_available[OF post_balances_ok[OF empty_ledger_ok(2)] t q]
  show ?thesis by (simp add: sample_input_def)
qed

text \<open>
  The balance row is a cache that can be rebuilt at any time: rebuilding a consistent
  row from the ledger changes nothing, and after any append or reservation every row is
  again the fold of its bucket's ledger.
\<close>

theorem projection_is_fold:
  assumes "balances_ok db"
  shows "(getBalance db b \<noteq> None \<longrightarrow> rebuildBucket db b = db)
    \<and> balances_ok (rebuildBucket db b) \<and> balances_ok (adjustPending b delta db)
    \<and> balances_ok (snd (appendEntry [] inp db))"
proof -
  have "rebuildBucket db b = db" if r: "balances db b = Some r" for r
  proof -
    have "r = projection_row (sort_key seq (entries_of db b)) (pending r)"
      using assms r unfolding balances_ok_def by blast
    then have "(balances db)(b \<mapsto> projection_row (sort_key seq (entries_of db b)) (stored_pending db b)) = balances db"
      using r by (simp add: stored_pending_def fun_upd_idem)
    then show ?thesis by (simp add: rebuildBucket_def)
  qed
  moreover have "balances_ok (rebuildBucket db b)"
    by (rule rebuild_ok) (use assms no_row_no_entries[OF assms] in \<open>auto simp: balances_ok_def\<close>)
  moreover have "balances_ok (adjustPending b delta db)"
    unfolding adjustPending_def Let_def
    by (rule rebuild_ok) (use assms no_row_no_entries[OF assms] in \<open>auto simp: balances_ok_def\<close>)
  ultimately show ?thesis using post_balances_ok[OF assms, of inp] by (auto simp: getBalance_def post_def)
qed

theorem projection_is_fold_witness:
  "rebuildBucket (post (sample_input Accrual 12) empty_ledger_db) sample_bucket = post (sample_input Accrual 12) empty_ledger_db"
proof -
  have "getBalance (post (sample_input Accrual 12) empty_ledger_db) sample_bucket \<noteq> None"
    by (simp add: post_eq rebuildBucket_def getBalance_def sample_input_def)
  then show ?thesis using projection_is_fold[OF post_balances_ok[OF empty_ledger_ok(2)]] by blast
qed

end
