(* ===== verification/LeaveAccrual.thy ===== *)
theory LeaveAccrual
  imports LeaveLedger
begin

text \<open>
  Accrual and year-end close: \<open>src/src/modules/leave/leave-accrual.util.ts\<close>,
  \<open>leave-accrual.service.ts\<close>, \<open>leave-year-end.util.ts\<close> and \<open>leave-year-end.service.ts\<close>.
  The services run from a cron with no concurrent writer; every posting goes through
  \<open>LeaveLedger.post\<close>. Human-readable reasons are left out.
\<close>

section \<open>Leave types\<close>

datatype accrual_mode = Upfront_annual | Periodic_accrual | No_accrual
datatype frequency = Monthly | Quarterly | Annual

record accrual_rule =
  mode :: accrual_mode
  annualQuantity :: rat
  rate :: "rat option"
  frequency :: "frequency option"
  accrualCap :: "rat option"
  eligibleAfterDays :: int

record year_end_rule =
  carryForwardCap :: rat
  lapseExcess :: bool
  encashable :: bool
  encashmentCap :: "rat option"

record leave_type =
  lt_id :: string
  lt_workspaceId :: string
  code :: string
  isActive :: bool
  maxPerRequest :: "rat option"
  genderRule :: string
  accrualRule :: accrual_rule
  yearEndRule :: year_end_rule
  isCompOff :: bool

section \<open>Credits\<close>

definition roundToHalf :: "rat \<Rightarrow> rat" where
  "roundToHalf v = jdiv (of_int (round (jmul v 2))) 2"

definition prorateUpfrontCredit :: "rat \<Rightarrow> date option \<Rightarrow> int \<Rightarrow> rat" where
  "prorateUpfrontCredit annual dateOfJoining year = (case dateOfJoining of
     None \<Rightarrow> annual
   | Some doj \<Rightarrow>
       if getUTCFullYear doj < year then annual
       else if getUTCFullYear doj > year then 0
       else roundToHalf (jdiv (jmul annual (of_int (13 - (getUTCMonth doj + 1)))) 12))"

fun periodMonths :: "frequency \<Rightarrow> int" where
  "periodMonths Monthly = 1"
| "periodMonths Quarterly = 3"
| "periodMonths Annual = 12"

lemma periodMonths_pos [simp]: "0 < periodMonths f"
  by (cases f) simp_all

record accrual_period =
  p_start :: date
  p_end :: date
  p_key :: string

definition period_at :: "int \<Rightarrow> frequency \<Rightarrow> int \<Rightarrow> accrual_period" where
  "period_at year freq m = \<lparr>p_start = date_UTC year m 1, p_end = date_UTC year (m + periodMonths freq) 1,
     p_key = (case freq of
         Monthly \<Rightarrow> int_str year @ ''-'' @ pad2 (int_str (m + 1))
       | Quarterly \<Rightarrow> int_str year @ ''-Q'' @ int_str (m div 3 + 1)
       | Annual \<Rightarrow> int_str year)\<rparr>"

function periods_loop :: "int \<Rightarrow> frequency \<Rightarrow> int \<Rightarrow> accrual_period list" where
  "periods_loop year freq m =
     (if m < 12 then period_at year freq m # periods_loop year freq (m + periodMonths freq) else [])"
  by pat_completeness auto
termination
  by (relation "measure (\<lambda>(y, f, m). nat (12 - m))") auto

declare periods_loop.simps [simp del]

definition periodsForYear :: "int \<Rightarrow> frequency \<Rightarrow> accrual_period list" where
  "periodsForYear year freq = periods_loop year freq 0"

definition isPeriodAccruable :: "accrual_period \<Rightarrow> date \<Rightarrow> date \<Rightarrow> bool" where
  "isPeriodAccruable p asOf accrualStart =
     (if asOf < p_end p then False else accrualStart < p_end p)"

definition proratePeriodCredit :: "rat \<Rightarrow> accrual_period \<Rightarrow> date \<Rightarrow> rat" where
  "proratePeriodCredit r p accrualStart =
     (let activeFrom = max (p_start p) accrualStart
      in if activeFrom \<le> p_start p then r
         else roundToHalf (jmul r (jdiv (of_int (p_end p - activeFrom)) (of_int (p_end p - p_start p)))))"

section \<open>The accrual service\<close>

definition accruals_of :: "ledger_db \<Rightarrow> bucket \<Rightarrow> ledger_entry list" where
  "accruals_of db b = filter (\<lambda>e. entryType e = Accrual) (entries_of db b)"

definition accrual_posting :: "bucket \<Rightarrow> rat \<Rightarrow> date \<Rightarrow> append_input" where
  "accrual_posting b q d = \<lparr>in_bucket = b, in_type = Accrual, in_quantity = q, in_effectiveDate = d,
     in_source = Source_cron, in_lotExpiresOn = None, in_lotRemaining = None\<rparr>"

definition accrueUpfront :: "bucket \<Rightarrow> leave_type \<Rightarrow> date option \<Rightarrow> int \<Rightarrow> date \<Rightarrow> ledger_db \<Rightarrow> nat \<times> ledger_db" where
  "accrueUpfront b lt dateOfJoining year accrualStart db =
     (if length (accruals_of db b) > 0 then (0, db)
      else let qty = prorateUpfrontCredit (annualQuantity (accrualRule lt)) dateOfJoining year
           in if qty \<le> 0 then (0, db) else (1, post (accrual_posting b qty accrualStart) db))"

definition at_cap :: "accrual_rule \<Rightarrow> ledger_db \<Rightarrow> bucket \<Rightarrow> bool" where
  "at_cap rule db b = (case accrualCap rule of
     None \<Rightarrow> False
   | Some cap \<Rightarrow> (case getBalance db b of None \<Rightarrow> False | Some r \<Rightarrow> available r \<ge> cap))"

fun accrue_periods ::
  "accrual_rule \<Rightarrow> rat \<Rightarrow> bucket \<Rightarrow> date \<Rightarrow> date \<Rightarrow> date set \<Rightarrow> accrual_period list \<Rightarrow> nat \<Rightarrow> ledger_db \<Rightarrow> nat \<times> ledger_db" where
  "accrue_periods rule r b asOf accrualStart posted [] count db = (count, db)"
| "accrue_periods rule r b asOf accrualStart posted (p # ps) count db =
     (if \<not> isPeriodAccruable p asOf accrualStart then accrue_periods rule r b asOf accrualStart posted ps count db
      else if p_start p \<in> posted then accrue_periods rule r b asOf accrualStart posted ps count db
      else if at_cap rule db b then accrue_periods rule r b asOf accrualStart posted ps count db
      else let qty = proratePeriodCredit r p accrualStart
        in if qty \<le> 0 then accrue_periods rule r b asOf accrualStart posted ps count db
           else accrue_periods rule r b asOf accrualStart posted ps (count + 1)
                  (post (accrual_posting b qty (p_start p)) db))"

definition accruePeriodic :: "bucket \<Rightarrow> leave_type \<Rightarrow> date \<Rightarrow> date \<Rightarrow> ledger_db \<Rightarrow> nat \<times> ledger_db" where
  "accruePeriodic b lt asOf accrualStart db =
     (let rule = accrualRule lt; r = coalesce (rate rule) 0; f = coalesce (frequency rule) Monthly
      in if r \<le> 0 then (0, db)
         else accrue_periods rule r b asOf accrualStart (effectiveDate ` set (accruals_of db b))
                (periodsForYear (b_year b) f) 0 db)"

definition accrueForMember ::
  "string \<Rightarrow> string \<Rightarrow> date option \<Rightarrow> leave_type \<Rightarrow> date \<Rightarrow> ledger_db \<Rightarrow> nat \<times> ledger_db" where
  "accrueForMember workspaceId teamMemberId dateOfJoining lt asOf db =
     (if mode (accrualRule lt) = No_accrual then (0, db)
      else let year = getUTCFullYear asOf; yearStart = date_UTC year 0 1;
             b = \<lparr>b_workspaceId = workspaceId, b_teamMemberId = teamMemberId, b_leaveTypeId = lt_id lt, b_year = year\<rparr>;
             start0 = (case dateOfJoining of None \<Rightarrow> yearStart | Some doj \<Rightarrow> if doj > yearStart then doj else yearStart);
             eligibleOn = (case dateOfJoining of None \<Rightarrow> None
               | Some doj \<Rightarrow> if eligibleAfterDays (accrualRule lt) > 0
                   then Some (doj + eligibleAfterDays (accrualRule lt) * ms_per_day) else None)
        in if (case eligibleOn of None \<Rightarrow> False | Some e \<Rightarrow> e > asOf) then (0, db)
           else let start = (case eligibleOn of None \<Rightarrow> start0 | Some e \<Rightarrow> if e > start0 then e else start0)
             in if mode (accrualRule lt) = Upfront_annual
                then accrueUpfront b lt dateOfJoining year start db
                else accruePeriodic b lt asOf start db)"

section \<open>Year-end close\<close>

record year_end_distribution =
  ye_encashed :: rat
  ye_carriedForward :: rat
  ye_lapsed :: rat

definition computeYearEndDistribution :: "rat \<Rightarrow> year_end_rule \<Rightarrow> year_end_distribution" where
  "computeYearEndDistribution avail rule =
     (if avail \<le> 0 then \<lparr>ye_encashed = 0, ye_carriedForward = 0, ye_lapsed = 0\<rparr>
      else let enc = (if encashable rule
               then (case encashmentCap rule of Some cap \<Rightarrow> min avail cap | None \<Rightarrow> avail) else 0);
             rem1 = (if encashable rule then jsub avail enc else avail);
             carried = min rem1 (max 0 (carryForwardCap rule));
             rem2 = jsub rem1 carried
        in \<lparr>ye_encashed = enc, ye_carriedForward = carried,
            ye_lapsed = (if lapseExcess rule then rem2 else 0)\<rparr>)"

record encashment_record =
  enc_bucket :: bucket
  enc_days :: rat
  enc_entry :: nat

type_synonym year_end_state = "ledger_db \<times> encashment_record list"

record close_result =
  processed :: bool
  res_carriedForward :: rat
  res_lapsed :: rat
  res_encashmentRecords :: nat

definition year_end_posting :: "bucket \<Rightarrow> entry_type \<Rightarrow> rat \<Rightarrow> date \<Rightarrow> append_input" where
  "year_end_posting b ty q d = \<lparr>in_bucket = b, in_type = ty, in_quantity = q, in_effectiveDate = d,
     in_source = Source_cron, in_lotExpiresOn = None, in_lotRemaining = None\<rparr>"

definition already_closed :: "ledger_db \<Rightarrow> bucket \<Rightarrow> bool" where
  "already_closed db b = (length (filter (\<lambda>e. entryType e \<in> {Carry_forward, Lapse, Encashment}) (entries_of db b)) > 0)"

definition encash_step :: "bucket \<Rightarrow> rat \<Rightarrow> year_end_state \<Rightarrow> year_end_state" where
  \<comment> \<open>the \<open>encashment\<close> debit and the record that points at it\<close>
  "encash_step b q s =
     (if q > 0 then
        (post (year_end_posting b Encashment (- q) (date_UTC (b_year b) 11 31)) (fst s),
         snd s @ [\<lparr>enc_bucket = b, enc_days = q, enc_entry = length (ledger (fst s))\<rparr>])
      else s)"

definition carry_step :: "bucket \<Rightarrow> rat \<Rightarrow> ledger_db \<Rightarrow> ledger_db" where
  \<comment> \<open>debit the closing year, credit the new one\<close>
  "carry_step b q db =
     (if q > 0 then
        post (year_end_posting (b\<lparr>b_year := b_year b + 1\<rparr>) Carry_forward q (date_UTC (b_year b + 1) 0 1))
          (post (year_end_posting b Carry_forward (- q) (date_UTC (b_year b) 11 31)) db)
      else db)"

definition lapse_step :: "bucket \<Rightarrow> rat \<Rightarrow> ledger_db \<Rightarrow> ledger_db" where
  "lapse_step b q db =
     (if q > 0 then post (year_end_posting b Lapse (- q) (date_UTC (b_year b) 11 31)) db else db)"

definition closeBucket :: "bucket \<Rightarrow> rat \<Rightarrow> leave_type \<Rightarrow> year_end_state \<Rightarrow> close_result \<times> year_end_state" where
  "closeBucket b avail lt s =
     (if already_closed (fst s) b
      then (\<lparr>processed = False, res_carriedForward = 0, res_lapsed = 0, res_encashmentRecords = 0\<rparr>, s)
      else let dist = computeYearEndDistribution avail (yearEndRule lt);
             s1 = encash_step b (ye_encashed dist) s;
             db2 = lapse_step b (ye_lapsed dist) (carry_step b (ye_carriedForward dist) (fst s1))
        in (\<lparr>processed = True, res_carriedForward = ye_carriedForward dist, res_lapsed = ye_lapsed dist,
              res_encashmentRecords = (if ye_encashed dist > 0 then 1 else 0)\<rparr>, (db2, snd s1)))"

text \<open>
  The workspace run walks the balance rows of the closing year as the query returned them:
  each row is its bucket and the \<open>available\<close> it had at that moment.
\<close>

fun close_rows :: "leave_type list \<Rightarrow> (bucket \<times> rat) list \<Rightarrow> close_result list \<Rightarrow> year_end_state \<Rightarrow> close_result list \<times> year_end_state" where
  "close_rows types [] acc s = (acc, s)"
| "close_rows types ((b, avail) # rows) acc s =
     (case List.find (\<lambda>lt. lt_id lt = b_leaveTypeId b) types of
        None \<Rightarrow> close_rows types rows acc s
      | Some lt \<Rightarrow>
          if isCompOff lt then close_rows types rows acc s
          else if avail \<le> 0 then close_rows types rows acc s
          else let (r, s') = closeBucket b avail lt s in close_rows types rows (acc @ [r]) s')"

definition runYearEndForWorkspace ::
  "leave_type list \<Rightarrow> bucket list \<Rightarrow> year_end_state \<Rightarrow> (nat \<times> rat \<times> rat \<times> nat) \<times> year_end_state" where
  \<comment> \<open>processed buckets, days carried, days lapsed, encashment records\<close>
  "runYearEndForWorkspace types rows s =
     (let (rs, s') = close_rows types (map (\<lambda>b. (b, available_of (fst s) b)) rows) [] s
      in ((length (filter processed rs), foldl jadd 0 (map res_carriedForward rs),
           foldl jadd 0 (map res_lapsed rs), sum_list (map res_encashmentRecords rs)), s'))"

section \<open>Lemmas: periods\<close>

lemma date_UTC_first_of: "date_UTC y m 1 = first_of (12 * y + m)"
  by (simp add: first_of_def date_UTC_def make_day_def)

lemma period_at_simps [simp]:
  "p_start (period_at y f m) = first_of (12 * y + m)" "p_end (period_at y f m) = first_of (12 * y + m + periodMonths f)"
  by (simp_all add: period_at_def date_UTC_first_of algebra_simps)

lemma periodsForYear_eq:
  "periodsForYear y f = map (\<lambda>i. period_at y f (i * periodMonths f)) [0..12 div periodMonths f - 1]"
  by (cases f) (simp_all add: periodsForYear_def periods_loop.simps upto.simps)

lemma periods_distinct: "distinct (map p_start (periodsForYear y f))"
proof -
  have inj: "first_of a = first_of b \<longleftrightarrow> a = b" for a b
    using first_of_le_iff[of a b] first_of_le_iff[of b a] by linarith
  have "i = j" if "i * periodMonths f = j * periodMonths f" for i j
    using that periodMonths_pos[of f] by simp
  then have "inj_on (\<lambda>i. first_of (12 * y + i * periodMonths f)) A" for A
    by (intro inj_onI) (simp only: inj add_left_cancel)
  then show ?thesis by (simp add: periodsForYear_eq distinct_map o_def)
qed

section \<open>Lemmas: accrual\<close>

lemma accruals_of_post:
  "accruals_of (post inp db) b = accruals_of db b @
     (if in_bucket inp = b \<and> in_type inp = Accrual then [new_entry db inp (next_seq db b)] else [])"
  by (simp add: accruals_of_def post_entries)

lemma accrual_posting_simps [simp]:
  "in_bucket (accrual_posting b q d) = b" "in_type (accrual_posting b q d) = Accrual"
  "in_quantity (accrual_posting b q d) = q" "in_effectiveDate (accrual_posting b q d) = d"
  by (simp_all add: accrual_posting_def)

lemma credited_representable: "fl (credited (fold_entries emptyTotals es)) = credited (fold_entries emptyTotals es)"
proof (induction es rule: rev_induct)
  case Nil
  then show ?case by (simp add: emptyTotals_def)
next
  case (snoc e es)
  then show ?case by (cases "entryType e") (simp_all add: jadd_def)
qed

lemma computeAvailable_mono:
  assumes "credited t \<le> credited t'" "t' = t\<lparr>credited := credited t'\<rparr>"
  shows "computeAvailable t \<le> computeAvailable t'"
proof -
  have "computeAvailable t \<le> computeAvailable (t\<lparr>credited := credited t'\<rparr>)"
    unfolding computeAvailable_def jadd_def jsub_def using assms(1) by (auto intro!: fl_mono diff_right_mono)
  then show ?thesis by (metis assms(2))
qed

lemma accrual_raises_available:
  assumes "balances_ok db" "0 \<le> q"
  shows "available_of db b \<le> available_of (post (accrual_posting b q d) db) b"
proof -
  let ?t = "totals_of db b" and ?t' = "totals_of (post (accrual_posting b q d) db) b"
  have t': "?t' = ?t\<lparr>credited := fl (credited ?t + q)\<rparr>"
    using post_totals[OF assms(1), of "accrual_posting b q d" b] by (simp add: jadd_def)
  have "credited ?t = fl (credited ?t)" by (simp add: totals_of_fold[OF assms(1)] credited_representable)
  also have "\<dots> \<le> fl (credited ?t + q)" using assms(2) by (intro fl_mono) simp
  finally have "credited ?t \<le> credited ?t'" by (simp add: t')
  moreover have "?t' = ?t\<lparr>credited := credited ?t'\<rparr>" by (simp add: t')
  ultimately show ?thesis
    unfolding available_of_totals[OF assms(1)] available_of_totals[OF post_balances_ok[OF assms(1)]]
    by (rule computeAvailable_mono)
qed

lemma post_row: "balances (post inp db) b = (if b = in_bucket inp
    then Some (projection_row (sort_key seq (entries_of (post inp db) b)) (stored_pending db b)) else balances db b)"
  by (auto simp: post_eq rebuildBucket_def)

definition due :: "accrual_rule \<Rightarrow> rat \<Rightarrow> bucket \<Rightarrow> date \<Rightarrow> date \<Rightarrow> ledger_db \<Rightarrow> accrual_period \<Rightarrow> bool" where
  \<comment> \<open>a period a run at \<open>asOf\<close> would credit\<close>
  "due rule r b asOf accrualStart db p \<longleftrightarrow> isPeriodAccruable p asOf accrualStart
     \<and> p_start p \<notin> effectiveDate ` set (accruals_of db b) \<and> \<not> at_cap rule db b
     \<and> 0 < proratePeriodCredit r p accrualStart"

lemma due_post: "balances_ok db \<Longrightarrow> 0 \<le> q \<Longrightarrow> \<not> due rule r b asOf st db p \<Longrightarrow>
    \<not> due rule r b asOf st (post (accrual_posting b q d) db) p"
proof -
  assume db: "balances_ok db" and q: "0 \<le> q" and nd: "\<not> due rule r b asOf st db p"
  have "at_cap rule (post (accrual_posting b q d) db) b" if "at_cap rule db b"
    using that accrual_raises_available[OF db q, of b d]
    by (auto simp: at_cap_def getBalance_def available_of_def post_row split: option.splits)
  then show ?thesis using nd by (auto simp: due_def accruals_of_post)
qed

lemma accrue_periods_ok:
  "balances_ok db \<Longrightarrow> balances_ok (snd (accrue_periods rule r b asOf st posted ps n db))"
  by (induction ps arbitrary: n db) (simp_all add: Let_def post_balances_ok)

lemma accrue_periods_not_due:
  "balances_ok db \<Longrightarrow> \<not> due rule r b asOf st db p \<Longrightarrow>
     \<not> due rule r b asOf st (snd (accrue_periods rule r b asOf st posted ps n db)) p"
  by (induction ps arbitrary: n db) (simp_all add: Let_def post_balances_ok due_post)

lemma accrue_periods_done:
  "balances_ok db \<Longrightarrow> posted \<subseteq> effectiveDate ` set (accruals_of db b) \<Longrightarrow> p \<in> set ps \<Longrightarrow>
     \<not> due rule r b asOf st (snd (accrue_periods rule r b asOf st posted ps n db)) p"
proof (induction ps arbitrary: n db)
  case (Cons q ps)
  show ?case
  proof (cases "p \<in> set ps")
    case True
    have sub: "posted \<subseteq> effectiveDate ` set (accruals_of (post (accrual_posting b c d) db) b)" for c d
      using Cons.prems(2) by (auto simp: accruals_of_post)
    show ?thesis using Cons.IH[OF _ _ True] Cons.prems sub post_balances_ok by (simp add: Let_def)
  next
    case False
    then have p: "p = q" using Cons.prems(3) by simp
    show ?thesis
    proof (cases "isPeriodAccruable q asOf st \<and> p_start q \<notin> posted \<and> \<not> at_cap rule db b \<and> 0 < proratePeriodCredit r q st")
      case True
      let ?db = "post (accrual_posting b (proratePeriodCredit r q st) (p_start q)) db"
      have "\<not> due rule r b asOf st ?db q" by (simp add: due_def accruals_of_post)
      then show ?thesis
        using accrue_periods_not_due[OF post_balances_ok[OF Cons.prems(1)]] True by (simp add: p Let_def)
    next
      case nd: False
      then have "\<not> due rule r b asOf st db q" using Cons.prems(2) by (auto simp: due_def)
      then show ?thesis using accrue_periods_not_due[OF Cons.prems(1)] nd by (auto simp: p Let_def)
    qed
  qed
qed simp

lemma accrue_periods_idle:
  "\<forall>p\<in>set ps. \<not> due rule r b asOf st db p \<Longrightarrow>
     accrue_periods rule r b asOf st (effectiveDate ` set (accruals_of db b)) ps n db = (n, db)"
  by (induction ps) (auto simp: due_def Let_def)

lemma accrue_periods_distinct:
  assumes "distinct (map effectiveDate (accruals_of db b))" "distinct (map p_start ps)"
    and "\<forall>p\<in>set ps. p_start p \<in> posted \<or> p_start p \<notin> effectiveDate ` set (accruals_of db b)"
  shows "distinct (map effectiveDate (accruals_of (snd (accrue_periods rule r b asOf st posted ps n db)) b))"
  using assms
proof (induction ps arbitrary: n db)
  case (Cons p ps)
  have "distinct (map effectiveDate (accruals_of (post (accrual_posting b c (p_start p)) db) b))" if "p_start p \<notin> posted" for c
    using Cons.prems that by (auto simp: accruals_of_post)
  moreover have "p_start q \<noteq> p_start p" if "q \<in> set ps" for q
    using Cons.prems(2) that by (auto simp: image_iff)
  then have "\<forall>q\<in>set ps. p_start q \<in> posted \<or> p_start q \<notin> effectiveDate ` set (accruals_of (post (accrual_posting b c (p_start p)) db) b)" for c
    using Cons.prems by (auto simp: accruals_of_post)
  ultimately show ?case using Cons by (simp add: Let_def)
qed simp

section \<open>Lemmas: year-end\<close>

definition rule_ok :: "int \<Rightarrow> year_end_rule \<Rightarrow> bool" where
  \<comment> \<open>nonnegative caps in half-days; the DTO bounds them by 999\<close>
  "rule_ok n rule \<longleftrightarrow> halves n (carryForwardCap rule) \<and> 0 \<le> carryForwardCap rule
     \<and> (case encashmentCap rule of None \<Rightarrow> True | Some c \<Rightarrow> halves n c \<and> 0 \<le> c)"

lemma distribution_sound:
  fixes rule a
  defines "d \<equiv> computeYearEndDistribution a rule"
  assumes a: "halves n a" "0 < a" and n: "4 * n \<le> 2 ^ 53" "0 \<le> n" and rule: "rule_ok n rule"
  shows "0 \<le> ye_encashed d" "0 \<le> ye_carriedForward d" "0 \<le> ye_lapsed d"
    and "ye_carriedForward d \<le> carryForwardCap rule"
    and "encashable rule \<Longrightarrow> encashmentCap rule = Some c \<Longrightarrow> ye_encashed d \<le> c"
    and "\<not> encashable rule \<Longrightarrow> ye_encashed d = 0"
    and "ye_encashed d + ye_carriedForward d + ye_lapsed d \<le> a"
    and "lapseExcess rule \<Longrightarrow> ye_encashed d + ye_carriedForward d + ye_lapsed d = a"
    and "\<not> lapseExcess rule \<Longrightarrow> ye_lapsed d = 0"
    and "halves (4 * n) (ye_encashed d)" "halves (4 * n) (ye_carriedForward d)" "halves (4 * n) (ye_lapsed d)"
proof -
  define enc where "enc = (if encashable rule then (case encashmentCap rule of Some cap \<Rightarrow> min a cap | None \<Rightarrow> a) else 0)"
  define carried where "carried = min (a - enc) (max 0 (carryForwardCap rule))"
  have enc: "halves n enc" "0 \<le> enc" "enc \<le> a"
    using a n rule by (auto simp: enc_def rule_ok_def min_def split: option.splits)
  have r1: "halves (n + n) (a - enc)" by (rule halves_diff[OF a(1) enc(1)])
  have cap: "halves n (carryForwardCap rule)" "0 \<le> carryForwardCap rule" using rule by (auto simp: rule_ok_def)
  have car: "halves (n + n) carried" "0 \<le> carried" "carried \<le> a - enc" "carried \<le> carryForwardCap rule"
    using r1 cap enc n by (auto simp: carried_def min_def max_def intro: halves_mono[of n])
  have r2: "halves (n + n + (n + n)) (a - enc - carried)" by (rule halves_diff[OF r1 car(1)])
  have s1: "jsub a enc = a - enc" unfolding jsub_def by (rule fl_halves[OF r1]) (use n in simp)
  have s2: "jsub (a - enc) carried = a - enc - carried" unfolding jsub_def by (rule fl_halves[OF r2]) (use n in simp)
  have e0: "\<not> encashable rule \<Longrightarrow> enc = 0" by (simp add: enc_def)
  have rem1: "(if encashable rule then jsub a enc else a) = a - enc" using s1 e0 by simp
  have d: "d = \<lparr>ye_encashed = enc, ye_carriedForward = carried, ye_lapsed = (if lapseExcess rule then a - enc - carried else 0)\<rparr>"
    using a(2) rem1 unfolding d_def computeYearEndDistribution_def enc_def[symmetric] Let_def
    by (simp only: not_le[symmetric] if_False carried_def[symmetric] s2)
  show "0 \<le> ye_encashed d" "0 \<le> ye_carriedForward d" "0 \<le> ye_lapsed d"
    "ye_carriedForward d \<le> carryForwardCap rule"
    "ye_encashed d + ye_carriedForward d + ye_lapsed d \<le> a"
    "lapseExcess rule \<Longrightarrow> ye_encashed d + ye_carriedForward d + ye_lapsed d = a"
    "\<not> lapseExcess rule \<Longrightarrow> ye_lapsed d = 0" "\<not> encashable rule \<Longrightarrow> ye_encashed d = 0"
    using enc car e0 by (simp_all add: d)
  show "encashable rule \<Longrightarrow> encashmentCap rule = Some c \<Longrightarrow> ye_encashed d \<le> c"
    by (simp add: d enc_def)
  show "halves (4 * n) (ye_encashed d)" "halves (4 * n) (ye_carriedForward d)" "halves (4 * n) (ye_lapsed d)"
    using enc(1) car(1) r2 n by (auto simp: d intro: halves_mono[of n] halves_mono[of "n + n"])
qed

lemma year_end_posting_simps [simp]:
  "in_bucket (year_end_posting b ty q d) = b" "in_type (year_end_posting b ty q d) = ty"
  "in_quantity (year_end_posting b ty q d) = q"
  by (simp_all add: year_end_posting_def)

lemma next_year_neq [simp]: "b\<lparr>b_year := b_year b + 1\<rparr> \<noteq> b" "b \<noteq> b\<lparr>b_year := b_year b + 1\<rparr>"
  by (cases b; simp)+

lemma already_closed_post:
  "already_closed (post inp db) b \<longleftrightarrow> already_closed db b \<or> in_bucket inp = b \<and> in_type inp \<in> {Carry_forward, Lapse, Encashment}"
  by (auto simp: already_closed_def post_entries)

definition moves :: "ledger_db \<Rightarrow> ledger_db \<Rightarrow> bucket \<Rightarrow> rat \<Rightarrow> int \<Rightarrow> int \<Rightarrow> bool" where
  \<comment> \<open>from \<open>db\<close> to \<open>db'\<close> the available balance of \<open>c\<close> moves by \<open>x\<close> and its totals stay bounded\<close>
  "moves db db' c x n n' \<longleftrightarrow> balances_ok db \<and> bounded_totals n (totals_of db c)
     \<longrightarrow> balances_ok db' \<and> available_of db' c = available_of db c + x \<and> bounded_totals n' (totals_of db' c)"

lemma moves_post:
  "halves m (in_quantity inp) \<Longrightarrow> 6 * (n + m) \<le> 2 ^ 53 \<Longrightarrow> 0 \<le> n \<Longrightarrow> 0 \<le> m \<Longrightarrow>
     moves db (post inp db) c (if in_bucket inp = c then in_quantity inp else 0) n (n + m)"
  using post_available[of db n c m inp] by (auto simp: moves_def post_balances_ok)

lemma moves_trans: "moves d1 d2 c x n n' \<Longrightarrow> moves d2 d3 c y n' n'' \<Longrightarrow> moves d1 d3 c (x + y) n n''"
  by (auto simp: moves_def)

lemma moves_refl: "n \<le> n' \<Longrightarrow> moves db db c 0 n n'"
  by (auto simp: moves_def bounded_totals_def intro: halves_mono[of n])

lemma moves_cong: "moves db db' c x n n' \<Longrightarrow> x = y \<Longrightarrow> n' \<le> k \<Longrightarrow> moves db db' c y n k"
  by (auto simp: moves_def bounded_totals_def intro: halves_mono[of n'])

lemma closing_steps_move:
  assumes q: "0 \<le> q" "halves m q" and n: "6 * (n + 2 * m) \<le> 2 ^ 53" "0 \<le> n" "0 \<le> m"
  shows "moves (fst s) (fst (encash_step b q s)) c (if c = b then - q else 0) n (n + 2 * m)"
    and "moves db (carry_step b q db) c ((if c = b then - q else 0) + (if c = b\<lparr>b_year := b_year b + 1\<rparr> then q else 0)) n (n + 2 * m)"
    and "moves db (lapse_step b q db) c (if c = b then - q else 0) n (n + 2 * m)"
proof -
  have nm: "6 * (n + m) \<le> 2 ^ 53" "6 * (n + m + m) \<le> 2 ^ 53" "0 \<le> n + m" using n by simp_all
  have hq: "halves m (- q)" using q(2) by simp
  have p1: "moves d0 (post (year_end_posting b ty (- q) d) d0) c (if c = b then - q else 0) n (n + m)" for d0 ty d
    using moves_post[of m "year_end_posting b ty (- q) d" n d0 c] hq nm(1) n(2,3) by (cases "b = c") auto
  have p2: "moves d0 (post (year_end_posting b' ty q d) d0) c (if c = b' then q else 0) (n + m) (n + m + m)" for d0 ty d b'
    using moves_post[of m "year_end_posting b' ty q d" "n + m" d0 c] q(2) nm(2,3) n(3) by (cases "b' = c") auto
  have z: "moves d0 d0 c (if c = b then - q else 0) n (n + 2 * m)" if "\<not> 0 < q" for d0
    using that q(1) n moves_refl[of n "n + 2 * m" d0 c] by (cases "c = b") simp_all
  show "moves (fst s) (fst (encash_step b q s)) c (if c = b then - q else 0) n (n + 2 * m)"
    using z n(3) moves_cong[OF p1 refl] unfolding encash_step_def by (cases "0 < q") (simp_all only: if_True if_False fst_conv, simp)
  show "moves db (lapse_step b q db) c (if c = b then - q else 0) n (n + 2 * m)"
    using z n(3) moves_cong[OF p1 refl] unfolding lapse_step_def by (cases "0 < q") (simp_all only: if_True if_False, simp)
  show "moves db (carry_step b q db) c ((if c = b then - q else 0) + (if c = b\<lparr>b_year := b_year b + 1\<rparr> then q else 0)) n (n + 2 * m)"
  proof (cases "0 < q")
    case True
    show ?thesis unfolding carry_step_def using True n(3)
      by (simp only: if_True) (rule moves_cong[OF moves_trans[OF p1 p2] refl], simp)
  next
    case False
    then show ?thesis using q(1) n moves_refl[of n "n + 2 * m" db c] by (auto simp: carry_step_def)
  qed
qed

lemma closeBucket_moves:
  assumes d: "d = computeYearEndDistribution a (yearEndRule lt)"
    and q: "0 \<le> ye_encashed d" "0 \<le> ye_carriedForward d" "0 \<le> ye_lapsed d"
    and h: "halves m (ye_encashed d)" "halves m (ye_carriedForward d)" "halves m (ye_lapsed d)"
    and n: "6 * (n + 6 * m) \<le> 2 ^ 53" "0 \<le> n" "0 \<le> m" and open_: "\<not> already_closed (fst s) b"
  shows "moves (fst s) (fst (snd (closeBucket b a lt s))) c
     ((if c = b then - (ye_encashed d + ye_carriedForward d + ye_lapsed d) else 0)
       + (if c = b\<lparr>b_year := b_year b + 1\<rparr> then ye_carriedForward d else 0)) n (n + 6 * m)"
proof -
  let ?s1 = "encash_step b (ye_encashed d) s"
  let ?d2 = "carry_step b (ye_carriedForward d) (fst ?s1)"
  have r: "fst (snd (closeBucket b a lt s)) = lapse_step b (ye_lapsed d) ?d2"
    using open_ by (simp add: closeBucket_def Let_def d)
  have m1: "moves (fst s) (fst ?s1) c (if c = b then - ye_encashed d else 0) n (n + 2 * m)"
    by (rule closing_steps_move(1)) (use q h n in auto)
  have m2: "moves (fst ?s1) ?d2 c ((if c = b then - ye_carriedForward d else 0)
      + (if c = b\<lparr>b_year := b_year b + 1\<rparr> then ye_carriedForward d else 0)) (n + 2 * m) (n + 2 * m + 2 * m)"
    by (rule closing_steps_move(2)) (use q h n in auto)
  have m3: "moves ?d2 (lapse_step b (ye_lapsed d) ?d2) c (if c = b then - ye_lapsed d else 0) (n + 2 * m + 2 * m) (n + 2 * m + 2 * m + 2 * m)"
    by (rule closing_steps_move(3)) (use q h n in auto)
  show ?thesis unfolding r
    by (rule moves_cong[OF moves_trans[OF moves_trans[OF m1 m2] m3]]) auto
qed

lemma available_halves:
  assumes "balances_ok db" "bounded_totals n (totals_of db b)" "6 * n \<le> 2 ^ 53" "0 \<le> n"
  shows "halves (6 * n) (available_of db b)"
proof -
  note t = assms(2)[unfolded bounded_totals_def]
  have "halves (n + n + n + n + n + n) (openingDays (totals_of db b) + credited (totals_of db b) - used (totals_of db b)
      - pending (totals_of db b) - lapsed (totals_of db b) - encashed (totals_of db b))"
    using t by (intro halves_diff halves_add) auto
  then show ?thesis unfolding available_of_totals[OF assms(1)] computeAvailable_exact[OF assms(2,3,4)] by simp
qed

lemma closed_after:
  assumes "0 < ye_encashed d \<or> 0 < ye_carriedForward d \<or> 0 < ye_lapsed d"
    and "d = computeYearEndDistribution a (yearEndRule lt)" and "\<not> already_closed (fst s) b"
  shows "already_closed (fst (snd (closeBucket b a lt s))) b"
  using assms by (auto simp: closeBucket_def Let_def encash_step_def carry_step_def lapse_step_def already_closed_post)

lemma next_year_closed_after:
  assumes "0 < ye_carriedForward (computeYearEndDistribution a (yearEndRule lt))" "\<not> already_closed (fst s) b"
  shows "already_closed (fst (snd (closeBucket b a lt s))) (b\<lparr>b_year := b_year b + 1\<rparr>)"
  using assms by (auto simp: closeBucket_def Let_def encash_step_def carry_step_def lapse_step_def already_closed_post)

section \<open>Properties\<close>

text \<open>
  Accrual is idempotent, so the daily cron can re-run safely: for any joining date,
  leave type and date, a second run right after a first posts nothing and changes nothing;
  and a periodic type never credits two entries for the same period.
\<close>

theorem accrual_idempotent:
  assumes "balances_ok db"
  shows "accrueForMember ws m doj lt asOf (snd (accrueForMember ws m doj lt asOf db))
       = (0, snd (accrueForMember ws m doj lt asOf db))
   \<and> (distinct (map effectiveDate (accruals_of db b)) \<longrightarrow>
        distinct (map effectiveDate (accruals_of (snd (accruePeriodic b lt asOf start db)) b)))"
proof
  have up: "accrueUpfront b lt doj y st (snd (accrueUpfront b lt doj y st db)) = (0, snd (accrueUpfront b lt doj y st db))" for b y st
    by (auto simp: accrueUpfront_def Let_def accruals_of_post)
  have per: "accruePeriodic b lt asOf st (snd (accruePeriodic b lt asOf st db)) = (0, snd (accruePeriodic b lt asOf st db))" for b st
  proof (cases "coalesce (rate (accrualRule lt)) 0 \<le> 0")
    case False
    let ?r = "coalesce (rate (accrualRule lt)) 0" and ?f = "coalesce (frequency (accrualRule lt)) Monthly"
    let ?db = "snd (accruePeriodic b lt asOf st db)"
    have "\<not> due (accrualRule lt) ?r b asOf st ?db p" if "p \<in> set (periodsForYear (b_year b) ?f)" for p
      using accrue_periods_done[OF assms subset_refl that] False by (simp add: accruePeriodic_def Let_def)
    then show ?thesis using False
      by (simp add: accruePeriodic_def Let_def accrue_periods_idle)
  qed (simp add: accruePeriodic_def Let_def)
  show "accrueForMember ws m doj lt asOf (snd (accrueForMember ws m doj lt asOf db))
       = (0, snd (accrueForMember ws m doj lt asOf db))"
    by (simp add: accrueForMember_def Let_def up per)
  show "distinct (map effectiveDate (accruals_of db b)) \<longrightarrow>
        distinct (map effectiveDate (accruals_of (snd (accruePeriodic b lt asOf start db)) b))"
    by (auto simp: accruePeriodic_def Let_def periods_distinct intro!: accrue_periods_distinct)
qed

definition casual_leave :: leave_type where
  "casual_leave = \<lparr>lt_id = ''CL'', lt_workspaceId = ''w'', code = ''CL'', isActive = True, maxPerRequest = None,
     genderRule = ''any'',
     accrualRule = \<lparr>mode = Upfront_annual, annualQuantity = 12, rate = None, frequency = None, accrualCap = None, eligibleAfterDays = 0\<rparr>,
     yearEndRule = \<lparr>carryForwardCap = 5, lapseExcess = True, encashable = False, encashmentCap = None\<rparr>,
     isCompOff = False\<rparr>"

theorem accrual_idempotent_witness:
  "accrueForMember ''w'' ''m'' None casual_leave 0 (snd (accrueForMember ''w'' ''m'' None casual_leave 0 empty_ledger_db))
     = (0, snd (accrueForMember ''w'' ''m'' None casual_leave 0 empty_ledger_db))"
  using accrual_idempotent[OF empty_ledger_ok(2), of "''w''" "''m''" None casual_leave 0] by blast

text \<open>
  The accrual periods of a year tile it: they start at its first instant, each ends
  where the next begins and is not empty, the last ends with the year, there are
  \<open>12 / step\<close> of them and no two start together.
\<close>

theorem periods_tile_year:
  "p_start (hd (periodsForYear y f)) = date_UTC y 0 1
   \<and> p_end (last (periodsForYear y f)) = date_UTC (y + 1) 0 1
   \<and> int (length (periodsForYear y f)) * periodMonths f = 12
   \<and> list_all (\<lambda>p. p_start p < p_end p) (periodsForYear y f)
   \<and> map p_end (butlast (periodsForYear y f)) = map p_start (tl (periodsForYear y f))
   \<and> distinct (map p_start (periodsForYear y f))"
proof -
  have "list_all (\<lambda>p. p_start p < p_end p) (periodsForYear y f)"
    by (auto simp: periodsForYear_eq list_all_iff intro: first_of_strict_mono)
  moreover have "p_start (hd (periodsForYear y f)) = date_UTC y 0 1
      \<and> p_end (last (periodsForYear y f)) = date_UTC (y + 1) 0 1
      \<and> int (length (periodsForYear y f)) * periodMonths f = 12
      \<and> map p_end (butlast (periodsForYear y f)) = map p_start (tl (periodsForYear y f))"
    by (cases f) (simp_all add: periodsForYear_eq date_UTC_first_of upto.simps algebra_simps)
  ultimately show ?thesis using periods_distinct by blast
qed


lemma sample_open: "\<not> already_closed (post (sample_input Accrual 12) empty_ledger_db) sample_bucket"
  by (auto simp: already_closed_post) (simp_all add: sample_input_def already_closed_def entries_of_def empty_ledger_db_def)

lemma sample_available: "available_of (post (sample_input Accrual 12) empty_ledger_db) sample_bucket = 12"
  unfolding available_of_totals[OF post_balances_ok[OF empty_ledger_ok(2)]] sample_totals
  by (simp add: computeAvailable_def emptyTotals_def jadd_def jsub_def)

lemma sample_bounded: "bounded_totals (2 ^ 40) (totals_of (post (sample_input Accrual 12) empty_ledger_db) sample_bucket)"
  unfolding sample_totals by (simp add: bounded_totals_def emptyTotals_def halves_def)


text \<open>
  A bucket that received a carry-forward is never closed: closing a year with days to
  carry puts a \<open>carry_forward\<close> credit into the next year's bucket, and the close of that
  next year, at any later state of its ledger, takes this credit for its own closing entry
  and returns unprocessed, so its balance is never encashed, carried or lapsed.
\<close>

theorem carried_bucket_never_closed:
  assumes "\<not> already_closed db b" "0 < ye_carriedForward (computeYearEndDistribution a (yearEndRule lt))"
  shows "fst (closeBucket (b\<lparr>b_year := b_year b + 1\<rparr>) a' lt'
           (fold post ps (fst (snd (closeBucket b a lt (db, encs)))), encs'))
         = \<lparr>processed = False, res_carriedForward = 0, res_lapsed = 0, res_encashmentRecords = 0\<rparr>
     \<and> snd (closeBucket (b\<lparr>b_year := b_year b + 1\<rparr>) a' lt'
           (fold post ps (fst (snd (closeBucket b a lt (db, encs)))), encs'))
         = (fold post ps (fst (snd (closeBucket b a lt (db, encs)))), encs')"
proof -
  have keep: "already_closed d c \<Longrightarrow> already_closed (fold post ps d) c" for d c
    by (induction ps arbitrary: d) (simp_all add: already_closed_post)
  have "already_closed (fst (snd (closeBucket b a lt (db, encs)))) (b\<lparr>b_year := b_year b + 1\<rparr>)"
    by (rule next_year_closed_after) (use assms in auto)
  from keep[OF this] show ?thesis by (simp add: closeBucket_def)
qed

theorem carried_bucket_never_closed_witness:
  "processed (fst (closeBucket (sample_bucket\<lparr>b_year := 2027\<rparr>) 17 casual_leave
     (fst (snd (closeBucket sample_bucket 12 casual_leave (post (sample_input Accrual 12) empty_ledger_db, []))), []))) = False"
proof -
  have c: "0 < ye_carriedForward (computeYearEndDistribution 12 (yearEndRule casual_leave))"
    by (simp add: computeYearEndDistribution_def casual_leave_def)
  have y: "sample_bucket\<lparr>b_year := b_year sample_bucket + 1\<rparr> = sample_bucket\<lparr>b_year := 2027\<rparr>"
    by (simp add: sample_bucket_def)
  from carried_bucket_never_closed[OF sample_open c, of 17 casual_leave "[]" "[]" "[]"]
  show ?thesis unfolding y by simp
qed

end
