(* ===== verification/LeaveCompOff.thy ===== *)
theory LeaveCompOff
  imports LeaveLedger
begin

text \<open>
  Comp-off lots: \<open>src/src/modules/leave/leave-comp-off.util.ts\<close> and \<open>comp-off.service.ts\<close>.
  A lot is a \<open>comp_off_credit\<close> ledger entry; its \<open>lotRemaining\<close> is the one mutable column of
  the ledger. Consumption draws the lots oldest expiry first, withdrawal restores exactly
  the drawn lots, expiry empties what is past its validity.
\<close>

definition isEarnableCompOffDay :: "date \<Rightarrow> string set \<Rightarrow> int set \<Rightarrow> bool" where
  "isEarnableCompOffDay d holidayKeys weeklyOffDays = (dayKey d \<in> holidayKeys \<or> getUTCDay d \<in> weeklyOffDays)"

record comp_off_lot =
  lot_id :: nat
  lot_year :: int
  lot_remaining :: rat

record allocation =
  al_id :: nat
  al_year :: int
  al_consumed :: rat

fun fifo_loop :: "comp_off_lot list \<Rightarrow> rat \<Rightarrow> allocation list \<Rightarrow> allocation list \<times> rat" where
  "fifo_loop [] remaining acc = (acc, remaining)"
| "fifo_loop (lot # lots) remaining acc =
     (if remaining \<le> 0 then (acc, remaining)
      else let consumed = min (lot_remaining lot) remaining
        in if consumed > 0
           then fifo_loop lots (jsub remaining consumed)
                  (acc @ [\<lparr>al_id = lot_id lot, al_year = lot_year lot, al_consumed = consumed\<rparr>])
           else fifo_loop lots remaining acc)"

definition allocateFifo :: "comp_off_lot list \<Rightarrow> rat \<Rightarrow> allocation list \<times> rat" where
  "allocateFifo lots q = (let (as, remaining) = fifo_loop lots q [] in (as, max 0 remaining))"

section \<open>The service\<close>

datatype comp_off_error = Credit_not_positive | Quantity_not_positive | Insufficient_comp_off rat

record comp_off_owner =
  co_workspaceId :: string
  co_teamMemberId :: string
  co_leaveTypeId :: string

definition owner_bucket :: "comp_off_owner \<Rightarrow> int \<Rightarrow> bucket" where
  "owner_bucket ow y = \<lparr>b_workspaceId = co_workspaceId ow, b_teamMemberId = co_teamMemberId ow,
     b_leaveTypeId = co_leaveTypeId ow, b_year = y\<rparr>"

definition owned_by :: "comp_off_owner \<Rightarrow> ledger_entry \<Rightarrow> bool" where
  "owned_by ow e \<longleftrightarrow> entry_bucket e = owner_bucket ow (b_year (entry_bucket e))"

definition creditCompOff ::
  "comp_off_owner \<Rightarrow> date \<Rightarrow> rat \<Rightarrow> int \<Rightarrow> source_ref \<Rightarrow> ledger_db \<Rightarrow> comp_off_error + ledger_db" where
  "creditCompOff ow sourceWorkDate q validityDays src db =
     (if q \<le> 0 then Inl Credit_not_positive
      else Inr (post \<lparr>in_bucket = owner_bucket ow (getUTCFullYear sourceWorkDate), in_type = Comp_off_credit,
             in_quantity = q, in_effectiveDate = sourceWorkDate, in_source = src,
             in_lotExpiresOn = Some (sourceWorkDate + validityDays * ms_per_day),
             in_lotRemaining = Some q\<rparr> db))"

definition live_lot :: "comp_off_owner \<Rightarrow> date \<Rightarrow> ledger_entry \<Rightarrow> bool" where
  \<comment> \<open>the filter of the lot queries\<close>
  "live_lot ow asOf e \<longleftrightarrow> owned_by ow e \<and> entryType e = Comp_off_credit
     \<and> (case lotExpiresOn e of None \<Rightarrow> False | Some x \<Rightarrow> x > asOf)
     \<and> (case lotRemaining e of None \<Rightarrow> False | Some x \<Rightarrow> x > 0)"

definition lot_docs :: "comp_off_owner \<Rightarrow> date \<Rightarrow> ledger_db \<Rightarrow> ledger_entry list" where
  "lot_docs ow asOf db = sort_key (\<lambda>e. coalesce (lotExpiresOn e) 0) (filter (live_lot ow asOf) (ledger db))"

definition as_lot :: "ledger_entry \<Rightarrow> comp_off_lot" where
  "as_lot e = \<lparr>lot_id = entry_id e, lot_year = b_year (entry_bucket e), lot_remaining = coalesce (lotRemaining e) 0\<rparr>"

definition availableForConsumption :: "comp_off_owner \<Rightarrow> date \<Rightarrow> ledger_db \<Rightarrow> rat" where
  "availableForConsumption ow asOf db =
     foldl (\<lambda>sum e. jadd sum (coalesce (lotRemaining e) 0)) 0 (filter (live_lot ow asOf) (ledger db))"

definition inc_lot :: "nat \<Rightarrow> rat \<Rightarrow> ledger_db \<Rightarrow> ledger_db" where
  \<comment> \<open>\<open>updateOne({ _id }, { $inc: { lotRemaining: x } })\<close>\<close>
  "inc_lot i x db = db\<lparr>ledger := map (\<lambda>e. if entry_id e = i
     then e\<lparr>lotRemaining := Some (jadd (coalesce (lotRemaining e) 0) x)\<rparr> else e) (ledger db)\<rparr>"

definition clear_lot :: "nat \<Rightarrow> ledger_db \<Rightarrow> ledger_db" where
  \<comment> \<open>\<open>updateOne({ _id }, { $set: { lotRemaining: 0 } })\<close>\<close>
  "clear_lot i db = db\<lparr>ledger := map (\<lambda>e. if entry_id e = i then e\<lparr>lotRemaining := Some 0\<rparr> else e) (ledger db)\<rparr>"

definition lot_posting :: "comp_off_owner \<Rightarrow> int \<Rightarrow> entry_type \<Rightarrow> rat \<Rightarrow> date \<Rightarrow> source_ref \<Rightarrow> append_input" where
  "lot_posting ow y ty q d src = \<lparr>in_bucket = owner_bucket ow y, in_type = ty, in_quantity = q,
     in_effectiveDate = d, in_source = src, in_lotExpiresOn = None, in_lotRemaining = None\<rparr>"

definition draw_lot :: "comp_off_owner \<Rightarrow> date \<Rightarrow> source_ref \<Rightarrow> allocation \<Rightarrow> ledger_db \<Rightarrow> ledger_db" where
  "draw_lot ow asOf src al db =
     post (lot_posting ow (al_year al) Usage (- al_consumed al) asOf src) (inc_lot (al_id al) (- al_consumed al) db)"

definition consumeCompOffFifo ::
  "comp_off_owner \<Rightarrow> rat \<Rightarrow> date \<Rightarrow> source_ref \<Rightarrow> ledger_db \<Rightarrow> comp_off_error + allocation list \<times> ledger_db" where
  "consumeCompOffFifo ow q asOf src db =
     (if q \<le> 0 then Inl Quantity_not_positive
      else let (allocations, shortfall) = allocateFifo (map as_lot (lot_docs ow asOf db)) q
        in if shortfall > 0 then Inl (Insufficient_comp_off shortfall)
           else Inr (allocations, fold (draw_lot ow asOf src) allocations db))"

definition restore_lot :: "comp_off_owner \<Rightarrow> date \<Rightarrow> source_ref \<Rightarrow> allocation \<Rightarrow> ledger_db \<Rightarrow> ledger_db" where
  "restore_lot ow now src al db =
     (if al_consumed al \<le> 0 then db
      else post (lot_posting ow (al_year al) Usage_reversal (al_consumed al) now src) (inc_lot (al_id al) (al_consumed al) db))"

definition reverseConsumption ::
  "comp_off_owner \<Rightarrow> allocation list \<Rightarrow> date \<Rightarrow> source_ref \<Rightarrow> ledger_db \<Rightarrow> ledger_db" where
  "reverseConsumption ow allocations now src db = fold (restore_lot ow now src) allocations db"

definition expired_lots :: "date \<Rightarrow> ledger_db \<Rightarrow> ledger_entry list" where
  "expired_lots asOf db = take 500 (filter (\<lambda>e. entryType e = Comp_off_credit
     \<and> (case lotExpiresOn e of None \<Rightarrow> False | Some x \<Rightarrow> x \<le> asOf)
     \<and> (case lotRemaining e of None \<Rightarrow> False | Some x \<Rightarrow> x > 0)) (ledger db))"

definition expire_lot :: "date \<Rightarrow> ledger_entry \<Rightarrow> ledger_db \<Rightarrow> ledger_db" where
  "expire_lot asOf lot db =
     (let remaining = coalesce (lotRemaining lot) 0
      in if remaining \<le> 0 then db
         else clear_lot (entry_id lot) (post \<lparr>in_bucket = entry_bucket lot, in_type = Comp_off_expiry,
                in_quantity = - remaining, in_effectiveDate = coalesce (lotExpiresOn lot) asOf,
                in_source = Source_cron, in_lotExpiresOn = None, in_lotRemaining = None\<rparr> db))"

definition expireCompOffLots :: "date \<Rightarrow> ledger_db \<Rightarrow> (nat \<times> rat) \<times> ledger_db" where
  "expireCompOffLots asOf db =
     (let lots = expired_lots asOf db
      in ((length lots, foldl (\<lambda>sum e. jadd sum (coalesce (lotRemaining e) 0)) 0 lots),
          fold (expire_lot asOf) lots db))"

section \<open>Lemmas: the FIFO loop\<close>

lemma fifo_loop_append: "fifo_loop lots q acc = (acc @ fst (fifo_loop lots q []), snd (fifo_loop lots q []))"
proof (induction lots arbitrary: q acc)
  case (Cons l ls)
  show ?case
    by (simp add: Let_def)
       (metis (no_types) Cons.IH append.assoc append_Cons append_Nil fst_conv snd_conv)
qed simp

definition lots_ok :: "int \<Rightarrow> comp_off_lot list \<Rightarrow> bool" where
  "lots_ok n lots \<longleftrightarrow> (\<forall>l\<in>set lots. halves n (lot_remaining l) \<and> 0 \<le> lot_remaining l)"

lemma halves_sub_between:
  assumes "halves n x" "halves m y" "0 \<le> y" "y \<le> x" shows "halves n (x - y)"
proof -
  obtain j k where "x = of_int j / 2" "y = of_int k / 2" "\<bar>j\<bar> \<le> n"
    using assms(1,2) unfolding halves_iff by blast
  moreover from this have "0 \<le> k" "k \<le> j" using assms(3,4) by simp_all
  ultimately have "x - y = of_int (j - k) / 2" "\<bar>j - k\<bar> \<le> n" by (simp_all add: diff_divide_distrib)
  then show ?thesis unfolding halves_iff by blast
qed

lemma fifo_loop_zero: "q \<le> 0 \<Longrightarrow> fifo_loop lots q acc = (acc, q)"
  by (cases lots) simp_all

lemma fifo_loop_sound:
  assumes "lots_ok n lots" "halves n q" "0 \<le> q" "n \<le> 2 ^ 53"
  shows "sum_list (map al_consumed (fst (fifo_loop lots q []))) + snd (fifo_loop lots q []) = q
    \<and> 0 \<le> snd (fifo_loop lots q [])
    \<and> (\<forall>a\<in>set (fst (fifo_loop lots q [])). 0 < al_consumed a \<and> halves n (al_consumed a))
    \<and> (0 < snd (fifo_loop lots q []) \<longrightarrow> snd (fifo_loop lots q []) = q - sum_list (map lot_remaining lots))"
  using assms
proof (induction lots arbitrary: q)
  case (Cons l ls)
  define c where "c = min (lot_remaining l) q"
  have ls: "lots_ok n ls" and l: "halves n (lot_remaining l)" "0 \<le> lot_remaining l"
    using Cons.prems(1) by (auto simp: lots_ok_def)
  have c: "halves n c" "0 \<le> c" "c \<le> q" using l Cons.prems(2,3) by (auto simp: c_def min_def)
  have d: "halves n (q - c)" by (rule halves_sub_between[OF Cons.prems(2) c])
  have s: "jsub q c = q - c" unfolding jsub_def by (rule fl_halves[OF d Cons.prems(4)])
  show ?case
  proof (cases "q \<le> 0")
    case True
    then show ?thesis using Cons.prems(3) by simp
  next
    case q: False
    show ?thesis
    proof (cases "0 < c")
      case True
      have r: "fifo_loop (l # ls) q [] = (\<lparr>al_id = lot_id l, al_year = lot_year l, al_consumed = c\<rparr> # fst (fifo_loop ls (q - c) []),
          snd (fifo_loop ls (q - c) []))"
        using q True by (simp add: Let_def c_def[symmetric] s) (subst fifo_loop_append, simp)
      have "q - c = 0 \<or> c = lot_remaining l" by (simp add: c_def min_def)
      then consider "q - c = 0" | "c = lot_remaining l" by blast
      then show ?thesis
      proof cases
        case 1
        then show ?thesis using c True unfolding r by (simp add: fifo_loop_zero)
      next
        case 2
        then show ?thesis using Cons.IH[OF ls d _ Cons.prems(4)] c True unfolding r by (auto simp: algebra_simps)
      qed
    next
      case False
      then have "c = 0" "lot_remaining l = 0" using c q by (auto simp: c_def min_def split: if_splits)
      moreover have "fifo_loop (l # ls) q [] = fifo_loop ls q []" using q False by (simp add: Let_def c_def[symmetric])
      ultimately show ?thesis using Cons.IH[OF ls Cons.prems(2,3,4)] by simp
    qed
  qed
qed simp

lemma fifo_loop_order:
  assumes "lots_ok n lots"
  defines "p \<equiv> filter (\<lambda>l. 0 < lot_remaining l) lots"
  shows "\<exists>k\<le>length p. map al_id (fst (fifo_loop lots q [])) = map lot_id (take k p)
     \<and> map al_year (fst (fifo_loop lots q [])) = map lot_year (take k p)
     \<and> map al_consumed (butlast (fst (fifo_loop lots q []))) = map lot_remaining (take (k - 1) p)
     \<and> (\<forall>i<k. al_consumed (fst (fifo_loop lots q []) ! i) \<le> lot_remaining (p ! i))"
  using assms(1) unfolding p_def
proof (induction lots arbitrary: q)
  case (Cons l ls)
  define c where "c = min (lot_remaining l) q"
  have ls: "lots_ok n ls" and l: "0 \<le> lot_remaining l" using Cons.prems by (auto simp: lots_ok_def)
  show ?case
  proof (cases "0 < q \<and> 0 < lot_remaining l")
    case False
    show ?thesis
    proof (cases "q \<le> 0")
      case True
      then show ?thesis by (intro exI[of _ 0]) simp
    next
      case q: False
      then have "lot_remaining l = 0" using False l by simp
      then show ?thesis using Cons.IH[OF ls, of q] q by (simp add: Let_def)
    qed
  next
    case True
    then have c: "0 < c" "c \<le> lot_remaining l" by (auto simp: c_def)
    let ?r = "fst (fifo_loop ls (jsub q c) [])"
    have r: "fst (fifo_loop (l # ls) q []) = \<lparr>al_id = lot_id l, al_year = lot_year l, al_consumed = c\<rparr> # ?r"
      using True c by (simp add: Let_def c_def[symmetric]) (subst fifo_loop_append, simp)
    obtain k where k: "k \<le> length (filter (\<lambda>l. 0 < lot_remaining l) ls)"
        "map al_id ?r = map lot_id (take k (filter (\<lambda>l. 0 < lot_remaining l) ls))"
        "map al_year ?r = map lot_year (take k (filter (\<lambda>l. 0 < lot_remaining l) ls))"
        "map al_consumed (butlast ?r) = map lot_remaining (take (k - 1) (filter (\<lambda>l. 0 < lot_remaining l) ls))"
        "\<forall>i<k. al_consumed (?r ! i) \<le> lot_remaining (filter (\<lambda>l. 0 < lot_remaining l) ls ! i)"
      using Cons.IH[OF ls] by blast
    have len: "length ?r = k" using arg_cong[OF k(2), of length] k(1) by simp
    show ?thesis
    proof (cases "?r = []")
      case True
      then show ?thesis unfolding r using k c \<open>0 < q \<and> _\<close> len by (intro exI[of _ 1]) simp
    next
      case False
      then have "c = lot_remaining l"
        using fifo_loop_zero[of "jsub q c" ls "[]"] by (auto simp: c_def min_def jsub_def split: if_splits)
      moreover have "0 < k" using False len by auto
      ultimately show ?thesis unfolding r using k c \<open>0 < q \<and> _\<close> False len
        by (intro exI[of _ "Suc k"]) (auto simp: nth_Cons' take_Cons' split: if_splits)
    qed
  qed
qed simp

section \<open>Lemmas: lots of the ledger\<close>

definition lot_val :: "ledger_entry \<Rightarrow> rat" where
  "lot_val e = coalesce (lotRemaining e) 0"

definition net :: "ledger_db \<Rightarrow> bucket \<Rightarrow> rat" where
  \<comment> \<open>the exact sum of the signed quantities of a bucket\<close>
  "net db b = sum_list (map quantity (entries_of db b))"

definition lot_sum :: "ledger_db \<Rightarrow> bucket \<Rightarrow> rat" where
  "lot_sum db b = sum_list (map lot_val (entries_of db b))"

definition lots_bounded :: "int \<Rightarrow> ledger_db \<Rightarrow> bool" where
  "lots_bounded n db \<longleftrightarrow> (\<forall>e\<in>set (ledger db). halves n (lot_val e) \<and> 0 \<le> lot_val e)"

definition lots_match :: "comp_off_owner \<Rightarrow> ledger_db \<Rightarrow> bool" where
  "lots_match ow db \<longleftrightarrow> (\<forall>y. net db (owner_bucket ow y) = lot_sum db (owner_bucket ow y))"

lemma ledger_ok_nth: "ledger_ok db \<Longrightarrow> i < length (ledger db) \<Longrightarrow> entry_id (ledger db ! i) = i"
  unfolding ledger_ok_def by (metis (no_types, lifting) add.left_neutral length_map nth_map nth_upt)

definition set_lot :: "nat \<Rightarrow> rat \<Rightarrow> ledger_db \<Rightarrow> ledger_db" where
  "set_lot i v db = db\<lparr>ledger := (ledger db)[i := (ledger db ! i)\<lparr>lotRemaining := Some v\<rparr>]\<rparr>"

lemma inc_lot_set:
  assumes "ledger_ok db" "i < length (ledger db)"
  shows "inc_lot i x db = set_lot i (jadd (lot_val (ledger db ! i)) x) db"
  unfolding inc_lot_def set_lot_def lot_val_def
  by (rule arg_cong[where f = "\<lambda>l. db\<lparr>ledger := l\<rparr>"], rule nth_equalityI)
     (use assms in \<open>auto simp: ledger_ok_nth nth_list_update\<close>)

lemma clear_lot_set:
  assumes "ledger_ok db" "i < length (ledger db)"
  shows "clear_lot i db = set_lot i 0 db"
  unfolding clear_lot_def set_lot_def
  by (rule arg_cong[where f = "\<lambda>l. db\<lparr>ledger := l\<rparr>"], rule nth_equalityI)
     (use assms in \<open>auto simp: ledger_ok_nth nth_list_update\<close>)

lemma map_set_lot:
  assumes "\<And>e v. f (e\<lparr>lotRemaining := v\<rparr>) = f e"
  shows "map f (ledger (set_lot i v db)) = map f (ledger db)"
  using list_update_id[of "map f (ledger db)" i]
  by (cases "i < length (ledger db)") (simp_all add: set_lot_def map_update assms list_update_beyond)

lemma set_lot_ok: "ledger_ok db \<Longrightarrow> ledger_ok (set_lot i v db)"
proof -
  assume ok: "ledger_ok db"
  have "\<forall>s\<in>set (map seq (ledger (set_lot i v db))). 1 \<le> s"
    using ok unfolding ledger_ok_def map_set_lot[where f = seq, simplified] by simp
  then show ?thesis
    using ok map_set_lot[of "\<lambda>e. (entry_bucket e, seq e)" i v db] map_set_lot[of entry_id i v db]
    by (simp add: ledger_ok_def set_lot_def)
qed

lemma sum_filter_update:
  assumes "i < length es" "P e' = P (es ! i)"
  shows "sum_list (map f (filter P (es[i := e']))) = sum_list (map f (filter P es)) + (if P e' then f e' - f (es ! i) else (0::rat))"
  using assms
proof (induction es arbitrary: i)
  case (Cons e es)
  then show ?case by (cases i) auto
qed simp

lemma set_lot_sums:
  assumes "i < length (ledger db)"
  shows "net (set_lot i v db) b = net db b"
    and "lot_sum (set_lot i v db) b = lot_sum db b + (if entry_bucket (ledger db ! i) = b then v - lot_val (ledger db ! i) else 0)"
  using sum_filter_update[of i "ledger db" "\<lambda>e. entry_bucket e = b" "(ledger db ! i)\<lparr>lotRemaining := Some v\<rparr>" quantity, OF assms]
    sum_filter_update[of i "ledger db" "\<lambda>e. entry_bucket e = b" "(ledger db ! i)\<lparr>lotRemaining := Some v\<rparr>" lot_val, OF assms]
  by (auto simp: net_def lot_sum_def entries_of_def set_lot_def lot_val_def)

lemma set_lot_bounded:
  "lots_bounded n db \<Longrightarrow> halves n v \<Longrightarrow> 0 \<le> v \<Longrightarrow> lots_bounded n (set_lot i v db)"
  by (auto simp: lots_bounded_def set_lot_def lot_val_def dest!: set_update_subset_insert[THEN subsetD])

lemma post_sums:
  "net (post inp db) b = net db b + (if in_bucket inp = b then in_quantity inp else 0)"
  "lot_sum (post inp db) b = lot_sum db b + (if in_bucket inp = b then coalesce (in_lotRemaining inp) 0 else 0)"
  by (simp_all add: net_def lot_sum_def post_entries lot_val_def)

lemma post_bounded:
  "lots_bounded n db \<Longrightarrow> halves n (coalesce (in_lotRemaining inp) 0) \<Longrightarrow> 0 \<le> coalesce (in_lotRemaining inp) 0 \<Longrightarrow>
     lots_bounded n (post inp db)"
  by (auto simp: lots_bounded_def post_ledger lot_val_def)

lemma lot_posting_simps [simp]:
  "in_bucket (lot_posting ow y ty q d src) = owner_bucket ow y" "in_type (lot_posting ow y ty q d src) = ty"
  "in_quantity (lot_posting ow y ty q d src) = q" "in_lotRemaining (lot_posting ow y ty q d src) = None"
  by (simp_all add: lot_posting_def)

section \<open>Lemmas: drawing and restoring\<close>

definition valid_alloc :: "int \<Rightarrow> comp_off_owner \<Rightarrow> ledger_db \<Rightarrow> allocation \<Rightarrow> bool" where
  "valid_alloc n ow db a \<longleftrightarrow> al_id a < length (ledger db)
     \<and> entry_bucket (ledger db ! al_id a) = owner_bucket ow (al_year a)
     \<and> lotRemaining (ledger db ! al_id a) \<noteq> None
     \<and> 0 < al_consumed a \<and> halves n (al_consumed a) \<and> al_consumed a \<le> lot_val (ledger db ! al_id a)"

definition db_ok :: "int \<Rightarrow> comp_off_owner \<Rightarrow> ledger_db \<Rightarrow> bool" where
  "db_ok n ow db \<longleftrightarrow> ledger_ok db \<and> lots_bounded n db \<and> lots_match ow db"

lemma owner_bucket_inj [simp]: "owner_bucket ow y = owner_bucket ow y' \<longleftrightarrow> y = y'"
  by (simp add: owner_bucket_def)

lemma draw_lot_eq:
  assumes ok: "db_ok n ow db" and a: "valid_alloc n ow db a" and n: "n \<le> 2 ^ 53"
  shows "draw_lot ow asOf src a db = post (lot_posting ow (al_year a) Usage (- al_consumed a) asOf src)
     (set_lot (al_id a) (lot_val (ledger db ! al_id a) - al_consumed a) db)"
    and "halves n (lot_val (ledger db ! al_id a) - al_consumed a)"
proof -
  have "ledger db ! al_id a \<in> set (ledger db)" using a by (simp add: valid_alloc_def)
  then have l: "halves n (lot_val (ledger db ! al_id a))" using ok by (simp add: db_ok_def lots_bounded_def)
  show h: "halves n (lot_val (ledger db ! al_id a) - al_consumed a)"
    by (rule halves_sub_between[OF l]) (use a in \<open>auto simp: valid_alloc_def\<close>)
  have "jadd (lot_val (ledger db ! al_id a)) (- al_consumed a) = lot_val (ledger db ! al_id a) - al_consumed a"
    using fl_halves[OF h n] by (simp add: jadd_def)
  moreover have "inc_lot (al_id a) (- al_consumed a) db = set_lot (al_id a) (jadd (lot_val (ledger db ! al_id a)) (- al_consumed a)) db"
    by (rule inc_lot_set) (use ok a in \<open>auto simp: db_ok_def valid_alloc_def\<close>)
  ultimately show "draw_lot ow asOf src a db = post (lot_posting ow (al_year a) Usage (- al_consumed a) asOf src)
     (set_lot (al_id a) (lot_val (ledger db ! al_id a) - al_consumed a) db)"
    by (simp add: draw_lot_def)
qed

lemma nth_draw:
  "i < length (ledger db) \<Longrightarrow> ledger (post inp (set_lot j v db)) ! i = (if i = j then (ledger db ! i)\<lparr>lotRemaining := Some v\<rparr> else ledger db ! i)"
  by (simp add: post_ledger nth_append set_lot_def nth_list_update)

lemma draw_lot_ok:
  assumes ok: "db_ok n ow db" and a: "valid_alloc n ow db a" and n: "n \<le> 2 ^ 53"
  shows "db_ok n ow (draw_lot ow asOf src a db)"
    and "al_id a' \<noteq> al_id a \<Longrightarrow> valid_alloc n ow db a' \<Longrightarrow> valid_alloc n ow (draw_lot ow asOf src a db) a'"
proof -
  note e = draw_lot_eq(1)[OF assms, of asOf src] and h = draw_lot_eq(2)[OF assms]
  have v: "0 \<le> lot_val (ledger db ! al_id a) - al_consumed a" "al_id a < length (ledger db)"
    "entry_bucket (ledger db ! al_id a) = owner_bucket ow (al_year a)" using a by (simp_all add: valid_alloc_def)
  have "lots_match ow (draw_lot ow asOf src a db)"
    using ok v(3) unfolding e lots_match_def db_ok_def post_sums set_lot_sums[OF v(2)] by simp
  moreover have "lots_bounded n (draw_lot ow asOf src a db)"
    using ok h v unfolding e db_ok_def
    by (intro post_bounded set_lot_bounded) (auto simp: halves_def)
  moreover have "ledger_ok (draw_lot ow asOf src a db)"
    using ok unfolding e db_ok_def by (intro post_ledger_ok set_lot_ok) simp
  ultimately show "db_ok n ow (draw_lot ow asOf src a db)" by (simp add: db_ok_def)
  show "valid_alloc n ow (draw_lot ow asOf src a db) a'" if "al_id a' \<noteq> al_id a" "valid_alloc n ow db a'"
    using that unfolding e by (simp add: valid_alloc_def nth_draw) (simp add: post_ledger set_lot_def)
qed

lemma draws_ok:
  assumes "db_ok n ow db" "\<forall>a\<in>set as. valid_alloc n ow db a" "distinct (map al_id as)" "n \<le> 2 ^ 53"
  shows "db_ok n ow (fold (draw_lot ow asOf src) as db)"
  using assms
proof (induction as arbitrary: db)
  case (Cons a as)
  have a: "valid_alloc n ow db a" using Cons.prems by simp
  have "\<forall>a'\<in>set as. valid_alloc n ow (draw_lot ow asOf src a db) a'"
    using draw_lot_ok(2)[OF Cons.prems(1) a Cons.prems(4)] Cons.prems(2,3) by (auto simp: image_iff)
  then show ?case using Cons.IH[OF draw_lot_ok(1)[OF Cons.prems(1) a Cons.prems(4)]] Cons.prems by simp
qed simp

lemma draws_nth:
  assumes "db_ok n ow db" "\<forall>a\<in>set as. valid_alloc n ow db a" "distinct (map al_id as)" "n \<le> 2 ^ 53" "i < length (ledger db)"
  shows "ledger (fold (draw_lot ow asOf src) as db) ! i = (case List.find (\<lambda>a. al_id a = i) as of
      None \<Rightarrow> ledger db ! i
    | Some a \<Rightarrow> (ledger db ! i)\<lparr>lotRemaining := Some (lot_val (ledger db ! i) - al_consumed a)\<rparr>)
    \<and> length (ledger (fold (draw_lot ow asOf src) as db)) = length (ledger db) + length as"
  using assms
proof (induction as arbitrary: db)
  case (Cons a as)
  have a: "valid_alloc n ow db a" using Cons.prems by simp
  have v: "\<forall>a'\<in>set as. valid_alloc n ow (draw_lot ow asOf src a db) a'"
    using draw_lot_ok(2)[OF Cons.prems(1) a Cons.prems(4)] Cons.prems(2,3) by (auto simp: image_iff)
  note e = draw_lot_eq(1)[OF Cons.prems(1) a Cons.prems(4), of asOf src]
  have len: "length (ledger (draw_lot ow asOf src a db)) = Suc (length (ledger db))"
    unfolding e by (simp add: post_ledger set_lot_def)
  have nth: "ledger (draw_lot ow asOf src a db) ! i = (if i = al_id a
      then (ledger db ! i)\<lparr>lotRemaining := Some (lot_val (ledger db ! i) - al_consumed a)\<rparr> else ledger db ! i)"
    unfolding e using Cons.prems(5) by (simp add: nth_draw)
  have "List.find (\<lambda>a'. al_id a' = al_id a) as = None"
    using Cons.prems(3) unfolding find_None_mem by (auto simp: image_iff)
  then show ?case
    using Cons.IH[OF draw_lot_ok(1)[OF Cons.prems(1) a Cons.prems(4)] v _ Cons.prems(4)] Cons.prems len
    by (auto simp: nth split: option.splits)
qed simp

lemma live_lot_mem: "e \<in> set (lot_docs ow asOf db) \<longleftrightarrow> e \<in> set (ledger db) \<and> live_lot ow asOf e"
  by (auto simp: lot_docs_def)

lemma ledger_entry_nth: "ledger_ok db \<Longrightarrow> e \<in> set (ledger db) \<Longrightarrow> entry_id e < length (ledger db) \<and> ledger db ! entry_id e = e"
  by (metis in_set_conv_nth ledger_ok_nth)

lemma lot_docs_distinct: "ledger_ok db \<Longrightarrow> distinct (map entry_id (lot_docs ow asOf db))"
proof -
  assume "ledger_ok db"
  then have "distinct (map entry_id (ledger db))" unfolding ledger_ok_def by simp
  then have "distinct (map entry_id (filter (live_lot ow asOf) (ledger db)))" by (rule distinct_map_filter)
  then show ?thesis by (simp add: lot_docs_def distinct_map)
qed

lemma docs_lots_ok: "lots_bounded n db \<Longrightarrow> lots_ok n (map as_lot (lot_docs ow asOf db))"
  by (auto simp: lots_ok_def lots_bounded_def live_lot_mem as_lot_def lot_val_def)

lemma consume_allocations:
  fixes asOf
  assumes ok: "db_ok n ow db" and q: "halves n q" "0 < q" and n: "n \<le> 2 ^ 53"
  defines "as \<equiv> fst (fifo_loop (map as_lot (lot_docs ow asOf db)) q [])"
  shows "\<forall>a\<in>set as. valid_alloc n ow db a" "distinct (map al_id as)"
proof -
  let ?lots = "map as_lot (lot_docs ow asOf db)"
  have lo: "lots_ok n ?lots" using ok docs_lots_ok by (simp add: db_ok_def)
  have pos: "0 < lot_remaining (as_lot e)" if "e \<in> set (lot_docs ow asOf db)" for e
    using that by (auto simp: live_lot_mem live_lot_def as_lot_def split: option.splits)
  then have p: "filter (\<lambda>l. 0 < lot_remaining l) ?lots = ?lots" by (auto simp: filter_id_conv)
  obtain k where k: "k \<le> length ?lots" "map al_id as = map lot_id (take k ?lots)" "map al_year as = map lot_year (take k ?lots)"
      "\<forall>i<k. al_consumed (as ! i) \<le> lot_remaining (?lots ! i)"
    using fifo_loop_order[OF lo, of q] unfolding p as_def by blast
  have len: "length as = k" using arg_cong[OF k(2), of length] k(1) by simp
  have ids: "map lot_id ?lots = map entry_id (lot_docs ow asOf db)" by (simp add: as_lot_def)
  have lok: "ledger_ok db" using ok by (simp add: db_ok_def)
  show "distinct (map al_id as)"
    using lot_docs_distinct[OF lok, of ow asOf] unfolding k(2) take_map[symmetric] ids by (rule distinct_take)
  show "\<forall>a\<in>set as. valid_alloc n ow db a"
  proof
    fix a assume "a \<in> set as"
    then obtain i where i: "i < k" "a = as ! i" using len by (auto simp: in_set_conv_nth)
    define e where "e = lot_docs ow asOf db ! i"
    have il: "i < length (lot_docs ow asOf db)" using i(1) k(1) by simp
    have e: "e \<in> set (ledger db)" "live_lot ow asOf e" using il nth_mem live_lot_mem unfolding e_def by blast+
    have "al_id a = entry_id e" "al_year a = b_year (entry_bucket e)"
      using arg_cong[OF k(2), of "\<lambda>l. l ! i"] arg_cong[OF k(3), of "\<lambda>l. l ! i"] i il len by (simp_all add: e_def as_lot_def)
    moreover have "al_consumed a \<le> lot_val e" using k(4) i il by (auto simp: e_def as_lot_def lot_val_def)
    moreover have "0 < al_consumed a \<and> halves n (al_consumed a)"
      using fifo_loop_sound[OF lo q(1) _ n] q(2) i len unfolding as_def by (metis less_imp_le nth_mem)
    ultimately show "valid_alloc n ow db a"
      using ledger_entry_nth[OF lok e(1)] e(2) by (auto simp: valid_alloc_def live_lot_def owned_by_def split: option.splits)
  qed
qed

definition restorable :: "int \<Rightarrow> ledger_db \<Rightarrow> allocation \<Rightarrow> bool" where
  "restorable n db a \<longleftrightarrow> al_id a < length (ledger db) \<and> 0 < al_consumed a
     \<and> halves n (lot_val (ledger db ! al_id a) + al_consumed a)"

lemma restore_lot_eq:
  assumes "ledger_ok db" "restorable n db a" "n \<le> 2 ^ 53"
  shows "restore_lot ow now src a db = post (lot_posting ow (al_year a) Usage_reversal (al_consumed a) now src)
     (set_lot (al_id a) (lot_val (ledger db ! al_id a) + al_consumed a) db)"
proof -
  have "jadd (lot_val (ledger db ! al_id a)) (al_consumed a) = lot_val (ledger db ! al_id a) + al_consumed a"
    unfolding jadd_def by (rule fl_halves[OF _ assms(3)]) (use assms(2) in \<open>simp add: restorable_def\<close>)
  then show ?thesis using assms(2) inc_lot_set[OF assms(1), of "al_id a" "al_consumed a"]
    by (simp add: restore_lot_def restorable_def)
qed

lemma restores_nth:
  assumes "ledger_ok db" "\<forall>a\<in>set as. restorable n db a" "distinct (map al_id as)" "n \<le> 2 ^ 53" "i < length (ledger db)"
  shows "ledger (fold (restore_lot ow now src) as db) ! i = (case List.find (\<lambda>a. al_id a = i) as of
      None \<Rightarrow> ledger db ! i
    | Some a \<Rightarrow> (ledger db ! i)\<lparr>lotRemaining := Some (lot_val (ledger db ! i) + al_consumed a)\<rparr>)
    \<and> length (ledger (fold (restore_lot ow now src) as db)) = length (ledger db) + length as"
  using assms
proof (induction as arbitrary: db)
  case (Cons a as)
  note e = restore_lot_eq[OF Cons.prems(1) _ Cons.prems(4), of a ow now src]
  have a: "restorable n db a" using Cons.prems by simp
  have ok: "ledger_ok (restore_lot ow now src a db)" unfolding e[OF a] by (intro post_ledger_ok set_lot_ok Cons.prems)
  have len: "length (ledger (restore_lot ow now src a db)) = Suc (length (ledger db))"
    unfolding e[OF a] by (simp add: post_ledger set_lot_def)
  have nth: "ledger (restore_lot ow now src a db) ! j = (if j = al_id a
      then (ledger db ! j)\<lparr>lotRemaining := Some (lot_val (ledger db ! j) + al_consumed a)\<rparr> else ledger db ! j)"
    if "j < length (ledger db)" for j unfolding e[OF a] using that by (simp add: nth_draw)
  have v: "\<forall>a'\<in>set as. restorable n (restore_lot ow now src a db) a'"
    using Cons.prems(2,3) len by (auto simp: restorable_def nth image_iff)
  have "List.find (\<lambda>a'. al_id a' = al_id a) as = None"
    using Cons.prems(3) unfolding find_None_mem by (auto simp: image_iff)
  then show ?case
    using Cons.IH[OF ok v _ Cons.prems(4)] Cons.prems len by (auto simp: nth split: option.splits)
qed simp

lemma draw_net: "net (draw_lot ow asOf src a db) b = net db b - (if owner_bucket ow (al_year a) = b then al_consumed a else 0)"
proof -
  have "map (\<lambda>e. (entry_bucket e, quantity e)) (ledger (inc_lot i x db)) = map (\<lambda>e. (entry_bucket e, quantity e)) (ledger db)" for i x
    by (simp add: inc_lot_def)
  moreover have "net d c = sum_list (map snd (filter (\<lambda>p. fst p = c) (map (\<lambda>e. (entry_bucket e, quantity e)) (ledger d))))" for d c
    by (simp add: net_def entries_of_def filter_map o_def)
  ultimately have "net (inc_lot i x db) b = net db b" for i x by metis
  then show ?thesis by (simp add: draw_lot_def post_sums)
qed

lemma restore_net: "net (restore_lot ow now src a db) b = net db b + (if owner_bucket ow (al_year a) = b \<and> 0 < al_consumed a then al_consumed a else 0)"
proof -
  have "map (\<lambda>e. (entry_bucket e, quantity e)) (ledger (inc_lot i x db)) = map (\<lambda>e. (entry_bucket e, quantity e)) (ledger db)" for i x
    by (simp add: inc_lot_def)
  moreover have "net d c = sum_list (map snd (filter (\<lambda>p. fst p = c) (map (\<lambda>e. (entry_bucket e, quantity e)) (ledger d))))" for d c
    by (simp add: net_def entries_of_def filter_map o_def)
  ultimately have "net (inc_lot i x db) b = net db b" for i x by metis
  then show ?thesis by (simp add: restore_lot_def post_sums)
qed

lemma round_trip_net:
  "\<forall>a\<in>set as. 0 < al_consumed a \<Longrightarrow>
     net (fold (restore_lot ow now src') as (fold (draw_lot ow asOf src) as db)) b = net db b"
proof -
  have d: "net (fold (draw_lot ow asOf src) as db) b = net db b - sum_list (map al_consumed (filter (\<lambda>a. owner_bucket ow (al_year a) = b) as))"
    for as db by (induction as arbitrary: db) (simp_all add: draw_net)
  have "net (fold (restore_lot ow now src') as db) b = net db b + sum_list (map al_consumed (filter (\<lambda>a. owner_bucket ow (al_year a) = b) as))"
    if "\<forall>a\<in>set as. 0 < al_consumed a" for as db
    using that by (induction as arbitrary: db) (simp_all add: restore_net)
  then show "\<forall>a\<in>set as. 0 < al_consumed a \<Longrightarrow> ?thesis" by (simp add: d)
qed

lemma expire_lot_ok:
  assumes ok: "db_ok n ow db" and e: "i < length (ledger db)" "ledger db ! i = lot" and n: "0 \<le> n"
  shows "db_ok n ow (expire_lot asOf lot db)"
    and "j \<noteq> i \<Longrightarrow> j < length (ledger db) \<Longrightarrow> ledger (expire_lot asOf lot db) ! j = ledger db ! j \<and> j < length (ledger (expire_lot asOf lot db))"
proof -
  define inp where "inp = \<lparr>in_bucket = entry_bucket lot, in_type = Comp_off_expiry,
      in_quantity = - lot_val lot, in_effectiveDate = coalesce (lotExpiresOn lot) asOf,
      in_source = Source_cron, in_lotExpiresOn = None, in_lotRemaining = None\<rparr>"
  have id: "entry_id lot = i" using ledger_ok_nth[of db i] ok e by (simp add: db_ok_def)
  have lok: "ledger_ok (post inp db)" using ok by (simp add: db_ok_def post_ledger_ok)
  have il: "i < length (ledger (post inp db))" "ledger (post inp db) ! i = lot" using e by (simp_all add: post_ledger nth_append)
  have x: "expire_lot asOf lot db = (if lot_val lot \<le> 0 then db else set_lot i 0 (post inp db))"
    using clear_lot_set[OF lok il(1)] by (simp add: expire_lot_def Let_def inp_def id flip: lot_val_def)
  have "lots_match ow (set_lot i 0 (post inp db))"
    using ok il unfolding lots_match_def set_lot_sums[OF il(1)] post_sums by (auto simp: db_ok_def lots_match_def inp_def)
  moreover have "lots_bounded n (set_lot i 0 (post inp db))"
    using ok n by (intro set_lot_bounded post_bounded) (auto simp: db_ok_def inp_def)
  ultimately show "db_ok n ow (expire_lot asOf lot db)"
    using ok set_lot_ok[OF lok] unfolding x by (simp add: db_ok_def)
  show "ledger (expire_lot asOf lot db) ! j = ledger db ! j \<and> j < length (ledger (expire_lot asOf lot db))"
    if "j \<noteq> i" "j < length (ledger db)"
    using that unfolding x by (simp add: set_lot_def post_ledger nth_append)
qed

lemma expire_fold_ok:
  assumes "db_ok n ow db" "0 \<le> n" "distinct (map entry_id lots)"
    and "\<forall>l\<in>set lots. entry_id l < length (ledger db) \<and> ledger db ! entry_id l = l"
  shows "db_ok n ow (fold (expire_lot asOf) lots db)"
  using assms
proof (induction lots arbitrary: db)
  case (Cons l ls)
  have l: "entry_id l < length (ledger db)" "ledger db ! entry_id l = l" using Cons.prems(4) by simp_all
  have "\<forall>k\<in>set ls. entry_id k < length (ledger (expire_lot asOf l db)) \<and> ledger (expire_lot asOf l db) ! entry_id k = k"
    using expire_lot_ok(2)[OF Cons.prems(1) l Cons.prems(2)] Cons.prems(3,4) by (auto simp: image_iff)
  then show ?case using Cons.IH[OF expire_lot_ok(1)[OF Cons.prems(1) l Cons.prems(2)]] Cons.prems by simp
qed simp

section \<open>Properties\<close>

text \<open>
  FIFO allocation is exact and in order: consumed days and shortfall add up to the
  request, lots are drawn in the given order without gaps, every drawn lot but the last is
  drained completely, no lot is overdrawn, and a shortfall is left only when the lots are
  exhausted, being exactly what they lack.
\<close>

theorem allocateFifo_sound:
  assumes "lots_ok n lots" "halves n q" "0 \<le> q" "n \<le> 2 ^ 53"
  defines "as \<equiv> fst (allocateFifo lots q)" and "p \<equiv> filter (\<lambda>l. 0 < lot_remaining l) lots"
  shows "sum_list (map al_consumed as) + snd (allocateFifo lots q) = q \<and> 0 \<le> snd (allocateFifo lots q)
    \<and> map al_id as = map lot_id (take (length as) p)
    \<and> map al_consumed (butlast as) = map lot_remaining (take (length as - 1) p)
    \<and> list_all2 (\<lambda>a l. 0 < al_consumed a \<and> al_consumed a \<le> lot_remaining l) as (take (length as) p)
    \<and> (0 < snd (allocateFifo lots q) \<longrightarrow> snd (allocateFifo lots q) = q - sum_list (map lot_remaining lots))"
proof -
  note s = fifo_loop_sound[OF assms(1-4)]
  have eq: "as = fst (fifo_loop lots q [])" "snd (allocateFifo lots q) = snd (fifo_loop lots q [])"
    using s by (auto simp: as_def allocateFifo_def split: prod.splits)
  obtain k where k: "k \<le> length p" "map al_id as = map lot_id (take k p)"
      "map al_consumed (butlast as) = map lot_remaining (take (k - 1) p)"
      "\<forall>i<k. al_consumed (as ! i) \<le> lot_remaining (p ! i)"
    using fifo_loop_order[OF assms(1), of q] unfolding p_def eq(1) by blast
  have len: "length as = k" using arg_cong[OF k(2), of length] k(1) by simp
  have "list_all2 (\<lambda>a l. 0 < al_consumed a \<and> al_consumed a \<le> lot_remaining l) as (take k p)"
    using k(1,4) len s unfolding eq(1)[symmetric] by (auto simp: list_all2_conv_all_nth)
  with s k len show ?thesis unfolding eq by auto
qed

theorem allocateFifo_sound_witness:
  "snd (allocateFifo [\<lparr>lot_id = 1, lot_year = 2025, lot_remaining = 1\<rparr>, \<lparr>lot_id = 2, lot_year = 2026, lot_remaining = 1/2\<rparr>] 2) = 2 - 3/2"
proof -
  let ?l = "[\<lparr>lot_id = 1, lot_year = 2025, lot_remaining = 1\<rparr>, \<lparr>lot_id = 2, lot_year = 2026, lot_remaining = 1/2\<rparr>]"
  have "lots_ok 8 ?l" "halves 8 2" by (simp_all add: lots_ok_def halves_def)
  moreover have "0 < snd (allocateFifo ?l 2)" by (simp add: allocateFifo_def jsub_def Let_def)
  ultimately show ?thesis using allocateFifo_sound[of 8 ?l 2] by simp
qed

definition sample_owner :: comp_off_owner where
  "sample_owner = \<lparr>co_workspaceId = ''w'', co_teamMemberId = ''m'', co_leaveTypeId = ''COMP''\<rparr>"

definition sample_lot_db :: ledger_db where
  \<comment> \<open>one day earned on 1970-01-01, valid for 90 days\<close>
  "sample_lot_db = post \<lparr>in_bucket = owner_bucket sample_owner 1970, in_type = Comp_off_credit, in_quantity = 1,
     in_effectiveDate = 0, in_source = Source_manual, in_lotExpiresOn = Some (90 * ms_per_day), in_lotRemaining = Some 1\<rparr>
     empty_ledger_db"

lemma sample_lot_db_ok: "db_ok 2 sample_owner sample_lot_db"
proof -
  have "lots_match sample_owner sample_lot_db"
    by (simp add: lots_match_def sample_lot_db_def post_sums) (simp add: net_def lot_sum_def empty_ledger_db_def entries_of_def)
  moreover have "lots_bounded 2 sample_lot_db"
    by (simp add: lots_bounded_def sample_lot_db_def post_ledger empty_ledger_db_def lot_val_def halves_def)
  moreover have "ledger_ok sample_lot_db" by (simp add: sample_lot_db_def post_ledger_ok)
  ultimately show ?thesis by (simp add: db_ok_def)
qed

lemma sample_consume:
  "\<exists>db1. consumeCompOffFifo sample_owner 1 0 (Source_leave_request 0) sample_lot_db
     = Inr ([\<lparr>al_id = 0, al_year = 1970, al_consumed = 1\<rparr>], db1)"
  by (simp add: consumeCompOffFifo_def allocateFifo_def lot_docs_def sample_lot_db_def post_ledger empty_ledger_db_def
      live_lot_def owned_by_def as_lot_def Let_def jsub_def ms_per_day_def owner_bucket_def)

text \<open>
  Withdrawing a comp-off leave undoes it: restoring the recorded consumption brings
  every earlier ledger entry, each lot's remaining days included, back to what it was, and
  the signed quantities posted on the way cancel out in every bucket.
\<close>

theorem comp_off_round_trip:
  assumes "db_ok n ow db" "halves n q" "n \<le> 2 ^ 53"
    and "consumeCompOffFifo ow q asOf src db = Inr (as, db1)"
  shows "take (length (ledger db)) (ledger (reverseConsumption ow as now src' db1)) = ledger db
    \<and> net (reverseConsumption ow as now src' db1) b = net db b
    \<and> sum_list (map al_consumed as) = q"
proof -
  let ?lots = "map as_lot (lot_docs ow asOf db)"
  have lo: "lots_ok n ?lots" using assms(1) docs_lots_ok by (simp add: db_ok_def)
  have q: "0 < q" using assms(4) by (simp add: consumeCompOffFifo_def split: if_splits)
  note snd0 = fifo_loop_sound[OF lo assms(2) less_imp_le[OF q] assms(3)]
  have as: "as = fst (fifo_loop ?lots q [])" "snd (fifo_loop ?lots q []) = 0" "db1 = fold (draw_lot ow asOf src) as db"
    using assms(4) q snd0 by (auto simp: consumeCompOffFifo_def allocateFifo_def Let_def split: prod.splits if_splits)
  note va = consume_allocations[OF assms(1,2) q assms(3), of asOf, folded as(1)]
  have ok1: "ledger_ok db1" using draws_ok[OF assms(1) va assms(3), of asOf src] as(3) by (simp add: db_ok_def)
  have d: "ledger db1 ! i = (case List.find (\<lambda>a. al_id a = i) as of None \<Rightarrow> ledger db ! i
    | Some a \<Rightarrow> (ledger db ! i)\<lparr>lotRemaining := Some (lot_val (ledger db ! i) - al_consumed a)\<rparr>)
    \<and> length (ledger db1) = length (ledger db) + length as" if "i < length (ledger db)" for i
    unfolding as(3) by (rule draws_nth[OF assms(1) va assms(3) that])
  have len1: "length (ledger db) \<le> length (ledger db1)"
    by (cases "ledger db") (use d[of 0] in auto)
  have find: "List.find (\<lambda>x. al_id x = al_id a) as = Some a" if "a \<in> set as" for a
    using va(2) that by (induction as) (auto simp: image_iff)
  have bnd: "halves n (lot_val (ledger db ! i))" if "i < length (ledger db)" for i
    using assms(1) that by (simp add: db_ok_def lots_bounded_def)
  have r: "\<forall>a\<in>set as. restorable n db1 a"
  proof
    fix a assume a: "a \<in> set as"
    then have v: "valid_alloc n ow db a" using va(1) by blast
    then have "lot_val (ledger db1 ! al_id a) = lot_val (ledger db ! al_id a) - al_consumed a"
      using d[of "al_id a"] find[OF a] by (simp add: valid_alloc_def lot_val_def)
    then show "restorable n db1 a" using v bnd len1 by (auto simp: restorable_def valid_alloc_def)
  qed
  let ?db2 = "reverseConsumption ow as now src' db1"
  have u: "ledger ?db2 ! i = (case List.find (\<lambda>a. al_id a = i) as of None \<Rightarrow> ledger db1 ! i
    | Some a \<Rightarrow> (ledger db1 ! i)\<lparr>lotRemaining := Some (lot_val (ledger db1 ! i) + al_consumed a)\<rparr>)
    \<and> length (ledger ?db2) = length (ledger db1) + length as" if "i < length (ledger db1)" for i
    unfolding reverseConsumption_def by (rule restores_nth[OF ok1 r va(2) assms(3) that])
  have undone: "ledger ?db2 ! i = ledger db ! i" if i: "i < length (ledger db)" for i
  proof (cases "List.find (\<lambda>a. al_id a = i) as")
    case None
    then show ?thesis using u[of i] d[OF i] i len1 by simp
  next
    case (Some a)
    then have "a \<in> set as" "al_id a = i" using find_Some_mem[OF Some] by simp_all
    then have "lotRemaining (ledger db ! i) = Some (lot_val (ledger db ! i))"
      using va(1) by (auto simp: valid_alloc_def lot_val_def)
    then show ?thesis using u[of i] d[OF i] i len1 Some by (simp add: lot_val_def)
  qed
  have "length (ledger db) \<le> length (ledger ?db2)"
    using len1 u[of 0] by (cases "ledger db1") auto
  then have "take (length (ledger db)) (ledger ?db2) = ledger db"
    by (intro nth_equalityI) (auto simp: undone)
  moreover have "\<forall>a\<in>set as. 0 < al_consumed a" using va(1) by (auto simp: valid_alloc_def)
  from round_trip_net[OF this] have "net ?db2 b = net db b" by (simp add: reverseConsumption_def as(3))
  moreover have "sum_list (map al_consumed as) = q" using snd0 as by simp
  ultimately show ?thesis by blast
qed

theorem comp_off_round_trip_witness:
  "\<exists>db1. consumeCompOffFifo sample_owner 1 0 (Source_leave_request 0) sample_lot_db
       = Inr ([\<lparr>al_id = 0, al_year = 1970, al_consumed = 1\<rparr>], db1)
     \<and> take 1 (ledger (reverseConsumption sample_owner [\<lparr>al_id = 0, al_year = 1970, al_consumed = 1\<rparr>] 0 Source_manual db1))
       = ledger sample_lot_db"
proof -
  obtain db1 where c: "consumeCompOffFifo sample_owner 1 0 (Source_leave_request 0) sample_lot_db
     = Inr ([\<lparr>al_id = 0, al_year = 1970, al_consumed = 1\<rparr>], db1)" using sample_consume by blast
  have l: "length (ledger sample_lot_db) = 1" by (simp add: sample_lot_db_def post_ledger empty_ledger_db_def)
  have "halves 2 1" by (simp add: halves_def)
  from comp_off_round_trip[OF sample_lot_db_ok this _ c] c l show ?thesis by auto
qed

text \<open>
  The comp-off books balance: if in every bucket of a member's comp-off type the signed
  quantities add up to the days left in its lots, crediting, consuming and expiring lots keep
  it so, and no lot goes negative.
\<close>

theorem comp_off_books_balance:
  assumes "db_ok n ow db" "halves n q" "n \<le> 2 ^ 53" "0 \<le> n"
  shows "(\<forall>db'. creditCompOff ow d q v src db = Inr db' \<longrightarrow> db_ok n ow db')
    \<and> (\<forall>as db'. consumeCompOffFifo ow q asOf src db = Inr (as, db') \<longrightarrow> db_ok n ow db')
    \<and> db_ok n ow (snd (expireCompOffLots asOf db))"
proof (intro conjI allI impI)
  fix db' assume c: "creditCompOff ow d q v src db = Inr db'"
  then have q: "0 < q" by (simp add: creditCompOff_def split: if_splits)
  have "lots_match ow db'"
    using assms(1) c q by (auto simp: creditCompOff_def db_ok_def lots_match_def post_sums)
  moreover have "lots_bounded n db'"
    using assms(1,2) c q by (auto simp: creditCompOff_def db_ok_def intro!: post_bounded)
  moreover have "ledger_ok db'" using assms(1) c q by (auto simp: creditCompOff_def db_ok_def post_ledger_ok)
  ultimately show "db_ok n ow db'" by (simp add: db_ok_def)
next
  fix as db' assume c: "consumeCompOffFifo ow q asOf src db = Inr (as, db')"
  then have q: "0 < q" by (simp add: consumeCompOffFifo_def split: if_splits)
  have "as = fst (fifo_loop (map as_lot (lot_docs ow asOf db)) q [])" "db' = fold (draw_lot ow asOf src) as db"
    using c q by (auto simp: consumeCompOffFifo_def allocateFifo_def Let_def split: prod.splits if_splits)
  then show "db_ok n ow db'"
    using draws_ok[OF assms(1) consume_allocations[OF assms(1,2) q assms(3)] assms(3)] by simp
next
  have lok: "ledger_ok db" using assms(1) by (simp add: db_ok_def)
  have "distinct (map entry_id (ledger db))" using lok by (simp add: ledger_ok_def)
  then have "distinct (map entry_id (expired_lots asOf db))"
    unfolding expired_lots_def take_map[symmetric] by (intro distinct_take distinct_map_filter)
  moreover have "\<forall>l\<in>set (expired_lots asOf db). entry_id l < length (ledger db) \<and> ledger db ! entry_id l = l"
    using ledger_entry_nth[OF lok] by (auto simp: expired_lots_def dest!: in_set_takeD)
  ultimately show "db_ok n ow (snd (expireCompOffLots asOf db))"
    unfolding expireCompOffLots_def Let_def snd_conv using assms(1,4) by (rule expire_fold_ok[rotated 2])
qed

theorem comp_off_books_balance_witness:
  "net (snd (expireCompOffLots (100 * ms_per_day) sample_lot_db)) (owner_bucket sample_owner 1970)
     = lot_sum (snd (expireCompOffLots (100 * ms_per_day) sample_lot_db)) (owner_bucket sample_owner 1970)"
proof -
  have "halves 2 1" by (simp add: halves_def)
  then show ?thesis
    using comp_off_books_balance[OF sample_lot_db_ok, where q = 1 and asOf = "100 * ms_per_day"]
    by (simp add: db_ok_def lots_match_def)
qed

end
