(* ===== verification/LeaveRequests.thy ===== *)
theory LeaveRequests
  imports LeaveAccrual LeaveCompOff
begin

text \<open>
  The leave request lifecycle: \<open>src/src/modules/leave/leave-request.service.ts\<close> and the
  delegation lookup of \<open>leave-delegation.service.ts\<close>. Every handler is a function from the
  state of the collections to its outcome (the exception or the returned request) and the
  state it leaves; an exception does not undo what was written before it. Dates arrive as
  the result of \<open>parseUtcDate\<close>, \<open>None\<close> for an invalid date. Audit and telemetry calls and
  the recomputation of the attendance projection leave no state of this model and are left
  out; attendance events are rows with a voided flag.
\<close>

section \<open>State\<close>

datatype request_status = Pending | Approved_req | Rejected_req | Cancelled | Withdrawn

record leave_request =
  rq_id :: nat
  rq_workspaceId :: string
  rq_teamMemberId :: string
  rq_appliedBy :: string
  rq_primaryLeaveTypeId :: string
  rq_fromDate :: date
  rq_toDate :: date
  rq_firstDayHalf :: half_day_session
  rq_lastDayHalf :: half_day_session
  rq_dayBreakdown :: "leave_day_segment list"
  rq_totalDays :: rat
  rq_paidDays :: rat
  rq_lwpDays :: rat
  rq_status :: request_status
  rq_approvalChain :: "approval_step list"
  rq_currentLevel :: nat
  rq_finalDecisionAt :: "date option"
  rq_isRetroactive :: bool
  rq_salaryInvalidated :: bool
  rq_ledgerEntryIds :: "nat list"
  rq_compOffConsumption :: "allocation list"
  rq_attendanceEventIds :: "nat list"

record member_row =
  mb_id :: string
  mb_workspaceId :: string
  mb_isDeleted :: bool
  mb_isActive :: bool
  mb_weeklyOff :: "string list option"
  mb_gender :: "string option"
  mb_linkedUserId :: "string option"
  mb_reportsTo :: "string option"

record salary_row =
  sal_workspaceId :: string
  sal_teamMemberId :: string
  sal_month :: int
  sal_year :: int
  sal_isLocked :: bool

record delegation_row =
  dg_workspaceId :: string
  dg_fromUserId :: string
  dg_toUserId :: string
  dg_startsOn :: date
  dg_endsOn :: date
  dg_isActive :: bool

record workspace_row =
  ws_id :: string
  ws_ownerId :: "string option"
  ws_selfLeaveApply :: bool

record leave_settings =
  st_approverUserIds :: "string list"
  st_sandwichLeave :: bool
  st_maxAttachmentsPerRequest :: nat

record leave_event =
  ev_workspaceId :: string
  ev_teamMemberId :: string
  ev_attendanceDate :: date
  ev_statusValue :: string
  ev_leaveRequestId :: nat
  ev_voided :: bool

record leave_state =
  s_ledger :: ledger_db
  s_requests :: "leave_request list"
  s_events :: "leave_event list"
  s_types :: "leave_type list"
  s_members :: "member_row list"
  s_salaries :: "salary_row list"
  s_holidays :: "(string \<times> date) list"
  s_workspaces :: "workspace_row list"
  s_settings :: "string \<Rightarrow> leave_settings"
  s_delegations :: "delegation_row list"

datatype leave_error =
    Invalid_dates | From_after_to | Crosses_year | Type_not_found | Member_not_found
  | Self_leave_disabled | Gender_not_applicable | Payroll_locked int int | Overlapping request_status
  | Too_many_attachments | No_working_days | Over_max_per_request | Missing_lwp_type
  | Request_not_found | Not_pending request_status | Not_current_approver | Comp_off_insufficient
  | Decided_concurrently | Not_applicant | Already_actioned | Not_approved request_status
  | Comp_off_failed comp_off_error

section \<open>Shared helpers\<close>

definition loadPrimaryClass :: "leave_state \<Rightarrow> leave_request \<Rightarrow> (leave_type \<times> leave_type_class) option" where
  "loadPrimaryClass s r = map_option (\<lambda>lt. (lt, classifyLeaveType (code lt)
       (if mode (accrualRule lt) = No_accrual then ''none'' else ''accruing'') (isCompOff lt)))
     (List.find (\<lambda>lt. lt_id lt = rq_primaryLeaveTypeId r) (s_types s))"

definition requestBucket :: "leave_request \<Rightarrow> bucket" where
  "requestBucket r = \<lparr>b_workspaceId = rq_workspaceId r, b_teamMemberId = rq_teamMemberId r,
     b_leaveTypeId = rq_primaryLeaveTypeId r, b_year = getUTCFullYear (rq_fromDate r)\<rparr>"

definition salary_in :: "leave_state \<Rightarrow> string \<Rightarrow> string \<Rightarrow> bool \<Rightarrow> int \<times> int \<Rightarrow> bool" where
  \<comment> \<open>a salary row of the month with this lock flag exists\<close>
  "salary_in s ws m locked my = list_ex (\<lambda>x. sal_workspaceId x = ws \<and> sal_teamMemberId x = m
     \<and> sal_month x = fst my \<and> sal_year x = snd my \<and> sal_isLocked x = locked) (s_salaries s)"

definition assertPayrollNotLocked :: "leave_state \<Rightarrow> string \<Rightarrow> string \<Rightarrow> date \<Rightarrow> date \<Rightarrow> leave_error option" where
  "assertPayrollNotLocked s ws m fromD toD =
     map_option (\<lambda>my. Payroll_locked (snd my) (fst my)) (List.find (salary_in s ws m True) (affectedMonths fromD toD))"

definition hasUnlockedSalary :: "leave_state \<Rightarrow> string \<Rightarrow> string \<Rightarrow> date \<Rightarrow> date \<Rightarrow> bool" where
  "hasUnlockedSalary s ws m fromD toD = list_ex (salary_in s ws m False) (affectedMonths fromD toD)"

definition request_owner :: "leave_request \<Rightarrow> comp_off_owner" where
  "request_owner r = \<lparr>co_workspaceId = rq_workspaceId r, co_teamMemberId = rq_teamMemberId r,
     co_leaveTypeId = rq_primaryLeaveTypeId r\<rparr>"

definition assertConsumable :: "leave_state \<Rightarrow> leave_request \<Rightarrow> date \<Rightarrow> leave_error option" where
  "assertConsumable s r now =
     (if rq_paidDays r \<le> 0 then None
      else case loadPrimaryClass s r of
        None \<Rightarrow> Some Type_not_found
      | Some (lt, cls) \<Rightarrow>
          if \<not> cls_isCompOff cls then None
          else if availableForConsumption (request_owner r) now (s_ledger s) < rq_paidDays r
               then Some Comp_off_insufficient else None)"

definition adjust_pending :: "bucket \<Rightarrow> rat \<Rightarrow> leave_state \<Rightarrow> leave_state" where
  "adjust_pending b delta s = s\<lparr>s_ledger := adjustPending b delta (s_ledger s)\<rparr>"

definition releasePending :: "leave_request \<Rightarrow> leave_state \<Rightarrow> leave_error option \<times> leave_state" where
  "releasePending r s =
     (if rq_paidDays r \<le> 0 then (None, s)
      else case loadPrimaryClass s r of
        None \<Rightarrow> (Some Type_not_found, s)
      | Some (lt, cls) \<Rightarrow> if \<not> cls_balanceTracked cls then (None, s)
          else (None, adjust_pending (requestBucket r) (- rq_paidDays r) s))"

definition startOfUtcDay :: "date \<Rightarrow> date" where
  "startOfUtcDay d = date_UTC (getUTCFullYear d) (getUTCMonth d) (getUTCDate d)"

definition canActAsApprover :: "leave_state \<Rightarrow> string \<Rightarrow> string \<Rightarrow> string \<Rightarrow> date \<Rightarrow> bool" where
  "canActAsApprover s ws approver caller asOf =
     (if approver = caller then True
      else list_ex (\<lambda>d. dg_workspaceId d = ws \<and> dg_fromUserId d = approver \<and> dg_toUserId d = caller
             \<and> dg_isActive d \<and> dg_startsOn d \<le> startOfUtcDay asOf \<and> dg_endsOn d \<ge> startOfUtcDay asOf) (s_delegations s))"

definition find_request :: "leave_state \<Rightarrow> string \<Rightarrow> nat \<Rightarrow> leave_request option" where
  "find_request s ws i = List.find (\<lambda>r. rq_id r = i \<and> rq_workspaceId r = ws) (s_requests s)"

definition save_request :: "nat \<Rightarrow> (leave_request \<Rightarrow> leave_request) \<Rightarrow> leave_state \<Rightarrow> leave_state" where
  \<comment> \<open>\<open>$set\<close> on the row with this id\<close>
  "save_request i f s = s\<lparr>s_requests := map (\<lambda>r. if rq_id r = i then f r else r) (s_requests s)\<rparr>"

section \<open>Finalisation and reversal\<close>

definition leave_usage :: "leave_request \<Rightarrow> append_input" where
  "leave_usage r = \<lparr>in_bucket = requestBucket r, in_type = Usage, in_quantity = - rq_paidDays r,
     in_effectiveDate = rq_fromDate r, in_source = Source_leave_request (rq_id r),
     in_lotExpiresOn = None, in_lotRemaining = None\<rparr>"

definition segment_event :: "leave_request \<Rightarrow> leave_day_segment \<Rightarrow> leave_event" where
  "segment_event r seg = \<lparr>ev_workspaceId = rq_workspaceId r, ev_teamMemberId = rq_teamMemberId r,
     ev_attendanceDate = seg_date seg, ev_statusValue = leaveDayStatusValue (seg_quantity seg),
     ev_leaveRequestId = rq_id r, ev_voided = False\<rparr>"

definition draw_balance ::
  "leave_request \<Rightarrow> leave_type_class \<Rightarrow> date \<Rightarrow> leave_state \<Rightarrow> (leave_error + leave_request) \<times> leave_state" where
  \<comment> \<open>the ledger part of \<open>finalizeApprovedRequest\<close>: usage or lot draw, then the release\<close>
  "draw_balance r cls now s =
     (if cls_balanceTracked cls \<and> rq_paidDays r > 0 then
        (if cls_isCompOff cls then
           (case consumeCompOffFifo (request_owner r) (rq_paidDays r) now (Source_leave_request (rq_id r)) (s_ledger s) of
              Inl e \<Rightarrow> (Inl (Comp_off_failed e), s)
            | Inr (allocs, db) \<Rightarrow> (Inr (r\<lparr>rq_compOffConsumption := allocs\<rparr>),
                adjust_pending (requestBucket r) (- rq_paidDays r) (s\<lparr>s_ledger := db\<rparr>)))
         else (Inr (r\<lparr>rq_ledgerEntryIds := [length (ledger (s_ledger s))]\<rparr>),
                adjust_pending (requestBucket r) (- rq_paidDays r) (s\<lparr>s_ledger := post (leave_usage r) (s_ledger s)\<rparr>)))
      else (Inr r, s))"

definition finalizeApprovedRequest ::
  "leave_request \<Rightarrow> date \<Rightarrow> leave_state \<Rightarrow> (leave_error + leave_request) \<times> leave_state" where
  "finalizeApprovedRequest r now s =
     (case loadPrimaryClass s r of
        None \<Rightarrow> (Inl Type_not_found, s)
      | Some (lt, cls) \<Rightarrow>
          (case draw_balance r cls now s of
             (Inl e, s1) \<Rightarrow> (Inl e, s1)
           | (Inr r1, s1) \<Rightarrow>
               (let n = length (s_events s1);
                    s2 = s1\<lparr>s_events := s_events s1 @ map (segment_event r) (rq_dayBreakdown r)\<rparr>;
                    r2 = r1\<lparr>rq_attendanceEventIds := [n..<n + length (rq_dayBreakdown r)],
                            rq_salaryInvalidated := hasUnlockedSalary s2 (rq_workspaceId r) (rq_teamMemberId r)
                              (rq_fromDate r) (rq_toDate r)\<rparr>
                in (Inr r2, save_request (rq_id r) (\<lambda>_. r2) s2))))"

definition void_events :: "nat list \<Rightarrow> string \<Rightarrow> leave_state \<Rightarrow> leave_state" where
  \<comment> \<open>an event that is missing, of another workspace or voided already only logs a warning\<close>
  "void_events ids ws s = s\<lparr>s_events := map (\<lambda>(i, e). if i \<in> set ids \<and> ev_workspaceId e = ws then e\<lparr>ev_voided := True\<rparr> else e)
     (enumerate 0 (s_events s))\<rparr>"

definition reverseApprovedRequest :: "leave_request \<Rightarrow> date \<Rightarrow> leave_state \<Rightarrow> leave_error option \<times> leave_state" where
  "reverseApprovedRequest r now s =
     (case loadPrimaryClass s r of
        None \<Rightarrow> (Some Type_not_found, s)
      | Some (lt, cls) \<Rightarrow>
          (let s1 = (if cls_balanceTracked cls \<and> rq_paidDays r > 0 then
                 (if cls_isCompOff cls
                  then s\<lparr>s_ledger := reverseConsumption (request_owner r) (rq_compOffConsumption r) now
                         (Source_leave_request (rq_id r)) (s_ledger s)\<rparr>
                  else s\<lparr>s_ledger := post \<lparr>in_bucket = requestBucket r, in_type = Usage_reversal,
                         in_quantity = rq_paidDays r, in_effectiveDate = now,
                         in_source = Source_leave_request (rq_id r), in_lotExpiresOn = None, in_lotRemaining = None\<rparr> (s_ledger s)\<rparr>)
               else s)
           in (None, void_events (rq_attendanceEventIds r) (rq_workspaceId r) s1)))"

section \<open>Applying\<close>

record apply_input =
  ap_workspaceId :: string
  ap_teamMemberId :: string
  ap_appliedBy :: string
  ap_primaryLeaveTypeId :: string
  ap_fromDate :: "date option"
  ap_toDate :: "date option"
  ap_firstDayHalf :: half_day_session
  ap_lastDayHalf :: half_day_session
  ap_attachments :: nat
  ap_selfScoped :: bool

record charge =
  ch_segments :: "leave_day_segment list"
  ch_paidDays :: rat
  ch_lwpDays :: rat
  ch_reservePaid :: bool

definition decompose_request ::
  "leave_state \<Rightarrow> string \<Rightarrow> string \<Rightarrow> leave_type \<Rightarrow> int \<Rightarrow> working_day list \<Rightarrow> leave_error + charge" where
  \<comment> \<open>the branch on the class of the primary type, shared by apply and preview\<close>
  "decompose_request s ws m lt year days =
     (let lwp = map_option lt_id (List.find (\<lambda>t. lt_workspaceId t = ws \<and> code t = ''LWP'') (s_types s));
          isLwpPrimary = (lwp = Some (lt_id lt));
          isEntitlement = (mode (accrualRule lt) = No_accrual \<and> \<not> isCompOff lt);
          total = sum_list (map wd_quantity days)
      in if isLwpPrimary \<or> isEntitlement
         then Inr \<lparr>ch_segments = chargeAllToType days (lt_id lt), ch_paidDays = (if isLwpPrimary then 0 else total),
                ch_lwpDays = (if isLwpPrimary then total else 0), ch_reservePaid = False\<rparr>
         else case lwp of
           None \<Rightarrow> Inl Missing_lwp_type
         | Some lwpId \<Rightarrow>
             let b = \<lparr>b_workspaceId = ws, b_teamMemberId = m, b_leaveTypeId = lt_id lt, b_year = year\<rparr>;
                 d = decomposePaidLwp days (max 0 (available_of (s_ledger s) b)) (lt_id lt) lwpId
             in Inr \<lparr>ch_segments = segments d, ch_paidDays = paidDays d, ch_lwpDays = lwpDays d,
                  ch_reservePaid = (paidDays d > 0)\<rparr>)"

definition working_days_of :: "leave_state \<Rightarrow> string \<Rightarrow> member_row \<Rightarrow> date \<Rightarrow> date \<Rightarrow> half_day_session \<Rightarrow> half_day_session \<Rightarrow> working_day list" where
  "working_days_of s ws mb fromD toD fh lh =
     expandWorkingDays fromD toD fh lh
       (set (map (\<lambda>h. dayKey (snd h)) (filter (\<lambda>h. fst h = ws \<and> fromD \<le> snd h \<and> snd h \<le> toD) (s_holidays s))))
       (parseWeeklyOff (mb_weeklyOff mb)) (st_sandwichLeave (s_settings s ws))"

definition find_type :: "leave_state \<Rightarrow> string \<Rightarrow> string \<Rightarrow> leave_type option" where
  "find_type s ws t = List.find (\<lambda>lt. lt_id lt = t \<and> lt_workspaceId lt = ws \<and> isActive lt) (s_types s)"

definition find_member :: "leave_state \<Rightarrow> string \<Rightarrow> string \<Rightarrow> member_row option" where
  "find_member s ws m = List.find (\<lambda>mb. mb_id mb = m \<and> mb_workspaceId mb = ws \<and> \<not> mb_isDeleted mb) (s_members s)"

definition find_workspace :: "leave_state \<Rightarrow> string \<Rightarrow> workspace_row option" where
  "find_workspace s ws = List.find (\<lambda>w. ws_id w = ws) (s_workspaces s)"

definition overlapping_own :: "leave_state \<Rightarrow> string \<Rightarrow> string \<Rightarrow> date \<Rightarrow> date \<Rightarrow> leave_request option" where
  "overlapping_own s ws m fromD toD = List.find (\<lambda>r. rq_workspaceId r = ws \<and> rq_teamMemberId r = m
     \<and> rq_status r \<in> {Pending, Approved_req} \<and> rq_fromDate r \<le> toD \<and> rq_toDate r \<ge> fromD) (s_requests s)"

record accepted =
  ac_type :: leave_type
  ac_member :: member_row
  ac_from :: date
  ac_to :: date
  ac_days :: "working_day list"
  ac_charge :: charge

definition validate_apply :: "leave_state \<Rightarrow> apply_input \<Rightarrow> leave_error + accepted" where
  \<comment> \<open>\<open>applyForLeaveImpl\<close> up to the decomposition; nothing is written yet\<close>
  "validate_apply s inp = (case (ap_fromDate inp, ap_toDate inp) of
     (Some fromD, Some toD) \<Rightarrow>
       if fromD > toD then Inl From_after_to
       else if getUTCFullYear fromD \<noteq> getUTCFullYear toD then Inl Crosses_year
       else (case find_type s (ap_workspaceId inp) (ap_primaryLeaveTypeId inp) of
         None \<Rightarrow> Inl Type_not_found
       | Some lt \<Rightarrow>
         (case find_member s (ap_workspaceId inp) (ap_teamMemberId inp) of
           None \<Rightarrow> Inl Member_not_found
         | Some mb \<Rightarrow>
           if ap_selfScoped inp \<and> \<not> (case find_workspace s (ap_workspaceId inp) of None \<Rightarrow> False | Some w \<Rightarrow> ws_selfLeaveApply w)
           then Inl Self_leave_disabled
           else if genderRule lt \<noteq> ''any'' \<and> (case mb_gender mb of None \<Rightarrow> False | Some g \<Rightarrow> g \<noteq> [] \<and> g \<noteq> genderRule lt)
           then Inl Gender_not_applicable
           else (case assertPayrollNotLocked s (ap_workspaceId inp) (ap_teamMemberId inp) fromD toD of
             Some e \<Rightarrow> Inl e
           | None \<Rightarrow>
             (case overlapping_own s (ap_workspaceId inp) (ap_teamMemberId inp) fromD toD of
               Some r \<Rightarrow> Inl (Overlapping (rq_status r))
             | None \<Rightarrow>
               if ap_attachments inp > st_maxAttachmentsPerRequest (s_settings s (ap_workspaceId inp)) then Inl Too_many_attachments
               else
                 let days = working_days_of s (ap_workspaceId inp) mb fromD toD (ap_firstDayHalf inp) (ap_lastDayHalf inp)
                 in if days = [] then Inl No_working_days
                    else if (case maxPerRequest lt of None \<Rightarrow> False | Some mx \<Rightarrow> sum_list (map wd_quantity days) > mx)
                    then Inl Over_max_per_request
                    else (case decompose_request s (ap_workspaceId inp) (ap_teamMemberId inp) lt (getUTCFullYear fromD) days of
                      Inl e \<Rightarrow> Inl e
                    | Inr ch \<Rightarrow> Inr \<lparr>ac_type = lt, ac_member = mb, ac_from = fromD, ac_to = toD, ac_days = days, ac_charge = ch\<rparr>)))))
   | _ \<Rightarrow> Inl Invalid_dates)"

definition approval_chain_for :: "leave_state \<Rightarrow> string \<Rightarrow> member_row \<Rightarrow> approval_step list" where
  "approval_chain_for s ws mb = resolveApproverChainForMember (mb_linkedUserId mb)
     (case mb_reportsTo mb of None \<Rightarrow> None
      | Some mgr \<Rightarrow> map_option (\<lambda>x. \<lparr>linkedUserId = mb_linkedUserId x, mgr_isActive = Some (mb_isActive x), mgr_isDeleted = Some (mb_isDeleted x)\<rparr>)
          (List.find (\<lambda>x. mb_id x = mgr \<and> mb_workspaceId x = ws) (s_members s)))
     (st_approverUserIds (s_settings s ws))
     (case find_workspace s ws of None \<Rightarrow> None | Some w \<Rightarrow> ws_ownerId w)"

definition new_request :: "leave_state \<Rightarrow> apply_input \<Rightarrow> accepted \<Rightarrow> date \<Rightarrow> leave_request" where
  "new_request s inp a now =
     (let chain = approval_chain_for s (ap_workspaceId inp) (ac_member a)
      in \<lparr>rq_id = length (s_requests s), rq_workspaceId = ap_workspaceId inp, rq_teamMemberId = ap_teamMemberId inp,
          rq_appliedBy = ap_appliedBy inp, rq_primaryLeaveTypeId = lt_id (ac_type a), rq_fromDate = ac_from a, rq_toDate = ac_to a,
          rq_firstDayHalf = ap_firstDayHalf inp, rq_lastDayHalf = ap_lastDayHalf inp,
          rq_dayBreakdown = ch_segments (ac_charge a), rq_totalDays = sum_list (map wd_quantity (ac_days a)),
          rq_paidDays = ch_paidDays (ac_charge a), rq_lwpDays = ch_lwpDays (ac_charge a),
          rq_status = (if chain = [] then Approved_req else Pending), rq_approvalChain = chain, rq_currentLevel = 1,
          rq_finalDecisionAt = (if chain = [] then Some now else None),
          rq_isRetroactive = (ac_from a < startOfUtcDay now), rq_salaryInvalidated = False, rq_ledgerEntryIds = [],
          rq_compOffConsumption = [], rq_attendanceEventIds = []\<rparr>)"

definition applyForLeave :: "apply_input \<Rightarrow> date \<Rightarrow> leave_state \<Rightarrow> (leave_error + leave_request) \<times> leave_state" where
  "applyForLeave inp now s = (case validate_apply s inp of
     Inl e \<Rightarrow> (Inl e, s)
   | Inr a \<Rightarrow>
       let r = new_request s inp a now;
           s1 = s\<lparr>s_requests := s_requests s @ [r]\<rparr>;
           s2 = (if ch_reservePaid (ac_charge a) \<and> rq_paidDays r > 0
                 then adjust_pending (requestBucket r) (rq_paidDays r) s1 else s1)
       in if rq_approvalChain r = [] then finalizeApprovedRequest r now s2 else (Inr r, s2))"

record preview =
  pv_totalDays :: rat
  pv_paidDays :: rat
  pv_lwpDays :: rat
  pv_breakdown :: "leave_day_segment list"

definition previewLeave :: "apply_input \<Rightarrow> leave_state \<Rightarrow> leave_error + preview" where
  "previewLeave inp s = (case (ap_fromDate inp, ap_toDate inp) of
     (Some fromD, Some toD) \<Rightarrow>
       if fromD > toD then Inl From_after_to
       else if getUTCFullYear fromD \<noteq> getUTCFullYear toD then Inl Crosses_year
       else (case find_type s (ap_workspaceId inp) (ap_primaryLeaveTypeId inp) of
         None \<Rightarrow> Inl Type_not_found
       | Some lt \<Rightarrow>
         (case find_member s (ap_workspaceId inp) (ap_teamMemberId inp) of
           None \<Rightarrow> Inl Member_not_found
         | Some mb \<Rightarrow>
           let days = working_days_of s (ap_workspaceId inp) mb fromD toD (ap_firstDayHalf inp) (ap_lastDayHalf inp)
           in if days = [] then Inr \<lparr>pv_totalDays = 0, pv_paidDays = 0, pv_lwpDays = 0, pv_breakdown = []\<rparr>
              else (case decompose_request s (ap_workspaceId inp) (ap_teamMemberId inp) lt (getUTCFullYear fromD) days of
                Inl e \<Rightarrow> Inl e
              | Inr ch \<Rightarrow> Inr \<lparr>pv_totalDays = sum_list (map wd_quantity days), pv_paidDays = ch_paidDays ch,
                    pv_lwpDays = ch_lwpDays ch, pv_breakdown = ch_segments ch\<rparr>)))
   | _ \<Rightarrow> Inl Invalid_dates)"

section \<open>Deciding\<close>

definition set_decision :: "nat \<Rightarrow> decision \<Rightarrow> date \<Rightarrow> string option \<Rightarrow> leave_request \<Rightarrow> leave_request" where
  "set_decision lvl d now n r = r\<lparr>rq_approvalChain := (rq_approvalChain r)[lvl - 1 :=
     (rq_approvalChain r ! (lvl - 1))\<lparr>decision := Some d, decidedAt := Some now, step_note := n\<rparr>]\<rparr>"

definition current_step :: "leave_request \<Rightarrow> approval_step option" where
  "current_step r = (if 1 \<le> rq_currentLevel r \<and> rq_currentLevel r \<le> length (rq_approvalChain r)
     then Some (rq_approvalChain r ! (rq_currentLevel r - 1)) else None)"

definition check_decide :: "leave_state \<Rightarrow> string \<Rightarrow> nat \<Rightarrow> string \<Rightarrow> date \<Rightarrow> leave_error + leave_request" where
  \<comment> \<open>the guards that approve and reject share\<close>
  "check_decide s ws i user now = (case find_request s ws i of
     None \<Rightarrow> Inl Request_not_found
   | Some r \<Rightarrow>
       if rq_status r \<noteq> Pending then Inl (Not_pending (rq_status r))
       else (case current_step r of
         None \<Rightarrow> Inl Not_current_approver
       | Some step \<Rightarrow> if canActAsApprover s ws (approverUserId step) user now then Inr r else Inl Not_current_approver))"

text \<open>
  The conditional update: it hits only a row that is still pending at the level that was
  read. \<open>None\<close> is the lost race.
\<close>

definition decide_update :: "leave_request \<Rightarrow> (leave_request \<Rightarrow> leave_request) \<Rightarrow> leave_state \<Rightarrow> (leave_request \<times> leave_state) option" where
  "decide_update r f s = (case find_request s (rq_workspaceId r) (rq_id r) of
     None \<Rightarrow> None
   | Some r' \<Rightarrow> if rq_status r' = Pending \<and> rq_currentLevel r' = rq_currentLevel r
       then Some (f r', save_request (rq_id r) f s) else None)"

definition approve_commit :: "leave_request \<Rightarrow> date \<Rightarrow> string option \<Rightarrow> leave_state \<Rightarrow> (leave_error + leave_request) \<times> leave_state" where
  "approve_commit r now n s =
     (let lvl = rq_currentLevel r; isFinal = (lvl \<ge> length (rq_approvalChain r));
          upd = (\<lambda>x. if isFinal
             then (set_decision lvl Approved now n x)\<lparr>rq_status := Approved_req, rq_finalDecisionAt := Some now\<rparr>
             else (set_decision lvl Approved now n x)\<lparr>rq_currentLevel := lvl + 1\<rparr>)
      in case decide_update r upd s of
           None \<Rightarrow> (Inl Decided_concurrently, s)
         | Some (r', s') \<Rightarrow> if isFinal then finalizeApprovedRequest r' now s' else (Inr r', s'))"

definition approveRequest :: "string \<Rightarrow> nat \<Rightarrow> string \<Rightarrow> string option \<Rightarrow> date \<Rightarrow> leave_state \<Rightarrow> (leave_error + leave_request) \<times> leave_state" where
  "approveRequest ws i user n now s = (case check_decide s ws i user now of
     Inl e \<Rightarrow> (Inl e, s)
   | Inr r \<Rightarrow>
       if rq_currentLevel r \<ge> length (rq_approvalChain r) then
         (case assertConsumable s r now of
            Some e \<Rightarrow> (Inl e, s)
          | None \<Rightarrow> (case assertPayrollNotLocked s (rq_workspaceId r) (rq_teamMemberId r) (rq_fromDate r) (rq_toDate r) of
              Some e \<Rightarrow> (Inl e, s)
            | None \<Rightarrow> approve_commit r now n s))
       else approve_commit r now n s)"

definition rejectRequest :: "string \<Rightarrow> nat \<Rightarrow> string \<Rightarrow> string option \<Rightarrow> date \<Rightarrow> leave_state \<Rightarrow> (leave_error + leave_request) \<times> leave_state" where
  "rejectRequest ws i user n now s = (case check_decide s ws i user now of
     Inl e \<Rightarrow> (Inl e, s)
   | Inr r \<Rightarrow>
       (case decide_update r (\<lambda>x. (set_decision (rq_currentLevel r) Rejected now n x)
                \<lparr>rq_status := Rejected_req, rq_finalDecisionAt := Some now\<rparr>) s of
          None \<Rightarrow> (Inl Decided_concurrently, s)
        | Some (r', s') \<Rightarrow> (case releasePending r' s' of
            (Some e, s2) \<Rightarrow> (Inl e, s2) | (None, s2) \<Rightarrow> (Inr r', s2))))"

section \<open>Cancelling and withdrawing\<close>

text \<open>
  Both handlers read the row, check it, and later save the copy they read: the save is not
  conditional on the row being unchanged. The two halves are separate definitions, so that
  another handler can be put between them; \<open>cancelRequest\<close> and \<open>withdrawRequest\<close> run them
  back to back.
\<close>

definition cancel_check :: "string \<Rightarrow> nat \<Rightarrow> string \<Rightarrow> leave_state \<Rightarrow> leave_error + leave_request" where
  "cancel_check ws i user s = (case find_request s ws i of
     None \<Rightarrow> Inl Request_not_found
   | Some r \<Rightarrow>
       if rq_appliedBy r \<noteq> user then Inl Not_applicant
       else if rq_status r \<noteq> Pending then Inl (Not_pending (rq_status r))
       else if rq_currentLevel r > 1 then Inl Already_actioned
       else Inr r)"

definition cancel_commit :: "leave_request \<Rightarrow> date \<Rightarrow> leave_state \<Rightarrow> (leave_error + leave_request) \<times> leave_state" where
  \<comment> \<open>\<open>save\<close> writes the two modified fields of the row with this id\<close>
  "cancel_commit r now s =
     (let upd = (\<lambda>x. x\<lparr>rq_status := Cancelled, rq_finalDecisionAt := Some now\<rparr>)
      in case releasePending (upd r) (save_request (rq_id r) upd s) of
           (Some e, s2) \<Rightarrow> (Inl e, s2) | (None, s2) \<Rightarrow> (Inr (upd r), s2))"

definition cancelRequest :: "string \<Rightarrow> nat \<Rightarrow> string \<Rightarrow> date \<Rightarrow> leave_state \<Rightarrow> (leave_error + leave_request) \<times> leave_state" where
  "cancelRequest ws i user now s = (case cancel_check ws i user s of
     Inl e \<Rightarrow> (Inl e, s) | Inr r \<Rightarrow> cancel_commit r now s)"

definition withdraw_check :: "string \<Rightarrow> nat \<Rightarrow> string \<Rightarrow> leave_state \<Rightarrow> leave_error + leave_request" where
  "withdraw_check ws i user s = (case find_request s ws i of
     None \<Rightarrow> Inl Request_not_found
   | Some r \<Rightarrow>
       if rq_appliedBy r \<noteq> user then Inl Not_applicant
       else if rq_status r \<noteq> Approved_req then Inl (Not_approved (rq_status r))
       else (case assertPayrollNotLocked s (rq_workspaceId r) (rq_teamMemberId r) (rq_fromDate r) (rq_toDate r) of
               Some e \<Rightarrow> Inl e | None \<Rightarrow> Inr r))"

definition withdraw_commit :: "leave_request \<Rightarrow> date \<Rightarrow> leave_state \<Rightarrow> (leave_error + leave_request) \<times> leave_state" where
  "withdraw_commit r now s =
     (let upd = (\<lambda>x. x\<lparr>rq_status := Withdrawn, rq_finalDecisionAt := Some now\<rparr>)
      in case reverseApprovedRequest r now s of
           (Some e, s1) \<Rightarrow> (Inl e, s1)
         | (None, s1) \<Rightarrow> (Inr (upd r), save_request (rq_id r) upd s1))"

definition withdrawRequest :: "string \<Rightarrow> nat \<Rightarrow> string \<Rightarrow> date \<Rightarrow> leave_state \<Rightarrow> (leave_error + leave_request) \<times> leave_state" where
  "withdrawRequest ws i user now s = (case withdraw_check ws i user s of
     Inl e \<Rightarrow> (Inl e, s) | Inr r \<Rightarrow> withdraw_commit r now s)"

section \<open>Lemmas: the ledger under the handlers\<close>

lemma stored_pending_adjust [simp]:
  "stored_pending (adjustPending b d db) b' = (if b' = b then jadd (stored_pending db b) d else stored_pending db b')"
  by (auto simp: adjustPending_def Let_def stored_pending_def rebuildBucket_def zero_balance_def leave_totals.defs coalesce_def
      split: option.splits)

lemma stored_pending_set_lots [simp]:
  "stored_pending (inc_lot i x db) b = stored_pending db b" "stored_pending (clear_lot i db) b = stored_pending db b"
  by (simp_all add: inc_lot_def clear_lot_def)

lemma consume_pending: "consumeCompOffFifo ow q asOf src db = Inr (as, db') \<Longrightarrow> stored_pending db' b = stored_pending db b"
proof -
  have "stored_pending (fold (draw_lot ow asOf src) as d) b = stored_pending d b" for as d
    by (induction as arbitrary: d) (simp_all add: draw_lot_def)
  then show "consumeCompOffFifo ow q asOf src db = Inr (as, db') \<Longrightarrow> ?thesis"
    by (auto simp: consumeCompOffFifo_def Let_def split: if_splits prod.splits)
qed

lemma reverse_pending [simp]: "stored_pending (reverseConsumption ow as now src db) b = stored_pending db b"
  unfolding reverseConsumption_def by (induction as arbitrary: db) (simp_all add: restore_lot_def)

lemma insort_key_map: "(\<And>x. k (f x) = k x) \<Longrightarrow> insort_key k (f x) (map f xs) = map f (insort_key k x xs)"
  by (induction xs) simp_all

lemma sort_key_map: "(\<And>x. k (f x) = k x) \<Longrightarrow> sort_key k (map f xs) = map f (sort_key k xs)"
  by (induction xs) (simp_all add: insort_key_map)

lemma projection_map:
  assumes "\<And>e. entryType (f e) = entryType e" "\<And>e. quantity (f e) = quantity e" "\<And>e. seq (f e) = seq e"
  shows "projection_row (map f es) p = projection_row es p"
  by (simp add: projection_row_def fold_entries_def foldl_map assms cong: if_cong)

lemma lots_balances_ok:
  assumes "balances_ok db" "\<And>e. entryType (f e) = entryType e" "\<And>e. quantity (f e) = quantity e"
    and "\<And>e. seq (f e) = seq e" "\<And>e. entry_bucket (f e) = entry_bucket e"
  shows "balances_ok (db\<lparr>ledger := map f (ledger db)\<rparr>)"
proof -
  have "entries_of (db\<lparr>ledger := map f (ledger db)\<rparr>) b = map f (entries_of db b)" for b
    using assms(5) by (simp add: entries_of_def filter_map o_def)
  then show ?thesis using assms(1,5)
    by (simp add: balances_ok_def sort_key_map[of seq f, OF assms(4)] projection_map[of f, OF assms(2-4)])
qed

lemma inc_lot_balances_ok: "balances_ok db \<Longrightarrow> balances_ok (inc_lot i x db)"
  unfolding inc_lot_def by (rule lots_balances_ok) auto

lemma consume_balances_ok: "consumeCompOffFifo ow q asOf src db = Inr (as, db') \<Longrightarrow> balances_ok db \<Longrightarrow> balances_ok db'"
proof -
  have "balances_ok d \<Longrightarrow> balances_ok (fold (draw_lot ow asOf src) as d)" for as d
    by (induction as arbitrary: d) (simp_all add: draw_lot_def post_balances_ok inc_lot_balances_ok)
  then show "consumeCompOffFifo ow q asOf src db = Inr (as, db') \<Longrightarrow> balances_ok db \<Longrightarrow> ?thesis"
    by (auto simp: consumeCompOffFifo_def Let_def split: if_splits prod.splits)
qed

lemma reverse_balances_ok: "balances_ok db \<Longrightarrow> balances_ok (reverseConsumption ow as now src db)"
  unfolding reverseConsumption_def
  by (induction as arbitrary: db) (simp_all add: restore_lot_def post_balances_ok inc_lot_balances_ok)

lemma adjustPending_balances_ok:
  assumes "balances_ok db" shows "balances_ok (adjustPending b d db)"
  unfolding adjustPending_def Let_def
  by (rule rebuild_ok) (use assms no_row_no_entries[OF assms] in \<open>auto simp: balances_ok_def\<close>)

section \<open>The invariant\<close>

definition types_ok :: "leave_type list \<Rightarrow> bool" where
  \<comment> \<open>type ids are unique, and the loss-of-pay code is unique in its workspace\<close>
  "types_ok ts \<longleftrightarrow> distinct (map lt_id ts)
     \<and> (\<forall>t\<in>set ts. \<forall>u\<in>set ts. lt_workspaceId t = lt_workspaceId u \<and> code t = ''LWP'' \<and> code u = ''LWP'' \<longrightarrow> t = u)"

definition class_of :: "leave_type list \<Rightarrow> string \<Rightarrow> leave_type_class option" where
  "class_of ts t = map_option (\<lambda>lt. classifyLeaveType (code lt)
       (if mode (accrualRule lt) = No_accrual then ''none'' else ''accruing'') (isCompOff lt))
     (List.find (\<lambda>lt. lt_id lt = t) ts)"

lemma loadPrimaryClass_class: "map_option snd (loadPrimaryClass s r) = class_of (s_types s) (rq_primaryLeaveTypeId r)"
  by (simp add: loadPrimaryClass_def class_of_def option.map_comp o_def)

definition reserving :: "leave_type list \<Rightarrow> leave_request \<Rightarrow> bool" where
  "reserving ts r \<longleftrightarrow> rq_status r = Pending
     \<and> (case class_of ts (rq_primaryLeaveTypeId r) of None \<Rightarrow> False | Some c \<Rightarrow> cls_balanceTracked c)"

definition weight :: "leave_type list \<Rightarrow> bucket \<Rightarrow> leave_request \<Rightarrow> rat" where
  "weight ts b r = (if reserving ts r \<and> requestBucket r = b then rq_paidDays r else 0)"

definition reserved :: "leave_state \<Rightarrow> bucket \<Rightarrow> rat" where
  \<comment> \<open>the paid days of the pending balance-tracked requests of a bucket\<close>
  "reserved s b = sum_list (map (weight (s_types s) b) (s_requests s))"

definition live :: "leave_request \<Rightarrow> bool" where
  "live r \<longleftrightarrow> rq_status r \<in> {Pending, Approved_req}"

definition clash :: "leave_request \<Rightarrow> leave_request \<Rightarrow> bool" where
  "clash r q \<longleftrightarrow> rq_workspaceId r = rq_workspaceId q \<and> rq_teamMemberId r = rq_teamMemberId q
     \<and> live r \<and> live q \<and> rq_fromDate r \<le> rq_toDate q \<and> rq_fromDate q \<le> rq_toDate r"

definition leave_inv :: "leave_state \<Rightarrow> bool" where
  "leave_inv s \<longleftrightarrow> types_ok (s_types s) \<and> balances_ok (s_ledger s)
     \<and> map rq_id (s_requests s) = [0..<length (s_requests s)]
     \<and> (\<forall>r\<in>set (s_requests s). halves 1000 (rq_paidDays r) \<and> 0 \<le> rq_paidDays r
          \<and> class_of (s_types s) (rq_primaryLeaveTypeId r) \<noteq> None)
     \<and> (\<forall>i<length (s_requests s). \<forall>j<i. \<not> clash (s_requests s ! i) (s_requests s ! j))
     \<and> (length (s_requests s) \<le> 2 ^ 40 \<longrightarrow> (\<forall>b. stored_pending (s_ledger s) b = reserved s b))"

lemma reserved_halves:
  assumes "\<forall>r\<in>set rs. halves 1000 (rq_paidDays r)"
  shows "halves (1000 * int (length rs)) (sum_list (map (weight ts b) rs))"
  using assms
proof (induction rs)
  case (Cons r rs)
  have "halves 1000 (weight ts b r)" using Cons.prems by (auto simp: weight_def)
  from halves_add[OF this Cons.IH] Cons.prems show ?case by (simp add: algebra_simps)
qed simp

lemma pending_exact:
  assumes "\<forall>r\<in>set rs. halves 1000 (rq_paidDays r)" "length rs \<le> 2 ^ 40" "halves 1000 d"
  shows "jadd (sum_list (map (weight ts b) rs)) d = sum_list (map (weight ts b) rs) + d"
proof -
  have "halves (1000 * int (length rs) + 1000) (sum_list (map (weight ts b) rs) + d)"
    by (rule halves_add[OF reserved_halves[OF assms(1)] assms(3)])
  moreover have "1000 * int (length rs) + 1000 \<le> 2 ^ 53" using assms(2) by simp
  ultimately show ?thesis unfolding jadd_def by (rule fl_halves)
qed

section \<open>Lemmas: requests\<close>

definition same_core :: "leave_request \<Rightarrow> leave_request \<Rightarrow> bool" where
  \<comment> \<open>what no handler changes once a request exists\<close>
  "same_core r q \<longleftrightarrow> rq_id q = rq_id r \<and> rq_workspaceId q = rq_workspaceId r \<and> rq_teamMemberId q = rq_teamMemberId r
     \<and> rq_appliedBy q = rq_appliedBy r \<and> rq_primaryLeaveTypeId q = rq_primaryLeaveTypeId r \<and> rq_fromDate q = rq_fromDate r
     \<and> rq_toDate q = rq_toDate r \<and> rq_dayBreakdown q = rq_dayBreakdown r \<and> rq_totalDays q = rq_totalDays r
     \<and> rq_paidDays q = rq_paidDays r \<and> rq_lwpDays q = rq_lwpDays r"

definition may_become :: "request_status \<Rightarrow> request_status \<Rightarrow> bool" where
  "may_become a b \<longleftrightarrow> a = b \<or> a = Pending \<and> b \<in> {Approved_req, Rejected_req, Cancelled} \<or> a = Approved_req \<and> b = Withdrawn"

lemma inv_parts:
  assumes "leave_inv s"
  shows "types_ok (s_types s)" "balances_ok (s_ledger s)" "map rq_id (s_requests s) = [0..<length (s_requests s)]"
    and "\<And>r. r \<in> set (s_requests s) \<Longrightarrow> halves 1000 (rq_paidDays r) \<and> 0 \<le> rq_paidDays r \<and> class_of (s_types s) (rq_primaryLeaveTypeId r) \<noteq> None"
    and "\<And>i j. i < length (s_requests s) \<Longrightarrow> j < i \<Longrightarrow> \<not> clash (s_requests s ! i) (s_requests s ! j)"
    and "length (s_requests s) \<le> 2 ^ 40 \<Longrightarrow> stored_pending (s_ledger s) b = reserved s b"
  using assms unfolding leave_inv_def by blast+

lemma find_request_nth:
  assumes "leave_inv s" "find_request s ws i = Some r"
  shows "i < length (s_requests s)" "s_requests s ! i = r" "rq_id r = i" "rq_workspaceId r = ws"
  using find_by_key[OF inv_parts(3)[OF assms(1)] assms(2)[unfolded find_request_def]] by blast+

lemma save_request_update:
  assumes "leave_inv s" "i < length (s_requests s)"
  shows "s_requests (save_request i f s) = (s_requests s)[i := f (s_requests s ! i)]"
  unfolding save_request_def using map_id_update[OF inv_parts(3)[OF assms(1)] assms(2), of f] by simp

lemma same_core_bucket: "same_core r q \<Longrightarrow> requestBucket q = requestBucket r"
  by (simp add: same_core_def requestBucket_def)

text \<open>
  Replacing one row of a good state by a copy that keeps the core, moves the status along
  and, if it gives up a reservation, takes it off the stored pending days.
\<close>

lemma inv_update:
  assumes inv: "leave_inv s" and i: "i < length (s_requests s)" "r = s_requests s ! i"
    and core: "same_core r r'" and st: "may_become (rq_status r) (rq_status r')"
    and s': "s_types s' = s_types s" "s_requests s' = (s_requests s)[i := r']" "balances_ok (s_ledger s')"
    and pend: "\<And>b. stored_pending (s_ledger s') b =
      (if reserving (s_types s) r \<and> \<not> reserving (s_types s) r' \<and> b = requestBucket r \<and> rq_paidDays r > 0
       then jadd (stored_pending (s_ledger s) b) (- rq_paidDays r) else stored_pending (s_ledger s) b)"
  shows "leave_inv s'"
proof -
  have ri: "r \<in> set (s_requests s)" using i by simp
  note r = inv_parts(4)[OF inv ri]
  have id: "rq_id r = i" using inv_parts(3)[OF inv] i by (metis (no_types, lifting) add.left_neutral length_map nth_map nth_upt)
  have ids: "map rq_id (s_requests s') = [0..<length (s_requests s')]"
    using inv_parts(3)[OF inv] i id core list_update_id[of "map rq_id (s_requests s)" i]
    by (simp add: s' map_update same_core_def)
  have cl: "clash (s_requests s' ! a) (s_requests s' ! b) \<Longrightarrow> clash (s_requests s ! a) (s_requests s ! b)"
    if "a < length (s_requests s)" "b < length (s_requests s)" for a b
  proof -
    have "live r' \<Longrightarrow> live r" using st by (auto simp: live_def may_become_def)
    then show "clash (s_requests s' ! a) (s_requests s' ! b) \<Longrightarrow> ?thesis"
      using core i(2) unfolding s'(2) nth_list_update[OF i(1)]
      by (cases "i = a"; cases "i = b"; simp add: clash_def same_core_def)
  qed
  have rows: "\<forall>q\<in>set (s_requests s'). halves 1000 (rq_paidDays q) \<and> 0 \<le> rq_paidDays q
      \<and> class_of (s_types s') (rq_primaryLeaveTypeId q) \<noteq> None"
    using inv_parts(4)[OF inv] r core set_update_subset_insert[of "s_requests s" i r']
    by (fastforce simp: s' same_core_def)
  have "stored_pending (s_ledger s') b = reserved s' b" if len: "length (s_requests s') \<le> 2 ^ 40" for b
  proof -
    have len0: "length (s_requests s) \<le> 2 ^ 40" using len by (simp add: s')
    have sum: "reserved s' b = reserved s b - weight (s_types s) b r + weight (s_types s) b r'"
      using i by (simp add: reserved_def s' sum_list_update_group)
    have keep: "reserving (s_types s) r' \<Longrightarrow> reserving (s_types s) r"
      using core st by (auto simp: reserving_def same_core_def may_become_def)
    have b: "requestBucket r' = requestBucket r" using core by (rule same_core_bucket)
    show ?thesis
    proof (cases "reserving (s_types s) r \<and> \<not> reserving (s_types s) r' \<and> b = requestBucket r \<and> rq_paidDays r > 0")
      case True
      have "jadd (reserved s b) (- rq_paidDays r) = reserved s b + (- rq_paidDays r)"
        unfolding reserved_def by (rule pending_exact) (use inv_parts(4)[OF inv] len0 r in auto)
      then show ?thesis using True inv_parts(6)[OF inv len0, of b]
        unfolding pend sum by (simp add: weight_def)
    next
      case False
      have "weight (s_types s) b r = weight (s_types s) b r'"
        using False keep r core b by (auto simp: weight_def same_core_def)
      then show ?thesis using inv_parts(6)[OF inv len0, of b] unfolding pend if_not_P[OF False] sum by simp
    qed
  qed
  moreover have "\<not> clash (s_requests s' ! a) (s_requests s' ! b)" if "a < length (s_requests s')" "b < a" for a b
    using cl[of a b] inv_parts(5)[OF inv, of a b] that by (auto simp: s')
  ultimately show ?thesis
    unfolding leave_inv_def using inv_parts(1)[OF inv] ids rows s' by simp
qed

lemma adjust_pending_simps [simp]:
  "s_requests (adjust_pending b d s) = s_requests s" "s_types (adjust_pending b d s) = s_types s"
  "s_events (adjust_pending b d s) = s_events s" "s_salaries (adjust_pending b d s) = s_salaries s"
  "s_ledger (adjust_pending b d s) = adjustPending b d (s_ledger s)"
  by (simp_all add: adjust_pending_def)

lemma save_request_simps [simp]:
  "s_types (save_request i f s) = s_types s" "s_ledger (save_request i f s) = s_ledger s"
  "s_events (save_request i f s) = s_events s" "s_salaries (save_request i f s) = s_salaries s"
  by (simp_all add: save_request_def)

lemma void_events_simps [simp]:
  "s_types (void_events is ws s) = s_types s" "s_ledger (void_events is ws s) = s_ledger s"
  "s_requests (void_events is ws s) = s_requests s"
  by (simp_all add: void_events_def)

lemma loadPrimaryClass_types: "s_types s' = s_types s \<Longrightarrow> loadPrimaryClass s' r = loadPrimaryClass s r"
  by (simp add: loadPrimaryClass_def)

lemma loadPrimaryClass_core: "same_core r q \<Longrightarrow> loadPrimaryClass s q = loadPrimaryClass s r"
  by (simp add: loadPrimaryClass_def same_core_def)

lemma load_class: "loadPrimaryClass s r = Some (lt, cls) \<Longrightarrow> class_of (s_types s) (rq_primaryLeaveTypeId r) = Some cls"
  using loadPrimaryClass_class[of s r] by simp

lemma draw_balance_effect:
  assumes "draw_balance r cls now s = (Inr r1, s1)"
  shows "s_requests s1 = s_requests s" "s_types s1 = s_types s" "same_core r r1" "rq_status r1 = rq_status r"
    and "balances_ok (s_ledger s) \<Longrightarrow> balances_ok (s_ledger s1)"
    and "stored_pending (s_ledger s1) b = (if cls_balanceTracked cls \<and> rq_paidDays r > 0 \<and> b = requestBucket r
       then jadd (stored_pending (s_ledger s) b) (- rq_paidDays r) else stored_pending (s_ledger s) b)"
  using assms
  by (auto simp: draw_balance_def same_core_def consume_pending consume_balances_ok adjustPending_balances_ok post_balances_ok
      split: if_splits sum.splits prod.splits)

lemma finalize_effect [consumes 1]:
  assumes "finalizeApprovedRequest r now s = (Inr r2, s2)"
  obtains lt cls where "loadPrimaryClass s r = Some (lt, cls)"
    "s_requests s2 = map (\<lambda>x. if rq_id x = rq_id r then r2 else x) (s_requests s)" "s_types s2 = s_types s"
    "same_core r r2" "rq_status r2 = rq_status r" "balances_ok (s_ledger s) \<Longrightarrow> balances_ok (s_ledger s2)"
    "\<And>b. stored_pending (s_ledger s2) b = (if cls_balanceTracked cls \<and> rq_paidDays r > 0 \<and> b = requestBucket r
       then jadd (stored_pending (s_ledger s) b) (- rq_paidDays r) else stored_pending (s_ledger s) b)"
proof -
  obtain lt cls where c: "loadPrimaryClass s r = Some (lt, cls)"
    using assms by (auto simp: finalizeApprovedRequest_def split: option.splits)
  obtain r1 s1 where d: "draw_balance r cls now s = (Inr r1, s1)"
    using assms c by (auto simp: finalizeApprovedRequest_def split: sum.splits prod.splits)
  note e = draw_balance_effect[OF d]
  show thesis
    by (rule that[OF c]) (use assms c d e in \<open>auto simp: finalizeApprovedRequest_def Let_def save_request_def same_core_def\<close>)
qed

lemma finalize_error:
  "finalizeApprovedRequest r now s = (Inl e, s2) \<Longrightarrow> loadPrimaryClass s r \<noteq> None \<Longrightarrow> \<exists>c. e = Comp_off_failed c"
  by (auto simp: finalizeApprovedRequest_def draw_balance_def Let_def split: if_splits sum.splits prod.splits)

lemma release_effect:
  assumes "releasePending r s = (out, s')" "loadPrimaryClass s r \<noteq> None"
  shows "out = None" "s_requests s' = s_requests s" "s_types s' = s_types s"
    and "balances_ok (s_ledger s) \<Longrightarrow> balances_ok (s_ledger s')"
    and "stored_pending (s_ledger s') b = (if (case class_of (s_types s) (rq_primaryLeaveTypeId r) of None \<Rightarrow> False | Some c \<Rightarrow> cls_balanceTracked c)
         \<and> rq_paidDays r > 0 \<and> b = requestBucket r
       then jadd (stored_pending (s_ledger s) b) (- rq_paidDays r) else stored_pending (s_ledger s) b)"
  using assms load_class[of s r]
  by (auto simp: releasePending_def adjustPending_balances_ok split: if_splits option.splits prod.splits)

lemma inv_class: "leave_inv s \<Longrightarrow> r \<in> set (s_requests s) \<Longrightarrow> loadPrimaryClass s r \<noteq> None"
  using inv_parts(4)[of s r] loadPrimaryClass_class[of s r] by auto

lemma decide_update_eq:
  assumes "leave_inv s" "decide_update r f s = Some (r', s')" "s_requests s ! rq_id r = r" "rq_id r < length (s_requests s)"
  shows "r' = f r" "s' = save_request (rq_id r) f s"
proof -
  obtain x where x: "find_request s (rq_workspaceId r) (rq_id r) = Some x"
    using assms(2) by (auto simp: decide_update_def split: option.splits)
  then have "x = r" using find_request_nth[OF assms(1) x] assms(3) by simp
  then show "r' = f r" "s' = save_request (rq_id r) f s"
    using assms(2) x by (auto simp: decide_update_def split: if_splits)
qed

lemma set_decision_core [simp]:
  "same_core r (set_decision l d now n r)" "rq_status (set_decision l d now n r) = rq_status r"
  by (simp_all add: set_decision_def same_core_def)

section \<open>Every handler keeps the invariant\<close>

lemma finalize_flip_inv:
  \<comment> \<open>a pending row becomes approved and is finalised\<close>
  assumes inv: "leave_inv s" and i: "i < length (s_requests s)" "s_requests s ! i = r" "rq_id r = i" "rq_status r = Pending"
    and f: "same_core r (f r)" "rq_status (f r) = Approved_req"
    and fin: "finalizeApprovedRequest (f r) now (save_request i f s) = (Inr r2, s2)"
  shows "leave_inv s2"
proof -
  from fin show ?thesis
  proof (cases rule: finalize_effect)
  case e: (1 lt cls)
  have core: "same_core r r2" using f(1) e(4) by (simp add: same_core_def)
  have fr: "rq_id (f r) = i" "rq_paidDays (f r) = rq_paidDays r" "requestBucket (f r) = requestBucket r"
    "rq_primaryLeaveTypeId (f r) = rq_primaryLeaveTypeId r"
    using f(1) i(3) same_core_bucket[OF f(1)] by (simp_all add: same_core_def)
  have cls: "class_of (s_types s) (rq_primaryLeaveTypeId r) = Some cls" using load_class[OF e(1)] fr by simp
  have ids: "map rq_id ((s_requests s)[i := f r]) = [0..<length ((s_requests s)[i := f r])]"
    using inv_parts(3)[OF inv] i fr(1) list_update_id[of "map rq_id (s_requests s)" i] by (simp add: map_update)
  have "s_requests s2 = (s_requests s)[i := r2]"
    using e(2) map_id_update[OF ids, of i "\<lambda>_. r2"] i unfolding fr(1) save_request_update[OF inv i(1)] by simp
  moreover have "reserving (s_types s) r = cls_balanceTracked cls" "\<not> reserving (s_types s) r2"
    using i(4) cls e(5) f(2) by (simp_all add: reserving_def)
  moreover have st: "may_become (rq_status r) (rq_status r2)" using i(4) e(5) f(2) by (simp add: may_become_def)
  moreover have "balances_ok (s_ledger s2)" using e(6) inv_parts(2)[OF inv] by simp
  moreover have "s_types s2 = s_types s" using e(3) by simp
  moreover have "stored_pending (s_ledger s2) b = (if cls_balanceTracked cls \<and> rq_paidDays r > 0 \<and> b = requestBucket r
       then jadd (stored_pending (s_ledger s) b) (- rq_paidDays r) else stored_pending (s_ledger s) b)" for b
    using e(7)[of b] by (simp only: fr save_request_simps)
  ultimately show ?thesis
    by (intro inv_update[OF inv i(1) i(2)[symmetric] core]) (simp_all add: conj_commute)
  qed
qed

lemma decide_release_inv:
  \<comment> \<open>a pending row leaves the pending status and its reservation is released\<close>
  assumes inv: "leave_inv s" and i: "i < length (s_requests s)" "s_requests s ! i = r" "rq_id r = i" "rq_status r = Pending"
    and f: "same_core r (f r)" "rq_status (f r) \<in> {Rejected_req, Cancelled}"
    and rel: "releasePending (f r) (save_request i f s) = (out, s2)"
  shows "leave_inv s2"
proof -
  have "r \<in> set (s_requests s)" using i by auto
  from inv_class[OF inv this] have lc: "loadPrimaryClass (save_request i f s) (f r) \<noteq> None"
    using loadPrimaryClass_core[OF f(1)] loadPrimaryClass_types[of "save_request i f s" s] by simp
  note e = release_effect[OF rel lc]
  have fr: "rq_paidDays (f r) = rq_paidDays r" "requestBucket (f r) = requestBucket r"
    "rq_primaryLeaveTypeId (f r) = rq_primaryLeaveTypeId r"
    using f(1) same_core_bucket[OF f(1)] by (simp_all add: same_core_def)
  have "s_requests s2 = (s_requests s)[i := f r]" using e(2) i by (simp add: save_request_update[OF inv i(1)])
  moreover have "\<not> reserving (s_types s) (f r)" using f(2) by (auto simp: reserving_def)
  moreover have "reserving (s_types s) r = (case class_of (s_types s) (rq_primaryLeaveTypeId r) of None \<Rightarrow> False | Some c \<Rightarrow> cls_balanceTracked c)"
    using i(4) by (simp add: reserving_def)
  moreover have st: "may_become (rq_status r) (rq_status (f r))" using i(4) f(2) by (auto simp: may_become_def)
  moreover have "balances_ok (s_ledger s2)" using e(4) inv_parts(2)[OF inv] by simp
  moreover have "s_types s2 = s_types s" using e(3) by simp
  moreover have "stored_pending (s_ledger s2) b = (if (case class_of (s_types s) (rq_primaryLeaveTypeId r) of None \<Rightarrow> False | Some c \<Rightarrow> cls_balanceTracked c)
         \<and> rq_paidDays r > 0 \<and> b = requestBucket r
       then jadd (stored_pending (s_ledger s) b) (- rq_paidDays r) else stored_pending (s_ledger s) b)" for b
    using e(5)[of b] by (simp only: fr save_request_simps)
  ultimately show ?thesis
    by (intro inv_update[OF inv i(1) i(2)[symmetric] f(1)]) (simp_all add: conj_commute)
qed

lemma check_decide_nth:
  assumes "leave_inv s" "check_decide s ws i user now = Inr r"
  shows "i < length (s_requests s)" "s_requests s ! i = r" "rq_id r = i" "rq_workspaceId r = ws" "rq_status r = Pending"
    and "\<exists>step. current_step r = Some step \<and> canActAsApprover s ws (approverUserId step) user now"
  using assms(2) find_request_nth[OF assms(1)]
  by (auto simp: check_decide_def split: option.splits if_splits)

lemma approve_commit_inv:
  assumes inv: "leave_inv s" and i: "i < length (s_requests s)" "s_requests s ! i = r" "rq_id r = i" "rq_status r = Pending"
    and ap: "approve_commit r now n s = (out, s')" "\<And>c. out \<noteq> Inl (Comp_off_failed c)"
  shows "leave_inv s'"
proof -
  let ?upd = "\<lambda>x. if rq_currentLevel r \<ge> length (rq_approvalChain r)
             then (set_decision (rq_currentLevel r) Approved now n x)\<lparr>rq_status := Approved_req, rq_finalDecisionAt := Some now\<rparr>
             else (set_decision (rq_currentLevel r) Approved now n x)\<lparr>rq_currentLevel := rq_currentLevel r + 1\<rparr>"
  have core: "same_core x (?upd x)" for x by (simp add: same_core_def set_decision_def)
  have rs: "r \<in> set (s_requests s)" using i by auto
  show ?thesis
  proof (cases "decide_update r ?upd s")
    case None
    then show ?thesis using ap inv by (simp add: approve_commit_def Let_def)
  next
    case (Some p)
    then obtain r' s1 where p: "decide_update r ?upd s = Some (r', s1)" by (cases p) auto
    note e = decide_update_eq[OF inv p, unfolded i(3), OF i(2,1)]
    show ?thesis
    proof (cases "rq_currentLevel r \<ge> length (rq_approvalChain r)")
      case True
      then have fin: "finalizeApprovedRequest (?upd r) now (save_request i ?upd s) = (out, s')"
        using ap(1) p e by (simp add: approve_commit_def Let_def)
      have "loadPrimaryClass (save_request i ?upd s) (?upd r) \<noteq> None"
        using inv_class[OF inv rs] loadPrimaryClass_core[OF core] loadPrimaryClass_types[of "save_request i ?upd s" s] by simp
      then obtain r2 where "out = Inr r2" using finalize_error fin ap(2) by (cases out) blast+
      then show ?thesis using finalize_flip_inv[OF inv i, of ?upd] fin core True by simp
    next
      case False
      then have s': "s' = save_request i ?upd s" using ap(1) p e by (simp add: approve_commit_def Let_def)
      have "reserving (s_types s) (?upd r)" if "reserving (s_types s) r"
        using that False by (simp add: reserving_def set_decision_def)
      then have "\<not> (reserving (s_types s) r \<and> \<not> reserving (s_types s) (?upd r) \<and> P)" for P by blast
      moreover have "may_become (rq_status r) (rq_status (?upd r))" using False by (simp add: may_become_def)
      ultimately show ?thesis unfolding s'
        by (intro inv_update[OF inv i(1) i(2)[symmetric] core])
          (simp_all only: save_request_simps save_request_update[OF inv i(1)] i(2) inv_parts(2)[OF inv] if_False)
    qed
  qed
qed

lemma approve_inv:
  assumes "leave_inv s" "approveRequest ws i user n now s = (out, s')" "\<And>c. out \<noteq> Inl (Comp_off_failed c)"
  shows "leave_inv s'"
proof (cases "check_decide s ws i user now")
  case (Inr r)
  note c = check_decide_nth[OF assms(1) Inr]
  show ?thesis
    using assms Inr approve_commit_inv[OF assms(1) c(1,2,3,5), of now n out s']
    by (auto simp: approveRequest_def split: if_splits option.splits)
qed (use assms in \<open>simp add: approveRequest_def\<close>)

lemma reject_inv:
  assumes "leave_inv s" "rejectRequest ws i user n now s = (out, s')"
  shows "leave_inv s'"
proof (cases "check_decide s ws i user now")
  case (Inr r)
  let ?upd = "\<lambda>x. (set_decision (rq_currentLevel r) Rejected now n x)\<lparr>rq_status := Rejected_req, rq_finalDecisionAt := Some now\<rparr>"
  note c = check_decide_nth[OF assms(1) Inr]
  show ?thesis
  proof (cases "decide_update r ?upd s")
    case None
    then show ?thesis using assms Inr by (simp add: rejectRequest_def)
  next
    case (Some p)
    then obtain r' s1 where p: "decide_update r ?upd s = Some (r', s1)" by (cases p) auto
    note e = decide_update_eq[OF assms(1) p, unfolded c(3), OF c(2,1)]
    obtain o2 s2 where rel: "releasePending (?upd r) (save_request i ?upd s) = (o2, s2)" by fastforce
    have "s' = s2" using assms(2) Inr p e rel by (simp add: rejectRequest_def split: option.splits)
    then show ?thesis
      using decide_release_inv[OF assms(1) c(1,2,3,5), of ?upd] rel by (simp add: same_core_def set_decision_def)
  qed
qed (use assms in \<open>simp add: rejectRequest_def\<close>)

lemma cancel_check_nth:
  assumes "leave_inv s" "cancel_check ws i user s = Inr r"
  shows "i < length (s_requests s)" "s_requests s ! i = r" "rq_id r = i" "rq_workspaceId r = ws" "rq_status r = Pending"
    and "rq_appliedBy r = user" "rq_currentLevel r \<le> 1"
  using assms(2) find_request_nth[OF assms(1)]
  by (auto simp: cancel_check_def split: option.splits if_splits)

lemma cancel_inv:
  assumes "leave_inv s" "cancelRequest ws i user now s = (out, s')"
  shows "leave_inv s'"
proof (cases "cancel_check ws i user s")
  case (Inr r)
  note c = cancel_check_nth[OF assms(1) Inr]
  let ?upd = "\<lambda>x. x\<lparr>rq_status := Cancelled, rq_finalDecisionAt := Some now\<rparr>"
  obtain o2 s2 where rel: "releasePending (?upd r) (save_request i ?upd s) = (o2, s2)" by fastforce
  have "s' = s2" using assms(2) Inr rel c(3) by (simp add: cancelRequest_def cancel_commit_def Let_def split: option.splits)
  then show ?thesis
    using decide_release_inv[OF assms(1) c(1,2,3,5), of ?upd] rel by (simp add: same_core_def)
qed (use assms in \<open>simp add: cancelRequest_def\<close>)

lemma withdraw_check_nth:
  assumes "leave_inv s" "withdraw_check ws i user s = Inr r"
  shows "i < length (s_requests s)" "s_requests s ! i = r" "rq_id r = i" "rq_workspaceId r = ws" "rq_status r = Approved_req"
    and "rq_appliedBy r = user"
    and "assertPayrollNotLocked s (rq_workspaceId r) (rq_teamMemberId r) (rq_fromDate r) (rq_toDate r) = None"
  using assms(2) find_request_nth[OF assms(1)]
  by (auto simp: withdraw_check_def split: option.splits if_splits)

lemma withdraw_inv:
  assumes "leave_inv s" "withdrawRequest ws i user now s = (out, s')"
  shows "leave_inv s'"
proof (cases "withdraw_check ws i user s")
  case (Inr r)
  note c = withdraw_check_nth[OF assms(1) Inr]
  let ?upd = "\<lambda>x. x\<lparr>rq_status := Withdrawn, rq_finalDecisionAt := Some now\<rparr>"
  have rs: "r \<in> set (s_requests s)" using c(1,2) by auto
  obtain s1 where rev: "reverseApprovedRequest r now s = (None, s1)" "s_requests s1 = s_requests s" "s_types s1 = s_types s"
      "balances_ok (s_ledger s1)" "\<And>b. stored_pending (s_ledger s1) b = stored_pending (s_ledger s) b"
    using inv_class[OF assms(1) rs] inv_parts(2)[OF assms(1)]
    by (fastforce simp: reverseApprovedRequest_def Let_def post_balances_ok reverse_balances_ok split: option.splits)
  have s': "s' = save_request i ?upd s1"
    using assms(2) Inr rev c(3) by (simp add: withdrawRequest_def withdraw_commit_def Let_def)
  have req: "s_requests s' = (s_requests s)[i := ?upd r]"
    using map_id_update[OF inv_parts(3)[OF assms(1)] c(1), of ?upd] by (simp add: s' save_request_def rev(2) c(2))
  show ?thesis
    by (rule inv_update[OF assms(1) c(1) c(2)[symmetric], of "?upd r"])
      (use rev req c(5) in \<open>auto simp: s' same_core_def may_become_def reserving_def\<close>)
qed (use assms in \<open>simp add: withdrawRequest_def\<close>)

section \<open>Applying keeps the invariant\<close>

lemma expand_quantities: "w \<in> set (expand_loop c e f fh lh hol wo sw) \<Longrightarrow> wd_quantity w = 1/2 \<or> wd_quantity w = 1"
proof (induction c e f fh lh hol wo sw rule: expand_loop.induct)
  case (1 c e f fh lh hol wo sw)
  then show ?case by (subst (asm) (2) expand_loop.simps) (auto split: if_splits)
qed

lemma expand_length: "length (expandWorkingDays a b fh lh hol wo sw) \<le> nat (day_of b - day_of a + 1)"
proof -
  have "length (concat (map (\<lambda>d. if P d then [f d] else []) ds)) \<le> length ds" for P f and ds :: "int list"
    by (induction ds) auto
  then show ?thesis
    unfolding expandWorkingDays_def utc_midnight_eq expand_loop_eq by (metis length_upto)
qed

lemma days_of_year: "getUTCFullYear a = getUTCFullYear b \<Longrightarrow> day_of b - day_of a < 366"
  using year_of_day_bounds[of "day_of a"] year_of_day_bounds[of "day_of b"]
  by (auto simp: getUTCFullYear_def day_from_year_Suc split: if_splits)

lemma decompose_halves:
  assumes "\<forall>w\<in>set ws. halves 2 (wd_quantity w) \<and> 0 \<le> wd_quantity w" "halves n paid" "0 \<le> paid"
  shows "halves (n + 2 * int (length ws)) (paidDays (decompose_loop ws av p l segs paid lwp))
    \<and> 0 \<le> paidDays (decompose_loop ws av p l segs paid lwp)"
  using assms
proof (induction ws arbitrary: n segs paid lwp)
  case (Cons w ws)
  have "halves (n + 2) (paid + wd_quantity w)" using Cons.prems by (intro halves_add) auto
  moreover have "halves (n + 2) paid" using Cons.prems(2) by (rule halves_mono) simp
  ultimately show ?case using Cons.IH[of "n + 2"] Cons.prems by (simp add: algebra_simps)
qed simp

lemma sum_halves:
  "\<forall>w\<in>set ws. halves 2 (wd_quantity w) \<and> 0 \<le> wd_quantity w \<Longrightarrow>
     halves (2 * int (length ws)) (sum_list (map wd_quantity ws)) \<and> 0 \<le> sum_list (map wd_quantity ws)"
proof (induction ws)
  case (Cons w ws)
  then have "halves (2 + 2 * int (length ws)) (wd_quantity w + sum_list (map wd_quantity ws))" by (intro halves_add) auto
  then show ?case using Cons by (simp add: algebra_simps)
qed simp

lemma find_by_id:
  assumes "distinct (map lt_id ts)" "lt \<in> set ts" shows "List.find (\<lambda>t. lt_id t = lt_id lt) ts = Some lt"
  using assms by (induction ts) (auto simp: image_iff)

lemma class_of_type:
  assumes "types_ok ts" "lt \<in> set ts"
  shows "class_of ts (lt_id lt) = Some (classifyLeaveType (code lt) (if mode (accrualRule lt) = No_accrual then ''none'' else ''accruing'') (isCompOff lt))"
  using find_by_id[of ts lt] assms by (simp add: class_of_def types_ok_def)

lemma lwp_primary_iff:
  assumes "types_ok ts" "lt \<in> set ts" "lt_workspaceId lt = ws"
  shows "map_option lt_id (List.find (\<lambda>t. lt_workspaceId t = ws \<and> code t = ''LWP'') ts) = Some (lt_id lt) \<longleftrightarrow> code lt = ''LWP''"
proof
  assume "map_option lt_id (List.find (\<lambda>t. lt_workspaceId t = ws \<and> code t = ''LWP'') ts) = Some (lt_id lt)"
  then obtain t where t: "List.find (\<lambda>t. lt_workspaceId t = ws \<and> code t = ''LWP'') ts = Some t" "lt_id t = lt_id lt" by auto
  have "inj_on lt_id (set ts)" using assms(1) by (simp add: types_ok_def distinct_map)
  then have "t = lt" by (rule inj_onD) (use find_Some_mem[OF t(1)] assms(2) t(2) in simp_all)
  then show "code lt = ''LWP''" using find_Some_mem[OF t(1)] by simp
next
  assume c: "code lt = ''LWP''"
  then obtain t where t: "List.find (\<lambda>t. lt_workspaceId t = ws \<and> code t = ''LWP'') ts = Some t"
    using assms(2,3) find_None_mem[of "\<lambda>t. lt_workspaceId t = ws \<and> code t = ''LWP''" ts] by fastforce
  have "t = lt" using find_Some_mem[OF t] c assms unfolding types_ok_def by blast
  then show "map_option lt_id (List.find (\<lambda>t. lt_workspaceId t = ws \<and> code t = ''LWP'') ts) = Some (lt_id lt)" using t by simp
qed

lemma charge_sound:
  assumes ts: "types_ok (s_types s)" "lt \<in> set (s_types s)" "lt_workspaceId lt = ws"
    and d: "decompose_request s ws m lt y days = Inr ch"
    and w: "\<forall>w\<in>set days. halves 2 (wd_quantity w) \<and> 0 \<le> wd_quantity w"
  shows "halves (2 * int (length days)) (ch_paidDays ch)" "0 \<le> ch_paidDays ch"
    and "ch_reservePaid ch \<and> ch_paidDays ch > 0 \<longleftrightarrow>
      (case class_of (s_types s) (lt_id lt) of None \<Rightarrow> False | Some c \<Rightarrow> cls_balanceTracked c) \<and> ch_paidDays ch > 0"
proof -
  note b = decompose_halves[OF w, of 0 0, simplified] sum_halves[OF w]
  show "halves (2 * int (length days)) (ch_paidDays ch)" "0 \<le> ch_paidDays ch"
    using d b by (auto simp: decompose_request_def Let_def decomposePaidLwp_def split: if_splits option.splits)
  show "ch_reservePaid ch \<and> ch_paidDays ch > 0 \<longleftrightarrow>
      (case class_of (s_types s) (lt_id lt) of None \<Rightarrow> False | Some c \<Rightarrow> cls_balanceTracked c) \<and> ch_paidDays ch > 0"
    using d unfolding class_of_type[OF ts(1,2)] decompose_request_def Let_def lwp_primary_iff[OF ts]
    by (auto simp: classifyLeaveType_def Let_def split: if_splits option.splits)
qed

lemma validate_apply_sound:
  assumes "validate_apply s inp = Inr a"
  shows "find_type s (ap_workspaceId inp) (ap_primaryLeaveTypeId inp) = Some (ac_type a)"
    and "find_member s (ap_workspaceId inp) (ap_teamMemberId inp) = Some (ac_member a)"
    and "ap_fromDate inp = Some (ac_from a)" "ap_toDate inp = Some (ac_to a)"
    and "ac_from a \<le> ac_to a" "getUTCFullYear (ac_from a) = getUTCFullYear (ac_to a)"
    and "assertPayrollNotLocked s (ap_workspaceId inp) (ap_teamMemberId inp) (ac_from a) (ac_to a) = None"
    and "overlapping_own s (ap_workspaceId inp) (ap_teamMemberId inp) (ac_from a) (ac_to a) = None"
    and "ac_days a = working_days_of s (ap_workspaceId inp) (ac_member a) (ac_from a) (ac_to a) (ap_firstDayHalf inp) (ap_lastDayHalf inp)"
    and "ac_days a \<noteq> []"
    and "decompose_request s (ap_workspaceId inp) (ap_teamMemberId inp) (ac_type a) (getUTCFullYear (ac_from a)) (ac_days a) = Inr (ac_charge a)"
  using assms unfolding validate_apply_def by (auto simp: Let_def split: option.splits if_splits sum.splits)

lemma inv_append:
  assumes inv: "leave_inv s" and r: "rq_id r = length (s_requests s)" "halves 1000 (rq_paidDays r)" "0 \<le> rq_paidDays r"
      "class_of (s_types s) (rq_primaryLeaveTypeId r) \<noteq> None" "\<And>q. q \<in> set (s_requests s) \<Longrightarrow> \<not> clash r q"
    and s': "s_types s' = s_types s" "s_requests s' = s_requests s @ [r]" "balances_ok (s_ledger s')"
    and pend: "\<And>b. stored_pending (s_ledger s') b = (if reserving (s_types s) r \<and> rq_paidDays r > 0 \<and> b = requestBucket r
       then jadd (stored_pending (s_ledger s) b) (rq_paidDays r) else stored_pending (s_ledger s) b)"
  shows "leave_inv s'"
proof -
  have "stored_pending (s_ledger s') b = reserved s' b" if len: "length (s_requests s') \<le> 2 ^ 40" for b
  proof -
    have len0: "length (s_requests s) \<le> 2 ^ 40" using len by (simp add: s')
    have "reserved s' b = reserved s b + weight (s_types s) b r" by (simp add: reserved_def s')
    moreover have "jadd (reserved s b) (rq_paidDays r) = reserved s b + rq_paidDays r"
      unfolding reserved_def by (rule pending_exact) (use inv_parts(4)[OF inv] len0 r in auto)
    ultimately show ?thesis
      using inv_parts(6)[OF inv len0, of b] r(3) unfolding pend by (auto simp: weight_def)
  qed
  moreover have "\<not> clash (s_requests s' ! a) (s_requests s' ! b)" if "a < length (s_requests s')" "b < a" for a b
    using that inv_parts(5)[OF inv, of a b] r(5) by (auto simp: s' nth_append less_Suc_eq)
  ultimately show ?thesis
    unfolding leave_inv_def using inv_parts(1,3,4)[OF inv] r s' by auto
qed

lemma working_days_bounds:
  assumes "getUTCFullYear a = getUTCFullYear b"
  shows "2 * int (length (working_days_of s ws mb a b fh lh)) \<le> 1000"
    and "\<forall>w\<in>set (working_days_of s ws mb a b fh lh). halves 2 (wd_quantity w) \<and> 0 \<le> wd_quantity w"
proof -
  show "2 * int (length (working_days_of s ws mb a b fh lh)) \<le> 1000"
    unfolding working_days_of_def
    using expand_length[of a b fh lh] days_of_year[OF assms] by (smt (verit) int_nat_eq of_nat_mono)
  show "\<forall>w\<in>set (working_days_of s ws mb a b fh lh). halves 2 (wd_quantity w) \<and> 0 \<le> wd_quantity w"
  proof
    fix w assume "w \<in> set (working_days_of s ws mb a b fh lh)"
    then have "wd_quantity w = 1/2 \<or> wd_quantity w = 1"
      unfolding working_days_of_def expandWorkingDays_def by (rule expand_quantities)
    moreover have "halves 2 (1/2)" "halves 2 1" by (simp_all add: halves_def)
    moreover have "(0::rat) \<le> 1/2" "(0::rat) \<le> 1" by simp_all
    ultimately show "halves 2 (wd_quantity w) \<and> 0 \<le> wd_quantity w" by metis
  qed
qed

lemma apply_inv:
  assumes inv: "leave_inv s" and ap: "applyForLeave inp now s = (out, s')" "\<And>c. out \<noteq> Inl (Comp_off_failed c)"
  shows "leave_inv s'"
proof (cases "validate_apply s inp")
  case (Inr a)
  note v = validate_apply_sound[OF Inr]
  define r where "r = new_request s inp a now"
  define rp where "rp = r\<lparr>rq_status := Pending\<rparr>"
  have lt: "ac_type a \<in> set (s_types s)" "lt_workspaceId (ac_type a) = ap_workspaceId inp"
    using find_Some_mem[OF v(1)[unfolded find_type_def]] by simp_all
  note wd = working_days_bounds[OF v(6), of s "ap_workspaceId inp" "ac_member a" "ap_firstDayHalf inp" "ap_lastDayHalf inp", folded v(9)]
  note ch = charge_sound[OF inv_parts(1)[OF inv] lt v(11) wd(2)]
  have rf: "rq_id r = length (s_requests s)" "rq_paidDays r = ch_paidDays (ac_charge a)" "rq_primaryLeaveTypeId r = lt_id (ac_type a)"
    "rq_workspaceId r = ap_workspaceId inp" "rq_teamMemberId r = ap_teamMemberId inp" "rq_fromDate r = ac_from a" "rq_toDate r = ac_to a"
    "rq_status r = (if rq_approvalChain r = [] then Approved_req else Pending)"
    by (simp_all add: r_def new_request_def Let_def)
  have cl: "\<not> clash rp q" if "q \<in> set (s_requests s)" for q
    using v(8) that rf unfolding overlapping_own_def find_None_mem by (auto simp: clash_def live_def rp_def)
  have res: "reserving (s_types s) rp \<and> rq_paidDays rp > 0 \<longleftrightarrow> ch_reservePaid (ac_charge a) \<and> rq_paidDays r > 0"
    using ch(3) rf by (auto simp: reserving_def rp_def)
  define s2 where "s2 = (if ch_reservePaid (ac_charge a) \<and> rq_paidDays r > 0
      then adjust_pending (requestBucket r) (rq_paidDays r) (s\<lparr>s_requests := s_requests s @ [r]\<rparr>) else s\<lparr>s_requests := s_requests s @ [r]\<rparr>)"
  define s2p where "s2p = s2\<lparr>s_requests := s_requests s @ [rp]\<rparr>"
  have s2f: "s_types s2 = s_types s" "s_requests s2 = s_requests s @ [r]" "balances_ok (s_ledger s2)"
    using inv_parts(2)[OF inv] by (auto simp: s2_def adjustPending_balances_ok)
  have inv2: "leave_inv s2p"
  proof (rule inv_append[OF inv, of rp])
    show "stored_pending (s_ledger s2p) b = (if reserving (s_types s) rp \<and> rq_paidDays rp > 0 \<and> b = requestBucket rp
       then jadd (stored_pending (s_ledger s) b) (rq_paidDays rp) else stored_pending (s_ledger s) b)" for b
      using res by (auto simp: s2p_def s2_def rp_def requestBucket_def)
  qed (use rf ch(1,2) wd(1) class_of_type[OF inv_parts(1)[OF inv] lt(1)] cl s2f in \<open>auto simp: rp_def s2p_def intro: halves_mono\<close>)
  have out: "(out, s') = (if rq_approvalChain r = [] then finalizeApprovedRequest r now s2 else (Inr r, s2))"
    using ap(1) unfolding applyForLeave_def Inr sum.case Let_def r_def[symmetric] s2_def[symmetric] by (rule sym)
  show ?thesis
  proof (cases "rq_approvalChain r = []")
    case False
    then have "rp = r" using rf by (simp add: rp_def)
    then have "s2p = s2\<lparr>s_requests := s_requests s2\<rparr>" by (simp only: s2p_def s2f)
    then show ?thesis using inv2 out False by simp
  next
    case True
    have i: "length (s_requests s) < length (s_requests s2p)" "s_requests s2p ! length (s_requests s) = rp"
        "rq_id rp = length (s_requests s)" "rq_status rp = Pending"
      using rf by (simp_all add: s2p_def rp_def)
    have req: "s_requests (save_request (length (s_requests s)) (\<lambda>_. r) s2p) = s_requests s2"
      unfolding save_request_update[OF inv2 i(1)] by (simp add: s2p_def s2f)
    have same: "save_request (length (s_requests s)) (\<lambda>_. r) s2p = s2"
      using req by (simp add: save_request_def s2p_def)
    have fin: "finalizeApprovedRequest r now s2 = (out, s')" using out True by simp
    have "loadPrimaryClass s2 r \<noteq> None"
      using loadPrimaryClass_class[of s2 r] class_of_type[OF inv_parts(1)[OF inv] lt(1)] s2f rf by auto
    then obtain r2 where o: "out = Inr r2" using finalize_error fin ap(2) by (cases out) blast+
    show ?thesis
      by (rule finalize_flip_inv[OF inv2 i, of "\<lambda>_. r"]) (use rf True fin same o in \<open>auto simp: same_core_def rp_def\<close>)
  qed
qed (use assms in \<open>simp add: applyForLeave_def\<close>)

end
