(* ===== verification/LeaveLifecycle.thy ===== *)
theory LeaveLifecycle
  imports LeaveRequests
begin

text \<open>
  The leave module as a transition system: one step is one handler run to completion, a
  ledger posting by another leave service, or any change to the collections the lifecycle
  only reads. The properties are invariants of the reachable states, the effect of errors,
  and what happens when two handlers interleave.
\<close>

inductive leave_step :: "leave_state \<Rightarrow> leave_state \<Rightarrow> bool" where
  apply_step: "applyForLeave inp now s = (out, s') \<Longrightarrow> \<forall>c. out \<noteq> Inl (Comp_off_failed c) \<Longrightarrow> leave_step s s'"
| approve_step: "approveRequest ws i user n now s = (out, s') \<Longrightarrow> \<forall>c. out \<noteq> Inl (Comp_off_failed c) \<Longrightarrow> leave_step s s'"
| reject_step: "rejectRequest ws i user n now s = (out, s') \<Longrightarrow> leave_step s s'"
| cancel_step: "cancelRequest ws i user now s = (out, s') \<Longrightarrow> leave_step s s'"
| withdraw_step: "withdrawRequest ws i user now s = (out, s') \<Longrightarrow> leave_step s s'"
| posting_step: "leave_step s (s\<lparr>s_ledger := post inp (s_ledger s)\<rparr>)"
| environment_step: "leave_step s (s\<lparr>s_members := ms, s_salaries := sal, s_holidays := hs, s_workspaces := wss,
     s_settings := st, s_delegations := dg\<rparr>)"

inductive_cases leave_stepE: "leave_step s s'"

definition initial_state :: "leave_state \<Rightarrow> bool" where
  "initial_state s \<longleftrightarrow> types_ok (s_types s) \<and> s_requests s = [] \<and> s_ledger s = empty_ledger_db"

inductive reachable :: "leave_state \<Rightarrow> bool" where
  start: "initial_state s \<Longrightarrow> reachable s"
| step: "reachable s \<Longrightarrow> leave_step s s' \<Longrightarrow> reachable s'"

section \<open>The invariant holds in every reachable state\<close>

lemma initial_inv: "initial_state s \<Longrightarrow> leave_inv s"
  by (simp add: initial_state_def leave_inv_def reserved_def stored_pending_def) (simp add: empty_ledger_db_def)

lemma step_inv: "leave_step s s' \<Longrightarrow> leave_inv s \<Longrightarrow> leave_inv s'"
proof (induction rule: leave_step.induct)
  case (posting_step s inp)
  then show ?case by (auto simp: leave_inv_def post_balances_ok reserved_def)
next
  case (environment_step s ms sal hs wss st dg)
  then show ?case by (simp add: leave_inv_def reserved_def)
qed (auto intro: apply_inv approve_inv reject_inv cancel_inv withdraw_inv)

lemma reachable_inv: "reachable s \<Longrightarrow> leave_inv s"
  by (induction rule: reachable.induct) (auto intro: initial_inv step_inv)

section \<open>What a step does to the rows\<close>

definition progress :: "leave_state \<Rightarrow> leave_state \<Rightarrow> bool" where
  "progress s s' \<longleftrightarrow> length (s_requests s) \<le> length (s_requests s')
     \<and> (\<forall>i<length (s_requests s). same_core (s_requests s ! i) (s_requests s' ! i)
          \<and> may_become (rq_status (s_requests s ! i)) (rq_status (s_requests s' ! i)))"

lemma same_core_refl [simp]: "same_core r r" by (simp add: same_core_def)
lemma may_become_refl [simp]: "may_become a a" by (simp add: may_become_def)

lemma progress_refl [simp]: "progress s s" by (simp add: progress_def)

lemma progress_update:
  "s_requests s' = (s_requests s)[i := q] \<Longrightarrow> same_core (s_requests s ! i) q \<Longrightarrow>
     may_become (rq_status (s_requests s ! i)) (rq_status q) \<Longrightarrow> progress s s'"
  by (cases "i < length (s_requests s)") (auto simp: progress_def nth_list_update)

lemma progress_append: "s_requests s' = s_requests s @ rs \<Longrightarrow> progress s s'"
  by (simp add: progress_def nth_append)

lemma finalize_rows:
  assumes ids: "map rq_id (s_requests s) = [0..<length (s_requests s)]" "i < length (s_requests s)"
    and r: "s_requests s ! i = r" "rq_id r = i" and fin: "finalizeApprovedRequest r now s = (out, s')"
  shows "\<exists>q. s_requests s' = (s_requests s)[i := q] \<and> same_core r q \<and> rq_status q = rq_status r"
proof (cases out)
  case (Inl e)
  then have "s_requests s' = s_requests s"
    using fin by (auto simp: finalizeApprovedRequest_def draw_balance_def Let_def split: option.splits if_splits sum.splits prod.splits)
  then show ?thesis using r list_update_id[of "s_requests s" i] by (intro exI[of _ r]) simp
next
  case (Inr r2)
  from fin[unfolded Inr] show ?thesis
  proof (cases rule: finalize_effect)
    case (1 lt cls)
    then show ?thesis using map_id_update[OF ids, of "\<lambda>_. r2"] r by auto
  qed
qed

lemma approve_progress:
  assumes inv: "leave_inv s" and ap: "approveRequest ws i user n now s = (out, s')"
  shows "progress s s'"
proof (cases "check_decide s ws i user now")
  case (Inr r)
  note c = check_decide_nth[OF inv Inr]
  have "progress s s'" if com: "approve_commit r now n s = (out, s')"
  proof -
    let ?upd = "\<lambda>x. if rq_currentLevel r \<ge> length (rq_approvalChain r)
             then (set_decision (rq_currentLevel r) Approved now n x)\<lparr>rq_status := Approved_req, rq_finalDecisionAt := Some now\<rparr>
             else (set_decision (rq_currentLevel r) Approved now n x)\<lparr>rq_currentLevel := rq_currentLevel r + 1\<rparr>"
    have core: "same_core r (?upd r)" "may_become Pending (rq_status (?upd r))"
      using c(5) by (simp_all add: same_core_def set_decision_def may_become_def)
    show ?thesis
    proof (cases "decide_update r ?upd s")
      case None
      then show ?thesis using com by (simp add: approve_commit_def Let_def)
    next
      case (Some p)
      then obtain r' s1 where p: "decide_update r ?upd s = Some (r', s1)" by (cases p) auto
      note e = decide_update_eq[OF inv p, unfolded c(3), OF c(2,1)]
      have s1: "s_requests s1 = (s_requests s)[i := ?upd r]" using save_request_update[OF inv c(1), of ?upd] e(2) c(2) by simp
      have out: "s' = s1 \<or> finalizeApprovedRequest (?upd r) now s1 = (out, s')"
        using com p e by (simp add: approve_commit_def Let_def split: if_splits)
      then show ?thesis
      proof
        assume "s' = s1"
        then show ?thesis using progress_update[OF s1] core c by simp
      next
        assume fin: "finalizeApprovedRequest (?upd r) now s1 = (out, s')"
        have id: "rq_id (?upd r) = i" using core(1) c(3) by (simp add: same_core_def)
        have ids: "map rq_id (s_requests s1) = [0..<length (s_requests s1)]"
          using inv_parts(3)[OF inv] c(1,2,3) id list_update_id[of "map rq_id (s_requests s)" i] unfolding s1 by (simp add: map_update)
        obtain q where q: "s_requests s' = (s_requests s1)[i := q]" "same_core (?upd r) q" "rq_status q = rq_status (?upd r)"
          using finalize_rows[OF ids _ _ id fin] c(1) s1 by auto
        have "s_requests s' = (s_requests s)[i := q]" using q(1) s1 by simp
        moreover have "same_core (s_requests s ! i) q" using q(2) core(1) c(2) by (simp add: same_core_def)
        ultimately show ?thesis by (rule progress_update) (use q(3) core(2) c(2,5) in simp)
      qed
    qed
  qed
  then show ?thesis using ap Inr by (auto simp: approveRequest_def split: if_splits option.splits)
qed (use ap in \<open>simp add: approveRequest_def\<close>)

lemma release_rows: "releasePending r s = (out, s') \<Longrightarrow> s_requests s' = s_requests s"
  by (auto simp: releasePending_def split: if_splits option.splits prod.splits)

lemma reject_progress:
  assumes inv: "leave_inv s" and rj: "rejectRequest ws i user n now s = (out, s')"
  shows "progress s s'"
proof (cases "check_decide s ws i user now")
  case (Inr r)
  let ?upd = "\<lambda>x. (set_decision (rq_currentLevel r) Rejected now n x)\<lparr>rq_status := Rejected_req, rq_finalDecisionAt := Some now\<rparr>"
  note c = check_decide_nth[OF inv Inr]
  show ?thesis
  proof (cases "decide_update r ?upd s")
    case None
    then show ?thesis using rj Inr by (simp add: rejectRequest_def)
  next
    case (Some p)
    then obtain r' s1 where p: "decide_update r ?upd s = Some (r', s1)" by (cases p) auto
    note e = decide_update_eq[OF inv p, unfolded c(3), OF c(2,1)]
    have "s_requests s' = s_requests s1"
      using rj Inr p release_rows by (fastforce simp: rejectRequest_def split: option.splits prod.splits)
    then show ?thesis
      using progress_update[of s' s i "?upd r"] save_request_update[OF inv c(1), of ?upd] e(2) c
      by (simp add: same_core_def set_decision_def may_become_def)
  qed
qed (use rj in \<open>simp add: rejectRequest_def\<close>)

lemma cancel_progress:
  assumes inv: "leave_inv s" and cn: "cancelRequest ws i user now s = (out, s')"
  shows "progress s s'"
proof (cases "cancel_check ws i user s")
  case (Inr r)
  note c = cancel_check_nth[OF inv Inr]
  let ?upd = "\<lambda>x. x\<lparr>rq_status := Cancelled, rq_finalDecisionAt := Some now\<rparr>"
  have "s_requests s' = s_requests (save_request i ?upd s)"
    using cn Inr release_rows c(3) by (fastforce simp: cancelRequest_def cancel_commit_def Let_def split: option.splits prod.splits)
  then show ?thesis
    using progress_update[of s' s i "?upd r"] save_request_update[OF inv c(1), of ?upd] c
    by (simp add: same_core_def may_become_def)
qed (use cn in \<open>simp add: cancelRequest_def\<close>)

lemma withdraw_progress:
  assumes inv: "leave_inv s" and wd: "withdrawRequest ws i user now s = (out, s')"
  shows "progress s s'"
proof (cases "withdraw_check ws i user s")
  case (Inr r)
  note c = withdraw_check_nth[OF inv Inr]
  let ?upd = "\<lambda>x. x\<lparr>rq_status := Withdrawn, rq_finalDecisionAt := Some now\<rparr>"
  obtain o1 s1 where rev: "reverseApprovedRequest r now s = (o1, s1)" by fastforce
  have r1: "s_requests s1 = s_requests s" using rev by (auto simp: reverseApprovedRequest_def Let_def split: option.splits)
  have "s_requests s' = s_requests s \<or> s_requests s' = (s_requests s)[i := ?upd r]"
    using wd Inr rev r1 c(1,2,3) map_id_update[OF inv_parts(3)[OF inv] c(1), of ?upd]
    by (auto simp: withdrawRequest_def withdraw_commit_def Let_def save_request_def split: option.splits)
  then show ?thesis
  proof
    assume "s_requests s' = (s_requests s)[i := ?upd r]"
    then show ?thesis by (rule progress_update) (use c in \<open>simp_all add: same_core_def may_become_def\<close>)
  qed (auto simp: progress_def)
qed (use wd in \<open>simp add: withdrawRequest_def\<close>)

lemma apply_progress:
  assumes inv: "leave_inv s" and ap: "applyForLeave inp now s = (out, s')"
  shows "progress s s'"
proof (cases "validate_apply s inp")
  case (Inr a)
  define r where "r = new_request s inp a now"
  define s2 where "s2 = (if ch_reservePaid (ac_charge a) \<and> rq_paidDays r > 0
      then adjust_pending (requestBucket r) (rq_paidDays r) (s\<lparr>s_requests := s_requests s @ [r]\<rparr>) else s\<lparr>s_requests := s_requests s @ [r]\<rparr>)"
  have rows: "s_requests s2 = s_requests s @ [r]" by (simp add: s2_def)
  have out: "(out, s') = (if rq_approvalChain r = [] then finalizeApprovedRequest r now s2 else (Inr r, s2))"
    using ap unfolding applyForLeave_def Inr sum.case Let_def r_def[symmetric] s2_def[symmetric] by (rule sym)
  have id: "rq_id r = length (s_requests s)" by (simp add: r_def new_request_def Let_def)
  show ?thesis
  proof (cases "rq_approvalChain r = []")
    case True
    then have fin: "finalizeApprovedRequest r now s2 = (out, s')" using out by simp
    have ids: "map rq_id (s_requests s2) = [0..<length (s_requests s2)]" using inv_parts(3)[OF inv] id by (simp add: rows)
    obtain q where "s_requests s' = (s_requests s2)[length (s_requests s) := q]"
      using finalize_rows[OF ids _ _ id fin] rows by auto
    then have "s_requests s' = s_requests s @ [q]" by (simp add: rows)
    then show ?thesis by (rule progress_append)
  next
    case False
    then show ?thesis using out rows by (auto intro: progress_append)
  qed
qed (use ap in \<open>simp add: applyForLeave_def\<close>)

lemma step_progress: "leave_step s s' \<Longrightarrow> leave_inv s \<Longrightarrow> progress s s'"
proof (induction rule: leave_step.induct)
  case (posting_step s inp)
  show ?case by (rule progress_append[of _ _ "[]"]) simp
next
  case (environment_step s ms sal hs wss st dg)
  show ?case by (rule progress_append[of _ _ "[]"]) simp
qed (auto intro: apply_progress approve_progress reject_progress cancel_progress withdraw_progress)

section \<open>Errors\<close>

lemma approve_error:
  assumes inv: "leave_inv s" and e: "approveRequest ws i user n now s = (Inl e, s')" and nc: "\<forall>c. e \<noteq> Comp_off_failed c"
  shows "s' = s"
proof (cases "check_decide s ws i user now")
  case (Inr r)
  note c = check_decide_nth[OF inv Inr]
  have rs: "r \<in> set (s_requests s)" using c(1,2) by auto
  have "s' = s" if com: "approve_commit r now n s = (Inl e, s')"
  proof (rule ccontr)
    assume ne: "s' \<noteq> s"
    let ?upd = "\<lambda>x. if rq_currentLevel r \<ge> length (rq_approvalChain r)
             then (set_decision (rq_currentLevel r) Approved now n x)\<lparr>rq_status := Approved_req, rq_finalDecisionAt := Some now\<rparr>
             else (set_decision (rq_currentLevel r) Approved now n x)\<lparr>rq_currentLevel := rq_currentLevel r + 1\<rparr>"
    have core: "same_core r (?upd r)" by (simp add: same_core_def set_decision_def)
    obtain r' s1 where p: "decide_update r ?upd s = Some (r', s1)"
      using com ne by (auto simp: approve_commit_def Let_def split: option.splits)
    note d = decide_update_eq[OF inv p, unfolded c(3), OF c(2,1)]
    have "finalizeApprovedRequest (?upd r) now s1 = (Inl e, s')"
      using com p d by (simp add: approve_commit_def Let_def split: if_splits)
    moreover have "loadPrimaryClass s1 (?upd r) \<noteq> None"
      using inv_class[OF inv rs] loadPrimaryClass_core[OF core] loadPrimaryClass_types[of s1 s] d(2) by simp
    ultimately show False using finalize_error nc by blast
  qed
  then show ?thesis using e Inr by (auto simp: approveRequest_def split: if_splits option.splits)
qed (use e in \<open>simp add: approveRequest_def\<close>)

lemma reject_error:
  assumes inv: "leave_inv s" and e: "rejectRequest ws i user n now s = (Inl e, s')"
  shows "s' = s"
proof (cases "check_decide s ws i user now")
  case (Inr r)
  let ?upd = "\<lambda>x. (set_decision (rq_currentLevel r) Rejected now n x)\<lparr>rq_status := Rejected_req, rq_finalDecisionAt := Some now\<rparr>"
  note c = check_decide_nth[OF inv Inr]
  have rs: "r \<in> set (s_requests s)" using c(1,2) by auto
  show ?thesis
  proof (cases "decide_update r ?upd s")
    case None
    then show ?thesis using e Inr by (simp add: rejectRequest_def)
  next
    case (Some p)
    then obtain r' s1 where p: "decide_update r ?upd s = Some (r', s1)" by (cases p) auto
    note d = decide_update_eq[OF inv p, unfolded c(3), OF c(2,1)]
    have core: "same_core r (?upd r)" by (simp add: same_core_def set_decision_def)
    have lc: "loadPrimaryClass s1 r' \<noteq> None"
      using inv_class[OF inv rs] loadPrimaryClass_core[OF core] loadPrimaryClass_types[of s1 s] d by simp
    obtain o2 s2 where rel: "releasePending r' s1 = (o2, s2)" by fastforce
    then have "o2 = None" using release_effect(1)[OF rel lc] by simp
    then show ?thesis using e Inr p rel by (simp add: rejectRequest_def)
  qed
qed (use e in \<open>simp add: rejectRequest_def\<close>)

lemma cancel_error:
  assumes inv: "leave_inv s" and e: "cancelRequest ws i user now s = (Inl e, s')"
  shows "s' = s"
proof (cases "cancel_check ws i user s")
  case (Inr r)
  note c = cancel_check_nth[OF inv Inr]
  let ?upd = "\<lambda>x. x\<lparr>rq_status := Cancelled, rq_finalDecisionAt := Some now\<rparr>"
  have rs: "r \<in> set (s_requests s)" using c(1,2) by auto
  have lc: "loadPrimaryClass (save_request i ?upd s) (?upd r) \<noteq> None"
    using inv_class[OF inv rs] by (simp add: loadPrimaryClass_def)
  obtain o2 s2 where rel: "releasePending (?upd r) (save_request i ?upd s) = (o2, s2)" by fastforce
  then have "o2 = None" using release_effect(1)[OF rel lc] by simp
  then show ?thesis using e Inr rel c(3) by (simp add: cancelRequest_def cancel_commit_def Let_def)
qed (use e in \<open>simp add: cancelRequest_def\<close>)

lemma withdraw_error:
  assumes inv: "leave_inv s" and e: "withdrawRequest ws i user now s = (Inl e, s')"
  shows "s' = s"
proof (cases "withdraw_check ws i user s")
  case (Inr r)
  note c = withdraw_check_nth[OF inv Inr]
  have "r \<in> set (s_requests s)" using c(1,2) by auto
  from inv_class[OF inv this] obtain s1 where "reverseApprovedRequest r now s = (None, s1)"
    by (auto simp: reverseApprovedRequest_def Let_def)
  then show ?thesis using e Inr by (simp add: withdrawRequest_def withdraw_commit_def Let_def)
qed (use e in \<open>simp add: withdrawRequest_def\<close>)

lemma apply_error:
  assumes inv: "leave_inv s" and e: "applyForLeave inp now s = (Inl e, s')" and nc: "\<forall>c. e \<noteq> Comp_off_failed c"
  shows "s' = s"
proof (cases "validate_apply s inp")
  case (Inr a)
  define r where "r = new_request s inp a now"
  define s2 where "s2 = (if ch_reservePaid (ac_charge a) \<and> rq_paidDays r > 0
      then adjust_pending (requestBucket r) (rq_paidDays r) (s\<lparr>s_requests := s_requests s @ [r]\<rparr>) else s\<lparr>s_requests := s_requests s @ [r]\<rparr>)"
  have out: "(Inl e, s') = (if rq_approvalChain r = [] then finalizeApprovedRequest r now s2 else (Inr r, s2))"
    using e unfolding applyForLeave_def Inr sum.case Let_def r_def[symmetric] s2_def[symmetric] by (rule sym)
  then have fin: "finalizeApprovedRequest r now s2 = (Inl e, s')" by (simp split: if_splits)
  have "ac_type a \<in> set (s_types s)"
    using find_Some_mem[OF validate_apply_sound(1)[OF Inr, unfolded find_type_def]] by simp
  then have "loadPrimaryClass s2 r \<noteq> None"
    using loadPrimaryClass_class[of s2 r] class_of_type[OF inv_parts(1)[OF inv]]
    by (auto simp: s2_def r_def new_request_def Let_def)
  then show ?thesis using finalize_error[OF fin] nc by blast
qed (use e in \<open>simp add: applyForLeave_def\<close>)

section \<open>Delegations\<close>

datatype delegation_error = Self_delegation | Invalid_delegation_dates | Starts_after_end | Window_clash
  | Delegation_not_found | Not_delegator | Already_revoked

definition createDelegation ::
  "string \<Rightarrow> string \<Rightarrow> string \<Rightarrow> date option \<Rightarrow> date option \<Rightarrow> delegation_row list \<Rightarrow> delegation_error + delegation_row list" where
  "createDelegation ws fromU toU startsOn endsOn rows =
     (if fromU = toU then Inl Self_delegation
      else case (startsOn, endsOn) of
        (Some a, Some b) \<Rightarrow>
          if a > b then Inl Starts_after_end
          else if list_ex (\<lambda>d. rangesOverlap a b (dg_startsOn d) (dg_endsOn d))
                 (filter (\<lambda>d. dg_workspaceId d = ws \<and> dg_fromUserId d = fromU \<and> dg_isActive d) rows)
          then Inl Window_clash
          else Inr (rows @ [\<lparr>dg_workspaceId = ws, dg_fromUserId = fromU, dg_toUserId = toU, dg_startsOn = a, dg_endsOn = b, dg_isActive = True\<rparr>])
      | _ \<Rightarrow> Inl Invalid_delegation_dates)"

definition revokeDelegation :: "string \<Rightarrow> nat \<Rightarrow> string \<Rightarrow> delegation_row list \<Rightarrow> delegation_error + delegation_row list" where
  \<comment> \<open>the row's id is its position\<close>
  "revokeDelegation ws i caller rows =
     (if i < length rows \<and> dg_workspaceId (rows ! i) = ws then
        (if dg_fromUserId (rows ! i) \<noteq> caller then Inl Not_delegator
         else if \<not> dg_isActive (rows ! i) then Inl Already_revoked
         else Inr (rows[i := (rows ! i)\<lparr>dg_isActive := False\<rparr>]))
      else Inl Delegation_not_found)"

definition one_window :: "delegation_row list \<Rightarrow> bool" where
  \<comment> \<open>active windows are not empty, and those of one delegator never overlap\<close>
  "one_window rows \<longleftrightarrow> (\<forall>d\<in>set rows. dg_startsOn d \<le> dg_endsOn d \<and> dg_fromUserId d \<noteq> dg_toUserId d)
     \<and> (\<forall>i<length rows. \<forall>j<i. dg_workspaceId (rows ! i) = dg_workspaceId (rows ! j) \<longrightarrow> dg_fromUserId (rows ! i) = dg_fromUserId (rows ! j)
        \<longrightarrow> dg_isActive (rows ! i) \<longrightarrow> dg_isActive (rows ! j)
        \<longrightarrow> \<not> rangesOverlap (dg_startsOn (rows ! i)) (dg_endsOn (rows ! i)) (dg_startsOn (rows ! j)) (dg_endsOn (rows ! j)))"

lemma create_one_window: "one_window rows \<Longrightarrow> createDelegation ws f t a b rows = Inr rows' \<Longrightarrow> one_window rows'"
  unfolding one_window_def createDelegation_def
  by (auto simp: nth_append less_Suc_eq list_ex_iff not_less split: if_splits option.splits)

lemma revoke_one_window:
  assumes "one_window rows" "revokeDelegation ws i c rows = Inr rows'"
  shows "one_window rows'"
proof -
  have i: "i < length rows" "rows' = rows[i := (rows ! i)\<lparr>dg_isActive := False\<rparr>]"
    using assms(2) by (simp_all add: revokeDelegation_def split: if_splits)
  have mem: "rows ! i \<in> set rows" using i(1) by simp
  define u where "u = (rows ! i)\<lparr>dg_isActive := False\<rparr>"
  have u: "dg_startsOn u = dg_startsOn (rows ! i)" "dg_endsOn u = dg_endsOn (rows ! i)" "dg_fromUserId u = dg_fromUserId (rows ! i)"
    "dg_toUserId u = dg_toUserId (rows ! i)" "\<not> dg_isActive u" by (simp_all add: u_def)
  note ow = assms(1)[unfolded one_window_def]
  have "dg_startsOn d \<le> dg_endsOn d \<and> dg_fromUserId d \<noteq> dg_toUserId d" if "d \<in> set rows'" for d
  proof -
    have "d = u \<or> d \<in> set rows" using that set_update_subset_insert[of rows i u] unfolding i(2) u_def[symmetric] by blast
    then show ?thesis using bspec[OF conjunct1[OF ow]] mem u by metis
  qed
  moreover have "\<not> rangesOverlap (dg_startsOn (rows' ! k)) (dg_endsOn (rows' ! k)) (dg_startsOn (rows' ! j)) (dg_endsOn (rows' ! j))"
    if "k < length rows'" "j < k" "dg_workspaceId (rows' ! k) = dg_workspaceId (rows' ! j)" "dg_fromUserId (rows' ! k) = dg_fromUserId (rows' ! j)"
      "dg_isActive (rows' ! k)" "dg_isActive (rows' ! j)" for k j
  proof -
    have "k \<noteq> i" "j \<noteq> i" using that(5,6) i by auto
    then have "rows' ! k = rows ! k" "rows' ! j = rows ! j" by (simp_all add: i(2))
    then show ?thesis using conjunct2[OF ow] that by (simp add: i(2))
  qed
  ultimately show ?thesis unfolding one_window_def by blast
qed

section \<open>Comp-off draws\<close>

lemma foldl_jadd_exact:
  assumes "\<forall>e\<in>set es. halves n (g e) \<and> 0 \<le> g e" "halves m x" "m + int (length es) * n \<le> 2 ^ 53" "0 \<le> n"
  shows "foldl (\<lambda>a e. jadd a (g e)) x es = x + sum_list (map g es)"
  using assms
proof (induction es arbitrary: x m)
  case (Cons e es)
  have h: "halves (m + n) (x + g e)" using Cons.prems by (intro halves_add) auto
  have le: "m + n + int (length es) * n \<le> 2 ^ 53" using Cons.prems(3) by (simp add: algebra_simps)
  have "m + n \<le> 2 ^ 53" using le Cons.prems(4) by (smt (verit) mult_nonneg_nonneg of_nat_0_le_iff)
  then have "jadd x (g e) = x + g e" unfolding jadd_def by (rule fl_halves[OF h])
  then show ?case using Cons.IH[of "m + n" "x + g e"] Cons.prems h le by simp
qed simp

text \<open>
  The guard of the final approval is exact: when the live lots cover the request, the draw
  that follows cannot fail.
\<close>

lemma guarded_draw_succeeds:
  assumes "lots_bounded n db" "halves n q" "0 < q" "n \<le> 2 ^ 53" "int (length (ledger db)) * n \<le> 2 ^ 53" "0 \<le> n"
    and "\<not> availableForConsumption ow now db < q"
  shows "\<exists>as db'. consumeCompOffFifo ow q now src db = Inr (as, db')"
proof -
  let ?lots = "map as_lot (lot_docs ow now db)"
  have lo: "lots_ok n ?lots" by (rule docs_lots_ok[OF assms(1)])
  have "length (filter (live_lot ow now) (ledger db)) \<le> length (ledger db)" by simp
  then have "int (length (filter (live_lot ow now) (ledger db))) * n \<le> int (length (ledger db)) * n"
    using assms(6) by (intro mult_right_mono) simp_all
  then have "availableForConsumption ow now db = sum_list (map lot_val (filter (live_lot ow now) (ledger db)))"
    unfolding availableForConsumption_def lot_val_def[symmetric]
    using foldl_jadd_exact[of "filter (live_lot ow now) (ledger db)" n lot_val 0 0] assms(1,5,6) by (simp add: lots_bounded_def)
  moreover have "sum_list (map lot_remaining ?lots) = sum_list (map lot_val (filter (live_lot ow now) (ledger db)))"
    by (simp add: o_def as_lot_def lot_val_def[symmetric] lot_docs_def sum_list_sort_key)
  ultimately have "q \<le> sum_list (map lot_remaining ?lots)" using assms(7) by simp
  then have "\<not> 0 < snd (fifo_loop ?lots q [])"
    using fifo_loop_sound[OF lo assms(2) less_imp_le[OF assms(3)] assms(4)] by auto
  then have "snd (allocateFifo ?lots q) = 0"
    using fifo_loop_sound[OF lo assms(2) less_imp_le[OF assms(3)] assms(4)] by (auto simp: allocateFifo_def split: prod.splits)
  then show ?thesis using assms(3) by (auto simp: consumeCompOffFifo_def Let_def split: prod.splits)
qed

text \<open>
  The auto-approved application has no such guard: when its draw fails, the request stays
  approved and its reservation stays on the balance.
\<close>

lemma validate_error: "validate_apply s inp \<noteq> Inl (Comp_off_failed c)"
  unfolding validate_apply_def
  by (auto simp: Let_def assertPayrollNotLocked_def decompose_request_def split: option.splits if_splits sum.splits)

lemma failed_auto_approval_leaks:
  assumes "leave_inv s" "applyForLeave inp now s = (Inl (Comp_off_failed c), s')"
  shows "\<exists>r. s_requests s' = s_requests s @ [r] \<and> rq_status r = Approved_req \<and> rq_paidDays r > 0
     \<and> stored_pending (s_ledger s') (requestBucket r) = jadd (stored_pending (s_ledger s) (requestBucket r)) (rq_paidDays r)"
proof -
  obtain a where a: "validate_apply s inp = Inr a"
    using assms(2) validate_error[of s inp] by (auto simp: applyForLeave_def split: sum.splits)
  define r where "r = new_request s inp a now"
  define s2 where "s2 = (if ch_reservePaid (ac_charge a) \<and> rq_paidDays r > 0
      then adjust_pending (requestBucket r) (rq_paidDays r) (s\<lparr>s_requests := s_requests s @ [r]\<rparr>) else s\<lparr>s_requests := s_requests s @ [r]\<rparr>)"
  have out: "(Inl (Comp_off_failed c), s') = (if rq_approvalChain r = [] then finalizeApprovedRequest r now s2 else (Inr r, s2))"
    using assms(2) unfolding applyForLeave_def a sum.case Let_def r_def[symmetric] s2_def[symmetric] by (rule sym)
  then have chain: "rq_approvalChain r = []" and fin: "finalizeApprovedRequest r now s2 = (Inl (Comp_off_failed c), s')"
    by (simp_all split: if_splits)
  obtain lt cls where cl: "loadPrimaryClass s2 r = Some (lt, cls)" "cls_balanceTracked cls" "rq_paidDays r > 0" "s' = s2"
    using fin by (auto simp: finalizeApprovedRequest_def draw_balance_def Let_def split: option.splits if_splits sum.splits prod.splits)
  note v = validate_apply_sound[OF a]
  have ty: "ac_type a \<in> set (s_types s)" "lt_workspaceId (ac_type a) = ap_workspaceId inp"
    using find_Some_mem[OF v(1)[unfolded find_type_def]] by simp_all
  note wd = working_days_bounds[OF v(6), of s "ap_workspaceId inp" "ac_member a" "ap_firstDayHalf inp" "ap_lastDayHalf inp", folded v(9)]
  have rf: "rq_paidDays r = ch_paidDays (ac_charge a)" "rq_primaryLeaveTypeId r = lt_id (ac_type a)" "rq_status r = Approved_req"
    using chain by (simp_all add: r_def new_request_def Let_def)
  have "class_of (s_types s) (lt_id (ac_type a)) = Some cls" using load_class[OF cl(1)] rf by (simp add: s2_def split: if_splits)
  then have "ch_reservePaid (ac_charge a)" using charge_sound(3)[OF inv_parts(1)[OF assms(1)] ty v(11) wd(2)] cl rf by simp
  then show ?thesis using cl rf by (intro exI[of _ r]) (simp add: s2_def)
qed

section \<open>A small workspace\<close>

definition lwp_type :: leave_type where
  "lwp_type = casual_leave\<lparr>lt_id := ''T0'', code := ''LWP''\<rparr>"

definition sample_world :: leave_state where
  "sample_world = \<lparr>s_ledger = empty_ledger_db, s_requests = [], s_events = [], s_types = [lwp_type, casual_leave],
     s_members = [\<lparr>mb_id = ''m'', mb_workspaceId = ''w'', mb_isDeleted = False, mb_isActive = True,
        mb_weeklyOff = Some [''Sunday''], mb_gender = None, mb_linkedUserId = Some ''u1'', mb_reportsTo = None\<rparr>],
     s_salaries = [], s_holidays = [], s_workspaces = [\<lparr>ws_id = ''w'', ws_ownerId = Some ''u0'', ws_selfLeaveApply = True\<rparr>],
     s_settings = (\<lambda>_. \<lparr>st_approverUserIds = [''u2''], st_sandwichLeave = False, st_maxAttachmentsPerRequest = 5\<rparr>),
     s_delegations = []\<rparr>"

definition sample_apply :: apply_input where
  \<comment> \<open>two days in January 2026, the second one a half day\<close>
  "sample_apply = \<lparr>ap_workspaceId = ''w'', ap_teamMemberId = ''m'', ap_appliedBy = ''u1'', ap_primaryLeaveTypeId = ''CL'',
     ap_fromDate = Some (1768176000000), ap_toDate = Some (1768262400000), ap_firstDayHalf = NoHalf,
     ap_lastDayHalf = FirstHalf, ap_attachments = 0, ap_selfScoped = True\<rparr>"

definition credited_world :: leave_state where
  "credited_world = sample_world\<lparr>s_ledger := post (sample_input Accrual 12) empty_ledger_db\<rparr>"

lemma sample_validate:
  "validate_apply credited_world sample_apply = Inr \<lparr>ac_type = casual_leave, ac_member = hd (s_members sample_world),
     ac_from = 1768176000000, ac_to = 1768262400000,
     ac_days = [\<lparr>wd_date = 1768176000000, wd_quantity = 1\<rparr>, \<lparr>wd_date = 1768262400000, wd_quantity = 1/2\<rparr>],
     ac_charge = \<lparr>ch_segments = [\<lparr>seg_date = 1768176000000, seg_leaveTypeId = ''CL'', seg_quantity = 1\<rparr>,
        \<lparr>seg_date = 1768262400000, seg_leaveTypeId = ''CL'', seg_quantity = 1/2\<rparr>],
        ch_paidDays = 3/2, ch_lwpDays = 0, ch_reservePaid = True\<rparr>\<rparr>"
proof -
  have days: "working_days_of credited_world ''w'' (hd (s_members sample_world)) (1768176000000) (1768262400000) NoHalf FirstHalf
      = [\<lparr>wd_date = 1768176000000, wd_quantity = 1\<rparr>, \<lparr>wd_date = 1768262400000, wd_quantity = 1/2\<rparr>]"
    by (simp add: working_days_of_def credited_world_def sample_world_def january_days)
  have nosal: "assertPayrollNotLocked credited_world ws m a b = None" for ws m a b
    by (simp add: assertPayrollNotLocked_def salary_in_def credited_world_def sample_world_def find_None_mem)
  have b: "\<lparr>b_workspaceId = ''w'', b_teamMemberId = ''m'', b_leaveTypeId = ''CL'', b_year = 2026\<rparr> = sample_bucket"
    by (simp add: sample_bucket_def)
  have av: "available_of (s_ledger credited_world) sample_bucket = 12" by (simp add: credited_world_def sample_available)
  have ty: "find_type credited_world ''w'' ''CL'' = Some casual_leave" "genderRule casual_leave = ''any''" "maxPerRequest casual_leave = None"
    "lt_id casual_leave = ''CL''"
    by (simp_all add: find_type_def credited_world_def sample_world_def lwp_type_def casual_leave_def)
  have mb: "find_member credited_world ''w'' ''m'' = Some (hd (s_members sample_world))"
    "find_workspace credited_world ''w'' = Some \<lparr>ws_id = ''w'', ws_ownerId = Some ''u0'', ws_selfLeaveApply = True\<rparr>"
    "overlapping_own credited_world ''w'' ''m'' a b = None" for a b
    by (simp_all add: find_member_def find_workspace_def overlapping_own_def credited_world_def sample_world_def)
  have ch: "decompose_request credited_world ''w'' ''m'' casual_leave 2026 [\<lparr>wd_date = x, wd_quantity = 1\<rparr>, \<lparr>wd_date = y, wd_quantity = 1/2\<rparr>]
     = Inr \<lparr>ch_segments = [\<lparr>seg_date = x, seg_leaveTypeId = ''CL'', seg_quantity = 1\<rparr>, \<lparr>seg_date = y, seg_leaveTypeId = ''CL'', seg_quantity = 1/2\<rparr>],
        ch_paidDays = 3/2, ch_lwpDays = 0, ch_reservePaid = True\<rparr>" for x y
  proof -
    have "List.find (\<lambda>t. lt_workspaceId t = ''w'' \<and> code t = ''LWP'') (s_types credited_world) = Some lwp_type" "lt_id lwp_type = ''T0''"
      by (simp_all add: credited_world_def sample_world_def lwp_type_def casual_leave_def)
    then show ?thesis
      by (simp add: decompose_request_def Let_def ty(4) b av decomposePaidLwp_def) (simp add: casual_leave_def)
  qed
  show ?thesis
    unfolding validate_apply_def
    by (simp add: sample_apply_def january_days ty mb nosal days ch Let_def)
qed

definition applied_world :: leave_state where
  "applied_world = snd (applyForLeave sample_apply 0 credited_world)"

definition sample_request :: leave_request where
  "sample_request = \<lparr>rq_id = 0, rq_workspaceId = ''w'', rq_teamMemberId = ''m'', rq_appliedBy = ''u1'',
     rq_primaryLeaveTypeId = ''CL'', rq_fromDate = 1768176000000, rq_toDate = 1768262400000,
     rq_firstDayHalf = NoHalf, rq_lastDayHalf = FirstHalf,
     rq_dayBreakdown = [\<lparr>seg_date = 1768176000000, seg_leaveTypeId = ''CL'', seg_quantity = 1\<rparr>,
        \<lparr>seg_date = 1768262400000, seg_leaveTypeId = ''CL'', seg_quantity = 1/2\<rparr>],
     rq_totalDays = 3/2, rq_paidDays = 3/2, rq_lwpDays = 0, rq_status = Pending,
     rq_approvalChain = [\<lparr>level = 1, approverUserId = ''u2'', decision = None, decidedAt = None, step_note = None\<rparr>],
     rq_currentLevel = 1, rq_finalDecisionAt = None, rq_isRetroactive = False, rq_salaryInvalidated = False,
     rq_ledgerEntryIds = [], rq_compOffConsumption = [], rq_attendanceEventIds = []\<rparr>"

lemma sample_applied:
  "applyForLeave sample_apply 0 credited_world = (Inr sample_request,
     adjust_pending sample_bucket (3/2) (credited_world\<lparr>s_requests := [sample_request]\<rparr>))"
proof -
  have chain: "approval_chain_for credited_world ''w'' (hd (s_members sample_world))
      = [\<lparr>level = 1, approverUserId = ''u2'', decision = None, decidedAt = None, step_note = None\<rparr>]"
    by (simp add: approval_chain_for_def credited_world_def sample_world_def resolveApproverChainForMember_def
        pickManagerApprover_def buildApproverChainExcludingSelf_def)
  have r: "new_request credited_world sample_apply \<lparr>ac_type = casual_leave, ac_member = hd (s_members sample_world),
     ac_from = 1768176000000, ac_to = 1768262400000,
     ac_days = [\<lparr>wd_date = 1768176000000, wd_quantity = 1\<rparr>, \<lparr>wd_date = 1768262400000, wd_quantity = 1/2\<rparr>],
     ac_charge = \<lparr>ch_segments = [\<lparr>seg_date = 1768176000000, seg_leaveTypeId = ''CL'', seg_quantity = 1\<rparr>,
        \<lparr>seg_date = 1768262400000, seg_leaveTypeId = ''CL'', seg_quantity = 1/2\<rparr>],
        ch_paidDays = 3/2, ch_lwpDays = 0, ch_reservePaid = True\<rparr>\<rparr> 0 = sample_request"
    using chain by (simp add: new_request_def Let_def sample_request_def sample_apply_def startOfUtcDay_def date_UTC_self january_days day_of_def ms_per_day_def)
      (simp add: credited_world_def sample_world_def casual_leave_def)
  have b: "requestBucket sample_request = sample_bucket"
    by (simp add: requestBucket_def sample_request_def sample_bucket_def january_days)
  show ?thesis
    unfolding applyForLeave_def sample_validate sum.case Let_def r b
    by (simp add: sample_request_def) (simp add: credited_world_def sample_world_def)
qed

lemma initial_sample: "initial_state sample_world"
  by (simp add: initial_state_def sample_world_def types_ok_def lwp_type_def casual_leave_def)

lemma reachable_credited: "reachable credited_world"
  unfolding credited_world_def
  using reachable.step[OF reachable.start[OF initial_sample] posting_step[of sample_world "sample_input Accrual 12"]]
  by (simp add: sample_world_def)

lemma reachable_applied: "reachable applied_world"
  unfolding applied_world_def
  by (rule reachable.step[OF reachable_credited apply_step[of sample_apply 0 _ "fst (applyForLeave sample_apply 0 credited_world)"]])
    (simp_all add: sample_applied)

lemma applied_world_requests: "s_requests applied_world = [sample_request]" "s_types applied_world = [lwp_type, casual_leave]"
  by (simp_all add: applied_world_def sample_applied) (simp_all add: credited_world_def sample_world_def)

lemma sample_class: "class_of [lwp_type, casual_leave] ''CL'' = Some \<lparr>cls_isLwp = False, cls_isCompOff = False,
   cls_isEntitlement = False, cls_balanceTracked = True\<rparr>"
  by (simp add: class_of_def lwp_type_def casual_leave_def classifyLeaveType_def)

lemma applied_world_reserved: "reserved applied_world sample_bucket = 3/2"
proof -
  have "rq_primaryLeaveTypeId sample_request = ''CL''" "rq_status sample_request = Pending" "rq_paidDays sample_request = 3/2"
    "requestBucket sample_request = sample_bucket"
    by (simp_all add: sample_request_def requestBucket_def sample_bucket_def january_days)
  then show ?thesis
    by (simp add: reserved_def applied_world_requests weight_def reserving_def sample_class)
qed

text \<open>A second application of the same member, to loss of pay on 20 January.\<close>

definition second_apply :: apply_input where
  "second_apply = sample_apply\<lparr>ap_primaryLeaveTypeId := ''T0'', ap_fromDate := Some (1768867200000),
     ap_toDate := Some (1768867200000), ap_lastDayHalf := NoHalf\<rparr>"

definition second_world :: leave_state where
  "second_world = snd (applyForLeave second_apply 0 applied_world)"

lemma second_applied:
  "\<exists>r. applyForLeave second_apply 0 applied_world = (Inr r, applied_world\<lparr>s_requests := [sample_request, r]\<rparr>)
     \<and> rq_fromDate r = 1768867200000 \<and> rq_toDate r = 1768867200000 \<and> rq_workspaceId r = ''w'' \<and> rq_teamMemberId r = ''m'' \<and> rq_status r = Pending"
proof -
  have aw: "s_holidays applied_world = []" "s_salaries applied_world = []" "s_members applied_world = s_members sample_world"
    "s_workspaces applied_world = s_workspaces sample_world" "s_settings applied_world = s_settings sample_world"
    by (simp_all add: applied_world_def sample_applied adjust_pending_def) (simp_all add: credited_world_def sample_world_def)
  have days: "working_days_of applied_world ''w'' (hd (s_members sample_world)) 1768867200000 1768867200000 NoHalf NoHalf
      = [\<lparr>wd_date = 1768867200000, wd_quantity = 1\<rparr>]"
    by (simp add: working_days_of_def aw) (simp add: sample_world_def january_days)
  have env: "assertPayrollNotLocked applied_world ws m a b = None" for ws m a b
    by (simp add: assertPayrollNotLocked_def salary_in_def aw find_None_mem)
  have ty: "find_type applied_world ''w'' ''T0'' = Some lwp_type" "genderRule lwp_type = ''any''" "maxPerRequest lwp_type = None"
    "lt_id lwp_type = ''T0''"
    by (simp_all add: find_type_def applied_world_requests lwp_type_def casual_leave_def)
  have mb: "find_member applied_world ''w'' ''m'' = Some (hd (s_members sample_world))"
    "find_workspace applied_world ''w'' = Some \<lparr>ws_id = ''w'', ws_ownerId = Some ''u0'', ws_selfLeaveApply = True\<rparr>"
    by (simp_all add: find_member_def find_workspace_def aw) (simp_all add: sample_world_def)
  have ov: "overlapping_own applied_world ''w'' ''m'' 1768867200000 1768867200000 = None"
    by (simp add: overlapping_own_def applied_world_requests sample_request_def)
  have st: "st_maxAttachmentsPerRequest (s_settings applied_world ''w'') = 5" by (simp add: aw) (simp add: sample_world_def)
  have "List.find (\<lambda>t. lt_workspaceId t = ''w'' \<and> code t = ''LWP'') (s_types applied_world) = Some lwp_type"
    by (simp add: applied_world_requests lwp_type_def casual_leave_def)
  then have ch: "decompose_request applied_world ''w'' ''m'' lwp_type y ds = Inr \<lparr>ch_segments = chargeAllToType ds ''T0'', ch_paidDays = 0,
      ch_lwpDays = sum_list (map wd_quantity ds), ch_reservePaid = False\<rparr>" for y ds
    by (simp add: decompose_request_def Let_def ty(4))
  have v: "\<exists>ch. validate_apply applied_world second_apply = Inr \<lparr>ac_type = lwp_type, ac_member = hd (s_members sample_world),
     ac_from = 1768867200000, ac_to = 1768867200000, ac_days = [\<lparr>wd_date = 1768867200000, wd_quantity = 1\<rparr>],
     ac_charge = ch\<rparr> \<and> ch_reservePaid ch = False"
    unfolding validate_apply_def
    by (simp add: second_apply_def sample_apply_def january_days ty mb env ov st days ch Let_def)
  have chain: "approval_chain_for applied_world ''w'' (hd (s_members sample_world)) \<noteq> []"
    by (simp add: approval_chain_for_def aw)
      (simp add: sample_world_def resolveApproverChainForMember_def pickManagerApprover_def buildApproverChainExcludingSelf_def)
  show ?thesis using v chain
    by (auto simp: applyForLeave_def Let_def new_request_def second_apply_def sample_apply_def applied_world_requests)
qed

lemma reachable_second: "reachable second_world"
proof -
  obtain r where "applyForLeave second_apply 0 applied_world = (Inr r, second_world)"
    using second_applied by (auto simp: second_world_def)
  then show ?thesis by (intro reachable.step[OF reachable_applied apply_step]) auto
qed

lemma second_world_requests: "\<exists>r. s_requests second_world = [sample_request, r] \<and> rq_fromDate r = 1768867200000
   \<and> rq_toDate r = 1768867200000 \<and> rq_workspaceId r = ''w'' \<and> rq_teamMemberId r = ''m'' \<and> rq_status r = Pending"
  using second_applied by (auto simp: second_world_def)

section \<open>Properties\<close>



text \<open>
  C13. No double booking: in every reachable state a member's pending and approved requests
  cover pairwise disjoint date ranges.
\<close>

theorem no_overlapping_leave:
  assumes "reachable s" "i < length (s_requests s)" "j < length (s_requests s)" "i \<noteq> j"
    and "rq_workspaceId (s_requests s ! i) = rq_workspaceId (s_requests s ! j)"
    and "rq_teamMemberId (s_requests s ! i) = rq_teamMemberId (s_requests s ! j)"
    and "rq_status (s_requests s ! i) \<in> {Pending, Approved_req}" "rq_status (s_requests s ! j) \<in> {Pending, Approved_req}"
  shows "rq_toDate (s_requests s ! i) < rq_fromDate (s_requests s ! j) \<or> rq_toDate (s_requests s ! j) < rq_fromDate (s_requests s ! i)"
proof -
  note inv = reachable_inv[OF assms(1)]
  have "\<not> clash (s_requests s ! i) (s_requests s ! j) \<or> \<not> clash (s_requests s ! j) (s_requests s ! i)"
    using inv_parts(5)[OF inv, of i j] inv_parts(5)[OF inv, of j i] assms(2-4) by (cases "i < j") auto
  then show ?thesis using assms(5-8) by (auto simp: clash_def live_def)
qed

theorem no_overlapping_leave_witness:
  "rq_toDate (s_requests second_world ! 0) < rq_fromDate (s_requests second_world ! 1)"
proof -
  obtain r where r: "s_requests second_world = [sample_request, r]" "rq_fromDate r = 1768867200000" "rq_toDate r = 1768867200000"
    "rq_workspaceId r = ''w''" "rq_teamMemberId r = ''m''" "rq_status r = Pending" using second_world_requests by blast
  have p: "rq_toDate sample_request = 1768262400000" "rq_fromDate sample_request = 1768176000000"
    "rq_workspaceId sample_request = ''w''" "rq_teamMemberId sample_request = ''m''" "rq_status sample_request = Pending"
    by (simp_all add: sample_request_def)
  from no_overlapping_leave[OF reachable_second, of 0 1] show ?thesis by (simp add: r p)
qed

text \<open>
  C23. The life of a request: a step changes the status of an existing request only from
  pending to approved, rejected or cancelled, or from approved to withdrawn; rejected,
  cancelled and withdrawn are final, no request disappears, and its member, dates, days and
  paid / unpaid split never change.
\<close>

theorem request_lifecycle:
  assumes "reachable s" "leave_step s s'" "i < length (s_requests s)"
  shows "i < length (s_requests s') \<and> same_core (s_requests s ! i) (s_requests s' ! i)
    \<and> (rq_status (s_requests s' ! i) = rq_status (s_requests s ! i)
       \<or> rq_status (s_requests s ! i) = Pending \<and> rq_status (s_requests s' ! i) \<in> {Approved_req, Rejected_req, Cancelled}
       \<or> rq_status (s_requests s ! i) = Approved_req \<and> rq_status (s_requests s' ! i) = Withdrawn)"
  using step_progress[OF assms(2) reachable_inv[OF assms(1)]] assms(3)
  by (auto simp: progress_def may_become_def)

theorem request_lifecycle_witness:
  "rq_status (s_requests second_world ! 0) = Pending"
proof -
  have "leave_step applied_world second_world"
    by (rule apply_step[of second_apply 0 _ "fst (applyForLeave second_apply 0 applied_world)"])
      (use second_applied in \<open>auto simp: second_world_def\<close>)
  from request_lifecycle[OF reachable_applied this, of 0] show ?thesis
    using second_world_requests by (auto simp: applied_world_requests sample_request_def)
qed

text \<open>
  C35. A handler that throws leaves nothing behind: in a reachable state every exception of
  apply, approve, reject, cancel and withdraw returns with the collections unchanged; the one
  exception is a comp-off draw that fails after the approval was written.
\<close>

theorem handler_errors_are_atomic:
  assumes "reachable s" "\<forall>c. e \<noteq> Comp_off_failed c"
  shows "(applyForLeave inp now s = (Inl e, s') \<longrightarrow> s' = s)
    \<and> (approveRequest ws i user n now s = (Inl e, s') \<longrightarrow> s' = s)
    \<and> (rejectRequest ws i user n now s = (Inl e, s') \<longrightarrow> s' = s)
    \<and> (cancelRequest ws i user now s = (Inl e, s') \<longrightarrow> s' = s)
    \<and> (withdrawRequest ws i user now s = (Inl e, s') \<longrightarrow> s' = s)"
  using reachable_inv[OF assms(1)] assms(2)
  by (auto dest: apply_error approve_error reject_error cancel_error withdraw_error)

theorem handler_errors_are_atomic_witness:
  "cancelRequest ''w'' 0 ''u2'' 0 applied_world = (Inl Not_applicant, applied_world)"
proof -
  have "fst (cancelRequest ''w'' 0 ''u2'' 0 applied_world) = Inl Not_applicant"
    by (simp add: cancelRequest_def cancel_check_def find_request_def applied_world_requests sample_request_def)
  then have c: "cancelRequest ''w'' 0 ''u2'' 0 applied_world = (Inl Not_applicant, snd (cancelRequest ''w'' 0 ''u2'' 0 applied_world))"
    by (metis prod.collapse)
  have "\<forall>c. Not_applicant \<noteq> Comp_off_failed c" by simp
  from handler_errors_are_atomic[OF reachable_applied this] c show ?thesis by metis
qed



text \<open>
  A locked payroll month is never touched: when an application, a final approval or a
  withdrawal succeeds, no calendar month of the leave had a locked salary of the member.
\<close>

theorem locked_months_untouched:
  fixes s
  defines "free r \<equiv> \<forall>my\<in>set (affectedMonths (rq_fromDate r) (rq_toDate r)). \<not> salary_in s (rq_workspaceId r) (rq_teamMemberId r) True my"
  assumes "reachable s"
  shows "(applyForLeave inp now s = (Inr r, s') \<longrightarrow> free r)
    \<and> (approveRequest ws i user n now s = (Inr r, s') \<and> rq_status r = Approved_req \<longrightarrow> free r)
    \<and> (withdrawRequest ws i user now s = (Inr r, s') \<longrightarrow> free r)"
proof -
  note inv = reachable_inv[OF assms(2)]
  have core: "free r" if "assertPayrollNotLocked s (rq_workspaceId q) (rq_teamMemberId q) (rq_fromDate q) (rq_toDate q) = None" "same_core q r" for q
    using that by (auto simp: free_def assertPayrollNotLocked_def find_None_mem same_core_def)
  have 1: "free r" if ap: "applyForLeave inp now s = (Inr r, s')"
  proof -
    obtain a where a: "validate_apply s inp = Inr a" using ap by (auto simp: applyForLeave_def split: sum.splits)
    have "same_core (new_request s inp a now) r"
      using ap a by (auto simp: applyForLeave_def Let_def elim!: finalize_effect split: if_splits)
    then show ?thesis
      using validate_apply_sound(7)[OF a] by (intro core) (auto simp: new_request_def Let_def)
  qed
  have 2: "free r" if ap: "approveRequest ws i user n now s = (Inr r, s')" and st: "rq_status r = Approved_req"
  proof -
    obtain q where q: "check_decide s ws i user now = Inr q" using ap by (auto simp: approveRequest_def split: sum.splits)
    note c = check_decide_nth[OF inv q]
    have com: "approve_commit q now n s = (Inr r, s')"
      using ap q by (auto simp: approveRequest_def split: if_splits option.splits)
    have final: "rq_currentLevel q \<ge> length (rq_approvalChain q)"
    proof (rule ccontr)
      assume "\<not> rq_currentLevel q \<ge> length (rq_approvalChain q)"
      then obtain f where f: "decide_update q f s = Some (r, s')" "\<And>x. rq_status (f x) = rq_status x"
        using com by (fastforce simp: approve_commit_def Let_def set_decision_def split: option.splits)
      then have "r = f q" using decide_update_eq(1)[OF inv f(1), unfolded c(3), OF c(2,1)] by simp
      then show False using f(2) st c(5) by simp
    qed
    obtain f r1 s1 where f: "decide_update q f s = Some (r1, s1)" "finalizeApprovedRequest r1 now s1 = (Inr r, s')" "\<And>x. same_core x (f x)"
      using com final by (fastforce simp: approve_commit_def Let_def set_decision_def same_core_def split: option.splits)
    have "r1 = f q" using decide_update_eq(1)[OF inv f(1), unfolded c(3), OF c(2,1)] by simp
    moreover have "same_core r1 r" using f(2) by (auto elim!: finalize_effect)
    ultimately have "same_core q r" using f(3)[of q] by (simp add: same_core_def)
    moreover have "assertPayrollNotLocked s (rq_workspaceId q) (rq_teamMemberId q) (rq_fromDate q) (rq_toDate q) = None"
      using ap q final by (auto simp: approveRequest_def split: option.splits)
    ultimately show ?thesis by (rule core[rotated])
  qed
  have 3: "free r" if wd: "withdrawRequest ws i user now s = (Inr r, s')"
  proof -
    obtain q where q: "withdraw_check ws i user s = Inr q" using wd by (auto simp: withdrawRequest_def split: sum.splits)
    have "same_core q r"
      using wd q by (auto simp: withdrawRequest_def withdraw_commit_def Let_def same_core_def split: option.splits prod.splits)
    then show ?thesis using withdraw_check_nth(7)[OF inv q] by (intro core)
  qed
  from 1 2 3 show ?thesis by blast
qed

theorem locked_months_untouched_witness:
  "\<not> salary_in credited_world ''w'' ''m'' True (1, 2026)"
proof -
  have "affectedMonths 1768176000000 1768262400000 = [(1, 2026)]" by code_simp
  then show ?thesis
    using locked_months_untouched[OF reachable_credited, of sample_apply 0 sample_request] sample_applied
    by (auto simp: sample_request_def)
qed

text \<open>
  Who may decide: approve and reject let a caller act exactly on a pending request whose
  current-level approver is the caller, or has an active delegation to the caller covering
  the day. Nothing else is asked: an applicant who holds the approver's delegation decides
  their own request.
\<close>

theorem who_may_decide:
  "check_decide s ws i user now = Inr r \<longleftrightarrow>
     find_request s ws i = Some r \<and> rq_status r = Pending
     \<and> (case current_step r of None \<Rightarrow> False
        | Some st \<Rightarrow> approverUserId st = user
            \<or> list_ex (\<lambda>d. dg_workspaceId d = ws \<and> dg_fromUserId d = approverUserId st \<and> dg_toUserId d = user
                \<and> dg_isActive d \<and> dg_startsOn d \<le> startOfUtcDay now \<and> startOfUtcDay now \<le> dg_endsOn d) (s_delegations s))"
  by (auto simp: check_decide_def canActAsApprover_def split: option.splits if_splits)

text \<open>
  C24. Cancelling races with approving: the cancellation checks the row it read and saves
  unconditionally. If the final approval of a reserved request runs between its check and
  its save, the request ends cancelled, the reservation is released a second time, so that
  the stored pending days fall short of the outstanding reservations by the paid days, and
  the usage the approval posted stays in the ledger.
\<close>

theorem cancel_approve_race:
  fixes later
  assumes "reachable s" "length (s_requests s) \<le> 2 ^ 40"
    and "cancel_check ws i applicant s = Inr r" "reserving (s_types s) r" "0 < rq_paidDays r"
    and "approveRequest ws i approver n now s = (Inr r', s1)" "rq_status r' = Approved_req"
  defines "s2 \<equiv> snd (cancel_commit r later s1)"
  shows "rq_status (s_requests s2 ! i) = Cancelled
    \<and> stored_pending (s_ledger s2) (requestBucket r) = reserved s2 (requestBucket r) - rq_paidDays r
    \<and> ledger (s_ledger s2) = ledger (s_ledger s1)"
proof -
  note inv = reachable_inv[OF assms(1)]
  note c = cancel_check_nth[OF inv assms(3)]
  have st: "leave_step s s1" by (rule approve_step[OF assms(6)]) simp
  note inv1 = step_inv[OF st inv]
  have pr: "progress s s1" by (rule step_progress[OF st inv])
  have i1: "i < length (s_requests s1)" "same_core r (s_requests s1 ! i)" using pr c(1,2) by (auto simp: progress_def)
  let ?upd = "\<lambda>x. x\<lparr>rq_status := Cancelled, rq_finalDecisionAt := Some later\<rparr>"
  have r': "s_requests s1 ! i = r' \<and> length (s_requests s1) = length (s_requests s) \<and> s_types s1 = s_types s"
  proof -
    obtain q where q: "check_decide s ws i approver now = Inr q" using assms(6) by (auto simp: approveRequest_def split: sum.splits)
    note cq = check_decide_nth[OF inv q]
    have com: "approve_commit q now n s = (Inr r', s1)"
      using assms(6) q by (auto simp: approveRequest_def split: if_splits option.splits)
    define f where "f = (\<lambda>x. if rq_currentLevel q \<ge> length (rq_approvalChain q)
             then (set_decision (rq_currentLevel q) Approved now n x)\<lparr>rq_status := Approved_req, rq_finalDecisionAt := Some now\<rparr>
             else (set_decision (rq_currentLevel q) Approved now n x)\<lparr>rq_currentLevel := rq_currentLevel q + 1\<rparr>)"
    obtain r1 t where t: "decide_update q f s = Some (r1, t)"
        "(if rq_currentLevel q \<ge> length (rq_approvalChain q) then finalizeApprovedRequest r1 now t else (Inr r1, t)) = (Inr r', s1)"
      using com unfolding approve_commit_def Let_def f_def[symmetric] by (auto split: option.splits)
    note e = decide_update_eq[OF inv t(1), unfolded cq(3), OF cq(2,1)]
    have rows: "s_requests t = (s_requests s)[i := f q]" "s_types t = s_types s"
      using save_request_update[OF inv cq(1), of f] e(2) cq(2) by simp_all
    have idf: "rq_id (f q) = i" using cq(3) by (simp add: f_def set_decision_def)
    have ids: "map rq_id (s_requests t) = [0..<length (s_requests t)]"
      using inv_parts(3)[OF inv] cq(1,2,3) idf list_update_id[of "map rq_id (s_requests s)" i] unfolding rows by (simp add: map_update)
    show ?thesis
    proof (cases "rq_currentLevel q \<ge> length (rq_approvalChain q)")
      case False
      then show ?thesis using t(2) e(1) rows cq(1) by simp
    next
      case True
      then have "finalizeApprovedRequest (f q) now t = (Inr r', s1)" using t(2) e(1) by simp
      then show ?thesis
      proof (cases rule: finalize_effect)
        case (1 lt cls)
        then show ?thesis using map_id_update[OF ids, of i "\<lambda>_. r'"] cq(1) rows idf by simp
      qed
    qed
  qed
  have len1: "length (s_requests s1) \<le> 2 ^ 40" using r' assms(2) by simp
  obtain lt cls where lc: "loadPrimaryClass s1 (?upd r) = Some (lt, cls)" "cls_balanceTracked cls"
  proof -
    have "map_option snd (loadPrimaryClass s1 (?upd r)) = class_of (s_types s) (rq_primaryLeaveTypeId r)"
      using loadPrimaryClass_class[of s1 "?upd r"] r' by simp
    then show thesis using assms(4) that by (auto simp: reserving_def split: option.splits)
  qed
  have s2: "s2 = adjust_pending (requestBucket r) (- rq_paidDays r) (save_request i ?upd s1)"
    using lc assms(5) c(3) loadPrimaryClass_types[of "save_request i ?upd s1" s1 "?upd r"]
    by (simp add: s2_def cancel_commit_def Let_def releasePending_def requestBucket_def)
  have rows2: "s_requests s2 = (s_requests s1)[i := ?upd (s_requests s1 ! i)]"
    using save_request_update[OF inv1 i1(1), of ?upd] by (simp add: s2)
  have res: "reserved s2 b = reserved s1 b" for b
  proof -
    have "weight (s_types s1) b (s_requests s1 ! i) = 0" "weight (s_types s1) b (?upd (s_requests s1 ! i)) = 0"
      using r' assms(7) by (simp_all add: weight_def reserving_def)
    then show ?thesis using i1(1) by (simp add: reserved_def rows2 sum_list_update_group) (simp add: s2)
  qed
  have "jadd (reserved s1 (requestBucket r)) (- rq_paidDays r) = reserved s1 (requestBucket r) + (- rq_paidDays r)"
    unfolding reserved_def by (rule pending_exact) (use inv_parts(4)[OF inv1] len1 inv_parts(4)[OF inv, of r] c(1,2) in auto)
  then have "stored_pending (s_ledger s2) (requestBucket r) = reserved s2 (requestBucket r) - rq_paidDays r"
    using inv_parts(6)[OF inv1 len1, of "requestBucket r"] by (simp add: s2 res[unfolded s2])
  moreover have "rq_status (s_requests s2 ! i) = Cancelled" using i1(1) by (simp add: rows2)
  moreover have "ledger (s_ledger s2) = ledger (s_ledger s1)"
    by (simp add: s2 adjustPending_def Let_def)
  ultimately show ?thesis by blast
qed

lemma sample_approved: "\<exists>r' s1. approveRequest ''w'' 0 ''u2'' None 0 applied_world = (Inr r', s1) \<and> rq_status r' = Approved_req"
proof -
  have f: "find_request applied_world ''w'' 0 = Some sample_request"
    by (simp add: find_request_def applied_world_requests sample_request_def)
  have r: "rq_status sample_request = Pending" "rq_currentLevel sample_request = 1" "rq_id sample_request = 0" "rq_workspaceId sample_request = ''w''"
    "length (rq_approvalChain sample_request) = 1" "approverUserId (rq_approvalChain sample_request ! 0) = ''u2''"
    "rq_primaryLeaveTypeId sample_request = ''CL''"
    by (simp_all add: sample_request_def)
  have d: "check_decide applied_world ''w'' 0 ''u2'' 0 = Inr sample_request"
    by (simp add: check_decide_def f r current_step_def canActAsApprover_def)
  have l: "loadPrimaryClass s q = Some (casual_leave, \<lparr>cls_isLwp = False, cls_isCompOff = False, cls_isEntitlement = False, cls_balanceTracked = True\<rparr>)"
    if "s_types s = [lwp_type, casual_leave]" "rq_primaryLeaveTypeId q = ''CL''" for s q
    using that by (simp add: loadPrimaryClass_def lwp_type_def casual_leave_def classifyLeaveType_def)
  have g: "assertConsumable applied_world sample_request 0 = None"
    by (simp add: assertConsumable_def l applied_world_requests r)
  have "s_salaries applied_world = []"
    by (simp add: applied_world_def sample_applied adjust_pending_def) (simp add: credited_world_def sample_world_def)
  then have p: "assertPayrollNotLocked applied_world ws m a b = None" for ws m a b
    by (simp add: assertPayrollNotLocked_def salary_in_def find_None_mem)
  show ?thesis
    by (simp add: approveRequest_def d g p r approve_commit_def Let_def decide_update_def f finalizeApprovedRequest_def
        l applied_world_requests set_decision_def draw_balance_def)
qed

theorem cancel_approve_race_witness:
  "\<exists>r' s1. approveRequest ''w'' 0 ''u2'' None 0 applied_world = (Inr r', s1)
     \<and> rq_status (s_requests (snd (cancel_commit sample_request 0 s1)) ! 0) = Cancelled"
proof -
  obtain r' s1 where a: "approveRequest ''w'' 0 ''u2'' None 0 applied_world = (Inr r', s1)" "rq_status r' = Approved_req"
    using sample_approved by blast
  have c: "cancel_check ''w'' 0 ''u1'' applied_world = Inr sample_request"
    by (simp add: cancel_check_def find_request_def applied_world_requests sample_request_def)
  have r: "reserving (s_types applied_world) sample_request" "0 < rq_paidDays sample_request"
    by (simp_all add: reserving_def applied_world_requests sample_request_def sample_class)
  have "length (s_requests applied_world) \<le> 2 ^ 40" by (simp add: applied_world_requests)
  from cancel_approve_race[OF reachable_applied this c r a] a(1) show ?thesis by blast
qed

end
