(* ===== verification/RbacRegistry.thy ===== *)
theory RbacRegistry
  imports JsString
begin

text \<open>
  The permission registry, \<open>rbac/permission-registry.ts\<close>: the catalogue of every grantable
  permission as data, the set of leaf paths derived from it, the lookup of a node by its dotted
  path, and the prerequisites of an action path (\<open>rbac/dep-resolver.ts\<close>).

  An optional field of a node is read by the source only through \<open>?? []\<close> or a truth test, so an
  absent list is the empty list and an absent flag is \<open>False\<close>.  A missing node is \<open>None\<close>.
\<close>

section \<open>Scopes\<close>

datatype perm_scope = Self_scope | All_scope

text \<open>\<open>SCOPE_RANK\<close> orders the scopes; the comparison operators are the ones of this order.\<close>

definition SCOPE_RANK :: "perm_scope \<Rightarrow> nat" where
  "SCOPE_RANK s = (case s of Self_scope \<Rightarrow> 0 | All_scope \<Rightarrow> 1)"

instantiation perm_scope :: linorder
begin

definition less_eq_perm_scope :: "perm_scope \<Rightarrow> perm_scope \<Rightarrow> bool" where
  "less_eq_perm_scope a b = (SCOPE_RANK a \<le> SCOPE_RANK b)"

definition less_perm_scope :: "perm_scope \<Rightarrow> perm_scope \<Rightarrow> bool" where
  "less_perm_scope a b = (SCOPE_RANK a < SCOPE_RANK b)"

instance
  by standard (auto simp: less_eq_perm_scope_def less_perm_scope_def SCOPE_RANK_def split: perm_scope.splits)

end

lemma scope_order [simp]:
  "Self_scope \<le> s" "s \<le> All_scope" "(s < All_scope) = (s = Self_scope)" "(All_scope \<le> s) = (s = All_scope)"
  "\<not> s < Self_scope"
  by (cases s; simp add: less_eq_perm_scope_def less_perm_scope_def SCOPE_RANK_def)+

section \<open>The tree\<close>

datatype perm_action = Action (action_name: string) (action_scoped: bool) (action_requires: "string list")

datatype perm_node = Node (node_key: string) (node_labelKey: string) (node_sensitive: bool)
  (node_sodOwnerOnlyOnSelf: bool) (node_requires: "string list") (node_children: "perm_node list")
  (node_actions: "perm_action list")

datatype perm_module = Module (module_key: string) (module_labelKey: string) (module_features: "perm_node list")

definition VIEW_EDIT :: "perm_action list" where
  "VIEW_EDIT = [Action ''view'' True [], Action ''edit'' True []]"

definition team_permissions :: perm_module where
  "team_permissions = Module ''team'' ''rbac.module.team''
    [Node ''directory'' ''rbac.team.directory'' False False []
       []
       [Action ''view'' True []],
     Node ''member'' ''rbac.team.member'' False False []
       []
       [Action ''create'' False [''team.directory.view@all'', ''team.profile.personal.edit@all'',
         ''team.profile.job.edit@all'', ''team.profile.pay.edit@all'', ''team.profile.bank.edit@all'',
         ''team.profile.statutory.edit@all'', ''team.profile.org.edit@all'', ''team.profile.documents.edit@all''],
         Action ''delete'' False [''team.directory.view@all''],
         Action ''delete_permanent'' False [''team.directory.view@all'']],
     Node ''profile'' ''rbac.team.profileGroup'' False False []
       [Node ''personal'' ''rbac.team.profile.personal'' False False []
           []
           VIEW_EDIT,
        Node ''job'' ''rbac.team.profile.job'' False False []
           []
           VIEW_EDIT,
        Node ''pay'' ''rbac.team.profile.pay'' True True []
           []
           VIEW_EDIT,
        Node ''bank'' ''rbac.team.profile.bank'' True True []
           []
           VIEW_EDIT,
        Node ''statutory'' ''rbac.team.profile.statutory'' True True []
           []
           VIEW_EDIT,
        Node ''org'' ''rbac.team.profile.org'' True True []
           []
           VIEW_EDIT,
        Node ''documents'' ''rbac.team.profile.documents'' False False []
           []
           VIEW_EDIT]
       [],
     Node ''appAccess'' ''rbac.team.appAccess'' True False [''team.directory.view@all'',
         ''team.profile.org.view@all'']
       []
       [Action ''manage'' False []]]"

definition attendance_permissions :: perm_module where
  "attendance_permissions = Module ''attendance'' ''rbac.module.attendance''
    [Node ''record'' ''rbac.attendance.record'' False False []
       []
       [Action ''view'' True [], Action ''mark'' False [], Action ''edit'' False [], Action ''delete'' True []],
     Node ''selfPunch'' ''rbac.attendance.selfPunch'' False False []
       []
       [Action ''create'' True []],
     Node ''analytics'' ''rbac.attendance.analytics'' False False [''attendance.record.view@all'']
       []
       [Action ''view'' False []],
     Node ''export'' ''rbac.attendance.export'' True False [''attendance.record.view@all'']
       []
       [Action ''export'' False []],
     Node ''events'' ''rbac.attendance.events'' False False [''attendance.record.view@all'']
       []
       [Action ''view'' False [], Action ''delete'' False []],
     Node ''anomaly'' ''rbac.attendance.anomaly'' False False []
       []
       [Action ''manage'' False []],
     Node ''device'' ''rbac.attendance.device'' False False []
       []
       [Action ''manage'' False []],
     Node ''policy'' ''rbac.attendance.policy'' False False []
       []
       [Action ''manage'' False []]]"

definition leave_permissions :: perm_module where
  "leave_permissions = Module ''leave'' ''rbac.module.leave''
    [Node ''request'' ''rbac.leave.request'' False False []
       []
       [Action ''apply'' True [], Action ''view'' True [''leave.balance.view@self''], Action ''cancel'' True []],
     Node ''approval'' ''rbac.leave.approval'' False False [''leave.request.view@all'']
       []
       [Action ''decide'' False []],
     Node ''balance'' ''rbac.leave.balance'' False False []
       []
       [Action ''view'' True []],
     Node ''compOff'' ''rbac.leave.compOff'' False False []
       []
       [Action ''apply'' True [''leave.request.view@self'', ''leave.balance.view@self''], Action ''decide'' False []],
     Node ''type'' ''rbac.leave.type'' False False []
       []
       [Action ''manage'' False []],
     Node ''settings'' ''rbac.leave.settings'' False False []
       []
       [Action ''manage'' False []],
     Node ''delegation'' ''rbac.leave.delegation'' False False [''leave.approval.decide'']
       []
       [Action ''manage'' False []]]"

definition regularization_permissions :: perm_module where
  "regularization_permissions = Module ''regularization'' ''rbac.module.regularization''
    [Node ''request'' ''rbac.regularization.request'' False False []
       []
       [Action ''apply'' True [], Action ''view'' True [], Action ''cancel'' True []],
     Node ''approval'' ''rbac.regularization.approval'' False False [''regularization.request.view@all'']
       []
       [Action ''decide'' False []],
     Node ''settings'' ''rbac.regularization.settings'' False False []
       []
       [Action ''manage'' False []]]"

definition holidays_permissions :: perm_module where
  "holidays_permissions = Module ''holidays'' ''rbac.module.holidays''
    [Node ''calendar'' ''rbac.holidays.calendar'' False False []
       []
       [Action ''view'' False [], Action ''create'' False [], Action ''edit'' False [], Action ''delete'' False []]]"

definition shifts_permissions :: perm_module where
  "shifts_permissions = Module ''shifts'' ''rbac.module.shifts''
    [Node ''catalog'' ''rbac.shifts.catalog'' False False []
       []
       [Action ''view'' False [], Action ''create'' False [], Action ''edit'' False [], Action ''delete'' False []]]"

definition finance_permissions :: perm_module where
  "finance_permissions = Module ''finance'' ''rbac.module.finance''
    [Node ''invoice'' ''rbac.finance.invoice'' False False []
       []
       [Action ''view'' True [], Action ''create'' True [], Action ''edit'' True [], Action ''delete'' True [],
         Action ''post'' True [], Action ''send'' False []],
     Node ''creditNote'' ''rbac.finance.creditNote'' True False []
       []
       [Action ''create'' True []],
     Node ''expense'' ''rbac.finance.expense'' False False []
       []
       [Action ''view'' True [], Action ''create'' True []],
     Node ''payable'' ''rbac.finance.payable'' False False []
       []
       [Action ''view'' True [], Action ''create'' True [], Action ''edit'' True [],
         Action ''recordPayment'' True [], Action ''delete'' True []],
     Node ''payment'' ''rbac.finance.payment'' False False []
       []
       [Action ''record'' True []],
     Node ''report'' ''rbac.finance.report'' False False []
       []
       [Action ''view'' False []],
     Node ''gst'' ''rbac.finance.gst'' True False []
       []
       [Action ''manage'' False []],
     Node ''settings'' ''rbac.finance.settings'' True False []
       []
       [Action ''manage'' False []]]"

definition PERMISSION_REGISTRY :: "perm_module list" where
  "PERMISSION_REGISTRY =
    [team_permissions, attendance_permissions, leave_permissions, regularization_permissions, holidays_permissions,
         shifts_permissions, finance_permissions]"


lemmas registry_data = team_permissions_def attendance_permissions_def leave_permissions_def
  regularization_permissions_def holidays_permissions_def shifts_permissions_def finance_permissions_def

section \<open>Leaf paths and node lookup\<close>

definition dot :: "string \<Rightarrow> string \<Rightarrow> string" where
  \<comment> \<open>the template \<open>`${a}.${b}`\<close>\<close>
  "dot a b = a @ CHR ''.'' # b"

definition js_set :: "'a list \<Rightarrow> 'a list" where
  \<comment> \<open>the members of a \<open>Set\<close> in insertion order\<close>
  "js_set xs = rev (remdups (rev xs))"

lemma set_js_set [simp]: "set (js_set xs) = set xs" and distinct_js_set [simp]: "distinct (js_set xs)"
  by (simp_all add: js_set_def)

fun walk :: "string \<Rightarrow> perm_node \<Rightarrow> string list" where
  "walk prefix (Node k l sens sod req ch acts) =
     map (\<lambda>a. dot (dot prefix k) (action_name a)) acts @ concat (map (walk (dot prefix k)) ch)"

definition buildLeafPaths :: "string list" where
  "buildLeafPaths = js_set (concat (map (\<lambda>m. concat (map (walk (module_key m)) (module_features m))) PERMISSION_REGISTRY))"

definition allPermissionPaths :: "string list" where
  \<comment> \<open>the cache only avoids rebuilding the set\<close>
  "allPermissionPaths = buildLeafPaths"

definition isValidPermissionPath :: "string \<Rightarrow> bool" where
  "isValidPermissionPath path \<longleftrightarrow> path \<in> set allPermissionPaths"

definition child_at :: "perm_node option \<Rightarrow> string \<Rightarrow> perm_node option" where
  \<comment> \<open>\<open>cur?.children?.find((c) => c.key === seg)\<close>\<close>
  "child_at cur seg = (case cur of None \<Rightarrow> None | Some n \<Rightarrow> List.find (\<lambda>c. node_key c = seg) (node_children n))"

definition findRegistryNode :: "string \<Rightarrow> perm_node option" where
  "findRegistryNode nodePath =
     (case split_on CHR ''.'' nodePath of [] \<Rightarrow> None
      | modKey # rest \<Rightarrow>
        (case List.find (\<lambda>m. module_key m = modKey) PERMISSION_REGISTRY of None \<Rightarrow> None
         | Some m \<Rightarrow>
           (case rest of [] \<Rightarrow> None
            | r # rs \<Rightarrow> foldl child_at (List.find (\<lambda>f. node_key f = r) (module_features m)) rs)))"

section \<open>Prerequisites of an action path\<close>

fun node_cut :: "string list \<Rightarrow> nat \<Rightarrow> perm_node option" where
  \<comment> \<open>the loop over the split points, from \<open>cut\<close> down to 1\<close>
  "node_cut segs 0 = None"
| "node_cut segs (Suc k) =
     (let nodePath = join_with CHR ''.'' (take (Suc k) segs);
          action = join_with CHR ''.'' (drop (Suc k) segs)
      in case findRegistryNode nodePath of
           None \<Rightarrow> node_cut segs k
         | Some n \<Rightarrow> if \<exists>a\<in>set (node_actions n). action_name a = action then Some n else node_cut segs k)"

definition nodeForActionPath :: "string \<Rightarrow> perm_node option" where
  "nodeForActionPath actionPath =
     (let segs = split_on CHR ''.'' actionPath in node_cut segs (length segs - 1))"

definition requiresForActionPath :: "string \<Rightarrow> string list" where
  "requiresForActionPath actionPath =
     (case nodeForActionPath actionPath of None \<Rightarrow> []
      | Some n \<Rightarrow> node_requires n @
          (case List.find (\<lambda>a. ends_with actionPath (CHR ''.'' # action_name a)) (node_actions n) of
             None \<Rightarrow> [] | Some a \<Rightarrow> action_requires a))"

definition as_scope :: "string \<Rightarrow> perm_scope option" where
  \<comment> \<open>the text after the \<open>@\<close>; the registry only writes \<open>self\<close> and \<open>all\<close>\<close>
  "as_scope s = (if s = ''self'' then Some Self_scope else if s = ''all'' then Some All_scope else None)"

definition parseRequire :: "string \<Rightarrow> string \<times> perm_scope option" where
  "parseRequire req = (case split_on CHR ''@'' req of
      path # scope # _ \<Rightarrow> (path, as_scope scope) | [path] \<Rightarrow> (path, None) | [] \<Rightarrow> ([], None))"

definition prerequisites :: "string \<Rightarrow> (string \<times> perm_scope option) list" where
  \<comment> \<open>the parsed prerequisites both loops of the dependency resolver run over\<close>
  "prerequisites path = map parseRequire (requiresForActionPath path)"

section \<open>The leaf paths and the prerequisite graph\<close>

definition leaf_path_table :: "string list" where
  "leaf_path_table =
    [''team.directory.view'', ''team.member.create'', ''team.member.delete'', ''team.member.delete_permanent'',
     ''team.profile.personal.view'', ''team.profile.personal.edit'', ''team.profile.job.view'',
     ''team.profile.job.edit'', ''team.profile.pay.view'', ''team.profile.pay.edit'',
     ''team.profile.bank.view'', ''team.profile.bank.edit'', ''team.profile.statutory.view'',
     ''team.profile.statutory.edit'', ''team.profile.org.view'', ''team.profile.org.edit'',
     ''team.profile.documents.view'', ''team.profile.documents.edit'', ''team.appAccess.manage'',
     ''attendance.record.view'', ''attendance.record.mark'', ''attendance.record.edit'',
     ''attendance.record.delete'', ''attendance.selfPunch.create'', ''attendance.analytics.view'',
     ''attendance.export.export'', ''attendance.events.view'', ''attendance.events.delete'',
     ''attendance.anomaly.manage'', ''attendance.device.manage'', ''attendance.policy.manage'',
     ''leave.request.apply'', ''leave.request.view'', ''leave.request.cancel'', ''leave.approval.decide'',
     ''leave.balance.view'', ''leave.compOff.apply'', ''leave.compOff.decide'', ''leave.type.manage'',
     ''leave.settings.manage'', ''leave.delegation.manage'', ''regularization.request.apply'',
     ''regularization.request.view'', ''regularization.request.cancel'', ''regularization.approval.decide'',
     ''regularization.settings.manage'', ''holidays.calendar.view'', ''holidays.calendar.create'',
     ''holidays.calendar.edit'', ''holidays.calendar.delete'', ''shifts.catalog.view'',
     ''shifts.catalog.create'', ''shifts.catalog.edit'', ''shifts.catalog.delete'', ''finance.invoice.view'',
     ''finance.invoice.create'', ''finance.invoice.edit'', ''finance.invoice.delete'', ''finance.invoice.post'',
     ''finance.invoice.send'', ''finance.creditNote.create'', ''finance.expense.view'',
     ''finance.expense.create'', ''finance.payable.view'', ''finance.payable.create'', ''finance.payable.edit'',
     ''finance.payable.recordPayment'', ''finance.payable.delete'', ''finance.payment.record'',
     ''finance.report.view'', ''finance.gst.manage'', ''finance.settings.manage'']"

lemma leaf_paths_evaluated: "allPermissionPaths = leaf_path_table"
  by code_simp

lemma valid_path_iff: "isValidPermissionPath p \<longleftrightarrow> p \<in> set leaf_path_table"
  by (simp add: isValidPermissionPath_def leaf_paths_evaluated)

lemma valid_path_code: "isValidPermissionPath p \<longleftrightarrow> List.member leaf_path_table p"
  by (simp add: valid_path_iff)

text \<open>
  All prerequisites of the registry, evaluated once.  The graph has a chain of length three,
  \<open>leave.delegation.manage\<close>, \<open>leave.approval.decide\<close>, \<open>leave.request.view\<close>,
  \<open>leave.balance.view\<close>, and no longer one.
\<close>

definition prerequisite_table :: "(string \<times> (string \<times> perm_scope option) list) list" where
  "prerequisite_table =
    [(''team.member.create'',
      [(''team.directory.view'', Some All_scope), (''team.profile.personal.edit'', Some All_scope),
       (''team.profile.job.edit'', Some All_scope), (''team.profile.pay.edit'', Some All_scope),
       (''team.profile.bank.edit'', Some All_scope), (''team.profile.statutory.edit'', Some All_scope),
       (''team.profile.org.edit'', Some All_scope), (''team.profile.documents.edit'', Some All_scope)]),
     (''team.member.delete'', [(''team.directory.view'', Some All_scope)]),
     (''team.member.delete_permanent'', [(''team.directory.view'', Some All_scope)]),
     (''team.appAccess.manage'',
      [(''team.directory.view'', Some All_scope), (''team.profile.org.view'', Some All_scope)]),
     (''attendance.analytics.view'', [(''attendance.record.view'', Some All_scope)]),
     (''attendance.export.export'', [(''attendance.record.view'', Some All_scope)]),
     (''attendance.events.view'', [(''attendance.record.view'', Some All_scope)]),
     (''attendance.events.delete'', [(''attendance.record.view'', Some All_scope)]),
     (''leave.request.view'', [(''leave.balance.view'', Some Self_scope)]),
     (''leave.approval.decide'', [(''leave.request.view'', Some All_scope)]),
     (''leave.compOff.apply'', [(''leave.request.view'', Some Self_scope), (''leave.balance.view'', Some Self_scope)]),
     (''leave.delegation.manage'', [(''leave.approval.decide'', None)]),
     (''regularization.approval.decide'', [(''regularization.request.view'', Some All_scope)])]"

lemma prerequisites_evaluated:
  "filter (\<lambda>pr. snd pr \<noteq> []) (map (\<lambda>p. (p, prerequisites p)) allPermissionPaths) = prerequisite_table"
  by code_simp

definition required_by :: "string list \<Rightarrow> string list" where
  \<comment> \<open>the paths that the table requires for one of the given paths\<close>
  "required_by ps = concat (map (\<lambda>pr. map fst (snd pr)) (filter (\<lambda>pr. fst pr \<in> set ps) prerequisite_table))"

lemma prerequisites_in_table:
  assumes "isValidPermissionPath p" "r \<in> set (prerequisites p)"
  shows "(p, prerequisites p) \<in> set prerequisite_table"
proof -
  have "(p, prerequisites p) \<in> set (filter (\<lambda>pr. snd pr \<noteq> []) (map (\<lambda>p. (p, prerequisites p)) allPermissionPaths))"
    using assms by (auto simp: isValidPermissionPath_def)
  then show ?thesis unfolding prerequisites_evaluated .
qed

lemma table_entry: "(q, rs) \<in> set prerequisite_table \<Longrightarrow> rs = prerequisites q \<and> rs \<noteq> []"
  unfolding prerequisites_evaluated[symmetric] by auto

lemma prerequisites_lookup:
  assumes "isValidPermissionPath p" shows "prerequisites p = coalesce (map_of prerequisite_table p) []"
proof (cases "map_of prerequisite_table p")
  case None
  then have "p \<notin> fst ` set prerequisite_table" by (simp add: map_of_eq_None_iff)
  then have "r \<notin> set (prerequisites p)" for r using prerequisites_in_table[OF assms, of r] by force
  then show ?thesis by (cases "prerequisites p") (auto simp: None)
next
  case (Some rs)
  then show ?thesis using table_entry map_of_SomeD by (metis coalesce_simps(2))
qed

lemma required_by_table:
  assumes "isValidPermissionPath p" "r \<in> set (prerequisites p)" "p \<in> set ps"
  shows "fst r \<in> set (required_by ps)"
  using prerequisites_in_table[OF assms(1,2)] assms(2,3) by (force simp: required_by_def)

lemma required_valid: "isValidPermissionPath p \<Longrightarrow> r \<in> set (prerequisites p) \<Longrightarrow> isValidPermissionPath (fst r)"
proof -
  have "list_all (\<lambda>pr. list_all (\<lambda>r. isValidPermissionPath (fst r)) (snd pr)) prerequisite_table"
    unfolding valid_path_code by code_simp
  then show "isValidPermissionPath p \<Longrightarrow> r \<in> set (prerequisites p) \<Longrightarrow> isValidPermissionPath (fst r)"
    using prerequisites_in_table[of p r] by (force simp: list_all_iff)
qed

lemma prerequisite_depth:
  "required_by (required_by (required_by (required_by allPermissionPaths))) = []"
  unfolding leaf_paths_evaluated by code_simp

end
