(* ===== verification/JsMap.thy ===== *)
theory JsMap
  imports Prelude "HOL-Library.AList"
begin

text \<open>
  JavaScript \<open>Map\<close> objects: association lists in insertion order with distinct keys.  \<open>get\<close> is
  \<^const>\<open>map_of\<close>, \<open>set\<close> is \<^const>\<open>AList.update\<close>, which keeps the place of a key that is already
  there and appends a new one, and \<open>delete\<close> is \<^const>\<open>AList.delete\<close>.
\<close>

section \<open>Construction and lookup\<close>

definition js_map_of :: "('k \<times> 'v) list \<Rightarrow> ('k \<times> 'v) list" where
  \<comment> \<open>\<open>new Map(entries)\<close>\<close>
  "js_map_of xs = foldl (\<lambda>m kv. AList.update (fst kv) (snd kv) m) [] xs"

lemma map_of_update [simp]: "map_of (AList.update k v m) k' = (if k' = k then Some v else map_of m k')"
  by (simp add: update_conv')

lemma map_of_delete [simp]: "map_of (AList.delete k m) k' = (if k' = k then None else map_of m k')"
  by (simp add: delete_conv')

lemma js_map_of_snoc: "js_map_of (xs @ [kv]) = AList.update (fst kv) (snd kv) (js_map_of xs)"
  by (simp add: js_map_of_def)

lemma distinct_js_map_of [simp]: "distinct (map fst (js_map_of xs))"
  by (induction xs rule: rev_induct) (simp_all add: js_map_of_snoc distinct_update js_map_of_def)

lemma map_of_js_map_of: "map_of (js_map_of xs) k = map_of (rev xs) k"
  by (induction xs rule: rev_induct) (simp_all add: js_map_of_snoc, simp add: js_map_of_def)

lemma update_new: "k \<notin> fst ` set m \<Longrightarrow> AList.update k v m = m @ [(k, v)]"
  by (induction m) auto

lemma js_map_of_distinct: "distinct (map fst xs) \<Longrightarrow> js_map_of xs = xs"
  by (induction xs rule: rev_induct) (auto simp: js_map_of_snoc update_new, simp add: js_map_of_def)

end
