(* ===== verification/RbacGrants.thy ===== *)
theory RbacGrants
  imports RbacRegistry JsMap
begin

text \<open>
  Path grants: the fail-closed match (\<open>rbac/permission-matcher.ts\<close>), the merge of per-member
  overrides (\<open>rbac/permission-path-overrides.ts\<close>), the audit diff (\<open>rbac/grants-diff.ts\<close>),
  the view/edit coherence of a grant list (\<open>rbac/coherence.ts\<close>) and the dependency resolver
  (\<open>rbac/dep-resolver.ts\<close>).
\<close>

section \<open>Grants and the match\<close>

record grant =
  g_path :: string
  g_scope :: perm_scope

definition entry :: "grant \<Rightarrow> string \<times> perm_scope" where
  "entry g = (g_path g, g_scope g)"

definition of_entry :: "string \<times> perm_scope \<Rightarrow> grant" where
  "of_entry e = \<lparr>g_path = fst e, g_scope = snd e\<rparr>"

lemma entry_of_entry [simp]: "entry (of_entry e) = e" "of_entry (entry g) = g"
  "g_path (of_entry e) = fst e" "g_scope (of_entry e) = snd e" "fst (entry g) = g_path g" "snd (entry g) = g_scope g"
  by (simp_all add: entry_def of_entry_def)

definition pathGrantSatisfies :: "grant list \<Rightarrow> string \<Rightarrow> perm_scope option \<Rightarrow> bool" where
  "pathGrantSatisfies grants path scope =
     (case List.find (\<lambda>g. g_path g = path) grants of
        None \<Rightarrow> False
      | Some g \<Rightarrow>
          (case scope of
             None \<Rightarrow> True
           | Some Self_scope \<Rightarrow> g_scope g = Self_scope \<or> g_scope g = All_scope
           | Some All_scope \<Rightarrow> g_scope g = All_scope))"

definition held :: "grant list \<Rightarrow> string \<Rightarrow> perm_scope option" where
  \<comment> \<open>the scope of the first grant of a path\<close>
  "held gs = map_of (map entry gs)"

definition covers :: "perm_scope option \<Rightarrow> perm_scope option \<Rightarrow> bool" where
  \<comment> \<open>a held scope satisfies a required one\<close>
  "covers h r = (case h of None \<Rightarrow> False | Some s \<Rightarrow> (case r of None \<Rightarrow> True | Some q \<Rightarrow> q \<le> s))"

lemma held_find: "held gs p = map_option g_scope (List.find (\<lambda>g. g_path g = p) gs)"
  by (induction gs) (auto simp: held_def)

lemma satisfies_iff: "pathGrantSatisfies gs p r \<longleftrightarrow> covers (held gs p) r"
  by (auto simp: pathGrantSatisfies_def covers_def held_find split: option.splits perm_scope.splits)
     (metis perm_scope.exhaust)+

section \<open>Overrides\<close>

record path_override =
  po_path :: string
  po_allowed :: bool
  po_scope :: "perm_scope option"

definition apply_path_override :: "(string \<times> perm_scope) list \<Rightarrow> path_override \<Rightarrow> (string \<times> perm_scope) list" where
  "apply_path_override out ov =
     (if po_allowed ov then AList.update (po_path ov) (coalesce (po_scope ov) Self_scope) out
      else AList.delete (po_path ov) out)"

definition applyPathOverrides :: "grant list \<Rightarrow> path_override list \<Rightarrow> grant list" where
  "applyPathOverrides rolePaths overrides =
     map of_entry (foldl apply_path_override (js_map_of (map entry rolePaths)) overrides)"

text \<open>
  What a sequence of overrides does to one key: the last override of the key decides, an
  allow seeing what was granted before it.
\<close>

fun final_grant :: "('w \<Rightarrow> 'v option \<Rightarrow> 'v) \<Rightarrow> ('k \<times> bool \<times> 'w) list \<Rightarrow> 'k \<Rightarrow> 'v option \<Rightarrow> 'v option" where
  "final_grant allowed [] k v = v"
| "final_grant allowed ((k', yes, w) # ovs) k v =
     final_grant allowed ovs k (if k' = k then if yes then Some (allowed w v) else None else v)"

lemma final_grant_append: "final_grant f (xs @ ys) k v = final_grant f ys k (final_grant f xs k v)"
  by (induction f xs k v rule: final_grant.induct) auto

lemma final_grant_untouched: "\<forall>ov\<in>set ovs. fst ov \<noteq> k \<Longrightarrow> final_grant f ovs k v = v"
  by (induction f ovs k v rule: final_grant.induct) auto

text \<open>
  The interface of a store of grants that overrides are merged into: whatever its
  representation, an allow and a deny touch one key.  The path grants provide it here, the flat
  module/action rows of the legacy model provide it in the guard.
\<close>

locale override_target =
  fixes wf :: "'s \<Rightarrow> bool"
    and granted :: "'s \<Rightarrow> 'k \<Rightarrow> 'v option"
    and step :: "'s \<Rightarrow> 'o \<Rightarrow> 's"
    and view :: "'o \<Rightarrow> 'k \<times> bool \<times> 'w"
    and allowed :: "'w \<Rightarrow> 'v option \<Rightarrow> 'v"
  assumes step_wf: "wf s \<Longrightarrow> wf (step s ov)"
    and step_allow: "wf s \<Longrightarrow> view ov = (k, True, w) \<Longrightarrow>
      granted (step s ov) k' = (if k' = k then Some (allowed w (granted s k)) else granted s k')"
    and step_deny: "wf s \<Longrightarrow> view ov = (k, False, w) \<Longrightarrow>
      granted (step s ov) k' = (if k' = k then None else granted s k')"
begin

lemma merge_wf: "wf s \<Longrightarrow> wf (foldl step s ovs)"
  by (induction ovs arbitrary: s) (simp_all add: step_wf)

lemma merge_final: "wf s \<Longrightarrow> granted (foldl step s ovs) k = final_grant allowed (map view ovs) k (granted s k)"
proof (induction ovs arbitrary: s)
  case (Cons ov ovs)
  obtain k' yes w where v: "view ov = (k', yes, w)" by (cases "view ov") auto
  have "granted (step s ov) k = (if k' = k then if yes then Some (allowed w (granted s k)) else None else granted s k)"
    using step_allow[OF Cons.prems, of ov k' w k] step_deny[OF Cons.prems, of ov k' w k] v by (cases yes) auto
  then show ?case using Cons.IH[OF step_wf[OF Cons.prems, of ov]] v by simp
qed simp

lemma last_deny_wins:
  assumes "wf s" "view ov = (k, False, w)" "\<forall>o'\<in>set later. fst (view o') \<noteq> k"
  shows "granted (foldl step s (earlier @ ov # later)) k = None"
  using assms by (simp add: merge_final final_grant_append final_grant_untouched del: foldl_append)

lemma last_allow_wins:
  assumes "wf s" "view ov = (k, True, w)" "\<forall>o'\<in>set later. fst (view o') \<noteq> k"
  shows "granted (foldl step s (earlier @ ov # later)) k = Some (allowed w (granted (foldl step s earlier) k))"
  using assms by (simp add: merge_final final_grant_append final_grant_untouched del: foldl_append)

lemma untouched: "wf s \<Longrightarrow> \<forall>o'\<in>set ovs. fst (view o') \<noteq> k \<Longrightarrow> granted (foldl step s ovs) k = granted s k"
  by (simp add: merge_final final_grant_untouched)

end

definition path_view :: "path_override \<Rightarrow> string \<times> bool \<times> perm_scope option" where
  "path_view ov = (po_path ov, po_allowed ov, po_scope ov)"

definition path_scope :: "perm_scope option \<Rightarrow> perm_scope option \<Rightarrow> perm_scope" where
  \<comment> \<open>an allow always writes its scope\<close>
  "path_scope w before = coalesce w Self_scope"

interpretation path_grants: override_target "\<lambda>m. distinct (map fst m)" map_of apply_path_override path_view path_scope
  by unfold_locales (auto simp: apply_path_override_def path_view_def path_scope_def distinct_update distinct_delete)

lemma held_overrides:
  "held (applyPathOverrides rolePaths ovs) p = map_of (foldl apply_path_override (js_map_of (map entry rolePaths)) ovs) p"
  by (simp add: held_def applyPathOverrides_def comp_def)

lemma distinct_overrides: "distinct (map g_path (applyPathOverrides rolePaths ovs))"
  using path_grants.merge_wf[OF distinct_js_map_of, of "map entry rolePaths" ovs]
  by (simp add: applyPathOverrides_def comp_def)

section \<open>The audit diff\<close>

record grants_diff =
  df_added :: "grant list"
  df_removed :: "grant list"
  df_scopeChanged :: "(string \<times> perm_scope \<times> perm_scope) list"

definition diffGrants :: "grant list \<Rightarrow> grant list \<Rightarrow> grants_diff" where
  "diffGrants before after =
     (let b = js_map_of (map entry before); a = js_map_of (map entry after)
      in \<lparr>df_added = map of_entry (filter (\<lambda>e. map_of b (fst e) = None) a),
          df_removed = map of_entry (filter (\<lambda>e. map_of a (fst e) = None) b),
          df_scopeChanged = concat (map (\<lambda>e. case map_of b (fst e) of None \<Rightarrow> []
             | Some prev \<Rightarrow> if prev \<noteq> snd e then [(fst e, prev, snd e)] else []) a)\<rparr>)"

section \<open>View/edit coherence\<close>

datatype grant_error = Unknown_path string | Edit_without_view string
  | View_too_narrow string perm_scope perm_scope
  | Requirement_missing string string | Requirement_too_narrow string string perm_scope perm_scope

datatype leaf_action = View_leaf | Edit_leaf

definition re_dots :: "string \<Rightarrow> bool" where
  \<comment> \<open>\<open>(.+)\<close>: some characters, none of them a line terminator\<close>
  "re_dots s \<longleftrightarrow> s \<noteq> [] \<and> CHR 0x0A \<notin> set s \<and> CHR 0x0D \<notin> set s"

definition leaf_re :: "string \<Rightarrow> (string \<times> leaf_action) option" where
  \<comment> \<open>\<open>LEAF_RE.exec(path)\<close>: the stem and the action of the match\<close>
  "leaf_re path = (let stem = take (length path - 5) path
     in if ends_with path ''.view'' \<and> re_dots stem then Some (stem, View_leaf)
        else if ends_with path ''.edit'' \<and> re_dots stem then Some (stem, Edit_leaf) else None)"

record leaf_slot =
  slot_view :: "perm_scope option"
  slot_edit :: "perm_scope option"

definition empty_slot :: leaf_slot where
  "empty_slot = \<lparr>slot_view = None, slot_edit = None\<rparr>"

definition set_slot :: "leaf_action \<Rightarrow> perm_scope \<Rightarrow> leaf_slot \<Rightarrow> leaf_slot" where
  "set_slot act sc slot = (case act of View_leaf \<Rightarrow> slot\<lparr>slot_view := Some sc\<rparr> | Edit_leaf \<Rightarrow> slot\<lparr>slot_edit := Some sc\<rparr>)"

definition bucket_step :: "(string \<times> leaf_slot) list \<Rightarrow> grant \<Rightarrow> (string \<times> leaf_slot) list" where
  "bucket_step m g = (case leaf_re (g_path g) of None \<Rightarrow> m
     | Some (stem, act) \<Rightarrow> AList.update stem (set_slot act (g_scope g) (coalesce (map_of m stem) empty_slot)) m)"

definition leaf_buckets :: "grant list \<Rightarrow> (string \<times> leaf_slot) list" where
  "leaf_buckets grants = foldl bucket_step [] grants"

definition slot_error :: "string \<times> leaf_slot \<Rightarrow> grant_error option" where
  "slot_error e = (case slot_edit (snd e) of None \<Rightarrow> None
     | Some ed \<Rightarrow> (case slot_view (snd e) of None \<Rightarrow> Some (Edit_without_view (fst e))
        | Some vw \<Rightarrow> if vw < ed then Some (View_too_narrow (fst e) vw ed) else None))"

fun first_error :: "('a \<Rightarrow> 'e option) \<Rightarrow> 'a list \<Rightarrow> 'e option" where
  \<comment> \<open>a loop whose body may throw\<close>
  "first_error f [] = None"
| "first_error f (x # xs) = (case f x of Some e \<Rightarrow> Some e | None \<Rightarrow> first_error f xs)"

lemma first_error_None [simp]: "first_error f xs = None \<longleftrightarrow> (\<forall>x\<in>set xs. f x = None)"
  by (induction xs) (auto split: option.splits)

definition unknown_path :: "grant \<Rightarrow> grant_error option" where
  "unknown_path g = (if isValidPermissionPath (g_path g) then None else Some (Unknown_path (g_path g)))"

definition assertViewEditCoherent :: "grant list \<Rightarrow> grant_error option" where
  \<comment> \<open>the exception, or \<open>None\<close> when the function returns\<close>
  "assertViewEditCoherent grants =
     (case first_error unknown_path grants of Some e \<Rightarrow> Some e
      | None \<Rightarrow> first_error slot_error (leaf_buckets grants))"

definition normalise_step :: "grant list \<Rightarrow> string \<times> leaf_slot \<Rightarrow> grant list" where
  "normalise_step out e =
     (let view = dot (fst e) ''view''
      in case slot_edit (snd e) of None \<Rightarrow> out
         | Some ed \<Rightarrow>
           (case slot_view (snd e) of
              None \<Rightarrow> out @ [\<lparr>g_path = view, g_scope = ed\<rparr>]
            | Some vw \<Rightarrow>
                if vw < ed
                then (case find_index (\<lambda>g. g_path g = view) out of
                        Some i \<Rightarrow> out[i := \<lparr>g_path = view, g_scope = ed\<rparr>] | None \<Rightarrow> out)
                else out))"

definition normaliseViewEditCoherent :: "grant list \<Rightarrow> grant list" where
  "normaliseViewEditCoherent grants = foldl normalise_step grants (leaf_buckets grants)"

section \<open>Dependencies\<close>

definition requirement_error :: "(string \<times> perm_scope) list \<Rightarrow> string \<Rightarrow> string \<times> perm_scope option \<Rightarrow> grant_error option" where
  "requirement_error have path req =
     (case map_of have (fst req) of
        None \<Rightarrow> Some (Requirement_missing path (fst req))
      | Some h \<Rightarrow> (case snd req of None \<Rightarrow> None
          | Some q \<Rightarrow> if h < q then Some (Requirement_too_narrow path (fst req) q h) else None))"

definition assertDepsResolved :: "grant list \<Rightarrow> grant_error option" where
  "assertDepsResolved grants =
     (case first_error unknown_path grants of Some e \<Rightarrow> Some e
      | None \<Rightarrow>
          let have = js_map_of (map entry grants)
          in first_error (\<lambda>g. first_error (requirement_error have (g_path g)) (prerequisites (g_path g))) grants)"

definition add_requirement :: "grant list \<Rightarrow> string \<times> perm_scope option \<Rightarrow> grant list" where
  "add_requirement out req =
     (case find_index (\<lambda>g. g_path g = fst req) out of
        None \<Rightarrow> out @ [\<lparr>g_path = fst req, g_scope = coalesce (snd req) Self_scope\<rparr>]
      | Some i \<Rightarrow>
          (case snd req of None \<Rightarrow> out
           | Some q \<Rightarrow> if g_scope (out ! i) < q then out[i := \<lparr>g_path = fst req, g_scope = q\<rparr>] else out))"

definition resolve_grant :: "grant list \<Rightarrow> grant \<Rightarrow> grant list" where
  "resolve_grant out g = foldl add_requirement out (prerequisites (g_path g))"

definition resolveImplicitDeps :: "grant list \<Rightarrow> grant list" where
  "resolveImplicitDeps grants = foldl resolve_grant grants grants"

end
