(* ===== verification/RbacCoherence.thy ===== *)
theory RbacCoherence
  imports RbacGrants
begin

text \<open>
  The invariants of a stored grant list: what the coherence and dependency checks accept, and that
  the two automatic completions (\<open>normaliseViewEditCoherent\<close>, \<open>resolveImplicitDeps\<close>) establish them.
\<close>

section \<open>Leaf buckets\<close>

lemma leaf_re_iff:
  "leaf_re p = Some (stem, View_leaf) \<longleftrightarrow> p = dot stem ''view'' \<and> re_dots stem"
  "leaf_re p = Some (stem, Edit_leaf) \<longleftrightarrow> p = dot stem ''edit'' \<and> re_dots stem"
proof -
  have e: "ends_with p t \<longleftrightarrow> p = take (length p - 5) p @ t" if "length t = 5" for t
    using that by (auto simp: ends_with_iff)
  show "leaf_re p = Some (stem, View_leaf) \<longleftrightarrow> p = dot stem ''view'' \<and> re_dots stem"
    by (auto simp: leaf_re_def Let_def dot_def ends_with_iff)
  show "leaf_re p = Some (stem, Edit_leaf) \<longleftrightarrow> p = dot stem ''edit'' \<and> re_dots stem"
    by (auto simp: leaf_re_def Let_def dot_def ends_with_iff)
qed

lemma dot_inj [simp]: "dot a ''view'' = dot b ''view'' \<longleftrightarrow> a = b" "dot a ''edit'' = dot b ''edit'' \<longleftrightarrow> a = b"
  "dot a ''view'' \<noteq> dot b ''edit''" "dot a ''edit'' \<noteq> dot b ''view''"
  by (simp_all add: dot_def)

definition last_held :: "grant list \<Rightarrow> string \<Rightarrow> perm_scope option" where
  \<comment> \<open>the scope of the last grant of a path, what a \<open>Map\<close> built from the grants holds\<close>
  "last_held gs = map_of (js_map_of (map entry gs))"

lemma last_held_snoc [simp]: "last_held (gs @ [g]) p = (if p = g_path g then Some (g_scope g) else last_held gs p)"
  by (simp add: last_held_def js_map_of_snoc)

lemma last_held_Nil [simp]: "last_held [] p = None"
  by (simp add: last_held_def js_map_of_def)

lemma last_held_distinct: "distinct (map g_path gs) \<Longrightarrow> last_held gs p = held gs p"
  by (simp add: last_held_def held_def js_map_of_distinct comp_def)

definition slot_of :: "(string \<times> leaf_slot) list \<Rightarrow> string \<Rightarrow> leaf_slot" where
  "slot_of m stem = coalesce (map_of m stem) empty_slot"

lemma bucket_snoc: "leaf_buckets (gs @ [g]) = bucket_step (leaf_buckets gs) g"
  by (simp add: leaf_buckets_def)

lemma bucket_slots:
  assumes "re_dots stem"
  shows "slot_view (slot_of (leaf_buckets gs) stem) = last_held gs (dot stem ''view'')"
    and "slot_edit (slot_of (leaf_buckets gs) stem) = last_held gs (dot stem ''edit'')"
proof (induction gs rule: rev_induct)
  case Nil
  { case 1 then show ?case by (simp add: leaf_buckets_def slot_of_def empty_slot_def) }
  { case 2 then show ?case by (simp add: leaf_buckets_def slot_of_def empty_slot_def) }
next
  case (snoc g gs)
  have s: "slot_of (bucket_step m g) stem =
    (if g_path g = dot stem ''view'' then slot_of m stem\<lparr>slot_view := Some (g_scope g)\<rparr>
     else if g_path g = dot stem ''edit'' then slot_of m stem\<lparr>slot_edit := Some (g_scope g)\<rparr> else slot_of m stem)" for m
  proof (cases "leaf_re (g_path g)")
    case None
    then have "g_path g \<noteq> dot stem ''view''" "g_path g \<noteq> dot stem ''edit''"
      using leaf_re_iff[of "g_path g" stem] assms by auto
    then show ?thesis by (simp add: bucket_step_def None)
  next
    case (Some sa)
    obtain st a where sa: "sa = (st, a)" by force
    show ?thesis using Some leaf_re_iff[of "g_path g" st] assms
      by (cases a) (auto simp: sa bucket_step_def slot_of_def set_slot_def)
  qed
  { case 1 then show ?case using snoc by (simp add: bucket_snoc s) }
  { case 2 then show ?case using snoc by (simp add: bucket_snoc s) }
qed

lemma set_update_subset: "set (AList.update k v m) \<subseteq> insert (k, v) (set m)"
  by (induction m) auto

lemma bucket_keys: "distinct (map fst (leaf_buckets gs)) \<and> (\<forall>e\<in>set (leaf_buckets gs). re_dots (fst e))"
proof (induction gs rule: rev_induct)
  case Nil
  then show ?case by (simp add: leaf_buckets_def)
next
  case (snoc g gs)
  show ?case
  proof (cases "leaf_re (g_path g)")
    case None
    then show ?thesis using snoc by (simp add: bucket_snoc bucket_step_def)
  next
    case (Some sa)
    obtain st a where sa: "sa = (st, a)" by force
    have "re_dots st" using Some leaf_re_iff[of "g_path g" st] by (cases a) (auto simp: sa)
    then show ?thesis using snoc
      by (auto simp: bucket_snoc bucket_step_def Some sa distinct_update dest!: subsetD[OF set_update_subset])
  qed
qed

section \<open>What coherence means\<close>

lemma bucket_entry:
  assumes "(stem, slot) \<in> set (leaf_buckets gs)"
  shows "re_dots stem" "slot_view slot = last_held gs (dot stem ''view'')" "slot_edit slot = last_held gs (dot stem ''edit'')"
proof -
  show r: "re_dots stem" using assms bucket_keys[of gs] by fastforce
  have "slot_of (leaf_buckets gs) stem = slot" using assms bucket_keys[of gs] by (simp add: slot_of_def)
  then show "slot_view slot = last_held gs (dot stem ''view'')" "slot_edit slot = last_held gs (dot stem ''edit'')"
    using bucket_slots[OF r, of gs] by simp_all
qed

lemma bucket_of_edit:
  assumes "re_dots stem" "last_held gs (dot stem ''edit'') = Some e"
  shows "\<exists>slot. (stem, slot) \<in> set (leaf_buckets gs) \<and> slot_edit slot = Some e"
proof -
  have "slot_edit (slot_of (leaf_buckets gs) stem) = Some e" using bucket_slots(2)[OF assms(1)] assms(2) by simp
  then show ?thesis
    by (cases "map_of (leaf_buckets gs) stem") (auto simp: slot_of_def empty_slot_def dest: map_of_SomeD)
qed

lemma coherent_iff:
  "assertViewEditCoherent gs = None \<longleftrightarrow>
     (\<forall>g\<in>set gs. isValidPermissionPath (g_path g)) \<and>
     (\<forall>stem e. re_dots stem \<and> last_held gs (dot stem ''edit'') = Some e
        \<longrightarrow> covers (last_held gs (dot stem ''view'')) (Some e))" (is "?l \<longleftrightarrow> ?v \<and> ?c")
proof -
  have v: "first_error unknown_path gs = None \<longleftrightarrow> ?v"
    by (auto simp: unknown_path_def)
  have se: "slot_error (stem, slot) = None \<longleftrightarrow> (\<forall>e. slot_edit slot = Some e \<longrightarrow> covers (slot_view slot) (Some e))" for stem slot
    by (auto simp: slot_error_def covers_def not_less split: option.splits)
  have "first_error slot_error (leaf_buckets gs) = None \<longleftrightarrow> ?c"
  proof
    assume a: "first_error slot_error (leaf_buckets gs) = None"
    show ?c
    proof (intro allI impI)
      fix stem e assume h: "re_dots stem \<and> last_held gs (dot stem ''edit'') = Some e"
      then obtain slot where sl: "(stem, slot) \<in> set (leaf_buckets gs)" "slot_edit slot = Some e"
        using bucket_of_edit by blast
      have "slot_error (stem, slot) = None" using a sl(1) by simp
      then show "covers (last_held gs (dot stem ''view'')) (Some e)"
        using se sl(2) bucket_entry(2)[OF sl(1)] by simp
    qed
  next
    assume c: ?c
    show "first_error slot_error (leaf_buckets gs) = None"
      unfolding first_error_None
    proof
      fix x assume x: "x \<in> set (leaf_buckets gs)"
      obtain stem slot where [simp]: "x = (stem, slot)" by force
      show "slot_error x = None" using c bucket_entry[of stem slot gs] x by (simp add: se)
    qed
  qed
  then show ?thesis using v unfolding assertViewEditCoherent_def by (cases "first_error unknown_path gs") (simp_all del: first_error_None)
qed

section \<open>The completion of edit grants\<close>

lemma held_append_new: "p \<notin> g_path ` set out \<Longrightarrow> held (out @ [\<lparr>g_path = p, g_scope = e\<rparr>]) q = (if q = p then Some e else held out q)"
  by (induction out) (auto simp: held_def entry_def)

lemma held_None_iff: "held gs p = None \<longleftrightarrow> p \<notin> g_path ` set gs"
  by (auto simp: held_def map_of_eq_None_iff image_iff)

lemma held_update_at:
  assumes "find_index (\<lambda>g. g_path g = p) out = Some i"
  shows "held (out[i := \<lparr>g_path = p, g_scope = e\<rparr>]) q = (if q = p then Some e else held out q)"
    and "map g_path (out[i := \<lparr>g_path = p, g_scope = e\<rparr>]) = map g_path out"
    and "held out p = Some (g_scope (out ! i))"
  using assms by (induction out arbitrary: i) (auto simp: held_def entry_def split: if_splits)

lemma find_index_held: "find_index (\<lambda>g. g_path g = p) out = None \<longleftrightarrow> held out p = None"
  by (auto simp: find_index_None_iff held_None_iff)

lemma normalise_step:
  assumes "distinct (map g_path out)" "slot_view slot = held out (dot stem ''view'')"
  shows "distinct (map g_path (normalise_step out (stem, slot)))"
    and "held (normalise_step out (stem, slot)) q =
      (if q = dot stem ''view'' then (case slot_edit slot of None \<Rightarrow> held out q
          | Some e \<Rightarrow> Some (case held out q of None \<Rightarrow> e | Some v \<Rightarrow> max v e)) else held out q)"
proof -
  let ?p = "dot stem ''view''"
  have "distinct (map g_path (normalise_step out (stem, slot))) \<and> held (normalise_step out (stem, slot)) q =
      (if q = ?p then (case slot_edit slot of None \<Rightarrow> held out q
          | Some e \<Rightarrow> Some (case held out q of None \<Rightarrow> e | Some v \<Rightarrow> max v e)) else held out q)"
  proof (cases "slot_edit slot")
    case None
    then show ?thesis using assms by (simp add: normalise_step_def Let_def)
  next
    case (Some e)
    show ?thesis
    proof (cases "held out ?p")
      case None
      then have n: "?p \<notin> g_path ` set out" by (simp add: held_None_iff)
      then show ?thesis using assms None Some by (auto simp: normalise_step_def Let_def held_append_new)
    next
      case (Some v)
      then obtain i where i: "find_index (\<lambda>g. g_path g = ?p) out = Some i"
        using find_index_held[of ?p out] by fastforce
      show ?thesis using assms Some i \<open>slot_edit slot = Some e\<close> held_update_at(1,2)[OF i, of e] held_update_at(3)[OF i]
        by (auto simp: normalise_step_def Let_def max_def not_less)
    qed
  qed
  then show "distinct (map g_path (normalise_step out (stem, slot)))"
    and "held (normalise_step out (stem, slot)) q =
      (if q = dot stem ''view'' then (case slot_edit slot of None \<Rightarrow> held out q
          | Some e \<Rightarrow> Some (case held out q of None \<Rightarrow> e | Some v \<Rightarrow> max v e)) else held out q)" by blast+
qed

lemma normalise_fold:
  assumes "distinct (map g_path out)" "distinct (map fst es)" "\<forall>e\<in>set es. slot_view (snd e) = held out (dot (fst e) ''view'')"
  shows "distinct (map g_path (foldl normalise_step out es)) \<and>
    (\<forall>stem slot e. (stem, slot) \<in> set es \<and> slot_edit slot = Some e \<longrightarrow>
       held (foldl normalise_step out es) (dot stem ''view'') =
         Some (case held out (dot stem ''view'') of None \<Rightarrow> e | Some v \<Rightarrow> max v e)) \<and>
    (\<forall>q. (\<forall>stem slot e. (stem, slot) \<in> set es \<and> slot_edit slot = Some e \<longrightarrow> q \<noteq> dot stem ''view'')
       \<longrightarrow> held (foldl normalise_step out es) q = held out q)"
  using assms
proof (induction es arbitrary: out)
  case (Cons x es)
  obtain st sl where x: "x = (st, sl)" by force
  let ?o = "normalise_step out (st, sl)"
  have sv: "slot_view sl = held out (dot st ''view'')" using Cons.prems(3) by (simp add: x)
  note step = normalise_step[OF Cons.prems(1) sv]
  have other: "held ?o (dot (fst e) ''view'') = held out (dot (fst e) ''view'')" if "e \<in> set es" for e
    using that Cons.prems(2) by (simp add: step(2) x) (metis image_eqI)
  have "\<forall>e\<in>set es. slot_view (snd e) = held ?o (dot (fst e) ''view'')"
    using Cons.prems(3) other by simp
  note ih = Cons.IH[OF step(1) _ this]
  have d: "distinct (map fst es)" using Cons.prems(2) by simp
  note ih = ih[OF d]
  have nv: "\<And>slot e. (st, slot) \<in> set es \<Longrightarrow> False" using Cons.prems(2) by (force simp: x)
  show ?case
  proof (intro conjI allI impI)
    show "distinct (map g_path (foldl normalise_step out (x # es)))" using ih by (simp add: x)
  next
    fix stem slot e assume h: "(stem, slot) \<in> set (x # es) \<and> slot_edit slot = Some e"
    show "held (foldl normalise_step out (x # es)) (dot stem ''view'') =
         Some (case held out (dot stem ''view'') of None \<Rightarrow> e | Some v \<Rightarrow> max v e)"
    proof (cases "(stem, slot) = (st, sl)")
      case True
      have "held (foldl normalise_step ?o es) (dot st ''view'') = held ?o (dot st ''view'')"
      proof -
        have "\<forall>stem slot e. (stem, slot) \<in> set es \<and> slot_edit slot = Some e \<longrightarrow> dot st ''view'' \<noteq> dot stem ''view''"
          using nv by auto
        then show ?thesis using ih by blast
      qed
      then show ?thesis using True h by (simp add: x step(2))
    next
      case False
      then have m: "(stem, slot) \<in> set es" using h by (auto simp: x)
      then have "held (foldl normalise_step ?o es) (dot stem ''view'') =
         Some (case held ?o (dot stem ''view'') of None \<Rightarrow> e | Some v \<Rightarrow> max v e)" using ih h by blast
      then show ?thesis using other[OF m] by (simp add: x)
    qed
  next
    fix q assume h: "\<forall>stem slot e. (stem, slot) \<in> set (x # es) \<and> slot_edit slot = Some e \<longrightarrow> q \<noteq> dot stem ''view''"
    have "\<forall>stem slot e. (stem, slot) \<in> set es \<and> slot_edit slot = Some e \<longrightarrow> q \<noteq> dot stem ''view''"
    proof (intro allI impI)
      fix stem slot e assume "(stem, slot) \<in> set es \<and> slot_edit slot = Some e"
      then have "(stem, slot) \<in> set (x # es) \<and> slot_edit slot = Some e" by simp
      then show "q \<noteq> dot stem ''view''" using h by blast
    qed
    then have "held (foldl normalise_step ?o es) q = held ?o q" using ih by blast
    also have "\<dots> = held out q" using h by (auto simp: step(2) x split: option.splits)
    finally show "held (foldl normalise_step out (x # es)) q = held out q" by (simp add: x)
  qed
qed simp

lemma normalise_held:
  assumes "distinct (map g_path gs)"
  shows "distinct (map g_path (normaliseViewEditCoherent gs))"
    and "re_dots stem \<Longrightarrow> held gs (dot stem ''edit'') = Some e \<Longrightarrow>
      held (normaliseViewEditCoherent gs) (dot stem ''view'') =
        Some (case held gs (dot stem ''view'') of None \<Rightarrow> e | Some v \<Rightarrow> max v e)"
    and "(\<And>stem. re_dots stem \<Longrightarrow> held gs (dot stem ''edit'') \<noteq> None \<Longrightarrow> q \<noteq> dot stem ''view'') \<Longrightarrow>
      held (normaliseViewEditCoherent gs) q = held gs q"
proof -
  note lh = last_held_distinct[OF assms]
  have v: "\<forall>e\<in>set (leaf_buckets gs). slot_view (snd e) = held gs (dot (fst e) ''view'')"
    using bucket_entry(2)[of _ _ gs] lh by simp
  have k: "distinct (map fst (leaf_buckets gs))" using bucket_keys by blast
  note f = normalise_fold[OF assms k v, folded normaliseViewEditCoherent_def]
  show "distinct (map g_path (normaliseViewEditCoherent gs))" using f by blast
  show "re_dots stem \<Longrightarrow> held gs (dot stem ''edit'') = Some e \<Longrightarrow>
      held (normaliseViewEditCoherent gs) (dot stem ''view'') =
        Some (case held gs (dot stem ''view'') of None \<Rightarrow> e | Some v \<Rightarrow> max v e)"
    using bucket_of_edit[of stem gs e] f by (metis lh)
  assume q: "\<And>stem. re_dots stem \<Longrightarrow> held gs (dot stem ''edit'') \<noteq> None \<Longrightarrow> q \<noteq> dot stem ''view''"
  have "\<forall>stem slot e. (stem, slot) \<in> set (leaf_buckets gs) \<and> slot_edit slot = Some e \<longrightarrow> q \<noteq> dot stem ''view''"
    using q bucket_entry(1,3) lh by (metis option.distinct(1))
  then show "held (normaliseViewEditCoherent gs) q = held gs q" using f by blast
qed

lemma covers_mono: "covers (Some v) r \<Longrightarrow> v \<le> w \<Longrightarrow> covers (Some w) r"
  by (auto simp: covers_def split: option.splits)

lemma normalise_widens:
  assumes "distinct (map g_path gs)" "covers (held gs p) r"
  shows "covers (held (normaliseViewEditCoherent gs) p) r"
proof (cases "\<exists>stem e. re_dots stem \<and> held gs (dot stem ''edit'') = Some e \<and> p = dot stem ''view''")
  case True
  then obtain stem e where s: "re_dots stem" "held gs (dot stem ''edit'') = Some e" "p = dot stem ''view''" by blast
  show ?thesis using normalise_held(2)[OF assms(1) s(1,2)] assms(2) s(3)
    by (cases "held gs p") (auto simp: covers_def max.coboundedI1 split: option.splits)
next
  case False
  then show ?thesis using normalise_held(3)[OF assms(1), of p] assms(2) by force
qed

text \<open>An edit leaf of the registry has a view leaf beside it, without prerequisites.\<close>

lemma view_beside_edit:
  assumes "isValidPermissionPath (dot stem ''edit'')"
  shows "isValidPermissionPath (dot stem ''view'')" "prerequisites (dot stem ''view'') = []"
proof -
  have c: "list_all (\<lambda>p. List.member leaf_path_table (take (length p - 5) p @ ''.view'') \<and>
      map_of prerequisite_table (take (length p - 5) p @ ''.view'') = None) (filter (\<lambda>p. ends_with p ''.edit'') leaf_path_table)"
    by code_simp
  have "ends_with (dot stem ''edit'') ''.edit''" "take (length (dot stem ''edit'') - 5) (dot stem ''edit'') @ ''.view'' = dot stem ''view''"
    by (simp_all add: ends_with_def dot_def)
  then have "isValidPermissionPath (dot stem ''view'') \<and> map_of prerequisite_table (dot stem ''view'') = None"
    using c assms by (auto simp: list_all_iff valid_path_iff)
  then show "isValidPermissionPath (dot stem ''view'')" "prerequisites (dot stem ''view'') = []"
    by (simp_all add: prerequisites_lookup)
qed

lemma normalise_paths:
  assumes "distinct (map g_path gs)" "g \<in> set (normaliseViewEditCoherent gs)"
  shows "g_path g \<in> g_path ` set gs \<or> (\<exists>stem. g_path g = dot stem ''view'' \<and> dot stem ''edit'' \<in> g_path ` set gs)"
proof (rule ccontr)
  assume n: "\<not> ?thesis"
  have "held (normaliseViewEditCoherent gs) (g_path g) \<noteq> None" using assms(2) by (auto simp: held_None_iff)
  moreover have "held (normaliseViewEditCoherent gs) (g_path g) = held gs (g_path g)"
    using n by (intro normalise_held(3)[OF assms(1)]) (auto simp: held_None_iff)
  ultimately show False using n by (auto simp: held_None_iff)
qed

lemma normalise_valid:
  assumes "distinct (map g_path gs)" "\<forall>g\<in>set gs. isValidPermissionPath (g_path g)"
  shows "\<forall>g\<in>set (normaliseViewEditCoherent gs). isValidPermissionPath (g_path g)"
  using normalise_paths[OF assms(1)] assms(2) view_beside_edit(1) by fastforce

lemma normalise_makes_coherent:
  assumes "distinct (map g_path gs)" "\<forall>g\<in>set gs. isValidPermissionPath (g_path g)"
  shows "assertViewEditCoherent (normaliseViewEditCoherent gs) = None"
  unfolding coherent_iff
proof (intro conjI allI impI)
  show "\<forall>g\<in>set (normaliseViewEditCoherent gs). isValidPermissionPath (g_path g)"
    using normalise_valid[OF assms] .
next
  fix stem e
  note lh = last_held_distinct[OF normalise_held(1)[OF assms(1)]]
  assume h: "re_dots stem \<and> last_held (normaliseViewEditCoherent gs) (dot stem ''edit'') = Some e"
  have "held (normaliseViewEditCoherent gs) (dot stem ''edit'') = held gs (dot stem ''edit'')"
    by (rule normalise_held(3)[OF assms(1)]) simp
  then have "held gs (dot stem ''edit'') = Some e" using h lh by simp
  then show "covers (last_held (normaliseViewEditCoherent gs) (dot stem ''view'')) (Some e)"
    using normalise_held(2)[OF assms(1), of stem e] h
    by (cases "held gs (dot stem ''view'')") (auto simp: lh covers_def)
qed

end
