(* ===== verification/RbacDeps.thy ===== *)
theory RbacDeps
  imports RbacCoherence
begin

text \<open>
  The dependency resolver: one pass of \<open>resolveImplicitDeps\<close> supplies the prerequisites of the
  grants it was given but not those of the grants it adds; on this registry three passes reach
  a grant list that \<open>assertDepsResolved\<close> accepts, and the view/edit completion keeps it accepted.
\<close>

section \<open>One requirement\<close>

lemma add_requirement:
  assumes "distinct (map g_path out)"
  shows "distinct (map g_path (add_requirement out req))"
    and "held (add_requirement out req) p =
      (if p = fst req then Some (case held out p of None \<Rightarrow> coalesce (snd req) Self_scope
          | Some s \<Rightarrow> (case snd req of None \<Rightarrow> s | Some q \<Rightarrow> max s q)) else held out p)"
proof -
  have "distinct (map g_path (add_requirement out req)) \<and> held (add_requirement out req) p =
      (if p = fst req then Some (case held out p of None \<Rightarrow> coalesce (snd req) Self_scope
          | Some s \<Rightarrow> (case snd req of None \<Rightarrow> s | Some q \<Rightarrow> max s q)) else held out p)"
  proof (cases "find_index (\<lambda>g. g_path g = fst req) out")
    case None
    then have "held out (fst req) = None" "fst req \<notin> g_path ` set out"
      by (auto simp: find_index_held simp flip: held_None_iff)
    then show ?thesis using assms by (auto simp: add_requirement_def None held_append_new)
  next
    case (Some i)
    show ?thesis
    proof (cases "snd req")
      case None
      then show ?thesis using assms held_update_at(3)[OF Some] by (simp add: add_requirement_def Some)
    next
      case q: (Some q)
      show ?thesis using assms held_update_at(1,2)[OF Some, of q] held_update_at(3)[OF Some] q
        by (auto simp: add_requirement_def Some max_def not_less)
    qed
  qed
  then show "distinct (map g_path (add_requirement out req))"
    and "held (add_requirement out req) p =
      (if p = fst req then Some (case held out p of None \<Rightarrow> coalesce (snd req) Self_scope
          | Some s \<Rightarrow> (case snd req of None \<Rightarrow> s | Some q \<Rightarrow> max s q)) else held out p)" by blast+
qed

section \<open>One pass\<close>

lemma add_requirement_widens:
  "distinct (map g_path out) \<Longrightarrow> covers (held out p) r \<Longrightarrow> covers (held (add_requirement out req) p) r"
  by (cases "held out p") (auto simp: add_requirement covers_def max.coboundedI1 split: option.splits)

lemma add_requirement_covers: "distinct (map g_path out) \<Longrightarrow> covers (held (add_requirement out req) (fst req)) (snd req)"
  by (auto simp: add_requirement covers_def split: option.splits)

lemma fold_distinct: "distinct (map g_path out) \<Longrightarrow> distinct (map g_path (foldl add_requirement out reqs))"
  by (induction reqs arbitrary: out) (simp_all add: add_requirement(1))

lemma fold_widens:
  "distinct (map g_path out) \<Longrightarrow> covers (held out p) r \<Longrightarrow> covers (held (foldl add_requirement out reqs) p) r"
  by (induction reqs arbitrary: out) (simp_all add: add_requirement(1) add_requirement_widens)

lemma fold_covers:
  "distinct (map g_path out) \<Longrightarrow> req \<in> set reqs \<Longrightarrow>
     covers (held (foldl add_requirement out reqs) (fst req)) (snd req)"
proof (induction reqs arbitrary: out)
  case (Cons x reqs)
  have "covers (held (foldl add_requirement (add_requirement out x) reqs) (fst x)) (snd x)"
    by (intro fold_widens add_requirement Cons.prems add_requirement_covers)
  moreover have "req \<in> set reqs \<Longrightarrow> covers (held (foldl add_requirement (add_requirement out x) reqs) (fst req)) (snd req)"
    by (intro Cons.IH add_requirement Cons.prems)
  ultimately show ?case using Cons.prems(2) by (metis foldl_Cons set_ConsD)
qed simp

lemma fold_new:
  "distinct (map g_path out) \<Longrightarrow> held (foldl add_requirement out reqs) p \<noteq> None \<Longrightarrow>
     held out p \<noteq> None \<or> p \<in> fst ` set reqs"
proof (induction reqs arbitrary: out)
  case (Cons x reqs)
  then have "held (add_requirement out x) p \<noteq> None \<or> p \<in> fst ` set reqs"
    using add_requirement(1)[OF Cons.prems(1), of x] by (metis foldl_Cons)
  then show ?case using add_requirement(2)[OF Cons.prems(1), of x p] by (auto split: if_splits)
qed simp

lemmas requirements_fold = fold_distinct fold_widens fold_covers fold_new

definition requirements_of :: "grant list \<Rightarrow> (string \<times> perm_scope option) list" where
  "requirements_of gs = concat (map (\<lambda>g. prerequisites (g_path g)) gs)"

lemma resolve_fold: "foldl resolve_grant out gs = foldl add_requirement out (requirements_of gs)"
  by (induction gs arbitrary: out) (simp_all add: requirements_of_def resolve_grant_def)

lemma resolve_unfold: "resolveImplicitDeps gs = foldl add_requirement gs (requirements_of gs)"
  by (simp add: resolveImplicitDeps_def resolve_fold)

section \<open>Three passes\<close>

definition resolved :: "grant list \<Rightarrow> string \<Rightarrow> bool" where
  "resolved gs p \<longleftrightarrow> (\<forall>req\<in>set (prerequisites p). covers (held gs (fst req)) (snd req))"

definition well_formed :: "grant list \<Rightarrow> bool" where
  "well_formed gs \<longleftrightarrow> distinct (map g_path gs) \<and> (\<forall>g\<in>set gs. isValidPermissionPath (g_path g))"

lemma deps_iff:
  assumes "well_formed gs"
  shows "assertDepsResolved gs = None \<longleftrightarrow> (\<forall>g\<in>set gs. resolved gs (g_path g))"
proof -
  have h: "map_of (js_map_of (map entry gs)) = held gs"
    using assms by (simp add: well_formed_def held_def js_map_of_distinct comp_def)
  have v: "first_error unknown_path gs = None" using assms by (simp add: unknown_path_def well_formed_def)
  have r: "requirement_error (js_map_of (map entry gs)) p req = None \<longleftrightarrow> covers (held gs (fst req)) (snd req)" for p req
    by (auto simp: requirement_error_def covers_def h not_less split: option.splits)
  show ?thesis by (simp add: assertDepsResolved_def v Let_def r resolved_def)
qed

lemma resolve_pass:
  assumes "well_formed gs"
  shows "well_formed (resolveImplicitDeps gs)"
    and "covers (held gs p) r \<Longrightarrow> covers (held (resolveImplicitDeps gs) p) r"
    and "g \<in> set gs \<Longrightarrow> resolved (resolveImplicitDeps gs) (g_path g)"
    and "g \<in> set (resolveImplicitDeps gs) \<Longrightarrow> g_path g \<in> g_path ` set gs \<or> g_path g \<in> fst ` set (requirements_of gs)"
proof -
  have d: "distinct (map g_path gs)" using assms by (simp add: well_formed_def)
  note f = requirements_fold[OF d, where reqs = "requirements_of gs", folded resolve_unfold]
  show new: "g_path g \<in> g_path ` set gs \<or> g_path g \<in> fst ` set (requirements_of gs)"
    if "g \<in> set (resolveImplicitDeps gs)" for g
    using f(4)[where p = "g_path g"] that by (auto simp: held_None_iff)
  have "isValidPermissionPath (fst r)" if r: "r \<in> set (requirements_of gs)" for r
  proof -
    obtain g where "g \<in> set gs" "r \<in> set (prerequisites (g_path g))" using r by (auto simp: requirements_of_def)
    then show ?thesis using assms required_valid[of "g_path g" r] by (simp add: well_formed_def)
  qed
  then show "well_formed (resolveImplicitDeps gs)"
    using f(1) new assms by (fastforce simp: well_formed_def)
  show "covers (held gs p) r \<Longrightarrow> covers (held (resolveImplicitDeps gs) p) r" by (rule f(2))
  show "g \<in> set gs \<Longrightarrow> resolved (resolveImplicitDeps gs) (g_path g)"
    unfolding resolved_def using f(3) by (auto simp: requirements_of_def)
qed

lemma resolve_pass_except:
  assumes wf: "well_formed gs" and ex: "\<forall>g\<in>set gs. g_path g \<in> set A \<or> resolved gs (g_path g)"
  shows "\<forall>g\<in>set (resolveImplicitDeps gs). g_path g \<in> set (required_by A) \<or> resolved (resolveImplicitDeps gs) (g_path g)"
proof
  fix g assume g: "g \<in> set (resolveImplicitDeps gs)"
  show "g_path g \<in> set (required_by A) \<or> resolved (resolveImplicitDeps gs) (g_path g)"
  proof (cases "g_path g \<in> g_path ` set gs")
    case True
    then show ?thesis using resolve_pass(3)[OF wf] by fastforce
  next
    case False
    then obtain q req where q: "q \<in> set gs" "req \<in> set (prerequisites (g_path q))" "g_path g = fst req"
      using resolve_pass(4)[OF wf g] by (auto simp: requirements_of_def)
    have "\<not> resolved gs (g_path q)"
    proof
      assume "resolved gs (g_path q)"
      then have "covers (held gs (fst req)) (snd req)" using q(2) by (simp add: resolved_def)
      then show False using False q(3) by (simp add: covers_def held_None_iff[symmetric] split: option.splits)
    qed
    then have "g_path q \<in> set A" using ex q(1) by blast
    then show ?thesis using required_by_table[OF _ q(2)] wf q(1,3) by (simp add: well_formed_def)
  qed
qed

lemma three_passes:
  assumes "well_formed gs"
  shows "well_formed (resolveImplicitDeps (resolveImplicitDeps (resolveImplicitDeps gs)))"
    and "covers (held gs p) r \<Longrightarrow> covers (held (resolveImplicitDeps (resolveImplicitDeps (resolveImplicitDeps gs))) p) r"
    and "assertDepsResolved (resolveImplicitDeps (resolveImplicitDeps (resolveImplicitDeps gs))) = None"
proof -
  let ?r = resolveImplicitDeps
  note w1 = resolve_pass(1)[OF assms] note w2 = resolve_pass(1)[OF w1] note w3 = resolve_pass(1)[OF w2]
  show "well_formed (?r (?r (?r gs)))" by (rule w3)
  show "covers (held gs p) r \<Longrightarrow> covers (held (?r (?r (?r gs))) p) r"
    using resolve_pass(2)[OF assms] resolve_pass(2)[OF w1] resolve_pass(2)[OF w2] by blast
  have "\<forall>g\<in>set gs. g_path g \<in> set allPermissionPaths \<or> resolved gs (g_path g)"
    using assms by (simp add: well_formed_def isValidPermissionPath_def)
  from resolve_pass_except[OF w2 resolve_pass_except[OF w1 resolve_pass_except[OF assms this]]]
  have e: "\<forall>g\<in>set (?r (?r (?r gs))). g_path g \<in> set (required_by (required_by (required_by allPermissionPaths)))
      \<or> resolved (?r (?r (?r gs))) (g_path g)" .
  have "resolved (?r (?r (?r gs))) (g_path g)" if g: "g \<in> set (?r (?r (?r gs)))" for g
  proof (cases "g_path g \<in> set (required_by (required_by (required_by allPermissionPaths)))")
    case True
    have "prerequisites (g_path g) = []"
    proof (rule ccontr)
      assume "prerequisites (g_path g) \<noteq> []"
      then have "last (prerequisites (g_path g)) \<in> set (prerequisites (g_path g))" by simp
      from required_by_table[OF _ this True] show False
        using prerequisite_depth w3 g by (simp add: well_formed_def)
    qed
    then show ?thesis by (simp add: resolved_def)
  next
    case False
    then show ?thesis using e g by blast
  qed
  then show "assertDepsResolved (?r (?r (?r gs))) = None" using deps_iff[OF w3] by blast
qed

lemma normalise_keeps_deps:
  assumes wf: "well_formed gs" and d: "assertDepsResolved gs = None"
  shows "well_formed (normaliseViewEditCoherent gs)" "assertDepsResolved (normaliseViewEditCoherent gs) = None"
proof -
  have ds: "distinct (map g_path gs)" and v: "\<forall>g\<in>set gs. isValidPermissionPath (g_path g)"
    using wf by (simp_all add: well_formed_def)
  show w: "well_formed (normaliseViewEditCoherent gs)"
    using normalise_held(1)[OF ds] normalise_valid[OF ds v] by (simp add: well_formed_def)
  have "resolved (normaliseViewEditCoherent gs) (g_path g)" if g: "g \<in> set (normaliseViewEditCoherent gs)" for g
    using normalise_paths[OF ds g]
  proof
    assume "g_path g \<in> g_path ` set gs"
    then have "resolved gs (g_path g)" using d deps_iff[OF wf] by auto
    then show ?thesis using normalise_widens[OF ds] by (simp add: resolved_def)
  next
    assume "\<exists>stem. g_path g = dot stem ''view'' \<and> dot stem ''edit'' \<in> g_path ` set gs"
    then show ?thesis using view_beside_edit(2) v by (force simp: resolved_def)
  qed
  then show "assertDepsResolved (normaliseViewEditCoherent gs) = None" using deps_iff[OF w] by blast
qed

section \<open>Properties\<close>

definition complete_grants :: "grant list \<Rightarrow> grant list" where
  \<comment> \<open>three resolver passes and the view/edit completion\<close>
  "complete_grants gs =
     normaliseViewEditCoherent (resolveImplicitDeps (resolveImplicitDeps (resolveImplicitDeps gs)))"

text \<open>
  Completing any list of registered grants with distinct paths by three dependency passes and
  the view/edit promotion gives a list that both save-time checks accept, that still satisfies
  every requirement the original list satisfied, and that has distinct registered paths.
\<close>

theorem completed_grants_accepted:
  assumes "distinct (map g_path gs)" "\<forall>g\<in>set gs. isValidPermissionPath (g_path g)"
  shows "assertViewEditCoherent (complete_grants gs) = None \<and> assertDepsResolved (complete_grants gs) = None
     \<and> (\<forall>p r. pathGrantSatisfies gs p r \<longrightarrow> pathGrantSatisfies (complete_grants gs) p r)
     \<and> distinct (map g_path (complete_grants gs)) \<and> (\<forall>g\<in>set (complete_grants gs). isValidPermissionPath (g_path g))"
proof -
  have wf: "well_formed gs" using assms by (simp add: well_formed_def)
  note t = three_passes[OF wf]
  note n = normalise_keeps_deps[OF t(1) t(3), folded complete_grants_def]
  have d: "distinct (map g_path (resolveImplicitDeps (resolveImplicitDeps (resolveImplicitDeps gs))))"
    and v: "\<forall>g\<in>set (resolveImplicitDeps (resolveImplicitDeps (resolveImplicitDeps gs))). isValidPermissionPath (g_path g)"
    using t(1) by (simp_all add: well_formed_def)
  have "assertViewEditCoherent (complete_grants gs) = None"
    unfolding complete_grants_def by (rule normalise_makes_coherent[OF d v])
  moreover have "\<forall>p r. pathGrantSatisfies gs p r \<longrightarrow> pathGrantSatisfies (complete_grants gs) p r"
    using t(2) normalise_widens[OF d] by (simp add: satisfies_iff complete_grants_def)
  ultimately show ?thesis using n by (simp add: well_formed_def)
qed

theorem completed_grants_accepted_witness:
  "assertDepsResolved (complete_grants [\<lparr>g_path = ''team.member.create'', g_scope = All_scope\<rparr>]) = None"
proof -
  have "isValidPermissionPath ''team.member.create''" unfolding valid_path_iff leaf_path_table_def by simp
  then show ?thesis
    using completed_grants_accepted[of "[\<lparr>g_path = ''team.member.create'', g_scope = All_scope\<rparr>]"] by simp
qed

text \<open>
  One pass of the resolver is not enough on this registry: for the single grant
  \<open>leave.delegation.manage\<close> it adds \<open>leave.approval.decide\<close> at scope \<open>self\<close> only, and the check run at
  every save rejects the result because \<open>leave.approval.decide\<close> itself requires \<open>leave.request.view\<close>.
\<close>

theorem one_pass_is_rejected:
  "let r = resolveImplicitDeps [\<lparr>g_path = ''leave.delegation.manage'', g_scope = All_scope\<rparr>]
   in r = [\<lparr>g_path = ''leave.delegation.manage'', g_scope = All_scope\<rparr>, \<lparr>g_path = ''leave.approval.decide'', g_scope = Self_scope\<rparr>]
      \<and> assertDepsResolved r = Some (Requirement_missing ''leave.approval.decide'' ''leave.request.view'')"
proof -
  have v: "isValidPermissionPath ''leave.delegation.manage''" "isValidPermissionPath ''leave.approval.decide''"
    unfolding valid_path_iff leaf_path_table_def by simp_all
  have p: "prerequisites ''leave.delegation.manage'' = [(''leave.approval.decide'', None)]"
    "prerequisites ''leave.approval.decide'' = [(''leave.request.view'', Some All_scope)]"
    using v by (simp_all add: prerequisites_lookup prerequisite_table_def)
  have r: "resolveImplicitDeps [\<lparr>g_path = ''leave.delegation.manage'', g_scope = All_scope\<rparr>] =
      [\<lparr>g_path = ''leave.delegation.manage'', g_scope = All_scope\<rparr>, \<lparr>g_path = ''leave.approval.decide'', g_scope = Self_scope\<rparr>]"
    by (simp add: resolveImplicitDeps_def resolve_grant_def p add_requirement_def)
  show ?thesis
    by (simp add: r Let_def assertDepsResolved_def unknown_path_def v p js_map_of_def entry_def requirement_error_def)
qed

end
