(* ===== verification/RbacConverter.thy ===== *)
theory RbacConverter
  imports RbacDeps
begin

text \<open>
  The legacy flat permissions and their conversion to path grants,
  \<open>rbac/permission-path.converter.ts\<close>.  A \<open>Record\<close> of the source is an association list; the
  entries of \<open>actionScopes\<close> are options because a write past the end of the array leaves holes.
\<close>

section \<open>Flat permissions\<close>

record flat_permission =
  fp_module :: string
  fp_actions :: "string list"
  fp_actionScopes :: "perm_scope option list option"

definition scope_at :: "perm_scope option list option \<Rightarrow> nat \<Rightarrow> perm_scope" where
  \<comment> \<open>\<open>actionScopes?.[i] ?? 'self'\<close>\<close>
  "scope_at scopes i =
     (case scopes of None \<Rightarrow> Self_scope
      | Some ss \<Rightarrow> if i < length ss then coalesce (ss ! i) Self_scope else Self_scope)"

definition TEAM_ACTION_PATHS :: "(string \<times> string list) list" where
  "TEAM_ACTION_PATHS =
    [(''view'', [''team.directory.view'', ''team.profile.personal.view'', ''team.profile.job.view'',
        ''team.profile.documents.view'']),
     (''edit'', [''team.profile.personal.edit'', ''team.profile.job.edit'', ''team.profile.documents.edit'']),
     (''create'', [''team.member.create'']),
     (''remove'', [''team.member.delete'']),
     (''delete'', [''team.member.delete''])]"

definition ATTENDANCE_ACTION_PATHS :: "(string \<times> string list) list" where
  "ATTENDANCE_ACTION_PATHS =
    [(''view'', [''attendance.record.view'']),
     (''mark'', [''attendance.record.mark'', ''attendance.selfPunch.create'']),
     (''edit'', [''attendance.record.edit'']),
     (''export'', [''attendance.export.export'']),
     (''manage_anomalies'', [''attendance.anomaly.manage'']),
     (''manage_devices'', [''attendance.device.manage'']),
     (''manage_policies'', [''attendance.policy.manage'']),
     (''manage_regularizations'',
       [''regularization.request.apply'', ''regularization.request.view'', ''regularization.request.cancel''])]"

definition LEAVE_ACTION_PATHS :: "(string \<times> string list) list" where
  "LEAVE_ACTION_PATHS =
    [(''view'', [''leave.request.view'', ''leave.balance.view'']),
     (''apply_leave'', [''leave.request.apply'', ''leave.request.cancel'', ''leave.compOff.apply'']),
     (''approve_leave'', [''leave.approval.decide'', ''leave.compOff.decide'', ''leave.delegation.manage'']),
     (''manage_leave'', [''leave.type.manage'', ''leave.settings.manage''])]"

definition HOLIDAYS_ACTION_PATHS :: "(string \<times> string list) list" where
  "HOLIDAYS_ACTION_PATHS =
    [(''view'', [''holidays.calendar.view'']), (''create'', [''holidays.calendar.create'']),
     (''edit'', [''holidays.calendar.edit'']), (''delete'', [''holidays.calendar.delete''])]"

definition SHIFTS_ACTION_PATHS :: "(string \<times> string list) list" where
  "SHIFTS_ACTION_PATHS =
    [(''view'', [''shifts.catalog.view'']), (''create'', [''shifts.catalog.create'']),
     (''edit'', [''shifts.catalog.edit'']), (''delete'', [''shifts.catalog.delete''])]"

definition MODULE_ACTION_PATHS :: "(string \<times> (string \<times> string list) list) list" where
  "MODULE_ACTION_PATHS =
    [(''team'', TEAM_ACTION_PATHS), (''attendance'', ATTENDANCE_ACTION_PATHS), (''leave'', LEAVE_ACTION_PATHS),
     (''holidays'', HOLIDAYS_ACTION_PATHS), (''shifts'', SHIFTS_ACTION_PATHS)]"

lemmas action_tables = MODULE_ACTION_PATHS_def TEAM_ACTION_PATHS_def ATTENDANCE_ACTION_PATHS_def
  LEAVE_ACTION_PATHS_def HOLIDAYS_ACTION_PATHS_def SHIFTS_ACTION_PATHS_def

definition set_wider :: "perm_scope \<Rightarrow> (string \<times> perm_scope) list \<Rightarrow> string \<Rightarrow> (string \<times> perm_scope) list" where
  "set_wider scope out path = (if map_of out path = Some All_scope then out else AList.update path scope out)"

definition convert_action :: "(string \<times> string list) list \<Rightarrow> perm_scope option list option
    \<Rightarrow> (string \<times> perm_scope) list \<Rightarrow> nat \<times> string \<Rightarrow> (string \<times> perm_scope) list" where
  "convert_action actionMap scopes out ia =
     (case map_of actionMap (snd ia) of None \<Rightarrow> out
      | Some paths \<Rightarrow> foldl (set_wider (scope_at scopes (fst ia))) out paths)"

definition convert_perm :: "(string \<times> perm_scope) list \<Rightarrow> flat_permission \<Rightarrow> (string \<times> perm_scope) list" where
  "convert_perm out perm =
     (case map_of MODULE_ACTION_PATHS (fp_module perm) of None \<Rightarrow> out
      | Some actionMap \<Rightarrow> foldl (convert_action actionMap (fp_actionScopes perm)) out (List.enumerate 0 (fp_actions perm)))"

definition flatGrantsToPaths :: "flat_permission list \<Rightarrow> grant list" where
  "flatGrantsToPaths permissions = map of_entry (foldl convert_perm [] permissions)"

section \<open>Overrides of the Team module\<close>

definition LEGACY_ACTION_ALIASES :: "(string \<times> string) list" where
  "LEGACY_ACTION_ALIASES = [(''remove'', ''delete'')]"

definition denyPathsFor :: "string \<Rightarrow> string \<Rightarrow> string list" where
  "denyPathsFor modl action =
     (let segment = coalesce (map_of LEGACY_ACTION_ALIASES action) action
      in filter (\<lambda>p. starts_with p (modl @ ''.'') \<and> ends_with p (CHR ''.'' # segment)) allPermissionPaths)"

record flat_override =
  fo_module :: string
  fo_action :: string
  fo_allowed :: bool
  fo_scope :: "perm_scope option"

definition flatTeamOverrideToPathOverrides :: "flat_override \<Rightarrow> path_override list" where
  "flatTeamOverrideToPathOverrides ov =
     (if fo_module ov \<noteq> ''team'' then []
      else if fo_allowed ov
      then map (\<lambda>path. \<lparr>po_path = path, po_allowed = True, po_scope = Some (coalesce (fo_scope ov) Self_scope)\<rparr>)
             (coalesce (map_of TEAM_ACTION_PATHS (fo_action ov)) [])
      else map (\<lambda>path. \<lparr>po_path = path, po_allowed = False, po_scope = None\<rparr>) (denyPathsFor ''team'' (fo_action ov)))"

section \<open>What the conversion grants\<close>

definition requested_of :: "flat_permission \<Rightarrow> (string \<times> perm_scope) list" where
  \<comment> \<open>the path and scope pairs that a flat permission stands for, one by one\<close>
  "requested_of perm = (case map_of MODULE_ACTION_PATHS (fp_module perm) of None \<Rightarrow> []
     | Some actionMap \<Rightarrow> concat (map (\<lambda>ia. map (\<lambda>path. (path, scope_at (fp_actionScopes perm) (fst ia)))
           (coalesce (map_of actionMap (snd ia)) [])) (List.enumerate 0 (fp_actions perm))))"

definition requested :: "flat_permission list \<Rightarrow> (string \<times> perm_scope) list" where
  "requested permissions = concat (map requested_of permissions)"

definition add_wider :: "(string \<times> perm_scope) list \<Rightarrow> string \<times> perm_scope \<Rightarrow> (string \<times> perm_scope) list" where
  "add_wider out e = set_wider (snd e) out (fst e)"

lemma convert_action_requested: "convert_action m sc out ia =
    foldl add_wider out (map (\<lambda>path. (path, scope_at sc (fst ia))) (coalesce (map_of m (snd ia)) []))"
proof -
  have "foldl (set_wider s) out ps = foldl add_wider out (map (\<lambda>path. (path, s)) ps)" for s out ps
    by (induction ps arbitrary: out) (simp_all add: add_wider_def)
  then show ?thesis by (simp add: convert_action_def split: option.splits)
qed

lemma convert_actions: "foldl (convert_action m sc) out ias =
    foldl add_wider out (concat (map (\<lambda>ia. map (\<lambda>path. (path, scope_at sc (fst ia))) (coalesce (map_of m (snd ia)) [])) ias))"
  by (induction ias arbitrary: out) (simp_all add: convert_action_requested)

lemma converted: "foldl convert_perm [] perms = foldl add_wider [] (requested perms)"
proof -
  have "convert_perm out perm = foldl add_wider out (requested_of perm)" for out perm
    by (simp add: convert_perm_def convert_actions requested_of_def split: option.splits)
  then have "foldl convert_perm out perms = foldl add_wider out (requested perms)" for out
    by (induction perms arbitrary: out) (simp_all add: requested_def)
  then show ?thesis .
qed

lemma add_wider_distinct: "distinct (map fst out) \<Longrightarrow> distinct (map fst (foldl add_wider out es))"
  by (induction es arbitrary: out) (simp_all add: add_wider_def set_wider_def distinct_update)

lemma add_wider_final: "map_of (foldl add_wider out es) p =
    (if map_of out p = Some All_scope \<or> (p, All_scope) \<in> set es then Some All_scope
     else if map_of out p \<noteq> None \<or> p \<in> fst ` set es then Some Self_scope else None)"
proof (induction es arbitrary: out)
  case Nil
  then show ?case by (cases "map_of out p"; cases "the (map_of out p)") auto
next
  case (Cons e es)
  have "map_of (add_wider out e) p =
      (if p = fst e then Some (if map_of out p = Some All_scope then All_scope else snd e) else map_of out p)"
    by (auto simp: add_wider_def set_wider_def)
  then show ?case using Cons[of "add_wider out e"] by (cases e; cases "snd e") auto
qed

definition granted_path :: "string \<Rightarrow> bool" where
  \<comment> \<open>a path of the conversion tables\<close>
  "granted_path p \<longleftrightarrow> p \<in> set (concat (map (\<lambda>m. concat (map snd (snd m))) MODULE_ACTION_PATHS))"

lemma requested_granted: "(p, s) \<in> set (requested perms) \<Longrightarrow> granted_path p"
proof -
  assume "(p, s) \<in> set (requested perms)"
  then obtain perm where "(p, s) \<in> set (requested_of perm)" by (auto simp: requested_def)
  then obtain m ia where m: "map_of MODULE_ACTION_PATHS (fp_module perm) = Some m"
    and p: "p \<in> set (coalesce (map_of m (snd ia)) [])"
    by (cases "map_of MODULE_ACTION_PATHS (fp_module perm)") (auto simp: requested_of_def)
  then obtain ps where "map_of m (snd ia) = Some ps" "p \<in> set ps" by (cases "map_of m (snd ia)") auto
  then have "\<exists>e\<in>set m. p \<in> set (snd e)" using map_of_SomeD by force
  then show "granted_path p" using map_of_SomeD[OF m] by (force simp: granted_path_def)
qed

definition sensitive_path :: "string \<Rightarrow> bool" where
  \<comment> \<open>the node of the path is marked sensitive\<close>
  "sensitive_path p = (case nodeForActionPath p of None \<Rightarrow> False | Some n \<Rightarrow> node_sensitive n)"

lemma granted_paths_registered:
  assumes "granted_path p"
  shows "isValidPermissionPath p" "sensitive_path p \<Longrightarrow> p = ''attendance.export.export''"
proof -
  have "list_all (List.member leaf_path_table) (concat (map (\<lambda>m. concat (map snd (snd m))) MODULE_ACTION_PATHS))"
    by code_simp
  then show "isValidPermissionPath p" using assms by (fastforce simp: list_all_iff granted_path_def valid_path_iff)
  have "list_all (\<lambda>p. p = ''attendance.export.export'' \<or> \<not> sensitive_path p)
      (concat (map (\<lambda>m. concat (map snd (snd m))) MODULE_ACTION_PATHS))"
    by code_simp
  then show "sensitive_path p \<Longrightarrow> p = ''attendance.export.export''"
    using assms by (auto simp: list_all_iff granted_path_def)
qed

section \<open>Properties\<close>

text \<open>
  The conversion of flat permissions to path grants is exact: a requirement is satisfied by the
  result if and only if one of the single grants the permissions stand for satisfies it, so the
  wider scope wins and the order of the permissions does not matter.  The result has distinct
  registered paths, and the only sensitive one it can contain is \<open>attendance.export.export\<close>.
\<close>

theorem conversion_exact:
  "(\<forall>p r. pathGrantSatisfies (flatGrantsToPaths perms) p r \<longleftrightarrow> (\<exists>s. (p, s) \<in> set (requested perms) \<and> covers (Some s) r))
   \<and> distinct (map g_path (flatGrantsToPaths perms))
   \<and> (\<forall>g\<in>set (flatGrantsToPaths perms). isValidPermissionPath (g_path g)
        \<and> (sensitive_path (g_path g) \<longrightarrow> g_path g = ''attendance.export.export''))"
proof -
  have h: "held (flatGrantsToPaths perms) p = (if (p, All_scope) \<in> set (requested perms) then Some All_scope
      else if p \<in> fst ` set (requested perms) then Some Self_scope else None)" for p
    by (simp add: held_def flatGrantsToPaths_def comp_def converted add_wider_final)
  have sat: "pathGrantSatisfies (flatGrantsToPaths perms) p r \<longleftrightarrow> (\<exists>s. (p, s) \<in> set (requested perms) \<and> covers (Some s) r)" for p r
  proof (cases "(p, All_scope) \<in> set (requested perms)")
    case True
    then show ?thesis by (auto simp: satisfies_iff h covers_def split: option.splits)
  next
    case False
    then have "(p, s) \<in> set (requested perms) \<Longrightarrow> s = Self_scope" for s by (cases s) auto
    then show ?thesis using False by (cases "p \<in> fst ` set (requested perms)") (force simp: satisfies_iff h covers_def)+
  qed
  have d: "distinct (map g_path (flatGrantsToPaths perms))"
    using add_wider_distinct[of "[]" "requested perms"] by (simp add: flatGrantsToPaths_def converted comp_def)
  have "granted_path (g_path g)" if g: "g \<in> set (flatGrantsToPaths perms)" for g
  proof -
    have "held (flatGrantsToPaths perms) (g_path g) \<noteq> None" using g by (auto simp: held_None_iff)
    then have "g_path g \<in> fst ` set (requested perms)" by (force simp: h split: if_splits)
    then show ?thesis using requested_granted by force
  qed
  then show ?thesis using sat d granted_paths_registered by blast
qed

theorem conversion_exact_witness:
  "pathGrantSatisfies (flatGrantsToPaths
     [\<lparr>fp_module = ''shifts'', fp_actions = [''view'', ''edit''], fp_actionScopes = Some [Some All_scope]\<rparr>])
     ''shifts.catalog.view'' (Some All_scope)"
  using conversion_exact[of "[\<lparr>fp_module = ''shifts'', fp_actions = [''view'', ''edit''], fp_actionScopes = Some [Some All_scope]\<rparr>]"]
  by (auto simp: requested_def requested_of_def action_tables scope_at_def covers_def)

lemma deny_paths:
  "set (denyPathsFor ''team'' action) =
     {p. isValidPermissionPath p \<and> starts_with p ''team.'' \<and> ends_with p (CHR ''.'' # (if action = ''remove'' then ''delete'' else action))}"
  by (auto simp: denyPathsFor_def Let_def LEGACY_ACTION_ALIASES_def isValidPermissionPath_def)

lemma allowed_paths_denied:
  assumes "path \<in> set (coalesce (map_of TEAM_ACTION_PATHS action) [])"
  shows "path \<in> set (denyPathsFor ''team'' action)"
proof -
  have "list_all (\<lambda>m. list_all (\<lambda>p. List.member leaf_path_table p \<and> starts_with p ''team.'' \<and>
      ends_with p (CHR ''.'' # (if fst m = ''remove'' then ''delete'' else fst m))) (snd m)) TEAM_ACTION_PATHS"
    by code_simp
  moreover obtain ps where "(action, ps) \<in> set TEAM_ACTION_PATHS" "path \<in> set ps"
    using assms by (cases "map_of TEAM_ACTION_PATHS action") (auto dest: map_of_SomeD)
  ultimately show ?thesis unfolding deny_paths by (fastforce simp: list_all_iff valid_path_iff)
qed

text \<open>
  A legacy force-deny is never weaker than the allow of the same action: once its path
  overrides are applied, no role grant of a \<open>team\<close> leaf with that action is left, in particular none
  of the paths that the allow of the action would confer; all other grants are as they were.
\<close>

theorem flat_deny_is_complete:
  assumes "fo_module deny = ''team''" "\<not> fo_allowed deny" "fo_module allow = ''team''" "fo_allowed allow" "fo_action allow = fo_action deny"
  shows "(\<forall>ov\<in>set (flatTeamOverrideToPathOverrides allow).
      \<not> pathGrantSatisfies (applyPathOverrides roles (flatTeamOverrideToPathOverrides deny)) (po_path ov) None)
    \<and> (\<forall>p r. pathGrantSatisfies (applyPathOverrides roles (flatTeamOverrideToPathOverrides deny)) p r \<longleftrightarrow>
         p \<notin> set (denyPathsFor ''team'' (fo_action deny)) \<and> pathGrantSatisfies (applyPathOverrides roles []) p r)"
proof -
  let ?ds = "denyPathsFor ''team'' (fo_action deny)"
  have fin: "final_grant path_scope (map (\<lambda>p. (p, False, None)) ds) p v = (if p \<in> set ds then None else v)" for ds p v
    by (induction ds arbitrary: v) auto
  have "map path_view (flatTeamOverrideToPathOverrides deny) = map (\<lambda>p. (p, False, None)) ?ds"
    using assms(1,2) by (simp add: flatTeamOverrideToPathOverrides_def path_view_def comp_def)
  then have h: "held (applyPathOverrides roles (flatTeamOverrideToPathOverrides deny)) p =
      (if p \<in> set ?ds then None else held (applyPathOverrides roles []) p)" for p
    using path_grants.merge_final[OF distinct_js_map_of, of "map entry roles" "flatTeamOverrideToPathOverrides deny" p]
    by (simp add: held_overrides fin)
  have "po_path ov \<in> set ?ds" if "ov \<in> set (flatTeamOverrideToPathOverrides allow)" for ov
    using that assms allowed_paths_denied by (auto simp: flatTeamOverrideToPathOverrides_def)
  then show ?thesis by (auto simp: satisfies_iff h covers_def)
qed

theorem flat_deny_is_complete_witness:
  "\<not> pathGrantSatisfies (applyPathOverrides [\<lparr>g_path = ''team.member.delete'', g_scope = All_scope\<rparr>]
     (flatTeamOverrideToPathOverrides \<lparr>fo_module = ''team'', fo_action = ''remove'', fo_allowed = False, fo_scope = None\<rparr>))
     ''team.member.delete'' None"
  using flat_deny_is_complete[of "\<lparr>fo_module = ''team'', fo_action = ''remove'', fo_allowed = False, fo_scope = None\<rparr>"
      "\<lparr>fo_module = ''team'', fo_action = ''remove'', fo_allowed = True, fo_scope = None\<rparr>"
      "[\<lparr>g_path = ''team.member.delete'', g_scope = All_scope\<rparr>]"]
  by (auto simp: flatTeamOverrideToPathOverrides_def TEAM_ACTION_PATHS_def)

end
