(* ===== verification/RbacFlat.thy ===== *)
theory RbacFlat
  imports RbacConverter
begin

text \<open>
  The legacy flat grants in \<open>common/guards/roles.guard.ts\<close>: the merge of per-member overrides
  into the rows of a role and the match of a requirement.  On rows with distinct modules, distinct
  actions and aligned scopes the merge provides the override interface; the last section shows what
  it does on rows the schema also admits.
\<close>

section \<open>The merge\<close>

definition normal_scopes :: "flat_permission \<Rightarrow> perm_scope option list" where
  \<comment> \<open>\<open>if (!row.actionScopes) row.actionScopes = row.actions.map(() => 'self')\<close>\<close>
  "normal_scopes row = (case fp_actionScopes row of None \<Rightarrow> map (\<lambda>_. Some Self_scope) (fp_actions row) | Some ss \<Rightarrow> ss)"

definition write_at :: "'a option list \<Rightarrow> nat \<Rightarrow> 'a \<Rightarrow> 'a option list" where
  \<comment> \<open>\<open>xs[i] = v\<close>: a write past the end extends the array with holes\<close>
  "write_at xs i v = (if i < length xs then xs[i := Some v] else xs @ replicate (i - length xs) None @ [Some v])"

definition splice_at :: "'a list \<Rightarrow> nat \<Rightarrow> 'a list" where
  \<comment> \<open>\<open>xs.splice(i, 1)\<close>\<close>
  "splice_at xs i = take i xs @ drop (Suc i) xs"

definition override_row :: "flat_override \<Rightarrow> flat_permission \<Rightarrow> flat_permission" where
  "override_row ov row =
     (let scopes = normal_scopes row
      in case find_index (\<lambda>a. a = fo_action ov) (fp_actions row) of
           None \<Rightarrow>
             if fo_allowed ov
             then row\<lparr>fp_actions := fp_actions row @ [fo_action ov],
                      fp_actionScopes := Some (scopes @ [Some (coalesce (fo_scope ov) Self_scope)])\<rparr>
             else row\<lparr>fp_actionScopes := Some scopes\<rparr>
         | Some idx \<Rightarrow>
             if fo_allowed ov
             then (case fo_scope ov of
                     None \<Rightarrow> row\<lparr>fp_actionScopes := Some scopes\<rparr>
                   | Some s \<Rightarrow> row\<lparr>fp_actionScopes := Some (write_at scopes idx s)\<rparr>)
             else row\<lparr>fp_actions := splice_at (fp_actions row) idx, fp_actionScopes := Some (splice_at scopes idx)\<rparr>)"

definition apply_flat_override :: "flat_permission list \<Rightarrow> flat_override \<Rightarrow> flat_permission list" where
  "apply_flat_override merged ov =
     (case find_index (\<lambda>p. fp_module p = fo_module ov) merged of
        Some i \<Rightarrow> merged[i := override_row ov (merged ! i)]
      | None \<Rightarrow>
          if fo_allowed ov
          then merged @ [override_row ov \<lparr>fp_module = fo_module ov, fp_actions = [], fp_actionScopes = Some []\<rparr>]
          else merged)"

definition applyPermissionOverrides :: "flat_permission list \<Rightarrow> flat_override list \<Rightarrow> flat_permission list" where
  \<comment> \<open>the initial copy of the rows has no counterpart\<close>
  "applyPermissionOverrides rolePerms overrides = foldl apply_flat_override rolePerms overrides"

definition row_satisfies :: "string \<Rightarrow> string \<Rightarrow> perm_scope option \<Rightarrow> flat_permission \<Rightarrow> bool" where
  "row_satisfies modl action scope p =
     (if fp_module p \<noteq> modl then False
      else case find_index (\<lambda>a. a = action) (fp_actions p) of
             None \<Rightarrow> False
           | Some idx \<Rightarrow>
               (case scope of
                  None \<Rightarrow> True
                | Some Self_scope \<Rightarrow> scope_at (fp_actionScopes p) idx = Self_scope \<or> scope_at (fp_actionScopes p) idx = All_scope
                | Some All_scope \<Rightarrow> scope_at (fp_actionScopes p) idx = All_scope))"

definition permissionsSatisfy :: "flat_permission list \<Rightarrow> string \<Rightarrow> string \<Rightarrow> perm_scope option \<Rightarrow> bool" where
  "permissionsSatisfy rolePermissions modl action scope \<longleftrightarrow> (\<exists>p\<in>set rolePermissions. row_satisfies modl action scope p)"

section \<open>What a row grants\<close>

definition row_scope :: "flat_permission \<Rightarrow> string \<Rightarrow> perm_scope option" where
  "row_scope p action = map_option (scope_at (fp_actionScopes p)) (find_index (\<lambda>a. a = action) (fp_actions p))"

definition flat_scope :: "flat_permission list \<Rightarrow> string \<times> string \<Rightarrow> perm_scope option" where
  \<comment> \<open>the scope in the first row of the module, the lookup of the caller-scope service\<close>
  "flat_scope rows k = (case List.find (\<lambda>p. fp_module p = fst k) rows of None \<Rightarrow> None | Some p \<Rightarrow> row_scope p (snd k))"

definition row_ok :: "flat_permission \<Rightarrow> bool" where
  "row_ok p \<longleftrightarrow> distinct (fp_actions p) \<and>
     (case fp_actionScopes p of None \<Rightarrow> True | Some ss \<Rightarrow> length ss = length (fp_actions p) \<and> None \<notin> set ss)"

definition flat_ok :: "flat_permission list \<Rightarrow> bool" where
  "flat_ok rows \<longleftrightarrow> distinct (map fp_module rows) \<and> (\<forall>p\<in>set rows. row_ok p)"

lemma row_satisfies_iff: "row_satisfies modl action r p \<longleftrightarrow> fp_module p = modl \<and> covers (row_scope p action) r"
  by (auto simp: row_satisfies_def row_scope_def covers_def split: option.splits perm_scope.splits)
     (metis perm_scope.exhaust)+

lemma satisfy_flat_scope:
  assumes "flat_ok rows" shows "permissionsSatisfy rows m a r \<longleftrightarrow> covers (flat_scope rows (m, a)) r"
proof -
  have "distinct (map fp_module rows)" using assms by (simp add: flat_ok_def)
  then show ?thesis
  proof (induction rows)
    case (Cons p rows)
    show ?case
    proof (cases "fp_module p = m")
      case True
      have "fp_module q \<noteq> m" if "q \<in> set rows" for q
        using imageI[OF that, of fp_module] Cons.prems True by auto
      then have "\<not> permissionsSatisfy rows m a r" by (auto simp: permissionsSatisfy_def row_satisfies_iff)
      then show ?thesis using True by (auto simp: permissionsSatisfy_def row_satisfies_iff flat_scope_def)
    next
      case False
      then show ?thesis using Cons by (simp add: permissionsSatisfy_def row_satisfies_iff flat_scope_def)
    qed
  qed (simp add: permissionsSatisfy_def flat_scope_def covers_def)
qed

lemma find_index_take_drop:
  "find_index P xs = Some i \<Longrightarrow> xs = take i xs @ xs ! i # drop (Suc i) xs \<and> (\<forall>x\<in>set (take i xs). \<not> P x) \<and> P (xs ! i) \<and> i < length xs"
  by (induction xs arbitrary: i) (auto split: if_splits)

section \<open>Overriding one row\<close>

definition flat_granted :: "perm_scope option \<Rightarrow> perm_scope option \<Rightarrow> perm_scope" where
  \<comment> \<open>an allow without a scope keeps the scope the action had\<close>
  "flat_granted w before = (case w of Some s \<Rightarrow> s | None \<Rightarrow> coalesce before Self_scope)"

text \<open>An aligned row as the list of its action and scope pairs.\<close>

definition row_pairs :: "flat_permission \<Rightarrow> (string \<times> perm_scope option) list" where
  "row_pairs p = zip (fp_actions p) (normal_scopes p)"

lemma aligned: "row_ok p \<Longrightarrow> length (normal_scopes p) = length (fp_actions p) \<and> None \<notin> set (normal_scopes p)"
  by (auto simp: row_ok_def normal_scopes_def split: option.splits)

lemma find_index_zip:
  "length xs = length ys \<Longrightarrow> map_of (zip xs ys) a = map_option (\<lambda>i. ys ! i) (find_index (\<lambda>x. x = a) xs)"
  by (induction xs ys rule: list_induct2) (auto simp: option.map_comp comp_def)

lemma row_scope_pairs:
  assumes "row_ok p" shows "row_scope p a = (case map_of (row_pairs p) a of None \<Rightarrow> None | Some s \<Rightarrow> s)"
proof -
  note al = aligned[OF assms]
  show ?thesis
  proof (cases "find_index (\<lambda>x. x = a) (fp_actions p)")
    case None
    then show ?thesis using al by (simp add: row_scope_def row_pairs_def find_index_zip)
  next
    case (Some i)
    have i: "i < length (fp_actions p)" using find_index_SomeD[OF Some] by simp
    have "normal_scopes p ! i \<in> set (normal_scopes p)" using al i by simp
    then have "normal_scopes p ! i \<noteq> None" using al by metis
    then show ?thesis using al i Some
      by (auto simp: row_scope_def row_pairs_def find_index_zip scope_at_def normal_scopes_def split: option.splits)
  qed
qed

lemma normal_scopes_update [simp]:
  "normal_scopes (p\<lparr>fp_actionScopes := Some ss\<rparr>) = ss"
  "normal_scopes (p\<lparr>fp_actions := xs, fp_actionScopes := Some ss\<rparr>) = ss"
  by (simp_all add: normal_scopes_def)

lemma map_of_splice:
  assumes "distinct (map fst ps)" "i < length ps"
  shows "map_of (splice_at ps i) a = (if a = fst (ps ! i) then None else map_of ps a)"
    and "distinct (map fst (splice_at ps i))"
proof -
  have ps: "ps = take i ps @ ps ! i # drop (Suc i) ps" using assms(2) by (rule id_take_nth_drop)
  have d: "distinct (map fst (take i ps @ ps ! i # drop (Suc i) ps))" using assms(1) ps by simp
  have n: "map_of (splice_at ps i) (fst (ps ! i)) = None"
    using d by (simp add: splice_at_def map_of_eq_None_iff)
  have "map_of (splice_at ps i) a = map_of (take i ps @ ps ! i # drop (Suc i) ps) a" if "a \<noteq> fst (ps ! i)"
    using that by (cases "ps ! i") (simp add: splice_at_def map_add_def split: option.splits)
  then show "map_of (splice_at ps i) a = (if a = fst (ps ! i) then None else map_of ps a)"
    using n ps by simp
  show "distinct (map fst (splice_at ps i))" using d by (simp add: splice_at_def)
qed

lemma map_of_set_at:
  assumes "distinct (map fst ps)" "i < length ps"
  shows "map_of (ps[i := (fst (ps ! i), v)]) a = (if a = fst (ps ! i) then Some v else map_of ps a)"
  using assms
proof (induction ps arbitrary: i)
  case (Cons x ps)
  then show ?case
    by (cases i) (auto, metis image_eqI nth_mem)
qed simp

lemma splice_zip: "length xs = length ys \<Longrightarrow> zip (splice_at xs i) (splice_at ys i) = splice_at (zip xs ys) i"
  by (simp add: splice_at_def take_zip drop_zip)

lemma set_splice: "set (splice_at xs i) \<subseteq> set xs"
  using set_take_subset set_drop_subset by (fastforce simp: splice_at_def)

lemma length_splice: "length xs = length ys \<Longrightarrow> length (splice_at xs i) = length (splice_at ys i)"
  by (simp add: splice_at_def)

lemma distinct_splice: "distinct xs \<Longrightarrow> distinct (splice_at xs i)"
  by (simp add: splice_at_def set_take_disj_set_drop_if_distinct)

lemma override_row_pairs:
  assumes "row_ok p"
  shows "row_ok (override_row ov p) \<and> map_of (row_pairs (override_row ov p)) a =
    (if a = fo_action ov then (if fo_allowed ov then Some (Some (flat_granted (fo_scope ov) (row_scope p a))) else None)
     else map_of (row_pairs p) a)"
proof (cases "find_index (\<lambda>x. x = fo_action ov) (fp_actions p)")
  case None
  note al = aligned[OF assms]
  have new: "fo_action ov \<notin> set (fp_actions p)" using None by (auto simp: find_index_None_iff)
  then have n: "map_of (row_pairs p) (fo_action ov) = None"
    using al by (auto simp: row_pairs_def map_of_eq_None_iff dest: set_zip_leftD)
  have "row_scope p (fo_action ov) = None" by (simp add: row_scope_def None)
  show ?thesis
  proof (cases "fo_allowed ov")
    case True
    have "row_pairs (override_row ov p) = row_pairs p @ [(fo_action ov, Some (coalesce (fo_scope ov) Self_scope))]"
      using al by (simp add: override_row_def None True Let_def row_pairs_def)
    moreover have "row_ok (override_row ov p)"
      using al new assms by (simp add: override_row_def None True Let_def row_ok_def)
    ultimately show ?thesis using n \<open>row_scope p (fo_action ov) = None\<close> True
      by (auto simp: map_add_def flat_granted_def coalesce_def split: option.splits)
  next
    case False
    have "row_pairs (override_row ov p) = row_pairs p"
      by (simp add: override_row_def None False Let_def row_pairs_def)
    moreover have "row_ok (override_row ov p)"
      using al assms by (simp add: override_row_def None False Let_def row_ok_def)
    ultimately show ?thesis using n False by simp
  qed
next
  case (Some i)
  note al = aligned[OF assms]
  have i: "i < length (fp_actions p)" "fp_actions p ! i = fo_action ov" using find_index_SomeD[OF Some] by simp_all
  have d: "distinct (map fst (row_pairs p))" "i < length (row_pairs p)" "fst (row_pairs p ! i) = fo_action ov"
    using al i assms by (simp_all add: row_pairs_def row_ok_def)
  have here: "row_pairs p ! i = (fo_action ov, normal_scopes p ! i)" using al i by (simp add: row_pairs_def)
  then have pi: "map_of (row_pairs p) (fo_action ov) = Some (normal_scopes p ! i)"
    using map_of_is_SomeI[OF d(1), of "fo_action ov" "normal_scopes p ! i"] nth_mem[OF d(2)] by simp
  have mem: "normal_scopes p ! i \<in> set (normal_scopes p)" using al i by simp
  have "normal_scopes p ! i \<noteq> None"
  proof
    assume "normal_scopes p ! i = None"
    then show False using mem al by simp
  qed
  then obtain s0 where s0: "normal_scopes p ! i = Some s0" by blast
  have rs: "row_scope p (fo_action ov) = Some s0" using row_scope_pairs[OF assms] pi s0 by simp
  show ?thesis
  proof (cases "fo_allowed ov")
    case True
    show ?thesis
    proof (cases "fo_scope ov")
      case None
      have "row_pairs (override_row ov p) = row_pairs p"
        by (simp add: override_row_def Some True None Let_def row_pairs_def)
      moreover have "row_ok (override_row ov p)"
        using al assms by (simp add: override_row_def Some True None Let_def row_ok_def)
      ultimately show ?thesis using True None pi s0 rs by (simp add: flat_granted_def)
    next
      case sc: (Some s)
      have "(fp_actions p)[i := fo_action ov] = fp_actions p" unfolding i(2)[symmetric] by simp
      then have "zip (fp_actions p) ((normal_scopes p)[i := Some s]) = (row_pairs p)[i := (fo_action ov, Some s)]"
        using update_zip[of "fp_actions p" "normal_scopes p" i "(fo_action ov, Some s)"] by (simp add: row_pairs_def)
      then have "row_pairs (override_row ov p) = (row_pairs p)[i := (fst (row_pairs p ! i), Some s)]"
        using i al d(3) by (simp add: override_row_def Some True sc Let_def row_pairs_def write_at_def)
      moreover have "row_ok (override_row ov p)"
        using al assms i set_update_subset_insert[of "normal_scopes p" i "Some s"]
        by (auto simp: override_row_def Some True sc Let_def row_ok_def write_at_def)
      ultimately show ?thesis using True sc map_of_set_at[OF d(1,2), of "Some s" a] d(3) by (simp add: flat_granted_def)
    qed
  next
    case False
    have "row_pairs (override_row ov p) = splice_at (row_pairs p) i"
      using al by (simp add: override_row_def Some False Let_def row_pairs_def splice_zip)
    moreover have "None \<notin> set (splice_at (normal_scopes p) i)" using al set_splice by fast
    then have "row_ok (override_row ov p)"
      using al assms length_splice[of "normal_scopes p" "fp_actions p" i]
      by (simp add: override_row_def Some False Let_def row_ok_def distinct_splice)
    ultimately show ?thesis using False map_of_splice(1)[OF d(1,2), of a] d(3) by simp
  qed
qed

lemma override_row_scope:
  assumes "row_ok p"
  shows "row_ok (override_row ov p)"
    and "row_scope (override_row ov p) a =
      (if a = fo_action ov then (if fo_allowed ov then Some (flat_granted (fo_scope ov) (row_scope p a)) else None)
       else row_scope p a)"
  using override_row_pairs[OF assms, of ov] row_scope_pairs[OF assms] row_scope_pairs[of "override_row ov p"] by simp_all

lemma override_row_module [simp]: "fp_module (override_row ov p) = fp_module p"
  by (simp add: override_row_def Let_def split: option.splits)

section \<open>Overriding the rows\<close>

definition flat_view :: "flat_override \<Rightarrow> (string \<times> string) \<times> bool \<times> perm_scope option" where
  "flat_view ov = ((fo_module ov, fo_action ov), fo_allowed ov, fo_scope ov)"

lemma find_update_row:
  assumes "distinct (map fp_module rows)" "i < length rows" "fp_module q = fp_module (rows ! i)"
  shows "List.find (\<lambda>p. fp_module p = m) (rows[i := q]) =
    (if m = fp_module q then Some q else List.find (\<lambda>p. fp_module p = m) rows)"
  using assms
proof (induction rows arbitrary: i)
  case (Cons p rows)
  show ?case
  proof (cases i)
    case (Suc n)
    then have n: "n < length rows" "fp_module q = fp_module (rows ! n)" using Cons.prems by simp_all
    then have "fp_module q \<in> fp_module ` set rows" by simp
    then have "fp_module p \<noteq> fp_module q" using Cons.prems(1) by auto
    then show ?thesis using Cons.IH[OF _ n] Cons.prems(1) Suc by auto
  qed (use Cons.prems in auto)
qed simp

lemma find_nth_module:
  assumes "find_index (\<lambda>p. fp_module p = m) rows = Some i"
  shows "List.find (\<lambda>p. fp_module p = m) rows = Some (rows ! i)"
  using assms by (induction rows arbitrary: i) (auto split: if_splits)

lemma flat_override_step:
  assumes ok: "flat_ok rows"
  shows "flat_ok (apply_flat_override rows ov)"
    and "flat_scope (apply_flat_override rows ov) k =
      (if k = (fo_module ov, fo_action ov)
       then (if fo_allowed ov then Some (flat_granted (fo_scope ov) (flat_scope rows k)) else None)
       else flat_scope rows k)"
proof -
  have d: "distinct (map fp_module rows)" and r: "\<And>p. p \<in> set rows \<Longrightarrow> row_ok p" using ok by (auto simp: flat_ok_def)
  let ?new = "\<lparr>fp_module = fo_module ov, fp_actions = [], fp_actionScopes = Some []\<rparr>"
  have "flat_ok (apply_flat_override rows ov) \<and> flat_scope (apply_flat_override rows ov) k =
      (if k = (fo_module ov, fo_action ov)
       then (if fo_allowed ov then Some (flat_granted (fo_scope ov) (flat_scope rows k)) else None)
       else flat_scope rows k)"
  proof (cases "find_index (\<lambda>p. fp_module p = fo_module ov) rows")
    case None
    have none: "List.find (\<lambda>p. fp_module p = fo_module ov) rows = None"
      using None by (simp add: find_index_None_iff find_None_mem)
    have nw: "row_ok ?new" by (simp add: row_ok_def)
    have fi: "List.find P (rows @ [q]) = (case List.find P rows of Some x \<Rightarrow> Some x | None \<Rightarrow> if P q then Some q else None)" for P and q :: flat_permission
      by (induction rows) auto
    have rn: "row_scope ?new a = None" for a by (simp add: row_scope_def)
    have nm: "fo_module ov \<notin> fp_module ` set rows" using None by (auto simp: find_index_None_iff)
    show ?thesis
    proof (cases "fo_allowed ov")
      case True
      have "flat_ok (apply_flat_override rows ov)"
        using d r nm override_row_scope(1)[OF nw, of ov] by (auto simp: apply_flat_override_def None True flat_ok_def)
      moreover have "flat_scope (apply_flat_override rows ov) k = (if k = (fo_module ov, fo_action ov)
          then Some (flat_granted (fo_scope ov) (flat_scope rows k)) else flat_scope rows k)"
        using none override_row_scope(2)[OF nw, of ov] rn
        by (cases k) (auto simp: apply_flat_override_def None True flat_scope_def fi split: option.splits)
      ultimately show ?thesis using True by simp
    next
      case False
      then show ?thesis using ok none by (cases k) (auto simp: apply_flat_override_def None flat_scope_def)
    qed
  next
    case (Some i)
    have i: "i < length rows" "fp_module (rows ! i) = fo_module ov" using find_index_SomeD[OF Some] by simp_all
    have ri: "row_ok (rows ! i)" using r i by simp
    have m: "map fp_module (rows[i := override_row ov (rows ! i)]) = map fp_module rows"
      using i by (simp add: map_update) (metis list_update_id length_map nth_map)
    have "flat_ok (apply_flat_override rows ov)"
      using d r m override_row_scope(1)[OF ri, of ov] set_update_subset_insert[of rows i "override_row ov (rows ! i)"]
      by (auto simp: apply_flat_override_def Some flat_ok_def)
    moreover have "flat_scope (apply_flat_override rows ov) k = (if k = (fo_module ov, fo_action ov)
       then (if fo_allowed ov then Some (flat_granted (fo_scope ov) (flat_scope rows k)) else None)
       else flat_scope rows k)"
      using find_update_row[OF d i(1), of "override_row ov (rows ! i)" "fst k"] find_nth_module[OF Some] i(2)
        override_row_scope(2)[OF ri, of ov "snd k"]
      by (cases k) (auto simp: apply_flat_override_def Some flat_scope_def)
    ultimately show ?thesis by simp
  qed
  then show "flat_ok (apply_flat_override rows ov)"
    and "flat_scope (apply_flat_override rows ov) k =
      (if k = (fo_module ov, fo_action ov)
       then (if fo_allowed ov then Some (flat_granted (fo_scope ov) (flat_scope rows k)) else None)
       else flat_scope rows k)" by blast+
qed

interpretation flat_grants: override_target flat_ok flat_scope apply_flat_override flat_view flat_granted
  by unfold_locales (auto simp: flat_view_def flat_override_step)


lemma merged_ok: "flat_ok rows \<Longrightarrow> flat_ok (applyPermissionOverrides rows ovs)"
  unfolding applyPermissionOverrides_def by (rule flat_grants.merge_wf)

lemma last_override_decides:
  assumes "flat_ok rows" "\<forall>o'\<in>set later. (fo_module o', fo_action o') \<noteq> (fo_module ov, fo_action ov)"
  shows "permissionsSatisfy (applyPermissionOverrides rows (earlier @ ov # later)) (fo_module ov) (fo_action ov) r \<longleftrightarrow>
      fo_allowed ov \<and> covers (Some (flat_granted (fo_scope ov)
         (flat_scope (applyPermissionOverrides rows earlier) (fo_module ov, fo_action ov)))) r"
proof -
  have l: "\<forall>o'\<in>set later. fst (flat_view o') \<noteq> (fo_module ov, fo_action ov)" using assms(2) by (simp add: flat_view_def)
  have v: "flat_view ov = ((fo_module ov, fo_action ov), fo_allowed ov, fo_scope ov)" by (simp add: flat_view_def)
  show ?thesis
    unfolding satisfy_flat_scope[OF merged_ok[OF assms(1)]]
    using flat_grants.last_deny_wins[OF assms(1) _ l, of ov "fo_scope ov" earlier]
      flat_grants.last_allow_wins[OF assms(1) _ l, of ov "fo_scope ov" earlier] v
    by (cases "fo_allowed ov") (simp_all add: applyPermissionOverrides_def covers_def del: foldl_append)
qed

lemma untouched_pairs:
  assumes "flat_ok rows" "\<forall>o'\<in>set ovs. (fo_module o', fo_action o') \<noteq> (m, a)"
  shows "permissionsSatisfy (applyPermissionOverrides rows ovs) m a r \<longleftrightarrow> permissionsSatisfy rows m a r"
proof -
  have "flat_scope (foldl apply_flat_override rows ovs) (m, a) = flat_scope rows (m, a)"
    by (rule flat_grants.untouched[OF assms(1)]) (use assms(2) in \<open>simp add: flat_view_def\<close>)
  then show ?thesis
    using satisfy_flat_scope[OF merged_ok[OF assms(1)], of ovs m a r] satisfy_flat_scope[OF assms(1), of m a r]
    by (simp add: applyPermissionOverrides_def)
qed

section \<open>Properties\<close>

text \<open>
  Per-member overrides are last-write-wins on the rows of a well-formed role: whatever the role
  grants and whatever overrides come before, the last override of a module/action pair decides it, a
  deny always removes it, an allow gives the scope it names (or keeps the one there was), and pairs
  no override mentions are as the role grants them.  The merged rows are well formed again.
\<close>

theorem overrides_last_write_wins:
  assumes "flat_ok rows"
  shows "(\<forall>earlier ov later r. (\<forall>o'\<in>set later. (fo_module o', fo_action o') \<noteq> (fo_module ov, fo_action ov)) \<longrightarrow>
      (permissionsSatisfy (applyPermissionOverrides rows (earlier @ ov # later)) (fo_module ov) (fo_action ov) r \<longleftrightarrow>
        fo_allowed ov \<and> covers (Some (flat_granted (fo_scope ov)
           (flat_scope (applyPermissionOverrides rows earlier) (fo_module ov, fo_action ov)))) r))
    \<and> (\<forall>ovs m a r. (\<forall>o'\<in>set ovs. (fo_module o', fo_action o') \<noteq> (m, a)) \<longrightarrow>
        (permissionsSatisfy (applyPermissionOverrides rows ovs) m a r \<longleftrightarrow> permissionsSatisfy rows m a r))
    \<and> (\<forall>ovs. flat_ok (applyPermissionOverrides rows ovs))"
  using last_override_decides[OF assms] untouched_pairs[OF assms] merged_ok[OF assms] by auto

theorem overrides_last_write_wins_witness:
  "let role = [\<lparr>fp_module = ''team'', fp_actions = [''view'', ''edit''], fp_actionScopes = Some [Some All_scope, Some Self_scope]\<rparr>];
       deny = \<lparr>fo_module = ''team'', fo_action = ''view'', fo_allowed = False, fo_scope = None\<rparr>
   in \<not> permissionsSatisfy (applyPermissionOverrides role ([] @ deny # [])) ''team'' ''view'' None
      \<and> permissionsSatisfy (applyPermissionOverrides role [deny]) ''team'' ''edit'' None"
proof -
  define role where "role = [\<lparr>fp_module = ''team'', fp_actions = [''view'', ''edit''], fp_actionScopes = Some [Some All_scope, Some Self_scope]\<rparr>]"
  define deny where "deny = \<lparr>fo_module = ''team'', fo_action = ''view'', fo_allowed = False, fo_scope = None\<rparr>"
  have ok: "flat_ok role" by (simp add: role_def flat_ok_def row_ok_def)
  note t = overrides_last_write_wins[OF ok]
  have e: "permissionsSatisfy role ''team'' ''edit'' None"
    by (simp add: role_def permissionsSatisfy_def row_satisfies_def)
  have "\<not> permissionsSatisfy (applyPermissionOverrides role ([] @ deny # [])) (fo_module deny) (fo_action deny) None"
    using t[THEN conjunct1, rule_format, of "[]" deny "[]" None] by (simp add: deny_def)
  moreover have "permissionsSatisfy (applyPermissionOverrides role [deny]) ''team'' ''edit'' None"
    using t[THEN conjunct2, THEN conjunct1, rule_format, of "[deny]" "''team''" "''edit''" None] e by (simp add: deny_def)
  ultimately show ?thesis unfolding role_def[symmetric] deny_def[symmetric] Let_def by (simp add: deny_def)
qed

text \<open>
  Outside those rows a force-deny can fail and an allow can widen another action.  The role
  schema admits an action twice and an \<open>actionScopes\<close> array shorter than \<open>actions\<close>: denying an
  action that is listed twice leaves it granted, and allowing \<open>delete\<close> at scope \<open>all\<close> on a row whose
  \<open>edit\<close> has no scope entry raises \<open>edit\<close> to \<open>all\<close> and leaves \<open>delete\<close> at \<open>self\<close>.
\<close>

theorem ragged_rows_break_overrides:
  "permissionsSatisfy (applyPermissionOverrides
      [\<lparr>fp_module = ''team'', fp_actions = [''remove'', ''remove''], fp_actionScopes = Some [Some All_scope, Some All_scope]\<rparr>]
      [\<lparr>fo_module = ''team'', fo_action = ''remove'', fo_allowed = False, fo_scope = None\<rparr>]) ''team'' ''remove'' (Some All_scope)
   \<and> (let role = [\<lparr>fp_module = ''team'', fp_actions = [''view'', ''edit''], fp_actionScopes = Some [Some All_scope]\<rparr>];
          merged = applyPermissionOverrides role [\<lparr>fo_module = ''team'', fo_action = ''delete'', fo_allowed = True, fo_scope = Some All_scope\<rparr>]
      in \<not> permissionsSatisfy role ''team'' ''edit'' (Some All_scope)
         \<and> permissionsSatisfy merged ''team'' ''edit'' (Some All_scope)
         \<and> \<not> permissionsSatisfy merged ''team'' ''delete'' (Some All_scope))"
  by (simp add: Let_def applyPermissionOverrides_def apply_flat_override_def override_row_def normal_scopes_def splice_at_def
      permissionsSatisfy_def row_satisfies_def scope_at_def)

end
