(* ===== verification/RbacGuard.thy ===== *)
theory RbacGuard
  imports RbacFlat
begin

text \<open>
  Authorization of a request: \<open>RolesGuard\<close> with its caller cache (\<open>common/guards/roles.guard.ts\<close>),
  the ownership test (\<open>common/utils/workspace-ownership.util.ts\<close>), and the scope lookups of the
  service layer (\<open>common/services/caller-scope.service.ts\<close>).  The collections the guard reads and
  the Redis denylist are one record; a lookup is the first matching document.  Identifiers are
  strings and taken to be well-formed object ids.  An absent \<open>permissionPaths\<close> or override array is
  read as \<open>[]\<close> everywhere and is the empty list here.
\<close>

section \<open>What the guard reads\<close>

record workspace_doc =
  ws_ownerId :: "string option"
  ws_isDeleted :: bool

record membership_doc =
  mb_workspaceId :: string
  mb_userId :: string
  mb_status :: string
  mb_roleId :: "string option"
  mb_linkedTeamMemberId :: "string option"

record role_doc =
  ro_id :: string
  ro_workspaceId :: "string option"
  ro_isSystem :: bool
  ro_permissions :: "flat_permission list"
  ro_permissionPaths :: "grant list"

record team_row =
  tr_id :: string
  tr_workspaceId :: string
  tr_linkedUserId :: "string option"
  tr_isDeleted :: bool
  tr_rbacRoleId :: "string option"
  tr_canSwitchRole :: bool \<comment> \<open>has app access or a pending invite\<close>
  tr_permissionOverrides :: "flat_override list"
  tr_permissionPathOverrides :: "path_override list"

record auth_env =
  ae_workspaces :: "(string \<times> workspace_doc) list"
  ae_memberships :: "membership_doc list"
  ae_roles :: "role_doc list"
  ae_teamRows :: "team_row list"
  ae_revoked :: "(string \<times> string) list"
  ae_redisUp :: bool
  ae_teamLookupOk :: bool

definition isWorkspaceOwner :: "workspace_doc option \<Rightarrow> string \<Rightarrow> bool" where
  "isWorkspaceOwner w userId = (case w of None \<Rightarrow> False
     | Some d \<Rightarrow> (case ws_ownerId d of None \<Rightarrow> False | Some owner \<Rightarrow> owner = userId))"

definition isRevoked :: "auth_env \<Rightarrow> string \<Rightarrow> string \<Rightarrow> bool" where
  \<comment> \<open>a Redis error counts as not revoked\<close>
  "isRevoked env ws u \<longleftrightarrow> ae_redisUp env \<and> (ws, u) \<in> set (ae_revoked env)"

definition active_membership :: "auth_env \<Rightarrow> string \<Rightarrow> string \<Rightarrow> membership_doc option" where
  "active_membership env ws u =
     List.find (\<lambda>m. mb_workspaceId m = ws \<and> mb_userId m = u \<and> mb_status m = ''active'') (ae_memberships env)"

definition role_by_id :: "auth_env \<Rightarrow> string \<Rightarrow> role_doc option" where
  "role_by_id env r = List.find (\<lambda>d. ro_id d = r) (ae_roles env)"

definition own_team_row :: "auth_env \<Rightarrow> string \<Rightarrow> string \<Rightarrow> team_row option" where
  "own_team_row env ws u =
     List.find (\<lambda>t. tr_workspaceId t = ws \<and> tr_linkedUserId t = Some u \<and> \<not> tr_isDeleted t) (ae_teamRows env)"

section \<open>Resolving the caller\<close>

datatype caller = Owner_caller | Member_caller role_doc "flat_override list" "path_override list"

datatype guard_error = Workspace_not_found | Access_revoked | Not_a_member | No_role | Role_missing
  | Workspace_context_required | Permission_denied

definition guard_overrides :: "auth_env \<Rightarrow> string \<Rightarrow> string \<Rightarrow> team_row option" where
  \<comment> \<open>the lookup swallows its own errors\<close>
  "guard_overrides env ws u = (if ae_teamLookupOk env then own_team_row env ws u else None)"

definition resolveCallerUncached :: "auth_env \<Rightarrow> string \<Rightarrow> string \<Rightarrow> guard_error + caller" where
  "resolveCallerUncached env ws u =
     (case map_of (ae_workspaces env) ws of
        None \<Rightarrow> Inl Workspace_not_found
      | Some w \<Rightarrow>
          if ws_isDeleted w then Inl Workspace_not_found
          else if isWorkspaceOwner (Some w) u then Inr Owner_caller
          else if isRevoked env ws u then Inl Access_revoked
          else (case active_membership env ws u of
                  None \<Rightarrow> Inl Not_a_member
                | Some m \<Rightarrow>
                    (case mb_roleId m of
                       None \<Rightarrow> Inl No_role
                     | Some rid \<Rightarrow>
                         (case role_by_id env rid of
                            None \<Rightarrow> Inl Role_missing
                          | Some role \<Rightarrow>
                              Inr (case guard_overrides env ws u of
                                     None \<Rightarrow> Member_caller role [] []
                                   | Some t \<Rightarrow> Member_caller role (tr_permissionOverrides t) (tr_permissionPathOverrides t))))))"

type_synonym caller_cache = "((string \<times> string) \<times> (caller \<times> int)) list"

definition CALLER_CACHE_TTL_MS :: int where "CALLER_CACHE_TTL_MS = 30000"
definition CALLER_CACHE_MAX :: nat where "CALLER_CACHE_MAX = 10000"

definition cache_store :: "caller_cache \<Rightarrow> string \<times> string \<Rightarrow> caller \<Rightarrow> int \<Rightarrow> caller_cache" where
  "cache_store cache key ctx now =
     AList.update key (ctx, now + CALLER_CACHE_TTL_MS) (if length cache \<ge> CALLER_CACHE_MAX then [] else cache)"

definition resolveCaller :: "auth_env \<Rightarrow> caller_cache \<Rightarrow> int \<Rightarrow> string \<Rightarrow> string \<Rightarrow> (guard_error + caller) \<times> caller_cache" where
  "resolveCaller env cache now ws u =
     (let miss = (case resolveCallerUncached env ws u of
                    Inl e \<Rightarrow> (Inl e, cache) | Inr ctx \<Rightarrow> (Inr ctx, cache_store cache (ws, u) ctx now))
      in case map_of cache (ws, u) of
           None \<Rightarrow> miss
         | Some (ctx, expiresAt) \<Rightarrow>
             if expiresAt > now
             then (if isRevoked env ws u then (Inl Access_revoked, AList.delete (ws, u) cache) else (Inr ctx, cache))
             else miss)"

definition on_permission_event :: "string \<times> string \<Rightarrow> caller_cache \<Rightarrow> caller_cache" where
  \<comment> \<open>the subscription made in the constructor\<close>
  "on_permission_event key cache = AList.delete key cache"

section \<open>The guard\<close>

datatype header = No_header | One_header string | Many_headers "string list"

record http_request =
  hr_paramWorkspaceId :: "string option"
  hr_paramWsId :: "string option"
  hr_paramId :: "string option"
  hr_bodyWorkspaceId :: "string option" \<comment> \<open>when it is a string\<close>
  hr_queryWorkspaceId :: "string option"
  hr_header :: header
  hr_user :: "string option"

record route_marks =
  rm_public :: bool
  rm_path :: "(string \<times> perm_scope option) option"
  rm_legacy :: "(string \<times> string \<times> perm_scope option) option"
  rm_authenticatedOnly :: bool
  rm_legacyUnclassified :: bool

definition truthy :: "string option \<Rightarrow> bool" where
  "truthy s \<longleftrightarrow> s \<noteq> None \<and> s \<noteq> Some []"

definition resolveWorkspaceId :: "http_request \<Rightarrow> string option" where
  \<comment> \<open>\<open>None\<close> for every falsy result\<close>
  "resolveWorkspaceId rq =
     (let raw = (if truthy (hr_paramWorkspaceId rq) then hr_paramWorkspaceId rq
        else if truthy (hr_paramWsId rq) then hr_paramWsId rq
        else if truthy (hr_paramId rq) then hr_paramId rq
        else if truthy (hr_bodyWorkspaceId rq) then hr_bodyWorkspaceId rq
        else if truthy (hr_queryWorkspaceId rq) then hr_queryWorkspaceId rq
        else case hr_header rq of No_header \<Rightarrow> None | One_header h \<Rightarrow> Some h
             | Many_headers [] \<Rightarrow> None | Many_headers (h # _) \<Rightarrow> Some h)
      in if truthy raw then raw else None)"

definition caller_has_path :: "caller \<Rightarrow> string \<Rightarrow> perm_scope option \<Rightarrow> bool" where
  "caller_has_path c path scope = (case c of Owner_caller \<Rightarrow> True
     | Member_caller role ovs povs \<Rightarrow> pathGrantSatisfies (applyPathOverrides (ro_permissionPaths role) povs) path scope)"

definition caller_has_flat :: "caller \<Rightarrow> string \<Rightarrow> string \<Rightarrow> perm_scope option \<Rightarrow> bool" where
  "caller_has_flat c modl action scope = (case c of Owner_caller \<Rightarrow> True
     | Member_caller role ovs povs \<Rightarrow> permissionsSatisfy (applyPermissionOverrides (ro_permissions role) ovs) modl action scope)"

definition canActivate :: "route_marks \<Rightarrow> http_request \<Rightarrow> auth_env \<Rightarrow> caller_cache \<Rightarrow> int \<Rightarrow> (guard_error + bool) \<times> caller_cache" where
  "canActivate rt rq env cache now =
     (if rm_public rt then (Inr True, cache)
      else case hr_user rq of
        None \<Rightarrow> (Inr False, cache)
      | Some u \<Rightarrow>
          if rm_path rt \<noteq> None \<or> rm_legacy rt \<noteq> None
          then (case resolveWorkspaceId rq of
                  None \<Rightarrow> (Inl Workspace_context_required, cache)
                | Some ws \<Rightarrow>
                    (case resolveCaller env cache now ws u of
                       (Inl e, cache') \<Rightarrow> (Inl e, cache')
                     | (Inr c, cache') \<Rightarrow>
                         (if c = Owner_caller then Inr True
                          else case rm_path rt of
                            Some (path, scope) \<Rightarrow> if caller_has_path c path scope then Inr True else Inl Permission_denied
                          | None \<Rightarrow> (case rm_legacy rt of
                              Some (modl, action, scope) \<Rightarrow>
                                if caller_has_flat c modl action scope then Inr True else Inl Permission_denied
                            | None \<Rightarrow> Inl Permission_denied), cache')))
          else if rm_authenticatedOnly rt \<or> rm_legacyUnclassified rt then (Inr True, cache)
          else (Inl Permission_denied, cache))"

section \<open>The scope of the caller in the service layer\<close>

record scope_context =
  cx_isOwner :: bool
  cx_teamMemberId :: "string option"
  cx_permissions :: "flat_permission list"
  cx_permissionPaths :: "grant list"

definition no_grants :: "string option \<Rightarrow> scope_context" where
  "no_grants tm = \<lparr>cx_isOwner = False, cx_teamMemberId = tm, cx_permissions = [], cx_permissionPaths = []\<rparr>"

definition resolveScope :: "auth_env \<Rightarrow> string \<Rightarrow> string \<Rightarrow> scope_context option" where
  \<comment> \<open>\<open>CallerScopeService.resolve\<close>; \<open>None\<close> when the directory lookup throws\<close>
  "resolveScope env ws u =
     (if \<not> ae_teamLookupOk env then None
      else Some (let w = (case map_of (ae_workspaces env) ws of None \<Rightarrow> None | Some d \<Rightarrow> if ws_isDeleted d then None else Some d);
          row = own_team_row env ws u;
          tm = map_option tr_id row
      in if isWorkspaceOwner w u
         then \<lparr>cx_isOwner = True, cx_teamMemberId = tm, cx_permissions = [], cx_permissionPaths = []\<rparr>
         else case active_membership env ws u of
            None \<Rightarrow> no_grants tm
          | Some m \<Rightarrow>
             (case mb_roleId m of
                None \<Rightarrow> no_grants tm
              | Some rid \<Rightarrow>
                 (case role_by_id env rid of
                    None \<Rightarrow> no_grants tm
                  | Some role \<Rightarrow>
                     (let ovs = (case row of None \<Rightarrow> [] | Some t \<Rightarrow> tr_permissionOverrides t);
                          povs = (case row of None \<Rightarrow> [] | Some t \<Rightarrow> tr_permissionPathOverrides t)
                      in \<lparr>cx_isOwner = False, cx_teamMemberId = tm,
                          cx_permissions = (if ovs \<noteq> [] then applyPermissionOverrides (ro_permissions role) ovs else ro_permissions role),
                          cx_permissionPaths = applyPathOverrides (ro_permissionPaths role) povs\<rparr>)))))"

definition effectiveScope :: "scope_context \<Rightarrow> string \<Rightarrow> string \<Rightarrow> perm_scope option" where
  "effectiveScope ctx modl action =
     (if cx_isOwner ctx then Some All_scope
      else case List.find (\<lambda>p. fp_module p = modl) (cx_permissions ctx) of
             None \<Rightarrow> None
           | Some p \<Rightarrow>
               (case find_index (\<lambda>a. a = action) (fp_actions p) of
                  None \<Rightarrow> None | Some idx \<Rightarrow> Some (scope_at (fp_actionScopes p) idx)))"

definition hasPath :: "scope_context \<Rightarrow> string \<Rightarrow> perm_scope option \<Rightarrow> bool" where
  "hasPath ctx path scope = (if cx_isOwner ctx then True else pathGrantSatisfies (cx_permissionPaths ctx) path scope)"

definition effectivePathScope :: "scope_context \<Rightarrow> string \<Rightarrow> perm_scope option" where
  "effectivePathScope ctx path =
     (if cx_isOwner ctx then Some All_scope
      else map_option g_scope (List.find (\<lambda>g. g_path g = path) (cx_permissionPaths ctx)))"

datatype self_filter = No_filter | No_self_anchor | Own_rows string

definition self_narrowing :: "scope_context \<Rightarrow> perm_scope option \<Rightarrow> self_filter" where
  "self_narrowing ctx scope =
     (if scope \<noteq> Some Self_scope then No_filter
      else case cx_teamMemberId ctx of None \<Rightarrow> No_self_anchor | Some t \<Rightarrow> Own_rows t)"

definition selfFilterValue :: "scope_context \<Rightarrow> string \<Rightarrow> string \<Rightarrow> self_filter" where
  "selfFilterValue ctx modl action = self_narrowing ctx (effectiveScope ctx modl action)"

definition selfPathFilterValue :: "scope_context \<Rightarrow> string \<Rightarrow> self_filter" where
  "selfPathFilterValue ctx path = self_narrowing ctx (effectivePathScope ctx path)"

end
