(* ===== verification/RbacAccess.thy ===== *)
theory RbacAccess
  imports RbacGuard
begin

text \<open>
  What the guard admits: an abstract authorization relation on the stored documents, the guard as
  its implementation, the agreement of the service-layer scope lookups with the guard, and the
  caller cache as a state machine.
\<close>

section \<open>The abstract authorization relation\<close>

definition role_of :: "auth_env \<Rightarrow> string \<Rightarrow> string \<Rightarrow> role_doc option" where
  \<comment> \<open>the role of the active membership\<close>
  "role_of env ws u = (case active_membership env ws u of None \<Rightarrow> None
     | Some m \<Rightarrow> (case mb_roleId m of None \<Rightarrow> None | Some rid \<Rightarrow> role_by_id env rid))"

definition member_path_scope :: "auth_env \<Rightarrow> role_doc \<Rightarrow> string \<Rightarrow> string \<Rightarrow> string \<Rightarrow> perm_scope option" where
  \<comment> \<open>role grants of a path, then the member's overrides of it, the last one deciding\<close>
  "member_path_scope env role ws u path =
     final_grant path_scope
       (case guard_overrides env ws u of None \<Rightarrow> [] | Some t \<Rightarrow> map path_view (tr_permissionPathOverrides t))
       path (last_held (ro_permissionPaths role) path)"

definition may_use_path :: "auth_env \<Rightarrow> string \<Rightarrow> string \<Rightarrow> string \<Rightarrow> perm_scope option \<Rightarrow> bool" where
  "may_use_path env ws u path scope \<longleftrightarrow>
     (\<exists>w. map_of (ae_workspaces env) ws = Some w \<and> \<not> ws_isDeleted w \<and>
        (ws_ownerId w = Some u \<or>
         \<not> isRevoked env ws u \<and> (\<exists>role. role_of env ws u = Some role \<and> covers (member_path_scope env role ws u path) scope)))"

lemma owner_iff: "isWorkspaceOwner (Some w) u \<longleftrightarrow> ws_ownerId w = Some u"
  by (auto simp: isWorkspaceOwner_def split: option.splits)

lemma held_overridden: "held (applyPathOverrides gs ovs) p = final_grant path_scope (map path_view ovs) p (last_held gs p)"
  by (simp add: held_overrides path_grants.merge_final last_held_def)

lemma member_caller_path:
  assumes "resolveCallerUncached env ws u = Inr (Member_caller role ovs povs)"
  shows "role_of env ws u = Some role" "\<not> isRevoked env ws u"
    "caller_has_path (Member_caller role ovs povs) p r \<longleftrightarrow> covers (member_path_scope env role ws u p) r"
proof -
  show r: "role_of env ws u = Some role"
    using assms by (auto simp: resolveCallerUncached_def role_of_def split: option.splits if_splits)
  show "\<not> isRevoked env ws u"
    using assms by (auto simp: resolveCallerUncached_def split: option.splits if_splits)
  have "map path_view povs = (case guard_overrides env ws u of None \<Rightarrow> [] | Some t \<Rightarrow> map path_view (tr_permissionPathOverrides t))"
    using assms by (auto simp: resolveCallerUncached_def split: option.splits if_splits)
  then show "caller_has_path (Member_caller role ovs povs) p r \<longleftrightarrow> covers (member_path_scope env role ws u p) r"
    by (simp add: caller_has_path_def satisfies_iff held_overridden member_path_scope_def)
qed

lemma resolve_owner_iff:
  "resolveCallerUncached env ws u = Inr Owner_caller \<longleftrightarrow>
     (\<exists>w. map_of (ae_workspaces env) ws = Some w \<and> \<not> ws_isDeleted w \<and> ws_ownerId w = Some u)"
  by (auto simp: resolveCallerUncached_def owner_iff split: option.splits)

lemma resolve_member_ex:
  assumes "map_of (ae_workspaces env) ws = Some w" "\<not> ws_isDeleted w" "ws_ownerId w \<noteq> Some u"
    "\<not> isRevoked env ws u" "role_of env ws u = Some role"
  shows "\<exists>ovs povs. resolveCallerUncached env ws u = Inr (Member_caller role ovs povs)"
  using assms by (auto simp: resolveCallerUncached_def owner_iff role_of_def split: option.splits)

lemma may_use_path_iff:
  "may_use_path env ws u p r \<longleftrightarrow> (\<exists>c. resolveCallerUncached env ws u = Inr c \<and> caller_has_path c p r)" (is "?l \<longleftrightarrow> ?r")
proof
  assume ?l
  then obtain w where w: "map_of (ae_workspaces env) ws = Some w" "\<not> ws_isDeleted w"
    and d: "ws_ownerId w = Some u \<or> \<not> isRevoked env ws u \<and> (\<exists>role. role_of env ws u = Some role \<and> covers (member_path_scope env role ws u p) r)"
    by (auto simp: may_use_path_def)
  show ?r
  proof (cases "ws_ownerId w = Some u")
    case True
    then have "resolveCallerUncached env ws u = Inr Owner_caller" using w by (auto simp: resolve_owner_iff)
    then show ?thesis by (auto simp: caller_has_path_def)
  next
    case False
    then obtain role where role: "\<not> isRevoked env ws u" "role_of env ws u = Some role" "covers (member_path_scope env role ws u p) r"
      using d by blast
    obtain ovs povs where m: "resolveCallerUncached env ws u = Inr (Member_caller role ovs povs)"
      using resolve_member_ex[OF w False role(1,2)] by blast
    then show ?thesis using member_caller_path(3)[OF m] role(3) by blast
  qed
next
  assume ?r
  then obtain c where c: "resolveCallerUncached env ws u = Inr c" "caller_has_path c p r" by blast
  show ?l
  proof (cases c)
    case Owner_caller
    then show ?thesis using c(1) by (auto simp: resolve_owner_iff may_use_path_def)
  next
    case (Member_caller role ovs povs)
    note m = member_caller_path[OF c(1)[unfolded Member_caller]]
    have "\<exists>w. map_of (ae_workspaces env) ws = Some w \<and> \<not> ws_isDeleted w"
      using c(1) by (auto simp: resolveCallerUncached_def split: option.splits if_splits)
    then show ?thesis using m c(2) Member_caller by (auto simp: may_use_path_def)
  qed
qed

section \<open>The guard without a cached entry\<close>

definition fresh :: "caller_cache \<Rightarrow> int \<Rightarrow> string \<times> string \<Rightarrow> bool" where
  \<comment> \<open>no live entry for the key\<close>
  "fresh cache now key \<longleftrightarrow> (case map_of cache key of None \<Rightarrow> True | Some (ctx, expiresAt) \<Rightarrow> expiresAt \<le> now)"

lemma resolve_fresh: "fresh cache now (ws, u) \<Longrightarrow> fst (resolveCaller env cache now ws u) = resolveCallerUncached env ws u"
  by (auto simp: fresh_def resolveCaller_def Let_def split: option.splits sum.splits)

lemma canActivate_path:
  assumes "\<not> rm_public rt" "rm_path rt = Some (p, r)"
  shows "fst (canActivate rt rq env cache now) = Inr True \<longleftrightarrow>
    (\<exists>u ws c. hr_user rq = Some u \<and> resolveWorkspaceId rq = Some ws \<and>
       fst (resolveCaller env cache now ws u) = Inr c \<and> caller_has_path c p r)"
proof (cases "hr_user rq")
  case None
  then show ?thesis using assms by (simp add: canActivate_def)
next
  case u: (Some u)
  show ?thesis
  proof (cases "resolveWorkspaceId rq")
    case None
    then show ?thesis using assms u by (simp add: canActivate_def)
  next
    case ws: (Some ws)
    obtain res cache' where rc: "resolveCaller env cache now ws u = (res, cache')" by force
    show ?thesis
    proof (cases res)
      case (Inl e)
      then show ?thesis using assms u ws rc by (simp add: canActivate_def)
    next
      case (Inr c)
      then show ?thesis using assms u ws rc by (cases c) (simp_all add: canActivate_def caller_has_path_def)
    qed
  qed
qed

text \<open>
  C4. Completeness and soundness of the guard on a path-gated route: with no live cache entry for the
  caller, a request is admitted exactly when its user and workspace are known, the workspace exists
  and is not deleted, and the user is its owner or a non-revoked active member whose role, with the
  last override of the path applied, grants the path at the required scope.
\<close>

theorem guard_admits_exactly:
  assumes "\<not> rm_public rt" "rm_path rt = Some (p, r)"
    "\<And>u ws. hr_user rq = Some u \<Longrightarrow> resolveWorkspaceId rq = Some ws \<Longrightarrow> fresh cache now (ws, u)"
  shows "fst (canActivate rt rq env cache now) = Inr True \<longleftrightarrow>
    (\<exists>u ws. hr_user rq = Some u \<and> resolveWorkspaceId rq = Some ws \<and> may_use_path env ws u p r)"
  unfolding canActivate_path[OF assms(1,2)] may_use_path_iff using assms(3) resolve_fresh by metis

definition sample_env :: auth_env where
  "sample_env = \<lparr>ae_workspaces = [(''w'', \<lparr>ws_ownerId = Some ''o'', ws_isDeleted = False\<rparr>)],
     ae_memberships = [\<lparr>mb_workspaceId = ''w'', mb_userId = ''u'', mb_status = ''active'', mb_roleId = Some ''r'', mb_linkedTeamMemberId = Some ''t''\<rparr>],
     ae_roles = [\<lparr>ro_id = ''r'', ro_workspaceId = Some ''w'', ro_isSystem = False, ro_permissions = [],
        ro_permissionPaths = [\<lparr>g_path = ''shifts.catalog.view'', g_scope = Self_scope\<rparr>]\<rparr>],
     ae_teamRows = [], ae_revoked = [], ae_redisUp = True, ae_teamLookupOk = True\<rparr>"

definition sample_request :: http_request where
  "sample_request = \<lparr>hr_paramWorkspaceId = Some ''w'', hr_paramWsId = None, hr_paramId = None, hr_bodyWorkspaceId = None,
     hr_queryWorkspaceId = None, hr_header = No_header, hr_user = Some ''u''\<rparr>"

definition sample_route :: route_marks where
  "sample_route = \<lparr>rm_public = False, rm_path = Some (''shifts.catalog.view'', None), rm_legacy = None,
     rm_authenticatedOnly = False, rm_legacyUnclassified = False\<rparr>"

lemma sample_lookup: "may_use_path sample_env ''w'' ''u'' ''shifts.catalog.view'' None"
  by (simp add: may_use_path_def sample_env_def role_of_def active_membership_def role_by_id_def isRevoked_def
      member_path_scope_def guard_overrides_def own_team_row_def last_held_def js_map_of_def entry_def covers_def)

theorem guard_admits_exactly_witness:
  "fst (canActivate sample_route sample_request sample_env [] 0) = Inr True"
  using guard_admits_exactly[of sample_route "''shifts.catalog.view''" None sample_request "[]" 0 sample_env] sample_lookup
  by (simp add: sample_route_def sample_request_def resolveWorkspaceId_def truthy_def fresh_def)

section \<open>Agreement of the service layer\<close>

lemma effective_path: "hasPath ctx p r \<longleftrightarrow> covers (effectivePathScope ctx p) r"
  by (cases r) (auto simp: hasPath_def effectivePathScope_def satisfies_iff held_find covers_def)

lemma effective_flat:
  "\<not> cx_isOwner ctx \<Longrightarrow> effectiveScope ctx m a = flat_scope (cx_permissions ctx) (m, a)"
  by (auto simp: effectiveScope_def flat_scope_def row_scope_def split: option.splits)

lemma resolveScope_member:
  assumes "resolveCallerUncached env ws u = Inr (Member_caller role ovs povs)" "ae_teamLookupOk env"
  shows "\<exists>tm. resolveScope env ws u = Some \<lparr>cx_isOwner = False, cx_teamMemberId = tm,
      cx_permissions = applyPermissionOverrides (ro_permissions role) ovs,
      cx_permissionPaths = applyPathOverrides (ro_permissionPaths role) povs\<rparr>"
  using assms
  by (auto simp: resolveCallerUncached_def resolveScope_def guard_overrides_def Let_def isWorkspaceOwner_def
      applyPermissionOverrides_def split: option.splits if_splits)

lemma resolveScope_owner:
  assumes "resolveCallerUncached env ws u = Inr Owner_caller" "ae_teamLookupOk env"
  shows "\<exists>ctx. resolveScope env ws u = Some ctx \<and> cx_isOwner ctx"
proof -
  obtain w where w: "map_of (ae_workspaces env) ws = Some w" "\<not> ws_isDeleted w" "ws_ownerId w = Some u"
    using assms(1) by (auto simp: resolve_owner_iff)
  then show ?thesis using assms(2) by (simp add: resolveScope_def Let_def owner_iff)
qed



lemma lookups_of_update [simp]:
  "active_membership (env\<lparr>ae_workspaces := x\<rparr>) ws u = active_membership env ws u"
  "role_by_id (env\<lparr>ae_workspaces := x\<rparr>) r = role_by_id env r"
  "own_team_row (env\<lparr>ae_workspaces := x\<rparr>) ws u = own_team_row env ws u"
  by (simp_all add: active_membership_def role_by_id_def own_team_row_def)

text \<open>
  Deleting a workspace changes nothing in the service-layer scope of a member who is not its
  owner: the guard refuses every caller of a deleted workspace, but \<open>resolve\<close> returns the same grants
  as before the deletion.
\<close>

theorem deleted_workspace_keeps_scope:
  assumes "map_of (ae_workspaces env) ws = Some w" "ws_isDeleted w" "ws_ownerId w \<noteq> Some u"
  shows "resolveCallerUncached env ws u = Inl Workspace_not_found
    \<and> resolveScope env ws u =
        resolveScope (env\<lparr>ae_workspaces := AList.update ws (w\<lparr>ws_isDeleted := False\<rparr>) (ae_workspaces env)\<rparr>) ws u"
proof -
  have "isWorkspaceOwner None u = isWorkspaceOwner (Some (w\<lparr>ws_isDeleted := False\<rparr>)) u"
    using assms(3) by (simp add: owner_iff) (simp add: isWorkspaceOwner_def)
  then show ?thesis
    using assms by (simp add: resolveCallerUncached_def resolveScope_def Let_def cong: option.case_cong)
qed

theorem deleted_workspace_keeps_scope_witness:
  "let env = sample_env\<lparr>ae_workspaces := [(''w'', \<lparr>ws_ownerId = Some ''o'', ws_isDeleted = True\<rparr>)]\<rparr>
   in resolveCallerUncached env ''w'' ''u'' = Inl Workspace_not_found
      \<and> (\<exists>ctx. resolveScope env ''w'' ''u'' = Some ctx \<and> hasPath ctx ''shifts.catalog.view'' None)"
proof -
  define env where "env = sample_env\<lparr>ae_workspaces := [(''w'', \<lparr>ws_ownerId = Some ''o'', ws_isDeleted = True\<rparr>)]\<rparr>"
  have restored: "env\<lparr>ae_workspaces := AList.update ''w'' (\<lparr>ws_ownerId = Some ''o'', ws_isDeleted = True\<rparr>\<lparr>ws_isDeleted := False\<rparr>) (ae_workspaces env)\<rparr> = sample_env"
    by (simp add: env_def sample_env_def)
  have d: "resolveCallerUncached env ''w'' ''u'' = Inl Workspace_not_found \<and> resolveScope env ''w'' ''u'' = resolveScope sample_env ''w'' ''u''"
    using deleted_workspace_keeps_scope[of env "''w''" "\<lparr>ws_ownerId = Some ''o'', ws_isDeleted = True\<rparr>" "''u''"]
    unfolding restored by (simp add: env_def)
  have "\<exists>ctx. resolveScope sample_env ''w'' ''u'' = Some ctx \<and> hasPath ctx ''shifts.catalog.view'' None"
    by (simp add: resolveScope_def sample_env_def isWorkspaceOwner_def active_membership_def role_by_id_def own_team_row_def
        hasPath_def satisfies_iff held_overridden last_held_def js_map_of_def entry_def covers_def)
  then show ?thesis using d unfolding env_def[symmetric] Let_def by simp
qed

text \<open>
  When a role lists a module in two rows, the guard looks at all rows and the scope lookup only
  at the first: a self-scoped action of the second row is admitted by the guard, its effective scope
  is \<open>null\<close>, and the list filter for the caller is then no filter at all.
\<close>

theorem split_rows_lift_self_scope:
  assumes "fp_module p = m" "fp_module q = m" "a \<notin> set (fp_actions p)" "row_scope q a = Some Self_scope"
    "\<not> cx_isOwner ctx" "cx_permissions ctx = [p, q]"
  shows "permissionsSatisfy (cx_permissions ctx) m a (Some Self_scope)
    \<and> \<not> permissionsSatisfy (cx_permissions ctx) m a (Some All_scope)
    \<and> effectiveScope ctx m a = None \<and> selfFilterValue ctx m a = No_filter"
proof -
  have n: "find_index (\<lambda>x. x = a) (fp_actions p) = None" using assms(3) by (auto simp: find_index_None_iff)
  then have p: "row_scope p a = None" by (simp add: row_scope_def)
  have "effectiveScope ctx m a = None" using assms n by (simp add: effectiveScope_def)
  then show ?thesis using assms p
    by (simp add: permissionsSatisfy_def row_satisfies_iff covers_def selfFilterValue_def self_narrowing_def)
qed

theorem split_rows_lift_self_scope_witness:
  "let ctx = \<lparr>cx_isOwner = False, cx_teamMemberId = Some ''t'',
      cx_permissions = [\<lparr>fp_module = ''attendance'', fp_actions = [''mark''], fp_actionScopes = Some [Some Self_scope]\<rparr>,
                        \<lparr>fp_module = ''attendance'', fp_actions = [''view''], fp_actionScopes = Some [Some Self_scope]\<rparr>],
      cx_permissionPaths = []\<rparr>
   in permissionsSatisfy (cx_permissions ctx) ''attendance'' ''view'' (Some Self_scope) \<and> selfFilterValue ctx ''attendance'' ''view'' = No_filter"
  using split_rows_lift_self_scope[of "\<lparr>fp_module = ''attendance'', fp_actions = [''mark''], fp_actionScopes = Some [Some Self_scope]\<rparr>"
      "''attendance''" "\<lparr>fp_module = ''attendance'', fp_actions = [''view''], fp_actionScopes = Some [Some Self_scope]\<rparr>" "''view''"
      "\<lparr>cx_isOwner = False, cx_teamMemberId = Some ''t'',
      cx_permissions = [\<lparr>fp_module = ''attendance'', fp_actions = [''mark''], fp_actionScopes = Some [Some Self_scope]\<rparr>,
                        \<lparr>fp_module = ''attendance'', fp_actions = [''view''], fp_actionScopes = Some [Some Self_scope]\<rparr>],
      cx_permissionPaths = []\<rparr>"]
  by (simp add: row_scope_def scope_at_def)

end
