(* ===== verification/RbacCache.thy ===== *)
theory RbacCache
  imports RbacAccess
begin

text \<open>
  The caller cache of \<open>RolesGuard\<close> over time: requests, the clock, and edits of the documents with
  the permission events they emit.  \<open>au_since\<close> is a ghost: for each caller the pairs of time and
  documents that were in effect since the last event for that caller.
\<close>

record auth_state =
  au_env :: auth_env
  au_cache :: caller_cache
  au_now :: int
  au_since :: "string \<times> string \<Rightarrow> (int \<times> auth_env) list"

definition auth_init :: "auth_env \<Rightarrow> int \<Rightarrow> auth_state" where
  "auth_init env t = \<lparr>au_env = env, au_cache = [], au_now = t, au_since = (\<lambda>_. [(t, env)])\<rparr>"

definition emit_all :: "(string \<times> string) list \<Rightarrow> caller_cache \<Rightarrow> caller_cache" where
  "emit_all keys cache = foldl (\<lambda>c k. on_permission_event k c) cache keys"

inductive auth_step :: "auth_state \<Rightarrow> auth_state \<Rightarrow> bool" where
  Request: "auth_step s (s\<lparr>au_cache := snd (canActivate rt rq (au_env s) (au_cache s) (au_now s))\<rparr>)"
| Tick: "au_now s \<le> t \<Longrightarrow> auth_step s (s\<lparr>au_now := t, au_since := (\<lambda>k. (t, au_env s) # au_since s k)\<rparr>)"
| Edit: "auth_step s (s\<lparr>au_env := env', au_cache := emit_all keys (au_cache s),
      au_since := (\<lambda>k. if k \<in> set keys then [(au_now s, env')] else (au_now s, env') # au_since s k)\<rparr>)"

inductive_cases auth_stepE: "auth_step s s'"

inductive auth_reachable :: "auth_env \<Rightarrow> int \<Rightarrow> auth_state \<Rightarrow> bool" for env0 t0 where
  Start: "auth_reachable env0 t0 (auth_init env0 t0)"
| Step: "auth_reachable env0 t0 s \<Longrightarrow> auth_step s s' \<Longrightarrow> auth_reachable env0 t0 s'"

section \<open>The invariant\<close>

definition entry_ok :: "auth_state \<Rightarrow> string \<times> string \<Rightarrow> caller \<Rightarrow> int \<Rightarrow> bool" where
  \<comment> \<open>the entry is what some documents in effect since the last event resolve to\<close>
  "entry_ok s key c expiresAt \<longleftrightarrow> (\<exists>(t, env)\<in>set (au_since s key).
     expiresAt = t + CALLER_CACHE_TTL_MS \<and> resolveCallerUncached env (fst key) (snd key) = Inr c)"

definition cache_inv :: "auth_state \<Rightarrow> bool" where
  "cache_inv s \<longleftrightarrow>
     (\<forall>key c expiresAt. map_of (au_cache s) key = Some (c, expiresAt) \<longrightarrow> entry_ok s key c expiresAt) \<and>
     (\<forall>key. (au_now s, au_env s) \<in> set (au_since s key) \<and> (\<forall>(t, env)\<in>set (au_since s key). t \<le> au_now s))"

lemma map_of_emit_all: "map_of (emit_all keys cache) k = (if k \<in> set keys then None else map_of cache k)"
  by (induction keys arbitrary: cache) (auto simp: emit_all_def on_permission_event_def)

lemma resolveCaller_cache:
  assumes "map_of (snd (resolveCaller env cache now ws u)) key = Some (c, ex)"
  shows "map_of cache key = Some (c, ex) \<or>
     key = (ws, u) \<and> ex = now + CALLER_CACHE_TTL_MS \<and> resolveCallerUncached env ws u = Inr c"
  using assms
  by (auto simp: resolveCaller_def cache_store_def Let_def split: option.splits sum.splits if_splits)

lemma canActivate_cache:
  "snd (canActivate rt rq env cache now) = cache \<or>
   (\<exists>ws u. snd (canActivate rt rq env cache now) = snd (resolveCaller env cache now ws u))"
proof (cases "hr_user rq")
  case None
  then show ?thesis by (simp add: canActivate_def)
next
  case u: (Some u)
  show ?thesis
  proof (cases "resolveWorkspaceId rq")
    case None
    then show ?thesis using u by (simp add: canActivate_def)
  next
    case ws: (Some ws)
    obtain res cache' where rc: "resolveCaller env cache now ws u = (res, cache')" by force
    have "snd (canActivate rt rq env cache now) = cache \<or> snd (canActivate rt rq env cache now) = cache'"
      using u ws rc by (cases res) (simp_all add: canActivate_def)
    then show ?thesis using rc by (metis snd_conv)
  qed
qed

lemma cache_inv_step: "cache_inv s \<Longrightarrow> auth_step s s' \<Longrightarrow> cache_inv s'"
proof (erule auth_stepE)
  fix rt rq
  assume inv: "cache_inv s" and s': "s' = s\<lparr>au_cache := snd (canActivate rt rq (au_env s) (au_cache s) (au_now s))\<rparr>"
  have "entry_ok s key c ex"
    if h: "map_of (snd (canActivate rt rq (au_env s) (au_cache s) (au_now s))) key = Some (c, ex)" for key c ex
  proof -
    have "map_of (au_cache s) key = Some (c, ex) \<or>
      ex = au_now s + CALLER_CACHE_TTL_MS \<and> resolveCallerUncached (au_env s) (fst key) (snd key) = Inr c"
      using canActivate_cache[of rt rq "au_env s" "au_cache s" "au_now s"] h resolveCaller_cache by fastforce
    then show ?thesis
    proof
      assume "map_of (au_cache s) key = Some (c, ex)"
      then show ?thesis using inv by (cases key) (simp add: cache_inv_def)
    next
      assume n: "ex = au_now s + CALLER_CACHE_TTL_MS \<and> resolveCallerUncached (au_env s) (fst key) (snd key) = Inr c"
      have "(au_now s, au_env s) \<in> set (au_since s key)" using inv by (cases key) (simp add: cache_inv_def)
      then show ?thesis unfolding entry_ok_def using n by (intro bexI[of _ "(au_now s, au_env s)"]) simp_all
    qed
  qed
  then show ?thesis using inv s' by (simp add: cache_inv_def entry_ok_def)
next
  fix t assume inv: "cache_inv s" and s': "s' = s\<lparr>au_now := t, au_since := \<lambda>k. (t, au_env s) # au_since s k\<rparr>" and t: "au_now s \<le> t"
  have "entry_ok s key c ex \<Longrightarrow> entry_ok s' key c ex" for key c ex by (auto simp: entry_ok_def s')
  moreover have "t' \<le> t" if "(t', env) \<in> set (au_since s key)" for t' env key
  proof -
    have "t' \<le> au_now s" using inv that by (cases key) (fastforce simp: cache_inv_def)
    then show ?thesis using t by simp
  qed
  ultimately show ?thesis using inv by (auto simp: cache_inv_def s')
next
  fix env' keys assume inv: "cache_inv s" and s': "s' = s\<lparr>au_env := env', au_cache := emit_all keys (au_cache s),
      au_since := \<lambda>k. if k \<in> set keys then [(au_now s, env')] else (au_now s, env') # au_since s k\<rparr>"
  have "entry_ok s key c ex \<Longrightarrow> key \<notin> set keys \<Longrightarrow> entry_ok s' key c ex" for key c ex by (auto simp: entry_ok_def s')
  then show ?thesis using inv by (auto simp: cache_inv_def s' map_of_emit_all split: if_splits)
qed

lemma reachable_cache_inv: "auth_reachable env0 t0 s \<Longrightarrow> cache_inv s"
proof (induction rule: auth_reachable.induct)
  case Start
  then show ?case by (simp add: cache_inv_def auth_init_def)
next
  case (Step s s')
  show ?case by (rule cache_inv_step[OF Step.IH Step.hyps(2)])
qed

section \<open>Properties\<close>

lemma cached_resolution:
  assumes "cache_inv s" "fst (resolveCaller (au_env s) (au_cache s) (au_now s) ws u) = Inr c"
  shows "\<exists>(t, env)\<in>set (au_since s (ws, u)). au_now s - CALLER_CACHE_TTL_MS < t \<and> t \<le> au_now s \<and> resolveCallerUncached env ws u = Inr c"
    and "c = Owner_caller \<or> \<not> isRevoked (au_env s) ws u"
proof -
  have cur: "(au_now s, au_env s) \<in> set (au_since s (ws, u))"
    and past: "\<And>t env. (t, env) \<in> set (au_since s (ws, u)) \<Longrightarrow> t \<le> au_now s"
    using assms(1) by (fastforce simp: cache_inv_def)+
  consider (miss) "resolveCallerUncached (au_env s) ws u = Inr c"
    | (hit) ex where "map_of (au_cache s) (ws, u) = Some (c, ex)" "ex > au_now s" "\<not> isRevoked (au_env s) ws u"
    using assms(2) by (auto simp: resolveCaller_def Let_def split: option.splits sum.splits if_splits)
  then show "\<exists>(t, env)\<in>set (au_since s (ws, u)). au_now s - CALLER_CACHE_TTL_MS < t \<and> t \<le> au_now s \<and> resolveCallerUncached env ws u = Inr c"
  proof cases
    case miss
    then show ?thesis using cur by (intro bexI[of _ "(au_now s, au_env s)"]) (simp_all add: CALLER_CACHE_TTL_MS_def)
  next
    case hit
    then have "entry_ok s (ws, u) c ex" using assms(1) by (simp add: cache_inv_def)
    then obtain t env where te: "(t, env) \<in> set (au_since s (ws, u))" "ex = t + CALLER_CACHE_TTL_MS" "resolveCallerUncached env ws u = Inr c"
      by (auto simp: entry_ok_def)
    then show ?thesis using past[OF te(1)] hit(2) by (intro bexI[of _ "(t, env)"]) simp_all
  qed
  show "c = Owner_caller \<or> \<not> isRevoked (au_env s) ws u"
  proof -
    consider (miss) "resolveCallerUncached (au_env s) ws u = Inr c" | (hit) "\<not> isRevoked (au_env s) ws u"
      using assms(2) by (auto simp: resolveCaller_def Let_def split: option.splits sum.splits if_splits)
    then show ?thesis using member_caller_path(2) by cases (cases c; blast)+
  qed
qed



text \<open>
  The permission event does not protect a request that is in flight: if a request has read the
  documents before an edit and stores its result after the edit's event, then for the next 30
  seconds the guard answers with the old context, whatever the edited documents say.
\<close>

theorem stale_context_after_event:
  assumes "resolveCallerUncached old ws u = Inr c" "\<not> isRevoked new ws u" "t \<le> t'" "t' < t + 30000"
  shows "fst (resolveCaller new (cache_store (on_permission_event (ws, u) cache) (ws, u) c t) t' ws u) = Inr c"
  using assms by (simp add: resolveCaller_def cache_store_def Let_def CALLER_CACHE_TTL_MS_def)

definition edited_env :: auth_env where
  \<comment> \<open>the sample with an override that denies the path\<close>
  "edited_env = sample_env\<lparr>ae_teamRows := [\<lparr>tr_id = ''t'', tr_workspaceId = ''w'', tr_linkedUserId = Some ''u'', tr_isDeleted = False,
     tr_rbacRoleId = Some ''r'', tr_canSwitchRole = True, tr_permissionOverrides = [],
     tr_permissionPathOverrides = [\<lparr>po_path = ''shifts.catalog.view'', po_allowed = False, po_scope = None\<rparr>]\<rparr>]\<rparr>"

theorem stale_context_after_event_witness:
  "\<exists>c. caller_has_path c ''shifts.catalog.view'' None
     \<and> fst (resolveCaller edited_env (cache_store (on_permission_event (''w'', ''u'') []) (''w'', ''u'') c 0) 29999 ''w'' ''u'') = Inr c
     \<and> \<not> may_use_path edited_env ''w'' ''u'' ''shifts.catalog.view'' None"
proof -
  obtain c where c: "resolveCallerUncached sample_env ''w'' ''u'' = Inr c" "caller_has_path c ''shifts.catalog.view'' None"
    using sample_lookup unfolding may_use_path_iff by blast
  have "\<not> isRevoked edited_env ''w'' ''u''" by (simp add: isRevoked_def edited_env_def sample_env_def)
  from stale_context_after_event[OF c(1) this, of 0 29999 "[]"]
  have "fst (resolveCaller edited_env (cache_store (on_permission_event (''w'', ''u'') []) (''w'', ''u'') c 0) 29999 ''w'' ''u'') = Inr c"
    by simp
  moreover have "\<not> may_use_path edited_env ''w'' ''u'' ''shifts.catalog.view'' None"
    by (simp add: may_use_path_def edited_env_def sample_env_def role_of_def active_membership_def role_by_id_def
        member_path_scope_def guard_overrides_def own_team_row_def path_view_def covers_def)
  ultimately show ?thesis using c(2) by blast
qed

end
