(* ===== verification/RbacService.thy ===== *)
theory RbacService
  imports RbacCache
begin

text \<open>
  The operations that change grants: creating, updating and deleting a role
  (\<open>rbac/rbac.service.ts\<close>), and assigning a role or overrides to a member
  (\<open>team/team.service.ts\<close>); and \<open>getMyPermissions\<close>, what the web client is told.  Names,
  descriptions, colours, audit and notifications are left out; a handler returns an error or the
  new documents, with the callers it emits a permission event for.
\<close>

section \<open>The permission ceiling\<close>

datatype rbac_error = Ws_missing | Role_not_found | System_role | Ceiling_flat string string perm_scope
  | Ceiling_path string perm_scope | Bad_grants grant_error | Role_in_use nat | Member_not_found
  | Own_privileges | No_active_access | Unknown_action string | Directory_lookup_failed | Not_member

type_synonym actor_permissions = "(flat_permission list \<times> grant list) option"

definition resolveActorPermissions :: "auth_env \<Rightarrow> workspace_doc \<Rightarrow> string \<Rightarrow> string \<Rightarrow> actor_permissions" where
  \<comment> \<open>\<open>None\<close> is the owner\<close>
  "resolveActorPermissions env w ws u =
     (if isWorkspaceOwner (Some w) u then None
      else Some (case active_membership env ws u of
         None \<Rightarrow> ([], [])
       | Some m \<Rightarrow>
          (case mb_roleId m of
             None \<Rightarrow> ([], [])
           | Some rid \<Rightarrow>
              (case role_by_id env rid of
                 None \<Rightarrow> ([], [])
               | Some role \<Rightarrow>
                   let row = own_team_row env ws u
                   in (applyPermissionOverrides (ro_permissions role) (case row of None \<Rightarrow> [] | Some t \<Rightarrow> tr_permissionOverrides t),
                       applyPathOverrides (ro_permissionPaths role) (case row of None \<Rightarrow> [] | Some t \<Rightarrow> tr_permissionPathOverrides t))))))"

definition ceiling_of_row :: "flat_permission list \<Rightarrow> flat_permission \<Rightarrow> rbac_error option" where
  "ceiling_of_row held_rows perm = first_error (\<lambda>ia.
     let scope = scope_at (fp_actionScopes perm) (fst ia)
     in if permissionsSatisfy held_rows (fp_module perm) (snd ia) (Some scope) then None
        else Some (Ceiling_flat (fp_module perm) (snd ia) scope)) (List.enumerate 0 (fp_actions perm))"

definition assertWithinCeiling :: "flat_permission list option \<Rightarrow> flat_permission list option \<Rightarrow> rbac_error option" where
  "assertWithinCeiling actor requested_rows =
     (case actor of None \<Rightarrow> None
      | Some held_rows \<Rightarrow> (case requested_rows of None \<Rightarrow> None | Some rows \<Rightarrow> first_error (ceiling_of_row held_rows) rows))"

definition assertPathsWithinCeiling :: "grant list option \<Rightarrow> grant list option \<Rightarrow> rbac_error option" where
  "assertPathsWithinCeiling actor requested_paths =
     (case actor of None \<Rightarrow> None
      | Some held_paths \<Rightarrow> (case requested_paths of None \<Rightarrow> None
          | Some gs \<Rightarrow> first_error (\<lambda>g. if pathGrantSatisfies held_paths (g_path g) (Some (g_scope g)) then None
              else Some (Ceiling_path (g_path g) (g_scope g))) gs))"

definition check_paths :: "grant list \<Rightarrow> rbac_error option" where
  \<comment> \<open>the two invariants checked at every save, in this order\<close>
  "check_paths gs = (case assertViewEditCoherent gs of Some e \<Rightarrow> Some (Bad_grants e)
     | None \<Rightarrow> map_option Bad_grants (assertDepsResolved gs))"

section \<open>Roles\<close>

definition createRole :: "auth_env \<Rightarrow> string \<Rightarrow> string \<Rightarrow> string \<Rightarrow> flat_permission list \<Rightarrow> grant list option
    \<Rightarrow> rbac_error + (auth_env \<times> role_doc)" where
  "createRole env ws u newId permissions paths =
     (case map_of (ae_workspaces env) ws of
        None \<Rightarrow> Inl Ws_missing
      | Some w \<Rightarrow>
          let actor = resolveActorPermissions env w ws u
          in case assertWithinCeiling (map_option fst actor) (Some permissions) of Some e \<Rightarrow> Inl e
           | None \<Rightarrow>
          (case assertPathsWithinCeiling (map_option snd actor) paths of Some e \<Rightarrow> Inl e
           | None \<Rightarrow>
          (case check_paths (coalesce paths []) of Some e \<Rightarrow> Inl e
           | None \<Rightarrow>
              let role = \<lparr>ro_id = newId, ro_workspaceId = Some ws, ro_isSystem = False, ro_permissions = permissions,
                          ro_permissionPaths = coalesce paths []\<rparr>
              in Inr (env\<lparr>ae_roles := ae_roles env @ [role]\<rparr>, role))))"

definition find_role :: "auth_env \<Rightarrow> string \<Rightarrow> string \<Rightarrow> role_doc option" where
  "find_role env ws rid = List.find (\<lambda>r. ro_id r = rid \<and> ro_workspaceId r = Some ws) (ae_roles env)"

definition updateRole :: "auth_env \<Rightarrow> string \<Rightarrow> string \<Rightarrow> string \<Rightarrow> flat_permission list option \<Rightarrow> grant list option
    \<Rightarrow> rbac_error + (auth_env \<times> role_doc)" where
  "updateRole env ws rid u permissions paths =
     (case map_of (ae_workspaces env) ws of
        None \<Rightarrow> Inl Ws_missing
      | Some w \<Rightarrow>
     (case find_role env ws rid of
        None \<Rightarrow> Inl Role_not_found
      | Some role \<Rightarrow>
          let actor = resolveActorPermissions env w ws u
          in if ro_isSystem role \<and> actor \<noteq> None then Inl System_role
             else case assertWithinCeiling (map_option fst actor) permissions of Some e \<Rightarrow> Inl e
           | None \<Rightarrow>
          (case assertPathsWithinCeiling (map_option snd actor) paths of Some e \<Rightarrow> Inl e
           | None \<Rightarrow>
          (case (case paths of None \<Rightarrow> None | Some gs \<Rightarrow> check_paths gs) of Some e \<Rightarrow> Inl e
           | None \<Rightarrow>
              let role' = role\<lparr>ro_permissions := coalesce permissions (ro_permissions role),
                               ro_permissionPaths := coalesce paths (ro_permissionPaths role)\<rparr>
              in Inr (env\<lparr>ae_roles := map (\<lambda>r. if ro_id r = rid then role' else r) (ae_roles env)\<rparr>, role')))))"

definition removeRole :: "auth_env \<Rightarrow> string \<Rightarrow> string \<Rightarrow> string \<Rightarrow> rbac_error + auth_env" where
  "removeRole env ws rid u =
     (case map_of (ae_workspaces env) ws of
        None \<Rightarrow> Inl Ws_missing
      | Some w \<Rightarrow>
     (case find_role env ws rid of
        None \<Rightarrow> Inl Role_not_found
      | Some role \<Rightarrow>
          if ro_isSystem role \<and> \<not> isWorkspaceOwner (Some w) u then Inl System_role
          else let membersCount = length (filter (\<lambda>m. mb_roleId m = Some rid \<and> mb_workspaceId m = ws) (ae_memberships env))
               in if membersCount > 0 then Inl (Role_in_use membersCount)
                  else Inr (env\<lparr>ae_roles := filter (\<lambda>r. ro_id r \<noteq> rid) (ae_roles env)\<rparr>)))"

section \<open>Members\<close>

definition assertNotSelfPrivilegeEdit :: "auth_env \<Rightarrow> string \<Rightarrow> string \<Rightarrow> string \<Rightarrow> rbac_error option" where
  "assertNotSelfPrivilegeEdit env ws u memberId =
     (case resolveScope env ws u of
        None \<Rightarrow> Some Directory_lookup_failed
      | Some ctx \<Rightarrow> if cx_isOwner ctx then None
          else if cx_teamMemberId ctx = Some memberId then Some Own_privileges else None)"

definition find_row :: "auth_env \<Rightarrow> string \<Rightarrow> string \<Rightarrow> team_row option" where
  "find_row env ws memberId = List.find (\<lambda>t. tr_id t = memberId \<and> tr_workspaceId t = ws) (ae_teamRows env)"

definition save_row :: "team_row \<Rightarrow> auth_env \<Rightarrow> auth_env" where
  "save_row row env = env\<lparr>ae_teamRows := map (\<lambda>t. if tr_id t = tr_id row then row else t) (ae_teamRows env)\<rparr>"

definition clear_revocation :: "string \<Rightarrow> team_row \<Rightarrow> auth_env \<Rightarrow> auth_env \<times> (string \<times> string) list" where
  \<comment> \<open>clears the denylist entry of a linked member and emits the event; a Redis error is swallowed\<close>
  "clear_revocation ws row env = (case tr_linkedUserId row of
      None \<Rightarrow> (env, [])
    | Some v \<Rightarrow> (env\<lparr>ae_revoked := if ae_redisUp env then filter (\<lambda>k. k \<noteq> (ws, v)) (ae_revoked env) else ae_revoked env\<rparr>, [(ws, v)]))"

definition changeAccessRole :: "auth_env \<Rightarrow> string \<Rightarrow> string \<Rightarrow> string \<Rightarrow> string \<Rightarrow> rbac_error + (auth_env \<times> (string \<times> string) list)" where
  "changeAccessRole env ws memberId u newRole =
     (case assertNotSelfPrivilegeEdit env ws u memberId of Some e \<Rightarrow> Inl e
      | None \<Rightarrow>
     (case find_row env ws memberId of
        None \<Rightarrow> Inl Member_not_found
      | Some row \<Rightarrow>
          if \<not> tr_canSwitchRole row then Inl No_active_access
          else let row' = row\<lparr>tr_rbacRoleId := Some newRole\<rparr>;
                   env1 = save_row row' env;
                   env2 = env1\<lparr>ae_memberships := map (\<lambda>m.
                     if mb_workspaceId m = ws \<and> mb_linkedTeamMemberId m = Some memberId \<and> mb_status m \<in> {''active'', ''invited''}
                     then m\<lparr>mb_roleId := Some newRole\<rparr> else m) (ae_memberships env1)\<rparr>
               in Inr (clear_revocation ws row' env2)))"

definition MODULE_ACTIONS :: "string list" where
  "MODULE_ACTIONS = [''view'', ''create'', ''add'', ''edit'', ''delete'', ''mark'', ''export'', ''add_payment'', ''remove'',
     ''manage_devices'', ''manage_policies'', ''manage_regularizations'', ''manage_anomalies'', ''assign'',
     ''manage_production'', ''apply_leave'', ''approve_leave'', ''manage_leave'', ''sensitive_view'', ''request_advance'',
     ''request_loan'', ''declare_tax'', ''review_advance'']"

definition setPermissionOverrides :: "auth_env \<Rightarrow> string \<Rightarrow> string \<Rightarrow> string \<Rightarrow> flat_override list \<Rightarrow> path_override list option
    \<Rightarrow> rbac_error + (auth_env \<times> (string \<times> string) list)" where
  "setPermissionOverrides env ws memberId u overrides pathOverrides =
     (case assertNotSelfPrivilegeEdit env ws u memberId of Some e \<Rightarrow> Inl e
      | None \<Rightarrow>
     (case find_row env ws memberId of
        None \<Rightarrow> Inl Member_not_found
      | Some row \<Rightarrow>
     (case first_error (\<lambda>ov. if fo_action ov \<in> set MODULE_ACTIONS then None else Some (Unknown_action (fo_action ov))) overrides of
        Some e \<Rightarrow> Inl e
      | None \<Rightarrow>
          let rolePaths = (case tr_rbacRoleId row of None \<Rightarrow> []
                | Some rid \<Rightarrow> (case role_by_id env rid of None \<Rightarrow> [] | Some r \<Rightarrow> ro_permissionPaths r));
              effectivePaths = applyPathOverrides rolePaths (coalesce pathOverrides [])
          in case check_paths effectivePaths of Some e \<Rightarrow> Inl e
           | None \<Rightarrow>
              let row' = row\<lparr>tr_permissionOverrides := overrides, tr_permissionPathOverrides := coalesce pathOverrides []\<rparr>
              in Inr (clear_revocation ws row' (save_row row' env)))))"

section \<open>What the client is told\<close>

record permissions_response =
  my_isOwner :: bool
  my_teamMemberId :: "string option"
  my_role :: "string option"
  my_permissions :: "flat_permission list"
  my_paths :: "grant list"

definition getMyPermissions :: "auth_env \<Rightarrow> string \<Rightarrow> string \<Rightarrow> rbac_error + permissions_response" where
  \<comment> \<open>without the version string\<close>
  "getMyPermissions env ws u =
     (case map_of (ae_workspaces env) ws of
        None \<Rightarrow> Inl Ws_missing
      | Some w \<Rightarrow>
          if \<not> ae_teamLookupOk env then Inl Directory_lookup_failed
          else let row = own_team_row env ws u; tm = map_option tr_id row;
                   none = \<lparr>my_isOwner = False, my_teamMemberId = tm, my_role = None, my_permissions = [], my_paths = []\<rparr>
               in if isWorkspaceOwner (Some w) u then Inr (none\<lparr>my_isOwner := True\<rparr>)
                  else (case active_membership env ws u of
                     None \<Rightarrow> Inl Not_member
                   | Some m \<Rightarrow>
                      (case mb_roleId m of
                         None \<Rightarrow> Inr none
                       | Some rid \<Rightarrow>
                          (case role_by_id env rid of
                             None \<Rightarrow> Inr none
                           | Some role \<Rightarrow> Inr \<lparr>my_isOwner = False, my_teamMemberId = tm, my_role = Some (ro_id role),
                               my_permissions = applyPermissionOverrides (ro_permissions role) (case row of None \<Rightarrow> [] | Some t \<Rightarrow> tr_permissionOverrides t),
                               my_paths = applyPathOverrides (ro_permissionPaths role) (case row of None \<Rightarrow> [] | Some t \<Rightarrow> tr_permissionPathOverrides t)\<rparr>))))"

section \<open>Ceiling lemmas\<close>

lemma covers_trans: "covers h (Some s) \<Longrightarrow> covers (Some s) r \<Longrightarrow> covers h r"
  by (auto simp: covers_def split: option.splits)

lemma satisfy_weaken: "permissionsSatisfy rows m a (Some s) \<Longrightarrow> covers (Some s) r \<Longrightarrow> permissionsSatisfy rows m a r"
  by (auto simp: permissionsSatisfy_def row_satisfies_iff intro: covers_trans)

lemma enumerate_nth: "i < length xs \<Longrightarrow> (i, xs ! i) \<in> set (List.enumerate 0 xs)"
  by (simp add: in_set_enumerate_eq)

lemma within_ceiling:
  assumes "assertWithinCeiling (Some held_rows) (Some rows) = None" "permissionsSatisfy rows m a r"
  shows "permissionsSatisfy held_rows m a r"
proof -
  obtain p where p: "p \<in> set rows" "fp_module p = m" "covers (row_scope p a) r"
    using assms(2) by (auto simp: permissionsSatisfy_def row_satisfies_iff)
  obtain i where i: "find_index (\<lambda>x. x = a) (fp_actions p) = Some i" "row_scope p a = Some (scope_at (fp_actionScopes p) i)"
    using p(3) by (auto simp: row_scope_def covers_def split: option.splits)
  have "i < length (fp_actions p)" "fp_actions p ! i = a" using find_index_SomeD[OF i(1)] by simp_all
  then have "(i, a) \<in> set (List.enumerate 0 (fp_actions p))" using enumerate_nth by metis
  moreover have "ceiling_of_row held_rows p = None" using assms(1) p(1) by (simp add: assertWithinCeiling_def)
  ultimately have "permissionsSatisfy held_rows m a (Some (scope_at (fp_actionScopes p) i))"
    using p(2) by (fastforce simp: ceiling_of_row_def Let_def split: if_splits)
  then show ?thesis using satisfy_weaken p(3) i(2) by metis
qed

lemma last_held_mem: "last_held gs p = Some s \<Longrightarrow> \<exists>g\<in>set gs. g_path g = p \<and> g_scope g = s"
  by (induction gs rule: rev_induct) (auto split: if_splits)

lemma paths_within_ceiling:
  assumes "assertPathsWithinCeiling (Some held_paths) (Some gs) = None" "covers (last_held gs p) r"
  shows "pathGrantSatisfies held_paths p r"
proof -
  obtain s where s: "last_held gs p = Some s" using assms(2) by (auto simp: covers_def split: option.splits)
  then obtain g where g: "g \<in> set gs" "g_path g = p" "g_scope g = s" using last_held_mem by blast
  have "pathGrantSatisfies held_paths p (Some s)"
    using assms(1) g by (auto simp: assertPathsWithinCeiling_def split: if_splits)
  then show ?thesis using covers_trans assms(2) s by (metis satisfies_iff)
qed

lemma actor_of_caller:
  assumes "resolveCallerUncached env ws u = Inr c" "ae_teamLookupOk env" "map_of (ae_workspaces env) ws = Some w"
  shows "case c of Owner_caller \<Rightarrow> resolveActorPermissions env w ws u = None
    | Member_caller role ovs povs \<Rightarrow> resolveActorPermissions env w ws u =
        Some (applyPermissionOverrides (ro_permissions role) ovs, applyPathOverrides (ro_permissionPaths role) povs)"
  using assms
  by (auto simp: resolveCallerUncached_def resolveActorPermissions_def guard_overrides_def Let_def
      split: option.splits if_splits caller.splits)

lemma ceiling_caller:
  assumes c: "resolveCallerUncached env ws u = Inr c" "ae_teamLookupOk env" "map_of (ae_workspaces env) ws = Some w"
  shows "assertPathsWithinCeiling (map_option snd (resolveActorPermissions env w ws u)) (Some gs) = None \<Longrightarrow>
      covers (last_held gs p) r \<Longrightarrow> caller_has_path c p r"
    and "assertWithinCeiling (map_option fst (resolveActorPermissions env w ws u)) (Some rows) = None \<Longrightarrow>
      permissionsSatisfy rows m a r \<Longrightarrow> caller_has_flat c m a r"
  using actor_of_caller[OF c] paths_within_ceiling within_ceiling
  by (auto simp: caller_has_path_def caller_has_flat_def split: caller.splits)

lemma plain_role_path: "caller_has_path (Member_caller role [] []) p r \<longleftrightarrow> covers (last_held (ro_permissionPaths role) p) r"
  by (simp add: caller_has_path_def satisfies_iff held_overridden)

lemma plain_role_flat: "caller_has_flat (Member_caller role [] []) m a r \<longleftrightarrow> permissionsSatisfy (ro_permissions role) m a r"
  by (simp add: caller_has_flat_def applyPermissionOverrides_def)

lemma create_ok:
  assumes "createRole env ws u newId permissions paths = Inr (env', role)"
  shows "\<exists>w. map_of (ae_workspaces env) ws = Some w
      \<and> assertWithinCeiling (map_option fst (resolveActorPermissions env w ws u)) (Some permissions) = None
      \<and> assertPathsWithinCeiling (map_option snd (resolveActorPermissions env w ws u)) paths = None"
    "role = \<lparr>ro_id = newId, ro_workspaceId = Some ws, ro_isSystem = False, ro_permissions = permissions,
        ro_permissionPaths = coalesce paths []\<rparr>"
    "check_paths (coalesce paths []) = None" "env' = env\<lparr>ae_roles := ae_roles env @ [role]\<rparr>"
  using assms by (auto simp: createRole_def Let_def split: option.splits)

lemma update_ok:
  assumes "updateRole env ws rid u permissions paths = Inr (env', role)"
  shows "\<exists>w old. map_of (ae_workspaces env) ws = Some w \<and> find_role env ws rid = Some old
    \<and> (ro_isSystem old \<longrightarrow> resolveActorPermissions env w ws u = None)
    \<and> assertWithinCeiling (map_option fst (resolveActorPermissions env w ws u)) permissions = None
    \<and> assertPathsWithinCeiling (map_option snd (resolveActorPermissions env w ws u)) paths = None
    \<and> (\<forall>gs. paths = Some gs \<longrightarrow> check_paths gs = None)
    \<and> role = old\<lparr>ro_permissions := coalesce permissions (ro_permissions old), ro_permissionPaths := coalesce paths (ro_permissionPaths old)\<rparr>
    \<and> env' = env\<lparr>ae_roles := map (\<lambda>r. if ro_id r = rid then role else r) (ae_roles env)\<rparr>"
  using assms by (auto simp: updateRole_def Let_def split: option.splits if_splits) (metis option.exhaust surj_pair)+

section \<open>Properties\<close>

text \<open>
  C5. Role authoring never escalates: whoever creates or edits a role, every path and every flat
  permission that the resulting role confers on its holders is one the author holds, or, for an
  edit, one of a grant list the edit left as it was; and only the owner edits a system role.
\<close>

theorem role_authoring_never_escalates:
  assumes "resolveCallerUncached env ws u = Inr c" "ae_teamLookupOk env"
  shows "(\<forall>newId permissions paths env' role. createRole env ws u newId permissions paths = Inr (env', role) \<longrightarrow>
      (\<forall>p r. caller_has_path (Member_caller role [] []) p r \<longrightarrow> caller_has_path c p r) \<and>
      (\<forall>m a r. caller_has_flat (Member_caller role [] []) m a r \<longrightarrow> caller_has_flat c m a r))
    \<and> (\<forall>rid permissions paths env' role. updateRole env ws rid u permissions paths = Inr (env', role) \<longrightarrow>
      (\<exists>old. find_role env ws rid = Some old \<and> (ro_isSystem old \<longrightarrow> c = Owner_caller) \<and>
        (\<forall>p r. caller_has_path (Member_caller role [] []) p r \<longrightarrow>
           caller_has_path c p r \<or> paths = None \<and> caller_has_path (Member_caller old [] []) p r) \<and>
        (\<forall>m a r. caller_has_flat (Member_caller role [] []) m a r \<longrightarrow>
           caller_has_flat c m a r \<or> permissions = None \<and> caller_has_flat (Member_caller old [] []) m a r)))"
proof (intro conjI allI impI)
  fix newId permissions paths env' role p r
  assume cr: "createRole env ws u newId permissions paths = Inr (env', role)"
  obtain w where w: "map_of (ae_workspaces env) ws = Some w"
    "assertPathsWithinCeiling (map_option snd (resolveActorPermissions env w ws u)) paths = None"
    using create_ok(1)[OF cr] by blast
  assume "caller_has_path (Member_caller role [] []) p r"
  then have h: "covers (last_held (coalesce paths []) p) r" using create_ok(2)[OF cr] by (simp add: plain_role_path)
  then obtain gs where "paths = Some gs" by (cases paths) (simp_all add: covers_def)
  then show "caller_has_path c p r" using ceiling_caller(1)[OF assms w(1)] w(2) h by simp
next
  fix newId permissions paths env' role m a r
  assume cr: "createRole env ws u newId permissions paths = Inr (env', role)" and h: "caller_has_flat (Member_caller role [] []) m a r"
  obtain w where w: "map_of (ae_workspaces env) ws = Some w"
    "assertWithinCeiling (map_option fst (resolveActorPermissions env w ws u)) (Some permissions) = None"
    using create_ok(1)[OF cr] by blast
  show "caller_has_flat c m a r"
    using ceiling_caller(2)[OF assms w(1) w(2)] h create_ok(2)[OF cr] by (simp add: plain_role_flat)
next
  fix rid permissions paths env' role
  assume up: "updateRole env ws rid u permissions paths = Inr (env', role)"
  obtain w old where o: "map_of (ae_workspaces env) ws = Some w" "find_role env ws rid = Some old"
    "ro_isSystem old \<longrightarrow> resolveActorPermissions env w ws u = None"
    "assertWithinCeiling (map_option fst (resolveActorPermissions env w ws u)) permissions = None"
    "assertPathsWithinCeiling (map_option snd (resolveActorPermissions env w ws u)) paths = None"
    "role = old\<lparr>ro_permissions := coalesce permissions (ro_permissions old), ro_permissionPaths := coalesce paths (ro_permissionPaths old)\<rparr>"
    using update_ok[OF up] by (elim exE conjE) (rule that)
  have "ro_isSystem old \<longrightarrow> c = Owner_caller"
    using o(3) actor_of_caller[OF assms o(1)] by (auto split: caller.splits)
  moreover have "caller_has_path (Member_caller role [] []) p r \<longrightarrow>
      caller_has_path c p r \<or> paths = None \<and> caller_has_path (Member_caller old [] []) p r" for p r
    using ceiling_caller(1)[OF assms o(1)] o(5,6) by (cases paths) (auto simp: plain_role_path)
  moreover have "caller_has_flat (Member_caller role [] []) m a r \<longrightarrow>
      caller_has_flat c m a r \<or> permissions = None \<and> caller_has_flat (Member_caller old [] []) m a r" for m a r
    using ceiling_caller(2)[OF assms o(1)] o(4,6) by (cases permissions) (auto simp: plain_role_flat)
  ultimately show "\<exists>old. find_role env ws rid = Some old \<and> (ro_isSystem old \<longrightarrow> c = Owner_caller) \<and>
        (\<forall>p r. caller_has_path (Member_caller role [] []) p r \<longrightarrow>
           caller_has_path c p r \<or> paths = None \<and> caller_has_path (Member_caller old [] []) p r) \<and>
        (\<forall>m a r. caller_has_flat (Member_caller role [] []) m a r \<longrightarrow>
           caller_has_flat c m a r \<or> permissions = None \<and> caller_has_flat (Member_caller old [] []) m a r)"
    using o(2) by blast
qed

definition author_env :: auth_env where
  \<comment> \<open>the sample with a member holding two shift grants\<close>
  "author_env = sample_env\<lparr>ae_roles := [\<lparr>ro_id = ''r'', ro_workspaceId = Some ''w'', ro_isSystem = False, ro_permissions = [],
      ro_permissionPaths = [\<lparr>g_path = ''shifts.catalog.view'', g_scope = All_scope\<rparr>, \<lparr>g_path = ''shifts.catalog.create'', g_scope = All_scope\<rparr>]\<rparr>]\<rparr>"

lemma author_caller: "resolveCallerUncached author_env ''w'' ''u'' =
    Inr (Member_caller (hd (ae_roles author_env)) [] [])" "ae_teamLookupOk author_env"
  by (simp_all add: author_env_def sample_env_def resolveCallerUncached_def isWorkspaceOwner_def isRevoked_def
      active_membership_def role_by_id_def guard_overrides_def own_team_row_def)

lemma shift_paths_sound: "check_paths [\<lparr>g_path = ''shifts.catalog.view'', g_scope = All_scope\<rparr>] = None"
proof -
  have v: "isValidPermissionPath ''shifts.catalog.view''" unfolding valid_path_iff leaf_path_table_def by simp
  then have "prerequisites ''shifts.catalog.view'' = []" by (simp add: prerequisites_lookup prerequisite_table_def)
  then show ?thesis using v
    by (simp add: check_paths_def assertDepsResolved_def assertViewEditCoherent_def unknown_path_def Let_def
        leaf_buckets_def bucket_step_def leaf_re_def ends_with_def re_dots_def set_slot_def slot_error_def empty_slot_def)
qed

lemma author_creates:
  "\<exists>env' role. createRole author_env ''w'' ''u'' ''n'' [] (Some [\<lparr>g_path = ''shifts.catalog.view'', g_scope = All_scope\<rparr>]) = Inr (env', role)"
proof -
  have w: "map_of (ae_workspaces author_env) ''w'' = Some \<lparr>ws_ownerId = Some ''o'', ws_isDeleted = False\<rparr>"
    by (simp add: author_env_def sample_env_def)
  show ?thesis using actor_of_caller[OF author_caller w] shift_paths_sound
    by (simp add: createRole_def w Let_def assertWithinCeiling_def assertPathsWithinCeiling_def satisfies_iff held_overridden)
       (simp add: author_env_def last_held_def js_map_of_def entry_def covers_def)
qed

theorem role_authoring_never_escalates_witness:
  "\<exists>env' role. createRole author_env ''w'' ''u'' ''n'' [] (Some [\<lparr>g_path = ''shifts.catalog.view'', g_scope = All_scope\<rparr>]) = Inr (env', role)
     \<and> (\<forall>p r. caller_has_path (Member_caller role [] []) p r \<longrightarrow> caller_has_path (Member_caller (hd (ae_roles author_env)) [] []) p r)"
proof -
  obtain env' role where c: "createRole author_env ''w'' ''u'' ''n'' [] (Some [\<lparr>g_path = ''shifts.catalog.view'', g_scope = All_scope\<rparr>]) = Inr (env', role)"
    using author_creates by blast
  show ?thesis
    using c role_authoring_never_escalates[OF author_caller, THEN conjunct1, rule_format, OF c] by blast
qed

section \<open>Escalation through member edits\<close>

text \<open>The two member operations look at the actor only to exclude their own record.\<close>

lemma member_edits_ignore_actor:
  assumes "assertNotSelfPrivilegeEdit env ws u memberId = None" "assertNotSelfPrivilegeEdit env ws v memberId = None"
  shows "changeAccessRole env ws memberId u rid = changeAccessRole env ws memberId v rid"
    and "setPermissionOverrides env ws memberId u ovs povs = setPermissionOverrides env ws memberId v ovs povs"
  using assms by (simp_all add: changeAccessRole_def setPermissionOverrides_def)

definition office_env :: auth_env where
  \<comment> \<open>an owner, an administrator of app access, a colleague without grants, and a role of another workspace\<close>
  "office_env = \<lparr>ae_workspaces = [(''w'', \<lparr>ws_ownerId = Some ''o'', ws_isDeleted = False\<rparr>)],
     ae_memberships = [\<lparr>mb_workspaceId = ''w'', mb_userId = ''u'', mb_status = ''active'', mb_roleId = Some ''r'', mb_linkedTeamMemberId = Some ''tu''\<rparr>,
       \<lparr>mb_workspaceId = ''w'', mb_userId = ''v'', mb_status = ''active'', mb_roleId = Some ''e'', mb_linkedTeamMemberId = Some ''tv''\<rparr>],
     ae_roles = [\<lparr>ro_id = ''r'', ro_workspaceId = Some ''w'', ro_isSystem = False, ro_permissions = [],
          ro_permissionPaths = [\<lparr>g_path = ''team.directory.view'', g_scope = All_scope\<rparr>, \<lparr>g_path = ''team.profile.org.view'', g_scope = All_scope\<rparr>,
            \<lparr>g_path = ''team.appAccess.manage'', g_scope = All_scope\<rparr>]\<rparr>,
       \<lparr>ro_id = ''e'', ro_workspaceId = Some ''w'', ro_isSystem = False, ro_permissions = [], ro_permissionPaths = []\<rparr>,
       \<lparr>ro_id = ''x'', ro_workspaceId = Some ''w2'', ro_isSystem = False, ro_permissions = [],
          ro_permissionPaths = [\<lparr>g_path = ''team.profile.pay.edit'', g_scope = All_scope\<rparr>]\<rparr>],
     ae_teamRows = [\<lparr>tr_id = ''tu'', tr_workspaceId = ''w'', tr_linkedUserId = Some ''u'', tr_isDeleted = False, tr_rbacRoleId = Some ''r'',
          tr_canSwitchRole = True, tr_permissionOverrides = [], tr_permissionPathOverrides = []\<rparr>,
       \<lparr>tr_id = ''tv'', tr_workspaceId = ''w'', tr_linkedUserId = Some ''v'', tr_isDeleted = False, tr_rbacRoleId = Some ''e'',
          tr_canSwitchRole = True, tr_permissionOverrides = [], tr_permissionPathOverrides = []\<rparr>],
     ae_revoked = [], ae_redisUp = True, ae_teamLookupOk = True\<rparr>"

lemmas lookup_defs = may_use_path_def role_of_def active_membership_def role_by_id_def isRevoked_def member_path_scope_def
  guard_overrides_def own_team_row_def

lemma policy_override_sound:
  "check_paths (applyPathOverrides [] [\<lparr>po_path = ''attendance.policy.manage'', po_allowed = True, po_scope = Some All_scope\<rparr>]) = None"
proof -
  have v: "isValidPermissionPath ''attendance.policy.manage''" unfolding valid_path_iff leaf_path_table_def by simp
  then have "prerequisites ''attendance.policy.manage'' = []" by (simp add: prerequisites_lookup prerequisite_table_def)
  then show ?thesis using v
    by (simp add: applyPathOverrides_def apply_path_override_def js_map_of_def of_entry_def check_paths_def assertDepsResolved_def
        assertViewEditCoherent_def unknown_path_def Let_def leaf_buckets_def bucket_step_def leaf_re_def ends_with_def)
qed


section \<open>Invariants of the stored roles\<close>

definition roles_sound :: "auth_env \<Rightarrow> bool" where
  \<comment> \<open>every stored role passes both save-time checks\<close>
  "roles_sound env \<longleftrightarrow> (\<forall>r\<in>set (ae_roles env). check_paths (ro_permissionPaths r) = None)"

definition assignments_exist :: "string \<Rightarrow> auth_env \<Rightarrow> bool" where
  \<comment> \<open>every role assigned in the workspace is stored\<close>
  "assignments_exist ws env \<longleftrightarrow> (\<forall>m\<in>set (ae_memberships env). \<forall>rid.
     mb_workspaceId m = ws \<and> mb_roleId m = Some rid \<longrightarrow> role_by_id env rid \<noteq> None)"

inductive role_step :: "string \<Rightarrow> auth_env \<Rightarrow> auth_env \<Rightarrow> bool" for ws where
  Create: "createRole env ws u newId permissions paths = Inr (env', role) \<Longrightarrow> role_step ws env env'"
| Update: "updateRole env ws rid u permissions paths = Inr (env', role) \<Longrightarrow> role_step ws env env'"
| Remove: "removeRole env ws rid u = Inr env' \<Longrightarrow> role_step ws env env'"

inductive member_step :: "string \<Rightarrow> auth_env \<Rightarrow> auth_env \<Rightarrow> bool" for ws where
  Assign: "changeAccessRole env ws memberId u rid = Inr (env', ks) \<Longrightarrow> member_step ws env env'"
| Override: "setPermissionOverrides env ws memberId u ovs povs = Inr (env', ks) \<Longrightarrow> member_step ws env env'"

inductive_simps role_step_iff: "role_step ws env env'"
inductive_simps member_step_iff: "member_step ws env env'"

lemma role_by_id_None: "role_by_id env rid = None \<longleftrightarrow> rid \<notin> ro_id ` set (ae_roles env)"
  by (auto simp: role_by_id_def find_None_mem)

lemma remove_ok:
  assumes "removeRole env ws rid u = Inr env'"
  shows "env' = env\<lparr>ae_roles := filter (\<lambda>r. ro_id r \<noteq> rid) (ae_roles env)\<rparr>"
    and "m \<in> set (ae_memberships env) \<Longrightarrow> mb_workspaceId m = ws \<Longrightarrow> mb_roleId m \<noteq> Some rid"
  using assms by (auto simp: removeRole_def Let_def filter_empty_conv split: option.splits if_splits)

lemma create_sound: "createRole env ws u newId permissions paths = Inr (env', role) \<Longrightarrow> roles_sound env \<Longrightarrow> roles_sound env'"
  using create_ok[of env ws u newId permissions paths env' role] by (auto simp: roles_sound_def)

lemma update_sound:
  assumes "updateRole env ws rid u permissions paths = Inr (env', role)" "roles_sound env"
  shows "roles_sound env'" "ro_id role = rid"
proof -
  obtain w old where o: "find_role env ws rid = Some old" "\<forall>gs. paths = Some gs \<longrightarrow> check_paths gs = None"
    "role = old\<lparr>ro_permissions := coalesce permissions (ro_permissions old), ro_permissionPaths := coalesce paths (ro_permissionPaths old)\<rparr>"
    "env' = env\<lparr>ae_roles := map (\<lambda>r. if ro_id r = rid then role else r) (ae_roles env)\<rparr>"
    using update_ok[OF assms(1)] by blast
  have old: "old \<in> set (ae_roles env)" "ro_id old = rid" using find_Some_mem[OF o(1)[unfolded find_role_def]] by simp_all
  then show "ro_id role = rid" by (simp add: o(3))
  have "check_paths (ro_permissionPaths role) = None"
    using o(2,3) old assms(2) by (cases paths) (simp_all add: roles_sound_def)
  then show "roles_sound env'" using assms(2) by (auto simp: roles_sound_def o(4))
qed

lemma role_step_sound: "role_step ws env env' \<Longrightarrow> roles_sound env \<Longrightarrow> roles_sound env'"
proof (induction rule: role_step.induct)
  case (Remove env rid u env')
  then show ?case using remove_ok(1)[OF Remove.hyps] by (simp add: roles_sound_def)
qed (use create_sound update_sound(1) in blast)+

lemma member_step_roles: "member_step ws env env' \<Longrightarrow> ae_roles env' = ae_roles env"
  by (auto simp: member_step_iff changeAccessRole_def setPermissionOverrides_def clear_revocation_def save_row_def Let_def
      split: option.splits if_splits)

lemma role_step_assignments:
  assumes "role_step ws env env'" "roles_sound env" "assignments_exist ws env"
  shows "assignments_exist ws env'"
  using assms(1)
proof cases
  case (Create u newId permissions paths role)
  then show ?thesis using create_ok(4)[OF Create] assms(3) by (auto simp: assignments_exist_def role_by_id_None)
next
  case (Update rid u permissions paths role)
  obtain e: "env' = env\<lparr>ae_roles := map (\<lambda>r. if ro_id r = rid then role else r) (ae_roles env)\<rparr>"
    using update_ok[OF Update] by blast
  have "map ro_id (ae_roles env') = map ro_id (ae_roles env)"
    using update_sound(2)[OF Update assms(2)] by (simp add: e)
  then have "ro_id ` set (ae_roles env') = ro_id ` set (ae_roles env)" by (metis set_map)
  then show ?thesis using assms(3) by (simp add: assignments_exist_def role_by_id_None e)
next
  case (Remove rid u)
  note r = remove_ok[OF Remove]
  show ?thesis
    using assms(3) r(2) by (fastforce simp: assignments_exist_def role_by_id_None r(1) image_iff)
qed



section \<open>The client sees what the guard enforces\<close>

lemma my_permissions_agree:
  assumes "resolveCallerUncached env ws u = Inr c" "ae_teamLookupOk env"
  shows "\<exists>my. getMyPermissions env ws u = Inr my \<and>
    (\<forall>p r. my_isOwner my \<or> pathGrantSatisfies (my_paths my) p r \<longleftrightarrow> caller_has_path c p r) \<and>
    (\<forall>m a r. my_isOwner my \<or> permissionsSatisfy (my_permissions my) m a r \<longleftrightarrow> caller_has_flat c m a r)"
  using assms
  by (auto simp: resolveCallerUncached_def getMyPermissions_def guard_overrides_def Let_def caller_has_path_def caller_has_flat_def
      split: option.splits if_splits)

end
