(* ===== verification/Money.thy ===== *)
theory Money
  imports JsNumber
begin

text \<open>
  Amounts of money.  An amount in rupees is a binary64 number; what is stored and shown is a
  whole number of paise, and every routine of the payroll code rounds to it: \<open>roundCurrency\<close>
  (\<open>salary/utils/component-calculator.ts\<close>, \<open>salary/salary.service.ts\<close>) and \<open>round2\<close>
  (\<open>salary/utils/advance-recovery.util.ts\<close>, \<open>salary/utils/loan-schedule.util.ts\<close>).
  \<open>paise k\<close> is the stored value of \<open>k\<close> paise.  The lemmas of this theory say that, within the
  bounds stated, rounding recovers the exact number of paise from whatever a few binary64
  additions, subtractions and sums leave of it, and that stored amounts compare like their
  numbers of paise.  The components then compute in the integers.
\<close>

section \<open>The rounding functions of the source\<close>

definition roundCurrency :: "rat \<Rightarrow> rat" where
  "roundCurrency v = jdiv (of_int (round (jmul v 100))) 100"

definition round2 :: "rat \<Rightarrow> rat" where
  "round2 n = jdiv (of_int (round (jmul (jadd n number_epsilon) 100))) 100"

definition paise :: "int \<Rightarrow> rat" where
  "paise k = jdiv (of_int k) 100"

definition paise_of :: "rat \<Rightarrow> int" where
  "paise_of v = round (jmul v 100)"

lemma roundCurrency_paise_of: "roundCurrency v = paise (paise_of v)"
  by (simp add: roundCurrency_def paise_def paise_of_def)

lemma paise_0 [simp]: "paise 0 = 0"
  by (simp add: paise_def jdiv_def)

lemma paise_uminus [simp]: "paise (- k) = - paise k"
  by (simp add: paise_def jdiv_def)

lemma paise_rupees: "\<bar>n\<bar> \<le> 2 ^ 53 \<Longrightarrow> paise (100 * n) = of_int n"
  by (simp add: paise_def jdiv_def fl_of_int)

lemma paise_nonneg [simp]: "0 \<le> paise k \<longleftrightarrow> 0 \<le> k"
  by (simp add: paise_def jdiv_def)

lemma paise_pos [simp]: "0 < paise k \<longleftrightarrow> 0 < k"
  by (simp add: paise_def jdiv_def)

lemma paise_mono: "a \<le> b \<Longrightarrow> paise a \<le> paise b"
  unfolding paise_def jdiv_def by (intro fl_mono) (simp add: divide_right_mono)

lemma paise_error: "\<bar>paise k - of_int k / 100\<bar> \<le> of_int \<bar>k\<bar> / 100 / 2 ^ 53"
  using fl_error[of "of_int k / 100"] by (simp add: paise_def jdiv_def)

section \<open>Rounding recovers the number of paise\<close>

definition money_max :: int where
  \<comment> \<open>7 * 10 ^ 13 paise\<close>
  "money_max = 2 ^ 46"

lemma money_max_rat: "of_int money_max = (70368744177664 :: rat)"
  by (simp add: money_max_def)

lemma round_near: "\<bar>x - of_int k\<bar> < 1/2 \<Longrightarrow> round x = k"
proof -
  assume "\<bar>x - of_int k\<bar> < 1/2"
  then have "of_int k \<le> x + 1/2" "x + 1/2 < of_int k + 1" by linarith+
  then show ?thesis by (simp add: round_def floor_eq_iff)
qed

lemma paise_of_near:
  assumes "\<bar>k\<bar> \<le> money_max" "\<bar>x - of_int k / 100\<bar> \<le> 1/300"
  shows "paise_of x = k"
proof -
  have k: "\<bar>of_int k :: rat\<bar> \<le> 70368744177664"
    using assms(1) money_max_rat by (metis of_int_abs of_int_le_iff)
  define y where "y = x * 100"
  have y: "\<bar>y - of_int k\<bar> \<le> 1/3" using assms(2) unfolding y_def by linarith
  have "\<bar>y\<bar> \<le> 70368744177665" using k y by linarith
  then have "\<bar>y\<bar> / 2 ^ 53 \<le> 1/100" by simp
  then have "\<bar>fl y - y\<bar> \<le> 1/100" using fl_error[of y] by linarith
  with y have "\<bar>fl y - of_int k\<bar> < 1/2" by linarith
  then show ?thesis using round_near by (simp add: paise_of_def jmul_def y_def)
qed

lemma roundCurrency_near:
  "\<bar>k\<bar> \<le> money_max \<Longrightarrow> \<bar>x - of_int k / 100\<bar> \<le> 1/300 \<Longrightarrow> roundCurrency x = paise k"
  by (simp add: roundCurrency_paise_of paise_of_near)

lemma round2_near:
  assumes "\<bar>k\<bar> \<le> money_max" "\<bar>x - of_int k / 100\<bar> \<le> 1/400"
  shows "round2 x = paise k"
proof -
  have k: "\<bar>of_int k :: rat\<bar> \<le> 70368744177664"
    using assms(1) money_max_rat by (metis of_int_abs of_int_le_iff)
  define y where "y = x + number_epsilon"
  have e: "\<bar>y - of_int k / 100\<bar> \<le> 1/400 + 1/100000"
  proof -
    have "number_epsilon = 1 / 4503599627370496" by (simp add: number_epsilon_def)
    then show ?thesis using assms(2) unfolding y_def by linarith
  qed
  have "\<bar>y\<bar> \<le> 703687441777" using k e by linarith
  then have "\<bar>y\<bar> / 2 ^ 53 \<le> 1/10000" by simp
  then have "\<bar>fl y - y\<bar> \<le> 1/10000" using fl_error[of y] by linarith
  with e have "\<bar>fl y - of_int k / 100\<bar> \<le> 1/300" by linarith
  then have "roundCurrency (fl y) = paise k" by (rule roundCurrency_near[OF assms(1)])
  then show ?thesis by (simp add: round2_def roundCurrency_def jadd_def y_def)
qed

lemma paise_close: "\<bar>k\<bar> \<le> money_max \<Longrightarrow> \<bar>paise k - of_int k / 100\<bar> \<le> 1/10000"
proof -
  assume "\<bar>k\<bar> \<le> money_max"
  then have "(of_int \<bar>k\<bar> :: rat) \<le> 70368744177664" using money_max_rat by (metis of_int_le_iff)
  then have "(of_int \<bar>k\<bar> :: rat) / 100 / 2 ^ 53 \<le> 1/10000" by (simp add: divide_le_eq)
  then show ?thesis using paise_error[of k] by linarith
qed

lemma round_paise [simp]:
  assumes "\<bar>k\<bar> \<le> money_max"
  shows "roundCurrency (paise k) = paise k" "round2 (paise k) = paise k" "paise_of (paise k) = k"
proof -
  have e: "\<bar>paise k - of_int k / 100\<bar> \<le> 1/10000" by (rule paise_close[OF assms])
  show "roundCurrency (paise k) = paise k" by (rule roundCurrency_near[OF assms]) (use e in linarith)
  show "round2 (paise k) = paise k" by (rule round2_near[OF assms]) (use e in linarith)
  show "paise_of (paise k) = k" by (rule paise_of_near[OF assms]) (use e in linarith)
qed

lemma paise_inject: "\<bar>a\<bar> \<le> money_max \<Longrightarrow> \<bar>b\<bar> \<le> money_max \<Longrightarrow> paise a = paise b \<longleftrightarrow> a = b"
  using round_paise(3) by metis

lemma paise_less_iff: "\<bar>a\<bar> \<le> money_max \<Longrightarrow> \<bar>b\<bar> \<le> money_max \<Longrightarrow> paise a < paise b \<longleftrightarrow> a < b"
  using paise_inject[of a b] paise_mono[of a b] paise_mono[of b a] by fastforce

lemma paise_le_iff: "\<bar>a\<bar> \<le> money_max \<Longrightarrow> \<bar>b\<bar> \<le> money_max \<Longrightarrow> paise a \<le> paise b \<longleftrightarrow> a \<le> b"
  using paise_less_iff[of b a] by linarith

section \<open>Sums and differences\<close>

lemma jadd_close:
  assumes "\<bar>x - a\<bar> \<le> e" "\<bar>y - b\<bar> \<le> f" "\<bar>x + y\<bar> \<le> m"
  shows "\<bar>jadd x y - (a + b)\<bar> \<le> e + f + m / 2 ^ 53"
proof -
  have "\<bar>x + y\<bar> / 2 ^ 53 \<le> m / 2 ^ 53" using assms(3) by (simp add: divide_right_mono)
  then have "\<bar>jadd x y - (x + y)\<bar> \<le> m / 2 ^ 53" using fl_error[of "x + y"] by (simp add: jadd_def)
  then show ?thesis using assms by linarith
qed

lemma jsub_jadd: "jsub x y = jadd x (- y)"
  by (simp add: jsub_def jadd_def)

lemma jadd_paise_close:
  assumes "\<bar>a\<bar> \<le> money_max div 4" "\<bar>b\<bar> \<le> money_max div 4"
  shows "\<bar>jadd (paise a) (paise b) - of_int (a + b) / 100\<bar> \<le> 1/1000"
proof -
  have ab: "\<bar>of_int a :: rat\<bar> \<le> 17592186044416" "\<bar>of_int b :: rat\<bar> \<le> 17592186044416"
    using assms by (simp_all add: money_max_def flip: of_int_abs)
  have "\<bar>a\<bar> \<le> money_max" "\<bar>b\<bar> \<le> money_max" using assms by (simp_all add: money_max_def)
  note e = this[THEN paise_close]
  have "\<bar>paise a + paise b\<bar> \<le> 400000000000" using ab e by linarith
  from jadd_close[OF e this] have
    "\<bar>jadd (paise a) (paise b) - (of_int a / 100 + of_int b / 100)\<bar> \<le> 1/10000 + 1/10000 + 400000000000 / 2 ^ 53" .
  moreover have "(400000000000 :: rat) / 2 ^ 53 \<le> 1/10000" by simp
  moreover have "(of_int a / 100 + of_int b / 100 :: rat) = of_int (a + b) / 100" by (simp add: add_divide_distrib)
  ultimately show ?thesis by linarith
qed

lemma round_jadd:
  assumes "\<bar>a\<bar> \<le> money_max div 4" "\<bar>b\<bar> \<le> money_max div 4"
  shows "roundCurrency (jadd (paise a) (paise b)) = paise (a + b)" "round2 (jadd (paise a) (paise b)) = paise (a + b)"
proof -
  have ab: "\<bar>a + b\<bar> \<le> money_max" using assms by (simp add: money_max_def)
  note c = jadd_paise_close[OF assms]
  show "roundCurrency (jadd (paise a) (paise b)) = paise (a + b)" by (rule roundCurrency_near[OF ab]) (use c in linarith)
  show "round2 (jadd (paise a) (paise b)) = paise (a + b)" by (rule round2_near[OF ab]) (use c in linarith)
qed

lemma round_jsub:
  assumes "\<bar>a\<bar> \<le> money_max div 4" "\<bar>b\<bar> \<le> money_max div 4"
  shows "roundCurrency (jsub (paise a) (paise b)) = paise (a - b)" "round2 (jsub (paise a) (paise b)) = paise (a - b)"
  using round_jadd[of a "- b"] assms by (simp_all add: jsub_jadd)

lemma jsub_paise_close:
  assumes "\<bar>a\<bar> \<le> money_max div 4" "\<bar>b\<bar> \<le> money_max div 4"
  shows "\<bar>jsub (paise a) (paise b) - of_int (a - b) / 100\<bar> \<le> 1/1000"
  using jadd_paise_close[of a "- b"] assms by (simp add: jsub_jadd)

section \<open>Accumulated sums\<close>

text \<open>
  \<open>xs.reduce((s, x) => s + x, 0)\<close> adds from the left in binary64.  An accumulation is accurate
  when its error is at most that of such a sum: the documented behaviour of the sums that are
  computed outside the program (the \<open>$sum\<close> of a MongoDB aggregation).
\<close>

definition js_sum :: "rat list \<Rightarrow> rat" where
  "js_sum xs = foldl jadd 0 xs"

definition accurate_sum :: "(rat list \<Rightarrow> rat) \<Rightarrow> bool" where
  "accurate_sum S \<longleftrightarrow> (\<forall>xs. length xs \<le> 1000 \<longrightarrow>
     \<bar>S xs - sum_list xs\<bar> \<le> of_nat (length xs) * sum_list (map abs xs) / 2 ^ 52)"

lemma sum_list_abs_bound: "\<bar>sum_list xs\<bar> \<le> sum_list (map abs (xs :: rat list))"
proof (induction xs)
  case (Cons x xs)
  then show ?case by simp
qed simp

lemma js_sum_snoc: "js_sum (xs @ [x]) = jadd (js_sum xs) x"
  by (simp add: js_sum_def)

lemma js_sum_Nil [simp]: "js_sum [] = 0"
  by (simp add: js_sum_def)

lemma accurate_js_sum: "accurate_sum js_sum"
  unfolding accurate_sum_def
proof (intro allI impI)
  fix xs :: "rat list"
  show "length xs \<le> 1000 \<Longrightarrow> \<bar>js_sum xs - sum_list xs\<bar> \<le> of_nat (length xs) * sum_list (map abs xs) / 2 ^ 52"
  proof (induction xs rule: rev_induct)
    case Nil
    then show ?case by simp
  next
    case (snoc x xs)
    define n A where "n = (of_nat (length xs) :: rat)" and "A = sum_list (map abs xs)"
    have n: "0 \<le> n" "n \<le> 1000" using snoc.prems by (simp_all add: n_def)
    have A: "0 \<le> A" unfolding A_def by (rule sum_list_nonneg) auto
    have IH: "\<bar>js_sum xs - sum_list xs\<bar> \<le> n * A / 2 ^ 52" using snoc by (simp add: n_def A_def)
    have nA: "n * A \<le> 1000 * A" using n A by (intro mult_right_mono) auto
    define B where "B = n * A / 2 ^ 52"
    have small: "B \<le> A" using nA A by (simp add: B_def divide_le_eq)
    have S: "\<bar>sum_list xs\<bar> \<le> A" unfolding A_def by (rule sum_list_abs_bound)
    have "\<bar>js_sum xs + x\<bar> \<le> \<bar>js_sum xs - sum_list xs\<bar> + \<bar>sum_list xs\<bar> + \<bar>x\<bar>" by (simp add: abs_if)
    also have "\<dots> \<le> B + A + \<bar>x\<bar>" using IH[folded B_def] S by (intro add_mono) auto
    also have "\<dots> \<le> 2 * (A + \<bar>x\<bar>)" using small abs_ge_zero[of x] unfolding distrib_left by linarith
    finally have "\<bar>js_sum xs + x\<bar> \<le> 2 * (A + \<bar>x\<bar>)" .
    then have "\<bar>jadd (js_sum xs) x - (sum_list xs + x)\<bar> \<le> n * A / 2 ^ 52 + 0 + 2 * (A + \<bar>x\<bar>) / 2 ^ 53"
      by (rule jadd_close[OF IH, of x x 0, rotated]) simp
    moreover have "n * A / 2 ^ 52 + 0 + 2 * (A + \<bar>x\<bar>) / 2 ^ 53 \<le> (n + 1) * (A + \<bar>x\<bar>) / 2 ^ 52"
      using n by (simp add: field_simps)
    ultimately have "\<bar>jadd (js_sum xs) x - (sum_list xs + x)\<bar> \<le> (n + 1) * (A + \<bar>x\<bar>) / 2 ^ 52" by (rule order_trans)
    then show ?case by (simp only: js_sum_snoc n_def A_def length_append map_append sum_list_append list.map
        sum_list.Cons sum_list.Nil list.size of_nat_add of_nat_1 add_0_right add_0_left One_nat_def of_nat_Suc of_nat_0)
  qed
qed

definition small_total :: "int list \<Rightarrow> bool" where
  \<comment> \<open>at most 500 amounts, 10 ^ 12 paise together\<close>
  "small_total ks \<longleftrightarrow> length ks \<le> 500 \<and> sum_list (map abs ks) \<le> 2 ^ 40"

lemma small_total_sum: "small_total ks \<Longrightarrow> \<bar>sum_list ks\<bar> \<le> 2 ^ 40"
proof -
  have "\<bar>sum_list ks\<bar> \<le> sum_list (map abs ks)" by (induction ks) simp_all
  then show "small_total ks \<Longrightarrow> ?thesis" by (simp add: small_total_def)
qed

lemma paise_sum_error:
  "\<bar>sum_list (map paise ks) - of_int (sum_list ks) / 100\<bar> \<le> of_int (sum_list (map abs ks)) / 100 / 2 ^ 53"
proof (induction ks)
  case (Cons k ks)
  have "\<bar>paise k - of_int k / 100\<bar> \<le> of_int \<bar>k\<bar> / 100 / 2 ^ 53" by (rule paise_error)
  with Cons have "\<bar>(paise k - of_int k / 100) + (sum_list (map paise ks) - of_int (sum_list ks) / 100)\<bar>
      \<le> of_int \<bar>k\<bar> / 100 / 2 ^ 53 + of_int (sum_list (map abs ks)) / 100 / 2 ^ 53"
    by (intro order_trans[OF abs_triangle_ineq] add_mono)
  then show ?case by (simp add: add_divide_distrib algebra_simps)
qed simp

lemma abs_paise: "\<bar>paise k\<bar> = paise \<bar>k\<bar>"
proof -
  have "paise k < 0" if "k < 0" using paise_nonneg[of k] that by linarith
  moreover have "\<not> paise k < 0" if "0 \<le> k" using paise_nonneg[of k] that by linarith
  ultimately show ?thesis by (cases "0 \<le> k") (simp_all add: abs_if)
qed

lemma accurate_paise:
  assumes "accurate_sum S" "small_total ks"
  shows "\<bar>S (map paise ks) - of_int (sum_list ks) / 100\<bar> \<le> 1/400"
proof -
  define A where "A = sum_list (map abs ks)"
  have len: "length ks \<le> 500" and A: "A \<le> 2 ^ 40" using assms(2) by (simp_all add: small_total_def A_def)
  have A': "(of_int A :: rat) \<le> 1099511627776" using A by simp
  have A0: "0 \<le> A" unfolding A_def by (rule sum_list_nonneg) auto
  have abs: "sum_list (map abs (map paise ks)) = sum_list (map paise (map abs ks))" by (simp add: abs_paise comp_def)
  have "sum_list (map abs (map paise ks)) \<le> of_int A / 100 + of_int (sum_list (map abs (map abs ks))) / 100 / 2 ^ 53"
    unfolding abs using abs_le_D1[OF paise_sum_error[of "map abs ks"]] unfolding A_def by linarith
  also have "map abs (map abs ks) = map abs ks" by simp
  finally have "sum_list (map abs (map paise ks)) \<le> of_int A / 100 + of_int A / 100 / 2 ^ 53" by (simp add: A_def)
  also have "\<dots> \<le> 11000000000" using A' by simp
  finally have T: "sum_list (map abs (map paise ks)) \<le> 11000000000" .
  have "\<bar>S (map paise ks) - sum_list (map paise ks)\<bar> \<le> of_nat (length ks) * sum_list (map abs (map paise ks)) / 2 ^ 52"
    using assms(1)[unfolded accurate_sum_def, rule_format, of "map paise ks"] len by (simp del: map_map)
  also have "\<dots> \<le> 500 * 11000000000 / 2 ^ 52"
    using len T by (intro divide_right_mono mult_mono sum_list_nonneg) auto
  finally have "\<bar>S (map paise ks) - sum_list (map paise ks)\<bar> \<le> 1/800" by simp
  moreover have "\<bar>sum_list (map paise ks) - of_int (sum_list ks) / 100\<bar> \<le> of_int A / 100 / 2 ^ 53"
    unfolding A_def by (rule paise_sum_error)
  moreover have "(of_int A :: rat) / 100 / 2 ^ 53 \<le> 1/800" using A' by (simp add: divide_le_eq)
  ultimately show ?thesis by linarith
qed

lemma round_sum:
  assumes "accurate_sum S" "small_total ks"
  shows "roundCurrency (S (map paise ks)) = paise (sum_list ks)" "round2 (S (map paise ks)) = paise (sum_list ks)"
proof -
  have b: "\<bar>sum_list ks\<bar> \<le> money_max" using small_total_sum[OF assms(2)] by (simp add: money_max_def)
  note c = accurate_paise[OF assms]
  show "roundCurrency (S (map paise ks)) = paise (sum_list ks)" by (rule roundCurrency_near[OF b]) (use c in linarith)
  show "round2 (S (map paise ks)) = paise (sum_list ks)" by (rule round2_near[OF b]) (use c in linarith)
qed

lemma round_sub_sum:
  assumes "accurate_sum S" "small_total ks" "\<bar>K\<bar> \<le> 2 ^ 40"
  shows "roundCurrency (jsub (paise K) (S (map paise ks))) = paise (K - sum_list ks)"
proof -
  have b: "\<bar>sum_list ks\<bar> \<le> 2 ^ 40" by (rule small_total_sum[OF assms(2)])
  have r: "\<bar>of_int K :: rat\<bar> \<le> 1099511627776" "\<bar>of_int (sum_list ks) :: rat\<bar> \<le> 1099511627776"
    using assms(3) b by (simp_all flip: of_int_abs)
  have c: "\<bar>- S (map paise ks) - (- (of_int (sum_list ks) / 100))\<bar> \<le> 1/400"
    using accurate_paise[OF assms(1,2)] by (simp add: abs_minus_commute)
  have p: "\<bar>paise K - of_int K / 100\<bar> \<le> 1/10000" by (rule paise_close) (use assms(3) in \<open>simp add: money_max_def\<close>)
  have m: "\<bar>paise K + - S (map paise ks)\<bar> \<le> 30000000000" using p c r by linarith
  from jadd_close[OF p c m]
  have 1: "\<bar>jsub (paise K) (S (map paise ks)) - (of_int K / 100 + - (of_int (sum_list ks) / 100))\<bar>
      \<le> 1/10000 + 1/400 + 30000000000 / 2 ^ 53" by (simp add: jsub_jadd)
  have 2: "(1/10000 + 1/400 + 30000000000 / 2 ^ 53 :: rat) \<le> 1/300" by simp
  have 3: "of_int K / 100 + - (of_int (sum_list ks) / 100) = (of_int (K - sum_list ks) / 100 :: rat)"
    by (simp add: diff_divide_distrib)
  have "\<bar>jsub (paise K) (S (map paise ks)) - of_int (K - sum_list ks) / 100\<bar> \<le> 1/300"
    using order_trans[OF 1 2] unfolding 3 .
  moreover have "\<bar>K - sum_list ks\<bar> \<le> money_max" using assms(3) b by (simp add: money_max_def)
  ultimately show ?thesis by (rule roundCurrency_near[rotated])
qed

end
