(* ===== verification/SalaryComponents.thy ===== *)
theory SalaryComponents
  imports Money JsMap "HOL-Library.Multiset"
begin

text \<open>
  The salary structure calculator \<open>salary/utils/component-calculator.ts\<close>: components that are a
  percentage of the cost to company, a percentage of another component, fixed, or the balance;
  overrides; the depth-first search for circular references; the worklist that orders the
  components after the ones they refer to; the amounts and the balance.  The recursion of the
  search and the worklist loop are functions with termination proofs: the search never visits
  a component twice, and every component enters the worklist at most once because its counter
  reaches zero once.
\<close>

section \<open>Data\<close>

datatype calc_mode = Percent_of_ctc | Percent_of_component | Fixed_amount | Balancing

record component_input =
  ci_id :: string
  ci_name :: string
  ci_calcMode :: calc_mode
  ci_value :: "rat option"
  ci_reference :: "string option"
  ci_includedInCtc :: bool
  ci_isBasic :: bool
  ci_sortOrder :: rat

record component_override =
  ov_componentId :: string
  ov_calcMode :: "calc_mode option"
  ov_value :: "rat option"

record calculated_component =
  cc_componentId :: string
  cc_name :: string
  cc_amount :: rat
  cc_isBasic :: bool
  cc_includedInCtc :: bool

definition find_component :: "component_input list \<Rightarrow> string \<Rightarrow> component_input option" where
  "find_component comps cid = List.find (\<lambda>c. ci_id c = cid) comps"

definition reference_in :: "component_input list \<Rightarrow> component_input \<Rightarrow> string option" where
  \<comment> \<open>the reference of a percentage component, when it names one of the components\<close>
  "reference_in comps c = (if ci_calcMode c = Percent_of_component
     then (case ci_reference c of None \<Rightarrow> None
           | Some r \<Rightarrow> if r \<noteq> '''' \<and> r \<in> ci_id ` set comps then Some r else None)
     else None)"

section \<open>Circular references\<close>

definition next_ref :: "component_input list \<Rightarrow> string \<Rightarrow> string option" where
  "next_ref comps cid = (case find_component comps cid of None \<Rightarrow> None | Some c \<Rightarrow> reference_in comps c)"

lemma next_ref_mem: "next_ref comps cid = Some r \<Longrightarrow> r \<in> ci_id ` set comps"
  by (auto simp: next_ref_def reference_in_def split: option.splits if_splits)

lemma next_ref_dom: "next_ref comps cid = Some r \<Longrightarrow> cid \<in> ci_id ` set comps"
  by (auto simp: next_ref_def find_component_def split: option.splits dest!: find_Some_mem)

function dfs :: "component_input list \<Rightarrow> string \<Rightarrow> string set \<Rightarrow> string set \<Rightarrow> bool \<times> string set \<times> string set" where
  "dfs comps cid visited inStack =
     (if cid \<in> inStack then (True, visited, inStack)
      else if cid \<in> visited then (False, visited, inStack)
      else (case next_ref comps cid of
        None \<Rightarrow> (False, insert cid visited, inStack - {cid})
      | Some r \<Rightarrow>
          (case dfs comps r (insert cid visited) (insert cid inStack) of
             (True, v, s) \<Rightarrow> (True, v, s)
           | (False, v, s) \<Rightarrow> (False, v, s - {cid}))))"
  by pat_completeness auto
termination
proof (relation "measure (\<lambda>(comps, cid, visited, inStack). card (insert cid (ci_id ` set comps) - visited))", simp)
  fix comps cid visited and inStack :: "string set" and r
  assume *: "cid \<notin> inStack" "cid \<notin> visited" "next_ref comps cid = Some r"
  have "insert r (ci_id ` set comps) - insert cid visited \<subset> insert cid (ci_id ` set comps) - visited"
    using * next_ref_mem[OF *(3)] by auto
  then show "((comps, r, insert cid visited, insert cid inStack), comps, cid, visited, inStack)
      \<in> measure (\<lambda>(comps, cid, visited, inStack). card (insert cid (ci_id ` set comps) - visited))"
    by (simp add: psubset_card_mono)
qed

declare dfs.simps [simp del]

fun detect_from :: "component_input list \<Rightarrow> component_input list \<Rightarrow> string set \<Rightarrow> string set \<Rightarrow> bool" where
  "detect_from comps [] visited inStack = False"
| "detect_from comps (c # cs) visited inStack =
     (if ci_id c \<in> visited then detect_from comps cs visited inStack
      else (case dfs comps (ci_id c) visited inStack of
        (True, v, s) \<Rightarrow> True
      | (False, v, s) \<Rightarrow> detect_from comps cs v s))"

definition detectCircularReference :: "component_input list \<Rightarrow> bool" where
  "detectCircularReference comps = detect_from comps comps {} {}"

section \<open>The order of calculation\<close>

definition init_degrees :: "component_input list \<Rightarrow> (string \<times> int) list" where
  "init_degrees comps = foldl (\<lambda>m c. if map_of m (ci_id c) = None then AList.update (ci_id c) 0 m else m) [] comps"

definition init_adjacency :: "component_input list \<Rightarrow> (string \<times> string list) list" where
  "init_adjacency comps = foldl (\<lambda>m c. if map_of m (ci_id c) = None then AList.update (ci_id c) [] m else m) [] comps"

definition add_edge :: "component_input list \<Rightarrow> (string \<times> string list) list \<times> (string \<times> int) list \<Rightarrow> component_input
    \<Rightarrow> (string \<times> string list) list \<times> (string \<times> int) list" where
  "add_edge comps s c = (case reference_in comps c of
       None \<Rightarrow> s
     | Some r \<Rightarrow> (AList.update r (coalesce (map_of (fst s) r) [] @ [ci_id c]) (fst s),
                  AList.update (ci_id c) (coalesce (map_of (snd s) (ci_id c)) 0 + 1) (snd s)))"

definition relax_neighbor :: "string list \<times> (string \<times> int) list \<Rightarrow> string \<Rightarrow> string list \<times> (string \<times> int) list" where
  \<comment> \<open>a neighbor always has a counter; without one the counter becomes \<open>NaN\<close> and never zero\<close>
  "relax_neighbor s n = (case map_of (snd s) n of
       None \<Rightarrow> s
     | Some k \<Rightarrow> (if k - 1 = 0 then fst s @ [n] else fst s, AList.update n (k - 1) (snd s)))"

definition positive_degrees :: "(string \<times> int) list \<Rightarrow> string set" where
  "positive_degrees deg = {n. \<exists>k. map_of deg n = Some k \<and> 0 < k}"

lemma finite_positive_degrees [simp]: "finite (positive_degrees deg)"
proof -
  have "positive_degrees deg \<subseteq> fst ` set deg" by (auto simp: positive_degrees_def dest: map_of_SomeD intro: rev_image_eqI)
  then show ?thesis by (rule finite_subset) simp
qed

lemma relax_weight:
  "length (fst (relax_neighbor s n)) + card (positive_degrees (snd (relax_neighbor s n)))
     \<le> length (fst s) + card (positive_degrees (snd s))"
proof (cases "map_of (snd s) n")
  case None
  then show ?thesis by (simp add: relax_neighbor_def)
next
  case (Some k)
  have pos: "positive_degrees (AList.update n (k - 1) (snd s))
      = (if 1 < k then insert n (positive_degrees (snd s)) else positive_degrees (snd s) - {n})"
    by (auto simp: positive_degrees_def)
  have mem: "n \<in> positive_degrees (snd s) \<longleftrightarrow> 0 < k" using Some by (simp add: positive_degrees_def)
  consider "k = 1" | "1 < k" | "k < 1" by linarith
  then show ?thesis
  proof cases
    case 1
    then have "0 < card (positive_degrees (snd s))" using mem card_gt_0_iff by fastforce
    moreover have "positive_degrees (AList.update n 0 (snd s)) = positive_degrees (snd s) - {n}" using pos 1 by simp
    ultimately show ?thesis using 1 mem by (simp add: relax_neighbor_def Some)
  next
    case 2
    with mem show ?thesis by (simp add: relax_neighbor_def Some pos insert_absorb)
  next
    case 3
    with mem show ?thesis by (simp add: relax_neighbor_def Some pos)
  qed
qed

lemma relax_all_weight:
  "length (fst (foldl relax_neighbor s ns)) + card (positive_degrees (snd (foldl relax_neighbor s ns)))
     \<le> length (fst s) + card (positive_degrees (snd s))"
proof (induction ns arbitrary: s)
  case (Cons n ns)
  show ?case using Cons[of "relax_neighbor s n"] relax_weight[of s n] by simp
qed simp

function topo_loop :: "component_input list \<Rightarrow> (string \<times> string list) list \<Rightarrow> string list \<Rightarrow> (string \<times> int) list
    \<Rightarrow> component_input list \<Rightarrow> component_input list" where
  "topo_loop comps adj [] deg sorted_comps = sorted_comps"
| "topo_loop comps adj (current # queue) deg sorted_comps =
     (let sorted' = (case find_component comps current of None \<Rightarrow> sorted_comps | Some c \<Rightarrow> sorted_comps @ [c]);
          s = foldl relax_neighbor (queue, deg) (coalesce (map_of adj current) [])
      in topo_loop comps adj (fst s) (snd s) sorted')"
  by pat_completeness auto
termination
proof (relation "measure (\<lambda>(comps, adj, queue, deg, sorted_comps). length queue + card (positive_degrees deg))", simp)
  fix comps adj current queue deg and sorted_comps :: "component_input list"
  show "\<And>x xa. xa = foldl relax_neighbor (queue, deg) (coalesce (map_of adj current) []) \<Longrightarrow>
     ((comps, adj, fst xa, snd xa, x), comps, adj, current # queue, deg, sorted_comps)
     \<in> measure (\<lambda>(comps, adj, queue, deg, sorted_comps). length queue + card (positive_degrees deg))"
    using relax_all_weight[of "(queue, deg)" "coalesce (map_of adj current) []"] by simp
qed

definition topologicalSort :: "component_input list \<Rightarrow> component_input list" where
  "topologicalSort comps =
     (let s = foldl (add_edge comps) (init_adjacency comps, init_degrees comps) comps
      in topo_loop comps (fst s) (map fst (filter (\<lambda>e. snd e = 0) (snd s))) (snd s) [])"

section \<open>The amounts\<close>

definition set_override :: "component_override \<Rightarrow> component_input \<Rightarrow> component_input" where
  "set_override ov c = c\<lparr>ci_calcMode := coalesce (ov_calcMode ov) (ci_calcMode c),
     ci_value := (case ov_value ov of None \<Rightarrow> ci_value c | Some v \<Rightarrow> Some v)\<rparr>"

definition apply_override :: "component_input list \<Rightarrow> component_override \<Rightarrow> component_input list" where
  "apply_override working ov = (case find_index (\<lambda>c. ci_id c = ov_componentId ov) working of
       None \<Rightarrow> working
     | Some i \<Rightarrow> working[i := set_override ov (working ! i)])"

definition working_components :: "component_input list \<Rightarrow> component_override list \<Rightarrow> component_input list" where
  "working_components comps overrides = foldl apply_override (sort_key ci_sortOrder comps) overrides"

definition component_amount :: "rat \<Rightarrow> (string \<times> rat) list \<Rightarrow> component_input \<Rightarrow> rat" where
  "component_amount ctcAmount calculated c = (case ci_calcMode c of
       Percent_of_ctc \<Rightarrow> roundCurrency (jdiv (jmul ctcAmount (coalesce (ci_value c) 0)) 100)
     | Percent_of_component \<Rightarrow>
         let refAmount = (case ci_reference c of None \<Rightarrow> 0 | Some r \<Rightarrow> coalesce (map_of calculated r) 0)
         in roundCurrency (jdiv (jmul refAmount (coalesce (ci_value c) 0)) 100)
     | Fixed_amount \<Rightarrow> coalesce (ci_value c) 0
     | Balancing \<Rightarrow> 0)"

definition calculated_of :: "component_input \<Rightarrow> rat \<Rightarrow> calculated_component" where
  "calculated_of c amount = \<lparr>cc_componentId = ci_id c, cc_name = ci_name c, cc_amount = amount,
     cc_isBasic = ci_isBasic c, cc_includedInCtc = ci_includedInCtc c\<rparr>"

definition calc_step :: "rat \<Rightarrow> (string \<times> rat) list \<times> calculated_component list \<Rightarrow> component_input
    \<Rightarrow> (string \<times> rat) list \<times> calculated_component list" where
  "calc_step ctcAmount s c =
     (let amount = component_amount ctcAmount (fst s) c
      in (AList.update (ci_id c) amount (fst s), snd s @ [calculated_of c amount]))"

definition balance_of :: "rat \<Rightarrow> calculated_component list \<Rightarrow> rat" where
  "balance_of ctcAmount results =
     (let balance = roundCurrency (jsub ctcAmount (js_sum (map cc_amount (filter cc_includedInCtc results))))
      in if balance < 0 then 0 else balance)"

datatype component_error = Circular_reference

definition component_index :: "component_input list \<Rightarrow> calculated_component \<Rightarrow> int" where
  "component_index working r = (case find_index (\<lambda>c. ci_id c = cc_componentId r) working of None \<Rightarrow> - 1 | Some i \<Rightarrow> int i)"

definition calculateComponents :: "rat \<Rightarrow> component_input list \<Rightarrow> component_override list
    \<Rightarrow> component_error + calculated_component list \<times> rat" where
  "calculateComponents ctcAmount comps overrides =
     (let working = working_components comps overrides
      in if detectCircularReference working then Inl Circular_reference
         else
           let results = snd (foldl (calc_step ctcAmount) ([], [])
                 (topologicalSort (filter (\<lambda>c. ci_calcMode c \<noteq> Balancing) working)));
               results' = (case List.find (\<lambda>c. ci_calcMode c = Balancing) working of
                   None \<Rightarrow> results
                 | Some b \<Rightarrow> results @ [calculated_of b (balance_of ctcAmount results)]);
               breakdown = sort_key (component_index working) results'
           in Inr (breakdown, case List.find cc_isBasic breakdown of None \<Rightarrow> ctcAmount | Some r \<Rightarrow> cc_amount r))"

datatype definition_error = Basic_count | Several_balancing | Missing_reference string string | Circular

definition validateComponentDefinitions :: "component_input list \<Rightarrow> definition_error list" where
  \<comment> \<open>valid when the list is empty\<close>
  "validateComponentDefinitions comps =
     (if length (filter ci_isBasic comps) \<noteq> 1 then [Basic_count] else [])
     @ (if length (filter (\<lambda>c. ci_calcMode c = Balancing) comps) > 1 then [Several_balancing] else [])
     @ concat (map (\<lambda>c. if ci_calcMode c = Percent_of_component
          then (case ci_reference c of None \<Rightarrow> []
                | Some r \<Rightarrow> if r \<noteq> '''' \<and> r \<notin> ci_id ` set comps then [Missing_reference (ci_name c) r] else [])
          else []) comps)
     @ (if detectCircularReference comps then [Circular] else [])"

section \<open>The search finds exactly the cycles\<close>

definition ref_graph :: "component_input list \<Rightarrow> (string \<times> string) set" where
  "ref_graph comps = {(a, b). next_ref comps a = Some b}"

lemma ref_graph_iff: "(a, b) \<in> ref_graph comps \<longleftrightarrow> next_ref comps a = Some b"
  by (simp add: ref_graph_def)

inductive ref_ends :: "component_input list \<Rightarrow> string \<Rightarrow> bool" for comps where
  \<comment> \<open>the chain of references from a component ends\<close>
  end_none: "next_ref comps a = None \<Longrightarrow> ref_ends comps a"
| end_step: "next_ref comps a = Some b \<Longrightarrow> ref_ends comps b \<Longrightarrow> ref_ends comps a"

lemma ref_ends_acyclic: "ref_ends comps a \<Longrightarrow> (a, a) \<notin> (ref_graph comps)\<^sup>+"
proof (induction rule: ref_ends.induct)
  case (end_none a)
  show ?case
  proof
    assume "(a, a) \<in> (ref_graph comps)\<^sup>+"
    then obtain b where "(a, b) \<in> ref_graph comps" by (meson tranclD)
    then show False using end_none by (simp add: ref_graph_iff)
  qed
next
  case (end_step a b)
  show ?case
  proof
    assume "(a, a) \<in> (ref_graph comps)\<^sup>+"
    then obtain c where "(a, c) \<in> ref_graph comps" "(c, a) \<in> (ref_graph comps)\<^sup>*" by (meson tranclD)
    then have "(b, a) \<in> (ref_graph comps)\<^sup>*" using end_step by (simp add: ref_graph_iff)
    moreover have "(a, b) \<in> ref_graph comps" using end_step by (simp add: ref_graph_iff)
    ultimately have "(b, b) \<in> (ref_graph comps)\<^sup>+" by (rule rtrancl_into_trancl1)
    then show False using end_step by simp
  qed
qed

lemma dfs_correct:
  assumes "dfs comps cid visited inStack = (found, v, s)"
    and "inStack \<subseteq> visited" "\<forall>x\<in>inStack. (x, cid) \<in> (ref_graph comps)\<^sup>+" "\<forall>x\<in>visited - inStack. ref_ends comps x"
  shows "if found then \<exists>x. (x, x) \<in> (ref_graph comps)\<^sup>+
    else s = inStack \<and> ref_ends comps cid \<and> cid \<in> v \<and> visited \<subseteq> v \<and> (\<forall>x\<in>v - inStack. ref_ends comps x)"
  using assms
proof (induction comps cid visited inStack arbitrary: found v s rule: dfs.induct)
  case (1 comps cid visited inStack)
  consider (cycle) "cid \<in> inStack" | (seen) "cid \<notin> inStack" "cid \<in> visited" | (new) "cid \<notin> inStack" "cid \<notin> visited"
    by blast
  then show ?case
  proof cases
    case cycle
    then show ?thesis using "1.prems" by (auto simp: dfs.simps[of comps cid])
  next
    case seen
    then show ?thesis using "1.prems" by (auto simp: dfs.simps[of comps cid])
  next
    case new
    show ?thesis
    proof (cases "next_ref comps cid")
      case None
      then have "found = False" "v = insert cid visited" "s = inStack"
        using "1.prems"(1) new by (auto simp: dfs.simps[of comps cid])
      then show ?thesis using "1.prems" None by (auto intro: end_none)
    next
      case (Some r)
      obtain f' v' s' where rec: "dfs comps r (insert cid visited) (insert cid inStack) = (f', v', s')"
        using prod_cases3 by blast
      have edge: "(cid, r) \<in> ref_graph comps" using Some by (simp add: ref_graph_iff)
      have chain: "\<forall>x\<in>insert cid inStack. (x, r) \<in> (ref_graph comps)\<^sup>+"
        using "1.prems"(3) edge by (auto intro: trancl_into_trancl)
      have IH: "if f' then \<exists>x. (x, x) \<in> (ref_graph comps)\<^sup>+
          else s' = insert cid inStack \<and> ref_ends comps r \<and> r \<in> v' \<and> insert cid visited \<subseteq> v'
            \<and> (\<forall>x\<in>v' - insert cid inStack. ref_ends comps x)"
        by (rule "1.IH"[OF new Some rec _ chain]) (use "1.prems" in auto)
      have res: "(found, v, s) = (f', v', if f' then s' else s' - {cid})"
        using "1.prems"(1) new Some rec by (auto simp: dfs.simps[of comps cid])
      show ?thesis
      proof (cases f')
        case True
        then show ?thesis using IH res by simp
      next
        case False
        then have "ref_ends comps cid" using IH Some by (auto intro: end_step)
        with False show ?thesis using IH res new by auto
      qed
    qed
  qed
qed

lemma detect_from_correct:
  assumes "visited \<subseteq> {x. ref_ends comps x}"
  shows "detect_from comps cs visited {} \<Longrightarrow> \<exists>x. (x, x) \<in> (ref_graph comps)\<^sup>+"
    and "\<not> detect_from comps cs visited {} \<Longrightarrow> \<forall>c\<in>set cs. ref_ends comps (ci_id c)"
proof -
  have "(detect_from comps cs visited {} \<longrightarrow> (\<exists>x. (x, x) \<in> (ref_graph comps)\<^sup>+))
     \<and> (\<not> detect_from comps cs visited {} \<longrightarrow> (\<forall>c\<in>set cs. ref_ends comps (ci_id c)))"
    using assms
  proof (induction cs arbitrary: visited)
    case (Cons c cs)
    obtain f v s where d: "dfs comps (ci_id c) visited {} = (f, v, s)" using prod_cases3 by blast
    have r: "if f then \<exists>x. (x, x) \<in> (ref_graph comps)\<^sup>+
        else s = {} \<and> ref_ends comps (ci_id c) \<and> ci_id c \<in> v \<and> visited \<subseteq> v \<and> (\<forall>x\<in>v - {}. ref_ends comps x)"
      by (rule dfs_correct[OF d]) (use Cons.prems in auto)
    show ?case
    proof (cases "ci_id c \<in> visited")
      case True
      then show ?thesis using Cons.IH[of visited] Cons.prems by auto
    next
      case False
      then show ?thesis using d r Cons.IH[of v] by (cases f) (auto simp: subset_iff)
    qed
  qed simp
  then show "detect_from comps cs visited {} \<Longrightarrow> \<exists>x. (x, x) \<in> (ref_graph comps)\<^sup>+"
    and "\<not> detect_from comps cs visited {} \<Longrightarrow> \<forall>c\<in>set cs. ref_ends comps (ci_id c)" by blast+
qed

lemma not_detected: "\<not> detectCircularReference comps \<Longrightarrow> ref_ends comps a"
proof (cases "next_ref comps a")
  case (Some b)
  assume "\<not> detectCircularReference comps"
  then have "\<forall>c\<in>set comps. ref_ends comps (ci_id c)"
    unfolding detectCircularReference_def using detect_from_correct(2)[of "{}" comps comps] by simp
  then show ?thesis using next_ref_dom[OF Some] by auto
qed (rule end_none)

lemma detectCircularReference_iff: "detectCircularReference comps \<longleftrightarrow> (\<exists>x. (x, x) \<in> (ref_graph comps)\<^sup>+)"
proof
  assume "detectCircularReference comps"
  then show "\<exists>x. (x, x) \<in> (ref_graph comps)\<^sup>+"
    unfolding detectCircularReference_def using detect_from_correct(1)[of "{}" comps comps] by simp
next
  assume "\<exists>x. (x, x) \<in> (ref_graph comps)\<^sup>+"
  then show "detectCircularReference comps" using not_detected ref_ends_acyclic by blast
qed

section \<open>The worklist orders every component after its reference\<close>

lemma find_component_self: "distinct (map ci_id comps) \<Longrightarrow> c \<in> set comps \<Longrightarrow> find_component comps (ci_id c) = Some c"
  unfolding find_component_def by (induction comps) (auto intro: rev_image_eqI)

lemma next_ref_self: "distinct (map ci_id comps) \<Longrightarrow> c \<in> set comps \<Longrightarrow> next_ref comps (ci_id c) = reference_in comps c"
  by (simp add: next_ref_def find_component_self)

lemma init_map:
  assumes "distinct (map ci_id cs)" "\<forall>c\<in>set cs. ci_id c \<notin> fst ` set m"
  shows "foldl (\<lambda>m c. if map_of m (ci_id c) = None then AList.update (ci_id c) v m else m) m cs
    = m @ map (\<lambda>c. (ci_id c, v)) cs"
  using assms
proof (induction cs arbitrary: m)
  case (Cons c cs)
  then have c: "map_of m (ci_id c) = None" "AList.update (ci_id c) v m = m @ [(ci_id c, v)]"
    by (simp_all add: map_of_eq_None_iff update_new)
  have "\<forall>c'\<in>set cs. ci_id c' \<notin> fst ` set (m @ [(ci_id c, v)])" using Cons.prems by (auto intro: rev_image_eqI)
  then show ?case using Cons.IH[of "m @ [(ci_id c, v)]"] Cons.prems(1) c by simp
qed simp

lemma init_maps:
  assumes "distinct (map ci_id comps)"
  shows "init_degrees comps = map (\<lambda>c. (ci_id c, 0)) comps" "init_adjacency comps = map (\<lambda>c. (ci_id c, [])) comps"
  using init_map[OF assms, of "[] :: (string \<times> int) list" 0] init_map[OF assms, of "[] :: (string \<times> string list) list" "[]"]
  by (simp_all add: init_degrees_def init_adjacency_def)

lemma map_of_const: "map_of (map (\<lambda>c. (f c, v)) cs) n = (if n \<in> f ` set cs then Some v else None)"
  by (induction cs) auto

lemma update_keys: "k \<in> set (map fst m) \<Longrightarrow> map fst (AList.update k v m) = map fst m"
  by (induction m) auto

definition edge_maps :: "component_input list \<Rightarrow> component_input list \<Rightarrow> (string \<times> string list) list \<times> (string \<times> int) list" where
  "edge_maps comps cs = foldl (add_edge comps) (init_adjacency comps, init_degrees comps) cs"

lemma add_edges_result:
  assumes "distinct (map ci_id comps)" "distinct (map ci_id cs)" "set cs \<subseteq> set comps"
  shows "(\<forall>r. map_of (fst (edge_maps comps cs)) r
        = (if r \<in> ci_id ` set comps then Some (map ci_id (filter (\<lambda>c. reference_in comps c = Some r) cs)) else None))
    \<and> (\<forall>n. map_of (snd (edge_maps comps cs)) n
        = (if n \<in> ci_id ` set comps then Some (if \<exists>c\<in>set cs. ci_id c = n \<and> reference_in comps c \<noteq> None then 1 else 0) else None))
    \<and> map fst (snd (edge_maps comps cs)) = map ci_id comps"
  using assms(2,3)
proof (induction cs rule: rev_induct)
  case Nil
  then show ?case using assms(1) by (simp add: edge_maps_def init_maps map_of_const comp_def)
next
  case (snoc c cs)
  define s where "s = edge_maps comps cs"
  have IH: "\<And>r. map_of (fst s) r = (if r \<in> ci_id ` set comps then Some (map ci_id (filter (\<lambda>c. reference_in comps c = Some r) cs)) else None)"
    "\<And>n. map_of (snd s) n = (if n \<in> ci_id ` set comps then Some (if \<exists>c\<in>set cs. ci_id c = n \<and> reference_in comps c \<noteq> None then 1 else 0) else None)"
    "map fst (snd s) = map ci_id comps"
    using snoc by (simp_all add: s_def)
  have c: "c \<in> set comps" "ci_id c \<notin> ci_id ` set cs" using snoc.prems by auto
  have step: "edge_maps comps (cs @ [c]) = add_edge comps s c" by (simp add: s_def edge_maps_def)
  show ?case
  proof (cases "reference_in comps c")
    case None
    then show ?thesis unfolding step using IH by (simp add: add_edge_def)
  next
    case (Some r)
    have r: "r \<in> ci_id ` set comps" using Some by (auto simp: reference_in_def split: option.splits if_splits)
    have "map_of (snd s) (ci_id c) = Some 0" using IH(2)[of "ci_id c"] c by (auto intro: rev_image_eqI)
    then show ?thesis unfolding step using IH c Some r
      by (auto simp: add_edge_def update_keys intro: rev_image_eqI)
  qed
qed

lemma relax_ready:
  assumes "distinct ns" "\<forall>n\<in>set ns. map_of deg n = Some 1"
  shows "fst (foldl relax_neighbor (q, deg) ns) = q @ ns
    \<and> (\<forall>n. map_of (snd (foldl relax_neighbor (q, deg) ns)) n = (if n \<in> set ns then Some 0 else map_of deg n))"
  using assms
proof (induction ns arbitrary: q deg)
  case (Cons n ns)
  have step: "relax_neighbor (q, deg) n = (q @ [n], AList.update n 0 deg)" using Cons.prems by (simp add: relax_neighbor_def)
  have "\<forall>k\<in>set ns. map_of (AList.update n 0 deg) k = Some 1" using Cons.prems by auto
  then show ?case using Cons.IH[of "AList.update n 0 deg" "q @ [n]"] Cons.prems by (simp add: step)
qed simp

definition children :: "component_input list \<Rightarrow> string \<Rightarrow> string list" where
  "children comps r = map ci_id (filter (\<lambda>c. reference_in comps c = Some r) comps)"

lemma children_iff: "distinct (map ci_id comps) \<Longrightarrow> n \<in> set (children comps r) \<longleftrightarrow> next_ref comps n = Some r"
  using next_ref_dom[of comps n r] by (auto simp: children_def next_ref_self)

definition topo_inv :: "component_input list \<Rightarrow> string list \<Rightarrow> (string \<times> int) list \<Rightarrow> component_input list \<Rightarrow> bool" where
  "topo_inv comps queue deg t \<longleftrightarrow> set t \<subseteq> set comps \<and> distinct (map ci_id t @ queue)
    \<and> (\<forall>n. map_of deg n = (if n \<in> ci_id ` set comps
          then Some (if \<exists>r. next_ref comps n = Some r \<and> r \<notin> ci_id ` set t then 1 else 0) else None))
    \<and> set (map ci_id t @ queue) = {n \<in> ci_id ` set comps. \<forall>r. next_ref comps n = Some r \<longrightarrow> r \<in> ci_id ` set t}
    \<and> (\<forall>xs c ys r. t = xs @ c # ys \<longrightarrow> reference_in comps c = Some r \<longrightarrow> r \<in> ci_id ` set xs)"

lemma topo_step:
  assumes d: "distinct (map ci_id comps)" and inv: "topo_inv comps (current # queue) deg t"
  shows "\<exists>c. find_component comps current = Some c \<and> topo_inv comps (fst (foldl relax_neighbor (queue, deg) (children comps current)))
     (snd (foldl relax_neighbor (queue, deg) (children comps current))) (t @ [c])"
proof -
  have cur: "current \<in> ci_id ` set comps" "current \<notin> ci_id ` set t" "\<forall>r. next_ref comps current = Some r \<longrightarrow> r \<in> ci_id ` set t"
    using inv by (auto simp: topo_inv_def)
  then obtain c where c: "c \<in> set comps" "ci_id c = current" by auto
  have fc: "find_component comps current = Some c" using find_component_self[OF d c(1)] c(2) by simp
  have dn: "distinct (children comps current)" using d by (simp add: children_def distinct_map inj_on_def distinct_filter)
  have one: "\<forall>n\<in>set (children comps current). map_of deg n = Some 1"
    using inv cur(2) by (auto simp: topo_inv_def children_iff[OF d] next_ref_dom)
  note rel = relax_ready[OF dn one, of queue]
  define q' d' where "q' = fst (foldl relax_neighbor (queue, deg) (children comps current))"
    and "d' = snd (foldl relax_neighbor (queue, deg) (children comps current))"
  have q': "q' = queue @ children comps current"
    and d': "\<And>n. map_of d' n = (if n \<in> set (children comps current) then Some 0 else map_of deg n)"
    using rel by (simp_all add: q'_def d'_def)
  have "topo_inv comps q' d' (t @ [c])"
    unfolding topo_inv_def
  proof (intro conjI)
    show "set (t @ [c]) \<subseteq> set comps" using inv c by (simp add: topo_inv_def)
    have "set (children comps current) \<inter> set (map ci_id t @ current # queue) = {}"
      using inv cur(2) by (auto simp: topo_inv_def children_iff[OF d])
    then show "distinct (map ci_id (t @ [c]) @ q')" using inv dn c(2) by (auto simp: topo_inv_def q')
    show "\<forall>n. map_of d' n = (if n \<in> ci_id ` set comps
          then Some (if \<exists>r. next_ref comps n = Some r \<and> r \<notin> ci_id ` set (t @ [c]) then 1 else 0) else None)"
      using inv c(2) by (auto simp: topo_inv_def d' children_iff[OF d] next_ref_dom)
    have "set (map ci_id t @ current # queue) = {n \<in> ci_id ` set comps. \<forall>r. next_ref comps n = Some r \<longrightarrow> r \<in> ci_id ` set t}"
      using inv by (simp add: topo_inv_def)
    then show "set (map ci_id (t @ [c]) @ q') = {n \<in> ci_id ` set comps. \<forall>r. next_ref comps n = Some r \<longrightarrow> r \<in> ci_id ` set (t @ [c])}"
      using c(2) by (auto simp: q' children_iff[OF d] next_ref_dom)
    show "\<forall>xs c' ys r. t @ [c] = xs @ c' # ys \<longrightarrow> reference_in comps c' = Some r \<longrightarrow> r \<in> ci_id ` set xs"
    proof (intro allI impI)
      fix xs c' ys r
      assume eq: "t @ [c] = xs @ c' # ys" and r: "reference_in comps c' = Some r"
      show "r \<in> ci_id ` set xs"
      proof (cases ys rule: rev_cases)
        case Nil
        then have "c' = c" "xs = t" using eq by auto
        then show ?thesis using r cur(3) next_ref_self[OF d c(1)] c(2) by simp
      next
        case (snoc ys' y)
        then have "t = xs @ c' # ys'" using eq by simp
        then show ?thesis using inv r unfolding topo_inv_def by blast
      qed
    qed
  qed
  then show ?thesis using fc by (auto simp: q'_def d'_def)
qed

lemma topo_loop_inv:
  assumes "distinct (map ci_id comps)" "topo_inv comps queue deg t"
    and "\<forall>r\<in>ci_id ` set comps. map_of adj r = Some (children comps r)"
  shows "\<exists>deg'. topo_inv comps [] deg' (topo_loop comps adj queue deg t)"
  using assms
proof (induction comps adj queue deg t rule: topo_loop.induct)
  case (1 comps adj deg t)
  then show ?case by auto
next
  case (2 comps adj current queue deg t)
  obtain c where c: "find_component comps current = Some c"
    "topo_inv comps (fst (foldl relax_neighbor (queue, deg) (children comps current)))
       (snd (foldl relax_neighbor (queue, deg) (children comps current))) (t @ [c])"
    using topo_step[OF "2.prems"(1,2)] by blast
  have "current \<in> ci_id ` set comps" using "2.prems"(2) by (auto simp: topo_inv_def)
  then have adj: "coalesce (map_of adj current) [] = children comps current" using "2.prems"(3)[rule_format, of current] by simp
  show ?case using "2.IH"[OF refl refl "2.prems"(1) _ "2.prems"(3)] c by (simp add: adj Let_def)
qed

lemma topologicalSort_ok:
  assumes d: "distinct (map ci_id comps)" and a: "\<not> detectCircularReference comps"
  shows "distinct (map ci_id (topologicalSort comps))" "set (topologicalSort comps) = set comps"
    "\<forall>xs c ys r. topologicalSort comps = xs @ c # ys \<longrightarrow> reference_in comps c = Some r \<longrightarrow> r \<in> ci_id ` set xs"
proof -
  define s where "s = edge_maps comps comps"
  note res = add_edges_result[OF d d subset_refl, folded s_def]
  have adj: "\<forall>r\<in>ci_id ` set comps. map_of (fst s) r = Some (children comps r)" using res by (simp add: children_def)
  have deg: "map_of (snd s) n = (if n \<in> ci_id ` set comps then Some (if next_ref comps n \<noteq> None then 1 else 0) else None)" for n
  proof (cases "n \<in> ci_id ` set comps")
    case True
    then obtain c where c: "c \<in> set comps" "n = ci_id c" by blast
    have "(\<exists>c'\<in>set comps. ci_id c' = n \<and> reference_in comps c' \<noteq> None) \<longleftrightarrow> next_ref comps n \<noteq> None"
      using c next_ref_self[OF d] by metis
    then show ?thesis using res True by simp
  next
    case False
    then show ?thesis using res by simp
  qed
  have keys: "map fst (snd s) = map ci_id comps" using res by simp
  define queue where "queue = map fst (filter (\<lambda>e. snd e = 0) (snd s))"
  have dk: "distinct (map fst (snd s))" using keys d by simp
  have q: "set queue = {n \<in> ci_id ` set comps. next_ref comps n = None}"
  proof -
    have "n \<in> set queue \<longleftrightarrow> map_of (snd s) n = Some 0" for n
    proof -
      have "n \<in> set queue \<longleftrightarrow> (n, 0) \<in> set (snd s)" by (force simp: queue_def)
      then show ?thesis using dk by simp
    qed
    moreover have "map_of (snd s) n = Some 0 \<longleftrightarrow> n \<in> ci_id ` set comps \<and> next_ref comps n = None" for n
      unfolding deg by simp
    ultimately show ?thesis by blast
  qed
  have "distinct queue" using dk unfolding queue_def by (simp add: distinct_map_filter)
  moreover have "set (map ci_id [] @ queue) = {n \<in> ci_id ` set comps. \<forall>r. next_ref comps n = Some r \<longrightarrow> r \<in> ci_id ` set []}"
    unfolding list.map append_Nil q by (rule Collect_cong) simp
  ultimately have "topo_inv comps queue (snd s) []" by (simp add: topo_inv_def deg)
  from topo_loop_inv[OF d this adj] obtain deg' where "topo_inv comps [] deg' (topo_loop comps (fst s) queue (snd s) [])" by blast
  then have inv: "topo_inv comps [] deg' (topologicalSort comps)"
    by (simp add: topologicalSort_def Let_def queue_def s_def edge_maps_def)
  then have ids: "ci_id ` set (topologicalSort comps)
      = {n \<in> ci_id ` set comps. \<forall>r. next_ref comps n = Some r \<longrightarrow> r \<in> ci_id ` set (topologicalSort comps)}"
    by (simp add: topo_inv_def)
  have all: "n \<in> ci_id ` set (topologicalSort comps)" if "n \<in> ci_id ` set comps" for n
    using not_detected[OF a, of n] that
  proof (induction rule: ref_ends.induct)
    case (end_none n)
    then show ?case by (subst ids) simp
  next
    case (end_step n r)
    then show ?case using next_ref_mem by (subst ids) auto
  qed
  show "distinct (map ci_id (topologicalSort comps))" using inv by (simp add: topo_inv_def)
  show "set (topologicalSort comps) = set comps"
  proof
    show sub: "set (topologicalSort comps) \<subseteq> set comps" using inv by (simp add: topo_inv_def)
    show "set comps \<subseteq> set (topologicalSort comps)"
    proof
      fix c assume c: "c \<in> set comps"
      then have "ci_id c \<in> ci_id ` set (topologicalSort comps)" by (intro all) simp
      then obtain c' where "c' \<in> set (topologicalSort comps)" "ci_id c' = ci_id c" by auto
      moreover have "inj_on ci_id (set comps)" using d by (simp add: distinct_map)
      ultimately have "c' = c" using sub c by (auto dest: inj_onD)
      with \<open>c' \<in> set (topologicalSort comps)\<close> show "c \<in> set (topologicalSort comps)" by simp
    qed
  qed
  show "\<forall>xs c ys r. topologicalSort comps = xs @ c # ys \<longrightarrow> reference_in comps c = Some r \<longrightarrow> r \<in> ci_id ` set xs"
    using inv by (simp add: topo_inv_def)
qed

lemma detect_filter:
  assumes d: "distinct (map ci_id comps)" and a: "\<not> detectCircularReference comps"
  shows "\<not> detectCircularReference (filter P comps)"
proof -
  have d': "distinct (map ci_id (filter P comps))" using d by (rule distinct_map_filter)
  have "ref_graph (filter P comps) \<subseteq> ref_graph comps"
  proof (rule subrelI)
    fix a b assume "(a, b) \<in> ref_graph (filter P comps)"
    then have ab: "next_ref (filter P comps) a = Some b" by (simp add: ref_graph_iff)
    then obtain c where c: "c \<in> set (filter P comps)" "ci_id c = a" using next_ref_dom by fastforce
    then have "reference_in (filter P comps) c = Some b" using ab next_ref_self[OF d' c(1)] by simp
    then have "reference_in comps c = Some b" by (auto simp: reference_in_def split: option.splits if_splits)
    then show "(a, b) \<in> ref_graph comps" using c next_ref_self[OF d, of c] by (auto simp: ref_graph_iff)
  qed
  then show ?thesis using a trancl_mono unfolding detectCircularReference_iff by blast
qed

section \<open>The amounts solve the definitions of the components\<close>

lemma calc_step_simps [simp]:
  "fst (calc_step ctc s c) = AList.update (ci_id c) (component_amount ctc (fst s) c) (fst s)"
  "snd (calc_step ctc s c) = snd s @ [calculated_of c (component_amount ctc (fst s) c)]"
  by (simp_all add: calc_step_def Let_def)

definition amounts :: "calculated_component list \<Rightarrow> (string \<times> rat) list" where
  "amounts rows = map (\<lambda>r. (cc_componentId r, cc_amount r)) rows"

lemma component_amount_cong:
  "(\<And>r. ci_reference c = Some r \<Longrightarrow> map_of m r = map_of m' r) \<Longrightarrow> component_amount ctc m c = component_amount ctc m' c"
  by (cases "ci_reference c") (auto simp: component_amount_def split: calc_mode.split)

lemma calc_fold:
  assumes "distinct (map ci_id t)" "\<forall>xs c ys r. t = xs @ c # ys \<longrightarrow> ci_calcMode c = Percent_of_component \<longrightarrow> ci_reference c = Some r
      \<longrightarrow> r \<in> ci_id ` set t \<longrightarrow> r \<in> ci_id ` set xs"
  shows "fst (foldl (calc_step ctc) ([], []) t) = amounts (snd (foldl (calc_step ctc) ([], []) t))
    \<and> map cc_componentId (snd (foldl (calc_step ctc) ([], []) t)) = map ci_id t
    \<and> (\<forall>c\<in>set t. \<exists>row\<in>set (snd (foldl (calc_step ctc) ([], []) t)). row = calculated_of c
          (component_amount ctc (fst (foldl (calc_step ctc) ([], []) t)) c))"
  using assms
proof (induction t rule: rev_induct)
  case Nil
  then show ?case by (simp add: amounts_def)
next
  case (snoc c t)
  define s where "s = foldl (calc_step ctc) ([], []) t"
  have ord: "\<forall>xs c' ys r. t = xs @ c' # ys \<longrightarrow> ci_calcMode c' = Percent_of_component \<longrightarrow> ci_reference c' = Some r
      \<longrightarrow> r \<in> ci_id ` set t \<longrightarrow> r \<in> ci_id ` set xs"
    and later: "\<forall>c'\<in>set t. ci_calcMode c' = Percent_of_component \<longrightarrow> ci_reference c' \<noteq> Some (ci_id c)"
  proof -
    have *: "r \<in> ci_id ` set xs" if "t = xs @ c' # ys" "ci_calcMode c' = Percent_of_component" "ci_reference c' = Some r"
      "r \<in> ci_id ` set (t @ [c])" for xs c' ys r
      using snoc.prems(2)[rule_format, of xs c' "ys @ [c]" r] that by simp
    show "\<forall>xs c' ys r. t = xs @ c' # ys \<longrightarrow> ci_calcMode c' = Percent_of_component \<longrightarrow> ci_reference c' = Some r
      \<longrightarrow> r \<in> ci_id ` set t \<longrightarrow> r \<in> ci_id ` set xs" using * by auto
    show "\<forall>c'\<in>set t. ci_calcMode c' = Percent_of_component \<longrightarrow> ci_reference c' \<noteq> Some (ci_id c)"
    proof (intro ballI impI notI)
      fix c' assume c': "c' \<in> set t" "ci_calcMode c' = Percent_of_component" "ci_reference c' = Some (ci_id c)"
      then obtain xs ys where "t = xs @ c' # ys" by (meson split_list)
      then have "ci_id c \<in> ci_id ` set xs" "set xs \<subseteq> set t" using * c' by auto
      then show False using snoc.prems(1) by auto
    qed
  qed
  have IH: "fst s = amounts (snd s)" "map cc_componentId (snd s) = map ci_id t"
    "\<forall>c\<in>set t. \<exists>row\<in>set (snd s). row = calculated_of c (component_amount ctc (fst s) c)"
    using snoc.IH[OF _ ord] snoc.prems(1) by (auto simp: s_def)
  have new: "ci_id c \<notin> fst ` set (fst s)"
  proof -
    have "fst ` set (fst s) = ci_id ` set t" using IH(1,2) by (metis (no_types, lifting) amounts_def image_set list.map_comp map_eq_conv comp_apply fst_conv)
    then show ?thesis using snoc.prems(1) by simp
  qed
  have keep: "component_amount ctc (AList.update (ci_id c) v (fst s)) c' = component_amount ctc (fst s) c'" if "c' \<in> set t" for c' v
    using later that by (cases "ci_calcMode c'") (auto simp: component_amount_def split: option.splits)
  have self: "component_amount ctc (AList.update (ci_id c) v (fst s)) c = component_amount ctc (fst s) c" for v
    using snoc.prems(2)[rule_format, of t c "[]"] snoc.prems(1)
    by (cases "ci_calcMode c") (auto simp: component_amount_def split: option.splits)
  show ?case
    using IH new keep self
    by (auto simp: amounts_def update_new calculated_of_def simp flip: s_def)
qed

section \<open>The breakdown\<close>

lemma apply_override_ids [simp]: "map ci_id (apply_override working ov) = map ci_id working"
proof (cases "find_index (\<lambda>c. ci_id c = ov_componentId ov) working")
  case (Some i)
  then have "i < length working" using find_index_SomeD by blast
  then show ?thesis using Some by (simp add: apply_override_def map_update set_override_def list_update_same_conv)
qed (simp add: apply_override_def)

lemma working_ids: "map ci_id (working_components comps ovs) = map ci_id (sort_key ci_sortOrder comps)"
proof -
  have "map ci_id (foldl apply_override w ovs) = map ci_id w" for w by (induction ovs arbitrary: w) simp_all
  then show ?thesis by (simp add: working_components_def)
qed

lemma distinct_working: "distinct (map ci_id comps) \<Longrightarrow> distinct (map ci_id (working_components comps ovs))"
  unfolding working_ids by (simp add: distinct_map)

definition index_of_id :: "component_input list \<Rightarrow> string \<Rightarrow> int" where
  "index_of_id working n = (case find_index (\<lambda>c. ci_id c = n) working of None \<Rightarrow> - 1 | Some i \<Rightarrow> int i)"

lemma component_index_id: "component_index working = index_of_id working \<circ> cc_componentId"
  by (rule ext) (simp add: component_index_def index_of_id_def)

lemma find_index_self: "distinct (map f xs) \<Longrightarrow> i < length xs \<Longrightarrow> find_index (\<lambda>x. f x = f (xs ! i)) xs = Some i"
proof (induction xs arbitrary: i)
  case (Cons x xs)
  then show ?case by (cases i) (auto simp: image_iff)
qed simp

lemma index_of_ids: "distinct (map ci_id working) \<Longrightarrow> map (index_of_id working \<circ> ci_id) working = map int [0..<length working]"
  by (rule nth_equalityI) (simp_all add: index_of_id_def find_index_self)

lemma index_inj: assumes "distinct (map ci_id working)" shows "inj_on (index_of_id working) (ci_id ` set working)"
proof -
  have "distinct (map (index_of_id working \<circ> ci_id) working)" unfolding index_of_ids[OF assms] by (simp add: distinct_map)
  then have "inj_on (index_of_id working \<circ> ci_id) (set working)" by (simp add: distinct_map)
  then show ?thesis by (simp add: comp_inj_on_iff[symmetric] inj_on_imageI)
qed

lemma sort_by_index:
  assumes w: "distinct (map ci_id working)" and r: "distinct (map cc_componentId rows)"
    and ids: "cc_componentId ` set rows = ci_id ` set (filter P working)"
  shows "map cc_componentId (sort_key (component_index working) rows) = map ci_id (filter P working)"
proof -
  let ?f = "index_of_id working"
  let ?bd = "sort_key (component_index working) rows"
  have inj: "inj_on ?f (ci_id ` set working)" by (rule index_inj[OF w])
  have sub: "cc_componentId ` set rows \<subseteq> ci_id ` set working" using ids by auto
  have "sorted (map ?f (map cc_componentId ?bd))"
    using sorted_sort_key[of "component_index working" rows] by (simp add: component_index_id)
  moreover have "distinct (map ?f (map cc_componentId ?bd))"
  proof -
    have "distinct (map cc_componentId ?bd)" using r by (simp add: distinct_map)
    then show ?thesis using inj sub by (simp add: distinct_map inj_on_subset comp_inj_on)
  qed
  moreover have s: "sorted (map (?f \<circ> ci_id) working)" unfolding index_of_ids[OF w] by (simp add: sorted_map)
  have "sorted (map ?f (map ci_id (filter P working)))" using sorted_filter[OF s, of P] by simp
  moreover have "distinct (map ?f (map ci_id (filter P working)))"
  proof -
    have "distinct (map (?f \<circ> ci_id) working)" unfolding index_of_ids[OF w] by (simp add: distinct_map)
    then show ?thesis using distinct_map_filter by simp
  qed
  moreover have "set (map ?f (map cc_componentId ?bd)) = set (map ?f (map ci_id (filter P working)))"
    using ids by (simp flip: image_image)
  ultimately have "map ?f (map cc_componentId ?bd) = map ?f (map ci_id (filter P working))"
    by (rule sorted_distinct_set_unique)
  moreover have "inj_on ?f (set (map cc_componentId ?bd) \<union> set (map ci_id (filter P working)))"
    by (rule inj_on_subset[OF inj]) (use sub in auto)
  ultimately show ?thesis by (rule map_inj_on)
qed

definition shown_component :: "component_input list \<Rightarrow> component_input \<Rightarrow> bool" where
  \<comment> \<open>every component but a second balancing one\<close>
  "shown_component working c \<longleftrightarrow> ci_calcMode c \<noteq> Balancing
     \<or> map_option ci_id (List.find (\<lambda>c. ci_calcMode c = Balancing) working) = Some (ci_id c)"

definition balancing_ids :: "component_input list \<Rightarrow> string set" where
  "balancing_ids working = ci_id ` set (filter (\<lambda>c. ci_calcMode c = Balancing) working)"

definition plain_amounts :: "component_input list \<Rightarrow> calculated_component list \<Rightarrow> (string \<times> rat) list" where
  \<comment> \<open>the amounts a percentage may refer to: those of the components that are not the balance\<close>
  "plain_amounts working rows = filter (\<lambda>e. fst e \<notin> balancing_ids working) (amounts rows)"

lemma map_of_amounts_mem:
  "distinct (map cc_componentId rows) \<Longrightarrow> map_of (amounts rows) n = Some a \<longleftrightarrow> (\<exists>r\<in>set rows. cc_componentId r = n \<and> cc_amount r = a)"
proof -
  assume d: "distinct (map cc_componentId rows)"
  then have "distinct (map fst (amounts rows))" by (simp add: amounts_def comp_def)
  then have "map_of (amounts rows) n = Some a \<longleftrightarrow> (n, a) \<in> set (amounts rows)" by simp
  then show ?thesis by (auto simp: amounts_def)
qed

lemma map_of_filter_key: "map_of (filter (\<lambda>e. fst e \<notin> S) m) n = (if n \<in> S then None else map_of m n)"
  by (induction m) auto

lemma results_ok:
  fixes ctc :: rat
  assumes d: "distinct (map ci_id working)" and ne: "'''' \<notin> ci_id ` set working" and a: "\<not> detectCircularReference working"
  defines "nb \<equiv> filter (\<lambda>c. ci_calcMode c \<noteq> Balancing) working"
  defines "results \<equiv> snd (foldl (calc_step ctc) ([], []) (topologicalSort nb))"
  shows "distinct (map cc_componentId results)" "cc_componentId ` set results = ci_id ` set nb"
    "\<forall>c\<in>set nb. calculated_of c (component_amount ctc (amounts results) c) \<in> set results"
proof -
  have dn: "distinct (map ci_id nb)" unfolding nb_def using d by (rule distinct_map_filter)
  have an: "\<not> detectCircularReference nb" unfolding nb_def using d a by (rule detect_filter)
  note t = topologicalSort_ok[OF dn an]
  have "\<forall>xs c ys r. topologicalSort nb = xs @ c # ys \<longrightarrow> ci_calcMode c = Percent_of_component \<longrightarrow> ci_reference c = Some r
      \<longrightarrow> r \<in> ci_id ` set (topologicalSort nb) \<longrightarrow> r \<in> ci_id ` set xs"
  proof (intro allI impI)
    fix xs c ys r
    assume *: "topologicalSort nb = xs @ c # ys" "ci_calcMode c = Percent_of_component" "ci_reference c = Some r"
      "r \<in> ci_id ` set (topologicalSort nb)"
    have "r \<in> ci_id ` set nb" using *(4) t(2) by simp
    moreover from this have "r \<noteq> ''''" using ne by (auto simp: nb_def intro: rev_image_eqI)
    ultimately have "reference_in nb c = Some r" using * by (simp add: reference_in_def)
    then show "r \<in> ci_id ` set xs" using t(3) *(1) by blast
  qed
  note f = calc_fold[OF t(1) this, of ctc, folded results_def]
  show "distinct (map cc_componentId results)" using f t(1) by simp
  show "cc_componentId ` set results = ci_id ` set nb" using f t(2) by (metis image_set)
  show "\<forall>c\<in>set nb. calculated_of c (component_amount ctc (amounts results) c) \<in> set results" using f t(2) by auto
qed

lemma find_balancing:
  assumes "List.find (\<lambda>c. ci_calcMode c = Balancing) working = Some b"
  shows "b \<in> set working" "ci_calcMode b = Balancing"
  using find_Some_mem[OF assms] by simp_all

lemma no_balancing: "List.find (\<lambda>c. ci_calcMode c = Balancing) working = None \<longleftrightarrow> (\<forall>c\<in>set working. ci_calcMode c \<noteq> Balancing)"
  by (rule find_None_mem)

lemma calculate_result:
  assumes d0: "distinct (map ci_id comps)" and ne0: "'''' \<notin> ci_id ` set comps"
    and calc: "calculateComponents ctc comps overrides = Inr (rows, base)"
    and b: "List.find (\<lambda>c. ci_calcMode c = Balancing) (working_components comps overrides) = Some b"
  shows "\<exists>results. mset rows = mset (results @ [calculated_of b (balance_of ctc results)]) \<and> ci_id b \<notin> cc_componentId ` set results"
proof -
  define W where "W = working_components comps overrides"
  have d: "distinct (map ci_id W)" using distinct_working[OF d0] by (simp add: W_def)
  have "set (map ci_id W) = set (map ci_id (sort_key ci_sortOrder comps))" unfolding W_def working_ids ..
  then have ne: "'''' \<notin> ci_id ` set W" using ne0 by simp
  have ok: "\<not> detectCircularReference W" using calc by (auto simp: calculateComponents_def Let_def W_def split: if_splits)
  define results where "results = snd (foldl (calc_step ctc) ([], []) (topologicalSort (filter (\<lambda>c. ci_calcMode c \<noteq> Balancing) W)))"
  note res = results_ok[OF d ne ok, of ctc, folded results_def]
  have b': "b \<in> set W" "ci_calcMode b = Balancing" using find_balancing[OF b] by (simp_all add: W_def)
  have "inj_on ci_id (set W)" using d by (simp add: distinct_map)
  then have "ci_id b \<notin> ci_id ` set (filter (\<lambda>c. ci_calcMode c \<noteq> Balancing) W)" using b' by (auto dest: inj_onD)
  moreover have "rows = sort_key (component_index W) (results @ [calculated_of b (balance_of ctc results)])"
    using calc ok b unfolding calculateComponents_def Let_def W_def[symmetric] results_def by simp
  ultimately show ?thesis using res(2) by (intro exI[of _ results]) simp
qed

lemma mset_paise:
  assumes "mset xs = mset (map paise ks)" "\<forall>k\<in>set ks. \<bar>k\<bar> \<le> money_max"
  shows "\<exists>ks'. xs = map paise ks' \<and> mset ks' = mset ks"
proof (intro exI conjI)
  have "set xs = paise ` set ks" using assms(1) by (metis set_map set_mset_mset)
  then have "map (paise \<circ> paise_of) xs = xs" using assms(2) by (intro map_idI) auto
  then show "xs = map paise (map paise_of xs)" by simp
  have "mset (map paise_of xs) = mset (map paise_of (map paise ks))" unfolding mset_map[of paise_of] assms(1) ..
  also have "map paise_of (map paise ks) = ks" using assms(2) by (auto intro: map_idI)
  finally show "mset (map paise_of xs) = mset ks" .
qed

lemma small_total_mset: "mset ks' = mset ks \<Longrightarrow> small_total ks' \<longleftrightarrow> small_total ks"
  by (metis mset_eq_length mset_map small_total_def sum_mset_sum_list)

lemma small_total_bound: "small_total ks \<Longrightarrow> k \<in> set ks \<Longrightarrow> \<bar>k\<bar> \<le> 2 ^ 40"
proof -
  assume "small_total ks" "k \<in> set ks"
  then have "\<bar>k\<bar> \<le> sum_list (map abs ks)" by (intro member_le_sum_list) auto
  then show ?thesis using \<open>small_total ks\<close> by (simp add: small_total_def)
qed

section \<open>An example\<close>

definition example_components :: "component_input list" where
  "example_components = [
     \<lparr>ci_id = ''h'', ci_name = ''House rent'', ci_calcMode = Percent_of_component, ci_value = Some 50,
       ci_reference = Some ''b'', ci_includedInCtc = True, ci_isBasic = False, ci_sortOrder = 1\<rparr>,
     \<lparr>ci_id = ''b'', ci_name = ''Basic'', ci_calcMode = Percent_of_ctc, ci_value = Some 40,
       ci_reference = None, ci_includedInCtc = True, ci_isBasic = True, ci_sortOrder = 2\<rparr>,
     \<lparr>ci_id = ''s'', ci_name = ''Special'', ci_calcMode = Balancing, ci_value = None,
       ci_reference = None, ci_includedInCtc = True, ci_isBasic = False, ci_sortOrder = 3\<rparr>]"

lemma example_working: "working_components example_components [] = example_components"
  by (simp add: working_components_def example_components_def)

lemma example_acyclic: "\<not> detectCircularReference example_components"
  by code_simp

lemma example_order:
  "topologicalSort (filter (\<lambda>c. ci_calcMode c \<noteq> Balancing) example_components) = [example_components ! 1, example_components ! 0]"
  by code_simp

lemma example_breakdown:
  "calculateComponents 30000 example_components [] =
     Inr ([calculated_of (example_components ! 0) 6000, calculated_of (example_components ! 1) 12000,
           calculated_of (example_components ! 2) 12000], 12000)"
  unfolding calculateComponents_def Let_def example_working example_order using example_acyclic
  by (simp add: example_components_def calc_step_def component_amount_def roundCurrency_def jmul_def jdiv_def
      jsub_def jadd_def js_sum_def balance_of_def Let_def component_index_def calculated_of_def)

section \<open>Properties\<close>

text \<open>
  C32. The salary structure calculator fails exactly when the references, after the overrides,
  contain a cycle.  Otherwise its search and its worklist terminate with one row per component
  in the configured order (a second balancing component is left out), and the amounts solve
  the definitions of the components: the row of every component that is not the balance holds
  the amount its definition gives for the final amounts of the components it refers to,
  whatever the order of the components; a reference to a balancing component counts as zero.
\<close>
theorem breakdown_exact:
  assumes "distinct (map ci_id comps)" "'''' \<notin> ci_id ` set comps"
  shows "case calculateComponents ctc comps overrides of
      Inl _ \<Rightarrow> \<exists>x. (x, x) \<in> (ref_graph (working_components comps overrides))\<^sup>+
    | Inr (rows, base) \<Rightarrow>
        (\<nexists>x. (x, x) \<in> (ref_graph (working_components comps overrides))\<^sup>+)
        \<and> map cc_componentId rows
            = map ci_id (filter (shown_component (working_components comps overrides)) (working_components comps overrides))
        \<and> (\<forall>c\<in>set (working_components comps overrides). ci_calcMode c \<noteq> Balancing \<longrightarrow>
              calculated_of c (component_amount ctc (plain_amounts (working_components comps overrides) rows) c) \<in> set rows)"
proof -
  define W where "W = working_components comps overrides"
  have d: "distinct (map ci_id W)" using distinct_working[OF assms(1)] by (simp add: W_def)
  have "set (map ci_id W) = set (map ci_id (sort_key ci_sortOrder comps))" unfolding W_def working_ids ..
  then have ne: "'''' \<notin> ci_id ` set W" using assms(2) by simp
  show ?thesis
  proof (cases "detectCircularReference W")
    case True
    then show ?thesis by (simp add: calculateComponents_def Let_def detectCircularReference_iff flip: W_def)
  next
    case False
    define nb where "nb = filter (\<lambda>c. ci_calcMode c \<noteq> Balancing) W"
    define results where "results = snd (foldl (calc_step ctc) ([], []) (topologicalSort nb))"
    note res = results_ok[OF d ne False, of ctc, folded nb_def, folded results_def]
    define results' where "results' = (case List.find (\<lambda>c. ci_calcMode c = Balancing) W of None \<Rightarrow> results
        | Some b \<Rightarrow> results @ [calculated_of b (balance_of ctc results)])"
    have calc: "calculateComponents ctc comps overrides = Inr (sort_key (component_index W) results',
        case List.find cc_isBasic (sort_key (component_index W) results') of None \<Rightarrow> ctc | Some r \<Rightarrow> cc_amount r)"
      unfolding calculateComponents_def Let_def W_def[symmetric] results'_def results_def nb_def using False by simp
    have inj: "inj_on ci_id (set W)" using d by (simp add: distinct_map)
    have bal: "ci_id c \<in> balancing_ids W \<longleftrightarrow> ci_calcMode c = Balancing" if "c \<in> set W" for c
      using inj that by (auto simp: balancing_ids_def dest: inj_onD)
    have nbids: "n \<in> ci_id ` set nb \<Longrightarrow> n \<notin> balancing_ids W" for n using bal by (auto simp: nb_def)
    have d': "distinct (map cc_componentId results')" and ids': "cc_componentId ` set results' = ci_id ` set (filter (shown_component W) W)"
      and sub: "set results \<subseteq> set results'" and plain: "plain_amounts W results' = amounts results"
    proof -
      have p: "plain_amounts W results = amounts results"
        using res(2) nbids by (auto simp: plain_amounts_def amounts_def filter_id_conv)
      consider "List.find (\<lambda>c. ci_calcMode c = Balancing) W = None"
        | b where "List.find (\<lambda>c. ci_calcMode c = Balancing) W = Some b" by (cases "List.find (\<lambda>c. ci_calcMode c = Balancing) W") auto
      then have "distinct (map cc_componentId results') \<and> cc_componentId ` set results' = ci_id ` set (filter (shown_component W) W)
        \<and> set results \<subseteq> set results' \<and> plain_amounts W results' = amounts results"
      proof cases
        case 1
        then have "filter (shown_component W) W = nb" by (auto simp: nb_def shown_component_def intro!: filter_cong)
        then show ?thesis using 1 res p by (simp add: results'_def)
      next
        case 2
        note b = find_balancing[OF 2]
        have new: "ci_id b \<notin> cc_componentId ` set results" using res(2) bal[OF b(1)] b(2) nbids by auto
        have "ci_id ` set (filter (shown_component W) W) = insert (ci_id b) (ci_id ` set nb)"
          using 2 b by (auto simp: shown_component_def nb_def)
        moreover have "ci_id b \<in> balancing_ids W" using bal[OF b(1)] b(2) by simp
        ultimately show ?thesis using 2 res new p
          by (auto simp: results'_def calculated_of_def plain_amounts_def amounts_def)
      qed
      then show "distinct (map cc_componentId results')" "cc_componentId ` set results' = ci_id ` set (filter (shown_component W) W)"
        "set results \<subseteq> set results'" "plain_amounts W results' = amounts results" by simp_all
    qed
    have db: "distinct (map cc_componentId (sort_key (component_index W) results'))" using d' by (simp add: distinct_map)
    have plain': "map_of (plain_amounts W (sort_key (component_index W) results')) n = map_of (amounts results) n" for n
    proof -
      have "distinct (map fst (amounts results'))" "distinct (map fst (amounts (sort_key (component_index W) results')))"
        using d' db by (simp_all add: amounts_def comp_def)
      then have "map_of (amounts (sort_key (component_index W) results')) = map_of (amounts results')"
        by (subst map_of_inject_set) (simp_all add: amounts_def)
      moreover have "map_of (plain_amounts W rows) n = (if n \<in> balancing_ids W then None else map_of (amounts rows) n)" for rows
        unfolding plain_amounts_def by (rule map_of_filter_key)
      ultimately show ?thesis unfolding plain[symmetric] by simp
    qed
    show ?thesis
      unfolding W_def[symmetric] calc sum.case prod.case
    proof (intro conjI ballI impI)
      show "\<nexists>x. (x, x) \<in> (ref_graph W)\<^sup>+" using False unfolding detectCircularReference_iff .
      show "map cc_componentId (sort_key (component_index W) results') = map ci_id (filter (shown_component W) W)"
        by (rule sort_by_index[OF d d' ids'])
      fix c assume "c \<in> set W" "ci_calcMode c \<noteq> Balancing"
      then have "calculated_of c (component_amount ctc (amounts results) c) \<in> set results" using res(3) by (simp add: nb_def)
      moreover have "component_amount ctc (plain_amounts W (sort_key (component_index W) results')) c = component_amount ctc (amounts results) c"
        by (rule component_amount_cong) (rule plain')
      ultimately show "calculated_of c (component_amount ctc (plain_amounts W (sort_key (component_index W) results')) c)
          \<in> set (sort_key (component_index W) results')" using sub by auto
    qed
  qed
qed

theorem breakdown_exact_witness:
  "\<exists>rows base. calculateComponents 30000 example_components [] = Inr (rows, base)
    \<and> map cc_componentId rows = [''h'', ''b'', ''s''] \<and> (\<nexists>x. (x, x) \<in> (ref_graph example_components)\<^sup>+)
    \<and> calculated_of (example_components ! 0) (component_amount 30000 (plain_amounts example_components rows) (example_components ! 0)) \<in> set rows"
  using breakdown_exact[where comps = example_components and ctc = 30000 and overrides = "[]"] example_breakdown unfolding example_working
  by (simp add: example_components_def shown_component_def)

text \<open>
  A breakdown with a balancing component adds up: when the other components that count
  towards the cost to company are whole paise and do not exceed it, the rows that count
  towards it add up to it exactly, to the paisa.
\<close>
theorem breakdown_adds_up:
  assumes "distinct (map ci_id comps)" "'''' \<notin> ci_id ` set comps"
    and "calculateComponents (paise K) comps overrides = Inr (rows, base)"
    and "List.find (\<lambda>c. ci_calcMode c = Balancing) (working_components comps overrides) = Some b" "ci_includedInCtc b"
    and "map cc_amount (filter (\<lambda>r. cc_includedInCtc r \<and> cc_componentId r \<noteq> ci_id b) rows) = map paise ks"
    and "small_total ks" "sum_list ks \<le> K" "K \<le> 2 ^ 40"
  shows "sum_list (map (\<lambda>r. paise_of (cc_amount r)) (filter cc_includedInCtc rows)) = K"
proof -
  obtain results where r: "mset rows = mset (results @ [calculated_of b (balance_of (paise K) results)])"
    "ci_id b \<notin> cc_componentId ` set results" using calculate_result[OF assms(1-4)] by blast
  have other: "filter (\<lambda>r. cc_includedInCtc r \<and> cc_componentId r \<noteq> ci_id b) results = filter cc_includedInCtc results"
    using r(2) by (intro filter_cong) (auto intro: rev_image_eqI)
  have "mset (map cc_amount (filter (\<lambda>r. cc_includedInCtc r \<and> cc_componentId r \<noteq> ci_id b) rows))
      = mset (map cc_amount (filter cc_includedInCtc results))"
    unfolding mset_map mset_filter r(1) by (simp add: calculated_of_def other flip: mset_filter)
  then have "mset (map cc_amount (filter cc_includedInCtc results)) = mset (map paise ks)" using assms(6) by simp
  moreover have "\<forall>k\<in>set ks. \<bar>k\<bar> \<le> money_max" using small_total_bound[OF assms(7)] by (force simp: money_max_def)
  ultimately obtain ks' where ks': "map cc_amount (filter cc_includedInCtc results) = map paise ks'" "mset ks' = mset ks"
    using mset_paise by blast
  have st: "small_total ks'" using assms(7) ks'(2) small_total_mset by blast
  have sum: "sum_list ks' = sum_list ks" using ks'(2) by (metis sum_mset_sum_list)
  have K: "\<bar>K\<bar> \<le> 2 ^ 40" using assms(8,9) small_total_sum[OF assms(7)] by simp
  have bal: "balance_of (paise K) results = paise (K - sum_list ks)"
    using round_sub_sum[OF accurate_js_sum st K] assms(8) by (simp add: balance_of_def Let_def ks'(1) sum not_less)
  have b2: "\<bar>K - sum_list ks\<bar> \<le> money_max" using K small_total_sum[OF assms(7)] by (simp add: money_max_def)
  have each: "map (\<lambda>r. paise_of (cc_amount r)) (filter cc_includedInCtc results) = ks'"
  proof -
    have "map (\<lambda>r. paise_of (cc_amount r)) (filter cc_includedInCtc results) = map paise_of (map paise ks')"
      by (simp flip: ks'(1))
    also have "\<dots> = ks'"
    proof -
      have "\<forall>k\<in>set ks'. \<bar>k\<bar> \<le> money_max" using small_total_bound[OF st] by (force simp: money_max_def)
      then show ?thesis by (auto intro!: map_idI)
    qed
    finally show ?thesis .
  qed
  have "mset (map (\<lambda>r. paise_of (cc_amount r)) (filter cc_includedInCtc rows)) = mset (ks' @ [K - sum_list ks])"
    unfolding mset_map mset_filter r(1)
    using assms(5) b2 each by (simp add: calculated_of_def bal flip: mset_filter mset_map)
  then have "sum_list (map (\<lambda>r. paise_of (cc_amount r)) (filter cc_includedInCtc rows)) = sum_list (ks' @ [K - sum_list ks])"
    by (metis sum_mset_sum_list)
  then show ?thesis by (simp add: sum)
qed

theorem breakdown_adds_up_witness:
  "\<exists>rows base. calculateComponents (paise 3000000) example_components [] = Inr (rows, base)
    \<and> sum_list (map (\<lambda>r. paise_of (cc_amount r)) (filter cc_includedInCtc rows)) = 3000000"
proof -
  let ?rows = "[calculated_of (example_components ! 0) 6000, calculated_of (example_components ! 1) 12000,
           calculated_of (example_components ! 2) 12000]"
  have p: "paise 3000000 = 30000" "paise 600000 = 6000" "paise 1200000 = 12000"
    using paise_rupees[of 30000] paise_rupees[of 6000] paise_rupees[of 12000] by simp_all
  have "sum_list (map (\<lambda>r. paise_of (cc_amount r)) (filter cc_includedInCtc ?rows)) = 3000000"
    using breakdown_adds_up[where comps = example_components and K = 3000000 and overrides = "[]" and rows = ?rows and base = 12000
        and b = "example_components ! 2" and ks = "[600000, 1200000]"]
      example_breakdown p example_working
    by (simp add: example_components_def calculated_of_def small_total_def)
  then show ?thesis using example_breakdown p by auto
qed

end
