(* ===== verification/PaySchedule.thy ===== *)
theory PaySchedule
  imports Money
begin

text \<open>
  Repayment schedules: the installments of a salary advance
  (\<open>salary/utils/advance-recovery.util.ts\<close>) and the amortization of an employer loan at zero,
  flat and reducing-balance interest (\<open>salary/utils/loan-schedule.util.ts\<close>).  A thrown error is
  the left side of the result.  An array read past the end gives \<open>undefined\<close>, which rounding
  turns into \<open>NaN\<close>: the amounts of a row are options and \<open>None\<close> is \<open>NaN\<close>.  The value of
  \<open>Math.pow\<close>, which the language leaves to the implementation, is a parameter.
\<close>

datatype pay_error = Total_not_positive | Not_exactly_one | Count_below_one | Amount_not_positive
  | Principal_not_positive | Rate_negative | Tenor_below_one
  | Type_error \<comment> \<open>a field of \<open>undefined\<close>\<close>
  | Not_finite \<comment> \<open>no exception: the schedule that is returned has infinite amounts\<close>

section \<open>Installments of an advance\<close>

definition installment_parts :: "rat \<Rightarrow> rat \<Rightarrow> int \<Rightarrow> rat list" where
  "installment_parts totalAmount base count =
     filter (\<lambda>p. p > 0)
       (replicate (nat (count - 1)) base @ [round2 (jsub totalAmount (jmul base (of_int (count - 1))))])"

definition buildInstallmentSchedule :: "rat \<Rightarrow> rat option \<Rightarrow> rat option \<Rightarrow> pay_error + rat list" where
  "buildInstallmentSchedule totalAmount installmentCount installmentAmount =
     (if \<not> totalAmount > 0 then Inl Total_not_positive
      else (case (installmentCount, installmentAmount) of
        (Some c, None) \<Rightarrow>
          let count = \<lfloor>c\<rfloor>
          in if count < 1 then Inl Count_below_one
             else if count = 1 then Inr [round2 totalAmount]
             else Inr (installment_parts totalAmount (round2 (jdiv totalAmount (of_int count))) count)
      | (None, Some amount) \<Rightarrow>
          if \<not> amount > 0 then Inl Amount_not_positive
          else if amount \<ge> totalAmount then Inr [round2 totalAmount]
          else Inr (installment_parts totalAmount (round2 amount) \<lceil>jdiv totalAmount amount\<rceil>)
      | _ \<Rightarrow> Inl Not_exactly_one))"

section \<open>Loan schedules\<close>

record installment_row =
  ir_index :: int
  ir_month :: int
  ir_year :: int
  ir_principalPart :: "rat option"
  ir_interestPart :: "rat option"
  ir_emiAmount :: "rat option"
  ir_balanceAfter :: "rat option"

record loan_schedule =
  ls_installments :: "installment_row list"
  ls_emiAmount :: "rat option"
  ls_totalInterest :: rat
  ls_totalRepayable :: rat

definition nextMonth :: "int \<Rightarrow> int \<Rightarrow> int \<times> int" where
  "nextMonth month year = (if month = 12 then (1, year + 1) else (month + 1, year))"

definition lift1 :: "(rat \<Rightarrow> rat) \<Rightarrow> rat option \<Rightarrow> rat option" where
  "lift1 f a = map_option f a"

definition lift2 :: "(rat \<Rightarrow> rat \<Rightarrow> rat) \<Rightarrow> rat option \<Rightarrow> rat option \<Rightarrow> rat option" where
  "lift2 f a b = (case a of None \<Rightarrow> None | Some x \<Rightarrow> (case b of None \<Rightarrow> None | Some y \<Rightarrow> Some (f x y)))"

definition nth_opt :: "'a list \<Rightarrow> nat \<Rightarrow> 'a option" where
  "nth_opt xs i = (if i < length xs then Some (xs ! i) else None)"

fun zero_rows :: "rat list \<Rightarrow> int \<Rightarrow> int \<Rightarrow> int \<Rightarrow> rat \<Rightarrow> installment_row list" where
  "zero_rows [] i m y remaining = []"
| "zero_rows (part # parts) i m y remaining =
     (let p = round2 part;
          remaining' = round2 (jsub remaining p);
          (m', y') = nextMonth m y
      in \<lparr>ir_index = i + 1, ir_month = m, ir_year = y, ir_principalPart = Some p, ir_interestPart = Some 0,
          ir_emiAmount = Some p, ir_balanceAfter = Some remaining'\<rparr> # zero_rows parts (i + 1) m' y' remaining')"

definition buildZeroRateSchedule :: "rat \<Rightarrow> int \<Rightarrow> int \<Rightarrow> int \<Rightarrow> pay_error + loan_schedule" where
  "buildZeroRateSchedule loanPrincipal tenorMonths startMonth startYear =
     (if \<not> loanPrincipal > 0 then Inl Principal_not_positive
      else if tenorMonths < 1 then Inl Tenor_below_one
      else (case buildInstallmentSchedule loanPrincipal (Some (of_int tenorMonths)) None of
        Inl e \<Rightarrow> Inl e
      | Inr principalParts \<Rightarrow>
          (case zero_rows principalParts 0 startMonth startYear (round2 loanPrincipal) of
             [] \<Rightarrow> Inl Type_error
           | row # rows \<Rightarrow>
               Inr \<lparr>ls_installments = row # rows, ls_emiAmount = ir_emiAmount row,
                 ls_totalInterest = 0, ls_totalRepayable = round2 loanPrincipal\<rparr>)))"

fun flat_rows :: "rat list \<Rightarrow> rat list \<Rightarrow> nat \<Rightarrow> nat \<Rightarrow> int \<Rightarrow> int \<Rightarrow> rat option \<Rightarrow> installment_row list" where
  \<comment> \<open>the number of rows still to come, and the index of the next one\<close>
  "flat_rows principalParts interestParts 0 i m y remaining = []"
| "flat_rows principalParts interestParts (Suc left) i m y remaining =
     (let p = lift1 round2 (nth_opt principalParts i);
          interest = lift1 round2 (nth_opt interestParts i);
          remaining' = lift1 round2 (lift2 jsub remaining p);
          (m', y') = nextMonth m y
      in \<lparr>ir_index = int i + 1, ir_month = m, ir_year = y, ir_principalPart = p, ir_interestPart = interest,
          ir_emiAmount = lift1 round2 (lift2 jadd p interest), ir_balanceAfter = remaining'\<rparr>
         # flat_rows principalParts interestParts left (Suc i) m' y' remaining')"

definition flat_interest :: "rat \<Rightarrow> rat \<Rightarrow> int \<Rightarrow> rat" where
  "flat_interest loanPrincipal annualRate tenorMonths =
     round2 (jdiv (jmul (jmul loanPrincipal annualRate) (of_int tenorMonths)) 1200)"

definition buildFlatRateSchedule :: "rat \<Rightarrow> rat \<Rightarrow> int \<Rightarrow> int \<Rightarrow> int \<Rightarrow> pay_error + loan_schedule" where
  "buildFlatRateSchedule loanPrincipal annualRate tenorMonths startMonth startYear =
     (if \<not> loanPrincipal > 0 then Inl Principal_not_positive
      else if annualRate < 0 then Inl Rate_negative
      else if tenorMonths < 1 then Inl Tenor_below_one
      else (case buildInstallmentSchedule loanPrincipal (Some (of_int tenorMonths)) None of
        Inl e \<Rightarrow> Inl e
      | Inr principalParts \<Rightarrow>
          let totalInterest = flat_interest loanPrincipal annualRate tenorMonths
          in (case (if totalInterest > 0 then buildInstallmentSchedule totalInterest (Some (of_int tenorMonths)) None
                    else Inr (replicate (nat tenorMonths) 0)) of
                Inl e \<Rightarrow> Inl e
              | Inr interestParts \<Rightarrow>
                  let rows = flat_rows principalParts interestParts (nat tenorMonths) 0 startMonth startYear (Some (round2 loanPrincipal))
                  in Inr \<lparr>ls_installments = rows, ls_emiAmount = ir_emiAmount (hd rows),
                       ls_totalInterest = totalInterest, ls_totalRepayable = round2 (jadd loanPrincipal totalInterest)\<rparr>)))"

fun reducing_rows :: "rat \<Rightarrow> rat \<Rightarrow> rat \<Rightarrow> nat \<Rightarrow> int \<Rightarrow> int \<Rightarrow> int \<Rightarrow> rat \<Rightarrow> rat \<Rightarrow> installment_row list" where
  "reducing_rows loanPrincipal r emi 0 i m y outstanding scheduled = []"
| "reducing_rows loanPrincipal r emi (Suc left) i m y outstanding scheduled =
     (let interestPart = round2 (jmul outstanding r);
          (principalPart, installmentEmi) =
            (if left = 0
             then let p = round2 (jsub loanPrincipal scheduled) in (p, round2 (jadd p interestPart))
             else (round2 (jsub emi interestPart), emi));
          outstanding' = round2 (jsub outstanding principalPart);
          scheduled' = round2 (jadd scheduled principalPart);
          (m', y') = nextMonth m y
      in \<lparr>ir_index = i + 1, ir_month = m, ir_year = y, ir_principalPart = Some principalPart,
          ir_interestPart = Some interestPart, ir_emiAmount = Some installmentEmi,
          ir_balanceAfter = Some (max 0 outstanding')\<rparr>
         # reducing_rows loanPrincipal r emi left (i + 1) m' y' outstanding' scheduled')"

definition buildReducingBalanceSchedule ::
  "(rat \<Rightarrow> int \<Rightarrow> rat) \<Rightarrow> rat \<Rightarrow> rat \<Rightarrow> int \<Rightarrow> int \<Rightarrow> int \<Rightarrow> pay_error + loan_schedule" where
  "buildReducingBalanceSchedule math_pow loanPrincipal annualRate tenorMonths startMonth startYear =
     (if \<not> loanPrincipal > 0 then Inl Principal_not_positive
      else if annualRate < 0 then Inl Rate_negative
      else if tenorMonths < 1 then Inl Tenor_below_one
      else if annualRate = 0 then buildZeroRateSchedule loanPrincipal tenorMonths startMonth startYear
      else
        let r = jdiv (jdiv annualRate 12) 100;
            compoundFactor = math_pow (jadd 1 r) tenorMonths
        in if jsub compoundFactor 1 = 0 then Inl Not_finite
           else
             let emi = round2 (jdiv (jmul (jmul loanPrincipal r) compoundFactor) (jsub compoundFactor 1));
                 rows = reducing_rows loanPrincipal r emi (nat tenorMonths) 0 startMonth startYear (round2 loanPrincipal) 0;
                 totalInterest = round2 (foldl (\<lambda>s row. jadd s (case ir_interestPart row of Some x \<Rightarrow> x | None \<Rightarrow> 0)) 0 rows)
             in Inr \<lparr>ls_installments = rows, ls_emiAmount = Some emi, ls_totalInterest = totalInterest,
                  ls_totalRepayable = round2 (jadd loanPrincipal totalInterest)\<rparr>)"

definition computeMonthlyPerquisite :: "rat \<Rightarrow> rat \<Rightarrow> rat \<Rightarrow> rat" where
  "computeMonthlyPerquisite outstandingBalance sbiBenchmarkRate actualRate =
     (if actualRate \<ge> sbiBenchmarkRate \<or> outstandingBalance \<le> 0 then 0
      else round2 (jdiv (jmul outstandingBalance (jsub sbiBenchmarkRate actualRate)) 1200))"

definition computeSchedule ::
  "(rat \<Rightarrow> int \<Rightarrow> rat) \<Rightarrow> string \<Rightarrow> rat \<Rightarrow> rat \<Rightarrow> int \<Rightarrow> int \<Rightarrow> int \<Rightarrow> (pay_error + loan_schedule) option" where
  \<comment> \<open>\<open>None\<close> is the exception for an unknown interest type\<close>
  "computeSchedule math_pow interestType loanPrincipal annualRate tenorMonths startMonth startYear =
     (if interestType = ''zero'' then Some (buildZeroRateSchedule loanPrincipal tenorMonths startMonth startYear)
      else if interestType = ''flat'' then Some (buildFlatRateSchedule loanPrincipal annualRate tenorMonths startMonth startYear)
      else if interestType = ''reducing_balance''
        then Some (buildReducingBalanceSchedule math_pow loanPrincipal annualRate tenorMonths startMonth startYear)
      else None)"

section \<open>Installments are exact\<close>

lemma paise_bounds:
  assumes "0 \<le> k"
  shows "of_int k / 100 * (1 - 1 / 2 ^ 53) \<le> paise k" "paise k \<le> of_int k / 100 * (1 + 1 / 2 ^ 53)"
proof -
  have "\<bar>paise k - of_int k / 100\<bar> \<le> of_int k / 100 / 2 ^ 53" using paise_error[of k] assms by simp
  from abs_le_D1[OF this] abs_le_D2[OF this]
  show "of_int k / 100 * (1 - 1 / 2 ^ 53) \<le> paise k" "paise k \<le> of_int k / 100 * (1 + 1 / 2 ^ 53)"
    unfolding right_diff_distrib distrib_left by simp_all
qed

lemma ratio_close:
  assumes "0 < a" "0 < t"
  shows "\<bar>jdiv (paise t) (paise a) - of_int t / of_int a\<bar> \<le> of_int t / of_int a / 2 ^ 50"
proof -
  define u :: rat where "u = 1 / 2 ^ 53"
  define q :: rat where "q = of_int t / of_int a"
  define x where "x = paise t / paise a"
  have a: "0 < paise a" "(0::rat) < of_int a" and t: "(0::rat) < of_int t" using assms by simp_all
  have q: "0 < q" unfolding q_def using a t by simp
  have "x \<le> (of_int t / 100 * (1 + u)) / (of_int a / 100 * (1 - u))"
    unfolding x_def using paise_bounds[of t] paise_bounds[of a] assms
    by (intro frac_le) (simp_all add: u_def)
  also have "\<dots> = q * ((1 + u) / (1 - u))" by (simp add: q_def)
  also have "\<dots> \<le> q * (1 + 3 * u)" using q by (intro mult_left_mono) (simp_all add: u_def)
  finally have hi: "x \<le> q * (1 + 3 * u)" .
  have "q * (1 - 3 * u) \<le> q * ((1 - u) / (1 + u))" using q by (intro mult_left_mono) (simp_all add: u_def)
  also have "\<dots> = (of_int t / 100 * (1 - u)) / (of_int a / 100 * (1 + u))" by (simp add: q_def)
  also have "\<dots> \<le> x"
    unfolding x_def using paise_bounds[of t] paise_bounds[of a] assms
    by (intro frac_le) (simp_all add: u_def)
  finally have lo: "q * (1 - 3 * u) \<le> x" .
  have x: "0 < x" unfolding x_def using a assms by simp
  have "\<bar>x\<bar> * u \<le> q * (1 + 3 * u) * u" using hi x by (intro mult_right_mono) (simp_all add: u_def)
  also have "\<dots> \<le> q * (2 * u)" using q by (simp add: u_def mult.assoc)
  finally have "\<bar>fl x - x\<bar> \<le> q * (2 * u)" using fl_error[of x] by (simp add: u_def)
  then have "\<bar>fl x - q\<bar> \<le> q * (5 * u)" using hi lo by (simp add: algebra_simps abs_le_iff)
  also have "\<dots> \<le> q / 2 ^ 50" using q by (simp add: u_def)
  finally show ?thesis by (simp add: jdiv_def x_def q_def)
qed

lemma last_part:
  assumes "\<bar>T\<bar> \<le> 2 ^ 40" "0 \<le> b" "0 \<le> n" "n * b \<le> 2 ^ 41"
  shows "round2 (jsub (paise T) (jmul (paise b) (of_int n))) = paise (T - n * b)"
proof -
  define u :: rat where "u = 1 / 2 ^ 53"
  define y :: rat where "y = of_int (n * b) / 100"
  have nb: "(0::rat) \<le> of_int n" "0 \<le> (of_int (n * b) :: rat)" "of_int (n * b) \<le> (2199023255552 :: rat)"
    using assms by (simp_all flip: of_int_mult)
  have y: "0 \<le> y" "y \<le> 21990232556" using nb by (simp_all add: y_def)
  define x where "x = paise b * of_int n"
  have "x - y = (paise b - of_int b / 100) * of_int n" by (simp add: x_def y_def algebra_simps)
  then have "\<bar>x - y\<bar> = \<bar>paise b - of_int b / 100\<bar> * of_int n" using assms(3) by (simp add: abs_mult)
  also have "\<dots> \<le> (of_int \<bar>b\<bar> / 100 / 2 ^ 53) * of_int n" using nb(1) paise_error by (intro mult_right_mono) auto
  also have "\<dots> = y * u" using assms(2) by (simp add: y_def u_def)
  also have "\<dots> \<le> 1/100000" using y by (simp add: u_def)
  finally have xy: "\<bar>x - y\<bar> \<le> 1/100000" .
  have "\<bar>x\<bar> \<le> 21990232557" using xy y by linarith
  then have "\<bar>x\<bar> / 2 ^ 53 \<le> 1/100000" by simp
  then have m: "\<bar>- fl x - (- y)\<bar> \<le> 2/100000" using fl_error[of x] xy by linarith
  have T: "\<bar>of_int T :: rat\<bar> \<le> 1099511627776" using assms(1) by (simp flip: of_int_abs)
  have t: "\<bar>paise T - of_int T / 100\<bar> \<le> 1/10000" by (rule paise_close) (use assms(1) in \<open>simp add: money_max_def\<close>)
  have "\<bar>paise T + - fl x\<bar> \<le> 40000000000" using t T m y by linarith
  from jadd_close[OF t m this]
  have "\<bar>jsub (paise T) (fl x) - (of_int T / 100 + - y)\<bar> \<le> 1/10000 + 2/100000 + 40000000000 / 2 ^ 53"
    by (simp add: jsub_jadd)
  moreover have "(40000000000 :: rat) / 2 ^ 53 \<le> 1/100000" by simp
  moreover have "of_int T / 100 + - y = of_int (T - n * b) / 100" by (simp add: y_def diff_divide_distrib)
  ultimately have "\<bar>jsub (paise T) (fl x) - of_int (T - n * b) / 100\<bar> \<le> 1/400" by linarith
  moreover have "0 \<le> n * b" using assms by simp
  then have "\<bar>T - n * b\<bar> \<le> money_max" using assms(1,4) by (simp add: money_max_def abs_le_iff)
  ultimately show ?thesis unfolding jmul_def x_def by (rule round2_near[rotated])
qed

lemma installment_parts_paise:
  assumes "\<bar>T\<bar> \<le> 2 ^ 40" "0 < b" "1 \<le> count" "(count - 1) * b \<le> 2 ^ 41"
  shows "installment_parts (paise T) (paise b) count =
    replicate (nat (count - 1)) (paise b) @ (if (count - 1) * b < T then [paise (T - (count - 1) * b)] else [])"
  using assms last_part[of T b "count - 1"] by (simp add: installment_parts_def)

lemma ceiling_ratio:
  assumes "0 < A" "0 < T" "T \<le> 2 ^ 40"
  shows "\<lceil>jdiv (paise T) (paise A)\<rceil> = T div A + 1 \<or> T mod A = 0 \<and> \<lceil>jdiv (paise T) (paise A)\<rceil> = T div A"
proof -
  define q r where "q = T div A" and "r = T mod A"
  define x where "x = jdiv (paise T) (paise A)"
  have A: "(0::rat) < of_int A" using assms by simp
  have TA: "T = q * A + r" by (simp add: q_def r_def)
  have r: "0 \<le> r" "r < A" using assms by (simp_all add: r_def)
  have eq: "of_int T / of_int A = (of_int q + of_int r / of_int A :: rat)"
    using A by (simp add: TA add_divide_distrib)
  have "(of_int T :: rat) \<le> 1099511627776" using assms(3) by simp
  then have "of_int T / 2 ^ 50 < (1 :: rat)" by simp
  then have e: "of_int T / of_int A / 2 ^ 50 < 1 / (of_int A :: rat)"
    using A divide_strict_right_mono[OF _ A, of "of_int T / 2 ^ 50" 1] by (simp add: mult.commute)
  have "1 / (of_int A :: rat) \<le> 1" using assms(1) by simp
  with ratio_close[OF assms(1,2)] e have close: "\<bar>x - (of_int q + of_int r / of_int A)\<bar> < 1 / of_int A"
    by (simp add: x_def eq)
  have up: "x \<le> of_int q + 1"
  proof -
    have "of_int (r + 1) \<le> (of_int A :: rat)" using r by (simp only: of_int_le_iff)
    then have "of_int (r + 1) / of_int A \<le> (1 :: rat)" using A by (simp add: pos_divide_le_eq)
    then have "of_int r / of_int A + 1 / of_int A \<le> (1 :: rat)" by (simp add: add_divide_distrib)
    with close show ?thesis by linarith
  qed
  show ?thesis
  proof (cases "r = 0")
    case True
    with close \<open>1 / (of_int A :: rat) \<le> 1\<close> have "of_int q - 1 < x" by simp
    then have "\<lceil>x\<rceil> = q + 1 \<or> \<lceil>x\<rceil> = q" using up by linarith
    with True show ?thesis by (auto simp: x_def q_def r_def)
  next
    case False
    with r have "1 / (of_int A :: rat) \<le> of_int r / of_int A" using A by (simp add: divide_right_mono)
    with close have "of_int q < x" by linarith
    then have "\<lceil>x\<rceil> = q + 1" using up by linarith
    then show ?thesis by (simp add: x_def q_def)
  qed
qed

lemma installments_by_amount:
  assumes "0 < A" "A < T" "T \<le> 2 ^ 40"
  shows "buildInstallmentSchedule (paise T) None (Some (paise A)) =
    Inr (replicate (nat (T div A)) (paise A) @ (if T mod A = 0 then [] else [paise (T mod A)]))"
proof -
  define q where "q = T div A"
  have less: "paise A < paise T" using assms by (intro paise_less_iff[THEN iffD2]) (auto simp: money_max_def)
  have q: "1 \<le> q" using assms pos_imp_zdiv_pos_iff[of A T] by (simp add: q_def)
  have T: "T = q * A + T mod A" by (simp add: q_def)
  have mm: "0 \<le> T mod A" "T mod A < A" using assms by simp_all
  have A: "\<bar>A\<bar> \<le> money_max" using assms by (simp add: money_max_def)
  have qA: "q * A \<le> 2 ^ 40" using T mm assms by linarith
  define count where "count = \<lceil>jdiv (paise T) (paise A)\<rceil>"
  have c: "count = q + 1 \<or> T mod A = 0 \<and> count = q"
    unfolding count_def q_def by (rule ceiling_ratio) (use assms in auto)
  have cA: "(count - 1) * A \<le> 2 ^ 41" using c
  proof
    assume "count = q + 1"
    then show ?thesis using qA by simp
  next
    assume "T mod A = 0 \<and> count = q"
    then have "(count - 1) * A \<le> q * A" using assms by (intro mult_right_mono) auto
    then show ?thesis using qA by simp
  qed
  have parts: "installment_parts (paise T) (paise A) count =
    replicate (nat (count - 1)) (paise A) @ (if (count - 1) * A < T then [paise (T - (count - 1) * A)] else [])"
    by (rule installment_parts_paise) (use assms q c cA in auto)
  have "installment_parts (paise T) (paise A) count =
    replicate (nat q) (paise A) @ (if T mod A = 0 then [] else [paise (T mod A)])"
    using c
  proof
    assume "count = q + 1"
    then have "installment_parts (paise T) (paise A) count =
      replicate (nat q) (paise A) @ (if q * A < T then [paise (T - q * A)] else [])" using parts by simp
    moreover have "q * A < T \<longleftrightarrow> T mod A \<noteq> 0" "T - q * A = T mod A" using T mm by linarith+
    ultimately show ?thesis by simp
  next
    assume c: "T mod A = 0 \<and> count = q"
    then have "T - (q - 1) * A = A" using T by (simp add: algebra_simps)
    moreover have "nat q = Suc (nat (q - 1))" using q by simp
    then have "replicate (nat q) (paise A) = replicate (nat (q - 1)) (paise A) @ [paise A]"
      by (simp only: replicate_append_same replicate_Suc)
    moreover have "(q - 1) * A < T" using \<open>T - (q - 1) * A = A\<close> assms by linarith
    ultimately show ?thesis using parts c by simp
  qed
  then show ?thesis using less assms A
    by (simp add: buildInstallmentSchedule_def count_def q_def not_le)
qed

lemma round2_error:
  assumes "0 \<le> x" "x \<le> 10 ^ 10 * 2"
  obtains b where "round2 x = paise b" "\<bar>of_int b - 100 * x\<bar> \<le> 1/2 + 1/200" "0 \<le> b"
proof -
  define y where "y = jadd x number_epsilon"
  have y0: "0 \<le> y" using assms by (simp add: y_def jadd_def number_epsilon_def)
  have ne: "number_epsilon = 1 / 4503599627370496" by (simp add: number_epsilon_def)
  define z where "z = x + number_epsilon"
  have z: "\<bar>z\<bar> / 2 ^ 53 \<le> 1/100000" using assms by (simp add: z_def ne)
  have "\<bar>y - z\<bar> \<le> 1/100000" using order_trans[OF fl_error[of z] z] by (simp add: y_def jadd_def z_def)
  then have yx: "\<bar>y - x\<bar> \<le> 2/100000" using ne unfolding z_def by linarith
  define w where "w = y * 100"
  have "y \<le> 20000000010" using abs_le_D1[OF yx] assms(2) by simp
  then have "\<bar>w\<bar> \<le> 2000000001000" using y0 by (simp add: w_def)
  then have "\<bar>w\<bar> / 2 ^ 53 \<le> 1/1000" by simp
  then have "\<bar>fl w - w\<bar> \<le> 1/1000" using fl_error[of w] by linarith
  moreover have "\<bar>of_int (round (fl w)) - fl w\<bar> \<le> 1/2" by (rule of_int_round_abs_le)
  moreover have "\<bar>w - 100 * x\<bar> \<le> 2/1000" using yx unfolding w_def by linarith
  ultimately have "\<bar>of_int (round (fl w)) - 100 * x\<bar> \<le> 1/2 + 1/200" by linarith
  moreover have "round2 x = paise (round (fl w))"
    by (simp add: round2_def paise_def w_def y_def jmul_def)
  moreover have "0 \<le> round (fl w)" using y0 by (simp add: round_def w_def)
  ultimately show thesis using that by blast
qed

lemma installment_arith:
  fixes n T b :: int
  assumes n: "2 \<le> n" and T: "51 * (n * (n - 1)) < 100 * T" and close: "100 * \<bar>n * b - T\<bar> \<le> 51 * n"
  shows "0 < b" "(n - 1) * b < T"
proof -
  have "100 * \<bar>d - T\<bar> \<le> m \<Longrightarrow> 100 * T \<le> 100 * d + m" "100 * \<bar>d - T\<bar> \<le> m \<Longrightarrow> 100 * d \<le> 100 * T + m" for d m :: int
    by arith+
  from this[OF close] have up: "100 * T \<le> 100 * (n * b) + 51 * n" and lo: "100 * (n * b) \<le> 100 * T + 51 * n" .
  have "51 * (n * (n - 1)) = n * (51 * (n - 1))" "100 * (n * b) + 51 * n = n * (100 * b + 51)" by (simp_all add: algebra_simps)
  with T up have "n * (51 * (n - 1)) < n * (100 * b + 51)" by simp
  then have "51 * (n - 1) < 100 * b + 51" using n by (simp add: mult_less_cancel_left)
  then show "0 < b" using n by presburger
  show "(n - 1) * b < T"
  proof (rule ccontr)
    assume *: "\<not> (n - 1) * b < T"
    then have "b \<le> n * b - T" by (simp add: algebra_simps)
    with lo have "100 * b \<le> 51 * n" by simp
    then have "100 * b * (n - 1) \<le> 51 * n * (n - 1)" using n by (intro mult_right_mono) auto
    then have "100 * ((n - 1) * b) \<le> 51 * (n * (n - 1))" by (simp only: ac_simps)
    from this T have "100 * ((n - 1) * b) < 100 * T" by (rule order_le_less_trans)
    with * show False by simp
  qed
qed

lemma installments_by_count:
  assumes n: "2 \<le> n" "n \<le> 500" and T: "T \<le> 2 ^ 40" "51 * (n * (n - 1)) < 100 * T"
  shows "\<exists>b. buildInstallmentSchedule (paise T) (Some (of_int n)) None
      = Inr (replicate (nat (n - 1)) (paise b) @ [paise (T - (n - 1) * b)])
    \<and> 0 < b \<and> (n - 1) * b < T \<and> 100 * \<bar>n * b - T\<bar> \<le> 51 * n"
proof -
  have "0 \<le> n * (n - 1)" using n by simp
  then have T0: "0 < T" using T by linarith
  define x where "x = jdiv (paise T) (of_int n)"
  have nr: "(2::rat) \<le> of_int n" using n by simp
  have Tr: "(of_int T :: rat) \<le> 1099511627776" using T by simp
  have t: "\<bar>paise T - of_int T / 100\<bar> \<le> 1/10000" "0 < paise T"
    using paise_close[of T] T T0 by (simp_all add: money_max_def)
  have t2: "paise T / of_int n \<le> paise T" "0 < paise T / of_int n"
    using t nr mult_left_mono[of 1 "of_int n" "paise T"] by (simp_all add: divide_le_eq)
  have "paise T \<le> 10995116278" using t(1) Tr by linarith
  then have tn: "paise T / of_int n \<le> 10995116278" using t2 by simp
  then have "\<bar>paise T / of_int n\<bar> / 2 ^ 53 \<le> 1/100000" using t2 by simp
  then have x1: "\<bar>x - paise T / of_int n\<bar> \<le> 1/100000" using fl_error[of "paise T / of_int n"] by (simp add: x_def jdiv_def)
  have "\<bar>paise T - of_int T / 100\<bar> \<le> of_int \<bar>T\<bar> / 100 / 2 ^ 53" by (rule paise_error)
  also have "\<dots> \<le> 2/100000" using Tr T0 by simp
  finally have "\<bar>paise T - of_int T / 100\<bar> / of_int n \<le> (2/100000) / of_int n" using nr by (intro divide_right_mono) auto
  also have "\<dots> \<le> 1/100000" using nr by (simp add: divide_le_eq)
  finally have "\<bar>paise T / of_int n - of_int T / 100 / of_int n\<bar> \<le> 1/100000"
    using nr by (simp only: diff_divide_distrib[symmetric] abs_divide abs_of_nonneg order_trans[OF zero_le_numeral nr])
  with x1 have x: "\<bar>x - of_int T / 100 / of_int n\<bar> \<le> 2/100000" by linarith
  have x0: "0 \<le> x" using t2 by (simp add: x_def jdiv_def less_imp_le)
  have xb: "x \<le> 10 ^ 10 * 2" using abs_le_D1[OF x1] tn by simp
  obtain b where b: "round2 x = paise b" "\<bar>of_int b - 100 * x\<bar> \<le> 1/2 + 1/200" "0 \<le> b"
    using round2_error[OF x0 xb] by blast
  have "\<bar>of_int b - of_int T / of_int n\<bar> \<le> (51/100 :: rat)" using b(2) x by linarith
  then have "\<bar>of_int b - of_int T / of_int n\<bar> * of_int n \<le> (51/100 :: rat) * of_int n" using nr by (intro mult_right_mono) auto
  moreover have "\<bar>of_int b - of_int T / of_int n\<bar> * of_int n = \<bar>of_int (n * b - T) :: rat\<bar>"
  proof -
    have "(of_int b - of_int T / of_int n) * of_int n = (of_int (n * b - T) :: rat)" using nr by (simp add: field_simps)
    then show ?thesis using nr by (metis abs_mult abs_of_nonneg order_trans zero_le_numeral)
  qed
  ultimately have "\<bar>of_int (n * b - T) :: rat\<bar> \<le> 51/100 * of_int n" by (simp only:)
  then have "100 * \<bar>of_int (n * b - T) :: rat\<bar> \<le> 51 * of_int n" by simp
  then have "of_int (100 * \<bar>n * b - T\<bar>) \<le> (of_int (51 * n) :: rat)" by simp
  then have close: "100 * \<bar>n * b - T\<bar> \<le> 51 * n" by (simp only: of_int_le_iff)
  have b0: "0 < b" and lt: "(n - 1) * b < T" using installment_arith[OF n(1) T(2) close] by simp_all
  have "installment_parts (paise T) (paise b) n
    = replicate (nat (n - 1)) (paise b) @ (if (n - 1) * b < T then [paise (T - (n - 1) * b)] else [])"
    by (rule installment_parts_paise) (use T T0 b0 n lt in auto)
  then show ?thesis using b0 lt close n T0 b(1)
    by (auto simp: buildInstallmentSchedule_def Let_def x_def intro!: exI[of _ b])
qed

lemma parts_of_count:
  assumes n: "1 \<le> n" "n \<le> 500" and T: "0 < T" "T \<le> 2 ^ 40" "51 * (n * (n - 1)) < 100 * T"
  shows "\<exists>ks. buildInstallmentSchedule (paise T) (Some (of_int n)) None = Inr (map paise ks)
    \<and> length ks = nat n \<and> sum_list ks = T \<and> (\<forall>k\<in>set ks. 0 < k \<and> k \<le> T)"
proof (cases "n = 1")
  case True
  then have "buildInstallmentSchedule (paise T) (Some (of_int n)) None = Inr (map paise [T])"
    using T by (simp add: buildInstallmentSchedule_def money_max_def)
  with True T show ?thesis by (intro exI[of _ "[T]"]) simp
next
  case False
  then have "2 \<le> n" using n by simp
  from installments_by_count[OF this n(2) T(2,3)] obtain b where
    b: "buildInstallmentSchedule (paise T) (Some (of_int n)) None = Inr (replicate (nat (n - 1)) (paise b) @ [paise (T - (n - 1) * b)])"
      "0 < b" "(n - 1) * b < T" by blast
  have "b * 1 \<le> b * (n - 1)" using b(2) \<open>2 \<le> n\<close> by (intro mult_left_mono) auto
  then have "b \<le> T" using b(3) by (simp add: mult.commute)
  moreover have "sum_list (replicate (nat (n - 1)) b @ [T - (n - 1) * b]) = T" using n by (simp add: sum_list_replicate_int)
  moreover have "nat (n - 1) + 1 = nat n" using n by simp
  ultimately show ?thesis using b \<open>2 \<le> n\<close>
    by (intro exI[of _ "replicate (nat (n - 1)) b @ [T - (n - 1) * b]"]) auto
qed

section \<open>Rows of a flat loan\<close>

lemma nextMonth_successor:
  "1 \<le> m \<Longrightarrow> m \<le> 12 \<Longrightarrow> nextMonth m y = (m', y') \<Longrightarrow> 1 \<le> m' \<and> m' \<le> 12 \<and> 12 * y' + m' = 12 * y + m + 1"
  by (auto simp: nextMonth_def split: if_splits)

definition exact_row :: "int \<Rightarrow> int \<Rightarrow> int \<Rightarrow> int \<Rightarrow> int \<Rightarrow> installment_row \<Rightarrow> bool" where
  \<comment> \<open>the row of an index, a number of months since year 0, a principal and an interest part and the
    balance after it, in paise\<close>
  "exact_row idx months k x bal row \<longleftrightarrow> ir_index row = idx \<and> 1 \<le> ir_month row \<and> ir_month row \<le> 12
     \<and> 12 * ir_year row + ir_month row = months \<and> ir_principalPart row = Some (paise k) \<and> ir_interestPart row = Some (paise x)
     \<and> ir_emiAmount row = Some (paise (k + x)) \<and> ir_balanceAfter row = Some (paise bal)"

lemma length_flat_rows [simp]: "length (flat_rows ps xs left i m y r) = left"
  by (induction left arbitrary: i m y r) (simp_all add: Let_def split: prod.splits)

lemma flat_rows_exact:
  assumes "length ks = i + left" "length xs = i + left" "1 \<le> m" "m \<le> 12"
    and "\<forall>k\<in>set ks. 0 \<le> k \<and> k \<le> 2 ^ 40" "\<forall>x\<in>set xs. 0 \<le> x \<and> x \<le> 2 ^ 40"
    and "sum_list (drop i ks) \<le> R" "R \<le> 2 ^ 40" "j < left"
  shows "exact_row (int (i + j) + 1) (12 * y + m + int j) (ks ! (i + j)) (xs ! (i + j))
    (R - sum_list (take (Suc j) (drop i ks))) (flat_rows (map paise ks) (map paise xs) left i m y (Some (paise R)) ! j)"
  using assms
proof (induction left arbitrary: i m y R j)
  case 0
  then show ?case by simp
next
  case (Suc left)
  obtain m' y' where my: "nextMonth m y = (m', y')" by fastforce
  note next_my = nextMonth_successor[OF Suc.prems(3,4) my]
  have k: "0 \<le> ks ! i" "ks ! i \<le> 2 ^ 40" and x: "0 \<le> xs ! i" "xs ! i \<le> 2 ^ 40" using Suc.prems by simp_all
  have dr: "drop i ks = ks ! i # drop (Suc i) ks" using Suc.prems(1) by (simp add: Cons_nth_drop_Suc)
  have rest: "0 \<le> sum_list (drop (Suc i) ks)" using Suc.prems(5) by (intro sum_list_nonneg) (auto dest: in_set_dropD)
  have R: "sum_list (drop (Suc i) ks) \<le> R - ks ! i" "R - ks ! i \<le> 2 ^ 40" "0 \<le> R - ks ! i" "0 \<le> R"
    using Suc.prems(7,8) dr k rest by simp_all
  have b: "\<bar>ks ! i\<bar> \<le> money_max div 4" "\<bar>xs ! i\<bar> \<le> money_max div 4" "\<bar>R\<bar> \<le> money_max div 4"
     "\<bar>ks ! i\<bar> \<le> money_max" "\<bar>xs ! i\<bar> \<le> money_max"
    using k x R Suc.prems(8) by (simp_all add: money_max_def)
  have step: "flat_rows (map paise ks) (map paise xs) (Suc left) i m y (Some (paise R)) =
     \<lparr>ir_index = int i + 1, ir_month = m, ir_year = y, ir_principalPart = Some (paise (ks ! i)),
       ir_interestPart = Some (paise (xs ! i)), ir_emiAmount = Some (paise (ks ! i + xs ! i)),
       ir_balanceAfter = Some (paise (R - ks ! i))\<rparr>
     # flat_rows (map paise ks) (map paise xs) left (Suc i) m' y' (Some (paise (R - ks ! i)))"
    using Suc.prems(1,2) b by (simp add: my nth_opt_def lift1_def lift2_def round_jadd round_jsub Let_def)
  show ?case
  proof (cases j)
    case 0
    then show ?thesis unfolding step using Suc.prems(3,4) by (simp add: exact_row_def dr)
  next
    case (Suc j')
    have "exact_row (int (Suc i + j') + 1) (12 * y' + m' + int j') (ks ! (Suc i + j')) (xs ! (Suc i + j'))
      ((R - ks ! i) - sum_list (take (Suc j') (drop (Suc i) ks)))
      (flat_rows (map paise ks) (map paise xs) left (Suc i) m' y' (Some (paise (R - ks ! i))) ! j')"
      by (rule Suc.IH) (use Suc.prems Suc next_my R in auto)
    moreover have "12 * y' + m' + int j' = 12 * y + m + int j" using next_my Suc by simp
    moreover have "R - ks ! i - sum_list (take (Suc j') (drop (Suc i) ks)) = R - sum_list (take (Suc j) (drop i ks))"
      by (simp add: Suc dr)
    ultimately show ?thesis unfolding step using Suc by (metis add_Suc_shift nth_Cons_Suc)
  qed
qed

lemma flat_rows_interest:
  "map ir_interestPart (flat_rows ps xs left i m y r) = map (\<lambda>j. lift1 round2 (nth_opt xs j)) [i..<i + left]"
  by (induction left arbitrary: i m y r) (simp_all add: Let_def upt_conv_Cons del: upt_Suc split: prod.splits)

lemma flat_rows_nan: "row \<in> set (flat_rows ps xs left i m y r) \<Longrightarrow> ir_interestPart row = None \<Longrightarrow> ir_emiAmount row = None"
  by (induction left arbitrary: i m y r) (auto simp: Let_def lift1_def lift2_def split: prod.splits option.splits)

section \<open>Properties\<close>

text \<open>
  An advance recovered by a fixed monthly amount is split as integer division says: as many
  full installments as fit into the total and, when something is left, one installment with
  exactly the remainder; the binary64 quotient and its ceiling never add or lose one.
\<close>
theorem installments_are_division:
  assumes "0 < A" "A < T" "T \<le> 2 ^ 40"
  shows "buildInstallmentSchedule (paise T) None (Some (paise A)) =
    Inr (replicate (nat (T div A)) (paise A) @ (if T mod A = 0 then [] else [paise (T mod A)]))"
  using assms by (rule installments_by_amount)

theorem installments_are_division_witness:
  "buildInstallmentSchedule (paise 100001) None (Some (paise 30000)) = Inr (replicate 3 (paise 30000) @ [paise 10001])"
  using installments_are_division[of 30000 100001] by simp

text \<open>
  C39. A flat-interest loan is repaid exactly: the schedule has one row per month, the months are
  consecutive, the principal parts add up to the principal and the interest parts to the total
  interest, every installment is the sum of its two parts, and the balance after each row is
  the principal less what was repaid, in whole paise, down to zero.  The total is assumed to
  exceed about half a paisa per pair of installments.
\<close>
theorem flat_schedule_exact:
  assumes "1 \<le> n" "n \<le> 120" "1 \<le> m" "m \<le> 12" "0 \<le> rate"
    and "0 < P" "P \<le> 2 ^ 40" "51 * (n * (n - 1)) < 100 * P"
    and "flat_interest (paise P) rate n = paise I" "0 \<le> I" "I \<le> 2 ^ 40" "I = 0 \<or> 51 * (n * (n - 1)) < 100 * I"
  shows "\<exists>s ks xs. buildFlatRateSchedule (paise P) rate n m y = Inr s
    \<and> length (ls_installments s) = nat n \<and> length ks = nat n \<and> length xs = nat n
    \<and> sum_list ks = P \<and> sum_list xs = I \<and> (\<forall>k\<in>set ks. 0 < k) \<and> (\<forall>x\<in>set xs. 0 \<le> x)
    \<and> ls_totalInterest s = paise I \<and> ls_totalRepayable s = paise (P + I)
    \<and> (\<forall>j<nat n. exact_row (int j + 1) (12 * y + m + int j) (ks ! j) (xs ! j) (P - sum_list (take (Suc j) ks))
          (ls_installments s ! j))"
proof -
  obtain ks where ks: "buildInstallmentSchedule (paise P) (Some (of_int n)) None = Inr (map paise ks)"
    "length ks = nat n" "sum_list ks = P" "\<forall>k\<in>set ks. 0 < k \<and> k \<le> P"
    using parts_of_count[of n P] assms by auto
  have "\<exists>xs. (if paise I > 0 then buildInstallmentSchedule (paise I) (Some (of_int n)) None
      else Inr (replicate (nat n) 0)) = Inr (map paise xs)
    \<and> length xs = nat n \<and> sum_list xs = I \<and> (\<forall>x\<in>set xs. 0 \<le> x \<and> x \<le> I)"
  proof (cases "I = 0")
    case True
    then show ?thesis by (intro exI[of _ "replicate (nat n) 0"]) (auto simp: sum_list_replicate_int)
  next
    case False
    then have I: "0 < I" using assms by simp
    then obtain xs where "buildInstallmentSchedule (paise I) (Some (of_int n)) None = Inr (map paise xs)"
      "length xs = nat n" "sum_list xs = I" "\<forall>x\<in>set xs. 0 < x \<and> x \<le> I"
      using parts_of_count[of n I] assms False by auto
    then show ?thesis using I by (intro exI[of _ xs]) auto
  qed
  then obtain xs where xs: "(if paise I > 0 then buildInstallmentSchedule (paise I) (Some (of_int n)) None
      else Inr (replicate (nat n) 0)) = Inr (map paise xs)"
    "length xs = nat n" "sum_list xs = I" "\<forall>x\<in>set xs. 0 \<le> x \<and> x \<le> I" by blast
  have b: "\<bar>P\<bar> \<le> money_max" "\<bar>P\<bar> \<le> money_max div 4" "\<bar>I\<bar> \<le> money_max div 4" using assms by (simp_all add: money_max_def)
  define s where "s = \<lparr>ls_installments = flat_rows (map paise ks) (map paise xs) (nat n) 0 m y (Some (paise P)),
     ls_emiAmount = ir_emiAmount (hd (flat_rows (map paise ks) (map paise xs) (nat n) 0 m y (Some (paise P)))),
     ls_totalInterest = paise I, ls_totalRepayable = paise (P + I)\<rparr>"
  have "buildFlatRateSchedule (paise P) rate n m y = Inr s"
    using assms ks(1) xs(1) b by (simp add: buildFlatRateSchedule_def Let_def s_def round_jadd)
  moreover have "\<forall>j<nat n. exact_row (int j + 1) (12 * y + m + int j) (ks ! j) (xs ! j) (P - sum_list (take (Suc j) ks))
      (ls_installments s ! j)"
  proof (intro allI impI)
    fix j assume "j < nat n"
    moreover have "\<forall>k\<in>set ks. 0 \<le> k \<and> k \<le> 2 ^ 40" "\<forall>x\<in>set xs. 0 \<le> x \<and> x \<le> 2 ^ 40"
      using ks(4) xs(4) assms by fastforce+
    ultimately show "exact_row (int j + 1) (12 * y + m + int j) (ks ! j) (xs ! j) (P - sum_list (take (Suc j) ks))
      (ls_installments s ! j)"
      using flat_rows_exact[of ks 0 "nat n" xs m P j y] ks(2,3) xs(2) assms by (simp add: s_def)
  qed
  ultimately show ?thesis using ks xs by (intro exI[of _ s] exI[of _ ks] exI[of _ xs]) (auto simp: s_def)
qed

theorem flat_schedule_exact_witness:
  "\<exists>s ks xs. buildFlatRateSchedule (paise 1200000) 12 3 11 2025 = Inr s
    \<and> sum_list ks = 1200000 \<and> sum_list xs = 36000 \<and> ls_totalRepayable s = paise 1236000
    \<and> exact_row 3 (12 * 2026 + 1) (ks ! 2) (xs ! 2) (1200000 - sum_list (take 3 ks)) (ls_installments s ! 2)"
proof -
  have "paise 1200000 = 12000" "paise 36000 = 360" using paise_rupees[of 12000] paise_rupees[of 360] by simp_all
  then have I: "flat_interest (paise 1200000) 12 3 = paise 36000"
    using round_paise(2)[of 36000] by (simp add: flat_interest_def jmul_def jdiv_def money_max_def)
  obtain s ks xs where "buildFlatRateSchedule (paise 1200000) 12 3 11 2025 = Inr s" "sum_list ks = 1200000"
    "sum_list xs = 36000" "ls_totalRepayable s = paise (1200000 + 36000)"
    "\<forall>j<nat 3. exact_row (int j + 1) (12 * 2025 + 11 + int j) (ks ! j) (xs ! j) (1200000 - sum_list (take (Suc j) ks)) (ls_installments s ! j)"
    using flat_schedule_exact[of 3 11 12 1200000 36000 2025] I by auto
  then show ?thesis by (intro exI[of _ s] exI[of _ ks] exI[of _ xs]) (auto simp: numeral_eq_Suc)
qed

text \<open>
  A flat loan whose total interest is small compared with the number of installments gets a
  schedule that collects too much interest and ends in a row without one: for 80 rupees at
  0.25 percent over 12 months the total interest is 20 paise, eleven rows charge two paise each,
  and the interest and the installment of the last row are not numbers.
\<close>
theorem flat_small_interest_breaks:
  "\<exists>s. buildFlatRateSchedule 80 (1/4) 12 6 2025 = Inr s \<and> ls_totalInterest s = paise 20
    \<and> map ir_interestPart (ls_installments s) = replicate 11 (Some (paise 2)) @ [None]
    \<and> ir_emiAmount (ls_installments s ! 11) = None"
proof -
  have P: "paise 8000 = 80" using paise_rupees[of 80] by simp
  have p20: "paise 20 = fl (1/5)" by (simp add: paise_def jdiv_def)
  have I: "flat_interest 80 (1/4) 12 = paise 20"
  proof -
    have "flat_interest 80 (1/4) 12 = round2 (paise 20)" by (simp add: flat_interest_def jmul_def jdiv_def p20)
    then show ?thesis by (simp add: money_max_def)
  qed
  define x where "x = jdiv (paise 20) 12"
  have "\<bar>paise 20 - 1/5\<bar> \<le> 1/10000" using paise_close[of 20] by (simp add: money_max_def)
  then have p: "199/1000 \<le> paise 20" "paise 20 \<le> 201/1000" by linarith+
  have "\<bar>x - paise 20 / 12\<bar> \<le> \<bar>paise 20 / 12\<bar> / 2 ^ 53" unfolding x_def jdiv_def by (rule fl_error)
  also have "\<dots> \<le> 1/100000" using p by simp
  finally have x: "16/1000 \<le> x" "x \<le> 17/1000" using p by linarith+
  obtain b where b: "round2 x = paise b" "\<bar>of_int b - 100 * x\<bar> \<le> 1/2 + 1/200" using round2_error[of x] x by auto
  have "(1::rat) < of_int b" "of_int b < (3::rat)" using b(2) x by linarith+
  then have "b = 2" by simp
  with b have b: "round2 (jdiv (paise 20) 12) = paise 2" by (simp add: x_def)
  obtain ks where ks: "buildInstallmentSchedule 80 (Some 12) None = Inr (map paise ks)"
    using parts_of_count[of 12 8000] P by auto
  have "buildInstallmentSchedule (paise 20) (Some 12) None = Inr (replicate 11 (paise 2))"
    using b installment_parts_paise[of 20 2 12] by (simp add: buildInstallmentSchedule_def)
  with I ks have "\<exists>s. buildFlatRateSchedule 80 (1/4) 12 6 2025 = Inr s \<and> ls_totalInterest s = paise 20
    \<and> ls_installments s = flat_rows (map paise ks) (replicate 11 (paise 2)) 12 0 6 2025 (Some (round2 80))"
    by (simp add: buildFlatRateSchedule_def jdiv_def Let_def)
  then obtain s where s: "buildFlatRateSchedule 80 (1/4) 12 6 2025 = Inr s" "ls_totalInterest s = paise 20"
    "ls_installments s = flat_rows (map paise ks) (replicate 11 (paise 2)) 12 0 6 2025 (Some (round2 80))" by blast
  have r: "map ir_interestPart (ls_installments s) = replicate 11 (Some (paise 2)) @ [None]"
    unfolding s(3) flat_rows_interest
    by (simp add: upt_conv_Cons nth_opt_def lift1_def money_max_def numeral_eq_Suc)
  have len: "length (ls_installments s) = 12" by (simp add: s(3))
  then have "ir_interestPart (ls_installments s ! 11) = map ir_interestPart (ls_installments s) ! 11" by simp
  also have "\<dots> = None" unfolding r by (simp add: nth_append)
  finally have nan: "ir_interestPart (ls_installments s ! 11) = None" .
  have "ls_installments s ! 11 \<in> set (ls_installments s)" using len by simp
  from this nan have "ir_emiAmount (ls_installments s ! 11) = None" unfolding s(3) by (rule flat_rows_nan)
  with s r show ?thesis by blast
qed

end
