(* ===== verification/SalaryCompute.thy ===== *)
theory SalaryCompute
  imports Money JsDate JsString
begin

text \<open>
  The arithmetic of a monthly salary in \<open>salary/salary.service.ts\<close>: the employment window and
  the day basis of a member, attendance and leave credit, the minute-accurate loss of pay, the
  piece-rate earnings and the net salary.  Everything here is a function of what the service has
  read; the reads and writes are in the theory of the salary store.  The service computes with
  local dates: \<open>tz\<close> is the offset of its zone in milliseconds, the same all year round.
\<close>

section \<open>Members, settings and rows\<close>

datatype salary_type = Monthly | Hourly | Piece_rate
datatype day_basis = Fixed_month_days | Calendar_month_days
datatype attendance_pay_mode = Mode_default | Mode_enabled | Mode_disabled
datatype piece_unit = Per_piece | Per_thousand_stitches | Per_design_completed | Blended

record piece_rate_config =
  pr_unit :: piece_unit
  pr_defaultRate :: rat
  pr_basePortion :: "rat option"
  pr_perMachineOverrides :: "(string \<times> rat) list"

record pay_member =
  pm_id :: string
  pm_workspaceId :: string
  pm_isActive :: bool
  pm_isDeleted :: bool
  pm_reportsTo :: "string option"
  pm_dateOfJoining :: "date option"
  pm_dateOfResignation :: "date option"
  pm_salaryType :: "salary_type option"
  pm_salaryAmount :: "rat option"
  pm_dailyHours :: "rat option"
  pm_salaryDayBasis :: "day_basis option"
  pm_fixedMonthDays :: "rat option"
  pm_workingDays :: "rat option"
  pm_attendancePayMode :: "attendance_pay_mode option"
  pm_finalMonthlyOverride :: "rat option"
  pm_ctcAmount :: "rat option"
  pm_componentTemplateId :: "string option"
  pm_pieceRateConfig :: "piece_rate_config option"
  pm_shiftId :: "string option"
  pm_employmentType :: "string option"
  pm_pfApplicable :: "bool option"
  pm_pfOptedOut :: bool
  pm_esiApplicable :: bool
  pm_stateOfEmployment :: string
  pm_taxOld :: bool
  pm_pan :: string
  pm_isNonItrFiler :: bool

record pay_rules =
  ru_attendanceBasedPay :: bool \<comment> \<open>\<open>features.attendanceBasedPay !== false\<close>\<close>
  ru_defaultWorkingDays :: "rat option"
  ru_attendanceDefaultDisabled :: bool
  ru_holidayCountsAsPresent :: bool
  ru_weekOffCountsAsPresent :: bool
  ru_lateMarkAsHalfDay :: bool

record attendance_row =
  ar_teamMemberId :: string
  ar_date :: date
  ar_status :: string
  ar_workedMinutes :: "rat option"

section \<open>Local dates\<close>

definition local_midnight :: "int \<Rightarrow> int \<Rightarrow> int \<Rightarrow> int \<Rightarrow> date" where
  \<comment> \<open>\<open>new Date(year, month, day)\<close>, months from 0\<close>
  "local_midnight tz year month d = make_day year month d * ms_per_day - tz"

definition local_day :: "int \<Rightarrow> date \<Rightarrow> int" where
  "local_day tz t = day_of (t + tz)"

definition getMonthLength :: "int \<Rightarrow> int \<Rightarrow> int" where
  \<comment> \<open>\<open>new Date(year, month, 0).getDate()\<close>\<close>
  "getMonthLength month year = mday_of_day (make_day year month 0)"

definition countCalendarDaysInclusive :: "int \<Rightarrow> date \<Rightarrow> date \<Rightarrow> int" where
  "countCalendarDaysInclusive tz start stop =
     (let startUtc = local_day tz start * ms_per_day; endUtc = local_day tz stop * ms_per_day
      in max 0 ((endUtc - startUtc) div ms_per_day + 1))"

record employment_window =
  ew_activeStart :: date
  ew_activeEnd :: date
  ew_monthLength :: int
  ew_activeCalendarDays :: int

definition resolveEmploymentWindow :: "int \<Rightarrow> pay_member \<Rightarrow> int \<Rightarrow> int \<Rightarrow> employment_window" where
  "resolveEmploymentWindow tz m month year =
     (let firstDay = local_midnight tz year (month - 1) 1;
          lastDay = local_midnight tz year month 0 + (ms_per_day - 1);
          start = (case pm_dateOfJoining m of Some d \<Rightarrow> if d > firstDay then d else firstDay | None \<Rightarrow> firstDay);
          stop = (case pm_dateOfResignation m of Some d \<Rightarrow> if d < lastDay then d else lastDay | None \<Rightarrow> lastDay);
          activeStart = local_day tz start * ms_per_day - tz;
          activeEnd = local_day tz stop * ms_per_day + (ms_per_day - 1) - tz
      in \<lparr>ew_activeStart = activeStart, ew_activeEnd = activeEnd, ew_monthLength = getMonthLength month year,
          ew_activeCalendarDays = (if activeStart > activeEnd then 0 else countCalendarDaysInclusive tz activeStart activeEnd)\<rparr>)"

section \<open>The basis of the month\<close>

definition or_else :: "rat \<Rightarrow> rat \<Rightarrow> rat" where
  \<comment> \<open>\<open>x || d\<close> on numbers\<close>
  "or_else x d = (if x = 0 then d else x)"

record salary_context =
  sc_window :: employment_window
  sc_salaryDayBasis :: day_basis
  sc_fixedMonthDays :: "rat option"
  sc_basisDays :: rat
  sc_attendancePay :: bool \<comment> \<open>\<open>attendancePayModeApplied === 'enabled'\<close>\<close>

definition resolveSalaryCalculationContext :: "int \<Rightarrow> pay_member \<Rightarrow> int \<Rightarrow> int \<Rightarrow> pay_rules \<Rightarrow> bool \<Rightarrow> salary_context" where
  "resolveSalaryCalculationContext tz m month year config attendanceModuleEnabled =
     (let w = resolveEmploymentWindow tz m month year;
          basis = (if pm_salaryDayBasis m = Some Calendar_month_days then Calendar_month_days else Fixed_month_days);
          defaultWorkingDays = max 1 (min 31 (or_else (coalesce (ru_defaultWorkingDays config) 26) 26));
          fixedMonthDays = (if basis = Fixed_month_days
             then Some (max 1 (min 31 (or_else (coalesce (pm_fixedMonthDays m) (coalesce (pm_workingDays m) defaultWorkingDays)) defaultWorkingDays)))
             else None);
          basisDays = (if basis = Calendar_month_days then of_int (ew_monthLength w) else coalesce fixedMonthDays defaultWorkingDays);
          configured = (case pm_attendancePayMode m of Some Mode_enabled \<Rightarrow> Mode_enabled | Some Mode_disabled \<Rightarrow> Mode_disabled
                          | _ \<Rightarrow> Mode_default);
          featureEnabled = (ru_attendanceBasedPay config \<and> attendanceModuleEnabled);
          applied = (featureEnabled \<and> (if configured = Mode_default then \<not> ru_attendanceDefaultDisabled config
                                        else configured = Mode_enabled))
      in \<lparr>sc_window = w, sc_salaryDayBasis = basis, sc_fixedMonthDays = fixedMonthDays, sc_basisDays = basisDays,
          sc_attendancePay = applied\<rparr>)"

definition resolveEffectiveMonthlySalary :: "pay_member \<Rightarrow> int \<Rightarrow> int \<Rightarrow> rat option \<Rightarrow> rat" where
  \<comment> \<open>with the month and the year given by the caller\<close>
  "resolveEffectiveMonthlySalary m month year defaultDays =
     (if coalesce (pm_salaryType m) Monthly \<noteq> Hourly then max 0 (coalesce (pm_salaryAmount m) 0)
      else case pm_finalMonthlyOverride m of
        Some v \<Rightarrow> max 0 v
      | None \<Rightarrow>
          (let hourlyRate = max 0 (coalesce (pm_salaryAmount m) 0);
               dailyHours = max 0 (coalesce (pm_dailyHours m) 0);
               defaultWorkingDays = max 1 (min 31 (coalesce defaultDays 26));
               basisDays = (if pm_salaryDayBasis m = Some Calendar_month_days then of_int (getMonthLength month year)
                 else max 0 (or_else (coalesce (pm_fixedMonthDays m) (coalesce (pm_workingDays m) defaultWorkingDays)) defaultWorkingDays))
           in roundCurrency (jmul (jmul hourlyRate dailyHours) basisDays)))"

definition calculateNetSalary :: "rat \<Rightarrow> rat \<Rightarrow> rat \<Rightarrow> rat \<Rightarrow> rat \<Rightarrow> rat \<Rightarrow> rat" where
  "calculateNetSalary baseSalary totalDays presentDays additions deductions pieceEarnings =
     (let perDay = (if totalDays > 0 then jdiv baseSalary totalDays else 0);
          calculatedNet = jsub (jadd (jadd (jmul perDay presentDays) pieceEarnings) additions) deductions
      in roundCurrency (max 0 calculatedNet))"

section \<open>Attendance\<close>

record attendance_breakdown =
  ab_creditedDays :: rat
  ab_payableDays :: rat
  ab_present :: nat
  ab_late :: nat
  ab_half_day :: nat
  ab_absent :: nat
  ab_on_leave :: nat
  ab_holiday :: nat
  ab_week_off :: nat

definition count_status :: "attendance_row list \<Rightarrow> string \<Rightarrow> nat" where
  "count_status rows s = length (filter (\<lambda>r. ar_status r = s) rows)"

definition buildPayrollAttendanceBreakdown :: "attendance_row list \<Rightarrow> int \<Rightarrow> int \<Rightarrow> attendance_breakdown" where
  "buildPayrollAttendanceBreakdown rows month year =
     (let present = count_status rows ''present''; late = count_status rows ''late''; half_day = count_status rows ''half_day'';
          holiday = count_status rows ''holiday''; week_off = count_status rows ''week_off''
      in \<lparr>ab_creditedDays = jadd (of_nat (present + late)) (jmul (of_nat half_day) (1/2)),
          ab_payableDays = of_int (max 0 (getMonthLength month year - int (holiday + week_off))),
          ab_present = present, ab_late = late, ab_half_day = half_day, ab_absent = count_status rows ''absent'',
          ab_on_leave = count_status rows ''on_leave'', ab_holiday = holiday, ab_week_off = week_off\<rparr>)"

record leave_segment =
  sg_date :: date
  sg_leaveTypeId :: string
  sg_quantity :: rat

definition sumPaidLeaveCredit :: "leave_segment list \<Rightarrow> (string \<Rightarrow> bool option) \<Rightarrow> date \<Rightarrow> date \<Rightarrow> rat" where
  "sumPaidLeaveCredit segments isPaidByTypeId windowStart windowEnd =
     foldl (\<lambda>credit seg.
         if sg_date seg < windowStart \<or> sg_date seg > windowEnd then credit
         else if isPaidByTypeId (sg_leaveTypeId seg) = Some True then jadd credit (sg_quantity seg) else credit) 0 segments"

section \<open>Minute-accurate loss of pay\<close>

definition string_number :: "string \<Rightarrow> rat option" where
  \<comment> \<open>\<open>Number(s)\<close> for decimal numerals; exponents, hexadecimal numbers and \<open>Infinity\<close> are not read\<close>
  "string_number s =
     (let t = trim s; neg = (t \<noteq> [] \<and> hd t = CHR ''-'');
          u = (if t \<noteq> [] \<and> (hd t = CHR ''-'' \<or> hd t = CHR ''+'') then tl t else t);
          ok = (\<lambda>ds. list_all is_digit ds); sgn = (\<lambda>x. if neg then - x else x)
      in if t = [] then Some 0
         else case split_on CHR ''.'' u of
           [a] \<Rightarrow> if a \<noteq> [] \<and> ok a then Some (sgn (fl (of_int (digits_val a)))) else None
         | [a, b] \<Rightarrow> if (a \<noteq> [] \<or> b \<noteq> []) \<and> ok a \<and> ok b
             then Some (sgn (fl (of_int (digits_val (a @ b)) / 10 ^ length b))) else None
         | _ \<Rightarrow> None)"

definition hhmm_minutes :: "string \<Rightarrow> rat option" where
  \<comment> \<open>hours and minutes as numbers; a missing or unreadable part makes the duration \<open>NaN\<close>\<close>
  "hhmm_minutes s = (case split_on CHR '':'' s of
       h # m # _ \<Rightarrow> (case (string_number h, string_number m) of
           (Some a, Some b) \<Rightarrow> Some (jadd (jmul a 60) b) | _ \<Rightarrow> None)
     | _ \<Rightarrow> None)"

definition shift_minutes :: "(string \<times> string) option \<Rightarrow> rat" where
  \<comment> \<open>\<open>resolveShiftDurationMinutes\<close> from the times of the shift of the member\<close>
  "shift_minutes shift = (case shift of
       None \<Rightarrow> 480
     | Some (startTime, endTime) \<Rightarrow>
         if startTime = [] \<or> endTime = [] then 480
         else (case (hhmm_minutes startTime, hhmm_minutes endTime) of
             (Some startMin, Some endMin0) \<Rightarrow>
               (let endMin = (if endMin0 \<le> startMin then jadd endMin0 1440 else endMin0);
                    duration = jsub endMin startMin
                in if duration > 0 then duration else 480)
           | _ \<Rightarrow> 480))"

record late_policy =
  lp_countAsLop :: bool
  lp_lopAfterNLateDays :: "nat option"

definition minutes_of :: "attendance_row \<Rightarrow> rat" where
  "minutes_of r = coalesce (ar_workedMinutes r) 0"

definition forgiven_shortfall :: "attendance_row list \<Rightarrow> nat \<Rightarrow> rat \<Rightarrow> rat" where
  "forgiven_shortfall rows graceLateDays shiftMinutes =
     js_sum (map (\<lambda>r. max 0 (jsub shiftMinutes (minutes_of r)))
       (take graceLateDays (sort_key ar_date (filter (\<lambda>r. ar_status r = ''late'') rows))))"

definition calculateMinuteAccurateLop ::
  "attendance_row list \<Rightarrow> rat \<Rightarrow> late_policy option \<Rightarrow> rat \<Rightarrow> int \<Rightarrow> int \<Rightarrow> rat" where
  "calculateMinuteAccurateLop rows baseSalary policy shiftMinutes month year =
     (let eligible = filter (\<lambda>r. ar_status r \<noteq> ''half_day'' \<and> ar_status r \<noteq> ''on_leave'') rows;
          withMinutes = filter (\<lambda>r. ar_workedMinutes r \<noteq> None) eligible
      in if of_nat (length withMinutes) < (of_nat (length eligible) / 2 :: rat) then 0
         else case policy of None \<Rightarrow> 0 | Some p \<Rightarrow>
           if \<not> lp_countAsLop p then 0
           else (let total = jmul shiftMinutes (of_int (getMonthLength month year))
             in if total \<le> 0 then 0
                else (let worked = js_sum (map minutes_of withMinutes);
                          expected = jmul shiftMinutes (of_nat (length withMinutes));
                          lop0 = max 0 (jsub expected worked);
                          grace = coalesce (lp_lopAfterNLateDays p) 0;
                          lop = (if grace > 0 \<and> lop0 > 0
                                 then max 0 (jsub lop0 (forgiven_shortfall withMinutes grace shiftMinutes)) else lop0)
                      in if lop \<le> 0 then 0 else jmul (jdiv baseSalary total) lop)))"

section \<open>Piece-rate earnings\<close>

record production_log =
  pl_id :: nat
  pl_workspaceId :: string
  pl_teamMemberId :: string
  pl_machineId :: string
  pl_date :: string
  pl_pieceCount :: "rat option"
  pl_stitchCount :: "rat option"
  pl_hoursLogged :: "rat option"
  pl_isDeleted :: bool

record machine_meta =
  mm_machineCode :: string
  mm_primaryMetric :: string

record piece_row =
  pw_logId :: nat
  pw_date :: string
  pw_machineId :: string
  pw_machineCode :: string
  pw_metricLabel :: string
  pw_qty :: rat
  pw_rate :: rat
  pw_amount :: rat

definition month_boundary :: "int \<Rightarrow> int \<Rightarrow> string \<times> string" where
  "month_boundary month year =
     (let mm = pad2 (int_str month); prefix = int_str year @ ''-'' @ mm @ ''-''
      in (prefix @ ''01'', prefix @ pad2 (int_str (getMonthLength month year))))"

definition piece_quantity :: "piece_unit \<Rightarrow> string \<Rightarrow> production_log \<Rightarrow> rat \<times> string" where
  "piece_quantity unit primary lg =
     (let pieces = coalesce (pl_pieceCount lg) 0; thousands = jdiv (coalesce (pl_stitchCount lg) 0) 1000 in
      case unit of
        Per_piece \<Rightarrow> (pieces, ''pieces'')
      | Per_thousand_stitches \<Rightarrow> (thousands, ''stitches/1000'')
      | Per_design_completed \<Rightarrow> (pieces, ''designs'')
      | Blended \<Rightarrow> if primary = ''stitches'' then (thousands, ''stitches/1000'')
                   else if primary = ''hours'' then (coalesce (pl_hoursLogged lg) 0, ''hours'')
                   else (pieces, ''pieces''))"

definition piece_row_of :: "piece_rate_config \<Rightarrow> (string \<Rightarrow> machine_meta option) \<Rightarrow> production_log \<Rightarrow> piece_row" where
  "piece_row_of cfg machines lg =
     (let meta = machines (pl_machineId lg);
          rate = coalesce (map_of (rev (pr_perMachineOverrides cfg)) (pl_machineId lg)) (pr_defaultRate cfg);
          (qty, label) = piece_quantity (pr_unit cfg) (case meta of None \<Rightarrow> ''pieces'' | Some m \<Rightarrow> mm_primaryMetric m) lg
      in \<lparr>pw_logId = pl_id lg, pw_date = pl_date lg, pw_machineId = pl_machineId lg,
          pw_machineCode = (case meta of None \<Rightarrow> '''' | Some m \<Rightarrow> mm_machineCode m), pw_metricLabel = label,
          pw_qty = jdiv (of_int (round (jmul qty 10000))) 10000, pw_rate = rate, pw_amount = roundCurrency (jmul qty rate)\<rparr>)"

record piece_earnings =
  pe_pieceEarnings :: rat
  pe_basePortion :: rat
  pe_snapshot :: piece_rate_config
  pe_breakdown :: "piece_row list"

fun insert_by_date :: "production_log \<Rightarrow> production_log list \<Rightarrow> production_log list" where
  "insert_by_date l [] = [l]"
| "insert_by_date l (k # ks) = (if str_le (pl_date l) (pl_date k) then l # k # ks else k # insert_by_date l ks)"

definition piece_logs :: "production_log list \<Rightarrow> string \<Rightarrow> string \<Rightarrow> int \<Rightarrow> int \<Rightarrow> production_log list" where
  \<comment> \<open>the logs of the member in the month, in the order of their dates\<close>
  "piece_logs logs ws tm month year =
     (let found = filter (\<lambda>l. pl_workspaceId l = ws \<and> pl_teamMemberId l = tm \<and> \<not> pl_isDeleted l
                     \<and> str_le (fst (month_boundary month year)) (pl_date l) \<and> str_le (pl_date l) (snd (month_boundary month year))) logs
      in foldr insert_by_date found [])"

definition piece_rate_earnings :: "piece_rate_config \<Rightarrow> (string \<Rightarrow> machine_meta option) \<Rightarrow> production_log list \<Rightarrow> piece_earnings" where
  "piece_rate_earnings cfg machines logs =
     (let rows = map (piece_row_of cfg machines) logs
      in \<lparr>pe_pieceEarnings = roundCurrency (js_sum (map pw_amount rows)), pe_basePortion = coalesce (pr_basePortion cfg) 0,
          pe_snapshot = cfg\<lparr>pr_basePortion := Some (coalesce (pr_basePortion cfg) 0)\<rparr>, pe_breakdown = rows\<rparr>)"


section \<open>The record of a month\<close>

definition credited_days :: "attendance_breakdown \<Rightarrow> rat \<Rightarrow> pay_rules \<Rightarrow> rat" where
  "credited_days b paidLeaveCredit config =
     (let c0 = min (jadd (ab_creditedDays b) paidLeaveCredit) (ab_payableDays b);
          c1 = (if ru_holidayCountsAsPresent config
                then min (jadd c0 (of_nat (ab_holiday b))) (jadd (ab_payableDays b) (of_nat (ab_holiday b))) else c0);
          c2 = (if ru_weekOffCountsAsPresent config
                then min (jadd c1 (of_nat (ab_week_off b))) (jadd (ab_payableDays b) (of_nat (ab_week_off b))) else c1)
      in if ru_lateMarkAsHalfDay config then max 0 (jsub c2 (jmul (of_nat (ab_late b)) (1/2))) else c2)"

definition full_period_base :: "pay_member \<Rightarrow> rat \<Rightarrow> rat" where
  "full_period_base m basisDays =
     (case coalesce (pm_salaryType m) Monthly of
        Piece_rate \<Rightarrow> max 0 (case pm_pieceRateConfig m of None \<Rightarrow> 0 | Some c \<Rightarrow> coalesce (pr_basePortion c) 0)
      | Hourly \<Rightarrow> (case pm_finalMonthlyOverride m of
            Some v \<Rightarrow> max 0 v
          | None \<Rightarrow> roundCurrency (jmul (jmul (max 0 (coalesce (pm_salaryAmount m) 0)) (max 0 (coalesce (pm_dailyHours m) 0))) basisDays))
      | Monthly \<Rightarrow> max 0 (coalesce (pm_salaryAmount m) 0))"

definition total_and_present :: "pay_member \<Rightarrow> salary_context \<Rightarrow> rat \<Rightarrow> rat \<times> rat" where
  "total_and_present m ctx creditedDays =
     (let salaryType = coalesce (pm_salaryType m) Monthly; w = sc_window ctx;
          monthLength = of_int (ew_monthLength w) :: rat; active = of_int (ew_activeCalendarDays w) :: rat
      in if sc_attendancePay ctx then (sc_basisDays ctx, creditedDays)
         else if salaryType = Monthly then (monthLength, active)
         else if salaryType = Hourly \<and> pm_finalMonthlyOverride m \<noteq> None then (sc_basisDays ctx, sc_basisDays ctx)
         else if sc_salaryDayBasis ctx = Calendar_month_days then (monthLength, active)
         else (sc_basisDays ctx, if active \<ge> monthLength then sc_basisDays ctx
                                 else jmul (sc_basisDays ctx) (jdiv active monthLength)))"

record salary_data =
  sd_baseSalary :: rat
  sd_totalDays :: rat
  sd_presentDays :: rat
  sd_salaryType :: salary_type
  sd_salaryDayBasis :: day_basis
  sd_fixedMonthDays :: "rat option"
  sd_attendancePay :: bool
  sd_additions :: rat
  sd_deductions :: rat
  sd_piece :: "piece_earnings option"
  sd_netSalary :: rat

definition piece_part :: "piece_earnings option \<Rightarrow> rat" where
  "piece_part p = (case p of None \<Rightarrow> 0 | Some e \<Rightarrow> pe_pieceEarnings e)"

definition salary_data_of ::
  "pay_member \<Rightarrow> salary_context \<Rightarrow> rat \<Rightarrow> rat \<Rightarrow> rat \<Rightarrow> piece_earnings option \<Rightarrow> salary_data" where
  \<comment> \<open>from the credited days, the additions, the adjusted deductions and the piece-rate earnings\<close>
  "salary_data_of m ctx creditedDays additions deductions piece =
     (let base = full_period_base m (sc_basisDays ctx); (totalDays, presentDays) = total_and_present m ctx creditedDays
      in \<lparr>sd_baseSalary = base, sd_totalDays = totalDays, sd_presentDays = presentDays,
          sd_salaryType = coalesce (pm_salaryType m) Monthly, sd_salaryDayBasis = sc_salaryDayBasis ctx,
          sd_fixedMonthDays = sc_fixedMonthDays ctx, sd_attendancePay = sc_attendancePay ctx,
          sd_additions = additions, sd_deductions = deductions, sd_piece = piece,
          sd_netSalary = calculateNetSalary base totalDays presentDays additions deductions (piece_part piece)\<rparr>)"

end
