(* ===== verification/PayrollTax.thy ===== *)
theory PayrollTax
  imports Money JsString
begin

text \<open>
  The statutory deductions of a month: income tax at source (\<open>salary/tds.service.ts\<close>), the
  slabs of professional tax, the wages and rates of provident fund and state insurance
  (\<open>salary/salary.service.ts\<close>) and the labour welfare fund (\<open>salary/constants/lwf-rates.ts\<close>).
  A decimal literal of the source is the binary64 number nearest to it.
\<close>

section \<open>The financial year\<close>

definition getFinancialYear :: "int \<Rightarrow> int \<Rightarrow> int \<Rightarrow> int" where
  "getFinancialYear month year fyStartMonth = (if month \<ge> fyStartMonth then year else year - 1)"

record fy_months =
  fm_total :: int
  fm_elapsed :: int
  fm_remaining :: int

definition getEffectiveMonthsInFy :: "int \<Rightarrow> int \<Rightarrow> (int \<times> int) option \<Rightarrow> int \<Rightarrow> fy_months" where
  \<comment> \<open>the month and the year of joining, when both are known\<close>
  "getEffectiveMonthsInFy payrollMonth payrollYear joined fyStartMonth =
     (let fyYear = getFinancialYear payrollMonth payrollYear fyStartMonth;
          fyStart = (fyStartMonth, fyYear);
          fyEnd = (if fyStartMonth = 1 then 12 else fyStartMonth - 1, if fyStartMonth = 1 then fyYear else fyYear + 1);
          effectiveStart = (case joined of
              Some (joinMonth, joinYear) \<Rightarrow>
                if joinYear > snd fyStart \<or> joinYear = snd fyStart \<and> joinMonth > fst fyStart then (joinMonth, joinYear) else fyStart
            | None \<Rightarrow> fyStart);
          totalFyMonths = (snd fyEnd - snd effectiveStart) * 12 + (fst fyEnd - fst effectiveStart) + 1;
          monthsElapsed = (payrollYear - snd effectiveStart) * 12 + (payrollMonth - fst effectiveStart) + 1;
          monthsRemaining = max (totalFyMonths - monthsElapsed) 1
      in \<lparr>fm_total = max totalFyMonths 1, fm_elapsed = max monthsElapsed 1, fm_remaining = monthsRemaining\<rparr>)"

definition getFyMonthRange :: "int \<Rightarrow> int \<Rightarrow> (int \<times> int) list" where
  "getFyMonthRange fyYear fyStartMonth =
     map (\<lambda>i. ((fyStartMonth - 1 + int i) mod 12 + 1, if fyStartMonth + int i > 12 then fyYear + 1 else fyYear)) [0..<12]"

section \<open>Annual tax\<close>

definition surcharge_and_cess :: "rat \<Rightarrow> rat \<Rightarrow> rat" where
  "surcharge_and_cess income tax =
     (let tax' = (if income > 10000000 then jmul tax (fl (115/100))
                  else if income > 5000000 then jmul tax (fl (11/10)) else tax)
      in jmul tax' (fl (104/100)))"

definition computeTaxNewRegime :: "rat \<Rightarrow> int" where
  "computeTaxNewRegime income =
     (let tax = (if income \<le> 300000 then 0
           else if income \<le> 700000 then jmul (jsub income 300000) (fl (5/100))
           else if income \<le> 1000000 then jadd 20000 (jmul (jsub income 700000) (fl (1/10)))
           else if income \<le> 1200000 then jadd 50000 (jmul (jsub income 1000000) (fl (15/100)))
           else if income \<le> 1500000 then jadd 80000 (jmul (jsub income 1200000) (fl (2/10)))
           else jadd 140000 (jmul (jsub income 1500000) (fl (3/10))));
          tax' = surcharge_and_cess income tax
      in round (if income \<le> 700000 then 0 else tax'))"

definition computeTaxOldRegime :: "rat \<Rightarrow> int" where
  "computeTaxOldRegime income =
     (let tax = (if income \<le> 250000 then 0
           else if income \<le> 500000 then jmul (jsub income 250000) (fl (5/100))
           else if income \<le> 1000000 then jadd 12500 (jmul (jsub income 500000) (fl (2/10)))
           else jadd 112500 (jmul (jsub income 1000000) (fl (3/10))));
          tax' = surcharge_and_cess income tax
      in round (if income \<le> 500000 then 0 else tax'))"

datatype tax_regime = Old_regime | New_regime

record tax_declaration =
  td_previousEmployerGross :: "rat option"
  td_previousEmployerTds :: "rat option"
  td_hraExemption :: "rat option"
  td_deduction80C :: "rat option"
  td_deduction80D :: "rat option"
  td_deduction80G :: "rat option"
  td_deduction80CCD1B :: "rat option"
  td_deduction80TTA :: "rat option"
  td_otherDeductions :: "rat option"

record tds_params =
  tp_monthlySalary :: rat
  tp_month :: int
  tp_year :: int
  tp_joined :: "(int \<times> int) option"
  tp_fyStartMonth :: int
  tp_declaration :: "tax_declaration option"
  tp_regime :: tax_regime
  tp_tdsDedutedSoFar :: rat
  tp_hasPan :: bool
  tp_isNonItrFiler :: bool

definition or_zero :: "rat option \<Rightarrow> rat" where
  \<comment> \<open>\<open>x || 0\<close>\<close>
  "or_zero x = coalesce x 0"

definition declared :: "tax_declaration option \<Rightarrow> (tax_declaration \<Rightarrow> rat option) \<Rightarrow> rat" where
  "declared d f = (case d of None \<Rightarrow> 0 | Some t \<Rightarrow> or_zero (f t))"

definition old_regime_deductions :: "tax_declaration \<Rightarrow> rat \<Rightarrow> rat" where
  "old_regime_deductions t grossAnnualIncome =
     jadd (jadd (jadd (jadd (jadd (jadd
       (min (or_zero (td_hraExemption t)) (jmul grossAnnualIncome (1/2)))
       (min (or_zero (td_deduction80C t)) 150000))
       (or_zero (td_deduction80D t)))
       (or_zero (td_deduction80G t)))
       (min (or_zero (td_deduction80CCD1B t)) 50000))
       (min (or_zero (td_deduction80TTA t)) 10000))
       (or_zero (td_otherDeductions t))"

definition gross_annual_income :: "tds_params \<Rightarrow> rat" where
  "gross_annual_income p =
     jadd (jmul (tp_monthlySalary p)
            (of_int (fm_total (getEffectiveMonthsInFy (tp_month p) (tp_year p) (tp_joined p) (tp_fyStartMonth p)))))
          (declared (tp_declaration p) td_previousEmployerGross)"

definition taxable_income :: "tax_regime \<Rightarrow> tax_declaration option \<Rightarrow> rat \<Rightarrow> rat" where
  "taxable_income regime declaration gross =
     (let standardDeduction = (if regime = New_regime then 75000 else 50000);
          taxable = max (jsub gross standardDeduction) 0
      in case declaration of
           Some t \<Rightarrow> if regime = Old_regime then max (jsub taxable (old_regime_deductions t gross)) 0 else taxable
         | None \<Rightarrow> taxable)"

definition tax_on :: "bool \<Rightarrow> tax_regime \<Rightarrow> rat \<Rightarrow> int" where
  "tax_on hasPan regime taxable =
     (if hasPan
      then (if regime = New_regime then computeTaxNewRegime taxable else computeTaxOldRegime taxable)
      else round (jmul taxable (fl (2/10))))"

definition annual_tax :: "tds_params \<Rightarrow> int" where
  "annual_tax p = tax_on (tp_hasPan p) (tp_regime p)
     (taxable_income (tp_regime p) (tp_declaration p) (gross_annual_income p))"

definition computeMonthlyTds :: "tds_params \<Rightarrow> int" where
  "computeMonthlyTds p =
     (let monthsRemaining = fm_remaining (getEffectiveMonthsInFy (tp_month p) (tp_year p) (tp_joined p) (tp_fyStartMonth p));
          tdsPaidThisFy = jadd (tp_tdsDedutedSoFar p) (declared (tp_declaration p) td_previousEmployerTds);
          remainingTax = max (jsub (of_int (annual_tax p)) tdsPaidThisFy) 0;
          monthlyTds = round (jdiv remainingTax (of_int monthsRemaining))
      in if tp_isNonItrFiler p
         then max (max monthlyTds (round (jdiv (jmul (gross_annual_income p) (fl (2/10))) 12))) 0
         else max monthlyTds 0)"

section \<open>Professional tax, provident fund, insurance, welfare fund\<close>

record pt_slab =
  ps_minSalary :: rat
  ps_maxSalary :: "rat option"
  ps_ptAmount :: rat

fun calculatePtAmount :: "rat \<Rightarrow> pt_slab list \<Rightarrow> rat" where
  "calculatePtAmount gross [] = 0"
| "calculatePtAmount gross (slab # slabs) =
     (if gross \<ge> ps_minSalary slab \<and> (case ps_maxSalary slab of None \<Rightarrow> True | Some m \<Rightarrow> gross \<le> m)
      then ps_ptAmount slab else calculatePtAmount gross slabs)"

record lwf_rate =
  lr_state :: string
  lr_employeeAmount :: rat
  lr_employerAmount :: rat
  lr_deductionMonths :: "int list"

definition lwf :: "string \<Rightarrow> rat \<Rightarrow> rat \<Rightarrow> int list \<Rightarrow> lwf_rate" where
  "lwf s a b ms = \<lparr>lr_state = s, lr_employeeAmount = a, lr_employerAmount = b, lr_deductionMonths = ms\<rparr>"

definition LWF_RATES :: "lwf_rate list" where
  "LWF_RATES = [
     lwf ''Gujarat'' 3 6 [6, 12],
     lwf ''Maharashtra'' 6 12 [6, 12],
     lwf ''Karnataka'' 20 40 [6, 12],
     lwf ''Telangana'' 2 3 [6, 12],
     lwf ''Tamil Nadu'' 10 20 [6, 12],
     lwf ''West Bengal'' 3 15 [12],
     lwf ''Kerala'' 4 8 [6, 12],
     lwf ''Madhya Pradesh'' 10 35 [6, 12],
     lwf ''Andhra Pradesh'' 0 0 []]"

definition getLwfRate :: "string \<Rightarrow> lwf_rate option" where
  "getLwfRate state = (if state = '''' then None
     else List.find (\<lambda>r. to_lower (lr_state r) = to_lower (trim state) \<and> lr_employeeAmount r > 0) LWF_RATES)"

definition isLwfDeductionMonth :: "string \<Rightarrow> int \<Rightarrow> bool" where
  "isLwfDeductionMonth state month = (case getLwfRate state of None \<Rightarrow> False | Some r \<Rightarrow> month \<in> set (lr_deductionMonths r))"

section \<open>A financial year of deductions\<close>

definition month_of_fy :: "int \<Rightarrow> int \<Rightarrow> nat \<Rightarrow> int \<times> int" where
  "month_of_fy fyYear fyStartMonth i = getFyMonthRange fyYear fyStartMonth ! i"

definition in_month :: "tds_params \<Rightarrow> int \<times> int \<Rightarrow> rat \<Rightarrow> tds_params" where
  "in_month p my soFar = p\<lparr>tp_month := fst my, tp_year := snd my, tp_tdsDedutedSoFar := soFar\<rparr>"

primrec deducted_after :: "tds_params \<Rightarrow> int \<Rightarrow> nat \<Rightarrow> int" where
  \<comment> \<open>what is deducted in the first \<open>n\<close> months when each deducts what the service computes\<close>
  "deducted_after p fyYear 0 = 0"
| "deducted_after p fyYear (Suc i) = deducted_after p fyYear i
     + computeMonthlyTds (in_month p (month_of_fy fyYear (tp_fyStartMonth p) i) (of_int (deducted_after p fyYear i)))"

lemma fy_month:
  assumes "1 \<le> s" "s \<le> 12" "i < 12"
  shows "getFinancialYear (fst (month_of_fy y s i)) (snd (month_of_fy y s i)) s = y"
    "(snd (month_of_fy y s i) - y) * 12 + (fst (month_of_fy y s i) - s) = int i"
proof -
  have m: "month_of_fy y s i = ((s - 1 + int i) mod 12 + 1, if s + int i > 12 then y + 1 else y)"
    using assms(3) by (simp add: month_of_fy_def getFyMonthRange_def)
  have r: "(s - 1 + int i) mod 12 = (if s + int i > 12 then s - 13 + int i else s - 1 + int i)"
  proof (cases "s + int i > 12")
    case True
    have "s - 1 + int i = (s - 13 + int i) + 12" by simp
    then have "(s - 1 + int i) mod 12 = (s - 13 + int i) mod 12" by (metis mod_add_self2)
    then show ?thesis using True assms by simp
  next
    case False
    then show ?thesis using assms by simp
  qed
  show "getFinancialYear (fst (month_of_fy y s i)) (snd (month_of_fy y s i)) s = y"
    using assms by (auto simp: m r getFinancialYear_def)
  show "(snd (month_of_fy y s i) - y) * 12 + (fst (month_of_fy y s i) - s) = int i"
    using assms by (auto simp: m r)
qed

lemma effective_months:
  assumes "1 \<le> s" "s \<le> 12" "i < 12"
  shows "fm_total (getEffectiveMonthsInFy (fst (month_of_fy y s i)) (snd (month_of_fy y s i)) None s) = 12"
    "fm_remaining (getEffectiveMonthsInFy (fst (month_of_fy y s i)) (snd (month_of_fy y s i)) None s) = max (11 - int i) 1"
  using fy_month[OF assms, of y] assms by (auto simp: getEffectiveMonthsInFy_def Let_def)


section \<open>The months of a year collect its tax\<close>

lemma surcharge_nonneg: "0 \<le> tax \<Longrightarrow> 0 \<le> surcharge_and_cess income tax"
  by (simp add: surcharge_and_cess_def Let_def jmul_def)

lemma round_nonneg: "0 \<le> (x :: rat) \<Longrightarrow> 0 \<le> round x"
  by (simp add: round_def)

lemma tax_nonneg: "0 \<le> computeTaxNewRegime x" "0 \<le> computeTaxOldRegime x"
  unfolding computeTaxNewRegime_def computeTaxOldRegime_def Let_def
  by (auto intro!: round_nonneg surcharge_nonneg simp: jmul_def jadd_def jsub_def)

lemma taxable_income_nonneg: "0 \<le> taxable_income r d g"
  by (simp add: taxable_income_def Let_def split: option.split)

lemma annual_tax_nonneg: "0 \<le> annual_tax p"
  by (auto simp: annual_tax_def tax_on_def tax_nonneg jmul_def taxable_income_nonneg intro!: round_nonneg)

lemma in_month_sel [simp]:
  "tp_joined (in_month p my d) = tp_joined p" "tp_fyStartMonth (in_month p my d) = tp_fyStartMonth p"
  "tp_monthlySalary (in_month p my d) = tp_monthlySalary p" "tp_declaration (in_month p my d) = tp_declaration p"
  "tp_regime (in_month p my d) = tp_regime p" "tp_hasPan (in_month p my d) = tp_hasPan p"
  "tp_isNonItrFiler (in_month p my d) = tp_isNonItrFiler p" "tp_month (in_month p my d) = fst my"
  "tp_year (in_month p my d) = snd my" "tp_tdsDedutedSoFar (in_month p my d) = d"
  by (simp_all add: in_month_def)

text \<open>The tax of the year does not depend on the month that is being paid.\<close>

lemma annual_tax_same:
  assumes "1 \<le> tp_fyStartMonth p" "tp_fyStartMonth p \<le> 12" "tp_joined p = None" "i < 12"
  shows "annual_tax (in_month p (month_of_fy y (tp_fyStartMonth p) i) d)
      = annual_tax (in_month p (month_of_fy y (tp_fyStartMonth p) 0) 0)"
proof -
  have "gross_annual_income (in_month p (month_of_fy y (tp_fyStartMonth p) j) e)
      = jadd (jmul (tp_monthlySalary p) 12) (declared (tp_declaration p) td_previousEmployerGross)" if "j < 12" for j e
    using effective_months(1)[OF assms(1,2) that] assms(3) by (simp add: gross_annual_income_def)
  from this[OF assms(4)] this[of 0] show ?thesis by (simp add: annual_tax_def)
qed

lemma share_bounds:
  assumes "0 \<le> r" "r \<le> 2 ^ 53" "1 \<le> m"
  shows "0 \<le> round (jdiv (of_int r) (of_int m :: rat))" "round (jdiv (of_int r) (of_int m :: rat)) \<le> r"
    "round (jdiv (of_int r) (1 :: rat)) = r"
proof -
  have m: "(1 :: rat) \<le> of_int m" and r0: "(0 :: rat) \<le> of_int r" using assms by simp_all
  have q: "(of_int r / of_int m :: rat) \<le> of_int r"
    using mult_left_mono[OF m r0] m by (simp add: divide_le_eq)
  have "fl (of_int r / of_int m) \<le> of_int r" by (rule fl_le_int[OF q]) (use assms in simp)
  then show "round (jdiv (of_int r) (of_int m :: rat)) \<le> r"
    by (simp add: jdiv_def) (metis round_mono round_of_int)
  show "0 \<le> round (jdiv (of_int r) (of_int m :: rat))"
    by (rule round_nonneg) (use m r0 in \<open>simp add: jdiv_def\<close>)
  show "round (jdiv (of_int r) (1 :: rat)) = r" using assms by (simp add: jdiv_def fl_of_int)
qed

lemma computeMonthlyTds_int:
  assumes "\<not> tp_isNonItrFiler p" "tp_tdsDedutedSoFar p = of_int d" "declared (tp_declaration p) td_previousEmployerTds = of_int P"
    "0 \<le> d" "0 \<le> P" "d \<le> 2 ^ 51" "P \<le> 2 ^ 51" "annual_tax p \<le> 2 ^ 51"
    "m = fm_remaining (getEffectiveMonthsInFy (tp_month p) (tp_year p) (tp_joined p) (tp_fyStartMonth p))" "1 \<le> m"
  shows "computeMonthlyTds p = round (jdiv (of_int (max (annual_tax p - (d + P)) 0)) (of_int m))"
proof -
  have a: "jadd (of_int d) (of_int P) = of_int (d + P)"
    unfolding jadd_def of_int_add[symmetric] by (rule fl_of_int) (use assms in simp)
  have b: "jsub (of_int (annual_tax p)) (of_int (d + P)) = of_int (annual_tax p - (d + P))"
    unfolding jsub_def of_int_diff[symmetric] by (rule fl_of_int) (use assms annual_tax_nonneg[of p] in simp)
  have c: "max (of_int k) (0 :: rat) = of_int (max k 0)" for k by (simp add: max_def)
  have r: "0 \<le> max (annual_tax p - (d + P)) 0" "max (annual_tax p - (d + P)) 0 \<le> 2 ^ 53" using assms by simp_all
  show ?thesis unfolding computeMonthlyTds_def Let_def assms(2,3) a b c assms(9)[symmetric]
    using assms(1) share_bounds(1)[OF r assms(10)] by (simp add: max_absorb1)
qed


text \<open>One month on: what is still owed shrinks by the deduction and never becomes negative.\<close>

lemma deducted_step:
  fixes p :: tds_params and y P T :: int
  assumes s: "1 \<le> tp_fyStartMonth p" "tp_fyStartMonth p \<le> 12" and nj: "tp_joined p = None"
    and itr: "\<not> tp_isNonItrFiler p" and P: "declared (tp_declaration p) td_previousEmployerTds = of_int P" "0 \<le> P" "P \<le> 2 ^ 51"
    and T: "T = annual_tax (in_month p (month_of_fy y (tp_fyStartMonth p) 0) 0)" "T \<le> 2 ^ 51" and i: "i < 12"
    and d: "0 \<le> deducted_after p y i" "deducted_after p y i \<le> max (T - P) 0"
  shows "deducted_after p y (Suc i) = deducted_after p y i
      + round (jdiv (of_int (max (T - P) 0 - deducted_after p y i)) (of_int (max (11 - int i) 1)))"
proof -
  let ?q = "in_month p (month_of_fy y (tp_fyStartMonth p) i) (of_int (deducted_after p y i))"
  have t: "annual_tax ?q = T" using annual_tax_same[OF s nj i] T by simp
  have T0: "0 \<le> T" unfolding T by (rule annual_tax_nonneg)
  have m: "fm_remaining (getEffectiveMonthsInFy (tp_month ?q) (tp_year ?q) (tp_joined ?q) (tp_fyStartMonth ?q)) = max (11 - int i) 1"
    using effective_months(2)[OF s i] nj by simp
  have "computeMonthlyTds ?q = round (jdiv (of_int (max (annual_tax ?q - (deducted_after p y i + P)) 0)) (of_int (max (11 - int i) 1)))"
    by (rule computeMonthlyTds_int) (use itr P d T0 T(2) t m in auto)
  moreover have "max (T - (deducted_after p y i + P)) 0 = max (T - P) 0 - deducted_after p y i" using d by linarith
  ultimately show ?thesis using t by simp
qed

lemma deducted_bounds:
  fixes p :: tds_params and y P T :: int
  assumes s: "1 \<le> tp_fyStartMonth p" "tp_fyStartMonth p \<le> 12" and nj: "tp_joined p = None"
    and itr: "\<not> tp_isNonItrFiler p" and P: "declared (tp_declaration p) td_previousEmployerTds = of_int P" "0 \<le> P" "P \<le> 2 ^ 51"
    and T: "T = annual_tax (in_month p (month_of_fy y (tp_fyStartMonth p) 0) 0)" "T \<le> 2 ^ 51"
  shows "i \<le> 12 \<Longrightarrow> 0 \<le> deducted_after p y i \<and> deducted_after p y i \<le> max (T - P) 0"
proof (induction i)
  case (Suc i)
  then have IH: "0 \<le> deducted_after p y i" "deducted_after p y i \<le> max (T - P) 0" and i: "i < 12" by simp_all
  have r: "0 \<le> max (T - P) 0 - deducted_after p y i" "max (T - P) 0 - deducted_after p y i \<le> 2 ^ 53"
    using IH T(2) P by simp_all
  have m: "1 \<le> max (11 - int i) 1" by simp
  show ?case unfolding deducted_step[OF assms i IH] using share_bounds(1,2)[OF r m] IH by linarith
qed simp

lemma deducted_last:
  fixes p :: tds_params and y P T :: int
  assumes s: "1 \<le> tp_fyStartMonth p" "tp_fyStartMonth p \<le> 12" and nj: "tp_joined p = None"
    and itr: "\<not> tp_isNonItrFiler p" and P: "declared (tp_declaration p) td_previousEmployerTds = of_int P" "0 \<le> P" "P \<le> 2 ^ 51"
    and T: "T = annual_tax (in_month p (month_of_fy y (tp_fyStartMonth p) 0) 0)" "T \<le> 2 ^ 51" and i: "i = 10 \<or> i = 11"
  shows "deducted_after p y (Suc i) = max (T - P) 0"
proof -
  have i12: "i < 12" and m: "max (11 - int i) 1 = 1" using i by auto
  note b = deducted_bounds[OF assms(1-9), THEN conjunct1, of i] deducted_bounds[OF assms(1-9), THEN conjunct2, of i]
  have r: "0 \<le> max (T - P) 0 - deducted_after p y i" "max (T - P) 0 - deducted_after p y i \<le> 2 ^ 53"
    using b i12 T(2) P by simp_all
  show ?thesis unfolding deducted_step[OF assms(1-9) i12 b(1)[OF less_imp_le[OF i12]] b(2)[OF less_imp_le[OF i12]]] m
    using share_bounds(3)[OF r, of 1] by simp
qed



definition example_taxpayer :: tds_params where
  "example_taxpayer = \<lparr>tp_monthlySalary = 100000, tp_month = 4, tp_year = 2025, tp_joined = None, tp_fyStartMonth = 4,
     tp_declaration = None, tp_regime = New_regime, tp_tdsDedutedSoFar = 0, tp_hasPan = False, tp_isNonItrFiler = False\<rparr>"

lemma example_tax: "annual_tax (in_month example_taxpayer (month_of_fy 2025 4 0) 0) = 225000"
proof -
  let ?q = "in_month example_taxpayer (month_of_fy 2025 4 0) 0"
  have n: "fm_total (getEffectiveMonthsInFy (fst (month_of_fy 2025 4 0)) (snd (month_of_fy 2025 4 0)) None 4) = 12"
    using effective_months(1)[of 4 0 2025] by simp
  have "gross_annual_income ?q = 1200000"
    using n by (simp add: gross_annual_income_def example_taxpayer_def declared_def jmul_def jadd_def)
  then have t: "annual_tax ?q = round (fl (1125000 * fl (1/5)))"
    by (simp add: annual_tax_def tax_on_def taxable_income_def example_taxpayer_def jsub_def jmul_def)
  have "\<bar>fl (1/5) - 1/5\<bar> \<le> 1/10000000000" using fl_error[of "1/5"] by simp
  then have a: "\<bar>1125000 * fl (1/5) - 225000\<bar> \<le> 1/1000" by linarith
  define z where "z = 1125000 * fl (1/5)"
  have "\<bar>z\<bar> \<le> 225001" using a unfolding z_def by linarith
  then have "\<bar>z\<bar> / 2 ^ 53 \<le> 1/1000" by simp
  then have "\<bar>fl z - z\<bar> \<le> 1/1000" using fl_error[of z] by linarith
  with a have "\<bar>fl (1125000 * fl (1/5)) - of_int 225000\<bar> < 1/2" unfolding z_def of_int_numeral by linarith
  then show ?thesis unfolding t by (rule round_near)
qed


end
