(* ===== verification/TaxDeclarations.thy ===== *)
theory TaxDeclarations
  imports PayrollTax RbacGuard
begin

text \<open>
  The stored tax declarations: one document for a workspace, a member and a financial year
  (\<open>salary/schemas/tax-declaration.schema.ts\<close>), the operations of \<open>salary/tds.service.ts\<close> on them
  and the scope-aware \<open>upsertTaxDeclaration\<close> of \<open>salary/salary.service.ts\<close>.  A
  \<open>findOneAndUpdate\<close> with \<open>upsert\<close> is an update of the finite map of documents; as MongoDB
  documents, an update that names a path in both \<open>$set\<close> and \<open>$setOnInsert\<close> is refused as a whole,
  whether or not the document exists.
\<close>

section \<open>Documents\<close>

record tax_doc =
  dd_taxRegime :: tax_regime
  dd_declared :: tax_declaration
  dd_standardDeduction :: rat
  dd_tdsDedutedSoFar :: rat
  dd_notes :: string
  dd_isLocked :: bool
  dd_lockedBy :: "string option"
  dd_lockedAt :: "int option"
  dd_createdBy :: "string option"
  dd_updatedBy :: "string option"

type_synonym declaration_key = "string \<times> string \<times> int" \<comment> \<open>workspace, member, financial year\<close>
type_synonym declaration_store = "declaration_key \<Rightarrow> tax_doc option"

record tax_update =
  du_taxRegime :: "tax_regime option"
  du_declared :: tax_declaration
  du_notes :: "string option"
  du_isLocked :: "bool option"

definition zero_declaration :: tax_declaration where
  "zero_declaration = \<lparr>td_previousEmployerGross = Some 0, td_previousEmployerTds = Some 0, td_hraExemption = Some 0,
     td_deduction80C = Some 0, td_deduction80D = Some 0, td_deduction80G = Some 0, td_deduction80CCD1B = Some 0,
     td_deduction80TTA = Some 0, td_otherDeductions = Some 0\<rparr>"

definition standard_deduction :: "tax_regime \<Rightarrow> rat" where
  "standard_deduction regime = (if regime = New_regime then 75000 else 50000)"

definition inserted_doc :: "tax_regime \<Rightarrow> string \<Rightarrow> tax_doc" where
  \<comment> \<open>\<open>$setOnInsert\<close> and the defaults of the schema\<close>
  "inserted_doc regime userId = \<lparr>dd_taxRegime = regime, dd_declared = zero_declaration,
     dd_standardDeduction = standard_deduction regime, dd_tdsDedutedSoFar = 0, dd_notes = '''', dd_isLocked = False,
     dd_lockedBy = None, dd_lockedAt = None, dd_createdBy = Some userId, dd_updatedBy = None\<rparr>"

section \<open>Operations of the tax service\<close>

definition getDeclaration :: "declaration_store \<Rightarrow> declaration_key \<Rightarrow> tax_doc option" where
  "getDeclaration store key = store key"

definition getOrCreateDeclaration :: "declaration_store \<Rightarrow> declaration_key \<Rightarrow> tax_regime \<Rightarrow> string \<Rightarrow> tax_doc \<times> declaration_store" where
  "getOrCreateDeclaration store key regime userId =
     (case store key of
        Some d \<Rightarrow> (d, store)
      | None \<Rightarrow> (let d = inserted_doc regime userId in (d, store(key \<mapsto> d))))"

definition overlay :: "tax_declaration \<Rightarrow> tax_declaration \<Rightarrow> tax_declaration" where
  \<comment> \<open>the fields of the second that are defined replace those of the first\<close>
  "overlay old new = (let pick = (\<lambda>f. case f new of None \<Rightarrow> f old | Some x \<Rightarrow> Some x)
     in \<lparr>td_previousEmployerGross = pick td_previousEmployerGross, td_previousEmployerTds = pick td_previousEmployerTds,
         td_hraExemption = pick td_hraExemption, td_deduction80C = pick td_deduction80C, td_deduction80D = pick td_deduction80D,
         td_deduction80G = pick td_deduction80G, td_deduction80CCD1B = pick td_deduction80CCD1B,
         td_deduction80TTA = pick td_deduction80TTA, td_otherDeductions = pick td_otherDeductions\<rparr>)"

definition declared_paths :: "tax_declaration \<Rightarrow> string list" where
  "declared_paths t = concat (map (\<lambda>(path, v). if v = None then [] else [path])
     [(''previousEmployerGross'', td_previousEmployerGross t), (''previousEmployerTds'', td_previousEmployerTds t),
      (''hraExemption'', td_hraExemption t), (''deduction80C'', td_deduction80C t), (''deduction80D'', td_deduction80D t),
      (''deduction80G'', td_deduction80G t), (''deduction80CCD1B'', td_deduction80CCD1B t),
      (''deduction80TTA'', td_deduction80TTA t), (''otherDeductions'', td_otherDeductions t)])"

definition set_paths :: "tax_update \<Rightarrow> string list" where
  "set_paths u = declared_paths (du_declared u)
     @ (if du_taxRegime u = None then [] else [''taxRegime'', ''standardDeduction''])
     @ (if du_notes u = None then [] else [''notes''])
     @ (if du_isLocked u = None then [] else [''isLocked'', ''lockedBy'', ''lockedAt''])
     @ [''updatedBy'']"

definition insert_paths :: "string list" where
  "insert_paths = [''workspaceId'', ''teamMemberId'', ''financialYear'', ''createdBy'', ''taxRegime'', ''standardDeduction'']"

definition apply_set :: "tax_update \<Rightarrow> string \<Rightarrow> int \<Rightarrow> tax_doc \<Rightarrow> tax_doc" where
  "apply_set u userId now d = d\<lparr>
     dd_taxRegime := coalesce (du_taxRegime u) (dd_taxRegime d),
     dd_standardDeduction := (case du_taxRegime u of None \<Rightarrow> dd_standardDeduction d | Some r \<Rightarrow> standard_deduction r),
     dd_declared := overlay (dd_declared d) (du_declared u),
     dd_notes := coalesce (du_notes u) (dd_notes d),
     dd_isLocked := coalesce (du_isLocked u) (dd_isLocked d),
     dd_lockedBy := (case du_isLocked u of None \<Rightarrow> dd_lockedBy d | Some l \<Rightarrow> if l then Some userId else None),
     dd_lockedAt := (case du_isLocked u of None \<Rightarrow> dd_lockedAt d | Some l \<Rightarrow> if l then Some now else None),
     dd_updatedBy := Some userId\<rparr>"

datatype declaration_error = Conflicting_update_operators | No_declare_permission | Not_own_declaration | Declaration_locked

definition updateDeclaration :: "declaration_store \<Rightarrow> declaration_key \<Rightarrow> tax_update \<Rightarrow> string \<Rightarrow> int \<Rightarrow> (declaration_error + tax_doc) \<times> declaration_store" where
  "updateDeclaration store key u userId now =
     (if list_ex (\<lambda>path. path \<in> set insert_paths) (set_paths u) then (Inl Conflicting_update_operators, store)
      else (let base = (case store key of Some d \<Rightarrow> d | None \<Rightarrow> inserted_doc (coalesce (du_taxRegime u) New_regime) userId);
                d = apply_set u userId now base
            in (Inr d, store(key \<mapsto> d))))"

definition updateTdsDedutedSoFar :: "declaration_store \<Rightarrow> declaration_key \<Rightarrow> rat \<Rightarrow> declaration_store" where
  "updateTdsDedutedSoFar store key amount =
     (case store key of None \<Rightarrow> store | Some d \<Rightarrow> store(key \<mapsto> d\<lparr>dd_tdsDedutedSoFar := amount\<rparr>))"

definition upsertTaxDeclaration ::
  "scope_context \<Rightarrow> declaration_store \<Rightarrow> string \<Rightarrow> string \<Rightarrow> int \<Rightarrow> tax_update \<Rightarrow> string \<Rightarrow> int \<Rightarrow> (declaration_error + tax_doc) \<times> declaration_store" where
  "upsertTaxDeclaration ctx store workspaceId teamMemberId financialYear dto userId now =
     (let scope = effectiveScope ctx ''salary'' ''declare_tax'';
          key = (workspaceId, teamMemberId, financialYear)
      in if cx_isOwner ctx \<or> scope = Some All_scope then updateDeclaration store key dto userId now
         else if scope \<noteq> Some Self_scope then (Inl No_declare_permission, store)
         else if cx_teamMemberId ctx \<noteq> Some teamMemberId then (Inl Not_own_declaration, store)
         else (case getDeclaration store key of
             Some d \<Rightarrow> if dd_isLocked d then (Inl Declaration_locked, store)
                       else updateDeclaration store key (dto\<lparr>du_isLocked := None\<rparr>) userId now
           | None \<Rightarrow> updateDeclaration store key (dto\<lparr>du_isLocked := None\<rparr>) userId now))"

section \<open>What a worker can do to a declaration\<close>

lemma present_paths: "set (concat (map (\<lambda>(path, v). if v = None then [] else [path]) xs)) \<subseteq> fst ` set xs"
  by (force split: if_splits)

lemma declared_paths_set: "set (declared_paths t) \<subseteq> {''previousEmployerGross'', ''previousEmployerTds'', ''hraExemption'',
    ''deduction80C'', ''deduction80D'', ''deduction80G'', ''deduction80CCD1B'', ''deduction80TTA'', ''otherDeductions''}"
  unfolding declared_paths_def by (rule order_trans[OF present_paths]) simp

lemma conflict_iff: "list_ex (\<lambda>path. path \<in> set insert_paths) (set_paths u) \<longleftrightarrow> du_taxRegime u \<noteq> None"
  using declared_paths_set[of "du_declared u"] by (auto simp: set_paths_def list_ex_iff insert_paths_def)

lemma updateDeclaration_cases:
  "updateDeclaration store key u userId now =
     (if du_taxRegime u \<noteq> None then (Inl Conflicting_update_operators, store)
      else (let d = apply_set u userId now (case store key of Some d \<Rightarrow> d | None \<Rightarrow> inserted_doc New_regime userId)
            in (Inr d, store(key \<mapsto> d))))"
  by (cases "du_taxRegime u") (simp_all add: updateDeclaration_def conflict_iff Let_def cong: option.case_cong)

lemma store_change_at: "(store(key \<mapsto> d)) k \<noteq> store k \<Longrightarrow> k = key"
  by (auto split: if_splits)

text \<open>
  C36. Someone without the all-scoped \<open>declare_tax\<close> grant changes at most one declaration: the own
  one of the year named in the request, only with the self-scoped grant, only while it is not
  locked, and never its lock, the regime or another member's document; a request that names a
  regime changes nothing at all.
\<close>

theorem worker_declaration_safe:
  assumes "\<not> cx_isOwner ctx" "effectiveScope ctx ''salary'' ''declare_tax'' \<noteq> Some All_scope"
    and "upsertTaxDeclaration ctx store ws tm fy dto userId now = (r, store')" "store' k \<noteq> store k"
  shows "effectiveScope ctx ''salary'' ''declare_tax'' = Some Self_scope \<and> cx_teamMemberId ctx = Some tm \<and> k = (ws, tm, fy)
    \<and> du_taxRegime dto = None
    \<and> (\<exists>d d'. store' k = Some d' \<and> (store k = Some d \<or> store k = None \<and> d = inserted_doc New_regime userId)
        \<and> \<not> dd_isLocked d \<and> \<not> dd_isLocked d' \<and> dd_lockedBy d' = dd_lockedBy d \<and> dd_lockedAt d' = dd_lockedAt d
        \<and> dd_taxRegime d' = dd_taxRegime d \<and> dd_declared d' = overlay (dd_declared d) (du_declared dto)
        \<and> dd_tdsDedutedSoFar d' = dd_tdsDedutedSoFar d)"
proof -
  let ?key = "(ws, tm, fy)"
  let ?d = "case store ?key of Some d \<Rightarrow> d | None \<Rightarrow> inserted_doc New_regime userId"
  let ?dto = "dto\<lparr>du_isLocked := None\<rparr>"
  have ne: "store' \<noteq> store" using assms(4) by auto
  then have s: "effectiveScope ctx ''salary'' ''declare_tax'' = Some Self_scope" and tm: "cx_teamMemberId ctx = Some tm"
    using assms(1-3) by (auto simp: upsertTaxDeclaration_def Let_def split: if_splits)
  have l: "\<not> dd_isLocked ?d"
    using ne assms(1,3) s tm by (auto simp: upsertTaxDeclaration_def getDeclaration_def inserted_doc_def split: option.splits if_splits)
  then have u: "updateDeclaration store ?key ?dto userId now = (r, store')"
    using assms(1,3) s tm by (auto simp: upsertTaxDeclaration_def getDeclaration_def split: option.splits)
  then have reg: "du_taxRegime dto = None" and st: "store' = store(?key \<mapsto> apply_set ?dto userId now ?d)"
    using ne by (auto simp: updateDeclaration_cases Let_def split: if_splits)
  have k: "k = ?key" using assms(4) unfolding st by (rule store_change_at)
  show ?thesis
    using s tm k reg l by (intro conjI exI[of _ ?d] exI[of _ "apply_set ?dto userId now ?d"])
      (auto simp: st apply_set_def split: option.split)
qed

definition own_declarer :: scope_context where
  "own_declarer = \<lparr>cx_isOwner = False, cx_teamMemberId = Some ''m'',
     cx_permissions = [\<lparr>fp_module = ''salary'', fp_actions = [''declare_tax''], fp_actionScopes = None\<rparr>], cx_permissionPaths = []\<rparr>"

definition notes_update :: tax_update where
  "notes_update = \<lparr>du_taxRegime = None, du_declared = \<lparr>td_previousEmployerGross = None, td_previousEmployerTds = None,
     td_hraExemption = None, td_deduction80C = Some 150000, td_deduction80D = None, td_deduction80G = None,
     td_deduction80CCD1B = None, td_deduction80TTA = None, td_otherDeductions = None\<rparr>, du_notes = None, du_isLocked = Some True\<rparr>"

lemma worker_declaration_safe_witness:
  "let store' = snd (upsertTaxDeclaration own_declarer Map.empty ''w'' ''m'' 2025 notes_update ''u'' 0) in
     (case store' (''w'', ''m'', 2025) of None \<Rightarrow> False
      | Some d \<Rightarrow> td_deduction80C (dd_declared d) = Some 150000 \<and> \<not> dd_isLocked d)"
proof -
  have scope: "effectiveScope own_declarer ''salary'' ''declare_tax'' = Some Self_scope"
    by (simp add: effectiveScope_def own_declarer_def scope_at_def)
  have o: "\<not> cx_isOwner own_declarer" "cx_teamMemberId own_declarer = Some ''m''" by (simp_all add: own_declarer_def)
  have n: "du_taxRegime notes_update = None" by (simp add: notes_update_def)
  obtain r store' where u: "upsertTaxDeclaration own_declarer Map.empty ''w'' ''m'' 2025 notes_update ''u'' 0 = (r, store')" by force
  then have "store' (''w'', ''m'', 2025) \<noteq> Map.empty (''w'', ''m'', 2025)"
    by (auto simp: upsertTaxDeclaration_def scope o getDeclaration_def updateDeclaration_cases n Let_def)
  from worker_declaration_safe[OF o(1) _ u this] show ?thesis unfolding u
    by (auto simp: scope overlay_def notes_update_def inserted_doc_def Let_def)
qed

end
