(* ===== verification/SalaryStore.thy ===== *)
theory SalaryStore
  imports SalaryCompute TaxDeclarations
begin

text \<open>
  The documents of the salary module and what is derived from them
  (\<open>salary/salary.service.ts\<close> with \<open>salary/schemas/salary.schema.ts\<close>,
  \<open>salary-adjustment.schema.ts\<close>, \<open>payment.schema.ts\<close>): the salary record of a member and a month,
  its adjustments and its payments.  A collection is a list; the identifier of a document is its
  position, so an insertion appends and a lookup by identifier is indexing.  What the service
  reads but does not write here is the environment.  \<open>$sum\<close> of a MongoDB aggregation is the
  parameter \<open>en_sum\<close>.  A thrown exception is the left side of a sum, next to the store it leaves.
\<close>

section \<open>Documents\<close>

datatype pay_status = Pending_pay | Partial_pay | Paid_pay | Advance_pay

record salary_doc =
  sl_workspaceId :: string
  sl_teamMemberId :: string
  sl_month :: int
  sl_year :: int
  sl_data :: salary_data
  sl_status :: pay_status
  sl_isLocked :: bool
  sl_lockedBy :: "string option"
  sl_lockedAt :: "date option"
  sl_createdBy :: "string option"
  sl_updatedBy :: "string option"

datatype adjustment_type = Addition | Deduction
datatype adjustment_source = Manual | Payment_recording | System

record adjustment_doc =
  aj_workspaceId :: string
  aj_salaryId :: nat
  aj_teamMemberId :: string
  aj_month :: int
  aj_year :: int
  aj_type :: adjustment_type
  aj_category :: string
  aj_amount :: rat
  aj_source :: adjustment_source
  aj_linkedPaymentId :: "nat option"
  aj_advanceSourcePaymentId :: "nat option"
  aj_advanceRecoveryPlanId :: "nat option"
  aj_planInstallmentIndex :: "nat option"
  aj_correctionOf :: "nat option"
  aj_active :: bool \<comment> \<open>\<open>status\<close> is \<open>active\<close> or \<open>reversed\<close>\<close>
  aj_createdBy :: string
  aj_reversedBy :: "string option"
  aj_reversalReason :: "string option"

record payment_doc =
  py_workspaceId :: string
  py_teamMemberId :: string
  py_salaryId :: nat
  py_amount :: rat
  py_commission :: rat
  py_paymentMode :: string
  py_recordedBy :: string
  py_isAdvance :: bool
  py_advanceFor :: "(int \<times> int) option"
  py_advanceRecoveryAdjustmentId :: "nat option"
  py_advanceRecoveryPlanId :: "nat option"
  py_advanceRequestId :: "nat option"
  py_active :: bool
  py_createdAt :: date
  py_reversedBy :: "string option"
  py_reversalReason :: "string option"

record increment_doc =
  ic_workspaceId :: string
  ic_teamMemberId :: string
  ic_newSalary :: rat
  ic_effectiveMonth :: int
  ic_effectiveYear :: int
  ic_isApplied :: bool

record advance_request =
  av_workspaceId :: string
  av_teamMemberId :: string
  av_month :: int
  av_year :: int
  av_requestedAmount :: rat \<comment> \<open>in paise, as the approved amount\<close>
  av_requestedBy :: string
  av_status :: string
  av_approvedAmount :: "rat option"
  av_reviewedBy :: "string option"
  av_verifiedBy :: "string option"
  av_paymentId :: "nat option"
  av_recoveryAdjustmentId :: "nat option"
  av_recoveryPlanId :: "nat option"
  av_sameMonthRecovery :: bool

datatype plan_entry_status = Scheduled | Applied_entry | Reversed_entry | Carried

record plan_entry =
  ie_index :: nat
  ie_month :: int
  ie_year :: int
  ie_plannedAmount :: rat
  ie_appliedAmount :: rat
  ie_adjustmentId :: "nat option"
  ie_status :: plan_entry_status

record recovery_plan =
  rp_workspaceId :: string
  rp_teamMemberId :: string
  rp_sourcePaymentId :: nat
  rp_totalAmount :: rat
  rp_installmentAmount :: rat
  rp_startMonth :: int
  rp_startYear :: int
  rp_status :: string
  rp_recoveredAmount :: rat
  rp_remainingAmount :: rat
  rp_installments :: "plan_entry list"
  rp_linkedAdjustmentIds :: "nat list"
  rp_closureType :: "string option"

record pay_store =
  ps_members :: "pay_member list"
  ps_increments :: "increment_doc list"
  ps_salaries :: "salary_doc list"
  ps_adjustments :: "adjustment_doc list"
  ps_payments :: "payment_doc list"
  ps_advances :: "advance_request list"
  ps_plans :: "recovery_plan list"
  ps_declarations :: declaration_store

section \<open>The environment\<close>

record statutory_config =
  st_pfEnabled :: bool
  st_pfWageCeiling :: rat
  st_esiEnabled :: bool
  st_esiGrossThreshold :: rat
  st_ptEnabled :: bool
  st_tdsEnabled :: bool
  st_lwfEnabled :: bool
  st_ptState :: string
  st_ptUseCustomSlabs :: bool
  st_ptCustomSlabs :: "pt_slab list"

record leave_credit_row =
  lv_workspaceId :: string
  lv_teamMemberId :: string
  lv_approved :: bool
  lv_fromDate :: date
  lv_toDate :: date
  lv_dayBreakdown :: "leave_segment list"

datatype request_mode = Any_day | Window_days | Fixed_day | Unknown_mode

record request_policy =
  ap_mode :: "request_mode option"
  ap_fixedDay :: "int option"
  ap_windowStartDay :: "int option"
  ap_windowEndDay :: "int option"

record disbursement_rules =
  dr_advanceRequestDay :: "int option"
  dr_advanceRequestPolicy :: "request_policy option"
  dr_advanceMaxPercentOfNet :: "rat option"
  dr_advanceMaxPerYear :: "int option"
  dr_advanceMinTenureMonths :: "int option"

record pay_env =
  en_tz :: int
  en_now :: date
  en_rules :: pay_rules
  en_features :: "string list" \<comment> \<open>the enabled features of the payroll settings\<close>
  en_statutory :: "statutory_config option"
  en_attendanceModule :: bool
  en_attendance :: "(string \<times> attendance_row) list" \<comment> \<open>with the workspace of the row\<close>
  en_leaves :: "leave_credit_row list"
  en_leaveTypePaid :: "string \<Rightarrow> bool option"
  en_latePolicy :: "late_policy option"
  en_shifts :: "string \<Rightarrow> (string \<times> string) option"
  en_logs :: "production_log list"
  en_machines :: "string \<Rightarrow> machine_meta option"
  en_ptSlabs :: "string \<Rightarrow> pt_slab list"
  en_fiscalYearStartMonth :: int
  en_caller :: "string \<Rightarrow> scope_context"
  en_sum :: "rat list \<Rightarrow> rat"
  en_minimumWageMonthly :: "rat option"
  en_minimumWageOverride :: "string \<Rightarrow> rat option"
  en_deductionCapPercent :: rat
  en_advisoryMaxMonths :: nat
  en_disbursement :: disbursement_rules

datatype salary_error =
    Member_not_found | Salary_not_found | Salary_locked | Already_locked | Not_locked
  | Piece_rate_not_configured | Feature_disabled string | Self_edit_blocked | Member_offboarded
  | Invalid_category | Correction_source_not_found | Correction_of_other_salary | Correction_source_active
  | Adjustment_not_found | Adjustment_already_reversed | Adjustment_auto_generated
  | Payment_not_found | Payment_already_reversed | Nothing_to_pay | Duplicate_payment
  | Bad_installments | Compliance_breach "(int \<times> int) list" | Override_reason_required
  | Plan_not_found | Plan_closed string | Plan_already_paused | Plan_not_paused | No_plan_change
  | Advance_not_found | Advance_disabled | Advance_day_closed | Advance_not_current_month | Advance_tenure_not_met
  | Advance_max_per_year | Advance_exceeds_limit | Advance_duplicate | Advance_wrong_status string | Advance_amount_not_positive
  | Advance_own_request | Advance_not_direct_report

type_synonym 'a pay = "(salary_error + 'a) \<times> pay_store"

definition and_then :: "('e + 'a) \<times> 's \<Rightarrow> ('a \<Rightarrow> 's \<Rightarrow> ('e + 'b) \<times> 's) \<Rightarrow> ('e + 'b) \<times> 's" where
  \<comment> \<open>the next statement of a function that may have thrown, with any errors \<open>'e\<close> and documents \<open>'s\<close>\<close>
  "and_then r f = (case r of (Inl e, st) \<Rightarrow> (Inl e, st) | (Inr x, st) \<Rightarrow> f x st)"

lemma and_then_simps [simp]: "and_then (Inl e, st) f = (Inl e, st)" "and_then (Inr x, st) f = f x st"
  by (simp_all add: and_then_def)

definition guarded :: "(bool \<times> 'e) list \<Rightarrow> ('e + 'a) \<times> 's \<Rightarrow> 's \<Rightarrow> ('e + 'a) \<times> 's" where
  \<comment> \<open>checks in their order, each with what it throws when it fails\<close>
  "guarded checks rest st = (case List.find (\<lambda>c. \<not> fst c) checks of Some c \<Rightarrow> (Inl (snd c), st) | None \<Rightarrow> rest)"

lemma guarded_simps [simp]:
  "guarded [] r st = r" "guarded ((b, e) # cs) r st = (if b then guarded cs r st else (Inl e, st))"
  by (simp_all add: guarded_def)

section \<open>Lookups and updates\<close>

definition find_member :: "pay_store \<Rightarrow> string \<Rightarrow> pay_member option" where
  "find_member st tm = List.find (\<lambda>m. pm_id m = tm) (ps_members st)"

definition nth_doc :: "'a list \<Rightarrow> nat \<Rightarrow> 'a option" where
  "nth_doc xs i = (if i < length xs then Some (xs ! i) else None)"

definition salary_at :: "pay_store \<Rightarrow> nat \<Rightarrow> salary_doc option" where
  "salary_at st i = nth_doc (ps_salaries st) i"

definition update_salary :: "nat \<Rightarrow> (salary_doc \<Rightarrow> salary_doc) \<Rightarrow> pay_store \<Rightarrow> pay_store" where
  "update_salary i f st = st\<lparr>ps_salaries := (ps_salaries st)[i := f (ps_salaries st ! i)]\<rparr>"

definition is_locked :: "pay_store \<Rightarrow> nat \<Rightarrow> bool" where
  "is_locked st i = (case salary_at st i of None \<Rightarrow> False | Some d \<Rightarrow> sl_isLocked d)"

definition find_salary :: "pay_store \<Rightarrow> string \<Rightarrow> string \<Rightarrow> int \<Rightarrow> int \<Rightarrow> nat option" where
  "find_salary st ws tm month year = find_index (\<lambda>d. sl_workspaceId d = ws \<and> sl_teamMemberId d = tm
     \<and> sl_month d = month \<and> sl_year d = year) (ps_salaries st)"

definition feature :: "pay_env \<Rightarrow> string \<Rightarrow> bool" where
  "feature en f \<longleftrightarrow> f \<in> set (en_features en)"

definition not_self_edit :: "pay_env \<Rightarrow> string \<Rightarrow> string \<Rightarrow> bool" where
  \<comment> \<open>\<open>assertNotSelfSalaryEdit\<close> passes\<close>
  "not_self_edit en userId tm = (let ctx = en_caller en userId in cx_isOwner ctx \<or> cx_teamMemberId ctx \<noteq> Some tm)"

definition member_writable :: "pay_store \<Rightarrow> string \<Rightarrow> string \<Rightarrow> bool" where
  \<comment> \<open>\<open>assertMemberWritable\<close> passes\<close>
  "member_writable st ws tm = (case List.find (\<lambda>m. pm_id m = tm \<and> pm_workspaceId m = ws) (ps_members st) of
     None \<Rightarrow> False | Some m \<Rightarrow> \<not> pm_isDeleted m)"

section \<open>Totals and status\<close>

definition rollup :: "pay_env \<Rightarrow> pay_store \<Rightarrow> nat \<Rightarrow> adjustment_type \<Rightarrow> rat" where
  \<comment> \<open>\<open>calculateAdjustmentRollups\<close>, one of the two groups\<close>
  "rollup en st i ty = (let amounts = map aj_amount (filter (\<lambda>a. aj_salaryId a = i \<and> aj_active a
       \<and> aj_category a \<noteq> ''loan_perquisite'' \<and> aj_type a = ty) (ps_adjustments st))
     in if amounts = [] then 0 else en_sum en amounts)"

definition sumPaidAmountForSalary :: "pay_store \<Rightarrow> nat \<Rightarrow> rat" where
  "sumPaidAmountForSalary st i = roundCurrency (foldl (\<lambda>sum p. jadd (jadd sum (py_amount p)) (py_commission p)) 0
     (filter (\<lambda>p. py_salaryId p = i \<and> py_active p) (ps_payments st)))"

definition settlement_status :: "rat \<Rightarrow> rat \<Rightarrow> pay_status" where
  "settlement_status totalPaid net =
     (if totalPaid > net \<and> net > 0 then Advance_pay
      else if totalPaid \<ge> net \<and> net > 0 then Paid_pay
      else if totalPaid > 0 then Partial_pay else Pending_pay)"

datatype derived_status = Derived pay_status | Salary_not_set

definition deriveSalaryStatus :: "rat \<Rightarrow> rat \<Rightarrow> rat \<Rightarrow> derived_status" where
  "deriveSalaryStatus baseSalary netSalary paidAmount =
     (if baseSalary \<le> 0 \<or> netSalary \<le> 0 then Salary_not_set
      else if paidAmount \<ge> netSalary then (if paidAmount > netSalary then Derived Advance_pay else Derived Paid_pay)
      else if paidAmount > 0 then Derived Partial_pay else Derived Pending_pay)"

definition syncSalaryStatus :: "nat \<Rightarrow> pay_store \<Rightarrow> pay_store" where
  "syncSalaryStatus i st = update_salary i
     (\<lambda>d. d\<lparr>sl_status := settlement_status (sumPaidAmountForSalary st i) (sd_netSalary (sl_data d))\<rparr>) st"

definition with_rollups :: "rat \<Rightarrow> rat \<Rightarrow> salary_data \<Rightarrow> salary_data" where
  "with_rollups additions deductions d = d\<lparr>sd_additions := additions, sd_deductions := deductions,
     sd_netSalary := roundCurrency (calculateNetSalary (sd_baseSalary d) (sd_totalDays d) (sd_presentDays d)
       additions deductions (piece_part (sd_piece d)))\<rparr>"

definition recalculateSalaryFromAdjustments :: "pay_env \<Rightarrow> nat \<Rightarrow> string option \<Rightarrow> bool \<Rightarrow> pay_store \<Rightarrow> unit pay" where
  "recalculateSalaryFromAdjustments en i userId skipLockCheck st =
     guarded [(skipLockCheck \<or> \<not> is_locked st i, Salary_locked)]
       (Inr (), syncSalaryStatus i (update_salary i
          (\<lambda>d. d\<lparr>sl_data := with_rollups (rollup en st i Addition) (rollup en st i Deduction) (sl_data d),
                sl_updatedBy := (case userId of None \<Rightarrow> sl_updatedBy d | Some u \<Rightarrow> Some u)\<rparr>) st)) st"

section \<open>Building a record\<close>

definition latest_index :: "('a \<Rightarrow> bool) \<Rightarrow> ('a \<Rightarrow> int) \<Rightarrow> 'a list \<Rightarrow> nat option" where
  \<comment> \<open>\<open>findOne\<close> with a descending sort\<close>
  "latest_index P key xs = (case filter (\<lambda>i. P (xs ! i)) [0..<length xs] of
     [] \<Rightarrow> None | i # is \<Rightarrow> Some (keep_max (\<lambda>i. key (xs ! i)) i is))"

lemma latest_index_SomeD:
  assumes "latest_index P key xs = Some i"
  shows "i < length xs \<and> P (xs ! i) \<and> (\<forall>j<length xs. P (xs ! j) \<longrightarrow> key (xs ! j) \<le> key (xs ! i))"
proof -
  obtain k ks where f: "filter (\<lambda>i. P (xs ! i)) [0..<length xs] = k # ks" and i: "i = keep_max (\<lambda>i. key (xs ! i)) k ks"
    using assms by (auto simp: latest_index_def split: list.splits)
  have s: "set (k # ks) = {j. j < length xs \<and> P (xs ! j)}" using arg_cong[OF f, of set] by auto
  then show ?thesis using keep_max_in[of "\<lambda>i. key (xs ! i)" k ks] keep_max_ge[of _ k ks "\<lambda>i. key (xs ! i)"] unfolding i by blast
qed

lemma latest_index_None: "latest_index P key xs = None \<longleftrightarrow> (\<forall>j<length xs. \<not> P (xs ! j))"
proof -
  have "latest_index P key xs = None \<longleftrightarrow> filter (\<lambda>i. P (xs ! i)) [0..<length xs] = []"
    by (simp add: latest_index_def split: list.split)
  then show ?thesis by (auto simp: filter_empty_conv)
qed

definition effective_key :: "increment_doc \<Rightarrow> int" where
  "effective_key x = ic_effectiveYear x * 12 + ic_effectiveMonth x"

definition pending_by :: "string \<Rightarrow> string \<Rightarrow> int \<Rightarrow> int \<Rightarrow> increment_doc \<Rightarrow> bool" where
  "pending_by ws tm month year x \<longleftrightarrow> ic_workspaceId x = ws \<and> ic_teamMemberId x = tm \<and> \<not> ic_isApplied x
     \<and> (ic_effectiveYear x < year \<or> ic_effectiveYear x = year \<and> ic_effectiveMonth x \<le> month)"

definition latest_effective :: "pay_store \<Rightarrow> string \<Rightarrow> string \<Rightarrow> int \<Rightarrow> int \<Rightarrow> nat option" where
  \<comment> \<open>the pending increment with the latest effective month, of those effective by the month\<close>
  "latest_effective st ws tm month year = latest_index (pending_by ws tm month year) effective_key (ps_increments st)"

definition applyPendingIncrement :: "string \<Rightarrow> string \<Rightarrow> int \<Rightarrow> int \<Rightarrow> pay_store \<Rightarrow> pay_store" where
  "applyPendingIncrement ws tm month year st =
     (case latest_effective st ws tm month year of
        None \<Rightarrow> st
      | Some i \<Rightarrow> (case find_index (\<lambda>m. pm_id m = tm) (ps_members st) of
            None \<Rightarrow> st
          | Some j \<Rightarrow> st\<lparr>
              ps_members := (ps_members st)[j := (ps_members st ! j)\<lparr>pm_salaryAmount := Some (ic_newSalary (ps_increments st ! i))\<rparr>],
              ps_increments := (ps_increments st)[i := (ps_increments st ! i)\<lparr>ic_isApplied := True\<rparr>]\<rparr>))"

definition computePaidLeaveCredit :: "pay_env \<Rightarrow> string \<Rightarrow> string \<Rightarrow> date \<Rightarrow> date \<Rightarrow> rat" where
  "computePaidLeaveCredit en ws tm periodStart periodEnd =
     sumPaidLeaveCredit (concat (map lv_dayBreakdown (filter (\<lambda>r. lv_workspaceId r = ws \<and> lv_teamMemberId r = tm
         \<and> lv_approved r \<and> lv_fromDate r \<le> periodEnd \<and> lv_toDate r \<ge> periodStart) (en_leaves en))))
       (en_leaveTypePaid en) periodStart periodEnd"

definition member_shift :: "pay_env \<Rightarrow> pay_member \<Rightarrow> (string \<times> string) option" where
  "member_shift en m = (case pm_shiftId m of None \<Rightarrow> None | Some s \<Rightarrow> en_shifts en s)"

definition attended :: "pay_env \<Rightarrow> string \<Rightarrow> pay_member \<Rightarrow> salary_context \<Rightarrow> int \<Rightarrow> int \<Rightarrow> rat \<times> rat" where
  \<comment> \<open>the credited days and the supplement to the deductions\<close>
  "attended en ws m ctx month year =
     (let w = sc_window ctx in
      if sc_attendancePay ctx \<and> ew_activeCalendarDays w > 0
      then (let rows = map snd (filter (\<lambda>(rws, r). rws = ws \<and> ar_teamMemberId r = pm_id m
                   \<and> ew_activeStart w \<le> ar_date r \<and> ar_date r \<le> ew_activeEnd w) (en_attendance en));
                credit = computePaidLeaveCredit en ws (pm_id m) (ew_activeStart w) (ew_activeEnd w)
            in (credited_days (buildPayrollAttendanceBreakdown rows month year) credit (en_rules en),
                calculateMinuteAccurateLop rows (coalesce (pm_salaryAmount m) 0) (en_latePolicy en)
                  (shift_minutes (member_shift en m)) month year))
      else (0, 0))"

definition computePieceRateEarnings :: "pay_env \<Rightarrow> string \<Rightarrow> pay_member \<Rightarrow> int \<Rightarrow> int \<Rightarrow> salary_error + piece_earnings" where
  \<comment> \<open>with the member supplied by the caller\<close>
  "computePieceRateEarnings en ws m month year =
     (if pm_workspaceId m \<noteq> ws then Inl Member_not_found
      else case pm_pieceRateConfig m of
        None \<Rightarrow> Inl Piece_rate_not_configured
      | Some cfg \<Rightarrow> Inr (piece_rate_earnings cfg (en_machines en) (piece_logs (en_logs en) ws (pm_id m) month year)))"

definition buildSalaryRecordData :: "pay_env \<Rightarrow> string \<Rightarrow> string \<Rightarrow> int \<Rightarrow> int \<Rightarrow> rat \<Rightarrow> rat \<Rightarrow> pay_store \<Rightarrow> salary_data pay" where
  "buildSalaryRecordData en ws tm month year currentAdditions currentDeductions st0 =
     (let st = applyPendingIncrement ws tm month year st0 in
      case find_member st tm of
        None \<Rightarrow> (Inl Member_not_found, st)
      | Some m \<Rightarrow>
          (let ctx = resolveSalaryCalculationContext (en_tz en) m month year (en_rules en) (en_attendanceModule en);
               (creditedDays, supplement) = attended en ws m ctx month year;
               finish = (\<lambda>piece. (Inr (salary_data_of m ctx creditedDays currentAdditions (jadd currentDeductions supplement) piece), st))
           in if coalesce (pm_salaryType m) Monthly = Piece_rate
              then (case computePieceRateEarnings en ws m month year of
                     Inl e \<Rightarrow> (Inl e, st) | Inr p \<Rightarrow> finish (Some p))
              else finish None))"

end
