(* ===== verification/SalaryRuns.thy ===== *)
theory SalaryRuns
  imports SalaryStore
begin

text \<open>
  Producing the salary record of a month (\<open>ensureSalaryRecord\<close> of \<open>salary/salary.service.ts\<close>):
  the recovery of advances paid in earlier months, the totals over the adjustments, and the
  statutory deductions.  Each statutory deduction is at most one active system row of the record:
  computed anew it replaces the amount, no longer due it is reversed.  The gratuity ledger that
  the source updates at the end is a collection of its own and not part of this state.
\<close>

section \<open>Recovering earlier advances\<close>

definition recoverable :: "salary_doc \<Rightarrow> string \<Rightarrow> advance_request \<Rightarrow> bool" where
  "recoverable d ws a \<longleftrightarrow> av_workspaceId a = ws \<and> av_teamMemberId a = sl_teamMemberId d \<and> av_status a = ''paid''
     \<and> av_recoveryAdjustmentId a = None \<and> av_recoveryPlanId a = None \<and> \<not> av_sameMonthRecovery a
     \<and> (av_year a < sl_year d \<or> av_year a = sl_year d \<and> av_month a < sl_month d)"

definition new_adjustment :: "salary_doc \<Rightarrow> nat \<Rightarrow> string \<Rightarrow> adjustment_type \<Rightarrow> string \<Rightarrow> rat \<Rightarrow> adjustment_source \<Rightarrow> string \<Rightarrow> adjustment_doc" where
  \<comment> \<open>an active row of the record, with no links\<close>
  "new_adjustment d i ws ty cat amount src user = \<lparr>aj_workspaceId = ws, aj_salaryId = i, aj_teamMemberId = sl_teamMemberId d,
     aj_month = sl_month d, aj_year = sl_year d, aj_type = ty, aj_category = cat, aj_amount = amount, aj_source = src,
     aj_linkedPaymentId = None, aj_advanceSourcePaymentId = None, aj_advanceRecoveryPlanId = None,
     aj_planInstallmentIndex = None, aj_correctionOf = None, aj_active = True, aj_createdBy = user,
     aj_reversedBy = None, aj_reversalReason = None\<rparr>"

definition add_adjustment :: "adjustment_doc \<Rightarrow> pay_store \<Rightarrow> pay_store" where
  "add_adjustment a st = st\<lparr>ps_adjustments := ps_adjustments st @ [a]\<rparr>"

definition recover_advance :: "string \<Rightarrow> nat \<Rightarrow> nat \<Rightarrow> pay_store \<Rightarrow> pay_store" where
  \<comment> \<open>one round of the loop; request \<open>j\<close>, amounts of requests are in paise\<close>
  "recover_advance ws i j st =
     (let d = ps_salaries st ! i; a = ps_advances st ! j; amount = roundCurrency (jdiv (coalesce (av_approvedAmount a) 0) 100)
      in if amount \<le> 0 then st
         else st\<lparr>
           ps_adjustments := ps_adjustments st
             @ [new_adjustment d i ws Deduction ''advance_recovery'' amount System (sl_teamMemberId d)],
           ps_advances := (ps_advances st)[j := a\<lparr>av_recoveryAdjustmentId := Some (length (ps_adjustments st))\<rparr>]\<rparr>)"

definition applyAdvanceAutoDeductions :: "string \<Rightarrow> nat \<Rightarrow> pay_store \<Rightarrow> pay_store" where
  "applyAdvanceAutoDeductions ws i st =
     fold (recover_advance ws i)
       (filter (\<lambda>j. recoverable (ps_salaries st ! i) ws (ps_advances st ! j)) [0..<length (ps_advances st)]) st"

section \<open>Statutory rows\<close>

definition is_system_row :: "string \<Rightarrow> nat \<Rightarrow> string \<Rightarrow> adjustment_doc \<Rightarrow> bool" where
  "is_system_row ws i cat a \<longleftrightarrow> aj_workspaceId a = ws \<and> aj_salaryId a = i \<and> aj_category a = cat \<and> aj_source a = System \<and> aj_active a"

definition upsert_system :: "string \<Rightarrow> nat \<Rightarrow> string \<Rightarrow> rat \<Rightarrow> string \<Rightarrow> pay_store \<Rightarrow> pay_store" where
  \<comment> \<open>\<open>findOneAndUpdate\<close> with \<open>upsert\<close> on the first active system row of the category\<close>
  "upsert_system ws i cat amount user st =
     (let d = ps_salaries st ! i;
          match = (\<lambda>a. is_system_row ws i cat a \<and> aj_month a = sl_month d \<and> aj_year a = sl_year d)
      in case find_index match (ps_adjustments st) of
           Some k \<Rightarrow> st\<lparr>ps_adjustments := (ps_adjustments st)[k := (ps_adjustments st ! k)
             \<lparr>aj_teamMemberId := sl_teamMemberId d, aj_type := Deduction, aj_amount := amount\<rparr>]\<rparr>
         | None \<Rightarrow> add_adjustment (new_adjustment d i ws Deduction cat amount System user) st)"

definition reverse_system :: "string \<Rightarrow> nat \<Rightarrow> string \<Rightarrow> string \<Rightarrow> pay_store \<Rightarrow> pay_store" where
  \<comment> \<open>\<open>updateMany\<close> to \<open>reversed\<close>\<close>
  "reverse_system ws i cat reason st = st\<lparr>ps_adjustments := map (\<lambda>a. if is_system_row ws i cat a
     then a\<lparr>aj_active := False, aj_reversalReason := Some reason\<rparr> else a) (ps_adjustments st)\<rparr>"

definition put_system :: "string \<Rightarrow> nat \<Rightarrow> string \<Rightarrow> string \<Rightarrow> (rat + string) \<Rightarrow> pay_store \<Rightarrow> pay_store" where
  \<comment> \<open>the amount due, or the reason why nothing is\<close>
  "put_system ws i cat user due st = (case due of Inl amount \<Rightarrow> upsert_system ws i cat amount user st
     | Inr reason \<Rightarrow> reverse_system ws i cat reason st)"

definition employment :: "pay_member \<Rightarrow> string" where
  "employment m = coalesce (pm_employmentType m) ''''"

definition employment_or_full_time :: "pay_member \<Rightarrow> string" where
  "employment_or_full_time m = (if employment m = '''' then ''full_time'' else employment m)"

definition pf_due :: "statutory_config \<Rightarrow> pay_member \<Rightarrow> salary_data \<Rightarrow> rat + string" where
  "pf_due c m d =
     (if st_pfEnabled c \<and> pm_pfApplicable m \<noteq> Some False \<and> \<not> pm_pfOptedOut m
         \<and> employment m \<notin> {''contract'', ''consultant'', ''intern''}
      then (let pfWage = min (jadd (sd_baseSalary d) (piece_part (sd_piece d))) (st_pfWageCeiling c);
                amount = of_int (round (jmul pfWage (fl (12/100))))
            in if amount > 0 then Inl amount else Inr ''PF amount is zero after recalculation'')
      else Inr ''PF no longer applicable'')"

definition gross_wage :: "salary_data \<Rightarrow> rat" where
  "gross_wage d = jadd (jadd (sd_baseSalary d) (piece_part (sd_piece d))) (sd_additions d)"

definition esi_due :: "statutory_config \<Rightarrow> pay_member \<Rightarrow> salary_data \<Rightarrow> rat + string" where
  "esi_due c m d =
     (if st_esiEnabled c \<and> (pm_esiApplicable m \<or> gross_wage d \<le> st_esiGrossThreshold c)
         \<and> employment m \<notin> {''contract'', ''consultant''}
      then (let amount = of_int (round (jmul (gross_wage d) (fl (75/10000))))
            in if amount > 0 then Inl amount else Inr ''ESI amount is zero after recalculation'')
      else Inr ''ESI no longer applicable'')"

definition pt_due :: "pay_env \<Rightarrow> statutory_config \<Rightarrow> pay_member \<Rightarrow> salary_data \<Rightarrow> rat + string" where
  "pt_due en c m d =
     (if st_ptEnabled c \<and> employment m \<noteq> ''intern''
      then (let state = (if st_ptState c = '''' then ''Gujarat'' else st_ptState c);
                slabs = (if st_ptUseCustomSlabs c \<and> st_ptCustomSlabs c \<noteq> [] then st_ptCustomSlabs c else en_ptSlabs en state);
                amount = calculatePtAmount (gross_wage d) slabs
            in if amount > 0 then Inl amount else Inr ''PT amount is 0 for current salary slab'')
      else Inr ''PT not applicable'')"

definition lwf_due :: "statutory_config \<Rightarrow> pay_member \<Rightarrow> int \<Rightarrow> rat + string" where
  "lwf_due c m month =
     (if st_lwfEnabled c \<and> employment_or_full_time m \<notin> {''contract'', ''consultant'', ''intern''}
      then (let own = trim (pm_stateOfEmployment m);
                state = (if own \<noteq> '''' then own else trim (if st_ptState c = '''' then ''Gujarat'' else st_ptState c))
            in if isLwfDeductionMonth state month
               then (case getLwfRate state of
                   Some r \<Rightarrow> if lr_employeeAmount r > 0 then Inl (lr_employeeAmount r) else Inr ''LWF state has no applicable rate''
                 | None \<Rightarrow> Inr ''LWF state has no applicable rate'')
               else Inr ''Not a LWF deduction month'')
      else Inr ''LWF not applicable'')"

section \<open>Income tax at source\<close>

definition getTdsDeductedSoFarInFy :: "pay_env \<Rightarrow> string \<Rightarrow> string \<Rightarrow> int \<Rightarrow> nat \<Rightarrow> pay_store \<Rightarrow> rat" where
  \<comment> \<open>active tax rows of the member in the months of the year, but for one record\<close>
  "getTdsDeductedSoFarInFy en ws tm fyYear excluded st =
     (let in_fy = (\<lambda>a. case salary_at st (aj_salaryId a) of None \<Rightarrow> False
              | Some d \<Rightarrow> (sl_month d, sl_year d) \<in> set (getFyMonthRange fyYear (en_fiscalYearStartMonth en)));
          amounts = map aj_amount (filter (\<lambda>a. aj_workspaceId a = ws \<and> aj_teamMemberId a = tm \<and> aj_category a = ''tds_employee''
              \<and> aj_source a = System \<and> aj_active a \<and> aj_salaryId a \<noteq> excluded \<and> in_fy a) (ps_adjustments st))
      in if amounts = [] then 0 else en_sum en amounts)"

definition join_parts :: "int \<Rightarrow> pay_member \<Rightarrow> (int \<times> int) option" where
  \<comment> \<open>\<open>getTeamMemberJoinDateParts\<close>\<close>
  "join_parts tz m = map_option (\<lambda>d. (month_of_day (local_day tz d) + 1, year_of_day (local_day tz d))) (pm_dateOfJoining m)"

definition loan_perquisite :: "pay_env \<Rightarrow> nat \<Rightarrow> pay_store \<Rightarrow> rat" where
  "loan_perquisite en i st = (let amounts = map aj_amount (filter (\<lambda>a. aj_salaryId a = i \<and> aj_active a
       \<and> aj_category a = ''loan_perquisite'' \<and> aj_type a = Addition) (ps_adjustments st))
     in if amounts = [] then 0 else en_sum en amounts)"

definition member_regime :: "pay_member \<Rightarrow> tax_regime" where
  "member_regime m = (if pm_taxOld m then Old_regime else New_regime)"

definition tds_step :: "pay_env \<Rightarrow> string \<Rightarrow> nat \<Rightarrow> pay_member \<Rightarrow> string \<Rightarrow> pay_store \<Rightarrow> pay_store" where
  \<comment> \<open>the branch in which tax is deducted at source\<close>
  "tds_step en ws i m user st =
     (let d = ps_salaries st ! i;
          fyYear = getFinancialYear (sl_month d) (sl_year d) (en_fiscalYearStartMonth en);
          key = (ws, pm_id m, fyYear);
          (decl, decls) = getOrCreateDeclaration (ps_declarations st) key (member_regime m) user;
          st1 = st\<lparr>ps_declarations := decls\<rparr>;
          soFar = getTdsDeductedSoFarInFy en ws (pm_id m) fyYear i st1;
          monthlyTds = of_int (computeMonthlyTds \<lparr>tp_monthlySalary = jadd (sd_netSalary (sl_data d)) (loan_perquisite en i st1),
              tp_month = sl_month d, tp_year = sl_year d, tp_joined = join_parts (en_tz en) m,
              tp_fyStartMonth = en_fiscalYearStartMonth en, tp_declaration = Some (dd_declared decl),
              tp_regime = dd_taxRegime decl, tp_tdsDedutedSoFar = soFar, tp_hasPan = (trim (pm_pan m) \<noteq> ''''),
              tp_isNonItrFiler = pm_isNonItrFiler m\<rparr>);
          st2 = put_system ws i ''tds_employee'' user
            (if monthlyTds > 0 then Inl monthlyTds else Inr ''TDS computed as 0'') st1
      in st2\<lparr>ps_declarations := updateTdsDedutedSoFar (ps_declarations st2) key
           (if monthlyTds > 0 then jadd soFar monthlyTds else soFar)\<rparr>)"

definition tds_applies :: "statutory_config \<Rightarrow> pay_member \<Rightarrow> bool" where
  "tds_applies c m \<longleftrightarrow> st_tdsEnabled c \<and> employment_or_full_time m \<in> {''full_time'', ''part_time''}"

definition statutory_rows :: "pay_env \<Rightarrow> statutory_config \<Rightarrow> string \<Rightarrow> nat \<Rightarrow> pay_member \<Rightarrow> string \<Rightarrow> pay_store \<Rightarrow> pay_store" where
  \<comment> \<open>provident fund, state insurance, professional tax, welfare fund\<close>
  "statutory_rows en c ws i m user st =
     (let d = ps_salaries st ! i
      in put_system ws i ''lwf_employee'' user (lwf_due c m (sl_month d))
           (put_system ws i ''pt_employee'' user (pt_due en c m (sl_data d))
             (put_system ws i ''esi_employee'' user (esi_due c m (sl_data d))
               (put_system ws i ''pf_employee'' user (pf_due c m (sl_data d)) st))))"

definition applyStatutoryDeductions :: "pay_env \<Rightarrow> string \<Rightarrow> nat \<Rightarrow> pay_member \<Rightarrow> pay_store \<Rightarrow> unit pay" where
  "applyStatutoryDeductions en ws i m st =
     (case en_statutory en of
        None \<Rightarrow> (Inr (), st)
      | Some c \<Rightarrow>
          (let d = ps_salaries st ! i;
               user = coalesce (sl_updatedBy d) (coalesce (sl_createdBy d) (pm_id m));
               st1 = statutory_rows en c ws i m user st;
               st2 = (if tds_applies c m then tds_step en ws i m user st1
                      else reverse_system ws i ''tds_employee'' ''TDS not applicable'' st1)
           in recalculateSalaryFromAdjustments en i None False st2))"

section \<open>Ensuring the record of a month\<close>

definition refresh_piece :: "pay_env \<Rightarrow> string \<Rightarrow> string \<Rightarrow> nat \<Rightarrow> pay_store \<Rightarrow> unit pay" where
  \<comment> \<open>the piece-rate snapshot of an existing record, saved with the totals that follow\<close>
  "refresh_piece en ws tm i st =
     (case find_member st tm of
        None \<Rightarrow> (Inr (), st)
      | Some m \<Rightarrow>
          if pm_salaryType m \<noteq> Some Piece_rate then (Inr (), st)
          else let d = ps_salaries st ! i in
            (case computePieceRateEarnings en ws m (sl_month d) (sl_year d) of
               Inl e \<Rightarrow> (Inl e, st)
             | Inr p \<Rightarrow> (Inr (), update_salary i (\<lambda>d. d\<lparr>sl_data := (sl_data d)\<lparr>sd_piece := Some p\<rparr>\<rparr>) st)))"

definition settle_record :: "pay_env \<Rightarrow> string \<Rightarrow> string \<Rightarrow> nat \<Rightarrow> string option \<Rightarrow> pay_store \<Rightarrow> nat pay" where
  \<comment> \<open>the common end of both branches\<close>
  "settle_record en ws tm i userId st =
     and_then (recalculateSalaryFromAdjustments en i userId False (applyAdvanceAutoDeductions ws i st)) (\<lambda>_ st2.
       case find_member st2 tm of
         None \<Rightarrow> (Inl Member_not_found, st2)
       | Some m \<Rightarrow> and_then (applyStatutoryDeductions en ws i m st2) (\<lambda>_ st3. (Inr i, st3)))"

definition new_salary :: "string \<Rightarrow> string \<Rightarrow> int \<Rightarrow> int \<Rightarrow> salary_data \<Rightarrow> string option \<Rightarrow> salary_doc" where
  "new_salary ws tm month year d userId = \<lparr>sl_workspaceId = ws, sl_teamMemberId = tm, sl_month = month, sl_year = year,
     sl_data = d, sl_status = Pending_pay, sl_isLocked = False, sl_lockedBy = None, sl_lockedAt = None,
     sl_createdBy = userId, sl_updatedBy = None\<rparr>"

definition ensureSalaryRecord :: "pay_env \<Rightarrow> string \<Rightarrow> string \<Rightarrow> int \<Rightarrow> int \<Rightarrow> string option \<Rightarrow> pay_store \<Rightarrow> nat pay" where
  "ensureSalaryRecord en ws tm month year userId st =
     (case find_salary st ws tm month year of
        Some i \<Rightarrow> if is_locked st i then (Inr i, st)
                  else and_then (refresh_piece en ws tm i st) (\<lambda>_ st1. settle_record en ws tm i userId st1)
      | None \<Rightarrow> and_then (buildSalaryRecordData en ws tm month year 0 0 st) (\<lambda>d st1.
          let i = length (ps_salaries st1)
          in settle_record en ws tm i userId (st1\<lparr>ps_salaries := ps_salaries st1 @ [new_salary ws tm month year d userId]\<rparr>)))"

end
