(* ===== verification/AdvanceRecovery.thy ===== *)
theory AdvanceRecovery
  imports SalaryRuns PaySchedule
begin

text \<open>
  Recovering an advance from future salaries: the compliance guard of one installment
  (\<open>salary/compliance-guard.service.ts\<close>), the deduction of one month and the plan over several
  months (\<open>createAdvanceRecoveryDeduction\<close>, \<open>createAdvanceRecoveryPlan\<close> and
  \<open>applyComplianceGuard\<close> of \<open>salary/salary.service.ts\<close>).  A plan is validated month by month
  before its first deduction is written.
\<close>

section \<open>The compliance guard\<close>

datatype breach_code = Deduction_cap | Min_wage_floor
datatype compliance_warning = Min_wage_unconfigured | Advisory_one_third | Advisory_12_month

record guard_input =
  gi_proposedInstallment :: rat
  gi_currentTotalDeductions :: rat
  gi_grossSalaryForMonth :: rat
  gi_netSalaryBeforeRecovery :: rat
  gi_minimumWageMonthly :: "rat option"
  gi_deductionCapPercent :: rat
  gi_periodicWages :: rat
  gi_schedule :: "(nat \<times> nat) option" \<comment> \<open>the months of the schedule and the advisory maximum\<close>

record guard_result =
  gr_breaches :: "(breach_code \<times> rat) list"
  gr_warnings :: "compliance_warning list"
  gr_allowedInstallment :: rat

definition cap_rule :: "guard_input \<Rightarrow> (breach_code \<times> rat) list \<times> rat" where
  "cap_rule g =
     (let capCeiling = round2 (jdiv (jmul (gi_grossSalaryForMonth g) (gi_deductionCapPercent g)) 100);
          totalWithProposed = round2 (jadd (gi_currentTotalDeductions g) (gi_proposedInstallment g))
      in if totalWithProposed > capCeiling
         then (let m = round2 (max 0 (jsub capCeiling (gi_currentTotalDeductions g))) in ([(Deduction_cap, m)], m))
         else ([], gi_proposedInstallment g))"

definition floor_rule :: "guard_input \<Rightarrow> rat \<Rightarrow> (breach_code \<times> rat) list \<times> rat" where
  "floor_rule g allowed = (case gi_minimumWageMonthly g of
       None \<Rightarrow> ([], allowed)
     | Some wage \<Rightarrow>
         if round2 (jsub (gi_netSalaryBeforeRecovery g) allowed) < wage
         then (let m = round2 (max 0 (jsub (gi_netSalaryBeforeRecovery g) wage)) in ([(Min_wage_floor, m)], min allowed m))
         else ([], allowed))"

definition guard_warnings :: "guard_input \<Rightarrow> compliance_warning list" where
  "guard_warnings g =
     (if gi_minimumWageMonthly g = None then [Min_wage_unconfigured] else [])
     @ (if gi_proposedInstallment g > jdiv (gi_periodicWages g) 3 then [Advisory_one_third] else [])
     @ (case gi_schedule g of None \<Rightarrow> [] | Some (n, maxMonths) \<Rightarrow> if n > maxMonths then [Advisory_12_month] else [])"

definition evaluate :: "guard_input \<Rightarrow> guard_result" where
  "evaluate g =
     (let (b1, a1) = cap_rule g; (b2, a2) = floor_rule g a1
      in \<lparr>gr_breaches = b1 @ b2, gr_warnings = guard_warnings g, gr_allowedInstallment = max 0 a2\<rparr>)"

section \<open>The deduction of one month\<close>

definition createAdvanceRecoveryDeduction ::
  "pay_env \<Rightarrow> string \<Rightarrow> string \<Rightarrow> int \<Rightarrow> int \<Rightarrow> rat \<Rightarrow> nat \<Rightarrow> string \<Rightarrow> (nat \<times> nat) option \<Rightarrow> pay_store \<Rightarrow> nat option pay" where
  \<comment> \<open>the last argument but the store is the plan and the index of the installment\<close>
  "createAdvanceRecoveryDeduction en ws tm month year amount sourcePaymentId userId plan st =
     (if amount \<le> 0 then (Inr None, st)
      else and_then (ensureSalaryRecord en ws tm month year (Some userId) st) (\<lambda>i st1.
        let row = (new_adjustment (ps_salaries st1 ! i) i ws Deduction ''advance_recovery'' amount System userId)
              \<lparr>aj_teamMemberId := tm, aj_month := month, aj_year := year, aj_advanceSourcePaymentId := Some sourcePaymentId,
               aj_advanceRecoveryPlanId := map_option fst plan, aj_planInstallmentIndex := map_option snd plan\<rparr>;
            k = length (ps_adjustments st1)
        in and_then (recalculateSalaryFromAdjustments en i (Some userId) True (add_adjustment row st1))
             (\<lambda>_ st2. (Inr (Some k), st2))))"

section \<open>Plans\<close>

record plan_request =
  pq_ws :: string
  pq_tm :: string
  pq_sourcePaymentId :: nat
  pq_totalAmount :: rat
  pq_startMonth :: int
  pq_startYear :: int
  pq_installmentCount :: "rat option"
  pq_installmentAmount :: "rat option"
  pq_userId :: string
  pq_overrideCompliance :: bool
  pq_overrideReason :: string

record validated_month =
  vm_index :: nat
  vm_month :: int
  vm_year :: int
  vm_plannedAmount :: rat
  vm_effectiveAmount :: rat

record plan_walk =
  wk_month :: int
  wk_year :: int
  wk_shortfall :: rat
  wk_months :: "validated_month list"
  wk_breaches :: "(int \<times> int) list"
  wk_warnings :: "compliance_warning list"

definition applyComplianceGuard ::
  "guard_input \<Rightarrow> int \<Rightarrow> int \<Rightarrow> bool \<Rightarrow> string \<Rightarrow> salary_error + rat \<times> (int \<times> int) list \<times> compliance_warning list" where
  \<comment> \<open>the amount allowed, the breaches to report and the warnings\<close>
  "applyComplianceGuard g month year overrideCompliance overrideReason =
     (let r = evaluate g in
      if gr_breaches r = [] then Inr (gi_proposedInstallment g, [], gr_warnings r)
      else if \<not> overrideCompliance
      then Inr (gi_proposedInstallment g, map (\<lambda>_. (month, year)) (gr_breaches r), gr_warnings r)
      else if trim overrideReason = '''' then Inl Override_reason_required
      else Inr (gr_allowedInstallment r, [], gr_warnings r))"

definition cap_basis :: "pay_member \<Rightarrow> rat \<Rightarrow> rat" where
  "cap_basis m x = (if pm_salaryType m = Some Piece_rate then max x (coalesce (pm_salaryAmount m) 0) else x)"

definition following_month :: "int \<Rightarrow> int \<Rightarrow> int \<times> int" where
  "following_month month year = (if month + 1 > 12 then (1, year + 1) else (month + 1, year))"

definition validate_month ::
  "pay_env \<Rightarrow> plan_request \<Rightarrow> pay_member \<Rightarrow> rat \<Rightarrow> bool \<Rightarrow> (nat \<times> nat) option \<Rightarrow> plan_walk \<Rightarrow> pay_store \<Rightarrow> plan_walk pay" where
  \<comment> \<open>one month of the first pass: an installment, or what is carried from earlier months\<close>
  "validate_month en q m plannedAmount isCarry schedule w st =
     and_then (ensureSalaryRecord en (pq_ws q) (pq_tm q) (wk_month w) (wk_year w) (Some (pq_userId q)) st) (\<lambda>i st1.
       let d = sl_data (ps_salaries st1 ! i);
           availableNet = max 0 (cap_basis m (sd_netSalary d));
           gross = cap_basis m (jadd (sd_baseSalary d) (sd_additions d));
           g = \<lparr>gi_proposedInstallment = plannedAmount, gi_currentTotalDeductions = sd_deductions d, gi_grossSalaryForMonth = gross,
                gi_netSalaryBeforeRecovery = availableNet,
                gi_minimumWageMonthly = (case en_minimumWageOverride en (pq_tm q) of Some v \<Rightarrow> Some v | None \<Rightarrow> en_minimumWageMonthly en),
                gi_deductionCapPercent = en_deductionCapPercent en, gi_periodicWages = gross, gi_schedule = schedule\<rparr>
       in case applyComplianceGuard g (wk_month w) (wk_year w) (pq_overrideCompliance q) (pq_overrideReason q) of
            Inl e \<Rightarrow> (Inl e, st1)
          | Inr (allowed, breaches, warnings) \<Rightarrow>
              (let applied = roundCurrency (min (if pq_overrideCompliance q then allowed else plannedAmount) availableNet);
                   row = \<lparr>vm_index = length (wk_months w) + 1, vm_month = wk_month w, vm_year = wk_year w,
                          vm_plannedAmount = plannedAmount, vm_effectiveAmount = applied\<rparr>;
                   shortfall = (if isCarry then roundCurrency (jsub (wk_shortfall w) applied)
                                else if applied < plannedAmount
                                then roundCurrency (jadd (wk_shortfall w) (jsub plannedAmount applied)) else wk_shortfall w)
               in (Inr (w\<lparr>wk_month := fst (following_month (wk_month w) (wk_year w)), wk_year := snd (following_month (wk_month w) (wk_year w)),
                          wk_shortfall := shortfall, wk_months := wk_months w @ [row],
                          wk_breaches := wk_breaches w @ breaches, wk_warnings := wk_warnings w @ warnings\<rparr>), st1)))"

fun validate_installments :: "pay_env \<Rightarrow> plan_request \<Rightarrow> pay_member \<Rightarrow> nat \<Rightarrow> rat list \<Rightarrow> plan_walk \<Rightarrow> pay_store \<Rightarrow> plan_walk pay" where
  "validate_installments en q m n [] w st = (Inr w, st)"
| "validate_installments en q m n (p # ps) w st =
     and_then (validate_month en q m p False (Some (n, en_advisoryMaxMonths en)) w st)
       (\<lambda>w1 st1. validate_installments en q m n ps w1 st1)"

fun validate_carries :: "pay_env \<Rightarrow> plan_request \<Rightarrow> pay_member \<Rightarrow> nat \<Rightarrow> plan_walk \<Rightarrow> pay_store \<Rightarrow> plan_walk pay" where
  \<comment> \<open>at most this many further months\<close>
  "validate_carries en q m 0 w st = (Inr w, st)"
| "validate_carries en q m (Suc left) w st =
     (if wk_shortfall w > 0
      then and_then (validate_month en q m (wk_shortfall w) True None w st)
             (\<lambda>w1 st1. validate_carries en q m left w1 st1)
      else (Inr w, st))"

definition max_extra :: nat where "max_extra = 12"

definition first_pass :: "pay_env \<Rightarrow> plan_request \<Rightarrow> pay_member \<Rightarrow> rat list \<Rightarrow> pay_store \<Rightarrow> plan_walk pay" where
  "first_pass en q m planned st =
     and_then (validate_installments en q m (length planned) planned
         \<lparr>wk_month = pq_startMonth q, wk_year = pq_startYear q, wk_shortfall = 0, wk_months = [], wk_breaches = [], wk_warnings = []\<rparr> st)
       (\<lambda>w st1. and_then (validate_carries en q m max_extra w st1)
         (\<lambda>w2 st2. if wk_breaches w2 \<noteq> [] then (Inl (Compliance_breach (wk_breaches w2)), st2) else (Inr w2, st2)))"

fun second_pass :: "pay_env \<Rightarrow> plan_request \<Rightarrow> nat \<Rightarrow> validated_month list \<Rightarrow> pay_store \<Rightarrow> plan_entry list pay" where
  "second_pass en q planId [] st = (Inr [], st)"
| "second_pass en q planId (v # vs) st =
     and_then (createAdvanceRecoveryDeduction en (pq_ws q) (pq_tm q) (vm_month v) (vm_year v) (vm_effectiveAmount v)
         (pq_sourcePaymentId q) (pq_userId q) (Some (planId, vm_index v)) st)
       (\<lambda>adj st1. and_then (second_pass en q planId vs st1) (\<lambda>es st2.
          (Inr (\<lparr>ie_index = vm_index v, ie_month = vm_month v, ie_year = vm_year v, ie_plannedAmount = vm_plannedAmount v,
             ie_appliedAmount = vm_effectiveAmount v, ie_adjustmentId = adj,
             ie_status = (if vm_effectiveAmount v \<ge> vm_plannedAmount v then Applied_entry else Carried)\<rparr> # es), st2)))"

definition createAdvanceRecoveryPlan :: "pay_env \<Rightarrow> plan_request \<Rightarrow> pay_store \<Rightarrow> nat pay" where
  "createAdvanceRecoveryPlan en q st =
     (case buildInstallmentSchedule (pq_totalAmount q) (pq_installmentCount q) (pq_installmentAmount q) of
        Inl _ \<Rightarrow> (Inl Bad_installments, st)
      | Inr planned \<Rightarrow>
          (case find_member st (pq_tm q) of
             None \<Rightarrow> (Inl Member_not_found, st)
           | Some m \<Rightarrow>
               and_then (first_pass en q m planned st) (\<lambda>w st1.
                 let planId = length (ps_plans st1) in
                 and_then (second_pass en q planId (wk_months w) st1) (\<lambda>es st2.
                   (Inr planId, st2\<lparr>ps_plans := ps_plans st2 @ [\<lparr>rp_workspaceId = pq_ws q, rp_teamMemberId = pq_tm q,
                      rp_sourcePaymentId = pq_sourcePaymentId q, rp_totalAmount = pq_totalAmount q,
                      rp_installmentAmount = (case planned of [] \<Rightarrow> 0 | p # _ \<Rightarrow> p),
                      rp_startMonth = pq_startMonth q, rp_startYear = pq_startYear q, rp_status = ''active'',
                      rp_recoveredAmount = 0, rp_remainingAmount = pq_totalAmount q, rp_installments = es,
                      rp_linkedAdjustmentIds = List.map_filter ie_adjustmentId es, rp_closureType = None\<rparr>]\<rparr>)))))"

end
