(* ===== verification/SalaryPayments.thy ===== *)
theory SalaryPayments
  imports AdvanceRecovery
begin

text \<open>
  The operations on a salary record that users call (\<open>salary/salary.service.ts\<close>): adjustments and
  their reversal, payments and their reversal, locking and unlocking.  The finance ledger behind a
  payment is a stub that never posts (\<open>salary/salary-ledger-posting.service.ts\<close>), the window gate
  of \<open>salary/salary-disbursement-guard.service.ts\<close> is disabled, and audit events and analytics
  have no effect on the documents.
\<close>

section \<open>Adjustments\<close>

definition addition_categories :: "string list" where
  "addition_categories = [''bonus'', ''overtime'', ''reimbursement'', ''allowance'', ''incentive'', ''commission'', ''other'',
     ''loan_perquisite'']"

definition deduction_categories :: "string list" where
  "deduction_categories = [''penalty'', ''advance_recovery'', ''loan_recovery'', ''fine'', ''absence_recovery'', ''other'',
     ''pf_employee'', ''esi_employee'', ''pt_employee'', ''tds_employee'', ''lwf_employee'']"

definition validateAdjustmentCategory :: "adjustment_type \<Rightarrow> string \<Rightarrow> bool" where
  \<comment> \<open>whether the check passes\<close>
  "validateAdjustmentCategory ty cat \<longleftrightarrow> cat \<in> set (case ty of Addition \<Rightarrow> addition_categories | Deduction \<Rightarrow> deduction_categories)"

record adjustment_input =
  ai_type :: adjustment_type
  ai_category :: string
  ai_amount :: rat
  ai_correctionOf :: "nat option"

definition salary_of :: "pay_store \<Rightarrow> string \<Rightarrow> nat \<Rightarrow> salary_doc option" where
  \<comment> \<open>the record with this identifier, if it belongs to the workspace\<close>
  "salary_of st ws i = (case salary_at st i of None \<Rightarrow> None | Some d \<Rightarrow> if sl_workspaceId d = ws then Some d else None)"

definition adjustment_of :: "pay_store \<Rightarrow> string \<Rightarrow> nat \<Rightarrow> adjustment_doc option" where
  "adjustment_of st ws k = (case nth_doc (ps_adjustments st) k of None \<Rightarrow> None
     | Some a \<Rightarrow> if aj_workspaceId a = ws then Some a else None)"

definition correction_error :: "pay_store \<Rightarrow> string \<Rightarrow> nat \<Rightarrow> nat option \<Rightarrow> salary_error option" where
  "correction_error st ws i src = (case src of
       None \<Rightarrow> None
     | Some k \<Rightarrow> (case adjustment_of st ws k of
           None \<Rightarrow> Some Correction_source_not_found
         | Some a \<Rightarrow> if aj_salaryId a \<noteq> i then Some Correction_of_other_salary
                     else if aj_active a then Some Correction_source_active else None))"

definition createAdjustment :: "pay_env \<Rightarrow> string \<Rightarrow> nat \<Rightarrow> string \<Rightarrow> adjustment_input \<Rightarrow> pay_store \<Rightarrow> nat pay" where
  "createAdjustment en ws i userId dto st =
     (if \<not> feature en ''adjustments'' then (Inl (Feature_disabled ''adjustments''), st)
      else case salary_of st ws i of
        None \<Rightarrow> (Inl Salary_not_found, st)
      | Some d \<Rightarrow>
          guarded [(\<not> is_locked st i, Salary_locked),
                   (not_self_edit en userId (sl_teamMemberId d), Self_edit_blocked),
                   (member_writable st ws (sl_teamMemberId d), Member_offboarded),
                   (validateAdjustmentCategory (ai_type dto) (ai_category dto), Invalid_category)]
            (case correction_error st ws i (ai_correctionOf dto) of
               Some e \<Rightarrow> (Inl e, st)
             | None \<Rightarrow>
                 (let row = (new_adjustment d i ws (ai_type dto) (ai_category dto) (ai_amount dto) Manual userId)
                        \<lparr>aj_correctionOf := ai_correctionOf dto\<rparr>;
                      k = length (ps_adjustments st)
                  in and_then (recalculateSalaryFromAdjustments en i (Some userId) False (add_adjustment row st))
                       (\<lambda>_ st1. (Inr k, st1)))) st)"

definition update_adjustment :: "nat \<Rightarrow> (adjustment_doc \<Rightarrow> adjustment_doc) \<Rightarrow> pay_store \<Rightarrow> pay_store" where
  "update_adjustment k f st = st\<lparr>ps_adjustments := (ps_adjustments st)[k := f (ps_adjustments st ! k)]\<rparr>"

definition reversed :: "string \<Rightarrow> string \<Rightarrow> adjustment_doc \<Rightarrow> adjustment_doc" where
  "reversed userId reason a = a\<lparr>aj_active := False, aj_reversedBy := Some userId, aj_reversalReason := Some reason\<rparr>"

definition reverseAdjustment :: "pay_env \<Rightarrow> string \<Rightarrow> nat \<Rightarrow> string \<Rightarrow> string \<Rightarrow> pay_store \<Rightarrow> unit pay" where
  "reverseAdjustment en ws k userId reason st =
     (if \<not> feature en ''adjustments'' then (Inl (Feature_disabled ''adjustments''), st)
      else case adjustment_of st ws k of
        None \<Rightarrow> (Inl Adjustment_not_found, st)
      | Some a \<Rightarrow>
          guarded [(\<not> is_locked st (aj_salaryId a), Salary_locked),
                   (not_self_edit en userId (aj_teamMemberId a), Self_edit_blocked),
                   (member_writable st ws (aj_teamMemberId a), Member_offboarded),
                   (aj_active a, Adjustment_already_reversed),
                   (aj_source a = Manual, Adjustment_auto_generated)]
            (let st1 = update_adjustment k (reversed userId (trim reason)) st in
             case salary_of st1 ws (aj_salaryId a) of
               None \<Rightarrow> (Inl Salary_not_found, st1)
             | Some _ \<Rightarrow> recalculateSalaryFromAdjustments en (aj_salaryId a) (Some userId) False st1) st)"

definition reverseAdjustmentDoc :: "pay_env \<Rightarrow> string \<Rightarrow> string \<Rightarrow> nat \<Rightarrow> pay_store \<Rightarrow> unit pay" where
  "reverseAdjustmentDoc en userId reason k st =
     (let st1 = update_adjustment k (reversed userId reason) st; i = aj_salaryId (ps_adjustments st ! k)
      in if salary_at st1 i \<noteq> None then recalculateSalaryFromAdjustments en i (Some userId) True st1 else (Inr (), st1))"

section \<open>Recording a payment\<close>

record payment_input =
  pi_salaryId :: "nat option"
  pi_target :: "(string \<times> int \<times> int) option" \<comment> \<open>member, month and year, when all are given\<close>
  pi_amount :: rat
  pi_paymentMode :: string
  pi_hasSplitLines :: bool
  pi_commission :: "rat option"
  pi_nextMonth :: bool \<comment> \<open>\<open>advanceTarget === 'next_month'\<close>\<close>
  pi_installments :: "(rat option \<times> rat option) option" \<comment> \<open>count and amount\<close>
  pi_overrideCompliance :: bool
  pi_overrideReason :: string

definition createPaymentLinkedAddition :: "string \<Rightarrow> nat \<Rightarrow> string \<Rightarrow> rat \<Rightarrow> string \<Rightarrow> pay_store \<Rightarrow> nat list \<times> pay_store" where
  \<comment> \<open>the identifier of the row, if one was written\<close>
  "createPaymentLinkedAddition ws i userId amount cat st =
     (if amount \<le> 0 then ([], st)
      else ([length (ps_adjustments st)],
            add_adjustment (new_adjustment (ps_salaries st ! i) i ws Addition cat amount Payment_recording userId) st))"

definition target_salary :: "pay_env \<Rightarrow> string \<Rightarrow> string \<Rightarrow> payment_input \<Rightarrow> pay_store \<Rightarrow> nat pay" where
  \<comment> \<open>the record that is paid\<close>
  "target_salary en ws userId dto st =
     (case pi_salaryId dto of
        Some i \<Rightarrow>
          if is_locked st i then (Inl Salary_locked, st)
          else if salary_of st ws i = None then (Inl Salary_not_found, st) else (Inr i, st)
      | None \<Rightarrow> (case pi_target dto of
            None \<Rightarrow> (Inl Salary_not_found, st)
          | Some (tm, month, year) \<Rightarrow>
              if \<not> member_writable st ws tm then (Inl Member_offboarded, st)
              else and_then (ensureSalaryRecord en ws tm month year (Some userId) st) (\<lambda>i st1.
                     if is_locked st1 i then (Inl Salary_locked, st1) else (Inr i, st1))))"

record payment_parts =
  pp_linked :: "nat list"
  pp_advance :: "(int \<times> int \<times> rat) option"

definition is_duplicate :: "pay_env \<Rightarrow> nat \<Rightarrow> payment_input \<Rightarrow> payment_doc \<Rightarrow> bool" where
  "is_duplicate en i dto p \<longleftrightarrow> py_salaryId p = i \<and> py_amount p = pi_amount dto
     \<and> py_commission p = coalesce (pi_commission dto) 0 \<and> py_createdAt p \<ge> en_now en - 60000"

definition linked_additions :: "pay_env \<Rightarrow> string \<Rightarrow> nat \<Rightarrow> string \<Rightarrow> payment_input \<Rightarrow> pay_store \<Rightarrow> payment_parts pay" where
  \<comment> \<open>the additions written before the payment, and the part of it that is an advance\<close>
  "linked_additions en ws i userId dto st =
     (let d = ps_salaries st ! i;
          outstanding = max 0 (jsub (sd_netSalary (sl_data d)) (sumPaidAmountForSalary st i));
          commissionAmount = max 0 (coalesce (pi_commission dto) 0);
          excess = max 0 (jsub (pi_amount dto) outstanding);
          (l1, st1) = (if commissionAmount > 0 then createPaymentLinkedAddition ws i userId commissionAmount ''commission'' st else ([], st))
      in if excess > 0 \<and> \<not> feature en ''advancePayments'' then (Inl (Feature_disabled ''advancePayments''), st1)
         else (let (l2, adv, st2) =
                 (if excess > 0
                  then (if pi_nextMonth dto
                        then (case following_month (sl_month d) (sl_year d) of (m, y) \<Rightarrow> ([], Some (m, y, excess), st1))
                        else (case createPaymentLinkedAddition ws i userId excess ''other'' st1 of (l, s) \<Rightarrow> (l, None, s)))
                  else ([], None, st1))
               in and_then (if commissionAmount > 0 \<or> excess > 0
                            then recalculateSalaryFromAdjustments en i (Some userId) False st2 else (Inr (), st2))
                    (\<lambda>_ st3. (Inr \<lparr>pp_linked = l1 @ l2, pp_advance = adv\<rparr>, st3))))"

definition payment_of :: "pay_env \<Rightarrow> string \<Rightarrow> nat \<Rightarrow> string \<Rightarrow> payment_input \<Rightarrow> string \<Rightarrow> (int \<times> int \<times> rat) option \<Rightarrow> payment_doc" where
  "payment_of en ws i userId dto tm adv = \<lparr>py_workspaceId = ws, py_teamMemberId = tm, py_salaryId = i, py_amount = pi_amount dto,
     py_commission = coalesce (pi_commission dto) 0, py_paymentMode = pi_paymentMode dto, py_recordedBy = userId,
     py_isAdvance = (adv \<noteq> None), py_advanceFor = map_option (\<lambda>(m, y, _). (m, y)) adv,
     py_advanceRecoveryAdjustmentId = None, py_advanceRecoveryPlanId = None, py_advanceRequestId = None, py_active = True, py_createdAt = en_now en,
     py_reversedBy = None, py_reversalReason = None\<rparr>"

definition update_payment :: "nat \<Rightarrow> (payment_doc \<Rightarrow> payment_doc) \<Rightarrow> pay_store \<Rightarrow> pay_store" where
  "update_payment p f st = st\<lparr>ps_payments := (ps_payments st)[p := f (ps_payments st ! p)]\<rparr>"

definition several_installments :: "payment_input \<Rightarrow> bool" where
  "several_installments dto = (case pi_installments dto of
     None \<Rightarrow> False
   | Some (count, amount) \<Rightarrow> (case count of None \<Rightarrow> True | Some c \<Rightarrow> c > 1) \<or> amount \<noteq> None)"

definition schedule_recovery :: "pay_env \<Rightarrow> string \<Rightarrow> string \<Rightarrow> payment_input \<Rightarrow> string \<Rightarrow> nat \<Rightarrow> (int \<times> int \<times> rat) option \<Rightarrow> pay_store \<Rightarrow> unit pay" where
  \<comment> \<open>how an advance is taken back: over several months or from the next one\<close>
  "schedule_recovery en ws userId dto tm p adv st =
     (case adv of
        None \<Rightarrow> (Inr (), st)
      | Some (month, year, amount) \<Rightarrow>
          if several_installments dto
          then and_then (createAdvanceRecoveryPlan en \<lparr>pq_ws = ws, pq_tm = tm, pq_sourcePaymentId = p, pq_totalAmount = amount,
                   pq_startMonth = month, pq_startYear = year,
                   pq_installmentCount = (case pi_installments dto of None \<Rightarrow> None | Some (c, _) \<Rightarrow> c),
                   pq_installmentAmount = (case pi_installments dto of None \<Rightarrow> None | Some (_, a) \<Rightarrow> a),
                   pq_userId = userId, pq_overrideCompliance = pi_overrideCompliance dto,
                   pq_overrideReason = pi_overrideReason dto\<rparr> st)
                 (\<lambda>plan st1. (Inr (), update_payment p (\<lambda>d. d\<lparr>py_advanceRecoveryPlanId := Some plan\<rparr>) st1))
          else and_then (createAdvanceRecoveryDeduction en ws tm month year amount p userId None st)
                 (\<lambda>k st1. (Inr (), case k of None \<Rightarrow> st1
                    | Some _ \<Rightarrow> update_payment p (\<lambda>d. d\<lparr>py_advanceRecoveryAdjustmentId := k\<rparr>) st1)))"

definition save_payment :: "payment_doc \<Rightarrow> nat list \<Rightarrow> pay_store \<Rightarrow> pay_store" where
  \<comment> \<open>the payment, and the link from the additions written for it\<close>
  "save_payment p linked st = st\<lparr>ps_payments := ps_payments st @ [p],
     ps_adjustments := map (\<lambda>(k, a). if k \<in> set linked then a\<lparr>aj_linkedPaymentId := Some (length (ps_payments st))\<rparr> else a)
       (enumerate 0 (ps_adjustments st))\<rparr>"

definition settle_payment :: "pay_env \<Rightarrow> string \<Rightarrow> nat \<Rightarrow> string \<Rightarrow> payment_input \<Rightarrow> payment_parts \<Rightarrow> pay_store \<Rightarrow> nat pay" where
  "settle_payment en ws i userId dto parts st =
     (let tm = sl_teamMemberId (ps_salaries st ! i); p = length (ps_payments st);
          st1 = save_payment (payment_of en ws i userId dto tm (pp_advance parts)) (pp_linked parts) st
      in and_then (schedule_recovery en ws userId dto tm p (pp_advance parts) st1)
           (\<lambda>_ st2. (Inr p, syncSalaryStatus i st2)))"

definition payment_checks :: "pay_env \<Rightarrow> string \<Rightarrow> nat \<Rightarrow> string \<Rightarrow> payment_input \<Rightarrow> pay_store \<Rightarrow> (bool \<times> salary_error) list" where
  "payment_checks en ws i userId dto st =
     (let tm = sl_teamMemberId (ps_salaries st ! i); commission = coalesce (pi_commission dto) 0 in
      [(not_self_edit en userId tm, Self_edit_blocked),
       (member_writable st ws tm, Member_offboarded),
       (pi_paymentMode dto = ''split'' \<or> pi_hasSplitLines dto \<longrightarrow> feature en ''splitPayments'', Feature_disabled ''splitPayments''),
       (commission > 0 \<longrightarrow> feature en ''commissionTracking'', Feature_disabled ''commissionTracking''),
       (\<not> (pi_amount dto = 0 \<and> commission \<le> 0), Nothing_to_pay)])"

definition pay_record :: "pay_env \<Rightarrow> string \<Rightarrow> nat \<Rightarrow> string \<Rightarrow> payment_input \<Rightarrow> pay_store \<Rightarrow> nat pay" where
  \<comment> \<open>from the checks on the record on\<close>
  "pay_record en ws i userId dto st =
     guarded (payment_checks en ws i userId dto st)
       (and_then (linked_additions en ws i userId dto st) (\<lambda>parts st1.
          if list_ex (is_duplicate en i dto) (ps_payments st1) then (Inl Duplicate_payment, st1)
          else settle_payment en ws i userId dto parts st1)) st"

definition recordPayment :: "pay_env \<Rightarrow> string \<Rightarrow> string \<Rightarrow> payment_input \<Rightarrow> pay_store \<Rightarrow> nat pay" where
  "recordPayment en ws userId dto st =
     and_then (target_salary en ws userId dto st) (\<lambda>i st1. pay_record en ws i userId dto st1)"

fun record_all :: "pay_env \<Rightarrow> string \<Rightarrow> string \<Rightarrow> payment_input list \<Rightarrow> pay_store \<Rightarrow> (salary_error + nat) list \<times> pay_store" where
  \<comment> \<open>the loop of \<open>recordBulkPayment\<close>: a failed payment is reported and the next one tried\<close>
  "record_all en ws userId [] st = ([], st)"
| "record_all en ws userId (dto # dtos) st =
     (let (r, st1) = recordPayment en ws userId dto st; (rs, st2) = record_all en ws userId dtos st1 in (r # rs, st2))"

definition recordBulkPayment :: "pay_env \<Rightarrow> string \<Rightarrow> string \<Rightarrow> payment_input list \<Rightarrow> pay_store \<Rightarrow> (salary_error + nat) list pay" where
  "recordBulkPayment en ws userId dtos st =
     (if \<not> feature en ''bulkPayments'' then (Inl (Feature_disabled ''bulkPayments''), st)
      else (case record_all en ws userId dtos st of (rs, st1) \<Rightarrow> (Inr rs, st1)))"

section \<open>Reversing a payment\<close>

fun reverse_docs :: "pay_env \<Rightarrow> string \<Rightarrow> string \<Rightarrow> nat list \<Rightarrow> pay_store \<Rightarrow> unit pay" where
  "reverse_docs en userId reason [] st = (Inr (), st)"
| "reverse_docs en userId reason (k # ks) st =
     and_then (reverseAdjustmentDoc en userId reason k st) (\<lambda>_ st1. reverse_docs en userId reason ks st1)"

definition linked_rows :: "pay_store \<Rightarrow> nat \<Rightarrow> nat list" where
  "linked_rows st p = filter (\<lambda>k. aj_linkedPaymentId (ps_adjustments st ! k) = Some p \<and> aj_active (ps_adjustments st ! k))
     [0..<length (ps_adjustments st)]"

definition still_active :: "pay_store \<Rightarrow> nat \<Rightarrow> bool" where
  "still_active st k = (case nth_doc (ps_adjustments st) k of None \<Rightarrow> False | Some a \<Rightarrow> aj_active a)"

fun reverse_entries :: "pay_env \<Rightarrow> string \<Rightarrow> string \<Rightarrow> plan_entry list \<Rightarrow> pay_store \<Rightarrow> plan_entry list pay" where
  \<comment> \<open>the installments of a plan that are not reversed yet\<close>
  "reverse_entries en userId reason [] st = (Inr [], st)"
| "reverse_entries en userId reason (e # es) st =
     (if ie_status e = Reversed_entry
      then and_then (reverse_entries en userId reason es st) (\<lambda>es' st2. (Inr (e # es'), st2))
      else and_then (case ie_adjustmentId e of
               None \<Rightarrow> (Inr (), st)
             | Some k \<Rightarrow> if still_active st k then reverseAdjustmentDoc en userId reason k st else (Inr (), st))
             (\<lambda>_ st1. and_then (reverse_entries en userId reason es st1)
                (\<lambda>es' st2. (Inr (e\<lparr>ie_status := Reversed_entry\<rparr> # es'), st2))))"

definition reverse_plan :: "pay_env \<Rightarrow> string \<Rightarrow> string \<Rightarrow> nat \<Rightarrow> pay_store \<Rightarrow> unit pay" where
  "reverse_plan en userId reason plan st =
     (case nth_doc (ps_plans st) plan of
        None \<Rightarrow> (Inr (), st)
      | Some r \<Rightarrow>
          if rp_status r = ''reversed'' then (Inr (), st)
          else and_then (reverse_entries en userId reason (rp_installments r) st) (\<lambda>es st1.
             (Inr (), st1\<lparr>ps_plans := (ps_plans st1)[plan := r\<lparr>rp_installments := es, rp_status := ''reversed'',
                rp_closureType := Some ''reversed'', rp_remainingAmount := 0\<rparr>]\<rparr>)))"

definition reverse_recovery :: "pay_env \<Rightarrow> string \<Rightarrow> string \<Rightarrow> payment_doc \<Rightarrow> pay_store \<Rightarrow> unit pay" where
  \<comment> \<open>a single deduction, or a plan when there is no single deduction\<close>
  "reverse_recovery en userId reason p st =
     (if \<not> py_isAdvance p then (Inr (), st)
      else case py_advanceRecoveryAdjustmentId p of
        Some k \<Rightarrow> if still_active st k then reverseAdjustmentDoc en userId reason k st else (Inr (), st)
      | None \<Rightarrow> (case py_advanceRecoveryPlanId p of
            None \<Rightarrow> (Inr (), st)
          | Some plan \<Rightarrow> reverse_plan en userId reason plan st))"

definition reversePayment :: "pay_env \<Rightarrow> string \<Rightarrow> nat \<Rightarrow> string \<Rightarrow> string \<Rightarrow> pay_store \<Rightarrow> unit pay" where
  "reversePayment en ws p userId reason st =
     (case (case nth_doc (ps_payments st) p of None \<Rightarrow> None | Some d \<Rightarrow> if py_workspaceId d = ws then Some d else None) of
        None \<Rightarrow> (Inl Payment_not_found, st)
      | Some d \<Rightarrow>
          guarded [(\<not> is_locked st (py_salaryId d), Salary_locked),
                   (not_self_edit en userId (py_teamMemberId d), Self_edit_blocked),
                   (member_writable st ws (py_teamMemberId d), Member_offboarded),
                   (py_active d, Payment_already_reversed)]
            (let st1 = update_payment p (\<lambda>x. x\<lparr>py_active := False, py_reversedBy := Some userId,
                         py_reversalReason := Some (trim reason)\<rparr>) st
             in and_then (reverse_docs en userId (trim reason) (linked_rows st1 p) st1) (\<lambda>_ st2.
                and_then (reverse_recovery en userId (trim reason) d st2) (\<lambda>_ st3.
                  if salary_of st3 ws (py_salaryId d) = None then (Inr (), st3)
                  else recalculateSalaryFromAdjustments en (py_salaryId d) (Some userId) False st3))) st)"

section \<open>Locking\<close>

definition recomputePieceRateForSalary :: "pay_env \<Rightarrow> nat \<Rightarrow> pay_member \<Rightarrow> string \<Rightarrow> pay_store \<Rightarrow> unit pay" where
  "recomputePieceRateForSalary en i m userId st =
     (let d = ps_salaries st ! i in
      case computePieceRateEarnings en (sl_workspaceId d) m (sl_month d) (sl_year d) of
        Inl e \<Rightarrow> (Inl e, st)
      | Inr p \<Rightarrow> applyStatutoryDeductions en (sl_workspaceId d) i m
          (update_salary i (\<lambda>d. d\<lparr>sl_data := (sl_data d)\<lparr>sd_piece := Some p\<rparr>, sl_updatedBy := Some userId\<rparr>) st))"

definition lockSalaryRecord :: "pay_env \<Rightarrow> string \<Rightarrow> nat \<Rightarrow> string \<Rightarrow> pay_store \<Rightarrow> unit pay" where
  "lockSalaryRecord en ws i userId st =
     (case salary_of st ws i of
        None \<Rightarrow> (Inl Salary_not_found, st)
      | Some d \<Rightarrow>
          guarded [(\<not> sl_isLocked d, Already_locked), (not_self_edit en userId (sl_teamMemberId d), Self_edit_blocked)]
            (and_then (case find_member st (sl_teamMemberId d) of
                 Some m \<Rightarrow> if pm_salaryType m = Some Piece_rate then recomputePieceRateForSalary en i m userId st else (Inr (), st)
               | None \<Rightarrow> (Inr (), st))
               (\<lambda>_ st1. (Inr (), update_salary i (\<lambda>d. d\<lparr>sl_isLocked := True, sl_lockedBy := Some userId,
                  sl_lockedAt := Some (en_now en), sl_updatedBy := Some userId\<rparr>) st1))) st)"

definition unlockSalaryRecord :: "pay_env \<Rightarrow> string \<Rightarrow> nat \<Rightarrow> string \<Rightarrow> pay_store \<Rightarrow> unit pay" where
  "unlockSalaryRecord en ws i userId st =
     (case salary_of st ws i of
        None \<Rightarrow> (Inl Salary_not_found, st)
      | Some d \<Rightarrow>
          guarded [(sl_isLocked d, Not_locked), (not_self_edit en userId (sl_teamMemberId d), Self_edit_blocked)]
            (Inr (), update_salary i (\<lambda>d. d\<lparr>sl_isLocked := False, sl_lockedBy := None, sl_lockedAt := None,
               sl_updatedBy := Some userId\<rparr>) st) st)"

end
