(* ===== verification/RecoveryPlans.thy ===== *)
theory RecoveryPlans
  imports SalaryPayments
begin

text \<open>
  Changing a recovery plan (\<open>materializeInstallments\<close>, \<open>refreshPlanProgress\<close>,
  \<open>editAdvanceRecoveryPlan\<close> and \<open>earlyPayoffAdvanceRecoveryPlan\<close> of \<open>salary/salary.service.ts\<close>): pausing,
  resuming, another monthly amount, and closing it early.  An installment is frozen when its month
  has passed or its record is locked.  The plan document is saved where the code saves it.
\<close>

section \<open>Months\<close>

definition current_month :: "pay_env \<Rightarrow> int \<times> int" where
  "current_month en = (let today = local_day (en_tz en) (en_now en) in (month_of_day today + 1, year_of_day today))"

definition is_elapsed :: "pay_env \<Rightarrow> int \<Rightarrow> int \<Rightarrow> bool" where
  "is_elapsed en month year = (let (curMonth, curYear) = current_month en in year < curYear \<or> year = curYear \<and> month < curMonth)"

definition is_frozen :: "pay_env \<Rightarrow> recovery_plan \<Rightarrow> plan_entry \<Rightarrow> pay_store \<Rightarrow> bool" where
  \<comment> \<open>\<open>isFrozenEntry\<close>\<close>
  "is_frozen en plan e st \<longleftrightarrow> is_elapsed en (ie_month e) (ie_year e)
     \<or> (case find_salary st (rp_workspaceId plan) (rp_teamMemberId plan) (ie_month e) (ie_year e) of
          None \<Rightarrow> False | Some i \<Rightarrow> is_locked st i)"

definition save_plan :: "nat \<Rightarrow> recovery_plan \<Rightarrow> pay_store \<Rightarrow> pay_store" where
  "save_plan k plan st = st\<lparr>ps_plans := (ps_plans st)[k := plan]\<rparr>"

section \<open>Writing installments\<close>

record entry_walk =
  ew_month :: int
  ew_year :: int
  ew_shortfall :: rat
  ew_entries :: "plan_entry list" \<comment> \<open>the installments of the plan so far\<close>

definition materialize_month ::
  "pay_env \<Rightarrow> string \<Rightarrow> string \<Rightarrow> nat \<Rightarrow> recovery_plan \<Rightarrow> pay_member \<Rightarrow> rat \<Rightarrow> bool \<Rightarrow> entry_walk \<Rightarrow> pay_store \<Rightarrow> entry_walk pay" where
  \<comment> \<open>one round of either loop\<close>
  "materialize_month en ws userId planId plan m planned isCarry w st =
     and_then (ensureSalaryRecord en ws (rp_teamMemberId plan) (ew_month w) (ew_year w) (Some userId) st) (\<lambda>i st1.
       let available = max 0 (cap_basis m (sd_netSalary (sl_data (ps_salaries st1 ! i))));
           applied = roundCurrency (min planned available);
           index = length (ew_entries w) + 1
       in and_then (createAdvanceRecoveryDeduction en ws (rp_teamMemberId plan) (ew_month w) (ew_year w) applied
              (rp_sourcePaymentId plan) userId (Some (planId, index)) st1)
            (\<lambda>adj st2. (Inr \<lparr>ew_month = fst (following_month (ew_month w) (ew_year w)),
               ew_year = snd (following_month (ew_month w) (ew_year w)),
               ew_shortfall = (if isCarry then roundCurrency (jsub (ew_shortfall w) applied)
                 else if applied < planned then roundCurrency (jadd (ew_shortfall w) (jsub planned applied)) else ew_shortfall w),
               ew_entries = ew_entries w @ [\<lparr>ie_index = index, ie_month = ew_month w, ie_year = ew_year w,
                 ie_plannedAmount = planned, ie_appliedAmount = applied, ie_adjustmentId = adj,
                 ie_status = (if applied \<ge> planned then Applied_entry else Carried)\<rparr>]\<rparr>, st2)))"

fun materialize_base ::
  "pay_env \<Rightarrow> string \<Rightarrow> string \<Rightarrow> nat \<Rightarrow> recovery_plan \<Rightarrow> pay_member \<Rightarrow> rat list \<Rightarrow> entry_walk \<Rightarrow> pay_store \<Rightarrow> entry_walk pay" where
  "materialize_base en ws userId planId plan m [] w st = (Inr w, st)"
| "materialize_base en ws userId planId plan m (p # ps) w st =
     and_then (materialize_month en ws userId planId plan m p False w st)
       (\<lambda>w1 st1. materialize_base en ws userId planId plan m ps w1 st1)"

fun materialize_carries ::
  "pay_env \<Rightarrow> string \<Rightarrow> string \<Rightarrow> nat \<Rightarrow> recovery_plan \<Rightarrow> pay_member \<Rightarrow> nat \<Rightarrow> entry_walk \<Rightarrow> pay_store \<Rightarrow> entry_walk pay" where
  "materialize_carries en ws userId planId plan m 0 w st = (Inr w, st)"
| "materialize_carries en ws userId planId plan m (Suc left) w st =
     (if ew_shortfall w > 0
      then and_then (materialize_month en ws userId planId plan m (ew_shortfall w) True w st)
             (\<lambda>w1 st1. materialize_carries en ws userId planId plan m left w1 st1)
      else (Inr w, st))"

definition materializeInstallments ::
  "pay_env \<Rightarrow> string \<Rightarrow> string \<Rightarrow> nat \<Rightarrow> recovery_plan \<Rightarrow> int \<Rightarrow> int \<Rightarrow> rat \<Rightarrow> pay_store \<Rightarrow> recovery_plan pay" where
  "materializeInstallments en ws userId planId plan fromMonth fromYear installmentAmount st =
     (case find_member st (rp_teamMemberId plan) of
        None \<Rightarrow> (Inl Member_not_found, st)
      | Some m \<Rightarrow>
          (case buildInstallmentSchedule (roundCurrency (rp_remainingAmount plan)) None (Some installmentAmount) of
             Inl _ \<Rightarrow> (Inl Bad_installments, st)
           | Inr schedule \<Rightarrow>
               and_then (materialize_base en ws userId planId plan m schedule
                   \<lparr>ew_month = fromMonth, ew_year = fromYear, ew_shortfall = 0, ew_entries = rp_installments plan\<rparr> st) (\<lambda>w st1.
               and_then (materialize_carries en ws userId planId plan m max_extra w st1) (\<lambda>w2 st2.
                 let plan' = plan\<lparr>rp_installments := ew_entries w2,
                       rp_linkedAdjustmentIds := rp_linkedAdjustmentIds plan
                         @ List.map_filter ie_adjustmentId (drop (length (rp_installments plan)) (ew_entries w2))\<rparr>
                 in (Inr plan', save_plan planId plan' st2)))))"

section \<open>Progress\<close>

definition refreshed :: "pay_env \<Rightarrow> pay_store \<Rightarrow> recovery_plan \<Rightarrow> recovery_plan" where
  "refreshed en st plan =
     (let linked = filter (\<lambda>k. k \<in> set (rp_linkedAdjustmentIds plan) \<and> aj_active (ps_adjustments st ! k)) [0..<length (ps_adjustments st)];
          recovered = foldl (\<lambda>sum k. let a = ps_adjustments st ! k in
             if is_elapsed en (aj_month a) (aj_year a) then roundCurrency (jadd sum (aj_amount a)) else sum) 0 linked;
          remaining = roundCurrency (max 0 (jsub (rp_totalAmount plan) recovered));
          plan' = plan\<lparr>rp_recoveredAmount := recovered, rp_remainingAmount := remaining\<rparr>
      in if remaining \<le> 0 \<and> rp_status plan = ''active''
         then plan'\<lparr>rp_status := ''completed'', rp_closureType := Some ''completed''\<rparr> else plan')"

definition refreshPlanProgress :: "pay_env \<Rightarrow> nat \<Rightarrow> recovery_plan \<Rightarrow> pay_store \<Rightarrow> recovery_plan pay" where
  "refreshPlanProgress en planId plan st =
     (if rp_status plan \<in> {''reversed'', ''completed''} then (Inr plan, st)
      else (Inr (refreshed en st plan), save_plan planId (refreshed en st plan) st))"

section \<open>Editing\<close>

datatype plan_action = Pause_plan | Resume_plan

record plan_edit =
  ed_action :: "plan_action option"
  ed_installmentAmount :: "rat option"

definition future_entries :: "pay_env \<Rightarrow> recovery_plan \<Rightarrow> pay_store \<Rightarrow> nat list" where
  \<comment> \<open>the positions of the installments that are neither reversed nor frozen\<close>
  "future_entries en plan st = filter (\<lambda>i. let e = rp_installments plan ! i in ie_status e \<noteq> Reversed_entry \<and> \<not> is_frozen en plan e st)
     [0..<length (rp_installments plan)]"

definition cutover :: "pay_env \<Rightarrow> recovery_plan \<Rightarrow> nat list \<Rightarrow> int \<times> int" where
  "cutover en plan future = (case future of [] \<Rightarrow> current_month en
     | i # _ \<Rightarrow> (ie_month (rp_installments plan ! i), ie_year (rp_installments plan ! i)))"

fun reverse_future :: "pay_env \<Rightarrow> string \<Rightarrow> string \<Rightarrow> nat list \<Rightarrow> recovery_plan \<Rightarrow> pay_store \<Rightarrow> recovery_plan pay" where
  \<comment> \<open>\<open>reverseFutureAdjustments\<close>; the plan is changed in memory\<close>
  "reverse_future en userId reason [] plan st = (Inr plan, st)"
| "reverse_future en userId reason (i # is) plan st =
     (let e = rp_installments plan ! i in
      and_then (case ie_adjustmentId e of
           None \<Rightarrow> (Inr (), st)
         | Some k \<Rightarrow> if still_active st k then reverseAdjustmentDoc en userId reason k st else (Inr (), st))
        (\<lambda>_ st1. reverse_future en userId reason is
           (plan\<lparr>rp_installments := (rp_installments plan)[i := e\<lparr>ie_status := Reversed_entry\<rparr>]\<rparr>) st1))"

definition frozen_total :: "pay_env \<Rightarrow> recovery_plan \<Rightarrow> pay_store \<Rightarrow> rat" where
  \<comment> \<open>\<open>frozenActiveTotal\<close>\<close>
  "frozen_total en plan st = foldl (\<lambda>total e.
       if ie_status e \<noteq> Reversed_entry \<and> is_frozen en plan e st
       then (case ie_adjustmentId e of
           None \<Rightarrow> total
         | Some k \<Rightarrow> if still_active st k then roundCurrency (jadd total (aj_amount (ps_adjustments st ! k))) else total)
       else total) 0 (rp_installments plan)"

definition outstanding :: "pay_env \<Rightarrow> recovery_plan \<Rightarrow> pay_store \<Rightarrow> rat" where
  "outstanding en plan st = roundCurrency (max 0 (jsub (rp_totalAmount plan) (frozen_total en plan st)))"

definition respread :: "pay_env \<Rightarrow> string \<Rightarrow> string \<Rightarrow> nat \<Rightarrow> recovery_plan \<Rightarrow> int \<times> int \<Rightarrow> rat \<Rightarrow> pay_store \<Rightarrow> recovery_plan pay" where
  \<comment> \<open>the common end of resuming and of a new amount\<close>
  "respread en ws userId planId plan from amount st =
     (let plan1 = plan\<lparr>rp_remainingAmount := outstanding en plan st, rp_installmentAmount := amount\<rparr> in
      and_then (materializeInstallments en ws userId planId plan1 (fst from) (snd from) amount (save_plan planId plan1 st))
        (\<lambda>plan2 st2. refreshPlanProgress en planId plan2 st2))"

definition plan_of :: "pay_store \<Rightarrow> string \<Rightarrow> nat \<Rightarrow> recovery_plan option" where
  "plan_of st ws k = (case nth_doc (ps_plans st) k of None \<Rightarrow> None
     | Some plan \<Rightarrow> if rp_workspaceId plan = ws then Some plan else None)"

definition editAdvanceRecoveryPlan :: "pay_env \<Rightarrow> string \<Rightarrow> nat \<Rightarrow> string \<Rightarrow> plan_edit \<Rightarrow> pay_store \<Rightarrow> recovery_plan pay" where
  "editAdvanceRecoveryPlan en ws planId userId dto st =
     (case plan_of st ws planId of
        None \<Rightarrow> (Inl Plan_not_found, st)
      | Some plan \<Rightarrow>
          if rp_status plan = ''completed'' \<or> rp_status plan = ''reversed'' then (Inl (Plan_closed (rp_status plan)), st)
          else (let future = future_entries en plan st; from = cutover en plan future in
            case ed_action dto of
              Some Pause_plan \<Rightarrow>
                if rp_status plan = ''paused'' then (Inl Plan_already_paused, st)
                else and_then (reverse_future en userId ''Auto-reversed: advance recovery plan paused by actor.'' future plan st) (\<lambda>plan1 st1.
                  let plan2 = plan1\<lparr>rp_status := ''paused''\<rparr> in refreshPlanProgress en planId plan2 (save_plan planId plan2 st1))
            | Some Resume_plan \<Rightarrow>
                if rp_status plan \<noteq> ''paused'' then (Inl Plan_not_paused, st)
                else respread en ws userId planId (plan\<lparr>rp_status := ''active''\<rparr>) from (rp_installmentAmount plan) st
            | None \<Rightarrow>
                (case ed_installmentAmount dto of
                   None \<Rightarrow> (Inl No_plan_change, st)
                 | Some amount \<Rightarrow>
                     if amount \<le> 0 then (Inl No_plan_change, st)
                     else and_then (reverse_future en userId ''Auto-reversed: advance recovery installment amount changed.'' future plan st)
                       (\<lambda>plan1 st1. respread en ws userId planId plan1 from amount st1))))"

section \<open>Early payoff\<close>

definition payoff_entries :: "pay_env \<Rightarrow> recovery_plan \<Rightarrow> nat list" where
  \<comment> \<open>from the current month on, locked or not\<close>
  "payoff_entries en plan = filter (\<lambda>i. let e = rp_installments plan ! i in ie_status e \<noteq> Reversed_entry \<and> \<not> is_elapsed en (ie_month e) (ie_year e))
     [0..<length (rp_installments plan)]"

definition earlyPayoffAdvanceRecoveryPlan :: "pay_env \<Rightarrow> string \<Rightarrow> nat \<Rightarrow> string \<Rightarrow> string \<Rightarrow> pay_store \<Rightarrow> recovery_plan pay" where
  "earlyPayoffAdvanceRecoveryPlan en ws planId userId reason st =
     (case plan_of st ws planId of
        None \<Rightarrow> (Inl Plan_not_found, st)
      | Some plan \<Rightarrow>
          if rp_status plan \<noteq> ''active'' \<and> rp_status plan \<noteq> ''paused'' then (Inl (Plan_closed (rp_status plan)), st)
          else and_then (reverse_future en userId reason (payoff_entries en plan) plan st) (\<lambda>plan1 st1.
            let plan2 = plan1\<lparr>rp_status := ''completed'', rp_closureType := Some ''early_payoff'', rp_remainingAmount := 0\<rparr>
            in refreshPlanProgress en planId plan2 (save_plan planId plan2 st1)))"

end
