(* ===== verification/AdvanceRequests.thy ===== *)
theory AdvanceRequests
  imports RecoveryPlans
begin

text \<open>
  Requests of workers for an advance (\<open>salary/advance-salary-request.service.ts\<close>, its window policy in
  \<open>salary/utils/advance-request-window.util.ts\<close>) and their payment (\<open>payApprovedAdvance\<close> and
  \<open>approveAndDisburseAdvanceRequest\<close> of \<open>salary/salary.service.ts\<close>).  Amounts of a request are in
  paise, payments and deductions in rupees.  Notifications, the ledger stub and the audit have no
  effect on the documents.
\<close>

section \<open>The window\<close>

definition isAdvanceRequestWindowOpen :: "request_policy option \<Rightarrow> int \<Rightarrow> int \<Rightarrow> bool" where
  "isAdvanceRequestWindowOpen policy fallback todayDay =
     (case policy of
        None \<Rightarrow> todayDay = fallback
      | Some p \<Rightarrow> (case ap_mode p of
            None \<Rightarrow> todayDay = fallback
          | Some Any_day \<Rightarrow> True
          | Some Fixed_day \<Rightarrow> todayDay = coalesce (ap_fixedDay p) fallback
          | Some Window_days \<Rightarrow>
              (let first = coalesce (ap_windowStartDay p) 1; last_day = coalesce (ap_windowEndDay p) 31
               in if first \<le> last_day then first \<le> todayDay \<and> todayDay \<le> last_day else first \<le> todayDay \<or> todayDay \<le> last_day)
          | Some Unknown_mode \<Rightarrow> todayDay = fallback))"

datatype window_message = Only_on_day int | Between_days int int | Always_open

definition advanceRequestWindowMessage :: "request_policy option \<Rightarrow> int \<Rightarrow> window_message" where
  "advanceRequestWindowMessage policy fallback =
     (case policy of
        None \<Rightarrow> Only_on_day fallback
      | Some p \<Rightarrow> (case ap_mode p of
            Some Window_days \<Rightarrow> Between_days (coalesce (ap_windowStartDay p) 1) (coalesce (ap_windowEndDay p) 31)
          | Some Any_day \<Rightarrow> Always_open
          | Some Unknown_mode \<Rightarrow> Always_open
          | _ \<Rightarrow> Only_on_day (coalesce (ap_fixedDay p) fallback)))"

definition getTodayInIST :: "date \<Rightarrow> int \<times> int \<times> int" where
  \<comment> \<open>day, month and year at five and a half hours east\<close>
  "getTodayInIST now = (let d = local_day 19800000 now in (mday_of_day d, month_of_day d + 1, year_of_day d))"

definition monthsBetween :: "int \<Rightarrow> date \<Rightarrow> date \<Rightarrow> int" where
  "monthsBetween tz t0 t1 =
     (let d0 = local_day tz t0; d1 = local_day tz t1;
          months = (year_of_day d1 - year_of_day d0) * 12 + (month_of_day d1 - month_of_day d0)
      in max 0 (if mday_of_day d1 < mday_of_day d0 then months - 1 else months))"

definition request_day :: "pay_env \<Rightarrow> int" where
  "request_day en = coalesce (dr_advanceRequestDay (en_disbursement en)) 15"

definition getWindowForMember :: "pay_env \<Rightarrow> int option \<Rightarrow> request_policy \<times> bool \<times> window_message" where
  "getWindowForMember en todayDay =
     (let policy = dr_advanceRequestPolicy (en_disbursement en);
          today = coalesce todayDay (fst (getTodayInIST (en_now en)))
      in (coalesce policy \<lparr>ap_mode = Some Fixed_day, ap_fixedDay = Some (request_day en), ap_windowStartDay = None, ap_windowEndDay = None\<rparr>,
          isAdvanceRequestWindowOpen policy (request_day en) today, advanceRequestWindowMessage policy (request_day en)))"

section \<open>Creating a request\<close>

definition in_play :: "advance_request \<Rightarrow> bool" where
  \<comment> \<open>the filter of the unique index and of the yearly count\<close>
  "in_play a \<longleftrightarrow> av_status a \<in> {''pending'', ''approved'', ''paid''}"

definition request_slot :: "advance_request \<Rightarrow> string \<times> string \<times> int \<times> int" where
  \<comment> \<open>the key of the unique index\<close>
  "request_slot a = (av_workspaceId a, av_teamMemberId a, av_month a, av_year a)"

record request_input =
  ri_requestedAmount :: rat
  ri_month :: int
  ri_year :: int

definition tenure_met :: "pay_env \<Rightarrow> string \<Rightarrow> pay_store \<Rightarrow> bool" where
  "tenure_met en tm st = (case dr_advanceMinTenureMonths (en_disbursement en) of
       None \<Rightarrow> True
     | Some least \<Rightarrow> (case find_member st tm of
           None \<Rightarrow> True
         | Some m \<Rightarrow> (case pm_dateOfJoining m of
               None \<Rightarrow> True
             | Some d \<Rightarrow> monthsBetween (en_tz en) d (en_now en) \<ge> least)))"

definition below_yearly :: "pay_env \<Rightarrow> string \<Rightarrow> string \<Rightarrow> int \<Rightarrow> pay_store \<Rightarrow> bool" where
  "below_yearly en ws tm year st = (case dr_advanceMaxPerYear (en_disbursement en) of
       None \<Rightarrow> True
     | Some most \<Rightarrow> int (length (filter (\<lambda>a. av_workspaceId a = ws \<and> av_teamMemberId a = tm \<and> av_year a = year \<and> in_play a)
         (ps_advances st))) < most)"

definition within_pay :: "pay_env \<Rightarrow> string \<Rightarrow> rat \<Rightarrow> pay_store \<Rightarrow> bool" where
  "within_pay en tm requestedAmount st =
     (let percent = min (coalesce (dr_advanceMaxPercentOfNet (en_disbursement en)) 100) 100;
          monthly = (case find_member st tm of None \<Rightarrow> 0 | Some m \<Rightarrow> coalesce (pm_salaryAmount m) 0)
      in monthly > 0 \<longrightarrow> jdiv requestedAmount 100 \<le> jmul (jdiv percent 100) monthly)"

definition createRequest :: "pay_env \<Rightarrow> string \<Rightarrow> string \<Rightarrow> string \<Rightarrow> request_input \<Rightarrow> pay_store \<Rightarrow> nat pay" where
  "createRequest en ws userId tm dto st =
     (let (today, month, year) = getTodayInIST (en_now en) in
      guarded [(feature en ''advancePayments'', Advance_disabled),
               (isAdvanceRequestWindowOpen (dr_advanceRequestPolicy (en_disbursement en)) (request_day en) today, Advance_day_closed),
               (ri_month dto = month \<and> ri_year dto = year, Advance_not_current_month),
               (tenure_met en tm st, Advance_tenure_not_met),
               (below_yearly en ws tm (ri_year dto) st, Advance_max_per_year),
               (within_pay en tm (ri_requestedAmount dto) st, Advance_exceeds_limit),
               (\<not> list_ex (\<lambda>a. in_play a \<and> request_slot a = (ws, tm, ri_month dto, ri_year dto)) (ps_advances st), Advance_duplicate)]
        (Inr (length (ps_advances st)), st\<lparr>ps_advances := ps_advances st @ [\<lparr>av_workspaceId = ws, av_teamMemberId = tm,
           av_month = ri_month dto, av_year = ri_year dto, av_requestedAmount = ri_requestedAmount dto, av_requestedBy = userId,
           av_status = ''pending'', av_approvedAmount = None, av_reviewedBy = None, av_verifiedBy = None, av_paymentId = None,
           av_recoveryAdjustmentId = None, av_recoveryPlanId = None, av_sameMonthRecovery = False\<rparr>]\<rparr>) st)"

section \<open>Deciding a request\<close>

definition request_of :: "pay_store \<Rightarrow> string \<Rightarrow> nat \<Rightarrow> advance_request option" where
  "request_of st ws k = (case nth_doc (ps_advances st) k of None \<Rightarrow> None
     | Some a \<Rightarrow> if av_workspaceId a = ws then Some a else None)"

definition update_advance :: "nat \<Rightarrow> (advance_request \<Rightarrow> advance_request) \<Rightarrow> pay_store \<Rightarrow> pay_store" where
  "update_advance k f st = st\<lparr>ps_advances := (ps_advances st)[k := f (ps_advances st ! k)]\<rparr>"

definition move_request :: "string \<Rightarrow> string \<Rightarrow> nat \<Rightarrow> (advance_request \<Rightarrow> advance_request) \<Rightarrow> pay_store \<Rightarrow> advance_request pay" where
  \<comment> \<open>what approving, rejecting and paying share: the status it must have, and the update\<close>
  "move_request status ws k f st =
     (case request_of st ws k of
        None \<Rightarrow> (Inl Advance_not_found, st)
      | Some a \<Rightarrow> if av_status a \<noteq> status then (Inl (Advance_wrong_status (av_status a)), st)
                  else (Inr (f a), update_advance k f st))"

definition approve_request :: "string \<Rightarrow> nat \<Rightarrow> string \<Rightarrow> rat \<Rightarrow> pay_store \<Rightarrow> advance_request pay" where
  "approve_request ws k reviewer amount st = move_request ''pending'' ws k
     (\<lambda>a. a\<lparr>av_status := ''approved'', av_approvedAmount := Some amount, av_reviewedBy := Some reviewer\<rparr>) st"

definition reject_request :: "string \<Rightarrow> nat \<Rightarrow> string \<Rightarrow> pay_store \<Rightarrow> advance_request pay" where
  "reject_request ws k reviewer st = move_request ''pending'' ws k
     (\<lambda>a. a\<lparr>av_status := ''rejected'', av_reviewedBy := Some reviewer\<rparr>) st"

definition markPaid :: "string \<Rightarrow> nat \<Rightarrow> nat \<Rightarrow> nat option \<Rightarrow> nat option \<Rightarrow> bool \<Rightarrow> pay_store \<Rightarrow> advance_request pay" where
  \<comment> \<open>a marker that is absent leaves the field\<close>
  "markPaid ws k p plan adj sameMonth st = move_request ''approved'' ws k
     (\<lambda>a. a\<lparr>av_status := ''paid'', av_paymentId := Some p,
        av_recoveryPlanId := (case plan of None \<Rightarrow> av_recoveryPlanId a | _ \<Rightarrow> plan),
        av_recoveryAdjustmentId := (case adj of None \<Rightarrow> av_recoveryAdjustmentId a | _ \<Rightarrow> adj),
        av_sameMonthRecovery := (sameMonth \<or> av_sameMonthRecovery a)\<rparr>) st"

definition verifyRequest :: "string \<Rightarrow> nat \<Rightarrow> string \<Rightarrow> string \<Rightarrow> pay_store \<Rightarrow> unit pay" where
  "verifyRequest ws k reviewer reviewerMember st =
     (case request_of st ws k of
        None \<Rightarrow> (Inl Advance_not_found, st)
      | Some a \<Rightarrow>
          guarded [(av_teamMemberId a \<noteq> reviewerMember, Advance_own_request),
                   ((case find_member st (av_teamMemberId a) of None \<Rightarrow> False | Some m \<Rightarrow> pm_reportsTo m = Some reviewerMember),
                    Advance_not_direct_report)]
            (Inr (), update_advance k (\<lambda>a. a\<lparr>av_verifiedBy := Some reviewer\<rparr>) st) st)"

section \<open>Paying a request\<close>

record advance_terms =
  at_installmentCount :: "rat option"
  at_installmentAmount :: "rat option" \<comment> \<open>in paise\<close>
  at_startMonth :: "int option"
  at_startYear :: "int option"
  at_paymentMode :: "string option"
  at_hasSplitLines :: bool
  at_overrideCompliance :: bool
  at_overrideReason :: string

definition start_of :: "advance_terms \<Rightarrow> advance_request \<Rightarrow> int \<times> int" where
  \<comment> \<open>the month after the request unless month and year are given; 0 is not given\<close>
  "start_of t a = (case (at_startMonth t, at_startYear t) of
       (Some m, Some y) \<Rightarrow> if m \<noteq> 0 \<and> y \<noteq> 0 then (m, y) else following_month (av_month a) (av_year a)
     | _ \<Rightarrow> following_month (av_month a) (av_year a))"

definition in_installments :: "advance_terms \<Rightarrow> bool" where
  "in_installments t \<longleftrightarrow> at_installmentAmount t \<noteq> None \<or> (case at_installmentCount t of None \<Rightarrow> False | Some c \<Rightarrow> c > 1)"

definition request_payment :: "pay_env \<Rightarrow> string \<Rightarrow> string \<Rightarrow> nat \<Rightarrow> advance_request \<Rightarrow> rat \<Rightarrow> advance_terms \<Rightarrow> nat \<Rightarrow> payment_doc" where
  "request_payment en ws userId k a amount t i = \<lparr>py_workspaceId = ws, py_teamMemberId = av_teamMemberId a, py_salaryId = i,
     py_amount = amount, py_commission = 0, py_paymentMode = coalesce (at_paymentMode t) ''cash'', py_recordedBy = userId,
     py_isAdvance = True, py_advanceFor = Some (start_of t a), py_advanceRecoveryAdjustmentId = None,
     py_advanceRecoveryPlanId = None, py_advanceRequestId = Some k, py_active = True, py_createdAt = en_now en,
     py_reversedBy = None, py_reversalReason = None\<rparr>"

definition pay_out :: "pay_env \<Rightarrow> string \<Rightarrow> string \<Rightarrow> nat \<Rightarrow> advance_request \<Rightarrow> rat \<Rightarrow> advance_terms \<Rightarrow> pay_store \<Rightarrow> nat pay" where
  \<comment> \<open>the payment, on the record of the month of the request\<close>
  "pay_out en ws userId k a amount t st =
     and_then (ensureSalaryRecord en ws (av_teamMemberId a) (av_month a) (av_year a) (Some userId) st) (\<lambda>i st1.
       (Inr (length (ps_payments st1)), st1\<lparr>ps_payments := ps_payments st1 @ [request_payment en ws userId k a amount t i]\<rparr>))"

definition by_plan :: "pay_env \<Rightarrow> string \<Rightarrow> string \<Rightarrow> advance_request \<Rightarrow> rat \<Rightarrow> advance_terms \<Rightarrow> nat \<Rightarrow> pay_store \<Rightarrow> nat pay" where
  "by_plan en ws userId a amount t p st =
     and_then (createAdvanceRecoveryPlan en \<lparr>pq_ws = ws, pq_tm = av_teamMemberId a, pq_sourcePaymentId = p, pq_totalAmount = amount,
         pq_startMonth = fst (start_of t a), pq_startYear = snd (start_of t a), pq_installmentCount = at_installmentCount t,
         pq_installmentAmount = map_option (\<lambda>x. roundCurrency (jdiv x 100)) (at_installmentAmount t), pq_userId = userId,
         pq_overrideCompliance = at_overrideCompliance t, pq_overrideReason = at_overrideReason t\<rparr> st)
       (\<lambda>plan st1. (Inr plan, update_payment p (\<lambda>d. d\<lparr>py_advanceRecoveryPlanId := Some plan\<rparr>) st1))"

definition by_deduction :: "pay_env \<Rightarrow> string \<Rightarrow> string \<Rightarrow> advance_request \<Rightarrow> rat \<Rightarrow> advance_terms \<Rightarrow> nat \<Rightarrow> pay_store \<Rightarrow> nat option pay" where
  "by_deduction en ws userId a amount t p st =
     and_then (createAdvanceRecoveryDeduction en ws (av_teamMemberId a) (fst (start_of t a)) (snd (start_of t a)) amount p userId None st)
       (\<lambda>adj st1. (Inr adj, case adj of None \<Rightarrow> st1
          | Some _ \<Rightarrow> update_payment p (\<lambda>d. d\<lparr>py_advanceRecoveryAdjustmentId := adj\<rparr>) st1))"

definition recover_and_close :: "pay_env \<Rightarrow> string \<Rightarrow> string \<Rightarrow> nat \<Rightarrow> advance_request \<Rightarrow> rat \<Rightarrow> advance_terms \<Rightarrow> bool \<Rightarrow> nat \<Rightarrow> pay_store \<Rightarrow> nat pay" where
  \<comment> \<open>\<open>settles\<close>: a start in the month of the request needs no deduction\<close>
  "recover_and_close en ws userId k a amount t settles p st =
     (if in_installments t
      then and_then (by_plan en ws userId a amount t p st) (\<lambda>plan st1.
             and_then (markPaid ws k p (Some plan) None False st1) (\<lambda>_ st2. (Inr p, st2)))
      else if settles \<and> start_of t a = (av_month a, av_year a)
      then and_then (markPaid ws k p None None True st) (\<lambda>_ st1. (Inr p, st1))
      else and_then (by_deduction en ws userId a amount t p st) (\<lambda>adj st1.
             and_then (markPaid ws k p None adj False st1) (\<lambda>_ st2. (Inr p, st2))))"

definition payApprovedAdvance :: "pay_env \<Rightarrow> string \<Rightarrow> string \<Rightarrow> nat \<Rightarrow> advance_terms \<Rightarrow> pay_store \<Rightarrow> nat pay" where
  "payApprovedAdvance en ws userId k t st =
     (case request_of st ws k of
        None \<Rightarrow> (Inl Advance_not_found, st)
      | Some a \<Rightarrow>
          (let amount = roundCurrency (jdiv (coalesce (av_approvedAmount a) 0) 100) in
           guarded [(not_self_edit en userId (av_teamMemberId a), Self_edit_blocked),
                    (member_writable st ws (av_teamMemberId a), Member_offboarded),
                    (av_status a = ''approved'', Advance_wrong_status (av_status a)),
                    (amount > 0, Advance_amount_not_positive),
                    (at_paymentMode t = Some ''split'' \<or> at_hasSplitLines t \<longrightarrow> feature en ''splitPayments'',
                     Feature_disabled ''splitPayments'')]
             (and_then (pay_out en ws userId k a amount t st) (\<lambda>p st1. recover_and_close en ws userId k a amount t True p st1)) st))"

definition prior_payment :: "pay_store \<Rightarrow> nat \<Rightarrow> nat option" where
  "prior_payment st k = find_index (\<lambda>p. py_advanceRequestId p = Some k \<and> py_active p) (ps_payments st)"

definition approveAndDisburseAdvanceRequest ::
  "pay_env \<Rightarrow> string \<Rightarrow> nat \<Rightarrow> string \<Rightarrow> rat \<Rightarrow> advance_terms \<Rightarrow> pay_store \<Rightarrow> nat pay" where
  \<comment> \<open>the payment, made now or earlier\<close>
  "approveAndDisburseAdvanceRequest en ws k reviewer approvedAmount t st =
     (case request_of st ws k of
        None \<Rightarrow> (Inl Advance_not_found, st)
      | Some e \<Rightarrow>
          guarded [(not_self_edit en reviewer (av_teamMemberId e), Self_edit_blocked),
                   (member_writable st ws (av_teamMemberId e), Member_offboarded)]
            (if av_status e = ''paid'' \<and> av_paymentId e \<noteq> None then (Inr (the (av_paymentId e)), st)
             else and_then
               (if av_status e = ''pending'' then approve_request ws k reviewer approvedAmount st
                else if av_status e = ''approved'' then (Inr e, st) else (Inl (Advance_wrong_status (av_status e)), st))
               (\<lambda>a st1.
                  let amount = roundCurrency (jdiv (coalesce (av_approvedAmount a) approvedAmount) 100)
                  in if amount \<le> 0 then (Inl Advance_amount_not_positive, st1)
                     else case prior_payment st1 k of
                       Some p \<Rightarrow> and_then (markPaid ws k p None None False st1) (\<lambda>_ st2. (Inr p, st2))
                     | None \<Rightarrow> and_then (pay_out en ws reviewer k a amount t st1)
                         (\<lambda>p st2. recover_and_close en ws reviewer k a amount t False p st2))) st)"

end
