(* ===== verification/EmployerLoans.thy ===== *)
theory EmployerLoans
  imports AdvanceRequests
begin

text \<open>
  Loans of the employer (\<open>salary/loan.service.ts\<close> with \<open>salary/schemas/employer-loan.schema.ts\<close>): the
  schedule of a loan, the deductions written for its installments, approval, skipping, pausing, early
  payoff, top-up, write-off and the perquisite of a month.  A loan is loaded, changed in memory and
  saved, so the functions on its installments pass the document along and the handlers save it.  An
  installment whose \<open>emiPlanned\<close> is \<open>None\<close> is not a number; the database refuses to save one.  Dates,
  references and comments of a loan are not kept here, nothing is decided by them.
\<close>

section \<open>Documents\<close>

datatype loan_entry_status = Loan_scheduled | Loan_applied | Loan_reversed | Loan_skipped | Loan_carried

record loan_installment =
  li_index :: int
  li_month :: int
  li_year :: int
  li_principalPlanned :: rat
  li_interestPlanned :: rat
  li_emiPlanned :: "rat option"
  li_appliedAmount :: rat
  li_adjustmentId :: "nat option"
  li_status :: loan_entry_status

datatype step_status = Step_pending | Step_approved | Step_rejected

record loan_approval_step =
  as_stepIndex :: nat
  as_approverId :: string
  as_status :: step_status

record perquisite_entry =
  pe_month :: int
  pe_year :: int
  pe_outstandingAtStart :: rat
  pe_sbiBenchmarkRate :: rat
  pe_interestActuallyCharged :: rat
  pe_perquisiteValue :: rat
  pe_exempt :: bool
  pe_adjustmentId :: "nat option"

record employer_loan =
  lo_workspaceId :: string
  lo_teamMemberId :: string
  lo_loanType :: string
  lo_principalAmount :: rat
  lo_interestType :: string
  lo_annualInterestRate :: rat
  lo_tenorMonths :: int
  lo_emiAmount :: rat
  lo_startMonth :: int
  lo_startYear :: int
  lo_status :: string
  lo_recoveredAmount :: rat
  lo_remainingPrincipal :: rat
  lo_remainingAmount :: rat
  lo_totalInterestScheduled :: rat
  lo_installments :: "loan_installment list"
  lo_linkedAdjustmentIds :: "nat list"
  lo_approvalChain :: "loan_approval_step list"
  lo_approvedBy :: "string option"
  lo_closureType :: "string option"
  lo_closedBy :: "string option"
  lo_writeOffAmount :: "rat option"
  lo_supersedes :: "nat option" \<comment> \<open>of the top-up history\<close>
  lo_medicalLoanExempt :: bool
  lo_perquisiteHistory :: "perquisite_entry list"
  lo_createdBy :: string

record loan_request =
  lr_workspaceId :: string
  lr_teamMemberId :: string
  lr_requestedAmount :: rat \<comment> \<open>in paise\<close>
  lr_desiredTenorMonths :: int
  lr_status :: string
  lr_createdEmployerLoanId :: "nat option"
  lr_reviewedBy :: "string option"

record loan_store =
  lb_pay :: pay_store
  lb_loans :: "employer_loan list"
  lb_requests :: "loan_request list"

record loan_env =
  le_pay :: pay_env
  le_pow :: "rat \<Rightarrow> int \<Rightarrow> rat"
  le_approvalChainDefault :: "string list"
  le_sbiBenchmarkRate :: rat
  le_perquisiteExemptionThreshold :: rat
  le_selfApplyEnabled :: bool
  le_selfApplyMaxAmount :: "rat option"
  le_selfApplyMinTenureMonths :: "int option"
  le_maxActiveLoanAmount :: rat
  le_maxActiveLoanCount :: int

datatype loan_error =
    Pay_error salary_error | Loan_not_found | Loans_disabled | Unknown_interest_type | Bad_schedule pay_error
  | Loan_invalid | Not_a_number | Loan_wrong_status string | No_pending_step | Installment_not_found
  | Installment_closed loan_entry_status | Tenor_limit | No_future_installments
  | Self_apply_disabled | Loan_tenure_not_met | Loan_amount_exceeds_cap | Loan_limit_exceeded
  | Loan_request_duplicate | Loan_request_not_found | Loan_request_not_pending

type_synonym 'a loan_pay = "(loan_error + 'a) \<times> pay_store"
type_synonym 'a loaned = "(loan_error + 'a) \<times> loan_store"

definition in_pay :: "'a pay \<Rightarrow> 'a loan_pay" where
  \<comment> \<open>a call of the salary service\<close>
  "in_pay r = (map_sum Pay_error (\<lambda>x. x) (fst r), snd r)"

definition on_pay :: "'a loan_pay \<Rightarrow> loan_store \<Rightarrow> 'a loaned" where
  "on_pay r s = (fst r, s\<lparr>lb_pay := snd r\<rparr>)"

lemma snd_in_pay [simp]: "snd (in_pay r) = snd r"
  by (simp add: in_pay_def)

lemma in_pay_simps [simp]: "in_pay (Inr x, st) = (Inr x, st)" "in_pay (Inl e, st) = (Inl (Pay_error e), st)"
  by (simp_all add: in_pay_def)

lemma on_pay_simps [simp]: "fst (on_pay r s) = fst r" "lb_pay (snd (on_pay r s)) = snd r"
  "lb_loans (snd (on_pay r s)) = lb_loans s" "lb_requests (snd (on_pay r s)) = lb_requests s"
  by (simp_all add: on_pay_def)

definition loan_of :: "loan_store \<Rightarrow> string \<Rightarrow> nat \<Rightarrow> employer_loan option" where
  "loan_of s ws k = (case nth_doc (lb_loans s) k of None \<Rightarrow> None
     | Some loan \<Rightarrow> if lo_workspaceId loan = ws then Some loan else None)"

definition save_loan :: "nat \<Rightarrow> employer_loan \<Rightarrow> loan_store \<Rightarrow> loan_store" where
  "save_loan k loan s = s\<lparr>lb_loans := (lb_loans s)[k := loan]\<rparr>"

definition loan_valid :: "employer_loan \<Rightarrow> bool" where
  \<comment> \<open>what the schema requires of the numbers of a loan\<close>
  "loan_valid loan \<longleftrightarrow> 1 \<le> lo_principalAmount loan \<and> 0 \<le> lo_annualInterestRate loan \<and> 0 \<le> lo_emiAmount loan
     \<and> 1 \<le> lo_tenorMonths loan \<and> lo_tenorMonths loan \<le> 120 \<and> 1 \<le> lo_startMonth loan \<and> lo_startMonth loan \<le> 12
     \<and> list_all (\<lambda>e. li_emiPlanned e \<noteq> None) (lo_installments loan)"

section \<open>Schedules\<close>

definition schedule_of :: "loan_env \<Rightarrow> string \<Rightarrow> rat \<Rightarrow> rat \<Rightarrow> int \<Rightarrow> int \<Rightarrow> int \<Rightarrow> loan_error + loan_schedule" where
  "schedule_of en interestType loanPrincipal annualRate tenorMonths startMonth startYear =
     (case computeSchedule (le_pow en) interestType loanPrincipal annualRate tenorMonths startMonth startYear of
        None \<Rightarrow> Inl Unknown_interest_type
      | Some (Inl e) \<Rightarrow> Inl (Bad_schedule e)
      | Some (Inr s) \<Rightarrow> Inr s)"

definition scheduled_row :: "installment_row \<Rightarrow> loan_installment" where
  "scheduled_row row = \<lparr>li_index = ir_index row, li_month = ir_month row, li_year = ir_year row,
     li_principalPlanned = coalesce (ir_principalPart row) 0, li_interestPlanned = coalesce (ir_interestPart row) 0,
     li_emiPlanned = ir_emiAmount row, li_appliedAmount = 0, li_adjustmentId = None, li_status = Loan_scheduled\<rparr>"

section \<open>Writing the deductions\<close>

definition createLoanRecoveryAdjustment ::
  "pay_env \<Rightarrow> string \<Rightarrow> string \<Rightarrow> int \<Rightarrow> int \<Rightarrow> rat \<Rightarrow> int \<Rightarrow> string \<Rightarrow> pay_store \<Rightarrow> nat option pay" where
  "createLoanRecoveryAdjustment en ws tm month year amount index userId st =
     (if amount \<le> 0 then (Inr None, st)
      else and_then (ensureSalaryRecord en ws tm month year (Some userId) st) (\<lambda>i st1.
        let row = (new_adjustment (ps_salaries st1 ! i) i ws Deduction ''loan_recovery'' amount System userId)
              \<lparr>aj_teamMemberId := tm, aj_month := month, aj_year := year, aj_planInstallmentIndex := Some (nat index)\<rparr>;
            k = length (ps_adjustments st1)
        in and_then (recalculateSalaryFromAdjustments en i (Some userId) True (add_adjustment row st1))
             (\<lambda>_ st2. (Inr (Some k), st2))))"

definition loan_guard :: "pay_env \<Rightarrow> string \<Rightarrow> pay_member \<Rightarrow> rat \<Rightarrow> salary_data \<Rightarrow> rat \<Rightarrow> guard_input" where
  "loan_guard en tm m proposed d available =
     (let gross = cap_basis m (jadd (sd_baseSalary d) (sd_additions d))
      in \<lparr>gi_proposedInstallment = proposed, gi_currentTotalDeductions = sd_deductions d, gi_grossSalaryForMonth = gross,
          gi_netSalaryBeforeRecovery = available,
          gi_minimumWageMonthly = (case en_minimumWageOverride en tm of Some v \<Rightarrow> Some v | None \<Rightarrow> en_minimumWageMonthly en),
          gi_deductionCapPercent = en_deductionCapPercent en, gi_periodicWages = gross, gi_schedule = None\<rparr>)"

record loan_walk =
  lw_month :: int
  lw_year :: int
  lw_shortfall :: rat
  lw_loan :: employer_loan

definition step_walk :: "loan_walk \<Rightarrow> loan_walk" where
  \<comment> \<open>advance the walk by a month\<close>
  "step_walk w = w\<lparr>lw_month := fst (nextMonth (lw_month w) (lw_year w)), lw_year := snd (nextMonth (lw_month w) (lw_year w))\<rparr>"

definition link_deduction :: "nat \<Rightarrow> loan_installment \<Rightarrow> rat \<Rightarrow> rat \<Rightarrow> nat option \<Rightarrow> employer_loan \<Rightarrow> employer_loan" where
  \<comment> \<open>\<open>if (adj)\<close>: the installment, and the link from the loan\<close>
  "link_deduction i e proposed applied adj loan = (case adj of
       None \<Rightarrow> loan
     | Some k \<Rightarrow> loan\<lparr>lo_installments := (lo_installments loan)[i := e\<lparr>li_adjustmentId := Some k, li_appliedAmount := applied,
                   li_status := (if applied \<ge> proposed then Loan_applied else Loan_carried)\<rparr>],
                 lo_linkedAdjustmentIds := lo_linkedAdjustmentIds loan @ [k]\<rparr>)"

definition loan_entry :: "pay_env \<Rightarrow> string \<Rightarrow> string \<Rightarrow> pay_member \<Rightarrow> nat \<Rightarrow> loan_walk \<Rightarrow> pay_store \<Rightarrow> loan_walk loan_pay" where
  \<comment> \<open>installment \<open>i\<close> of the first loop, in the month the walk has reached\<close>
  "loan_entry en ws userId m i w st =
     (let loan = lw_loan w; e = lo_installments loan ! i; tm = lo_teamMemberId loan; month = lw_month w; year = lw_year w in
      if li_status e \<noteq> Loan_scheduled then (Inr (step_walk w), st)
      else and_then (in_pay (ensureSalaryRecord en ws tm month year (Some userId) st)) (\<lambda>k st1.
        let d = sl_data (ps_salaries st1 ! k); available = max 0 (cap_basis m (sd_netSalary d))
        in case li_emiPlanned e of
             None \<Rightarrow> and_then (in_pay (ensureSalaryRecord en ws tm month year (Some userId) st1)) (\<lambda>_ st2. (Inl Not_a_number, st2))
           | Some proposed \<Rightarrow>
               (let applied = round2 (min (gr_allowedInstallment (evaluate (loan_guard en tm m proposed d available))) available)
                in and_then (in_pay (createLoanRecoveryAdjustment en ws tm month year applied (li_index e) userId st1)) (\<lambda>adj st2.
                  (Inr ((step_walk w)\<lparr>lw_loan := link_deduction i e proposed applied adj loan,
                     lw_shortfall := (if applied < proposed then round2 (jadd (lw_shortfall w) (jsub proposed applied)) else lw_shortfall w)\<rparr>), st2)))))"

fun loan_entries :: "pay_env \<Rightarrow> string \<Rightarrow> string \<Rightarrow> pay_member \<Rightarrow> nat list \<Rightarrow> loan_walk \<Rightarrow> pay_store \<Rightarrow> loan_walk loan_pay" where
  "loan_entries en ws userId m [] w st = (Inr w, st)"
| "loan_entries en ws userId m (i # is) w st =
     and_then (loan_entry en ws userId m i w st) (\<lambda>w1 st1. loan_entries en ws userId m is w1 st1)"

definition loan_carry :: "pay_env \<Rightarrow> string \<Rightarrow> string \<Rightarrow> pay_member \<Rightarrow> loan_walk \<Rightarrow> pay_store \<Rightarrow> loan_walk loan_pay" where
  \<comment> \<open>one further month for what the installments could not take\<close>
  "loan_carry en ws userId m w st =
     (let loan = lw_loan w; tm = lo_teamMemberId loan; month = lw_month w; year = lw_year w; shortfall = lw_shortfall w in
      and_then (in_pay (ensureSalaryRecord en ws tm month year (Some userId) st)) (\<lambda>k st1.
        let available = max 0 (cap_basis m (sd_netSalary (sl_data (ps_salaries st1 ! k))));
            applied = round2 (min shortfall available);
            index = int (length (lo_installments loan)) + 1
        in and_then (in_pay (createLoanRecoveryAdjustment en ws tm month year applied index userId st1)) (\<lambda>adj st2.
          (Inr ((step_walk w)\<lparr>lw_shortfall := round2 (jsub shortfall applied),
             lw_loan := loan\<lparr>lo_installments := lo_installments loan @ [\<lparr>li_index = index, li_month = month, li_year = year,
                 li_principalPlanned = shortfall, li_interestPlanned = 0, li_emiPlanned = Some shortfall, li_appliedAmount = applied,
                 li_adjustmentId = adj, li_status = (if applied \<ge> shortfall then Loan_applied else Loan_carried)\<rparr>],
               lo_linkedAdjustmentIds := lo_linkedAdjustmentIds loan @ (case adj of None \<Rightarrow> [] | Some j \<Rightarrow> [j])\<rparr>\<rparr>), st2))))"

fun loan_carries :: "pay_env \<Rightarrow> string \<Rightarrow> string \<Rightarrow> pay_member \<Rightarrow> nat \<Rightarrow> loan_walk \<Rightarrow> pay_store \<Rightarrow> loan_walk loan_pay" where
  "loan_carries en ws userId m 0 w st = (Inr w, st)"
| "loan_carries en ws userId m (Suc left) w st =
     (if lw_shortfall w > 0
      then and_then (loan_carry en ws userId m w st) (\<lambda>w1 st1. loan_carries en ws userId m left w1 st1)
      else (Inr w, st))"

definition materializeLoanInstallments ::
  "pay_env \<Rightarrow> string \<Rightarrow> string \<Rightarrow> int \<Rightarrow> int \<Rightarrow> employer_loan \<Rightarrow> pay_store \<Rightarrow> employer_loan loan_pay" where
  \<comment> \<open>the loan to be saved\<close>
  "materializeLoanInstallments en ws userId fromMonth fromYear loan st =
     (case find_member st (lo_teamMemberId loan) of
        None \<Rightarrow> (Inl (Pay_error Member_not_found), st)
      | Some m \<Rightarrow>
          and_then (loan_entries en ws userId m [0..<length (lo_installments loan)]
              \<lparr>lw_month = fromMonth, lw_year = fromYear, lw_shortfall = 0, lw_loan = loan\<rparr> st)
            (\<lambda>w st1. and_then (loan_carries en ws userId m max_extra w st1) (\<lambda>w2 st2. (Inr (lw_loan w2), st2))))"

definition materialize :: "loan_env \<Rightarrow> string \<Rightarrow> string \<Rightarrow> int \<Rightarrow> int \<Rightarrow> nat \<Rightarrow> employer_loan \<Rightarrow> loan_store \<Rightarrow> employer_loan loaned" where
  \<comment> \<open>as called by the handlers, which find the loan saved when it returns\<close>
  "materialize en ws userId fromMonth fromYear k loan s =
     and_then (on_pay (materializeLoanInstallments (le_pay en) ws userId fromMonth fromYear loan (lb_pay s)) s)
       (\<lambda>loan1 s1. (Inr loan1, save_loan k loan1 s1))"

section \<open>Creating a loan\<close>

record loan_input =
  ln_teamMemberId :: string
  ln_loanType :: string
  ln_principalAmount :: rat
  ln_interestType :: string
  ln_annualInterestRate :: rat
  ln_tenorMonths :: int
  ln_startMonth :: int
  ln_startYear :: int
  ln_approvalChain :: "string list"
  ln_medicalLoanExempt :: bool

definition resolveApprovalChain :: "loan_env \<Rightarrow> string list \<Rightarrow> string list" where
  "resolveApprovalChain en chain = (if chain \<noteq> [] then chain else le_approvalChainDefault en)"

definition chain_steps :: "string list \<Rightarrow> loan_approval_step list" where
  "chain_steps chain = map (\<lambda>i. \<lparr>as_stepIndex = i, as_approverId = chain ! i, as_status = Step_pending\<rparr>) [0..<length chain]"

definition new_loan :: "string \<Rightarrow> loan_input \<Rightarrow> loan_schedule \<Rightarrow> string list \<Rightarrow> string \<Rightarrow> employer_loan" where
  "new_loan ws dto sch chain userId = \<lparr>lo_workspaceId = ws, lo_teamMemberId = ln_teamMemberId dto, lo_loanType = ln_loanType dto,
     lo_principalAmount = ln_principalAmount dto, lo_interestType = ln_interestType dto,
     lo_annualInterestRate = ln_annualInterestRate dto, lo_tenorMonths = ln_tenorMonths dto,
     lo_emiAmount = coalesce (ls_emiAmount sch) 0, lo_startMonth = ln_startMonth dto, lo_startYear = ln_startYear dto,
     lo_status = (if chain \<noteq> [] then ''pending_approval'' else ''active''), lo_recoveredAmount = 0,
     lo_remainingPrincipal = ln_principalAmount dto,
     lo_remainingAmount = round2 (jadd (ln_principalAmount dto) (ls_totalInterest sch)),
     lo_totalInterestScheduled = ls_totalInterest sch, lo_installments = map scheduled_row (ls_installments sch),
     lo_linkedAdjustmentIds = [], lo_approvalChain = chain_steps chain, lo_approvedBy = None, lo_closureType = None, lo_closedBy = None,
     lo_writeOffAmount = None, lo_supersedes = None, lo_medicalLoanExempt = ln_medicalLoanExempt dto, lo_perquisiteHistory = [],
     lo_createdBy = userId\<rparr>"

definition insert_loan :: "employer_loan \<Rightarrow> loan_store \<Rightarrow> nat loaned" where
  "insert_loan loan s = (if loan_valid loan then (Inr (length (lb_loans s)), s\<lparr>lb_loans := lb_loans s @ [loan]\<rparr>) else (Inl Loan_invalid, s))"

definition loan_write_allowed :: "loan_env \<Rightarrow> string \<Rightarrow> string \<Rightarrow> string \<Rightarrow> loan_store \<Rightarrow> (bool \<times> loan_error) list" where
  "loan_write_allowed en ws userId tm s =
     [(not_self_edit (le_pay en) userId tm, Pay_error Self_edit_blocked), (member_writable (lb_pay s) ws tm, Pay_error Member_offboarded)]"

definition createLoan :: "loan_env \<Rightarrow> string \<Rightarrow> string \<Rightarrow> loan_input \<Rightarrow> loan_store \<Rightarrow> nat loaned" where
  "createLoan en ws userId dto s =
     guarded ((feature (le_pay en) ''loanManagement'', Loans_disabled) # loan_write_allowed en ws userId (ln_teamMemberId dto) s)
       (case schedule_of en (ln_interestType dto) (ln_principalAmount dto) (ln_annualInterestRate dto) (ln_tenorMonths dto)
           (ln_startMonth dto) (ln_startYear dto) of
          Inl e \<Rightarrow> (Inl e, s)
        | Inr sch \<Rightarrow>
            (let chain = resolveApprovalChain en (ln_approvalChain dto); loan = new_loan ws dto sch chain userId in
             and_then (insert_loan loan s) (\<lambda>k s1.
               if lo_status loan = ''active''
               then and_then (materialize en ws userId (ln_startMonth dto) (ln_startYear dto) k loan s1) (\<lambda>_ s2. (Inr k, s2))
               else (Inr k, s1)))) s"

definition previewLoanSchedule :: "loan_env \<Rightarrow> loan_input \<Rightarrow> loan_error + loan_schedule" where
  "previewLoanSchedule en dto = schedule_of en (ln_interestType dto) (ln_principalAmount dto) (ln_annualInterestRate dto)
     (ln_tenorMonths dto) (ln_startMonth dto) (ln_startYear dto)"

section \<open>Approving\<close>

definition approveLoan :: "loan_env \<Rightarrow> string \<Rightarrow> nat \<Rightarrow> string \<Rightarrow> bool \<Rightarrow> loan_store \<Rightarrow> employer_loan loaned" where
  \<comment> \<open>the decision is to approve or to reject\<close>
  "approveLoan en ws k userId approve s =
     (case loan_of s ws k of
        None \<Rightarrow> (Inl Loan_not_found, s)
      | Some loan \<Rightarrow>
          guarded (loan_write_allowed en ws userId (lo_teamMemberId loan) s
                   @ [(lo_status loan = ''pending_approval'', Loan_wrong_status (lo_status loan))])
            (case find_index (\<lambda>a. as_status a = Step_pending \<and> as_approverId a = userId) (lo_approvalChain loan) of
               None \<Rightarrow> (Inl No_pending_step, s)
             | Some j \<Rightarrow>
                 (let step = lo_approvalChain loan ! j;
                      chain = (lo_approvalChain loan)[j := step\<lparr>as_status := (if approve then Step_approved else Step_rejected)\<rparr>];
                      decided = loan\<lparr>lo_approvalChain := chain\<rparr>
                  in if \<not> approve
                     then (let loan1 = decided\<lparr>lo_status := ''reversed'', lo_closureType := Some ''reversed'', lo_closedBy := Some userId\<rparr>
                           in (Inr loan1, save_loan k loan1 s))
                     else if list_ex (\<lambda>a. as_status a = Step_pending \<and> as_stepIndex a > as_stepIndex step) chain
                     then (Inr decided, save_loan k decided s)
                     else (let loan1 = decided\<lparr>lo_status := ''active'', lo_approvedBy := Some userId\<rparr>
                           in materialize en ws userId (lo_startMonth loan) (lo_startYear loan) k loan1 (save_loan k loan1 s)))) s)"

section \<open>Taking deductions back\<close>

definition reverseSingleAdjustment :: "pay_env \<Rightarrow> string \<Rightarrow> string \<Rightarrow> nat \<Rightarrow> pay_store \<Rightarrow> unit pay" where
  "reverseSingleAdjustment en userId reason k st =
     (let st1 = update_adjustment k (reversed userId reason) st; i = aj_salaryId (ps_adjustments st ! k)
      in if salary_at st1 i \<noteq> None then recalculateSalaryFromAdjustments en i (Some userId) True st1 else (Inr (), st1))"

definition undo_entry :: "pay_env \<Rightarrow> string \<Rightarrow> string \<Rightarrow> loan_installment \<Rightarrow> pay_store \<Rightarrow> unit pay" where
  \<comment> \<open>the deduction of an installment, when it has an active one\<close>
  "undo_entry en userId reason e st = (case li_adjustmentId e of
       None \<Rightarrow> (Inr (), st)
     | Some k \<Rightarrow> if still_active st k then reverseSingleAdjustment en userId reason k st else (Inr (), st))"

definition mark_entry :: "nat \<Rightarrow> loan_entry_status \<Rightarrow> employer_loan \<Rightarrow> employer_loan" where
  "mark_entry i status loan =
     loan\<lparr>lo_installments := (lo_installments loan)[i := (lo_installments loan ! i)\<lparr>li_status := status\<rparr>]\<rparr>"

fun reverse_loan_entries :: "pay_env \<Rightarrow> string \<Rightarrow> string \<Rightarrow> nat list \<Rightarrow> employer_loan \<Rightarrow> pay_store \<Rightarrow> employer_loan loan_pay" where
  "reverse_loan_entries en userId reason [] loan st = (Inr loan, st)"
| "reverse_loan_entries en userId reason (i # is) loan st =
     and_then (in_pay (undo_entry en userId reason (lo_installments loan ! i) st))
       (\<lambda>_ st1. reverse_loan_entries en userId reason is (mark_entry i Loan_reversed loan) st1)"

definition is_future_entry :: "pay_env \<Rightarrow> loan_installment \<Rightarrow> bool" where
  \<comment> \<open>\<open>isFuture\<close>: from the current month on\<close>
  "is_future_entry en e \<longleftrightarrow> \<not> is_elapsed en (li_month e) (li_year e)"

definition reversible_entries :: "pay_env \<Rightarrow> employer_loan \<Rightarrow> nat list" where
  "reversible_entries en loan = filter (\<lambda>i. let e = lo_installments loan ! i in
     li_status e \<noteq> Loan_reversed \<and> li_status e \<noteq> Loan_skipped \<and> is_future_entry en e) [0..<length (lo_installments loan)]"

definition reverseFutureLoanAdjustments :: "pay_env \<Rightarrow> string \<Rightarrow> string \<Rightarrow> employer_loan \<Rightarrow> pay_store \<Rightarrow> employer_loan loan_pay" where
  "reverseFutureLoanAdjustments en userId reason loan st = reverse_loan_entries en userId reason (reversible_entries en loan) loan st"

section \<open>Progress\<close>

definition loan_progress :: "pay_env \<Rightarrow> pay_store \<Rightarrow> employer_loan \<Rightarrow> employer_loan" where
  "loan_progress en st loan =
     (let linked = filter (\<lambda>k. k \<in> set (lo_linkedAdjustmentIds loan) \<and> aj_active (ps_adjustments st ! k)) [0..<length (ps_adjustments st)];
          recovered = foldl (\<lambda>sum k. let a = ps_adjustments st ! k in
             if is_elapsed en (aj_month a) (aj_year a) then round2 (jadd sum (aj_amount a)) else sum) 0 linked;
          total = round2 (jadd (lo_principalAmount loan) (lo_totalInterestScheduled loan));
          remaining = round2 (max 0 (jsub total recovered));
          recoveredPrincipal = foldl (\<lambda>sum e. if li_status e = Loan_applied then round2 (jadd sum (li_principalPlanned e)) else sum)
             0 (lo_installments loan);
          loan1 = loan\<lparr>lo_recoveredAmount := recovered, lo_remainingAmount := remaining,
             lo_remainingPrincipal := (if lo_interestType loan = ''reducing_balance''
               then round2 (max 0 (jsub (lo_principalAmount loan) recoveredPrincipal)) else remaining)\<rparr>
      in if remaining \<le> jdiv 1 100 \<and> (lo_status loan = ''active'' \<or> lo_status loan = ''paused'')
         then loan1\<lparr>lo_status := ''completed'', lo_closureType := Some ''completed''\<rparr> else loan1)"

definition refreshLoanProgress :: "pay_env \<Rightarrow> nat \<Rightarrow> employer_loan \<Rightarrow> loan_store \<Rightarrow> employer_loan loaned" where
  "refreshLoanProgress en k loan s =
     (if lo_status loan \<in> {''reversed'', ''completed'', ''written_off''} then (Inr loan, s)
      else (let loan1 = loan_progress en (lb_pay s) loan in (Inr loan1, save_loan k loan1 s)))"

definition getOutstandingLoanAmount :: "loan_store \<Rightarrow> string \<Rightarrow> string \<Rightarrow> rat" where
  "getOutstandingLoanAmount s ws tm = round2 (foldl (\<lambda>sum loan. jadd sum (lo_remainingAmount loan)) 0
     (filter (\<lambda>loan. lo_workspaceId loan = ws \<and> lo_teamMemberId loan = tm \<and> lo_status loan \<in> {''active'', ''paused''}) (lb_loans s)))"

end
