(* ===== verification/LoanChanges.thy ===== *)
theory LoanChanges
  imports EmployerLoans
begin

text \<open>
  Changing a loan that runs (\<open>skipInstallment\<close>, \<open>pauseResumeLoan\<close>, \<open>earlyPayoffLoan\<close>, \<open>topUpLoan\<close>,
  \<open>writeOffLoan\<close> and \<open>computeMonthlyPerquisites\<close> of \<open>salary/loan.service.ts\<close>), and the totals of the
  dashboard.
\<close>

section \<open>Skipping an installment\<close>

definition rematerializeSingleInstallment :: "pay_env \<Rightarrow> string \<Rightarrow> string \<Rightarrow> nat \<Rightarrow> employer_loan \<Rightarrow> pay_store \<Rightarrow> employer_loan loan_pay" where
  "rematerializeSingleInstallment en ws userId i loan st =
     (let e = lo_installments loan ! i; tm = lo_teamMemberId loan in
      if li_status e \<noteq> Loan_scheduled then (Inr loan, st)
      else and_then (in_pay (ensureSalaryRecord en ws tm (li_month e) (li_year e) (Some userId) st)) (\<lambda>k st1.
        case li_emiPlanned e of
          None \<Rightarrow> and_then (in_pay (ensureSalaryRecord en ws tm (li_month e) (li_year e) (Some userId) st1)) (\<lambda>_ st2. (Inl Not_a_number, st2))
        | Some emi \<Rightarrow>
            (let applied = round2 (min emi (max 0 (sd_netSalary (sl_data (ps_salaries st1 ! k)))))
             in and_then (in_pay (createLoanRecoveryAdjustment en ws tm (li_month e) (li_year e) applied (li_index e) userId st1))
                  (\<lambda>adj st2. (Inr (link_deduction i e emi applied adj loan), st2)))))"

definition open_slots :: "pay_env \<Rightarrow> nat \<Rightarrow> employer_loan \<Rightarrow> nat list" where
  \<comment> \<open>\<open>futureScheduled\<close>\<close>
  "open_slots en target loan = filter (\<lambda>i. let e = lo_installments loan ! i in
     i \<noteq> target \<and> li_status e = Loan_scheduled \<and> is_future_entry en e) [0..<length (lo_installments loan)]"

definition extend_tenor :: "pay_env \<Rightarrow> string \<Rightarrow> string \<Rightarrow> loan_installment \<Rightarrow> employer_loan \<Rightarrow> pay_store \<Rightarrow> employer_loan loan_pay" where
  "extend_tenor en ws userId target loan st =
     (if length (lo_installments loan) \<ge> 120 then (Inl Tenor_limit, st)
      else (let last_entry = last (lo_installments loan);
                (month, year) = nextMonth (li_month last_entry) (li_year last_entry);
                entry = \<lparr>li_index = int (length (lo_installments loan)) + 1, li_month = month, li_year = year,
                  li_principalPlanned = li_principalPlanned target, li_interestPlanned = li_interestPlanned target,
                  li_emiPlanned = li_emiPlanned target, li_appliedAmount = 0, li_adjustmentId = None, li_status = Loan_scheduled\<rparr>
            in rematerializeSingleInstallment en ws userId (length (lo_installments loan))
                 (loan\<lparr>lo_installments := lo_installments loan @ [entry], lo_tenorMonths := lo_tenorMonths loan + 1\<rparr>) st))"

definition raised_entry :: "rat option \<Rightarrow> loan_installment \<Rightarrow> loan_installment" where
  "raised_entry extra e = e\<lparr>li_emiPlanned := lift1 round2 (lift2 jadd (li_emiPlanned e) extra),
     li_principalPlanned := (case extra of None \<Rightarrow> li_principalPlanned e | Some x \<Rightarrow> round2 (jadd (li_principalPlanned e) x)),
     li_status := Loan_scheduled, li_adjustmentId := None, li_appliedAmount := 0\<rparr>"

definition extra_of :: "rat option \<Rightarrow> nat \<Rightarrow> nat \<Rightarrow> rat option" where
  \<comment> \<open>what slot \<open>rank\<close> of \<open>slots\<close> takes; the last one absorbs the rounding\<close>
  "extra_of skippedEmi slots rank = (case skippedEmi of None \<Rightarrow> None
     | Some x \<Rightarrow> (let extraPerSlot = round2 (jdiv x (of_nat slots))
         in Some (if rank = slots - 1 then round2 (jsub x (jmul extraPerSlot (of_nat (slots - 1)))) else extraPerSlot)))"

fun raise_slots :: "pay_env \<Rightarrow> string \<Rightarrow> string \<Rightarrow> rat option \<Rightarrow> nat \<Rightarrow> nat \<Rightarrow> nat list \<Rightarrow> employer_loan \<Rightarrow> pay_store \<Rightarrow> employer_loan loan_pay" where
  "raise_slots en ws userId skippedEmi slots rank [] loan st = (Inr loan, st)"
| "raise_slots en ws userId skippedEmi slots rank (i # is) loan st =
     (let loan1 = loan\<lparr>lo_installments := (lo_installments loan)[i := raised_entry (extra_of skippedEmi slots rank) (lo_installments loan ! i)]\<rparr>
      in and_then (rematerializeSingleInstallment en ws userId i loan1 st)
           (\<lambda>loan2 st1. raise_slots en ws userId skippedEmi slots (Suc rank) is loan2 st1))"

definition raise_emi :: "pay_env \<Rightarrow> string \<Rightarrow> string \<Rightarrow> loan_installment \<Rightarrow> nat list \<Rightarrow> employer_loan \<Rightarrow> pay_store \<Rightarrow> employer_loan loan_pay" where
  "raise_emi en ws userId target slots loan st =
     (if slots = [] then (Inl No_future_installments, st)
      else and_then (raise_slots en ws userId (li_emiPlanned target) (length slots) 0 slots loan st) (\<lambda>loan1 st1.
        (Inr (loan1\<lparr>lo_emiAmount := coalesce (li_emiPlanned (lo_installments loan1 ! hd slots)) (lo_emiAmount loan1)\<rparr>), st1)))"

definition skipInstallment :: "loan_env \<Rightarrow> string \<Rightarrow> nat \<Rightarrow> string \<Rightarrow> int \<Rightarrow> bool \<Rightarrow> string \<Rightarrow> loan_store \<Rightarrow> employer_loan loaned" where
  \<comment> \<open>the flag: extend the tenor, or else raise the EMI\<close>
  "skipInstallment en ws k userId index longer reason s =
     (case loan_of s ws k of
        None \<Rightarrow> (Inl Loan_not_found, s)
      | Some loan \<Rightarrow>
          if lo_status loan \<noteq> ''active'' then (Inl (Loan_wrong_status (lo_status loan)), s)
          else (case find_index (\<lambda>e. li_index e = index) (lo_installments loan) of
              None \<Rightarrow> (Inl Installment_not_found, s)
            | Some i \<Rightarrow>
                (let target = lo_installments loan ! i in
                 if li_status target \<in> {Loan_applied, Loan_skipped, Loan_reversed} then (Inl (Installment_closed (li_status target)), s)
                 else
                   (let pay = le_pay en; skipped = mark_entry i Loan_skipped loan; slots = open_slots pay i skipped in
                    and_then (on_pay
                        (and_then (in_pay (undo_entry pay userId reason target (lb_pay s))) (\<lambda>_ st1.
                         and_then (reverse_loan_entries pay userId ''Reversed for skip knock-on recompute'' slots skipped st1) (\<lambda>loan1 st2.
                           if longer then extend_tenor pay ws userId target loan1 st2 else raise_emi pay ws userId target slots loan1 st2))) s)
                      (\<lambda>loan2 s1. if loan_valid loan2 then (Inr loan2, save_loan k loan2 s1) else (Inl Loan_invalid, s1))))))"

section \<open>Pausing and resuming\<close>

definition pauseLoan :: "loan_env \<Rightarrow> string \<Rightarrow> nat \<Rightarrow> string \<Rightarrow> string \<Rightarrow> loan_store \<Rightarrow> employer_loan loaned" where
  "pauseLoan en ws k userId reason s =
     (case loan_of s ws k of
        None \<Rightarrow> (Inl Loan_not_found, s)
      | Some loan \<Rightarrow>
          if lo_status loan \<noteq> ''active'' then (Inl (Loan_wrong_status (lo_status loan)), s)
          else and_then (on_pay (reverseFutureLoanAdjustments (le_pay en) userId reason loan (lb_pay s)) s) (\<lambda>loan1 s1.
            let loan2 = loan1\<lparr>lo_status := ''paused''\<rparr> in refreshLoanProgress (le_pay en) k loan2 (save_loan k loan2 s1)))"

definition reopens :: "pay_env \<Rightarrow> loan_installment \<Rightarrow> bool" where
  "reopens en e \<longleftrightarrow> li_status e = Loan_reversed \<and> is_future_entry en e"

definition reopened :: "pay_env \<Rightarrow> loan_installment \<Rightarrow> loan_installment" where
  "reopened en e = (if reopens en e then e\<lparr>li_status := Loan_scheduled, li_adjustmentId := None, li_appliedAmount := 0\<rparr> else e)"

definition loan_cutover :: "pay_env \<Rightarrow> employer_loan \<Rightarrow> int \<times> int" where
  "loan_cutover en loan = (case List.find (reopens en) (lo_installments loan) of
     None \<Rightarrow> current_month en | Some e \<Rightarrow> (li_month e, li_year e))"

definition resumeLoan :: "loan_env \<Rightarrow> string \<Rightarrow> nat \<Rightarrow> string \<Rightarrow> loan_store \<Rightarrow> employer_loan loaned" where
  "resumeLoan en ws k userId s =
     (case loan_of s ws k of
        None \<Rightarrow> (Inl Loan_not_found, s)
      | Some loan \<Rightarrow>
          if lo_status loan \<noteq> ''paused'' then (Inl (Loan_wrong_status (lo_status loan)), s)
          else
            (let loan1 = loan\<lparr>lo_status := ''active'', lo_installments := map (reopened (le_pay en)) (lo_installments loan)\<rparr>;
                 (month, year) = loan_cutover (le_pay en) loan
             in and_then (materialize en ws userId month year k loan1 (save_loan k loan1 s))
                  (\<lambda>loan2 s1. refreshLoanProgress (le_pay en) k loan2 s1)))"

section \<open>Early payoff\<close>

definition rescheduled_entry :: "installment_row \<Rightarrow> loan_installment \<Rightarrow> loan_installment" where
  "rescheduled_entry row e = e\<lparr>li_principalPlanned := coalesce (ir_principalPart row) 0, li_interestPlanned := coalesce (ir_interestPart row) 0,
     li_emiPlanned := ir_emiAmount row, li_status := Loan_scheduled, li_adjustmentId := None, li_appliedAmount := 0\<rparr>"

fun reschedule :: "nat list \<Rightarrow> installment_row list \<Rightarrow> loan_installment list \<Rightarrow> loan_installment list" where
  \<comment> \<open>the rows of the new schedule over the slots, as far as there are rows\<close>
  "reschedule (i # is) (row # rows) es = reschedule is rows (es[i := rescheduled_entry row (es ! i)])"
| "reschedule _ _ es = es"

definition payoff_slots :: "pay_env \<Rightarrow> employer_loan \<Rightarrow> nat list" where
  \<comment> \<open>\<open>futureReversedMonths\<close>\<close>
  "payoff_slots en loan = filter (\<lambda>i. reopens en (lo_installments loan ! i)) [0..<length (lo_installments loan)]"

definition partial_payoff :: "loan_env \<Rightarrow> string \<Rightarrow> nat \<Rightarrow> string \<Rightarrow> rat \<Rightarrow> employer_loan \<Rightarrow> loan_store \<Rightarrow> employer_loan loaned" where
  "partial_payoff en ws k userId effectivePayoff loan s =
     (let reduced = loan\<lparr>lo_remainingAmount := round2 (jsub (lo_remainingAmount loan) effectivePayoff),
            lo_remainingPrincipal := round2 (max 0 (jsub (lo_remainingPrincipal loan) effectivePayoff))\<rparr>;
          finish = (\<lambda>loan2 s2. let loan3 = loan2\<lparr>lo_status := ''active''\<rparr> in (Inr loan3, save_loan k loan3 s2))
      in case payoff_slots (le_pay en) reduced of
           [] \<Rightarrow> finish reduced s
         | i # is \<Rightarrow>
             (let first = lo_installments reduced ! i in
              case schedule_of en (lo_interestType reduced) (lo_remainingPrincipal reduced) (lo_annualInterestRate reduced)
                  (int (length (i # is))) (li_month first) (li_year first) of
                Inl e \<Rightarrow> (Inl e, s)
              | Inr sch \<Rightarrow>
                  and_then (materialize en ws userId (li_month first) (li_year first) k
                      (reduced\<lparr>lo_installments := reschedule (i # is) (ls_installments sch) (lo_installments reduced)\<rparr>) s) (\<lambda>loan1 s1.
                    finish (loan1\<lparr>lo_emiAmount := coalesce (ls_emiAmount sch) 0,
                      lo_totalInterestScheduled := round2 (jsub (lo_totalInterestScheduled loan1)
                         (jsub (lo_totalInterestScheduled loan1) (ls_totalInterest sch)))\<rparr>) s1)))"

definition earlyPayoffLoan :: "loan_env \<Rightarrow> string \<Rightarrow> nat \<Rightarrow> string \<Rightarrow> rat \<Rightarrow> string \<Rightarrow> loan_store \<Rightarrow> employer_loan loaned" where
  "earlyPayoffLoan en ws k userId payoffAmount reason s =
     (case loan_of s ws k of
        None \<Rightarrow> (Inl Loan_not_found, s)
      | Some loan \<Rightarrow>
          if lo_status loan \<noteq> ''active'' \<and> lo_status loan \<noteq> ''paused'' then (Inl (Loan_wrong_status (lo_status loan)), s)
          else
            (let effectivePayoff = round2 (min payoffAmount (lo_remainingAmount loan));
                 isFullPayoff = effectivePayoff \<ge> round2 (jsub (lo_remainingAmount loan) (jdiv 1 100))
             in and_then (on_pay (reverseFutureLoanAdjustments (le_pay en) userId reason loan (lb_pay s)) s) (\<lambda>loan1 s1.
                  if isFullPayoff
                  then (let loan2 = loan1\<lparr>lo_status := ''completed'', lo_closureType := Some ''early_payoff'', lo_closedBy := Some userId,
                              lo_remainingAmount := 0, lo_remainingPrincipal := 0\<rparr>
                        in (Inr loan2, save_loan k loan2 s1))
                  else partial_payoff en ws k userId effectivePayoff loan1 s1)))"

section \<open>Top-up and write-off\<close>

record top_up =
  tu_additionalAmount :: rat
  tu_newTenorMonths :: "int option"

definition remaining_tenor :: "pay_env \<Rightarrow> employer_loan \<Rightarrow> int" where
  "remaining_tenor en loan = max 1 (int (length (filter (\<lambda>e. (li_status e = Loan_reversed \<or> li_status e = Loan_scheduled)
     \<and> is_future_entry en e) (lo_installments loan))))"

definition topped_up :: "employer_loan \<Rightarrow> nat \<Rightarrow> rat \<Rightarrow> int \<Rightarrow> int \<Rightarrow> int \<Rightarrow> loan_schedule \<Rightarrow> string \<Rightarrow> employer_loan" where
  "topped_up old k newPrincipal newTenor month year sch userId = \<lparr>lo_workspaceId = lo_workspaceId old, lo_teamMemberId = lo_teamMemberId old,
     lo_loanType = lo_loanType old, lo_principalAmount = newPrincipal, lo_interestType = lo_interestType old,
     lo_annualInterestRate = lo_annualInterestRate old, lo_tenorMonths = newTenor, lo_emiAmount = coalesce (ls_emiAmount sch) 0,
     lo_startMonth = month, lo_startYear = year, lo_status = ''active'', lo_recoveredAmount = 0, lo_remainingPrincipal = newPrincipal,
     lo_remainingAmount = round2 (jadd newPrincipal (ls_totalInterest sch)), lo_totalInterestScheduled = ls_totalInterest sch,
     lo_installments = map scheduled_row (ls_installments sch), lo_linkedAdjustmentIds = [], lo_approvalChain = [], lo_approvedBy = None,
     lo_closureType = None, lo_closedBy = None, lo_writeOffAmount = None, lo_supersedes = Some k,
     lo_medicalLoanExempt = lo_medicalLoanExempt old, lo_perquisiteHistory = [], lo_createdBy = userId\<rparr>"

definition topUpLoan :: "loan_env \<Rightarrow> string \<Rightarrow> nat \<Rightarrow> string \<Rightarrow> top_up \<Rightarrow> loan_store \<Rightarrow> nat loaned" where
  "topUpLoan en ws k userId dto s =
     (case loan_of s ws k of
        None \<Rightarrow> (Inl Loan_not_found, s)
      | Some old \<Rightarrow>
          guarded (loan_write_allowed en ws userId (lo_teamMemberId old) s @ [(lo_status old = ''active'', Loan_wrong_status (lo_status old))])
            (and_then (on_pay (reverseFutureLoanAdjustments (le_pay en) userId ''Loan topped up - superseded by new loan.'' old (lb_pay s)) s)
              (\<lambda>old1 s1.
                let newTenor = coalesce (tu_newTenorMonths dto) (remaining_tenor (le_pay en) old1);
                    newPrincipal = round2 (jadd (lo_remainingPrincipal old1) (tu_additionalAmount dto));
                    (curMonth, curYear) = current_month (le_pay en);
                    (month, year) = nextMonth curMonth curYear
                in case schedule_of en (lo_interestType old1) newPrincipal (lo_annualInterestRate old1) newTenor month year of
                     Inl e \<Rightarrow> (Inl e, s1)
                   | Inr sch \<Rightarrow>
                       (let loan = topped_up old1 k newPrincipal newTenor month year sch userId in
                        and_then (insert_loan loan s1) (\<lambda>j s2.
                        and_then (materialize en ws userId month year j loan s2) (\<lambda>_ s3.
                          (Inr j, save_loan k (old1\<lparr>lo_status := ''completed'', lo_closureType := Some ''top_up_superseded'',
                             lo_closedBy := Some userId, lo_remainingAmount := 0\<rparr>) s3)))))) s)"

definition writeOffLoan :: "loan_env \<Rightarrow> string \<Rightarrow> nat \<Rightarrow> string \<Rightarrow> rat \<Rightarrow> string \<Rightarrow> loan_store \<Rightarrow> employer_loan loaned" where
  "writeOffLoan en ws k userId amount reason s =
     (case loan_of s ws k of
        None \<Rightarrow> (Inl Loan_not_found, s)
      | Some loan \<Rightarrow>
          guarded [(not_self_edit (le_pay en) userId (lo_teamMemberId loan), Pay_error Self_edit_blocked),
                   (lo_status loan = ''active'' \<or> lo_status loan = ''paused'', Loan_wrong_status (lo_status loan))]
            (and_then (on_pay (reverseFutureLoanAdjustments (le_pay en) userId reason loan (lb_pay s)) s) (\<lambda>loan1 s1.
              let loan2 = loan1\<lparr>lo_status := ''written_off'', lo_closureType := Some ''written_off'', lo_closedBy := Some userId,
                    lo_writeOffAmount := Some amount\<rparr>
              in (Inr loan2, save_loan k loan2 s1))) s)"

section \<open>The perquisite of a month\<close>

datatype perquisite_reason = Already_computed | Medical_loan_exempt | Aggregate_below_threshold | Rate_at_or_above_benchmark | Computed

record perquisite_tally =
  pt_processed :: nat
  pt_skippedIdempotent :: nat
  pt_skippedExempt :: nat
  pt_totalPerquisiteAmount :: rat
  pt_details :: "(nat \<times> string \<times> rat \<times> bool \<times> perquisite_reason) list"

definition perquisite_row :: "pay_env \<Rightarrow> string \<Rightarrow> string \<Rightarrow> int \<Rightarrow> int \<Rightarrow> rat \<Rightarrow> string \<Rightarrow> pay_store \<Rightarrow> nat pay" where
  "perquisite_row en ws tm month year perquisiteValue userId st =
     and_then (ensureSalaryRecord en ws tm month year (Some userId) st) (\<lambda>i st1.
       let row = (new_adjustment (ps_salaries st1 ! i) i ws Addition ''loan_perquisite'' perquisiteValue System userId)
             \<lparr>aj_teamMemberId := tm, aj_month := month, aj_year := year\<rparr>;
           k = length (ps_adjustments st1)
       in and_then (recalculateSalaryFromAdjustments en i (Some userId) True (add_adjustment row st1)) (\<lambda>_ st2. (Inr k, st2)))"

definition perquisite_loan ::
  "loan_env \<Rightarrow> string \<Rightarrow> string \<Rightarrow> int \<Rightarrow> int \<Rightarrow> bool \<Rightarrow> bool \<Rightarrow> nat \<Rightarrow> perquisite_tally \<Rightarrow> loan_store \<Rightarrow> perquisite_tally loaned" where
  "perquisite_loan en ws userId month year dryRun aggregateExempt k tally s =
     (let loan = lb_loans s ! k; tm = lo_teamMemberId loan; outstanding = lo_remainingAmount loan; benchmark = le_sbiBenchmarkRate en;
          log = (\<lambda>x exempt adj s. if dryRun then s else save_loan k (loan\<lparr>lo_perquisiteHistory := lo_perquisiteHistory loan
             @ [\<lparr>pe_month = month, pe_year = year, pe_outstandingAtStart = outstanding, pe_sbiBenchmarkRate = benchmark,
                 pe_interestActuallyCharged = lo_annualInterestRate loan, pe_perquisiteValue = x, pe_exempt = exempt,
                 pe_adjustmentId = adj\<rparr>]\<rparr>) s);
          told = (\<lambda>x exempt reason. pt_details tally @ [(k, tm, x, exempt, reason)]);
          perquisite = computeMonthlyPerquisite outstanding benchmark (lo_annualInterestRate loan)
      in if list_ex (\<lambda>p. pe_month p = month \<and> pe_year p = year) (lo_perquisiteHistory loan)
         then (Inr (tally\<lparr>pt_skippedIdempotent := pt_skippedIdempotent tally + 1, pt_details := told 0 False Already_computed\<rparr>), s)
         else if lo_medicalLoanExempt loan
         then (Inr (tally\<lparr>pt_skippedExempt := pt_skippedExempt tally + 1, pt_details := told 0 True Medical_loan_exempt\<rparr>), log 0 True None s)
         else if aggregateExempt
         then (Inr (tally\<lparr>pt_skippedExempt := pt_skippedExempt tally + 1, pt_details := told 0 True Aggregate_below_threshold\<rparr>), log 0 True None s)
         else if perquisite \<le> 0
         then (Inr (tally\<lparr>pt_details := told 0 False Rate_at_or_above_benchmark\<rparr>), log 0 False None s)
         else and_then (if dryRun then (Inr None, s)
             else and_then (on_pay (in_pay (perquisite_row (le_pay en) ws tm month year perquisite userId (lb_pay s))) s)
                    (\<lambda>adj s1. (Inr (Some adj), log perquisite False (Some adj) s1)))
           (\<lambda>_ s1. (Inr (tally\<lparr>pt_processed := pt_processed tally + 1,
              pt_totalPerquisiteAmount := round2 (jadd (pt_totalPerquisiteAmount tally) perquisite),
              pt_details := told perquisite False Computed\<rparr>), s1)))"

fun perquisite_loans ::
  "loan_env \<Rightarrow> string \<Rightarrow> string \<Rightarrow> int \<Rightarrow> int \<Rightarrow> bool \<Rightarrow> (nat \<times> bool) list \<Rightarrow> perquisite_tally \<Rightarrow> loan_store \<Rightarrow> perquisite_tally loaned" where
  "perquisite_loans en ws userId month year dryRun [] tally s = (Inr tally, s)"
| "perquisite_loans en ws userId month year dryRun ((k, exempt) # ks) tally s =
     and_then (perquisite_loan en ws userId month year dryRun exempt k tally s)
       (\<lambda>tally1 s1. perquisite_loans en ws userId month year dryRun ks tally1 s1)"

definition running_loans :: "string \<Rightarrow> loan_store \<Rightarrow> nat list" where
  "running_loans ws s = filter (\<lambda>k. let loan = lb_loans s ! k in lo_workspaceId loan = ws \<and> lo_status loan \<in> {''active'', ''paused''})
     [0..<length (lb_loans s)]"

definition loans_by_member :: "loan_env \<Rightarrow> string \<Rightarrow> loan_store \<Rightarrow> (nat \<times> bool) list" where
  \<comment> \<open>the running loans in groups of one member, each with whether the member is below the threshold\<close>
  "loans_by_member en ws s =
     (let running = running_loans ws s; owner = (\<lambda>k. lo_teamMemberId (lb_loans s ! k));
          members = rev (remdups (rev (map owner running)))
      in concat (map (\<lambda>tm. let group = filter (\<lambda>k. owner k = tm) running;
             aggregateOutstanding = foldl (\<lambda>sum k. jadd sum (lo_remainingAmount (lb_loans s ! k))) 0 group
           in map (\<lambda>k. (k, aggregateOutstanding \<le> le_perquisiteExemptionThreshold en)) group) members))"

definition computeMonthlyPerquisites :: "loan_env \<Rightarrow> string \<Rightarrow> int \<Rightarrow> int \<Rightarrow> bool \<Rightarrow> string \<Rightarrow> loan_store \<Rightarrow> perquisite_tally loaned" where
  "computeMonthlyPerquisites en ws month year dryRun userId s =
     perquisite_loans en ws userId month year dryRun (loans_by_member en ws s)
       \<lparr>pt_processed = 0, pt_skippedIdempotent = 0, pt_skippedExempt = 0, pt_totalPerquisiteAmount = 0, pt_details = []\<rparr> s"

section \<open>The dashboard\<close>

definition loanDashboard :: "loan_store \<Rightarrow> string \<Rightarrow> string option \<Rightarrow> string option \<Rightarrow> nat \<times> rat \<times> rat" where
  \<comment> \<open>number, amount and outstanding principal of the loans that run\<close>
  "loanDashboard s ws loanType status =
     (let loans = filter (\<lambda>loan. lo_workspaceId loan = ws
            \<and> (case status of Some x \<Rightarrow> lo_status loan = x | None \<Rightarrow> lo_status loan \<in> {''active'', ''paused'', ''pending_approval''})
            \<and> (case loanType of Some x \<Rightarrow> lo_loanType loan = x | None \<Rightarrow> True)) (rev (lb_loans s));
          running = filter (\<lambda>loan. lo_status loan \<in> {''active'', ''paused''}) loans
      in (length running, round2 (foldl (\<lambda>sum loan. jadd sum (lo_principalAmount loan)) 0 running),
          round2 (foldl (\<lambda>sum loan. jadd sum (lo_remainingPrincipal loan)) 0 running)))"

end
