(* ===== verification/LoanRequests.thy ===== *)
theory LoanRequests
  imports LoanChanges
begin

text \<open>
  Requests of workers for an interest-free loan (\<open>salary/loan-request.service.ts\<close>): the eligibility that is
  shown, the request, and its approval, which creates the loan.  Amounts of a request are in paise, those
  of a loan in rupees.  The workspace has a payroll configuration.
\<close>

section \<open>Eligibility\<close>

definition loan_tenure_met :: "loan_env \<Rightarrow> string \<Rightarrow> pay_store \<Rightarrow> bool" where
  "loan_tenure_met en tm st = (case le_selfApplyMinTenureMonths en of
       None \<Rightarrow> True
     | Some least \<Rightarrow> (case find_member st tm of
           None \<Rightarrow> True
         | Some m \<Rightarrow> (case pm_dateOfJoining m of
               None \<Rightarrow> True
             | Some d \<Rightarrow> monthsBetween (en_tz (le_pay en)) d (en_now (le_pay en)) \<ge> least)))"

definition open_loans :: "string \<Rightarrow> string \<Rightarrow> loan_store \<Rightarrow> employer_loan list" where
  "open_loans ws tm s = filter (\<lambda>loan. lo_workspaceId loan = ws \<and> lo_teamMemberId loan = tm
     \<and> lo_status loan \<in> {''active'', ''paused'', ''pending_approval''}) (lb_loans s)"

definition pending_request :: "string \<Rightarrow> string \<Rightarrow> loan_request \<Rightarrow> bool" where
  "pending_request ws tm r \<longleftrightarrow> lr_workspaceId r = ws \<and> lr_teamMemberId r = tm \<and> lr_status r = ''pending''"

definition below_loan_count :: "loan_env \<Rightarrow> string \<Rightarrow> string \<Rightarrow> loan_store \<Rightarrow> bool" where
  "below_loan_count en ws tm s \<longleftrightarrow> (le_maxActiveLoanCount en > 0 \<longrightarrow>
     int (length (open_loans ws tm s)) + int (length (filter (pending_request ws tm) (lb_requests s))) + 1 \<le> le_maxActiveLoanCount en)"

definition below_loan_amount :: "loan_env \<Rightarrow> string \<Rightarrow> string \<Rightarrow> rat \<Rightarrow> loan_store \<Rightarrow> bool" where
  "below_loan_amount en ws tm requestedAmount s \<longleftrightarrow> (le_maxActiveLoanAmount en > 0 \<longrightarrow>
     jadd (foldl (\<lambda>sum loan. jadd sum (lo_remainingAmount loan)) 0 (open_loans ws tm s)) (jdiv requestedAmount 100) \<le> le_maxActiveLoanAmount en)"

definition within_loan_cap :: "loan_env \<Rightarrow> rat option \<Rightarrow> bool" where
  "within_loan_cap en requestedAmount = (case (le_selfApplyMaxAmount en, requestedAmount) of
     (Some most, Some x) \<Rightarrow> x \<le> most | _ \<Rightarrow> True)"

definition evaluateEligibility :: "loan_env \<Rightarrow> string \<Rightarrow> string \<Rightarrow> rat option \<Rightarrow> loan_store \<Rightarrow> bool \<times> loan_error list" where
  \<comment> \<open>whether requests are enabled, and the reasons against one\<close>
  "evaluateEligibility en ws tm requestedAmount s =
     (let on = feature (le_pay en) ''loanManagement''
      in (on \<and> le_selfApplyEnabled en,
          (if on then [] else [Loans_disabled])
          @ (if le_selfApplyEnabled en then [] else [Self_apply_disabled])
          @ (if loan_tenure_met en tm (lb_pay s) then [] else [Loan_tenure_not_met])
          @ (if within_loan_cap en requestedAmount then [] else [Loan_amount_exceeds_cap])
          @ (if below_loan_count en ws tm s \<and> below_loan_amount en ws tm (coalesce requestedAmount 0) s then [] else [Loan_limit_exceeded])))"

section \<open>Requests\<close>

definition createLoanRequest :: "loan_env \<Rightarrow> string \<Rightarrow> string \<Rightarrow> rat \<Rightarrow> int \<Rightarrow> loan_store \<Rightarrow> nat loaned" where
  "createLoanRequest en ws tm requestedAmount desiredTenorMonths s =
     guarded [(feature (le_pay en) ''loanManagement'', Loans_disabled),
              (le_selfApplyEnabled en, Self_apply_disabled),
              (loan_tenure_met en tm (lb_pay s), Loan_tenure_not_met),
              ((case le_selfApplyMaxAmount en of None \<Rightarrow> True | Some most \<Rightarrow> requestedAmount \<le> most), Loan_amount_exceeds_cap),
              (below_loan_count en ws tm s, Loan_limit_exceeded),
              (below_loan_amount en ws tm requestedAmount s, Loan_limit_exceeded),
              (\<not> list_ex (pending_request ws tm) (lb_requests s), Loan_request_duplicate)]
       (Inr (length (lb_requests s)), s\<lparr>lb_requests := lb_requests s @ [\<lparr>lr_workspaceId = ws, lr_teamMemberId = tm,
          lr_requestedAmount = requestedAmount, lr_desiredTenorMonths = desiredTenorMonths, lr_status = ''pending'',
          lr_createdEmployerLoanId = None, lr_reviewedBy = None\<rparr>]\<rparr>) s"

definition loadPendingRequest :: "string \<Rightarrow> nat \<Rightarrow> loan_store \<Rightarrow> loan_request loaned" where
  "loadPendingRequest ws j s = (case nth_doc (lb_requests s) j of
       None \<Rightarrow> (Inl Loan_request_not_found, s)
     | Some r \<Rightarrow> if lr_workspaceId r \<noteq> ws then (Inl Loan_request_not_found, s)
                 else if lr_status r \<noteq> ''pending'' then (Inl Loan_request_not_pending, s) else (Inr r, s))"

definition save_loan_request :: "nat \<Rightarrow> loan_request \<Rightarrow> loan_store \<Rightarrow> loan_store" where
  "save_loan_request j r s = s\<lparr>lb_requests := (lb_requests s)[j := r]\<rparr>"

record loan_terms =
  lt_principalAmount :: "rat option" \<comment> \<open>in paise\<close>
  lt_interestType :: "string option"
  lt_tenorMonths :: int
  lt_startMonth :: int
  lt_startYear :: int
  lt_approvalChain :: "string list"

definition loan_for_request :: "loan_request \<Rightarrow> loan_terms \<Rightarrow> loan_input" where
  "loan_for_request r dto = \<lparr>ln_teamMemberId = lr_teamMemberId r, ln_loanType = ''personal'',
     ln_principalAmount = jdiv (coalesce (lt_principalAmount dto) (lr_requestedAmount r)) 100,
     ln_interestType = coalesce (lt_interestType dto) ''zero'', ln_annualInterestRate = 0, ln_tenorMonths = lt_tenorMonths dto,
     ln_startMonth = lt_startMonth dto, ln_startYear = lt_startYear dto, ln_approvalChain = lt_approvalChain dto,
     ln_medicalLoanExempt = False\<rparr>"

definition approveLoanRequest :: "loan_env \<Rightarrow> string \<Rightarrow> nat \<Rightarrow> string \<Rightarrow> loan_terms \<Rightarrow> loan_store \<Rightarrow> loan_request loaned" where
  "approveLoanRequest en ws j userId dto s =
     and_then (loadPendingRequest ws j s) (\<lambda>r s1.
     and_then (createLoan en ws userId (loan_for_request r dto) s1) (\<lambda>k s2.
       let r1 = r\<lparr>lr_status := ''approved'', lr_createdEmployerLoanId := Some k, lr_reviewedBy := Some userId\<rparr>
       in (Inr r1, save_loan_request j r1 s2)))"

definition rejectLoanRequest :: "string \<Rightarrow> nat \<Rightarrow> string \<Rightarrow> loan_store \<Rightarrow> loan_request loaned" where
  "rejectLoanRequest ws j userId s =
     and_then (loadPendingRequest ws j s) (\<lambda>r s1.
       let r1 = r\<lparr>lr_status := ''rejected'', lr_reviewedBy := Some userId\<rparr> in (Inr r1, save_loan_request j r1 s1))"

end
