(* ===== verification/PayrollRuns.thy ===== *)
theory PayrollRuns
  imports SalaryPayments
begin

text \<open>
  The payroll of a month and the pay of a member (\<open>generatePayroll\<close>, \<open>updateSalaryRecord\<close> and
  \<open>setBasePay\<close> of \<open>salary/salary.service.ts\<close>).  Bank details, component overrides and the preferred
  payment method of a member are stored by \<open>setBasePay\<close> too; nothing in this development reads them.
\<close>

section \<open>The payroll of a month\<close>

definition eligible_member :: "pay_env \<Rightarrow> string \<Rightarrow> int \<Rightarrow> int \<Rightarrow> pay_member \<Rightarrow> bool" where
  "eligible_member en ws month year m \<longleftrightarrow> pm_workspaceId m = ws \<and> pm_isActive m \<and> \<not> pm_isDeleted m
     \<and> (let firstDay = local_midnight (en_tz en) year (month - 1) 1;
            lastDay = local_midnight (en_tz en) year month 0 + (ms_per_day - 1000)
        in (case pm_dateOfJoining m of Some d \<Rightarrow> d \<le> lastDay | None \<Rightarrow> True)
           \<and> (case pm_dateOfResignation m of Some d \<Rightarrow> d \<ge> firstDay | None \<Rightarrow> True))"

fun ensure_all :: "pay_env \<Rightarrow> string \<Rightarrow> int \<Rightarrow> int \<Rightarrow> string list \<Rightarrow> pay_store \<Rightarrow> nat list pay" where
  "ensure_all en ws month year [] st = (Inr [], st)"
| "ensure_all en ws month year (tm # tms) st =
     and_then (ensureSalaryRecord en ws tm month year None st) (\<lambda>i st1.
       and_then (ensure_all en ws month year tms st1) (\<lambda>is st2. (Inr (i # is), st2)))"

definition generatePayroll :: "pay_env \<Rightarrow> string \<Rightarrow> int \<Rightarrow> int \<Rightarrow> pay_store \<Rightarrow> nat list pay" where
  "generatePayroll en ws month year st =
     ensure_all en ws month year (map pm_id (filter (eligible_member en ws month year) (ps_members st))) st"

section \<open>Changing a record\<close>

definition updateSalaryRecord :: "pay_env \<Rightarrow> string \<Rightarrow> nat \<Rightarrow> rat option \<Rightarrow> string option \<Rightarrow> pay_store \<Rightarrow> unit pay" where
  \<comment> \<open>the new base salary, if any; the other fields of the request are not used\<close>
  "updateSalaryRecord en ws i baseSalary actor st =
     (case salary_of st ws i of
        None \<Rightarrow> (Inl Salary_not_found, st)
      | Some d \<Rightarrow>
          guarded [(\<not> is_locked st i, Salary_locked),
                   ((case actor of None \<Rightarrow> True | Some u \<Rightarrow> not_self_edit en u (sl_teamMemberId d)), Self_edit_blocked),
                   (member_writable st ws (sl_teamMemberId d), Member_offboarded)]
            (recalculateSalaryFromAdjustments en i actor False
               (update_salary i (\<lambda>d. d\<lparr>sl_data := (sl_data d)\<lparr>sd_baseSalary := coalesce baseSalary (sd_baseSalary (sl_data d))\<rparr>\<rparr>) st)) st)"

section \<open>The pay of a member\<close>

record base_pay =
  bp_hourly :: bool \<comment> \<open>\<open>salaryType\<close>, which is monthly otherwise\<close>
  bp_salaryAmount :: rat
  bp_salaryDayBasis :: day_basis
  bp_attendancePayMode :: attendance_pay_mode
  bp_fixedMonthDays :: "rat option"
  bp_dailyHours :: "rat option"
  bp_finalMonthlyOverride :: "rat option"
  bp_ctcAmount :: "rat option"
  bp_componentTemplateId :: "string option"
  bp_hasOverrides :: bool
  bp_salaryId :: "nat option"

definition with_base_pay :: "base_pay \<Rightarrow> pay_member \<Rightarrow> pay_member" where
  \<comment> \<open>\<open>$set\<close> and \<open>$unset\<close>: the fields of the other mode are cleared\<close>
  "with_base_pay cfg m =
     (let fixed = (bp_salaryDayBasis cfg = Fixed_month_days);
          m1 = m\<lparr>pm_salaryAmount := Some (bp_salaryAmount cfg), pm_salaryType := Some (if bp_hourly cfg then Hourly else Monthly),
                 pm_salaryDayBasis := Some (bp_salaryDayBasis cfg), pm_attendancePayMode := Some (bp_attendancePayMode cfg),
                 pm_fixedMonthDays := (if fixed then case bp_fixedMonthDays cfg of Some x \<Rightarrow> Some x | None \<Rightarrow> pm_fixedMonthDays m else None)\<rparr>
      in if bp_hourly cfg
         then m1\<lparr>pm_finalMonthlyOverride := bp_finalMonthlyOverride cfg, pm_dailyHours := bp_dailyHours cfg,
                 pm_workingDays := (if fixed then case bp_fixedMonthDays cfg of Some x \<Rightarrow> Some x | None \<Rightarrow> pm_workingDays m else None),
                 pm_ctcAmount := None, pm_componentTemplateId := None\<rparr>
         else m1\<lparr>pm_finalMonthlyOverride := None, pm_dailyHours := None, pm_workingDays := None,
                 pm_ctcAmount := bp_ctcAmount cfg, pm_componentTemplateId := bp_componentTemplateId cfg\<rparr>)"

definition rebuild_record :: "pay_env \<Rightarrow> string \<Rightarrow> string \<Rightarrow> nat \<Rightarrow> string option \<Rightarrow> pay_store \<Rightarrow> unit pay" where
  \<comment> \<open>the record that was named, with the figures of the member that was named\<close>
  "rebuild_record en ws tm i actor st =
     (if is_locked st i then (Inl Salary_locked, st)
      else case salary_of st ws i of
        None \<Rightarrow> (Inr (), st)
      | Some d \<Rightarrow>
          and_then (buildSalaryRecordData en ws tm (sl_month d) (sl_year d) (sd_additions (sl_data d)) (sd_deductions (sl_data d)) st)
            (\<lambda>r st1. (Inr (), syncSalaryStatus i (update_salary i (\<lambda>d. d\<lparr>
               sl_data := (sl_data d)\<lparr>sd_baseSalary := sd_baseSalary r, sd_totalDays := sd_totalDays r, sd_presentDays := sd_presentDays r,
                 sd_salaryType := sd_salaryType r, sd_salaryDayBasis := sd_salaryDayBasis r, sd_fixedMonthDays := sd_fixedMonthDays r,
                 sd_attendancePay := sd_attendancePay r, sd_netSalary := sd_netSalary r\<rparr>,
               sl_updatedBy := (case actor of None \<Rightarrow> sl_updatedBy d | Some u \<Rightarrow> Some u)\<rparr>) st1))))"

definition setBasePay :: "pay_env \<Rightarrow> string \<Rightarrow> string \<Rightarrow> base_pay \<Rightarrow> string option \<Rightarrow> pay_store \<Rightarrow> unit pay" where
  "setBasePay en ws tm cfg actor st =
     guarded [((case actor of None \<Rightarrow> True | Some u \<Rightarrow> not_self_edit en u tm), Self_edit_blocked),
              (member_writable st ws tm, Member_offboarded),
              (bp_hourly cfg \<longrightarrow> feature en ''hourlySalary'', Feature_disabled ''hourlySalary''),
              (\<not> bp_hourly cfg \<and> (coalesce (bp_ctcAmount cfg) 0 > 0 \<or> bp_componentTemplateId cfg \<noteq> None \<or> bp_hasOverrides cfg)
                 \<longrightarrow> feature en ''salaryComponents'', Feature_disabled ''salaryComponents'')]
       (case find_index (\<lambda>m. pm_id m = tm \<and> pm_workspaceId m = ws) (ps_members st) of
          None \<Rightarrow> (Inl Member_not_found, st)
        | Some j \<Rightarrow>
            (let st1 = st\<lparr>ps_members := (ps_members st)[j := with_base_pay cfg (ps_members st ! j)]\<rparr>
             in case bp_salaryId cfg of None \<Rightarrow> (Inr (), st1) | Some i \<Rightarrow> rebuild_record en ws tm i actor st1)) st"

end
