(* ===== verification/PlanInvariants.thy ===== *)
theory PlanInvariants
  imports AdvanceRequests PayrollRuns
begin

text \<open>
  What the operations on recovery plans and the payroll of a month need of a predicate on the store:
  the three operations they are made of keep it, and it does not look at the plan documents.  The locale
  is interpreted on the growth of the records, on the statuses of the advance requests, on every
  invariant of the store and on the agreement of the books.
\<close>

locale plan_invariant =
  fixes I :: "pay_store \<Rightarrow> bool" and en :: pay_env
  assumes ensured: "\<And>st ws tm month year u. I st \<Longrightarrow> I (snd (ensureSalaryRecord en ws tm month year u st))"
    and deducted: "\<And>st ws tm month year amount p u plan. I st
        \<Longrightarrow> I (snd (createAdvanceRecoveryDeduction en ws tm month year amount p u plan st))"
    and undone: "\<And>st u r k. I st \<Longrightarrow> I (snd (reverseAdjustmentDoc en u r k st))"
    and replanned: "\<And>st d. I st \<Longrightarrow> I (st\<lparr>ps_plans := d\<rparr>)"
begin

lemma seq: "I (snd r) \<Longrightarrow> (\<And>x st. I st \<Longrightarrow> I (snd (f x st))) \<Longrightarrow> I (snd (and_then r f))"
  by (cases r) (auto simp: and_then_def split: sum.split)

lemma passed: "I (snd r) \<Longrightarrow> (\<And>x st. snd (f x st) = st) \<Longrightarrow> I (snd (and_then r f))"
  by (cases r) (auto simp: and_then_def split: sum.split)

lemma validate: "I st \<Longrightarrow> I (snd (validate_month en q m planned carry schedule w st))"
  unfolding validate_month_def Let_def by (rule passed[OF ensured]) (auto split: sum.split)

lemma installments: "I st \<Longrightarrow> I (snd (validate_installments en q m n ps w st))"
  by (induction ps arbitrary: w st) (simp_all add: seq validate)

lemma validated_carries: "I st \<Longrightarrow> I (snd (validate_carries en q m n w st))"
  by (induction n arbitrary: w st) (simp_all add: seq validate)

lemma first_walk: "I st \<Longrightarrow> I (snd (first_pass en q m planned st))"
  unfolding first_pass_def by (intro seq installments validated_carries) simp_all

lemma second_walk: "I st \<Longrightarrow> I (snd (second_pass en q planId vs st))"
proof (induction vs arbitrary: st)
  case (Cons v vs)
  show ?case unfolding second_pass.simps by (intro seq deducted Cons) simp_all
qed simp

lemma create_plan: "I st \<Longrightarrow> I (snd (createAdvanceRecoveryPlan en q st))"
  unfolding createAdvanceRecoveryPlan_def Let_def
  by (auto intro!: seq first_walk second_walk replanned split: sum.split option.split)

lemma save_plan: "I st \<Longrightarrow> I (save_plan k plan st)"
  unfolding save_plan_def by (rule replanned)

lemma month: "I st \<Longrightarrow> I (snd (materialize_month en ws u k plan m p carry w st))"
  unfolding materialize_month_def Let_def by (intro seq ensured deducted) simp_all

lemma base: "I st \<Longrightarrow> I (snd (materialize_base en ws u k plan m ps w st))"
  by (induction ps arbitrary: w st) (simp_all add: seq month)

lemma carries: "I st \<Longrightarrow> I (snd (materialize_carries en ws u k plan m n w st))"
  by (induction n arbitrary: w st) (simp_all add: seq month)

lemma materialize: "I st \<Longrightarrow> I (snd (materializeInstallments en ws u k plan month year amount st))"
  unfolding materializeInstallments_def Let_def
  by (auto intro!: seq base carries save_plan split: option.split sum.split)

lemma refresh_plan: "I st \<Longrightarrow> I (snd (refreshPlanProgress en k plan st))"
  unfolding refreshPlanProgress_def by (simp add: save_plan)

lemma reverse_future: "I st \<Longrightarrow> I (snd (reverse_future en u r is plan st))"
  by (induction "is" arbitrary: plan st) (auto simp: Let_def intro!: seq undone split: option.split)

lemma respread: "I st \<Longrightarrow> I (snd (respread en ws u k plan from amount st))"
  unfolding respread_def Let_def by (intro seq materialize refresh_plan save_plan)

lemma edit_plan: "I st \<Longrightarrow> I (snd (editAdvanceRecoveryPlan en ws k u dto st))"
  unfolding editAdvanceRecoveryPlan_def Let_def
  by (auto intro!: seq reverse_future refresh_plan respread save_plan split: option.split plan_action.split)

lemma payoff: "I st \<Longrightarrow> I (snd (earlyPayoffAdvanceRecoveryPlan en ws k u reason st))"
  unfolding earlyPayoffAdvanceRecoveryPlan_def Let_def
  by (auto intro!: seq reverse_future refresh_plan save_plan split: option.split)

lemma ensure_all: "I st \<Longrightarrow> I (snd (ensure_all en ws month year tms st))"
proof (induction tms arbitrary: st)
  case (Cons tm tms)
  show ?case unfolding ensure_all.simps by (intro seq ensured Cons) (simp_all add: Cons)
qed simp

lemma generate: "I st \<Longrightarrow> I (snd (generatePayroll en ws month year st))"
  unfolding generatePayroll_def by (rule ensure_all)

end

end
