(* ===== verification/SalaryBooks.thy ===== *)
theory SalaryBooks
  imports PlanInvariants
begin

text \<open>
  What every operation of the salary module keeps.  All writes go through a few primitive updates
  of the store; the locale \<open>store_invariant\<close> asks a predicate to survive those and concludes that
  it survives every operation, whether it returns or throws.  It is interpreted twice: on the
  well-formedness of the documents, and on the history of the documents (nothing is deleted,
  nothing reversed comes back, nothing changes its owner).
\<close>

section \<open>Primitive updates\<close>

definition salary_id :: "salary_doc \<Rightarrow> string \<times> string \<times> int \<times> int" where
  "salary_id d = (sl_workspaceId d, sl_teamMemberId d, sl_month d, sl_year d)"

definition same_salary :: "salary_doc \<Rightarrow> salary_doc \<Rightarrow> bool" where
  \<comment> \<open>the same record, whose lock flag still says whether someone locked it\<close>
  "same_salary d e \<longleftrightarrow> salary_id e = salary_id d \<and> ((sl_isLocked d \<longleftrightarrow> sl_lockedBy d \<noteq> None) \<longrightarrow> (sl_isLocked e \<longleftrightarrow> sl_lockedBy e \<noteq> None))"

lemma same_salary_refl [simp]: "same_salary d d"
  by (simp add: same_salary_def)

definition fresh_row :: "pay_store \<Rightarrow> adjustment_doc \<Rightarrow> bool" where
  \<comment> \<open>an active row that belongs to a stored record\<close>
  "fresh_row st a \<longleftrightarrow> aj_salaryId a < length (ps_salaries st)
     \<and> salary_id (ps_salaries st ! aj_salaryId a) = (aj_workspaceId a, aj_teamMemberId a, aj_month a, aj_year a)
     \<and> 0 \<le> aj_amount a \<and> aj_active a \<and> aj_linkedPaymentId a = None"

definition same_row :: "adjustment_doc \<Rightarrow> adjustment_doc \<Rightarrow> bool" where
  \<comment> \<open>the second is a later state of the first\<close>
  "same_row a b \<longleftrightarrow> aj_salaryId b = aj_salaryId a \<and> aj_workspaceId b = aj_workspaceId a \<and> aj_month b = aj_month a
     \<and> aj_year b = aj_year a \<and> aj_category b = aj_category a \<and> aj_source b = aj_source a \<and> aj_createdBy b = aj_createdBy a
     \<and> (aj_active b \<longrightarrow> aj_active a) \<and> (0 \<le> aj_amount a \<longrightarrow> 0 \<le> aj_amount b)
     \<and> (aj_source a \<noteq> System \<longrightarrow> aj_amount b = aj_amount a \<and> aj_type b = aj_type a \<and> aj_teamMemberId b = aj_teamMemberId a)"

definition owned_row :: "pay_store \<Rightarrow> adjustment_doc \<Rightarrow> adjustment_doc \<Rightarrow> bool" where
  \<comment> \<open>member and payment link of the later state: kept, or taken from the record and a payment of it\<close>
  "owned_row st a b \<longleftrightarrow>
     (aj_teamMemberId b = aj_teamMemberId a
       \<or> aj_salaryId a < length (ps_salaries st) \<and> aj_teamMemberId b = sl_teamMemberId (ps_salaries st ! aj_salaryId a))
     \<and> (aj_linkedPaymentId b = aj_linkedPaymentId a
       \<or> (\<exists>p < length (ps_payments st). aj_linkedPaymentId b = Some p \<and> py_salaryId (ps_payments st ! p) = aj_salaryId a))"

definition same_payment :: "payment_doc \<Rightarrow> payment_doc \<Rightarrow> bool" where
  "same_payment p q \<longleftrightarrow> py_salaryId q = py_salaryId p \<and> py_workspaceId q = py_workspaceId p \<and> py_teamMemberId q = py_teamMemberId p
     \<and> py_amount q = py_amount p \<and> py_commission q = py_commission p \<and> py_createdAt q = py_createdAt p
     \<and> py_isAdvance q = py_isAdvance p \<and> py_advanceRequestId q = py_advanceRequestId p \<and> (py_active q \<longrightarrow> py_active p)"

definition fresh_payment :: "pay_store \<Rightarrow> payment_doc \<Rightarrow> bool" where
  "fresh_payment st p \<longleftrightarrow> py_salaryId p < length (ps_salaries st)
     \<and> py_workspaceId p = sl_workspaceId (ps_salaries st ! py_salaryId p)
     \<and> py_teamMemberId p = sl_teamMemberId (ps_salaries st ! py_salaryId p) \<and> py_active p"

definition handled :: "advance_request \<Rightarrow> bool" where
  \<comment> \<open>marked as recovered: \<open>applyAdvanceAutoDeductions\<close> passes it over\<close>
  "handled a \<longleftrightarrow> av_recoveryAdjustmentId a \<noteq> None \<or> av_recoveryPlanId a \<noteq> None \<or> av_sameMonthRecovery a"

definition request_ok :: "advance_request \<Rightarrow> bool" where
  "request_ok a \<longleftrightarrow> (av_status a \<in> {''approved'', ''paid''} \<longrightarrow> av_approvedAmount a \<noteq> None) \<and> (av_status a = ''paid'' \<longrightarrow> av_paymentId a \<noteq> None)"

definition request_moves :: "string \<Rightarrow> string \<Rightarrow> bool" where
  "request_moves s t \<longleftrightarrow> s = t \<or> s = ''pending'' \<and> t \<in> {''approved'', ''rejected'', ''paid''} \<or> s = ''approved'' \<and> t = ''paid''"

definition same_request :: "advance_request \<Rightarrow> advance_request \<Rightarrow> bool" where
  \<comment> \<open>the second is a later state of the first\<close>
  "same_request a b \<longleftrightarrow> request_slot b = request_slot a \<and> av_requestedAmount b = av_requestedAmount a \<and> av_requestedBy b = av_requestedBy a
     \<and> request_moves (av_status a) (av_status b)
     \<and> (av_status a = ''pending'' \<or> av_approvedAmount b = av_approvedAmount a)
     \<and> (av_status a = ''paid'' \<longrightarrow> av_paymentId b = av_paymentId a)
     \<and> (handled a \<longrightarrow> handled b) \<and> (request_ok a \<longrightarrow> request_ok b)"

definition fresh_request :: "pay_store \<Rightarrow> advance_request \<Rightarrow> bool" where
  "fresh_request st a \<longleftrightarrow> av_status a = ''pending'' \<and> (\<forall>b\<in>set (ps_advances st). in_play b \<longrightarrow> request_slot b \<noteq> request_slot a)"

lemma same_request_refl [simp]: "same_request a a"
  by (simp add: same_request_def request_moves_def)

lemma request_moves_trans: "request_moves s t \<Longrightarrow> request_moves t u \<Longrightarrow> request_moves s u"
  unfolding request_moves_def by (elim disjE conjE) simp_all

lemma request_moves_paid: "request_moves s t \<Longrightarrow> s = ''paid'' \<Longrightarrow> t = ''paid''"
  unfolding request_moves_def by (elim disjE conjE) simp_all

lemma request_moves_pending: "request_moves s t \<Longrightarrow> t = ''pending'' \<Longrightarrow> s = ''pending''"
  unfolding request_moves_def by (elim disjE conjE) simp_all

lemma same_request_trans:
  assumes "same_request a b" "same_request b c"
  shows "same_request a c"
  unfolding same_request_def
proof (intro conjI)
  show "request_moves (av_status a) (av_status c)" using assms by (auto simp: same_request_def intro: request_moves_trans)
  show "av_status a = ''pending'' \<or> av_approvedAmount c = av_approvedAmount a"
    using assms request_moves_pending[of "av_status a" "av_status b"] unfolding same_request_def by metis
  show "av_status a = ''paid'' \<longrightarrow> av_paymentId c = av_paymentId a"
    using assms request_moves_paid[of "av_status a" "av_status b"] unfolding same_request_def by metis
qed (use assms in \<open>simp_all add: same_request_def\<close>)

definition later :: "('a \<Rightarrow> 'a \<Rightarrow> bool) \<Rightarrow> 'a list \<Rightarrow> 'a list \<Rightarrow> bool" where
  \<comment> \<open>the same documents at the same places, in a later state\<close>
  "later R xs ys \<longleftrightarrow> list_all2 R xs ys"

lemma later_update:
  assumes "\<And>x. R x x" "i < length xs \<Longrightarrow> R (xs ! i) y"
  shows "later R xs (xs[i := y])"
  unfolding later_def list_all2_conv_all_nth
proof (intro conjI allI impI)
  fix j assume "j < length xs"
  then show "R (xs ! j) (xs[i := y] ! j)" using assms by (cases "j = i") simp_all
qed simp

lemma later_map: "(\<And>x. x \<in> set xs \<Longrightarrow> R x (f x)) \<Longrightarrow> later R xs (map f xs)"
  by (auto simp: later_def list_all2_conv_all_nth)

lemma snd_and_then [simp]: "snd (and_then r (\<lambda>x st. (Inr (g x), st))) = snd r"
  by (cases r) (auto simp: and_then_def split: sum.split)

section \<open>Which records there are\<close>

definition ids :: "pay_store \<Rightarrow> (string \<times> string \<times> int \<times> int) list" where
  "ids st = map salary_id (ps_salaries st)"

definition owned :: "pay_store \<Rightarrow> string \<Rightarrow> nat \<Rightarrow> bool" where
  "owned st ws i \<longleftrightarrow> i < length (ids st) \<and> fst (ids st ! i) = ws"

lemma length_ids: "length (ids st) = length (ps_salaries st)"
  by (simp add: ids_def)

lemma owned_iff: "owned st ws i \<longleftrightarrow> i < length (ps_salaries st) \<and> sl_workspaceId (ps_salaries st ! i) = ws"
  by (auto simp: owned_def ids_def salary_id_def length_ids)

lemma owned_cong: "ids st' = ids st \<Longrightarrow> owned st' ws i = owned st ws i"
  by (simp add: owned_def)

lemma ids_update_salary: "(\<And>d. salary_id (f d) = salary_id d) \<Longrightarrow> ids (update_salary i f st) = ids st"
  by (cases "i < length (ps_salaries st)")
    (simp_all add: ids_def update_salary_def map_update list_update_same_conv list_update_beyond)

lemma ids_sync [simp]: "ids (syncSalaryStatus i st) = ids st"
  unfolding syncSalaryStatus_def by (rule ids_update_salary) (simp add: salary_id_def)

lemma guarded_cases: "guarded cs r st = r \<or> (\<exists>e. guarded cs r st = (Inl e, st))"
  by (auto simp: guarded_def split: option.split)

lemma ids_recalc [simp]: "ids (snd (recalculateSalaryFromAdjustments en i u skip st)) = ids st"
  unfolding recalculateSalaryFromAdjustments_def
  by (auto simp: ids_update_salary salary_id_def)

lemma recalc_frame [simp]:
  "ps_adjustments (snd (recalculateSalaryFromAdjustments en i u skip st)) = ps_adjustments st"
  "ps_payments (snd (recalculateSalaryFromAdjustments en i u skip st)) = ps_payments st"
  "ps_members (snd (recalculateSalaryFromAdjustments en i u skip st)) = ps_members st"
  by (simp_all add: recalculateSalaryFromAdjustments_def syncSalaryStatus_def update_salary_def)

lemma put_system_frame [simp]:
  "ps_salaries (put_system ws i cat u due st) = ps_salaries st" "ps_payments (put_system ws i cat u due st) = ps_payments st"
  by (auto simp: put_system_def upsert_system_def reverse_system_def add_adjustment_def Let_def split: sum.split option.split)

lemma recover_frame [simp]:
  "ps_salaries (recover_advance ws i j st) = ps_salaries st" "ps_payments (recover_advance ws i j st) = ps_payments st"
  by (auto simp: recover_advance_def Let_def)

lemma fold_frame: "(\<And>x st. g (f x st) = g st) \<Longrightarrow> g (fold f xs st) = g st"
  by (induction xs arbitrary: st) simp_all

lemma auto_deductions_frame [simp]:
  "ps_salaries (applyAdvanceAutoDeductions ws i st) = ps_salaries st" "ps_payments (applyAdvanceAutoDeductions ws i st) = ps_payments st"
  unfolding applyAdvanceAutoDeductions_def by (rule fold_frame, simp)+

lemma tds_frame [simp]:
  "ps_salaries (tds_step en ws i m u st) = ps_salaries st" "ps_payments (tds_step en ws i m u st) = ps_payments st"
  by (simp_all add: tds_step_def Let_def split: prod.split)

lemma reverse_system_frame [simp]:
  "ps_salaries (reverse_system ws i cat reason st) = ps_salaries st" "ps_payments (reverse_system ws i cat reason st) = ps_payments st"
  by (simp_all add: reverse_system_def)

lemma statutory_rows_frame [simp]:
  "ps_salaries (statutory_rows en c ws i m u st) = ps_salaries st" "ps_payments (statutory_rows en c ws i m u st) = ps_payments st"
  by (simp_all add: statutory_rows_def Let_def)

lemma ids_eqI: "ps_salaries st' = ps_salaries st \<Longrightarrow> ids st' = ids st"
  by (simp add: ids_def)

lemma ids_statutory [simp]: "ids (snd (applyStatutoryDeductions en ws i m st)) = ids st"
  by (auto simp: applyStatutoryDeductions_def Let_def intro!: ids_eqI split: option.split)

lemma payments_statutory [simp]: "ps_payments (snd (applyStatutoryDeductions en ws i m st)) = ps_payments st"
  by (auto simp: applyStatutoryDeductions_def Let_def split: option.split)

lemma settle_frame [simp]:
  "ids (snd (settle_record en ws tm i u st)) = ids st" "ps_payments (snd (settle_record en ws tm i u st)) = ps_payments st"
proof -
  let ?a = "applyAdvanceAutoDeductions ws i st"
  obtain r st2 where r: "recalculateSalaryFromAdjustments en i u False ?a = (r, st2)" by force
  have 2: "ids st2 = ids st" "ps_payments st2 = ps_payments st"
    using ids_recalc[of en i u False ?a] recalc_frame(2)[of en i u False ?a] r by (auto intro!: ids_eqI simp: ids_def)
  have "ids (snd (settle_record en ws tm i u st)) = ids st \<and> ps_payments (snd (settle_record en ws tm i u st)) = ps_payments st"
  proof (cases r)
    case (Inl e)
    then show ?thesis using r 2 by (simp add: settle_record_def)
  next
    case (Inr x)
    show ?thesis
    proof (cases "find_member st2 tm")
      case None
      then show ?thesis using r 2 Inr by (simp add: settle_record_def)
    next
      case (Some m)
      obtain r3 st3 where s: "applyStatutoryDeductions en ws i m st2 = (r3, st3)" by force
      then have "ids st3 = ids st" "ps_payments st3 = ps_payments st"
        using ids_statutory[of en ws i m st2] payments_statutory[of en ws i m st2] 2 by simp_all
      then show ?thesis using r 2 Inr Some s by (cases r3) (simp_all add: settle_record_def)
    qed
  qed
  then show "ids (snd (settle_record en ws tm i u st)) = ids st" "ps_payments (snd (settle_record en ws tm i u st)) = ps_payments st"
    by simp_all
qed

lemma ids_increment [simp]: "ids (applyPendingIncrement ws tm month year st) = ids st"
  "ps_payments (applyPendingIncrement ws tm month year st) = ps_payments st"
  by (auto simp: applyPendingIncrement_def ids_def split: option.split)

lemma build_frame:
  assumes "buildSalaryRecordData en ws tm month year x y st = (r, st')"
  shows "st' = applyPendingIncrement ws tm month year st"
  using assms by (auto simp: buildSalaryRecordData_def Let_def split: option.splits if_splits sum.splits prod.splits)

lemma find_index_SomeI: "find_index P xs = Some i \<Longrightarrow> i < length xs \<and> P (xs ! i)"
  by (rule find_index_SomeD)

lemma find_salary_Some: "find_salary st ws tm month year = Some i \<Longrightarrow> i < length (ids st) \<and> ids st ! i = (ws, tm, month, year)"
  using find_index_SomeD by (fastforce simp: find_salary_def ids_def salary_id_def)

lemma find_salary_None: "find_salary st ws tm month year = None \<longleftrightarrow> (ws, tm, month, year) \<notin> set (ids st)"
  by (auto simp: find_salary_def find_index_None_iff ids_def salary_id_def image_iff)

lemma refresh_frame [simp]:
  "ids (snd (refresh_piece en ws tm i st)) = ids st" "ps_payments (snd (refresh_piece en ws tm i st)) = ps_payments st"
  by (auto simp: refresh_piece_def Let_def ids_update_salary salary_id_def split: option.split sum.split)
     (auto simp: update_salary_def)

lemma ensure_frame:
  assumes "ensureSalaryRecord en ws tm month year u st = (r, st')"
  shows "(\<exists>xs. ids st' = ids st @ xs) \<and> ps_payments st' = ps_payments st
    \<and> (\<forall>i. r = Inr i \<longrightarrow> i < length (ids st') \<and> ids st' ! i = (ws, tm, month, year))"
proof (cases "find_salary st ws tm month year")
  case (Some i)
  note i = find_salary_Some[OF Some]
  show ?thesis
  proof (cases "is_locked st i")
    case True
    then show ?thesis using assms Some i by (auto simp: ensureSalaryRecord_def)
  next
    case False
    obtain q st1 where q: "refresh_piece en ws tm i st = (q, st1)" by force
    have 1: "ids st1 = ids st" "ps_payments st1 = ps_payments st" using refresh_frame[of en ws tm i st] q by simp_all
    show ?thesis
    proof (cases q)
      case (Inl e)
      then show ?thesis using assms Some False q 1 by (auto simp: ensureSalaryRecord_def)
    next
      case (Inr y)
      then have s: "settle_record en ws tm i u st1 = (r, st')" using assms Some False q by (simp add: ensureSalaryRecord_def)
      have "r = Inr j \<Longrightarrow> j = i" for j
        using s by (auto simp: settle_record_def and_then_def split: prod.splits sum.splits option.splits)
      then show ?thesis using settle_frame[of en ws tm i u st1] s 1 i by auto
    qed
  qed
next
  case None
  obtain q st1 where q: "buildSalaryRecordData en ws tm month year 0 0 st = (q, st1)" by force
  have 1: "ids st1 = ids st" "ps_payments st1 = ps_payments st" using build_frame[OF q] by simp_all
  show ?thesis
  proof (cases q)
    case (Inl e)
    then show ?thesis using assms None q 1 by (auto simp: ensureSalaryRecord_def)
  next
    case (Inr d)
    define i where "i = length (ps_salaries st1)"
    define S where "S = st1\<lparr>ps_salaries := ps_salaries st1 @ [new_salary ws tm month year d u]\<rparr>"
    have s: "settle_record en ws tm i u S = (r, st')"
      using assms None q Inr by (simp add: ensureSalaryRecord_def Let_def i_def S_def)
    have j: "r = Inr j \<Longrightarrow> j = i" for j
      using s by (auto simp: settle_record_def and_then_def split: prod.splits sum.splits option.splits)
    have "i = length (ids st1)" by (simp add: i_def length_ids)
    then have n: "i = length (ids st)" "ids S = ids st @ [(ws, tm, month, year)]" "ps_payments S = ps_payments st"
      using 1 by (simp_all add: S_def) (simp add: ids_def salary_id_def new_salary_def)
    have f: "ids st' = ids S" "ps_payments st' = ps_payments S" using settle_frame[of en ws tm i u S] s by simp_all
    then show ?thesis using n by (auto dest!: j)
  qed
qed

section \<open>Records are only added\<close>

definition grows :: "pay_store \<Rightarrow> pay_store \<Rightarrow> bool" where
  "grows st st' \<longleftrightarrow> (\<exists>xs. ids st' = ids st @ xs) \<and> ps_payments st' = ps_payments st"

lemma grows_refl [simp]: "grows st st" by (simp add: grows_def)

lemma grows_trans [trans]: "grows a b \<Longrightarrow> grows b c \<Longrightarrow> grows a c" by (auto simp: grows_def)

lemma grows_same: "ids st' = ids st \<Longrightarrow> ps_payments st' = ps_payments st \<Longrightarrow> grows st st'" by (simp add: grows_def)

lemma grows_owned: "grows st st' \<Longrightarrow> owned st ws i \<Longrightarrow> owned st' ws i"
  by (auto simp: grows_def owned_def nth_append)

lemma grows_and_then:
  "grows st (snd r) \<Longrightarrow> (\<And>x st1. r = (Inr x, st1) \<Longrightarrow> grows st1 (snd (f x st1))) \<Longrightarrow> grows st (snd (and_then r f))"
  by (cases r) (auto simp: and_then_def split: sum.split intro: grows_trans)

lemma grows_ensure: "grows st (snd (ensureSalaryRecord en ws tm month year u st))"
  using ensure_frame[of en ws tm month year u st] by (cases "ensureSalaryRecord en ws tm month year u st") (simp add: grows_def)

lemma ensure_id:
  "ensureSalaryRecord en ws tm month year u st = (Inr i, st') \<Longrightarrow> i < length (ps_salaries st') \<and> salary_id (ps_salaries st' ! i) = (ws, tm, month, year)"
  using ensure_frame[of en ws tm month year u st "Inr i" st'] by (auto simp: length_ids) (metis ids_def nth_map)

lemma grows_recalc: "grows st (snd (recalculateSalaryFromAdjustments en i u skip st))"
  by (rule grows_same) simp_all

lemma grows_add_row: "grows st (add_adjustment a st)"
  by (rule grows_same) (simp_all add: add_adjustment_def ids_def)

lemma grows_deduction: "grows st (snd (createAdvanceRecoveryDeduction en ws tm month year amount p u plan st))"
  unfolding createAdvanceRecoveryDeduction_def Let_def
  by (auto intro!: grows_and_then grows_ensure grows_trans[OF grows_add_row grows_recalc])

lemma ids_reverse_doc [simp]: "ids (snd (reverseAdjustmentDoc en u r k st)) = ids st"
  "ps_payments (snd (reverseAdjustmentDoc en u r k st)) = ps_payments st"
  by (simp_all add: reverseAdjustmentDoc_def Let_def update_adjustment_def) (simp_all add: ids_def)

lemma grows_reverse_doc: "grows st (snd (reverseAdjustmentDoc en u r k st))"
  by (rule grows_same) simp_all

interpretation growth: plan_invariant "grows st0" en for st0 en
proof (unfold_locales, goal_cases)
  case (4 st d)
  then show ?case by (simp add: grows_def ids_def)
qed (blast intro: grows_trans grows_ensure grows_deduction grows_reverse_doc)+

lemma grows_plan: "grows st (snd (createAdvanceRecoveryPlan en q st))"
  by (rule growth.create_plan) simp

lemma linked_addition_frame:
  assumes "createPaymentLinkedAddition ws i u amount cat st = (l, st')"
  shows "ps_salaries st' = ps_salaries st \<and> ps_payments st' = ps_payments st
    \<and> length (ps_adjustments st) \<le> length (ps_adjustments st')
    \<and> (\<forall>k<length (ps_adjustments st). ps_adjustments st' ! k = ps_adjustments st ! k)
    \<and> (\<forall>k\<in>set l. length (ps_adjustments st) \<le> k \<and> k < length (ps_adjustments st') \<and> aj_salaryId (ps_adjustments st' ! k) = i)"
  using assms by (auto simp: createPaymentLinkedAddition_def add_adjustment_def new_adjustment_def nth_append split: if_splits)

lemma linked_additions_frame:
  assumes "linked_additions en ws i u dto st = (r, st')"
  shows "ids st' = ids st \<and> ps_payments st' = ps_payments st
    \<and> (\<forall>parts. r = Inr parts \<longrightarrow> (\<forall>k\<in>set (pp_linked parts). k < length (ps_adjustments st') \<and> aj_salaryId (ps_adjustments st' ! k) = i))"
proof -
  define c where "c = max 0 (coalesce (pi_commission dto) 0)"
  define x where "x = max 0 (jsub (pi_amount dto) (max 0 (jsub (sd_netSalary (sl_data (ps_salaries st ! i))) (sumPaidAmountForSalary st i))))"
  obtain l1 st1 where r1: "(if c > 0 then createPaymentLinkedAddition ws i u c ''commission'' st else ([], st)) = (l1, st1)" by force
  obtain l2 st2 where r2: "createPaymentLinkedAddition ws i u x ''other'' st1 = (l2, st2)" by force
  have f1: "ps_salaries st1 = ps_salaries st" "ps_payments st1 = ps_payments st"
    "\<forall>k\<in>set l1. k < length (ps_adjustments st1) \<and> aj_salaryId (ps_adjustments st1 ! k) = i"
    using linked_addition_frame[of ws i u c "''commission''" st l1 st1] r1 by (auto split: if_splits)
  note f2 = linked_addition_frame[OF r2]
  have f12: "\<forall>k\<in>set (l1 @ l2). k < length (ps_adjustments st2) \<and> aj_salaryId (ps_adjustments st2 ! k) = i"
    using f1(3) f2 by fastforce
  have e: "ids st1 = ids st" "ids st2 = ids st" using f1(1) f2 by (simp_all add: ids_def)
  obtain m y where my: "following_month (sl_month (ps_salaries st ! i)) (sl_year (ps_salaries st ! i)) = (m, y)" by force
  have frame: "ids s' = ids s \<and> ps_payments s' = ps_payments s \<and> ps_adjustments s' = ps_adjustments s"
    if "recalculateSalaryFromAdjustments en i (Some u) False s = (q, s')" for q s s'
    using that ids_recalc[of en i "Some u" False s] recalc_frame[of en i "Some u" False s] by simp
  show ?thesis using assms f1 f2 e f12
    unfolding linked_additions_def Let_def c_def[symmetric] x_def[symmetric] r1 prod.case r2 my
    by (auto simp: and_then_def dest!: frame split: if_splits prod.splits sum.splits)
qed

lemma target_owned:
  assumes "target_salary en ws u dto st = (Inr i, st')"
  shows "owned st' ws i \<and> \<not> is_locked st' i"
proof -
  have "owned st ws j" if "salary_of st ws j \<noteq> None" for j
    using that by (auto simp: salary_of_def salary_at_def nth_doc_def owned_iff split: if_splits)
  moreover have "owned s ws j" if "ensureSalaryRecord en ws tm month year (Some u) st = (Inr j, s)" for tm month year j s
    using ensure_id[OF that] by (auto simp: owned_iff salary_id_def)
  ultimately show ?thesis using assms
    by (auto simp: target_salary_def and_then_def split: option.splits if_splits prod.splits sum.splits)
qed

locale store_invariant =
  fixes I :: "pay_store \<Rightarrow> bool"
  assumes side: "\<And>st a b d e. I st \<Longrightarrow> I (st\<lparr>ps_members := a, ps_increments := b, ps_plans := d, ps_declarations := e\<rparr>)"
    and advances: "\<And>st rs. I st \<Longrightarrow> later same_request (ps_advances st) rs \<Longrightarrow> I (st\<lparr>ps_advances := rs\<rparr>)"
    and new_advance: "\<And>st a. I st \<Longrightarrow> fresh_request st a \<Longrightarrow> I (st\<lparr>ps_advances := ps_advances st @ [a]\<rparr>)"
    and salaries: "\<And>st ds. I st \<Longrightarrow> later same_salary (ps_salaries st) ds \<Longrightarrow> I (st\<lparr>ps_salaries := ds\<rparr>)"
    and new_salary: "\<And>st d. I st \<Longrightarrow> salary_id d \<notin> salary_id ` set (ps_salaries st) \<Longrightarrow> \<not> sl_isLocked d \<Longrightarrow> sl_lockedBy d = None
        \<Longrightarrow> I (st\<lparr>ps_salaries := ps_salaries st @ [d]\<rparr>)"
    and rows: "\<And>st rs. I st \<Longrightarrow> later (\<lambda>a b. same_row a b \<and> owned_row st a b) (ps_adjustments st) rs \<Longrightarrow> I (st\<lparr>ps_adjustments := rs\<rparr>)"
    and new_row: "\<And>st a. I st \<Longrightarrow> fresh_row st a \<Longrightarrow> I (st\<lparr>ps_adjustments := ps_adjustments st @ [a]\<rparr>)"
    and payments: "\<And>st ps. I st \<Longrightarrow> later same_payment (ps_payments st) ps \<Longrightarrow> I (st\<lparr>ps_payments := ps\<rparr>)"
    and new_payment: "\<And>st p. I st \<Longrightarrow> fresh_payment st p \<Longrightarrow> I (st\<lparr>ps_payments := ps_payments st @ [p]\<rparr>)"
begin

lemma one_side:
  assumes "I st"
  shows "I (st\<lparr>ps_members := a, ps_increments := b\<rparr>)" "I (st\<lparr>ps_plans := d\<rparr>)" "I (st\<lparr>ps_declarations := e\<rparr>)"
proof -
  note s = side[OF assms]
  show "I (st\<lparr>ps_members := a, ps_increments := b\<rparr>)"
    using s[where a = a and b = b and d = "ps_plans st" and e = "ps_declarations st"] by simp
  show "I (st\<lparr>ps_plans := d\<rparr>)"
    using s[where a = "ps_members st" and b = "ps_increments st" and d = d and e = "ps_declarations st"] by simp
  show "I (st\<lparr>ps_declarations := e\<rparr>)"
    using s[where a = "ps_members st" and b = "ps_increments st" and d = "ps_plans st" and e = e] by simp
qed

lemma update_advance_inv:
  assumes "I st" "k < length (ps_advances st) \<Longrightarrow> same_request (ps_advances st ! k) a"
  shows "I (st\<lparr>ps_advances := (ps_advances st)[k := a]\<rparr>)"
  by (rule advances[OF assms(1)]) (auto intro: later_update assms(2))

lemma update_salary_inv:
  assumes "I st" "\<And>d. same_salary d (f d)"
  shows "I (update_salary i f st)"
  unfolding update_salary_def
  by (rule salaries[OF assms(1)]) (auto intro: later_update simp: assms(2))

lemma and_then_inv:
  "I (snd r) \<Longrightarrow> (\<And>x st. r = (Inr x, st) \<Longrightarrow> I (snd (f x st))) \<Longrightarrow> I (snd (and_then r f))"
  by (cases r) (auto simp: and_then_def split: sum.split)

lemma and_then_same: "I (snd r) \<Longrightarrow> (\<And>x st. snd (f x st) = st) \<Longrightarrow> I (snd (and_then r f))"
  by (cases r) (auto simp: and_then_def split: sum.split)

lemma guarded_inv: "I st \<Longrightarrow> (list_all fst cs \<Longrightarrow> I (snd r)) \<Longrightarrow> I (snd (guarded cs r st))"
  by (induction cs) (auto simp: guarded_def)

lemma sync_inv: "I st \<Longrightarrow> I (syncSalaryStatus i st)"
  unfolding syncSalaryStatus_def by (rule update_salary_inv) (simp_all add: same_salary_def salary_id_def)

lemma recalc_inv: "I st \<Longrightarrow> I (snd (recalculateSalaryFromAdjustments en i u skip st))"
  unfolding recalculateSalaryFromAdjustments_def
  by (rule guarded_inv) (auto intro!: sync_inv update_salary_inv simp: same_salary_def salary_id_def)

lemma put_system_inv:
  assumes "I st" "owned st ws i" "\<And>amount. due = Inl amount \<Longrightarrow> 0 < amount"
  shows "I (put_system ws i cat u due st)"
proof (cases due)
  case (Inr reason)
  show ?thesis unfolding put_system_def Inr sum.case reverse_system_def
    by (rule rows[OF assms(1)], rule later_map) (auto simp: same_row_def owned_row_def)
next
  case (Inl amount)
  then have amount: "0 < amount" by (rule assms(3))
  have i: "i < length (ps_salaries st)" "sl_workspaceId (ps_salaries st ! i) = ws" using assms(2) by (simp_all add: owned_iff)
  let ?P = "\<lambda>a. is_system_row ws i cat a \<and> aj_month a = sl_month (ps_salaries st ! i) \<and> aj_year a = sl_year (ps_salaries st ! i)"
  show ?thesis
  proof (cases "find_index ?P (ps_adjustments st)")
    case None
    then show ?thesis using i amount
      by (simp add: put_system_def Inl upsert_system_def Let_def add_adjustment_def)
        (rule new_row[OF assms(1)], simp add: fresh_row_def new_adjustment_def salary_id_def)
  next
    case (Some k)
    note k = find_index_SomeD[OF Some]
    have "later (\<lambda>a b. same_row a b \<and> owned_row st a b) (ps_adjustments st)
        ((ps_adjustments st)[k := (ps_adjustments st ! k)\<lparr>aj_teamMemberId := sl_teamMemberId (ps_salaries st ! i),
            aj_type := Deduction, aj_amount := amount\<rparr>])"
      by (rule later_update) (use k i amount in \<open>auto simp: same_row_def owned_row_def is_system_row_def\<close>)
    from rows[OF assms(1) this] show ?thesis using Some by (simp add: put_system_def Inl upsert_system_def Let_def)
  qed
qed

lemma statutory_rows_inv:
  assumes "I st" "owned st ws i"
  shows "I (statutory_rows en c ws i m u st)"
proof -
  have o: "owned (put_system ws i cat u due s) ws i = owned s ws i" for cat due s by (rule owned_cong) (simp add: ids_def)
  show ?thesis unfolding statutory_rows_def Let_def
    by (intro put_system_inv assms; (simp add: o assms; fail)?)
      (auto simp: pf_due_def esi_due_def pt_due_def lwf_due_def Let_def split: if_splits option.splits)
qed

lemma tds_inv:
  assumes "I st" "owned st ws i"
  shows "I (tds_step en ws i m u st)"
proof -
  have o: "owned (s\<lparr>ps_declarations := ds\<rparr>) ws i = owned s ws i" for s ds by (rule owned_cong) (simp add: ids_def)
  show ?thesis unfolding tds_step_def Let_def
    by (cases "getOrCreateDeclaration (ps_declarations st)
          (ws, pm_id m, getFinancialYear (sl_month (ps_salaries st ! i)) (sl_year (ps_salaries st ! i)) (en_fiscalYearStartMonth en))
          (member_regime m) u")
      (simp only: prod.case, intro one_side put_system_inv assms; simp add: o assms split: if_splits)
qed

lemma reverse_system_inv: "I st \<Longrightarrow> I (reverse_system ws i cat reason st)"
  unfolding reverse_system_def
  by (rule rows, assumption, rule later_map) (auto simp: same_row_def owned_row_def)

lemma apply_statutory_inv:
  assumes "I st" "owned st ws i"
  shows "I (snd (applyStatutoryDeductions en ws i m st))"
proof (cases "en_statutory en")
  case None
  then show ?thesis using assms by (simp add: applyStatutoryDeductions_def)
next
  case (Some c)
  have "owned (statutory_rows en c ws i m u st) ws i" for u
    using assms(2) owned_cong[of "statutory_rows en c ws i m u st" st] by (simp add: ids_def)
  then show ?thesis using assms Some
    by (simp add: applyStatutoryDeductions_def Let_def recalc_inv tds_inv reverse_system_inv statutory_rows_inv)
qed

lemma recover_inv:
  assumes "I st" "owned st ws i"
  shows "I (recover_advance ws i j st)"
proof -
  define a where "a = ps_advances st ! j"
  define amount where "amount = roundCurrency (jdiv (coalesce (av_approvedAmount a) 0) 100)"
  define row where "row = new_adjustment (ps_salaries st ! i) i ws Deduction ''advance_recovery'' amount System (sl_teamMemberId (ps_salaries st ! i))"
  have "I (st\<lparr>ps_adjustments := ps_adjustments st @ [row]\<rparr>)" if "0 < amount"
    by (rule new_row[OF assms(1)]) (use assms(2) that in \<open>simp add: row_def fresh_row_def new_adjustment_def salary_id_def owned_iff\<close>)
  from update_advance_inv[OF this, of j "a\<lparr>av_recoveryAdjustmentId := Some (length (ps_adjustments st))\<rparr>"] show ?thesis using assms(1)
    by (simp add: recover_advance_def Let_def a_def[symmetric] amount_def[symmetric] row_def[symmetric])
      (simp add: a_def same_request_def request_slot_def request_moves_def handled_def request_ok_def)
qed

lemma auto_deductions_inv:
  assumes "I st" "owned st ws i"
  shows "I (applyAdvanceAutoDeductions ws i st)"
proof -
  have "I (fold (recover_advance ws i) js s) \<and> owned (fold (recover_advance ws i) js s) ws i" if "I s" "owned s ws i" for js s
    using that
  proof (induction js arbitrary: s)
    case (Cons j js)
    have "owned (recover_advance ws i j s) ws i" using Cons.prems(2) owned_cong[of "recover_advance ws i j s" s] by (simp add: ids_def)
    then show ?case using Cons.IH recover_inv[OF Cons.prems] by simp
  qed simp
  then show ?thesis unfolding applyAdvanceAutoDeductions_def using assms by blast
qed

lemma settle_inv:
  assumes "I st" "owned st ws i"
  shows "I (snd (settle_record en ws tm i u st))"
  unfolding settle_record_def
proof (rule and_then_inv)
  let ?a = "applyAdvanceAutoDeductions ws i st"
  show "I (snd (recalculateSalaryFromAdjustments en i u False ?a))" by (intro recalc_inv auto_deductions_inv assms)
  fix x st2 assume r: "recalculateSalaryFromAdjustments en i u False ?a = (Inr x, st2)"
  then have "I st2" using recalc_inv[OF auto_deductions_inv[OF assms], of en i u False] by simp
  moreover have "owned st2 ws i"
    using assms(2) owned_cong[of st2 st] ids_recalc[of en i u False ?a] r by (simp add: ids_def)
  ultimately show "I (snd (case find_member st2 tm of None \<Rightarrow> (Inl Member_not_found, st2)
      | Some m \<Rightarrow> and_then (applyStatutoryDeductions en ws i m st2) (\<lambda>_ st3. (Inr i, st3))))"
    by (cases "find_member st2 tm") (simp_all add: apply_statutory_inv)
qed

lemma increment_inv: "I st \<Longrightarrow> I (applyPendingIncrement ws tm month year st)"
  by (auto simp: applyPendingIncrement_def intro: one_side split: option.split)

lemma refresh_inv: "I st \<Longrightarrow> I (snd (refresh_piece en ws tm i st))"
  by (auto simp: refresh_piece_def Let_def same_salary_def salary_id_def intro!: update_salary_inv split: option.split sum.split)

lemma ensure_inv:
  assumes "I st"
  shows "I (snd (ensureSalaryRecord en ws tm month year u st))"
proof (cases "find_salary st ws tm month year")
  case (Some i)
  have o: "owned st ws i" using find_salary_Some[OF Some] by (simp add: owned_def)
  have "I (snd (and_then (refresh_piece en ws tm i st) (\<lambda>_ st1. settle_record en ws tm i u st1)))"
  proof (rule and_then_inv)
    show 1: "I (snd (refresh_piece en ws tm i st))" by (rule refresh_inv[OF assms])
    fix x st1 assume "refresh_piece en ws tm i st = (Inr x, st1)"
    then have "I st1" "owned st1 ws i" using 1 o owned_cong[of st1 st ws i] refresh_frame(1)[of en ws tm i st] by simp_all
    then show "I (snd (settle_record en ws tm i u st1))" by (rule settle_inv)
  qed
  then show ?thesis using Some assms by (simp add: ensureSalaryRecord_def)
next
  case None
  have new: "(ws, tm, month, year) \<notin> set (ids st)" by (rule find_salary_None[THEN iffD1, OF None])
  have "I (snd (and_then (buildSalaryRecordData en ws tm month year 0 0 st) (\<lambda>d st1.
      let i = length (ps_salaries st1)
      in settle_record en ws tm i u (st1\<lparr>ps_salaries := ps_salaries st1 @ [new_salary ws tm month year d u]\<rparr>))))"
  proof (rule and_then_inv)
    show "I (snd (buildSalaryRecordData en ws tm month year 0 0 st))"
      using build_frame[of en ws tm month year 0 0 st] increment_inv[OF assms]
      by (cases "buildSalaryRecordData en ws tm month year 0 0 st") simp
    fix d st1 assume "buildSalaryRecordData en ws tm month year 0 0 st = (Inr d, st1)"
    then have "st1 = applyPendingIncrement ws tm month year st" by (rule build_frame)
    then have 1: "I st1" "ids st1 = ids st" using increment_inv[OF assms] by simp_all
    let ?s = "st1\<lparr>ps_salaries := ps_salaries st1 @ [new_salary ws tm month year d u]\<rparr>"
    have "salary_id (new_salary ws tm month year d u) \<notin> salary_id ` set (ps_salaries st1)"
    proof -
      have "salary_id (new_salary ws tm month year d u) = (ws, tm, month, year)" by (simp add: new_salary_def salary_id_def)
      moreover have "salary_id ` set (ps_salaries st1) = set (ids st)" by (metis 1(2) ids_def set_map)
      ultimately show ?thesis using new by simp
    qed
    then have "I ?s" by (rule new_salary[OF 1(1)]) (simp_all add: new_salary_def)
    moreover have "owned ?s ws (length (ps_salaries st1))" by (simp add: owned_iff new_salary_def)
    ultimately show "I (snd (let i = length (ps_salaries st1) in settle_record en ws tm i u ?s))"
      by (simp add: Let_def settle_inv)
  qed
  then show ?thesis using None by (simp add: ensureSalaryRecord_def)
qed

lemma deduction_inv:
  assumes "I st"
  shows "I (snd (createAdvanceRecoveryDeduction en ws tm month year amount p u plan st))"
proof (cases "amount \<le> 0")
  case True
  then show ?thesis using assms by (simp add: createAdvanceRecoveryDeduction_def)
next
  case False
  have "I (snd (and_then (ensureSalaryRecord en ws tm month year (Some u) st) (\<lambda>i st1.
      recalculateSalaryFromAdjustments en i (Some u) True (add_adjustment
        (new_adjustment (ps_salaries st1 ! i) i ws Deduction ''advance_recovery'' amount System u
          \<lparr>aj_teamMemberId := tm, aj_month := month, aj_year := year, aj_advanceSourcePaymentId := Some p,
            aj_advanceRecoveryPlanId := map_option fst plan, aj_planInstallmentIndex := map_option snd plan\<rparr>) st1))))"
  proof (rule and_then_inv)
    show 1: "I (snd (ensureSalaryRecord en ws tm month year (Some u) st))" by (rule ensure_inv[OF assms])
    fix i st1 assume e: "ensureSalaryRecord en ws tm month year (Some u) st = (Inr i, st1)"
    note i = ensure_id[OF e]
    have "I st1" using 1 e by simp
    then show "I (snd (recalculateSalaryFromAdjustments en i (Some u) True (add_adjustment
        (new_adjustment (ps_salaries st1 ! i) i ws Deduction ''advance_recovery'' amount System u
          \<lparr>aj_teamMemberId := tm, aj_month := month, aj_year := year, aj_advanceSourcePaymentId := Some p,
            aj_advanceRecoveryPlanId := map_option fst plan, aj_planInstallmentIndex := map_option snd plan\<rparr>) st1)))"
      unfolding add_adjustment_def by (intro recalc_inv new_row) (use i False in \<open>simp_all add: fresh_row_def new_adjustment_def\<close>)
  qed
  then show ?thesis using False
    by (cases "ensureSalaryRecord en ws tm month year (Some u) st")
      (auto simp: createAdvanceRecoveryDeduction_def Let_def and_then_def split: sum.splits prod.splits)
qed

lemma update_adjustment_inv:
  "I st \<Longrightarrow> (\<And>a. same_row a (f a) \<and> owned_row st a (f a)) \<Longrightarrow> I (update_adjustment k f st)"
  unfolding update_adjustment_def
  by (rule rows, assumption, rule later_update) (auto simp: same_row_def owned_row_def)

lemma reversed_later: "same_row a (reversed u r a) \<and> owned_row st a (reversed u r a)"
  by (simp add: reversed_def same_row_def owned_row_def)

lemma reverse_doc_inv: "I st \<Longrightarrow> I (snd (reverseAdjustmentDoc en u r k st))"
  by (auto simp: reverseAdjustmentDoc_def Let_def reversed_later intro!: recalc_inv update_adjustment_inv)

end

sublocale store_invariant \<subseteq> plans: plan_invariant I en for en
  by unfold_locales (simp_all add: ensure_inv deduction_inv reverse_doc_inv one_side)

context store_invariant begin

lemma seq_inv: "I (snd r) \<Longrightarrow> (\<And>x st. I st \<Longrightarrow> I (snd (f x st))) \<Longrightarrow> I (snd (and_then r f))"
  by (rule plans.seq)

lemma plan_inv: "I st \<Longrightarrow> I (snd (createAdvanceRecoveryPlan en q st))"
  by (rule plans.create_plan)

lemma create_adjustment_inv:
  assumes "I st" "0 \<le> ai_amount dto"
  shows "I (snd (createAdjustment en ws i userId dto st))"
proof (cases "salary_of st ws i")
  case None
  then show ?thesis using assms by (simp add: createAdjustment_def)
next
  case (Some d)
  then have d: "i < length (ps_salaries st)" "ps_salaries st ! i = d" "sl_workspaceId d = ws"
    by (auto simp: salary_of_def salary_at_def nth_doc_def split: if_splits)
  have "I (snd (recalculateSalaryFromAdjustments en i (Some userId) False (add_adjustment
      ((new_adjustment d i ws (ai_type dto) (ai_category dto) (ai_amount dto) Manual userId)\<lparr>aj_correctionOf := ai_correctionOf dto\<rparr>) st)))"
    unfolding add_adjustment_def
    by (intro recalc_inv new_row assms) (use d assms(2) in \<open>simp add: fresh_row_def new_adjustment_def salary_id_def\<close>)
  then show ?thesis using assms Some
    by (auto simp: createAdjustment_def Let_def intro!: guarded_inv split: option.split)
qed

lemma reverse_adjustment_inv: "I st \<Longrightarrow> I (snd (reverseAdjustment en ws k userId reason st))"
  by (auto simp: reverseAdjustment_def Let_def reversed_later intro!: guarded_inv recalc_inv update_adjustment_inv split: option.split)

lemma linked_addition_inv:
  assumes "I st" "owned st ws i"
  shows "I (snd (createPaymentLinkedAddition ws i u amount cat st))"
  using assms by (auto simp: createPaymentLinkedAddition_def add_adjustment_def fresh_row_def new_adjustment_def salary_id_def owned_iff
      intro!: new_row)

lemma linked_addition_owned [simp]: "owned (snd (createPaymentLinkedAddition ws i u amount cat st)) = owned st"
  by (intro ext owned_cong) (simp add: createPaymentLinkedAddition_def add_adjustment_def ids_def)

lemma linked_additions_inv:
  assumes "I st" "owned st ws i"
  shows "I (snd (linked_additions en ws i u dto st))"
proof -
  define c where "c = max 0 (coalesce (pi_commission dto) 0)"
  define x where "x = max 0 (jsub (pi_amount dto) (max 0 (jsub (sd_netSalary (sl_data (ps_salaries st ! i))) (sumPaidAmountForSalary st i))))"
  define r1 where "r1 = (if c > 0 then createPaymentLinkedAddition ws i u c ''commission'' st else ([], st))"
  define r2 where "r2 = createPaymentLinkedAddition ws i u x ''other'' (snd r1)"
  have 1: "I (snd r1)" "owned (snd r1) ws i" using assms by (simp_all add: r1_def linked_addition_inv)
  then have 2: "I (snd r2)" by (simp add: r2_def linked_addition_inv)
  show ?thesis
    unfolding linked_additions_def Let_def c_def[symmetric] x_def[symmetric] r1_def[symmetric]
    by (cases r1; cases r2; cases "following_month (sl_month (ps_salaries st ! i)) (sl_year (ps_salaries st ! i))")
      (use 1 2 in \<open>auto simp: r2_def intro!: and_then_same recalc_inv\<close>)
qed

lemma save_payment_inv:
  assumes "I st" "fresh_payment st p" "\<forall>k\<in>set linked. k < length (ps_adjustments st) \<longrightarrow> aj_salaryId (ps_adjustments st ! k) = py_salaryId p"
  shows "I (save_payment p linked st)"
proof -
  let ?s = "st\<lparr>ps_payments := ps_payments st @ [p]\<rparr>"
  let ?g = "\<lambda>(k, a). if k \<in> set linked then a\<lparr>aj_linkedPaymentId := Some (length (ps_payments st))\<rparr> else a"
  have "later (\<lambda>a b. same_row a b \<and> owned_row ?s a b) (ps_adjustments ?s) (map ?g (enumerate 0 (ps_adjustments st)))"
    unfolding later_def list_all2_conv_all_nth
    using assms(3) by (auto simp: nth_enumerate_eq same_row_def owned_row_def)
  from rows[OF new_payment[OF assms(1,2)] this] show ?thesis by (simp add: save_payment_def)
qed

lemma update_payment_inv: "I st \<Longrightarrow> (\<And>p. same_payment p (f p)) \<Longrightarrow> I (update_payment k f st)"
  unfolding update_payment_def
  by (rule payments, assumption, rule later_update) (auto simp: same_payment_def)

lemma schedule_inv:
  assumes "I st"
  shows "I (snd (schedule_recovery en ws u dto tm p adv st))"
proof (cases adv)
  case None
  then show ?thesis using assms by (simp add: schedule_recovery_def)
next
  case (Some a)
  obtain month year amount where a: "a = (month, year, amount)" by (cases a) auto
  have 1: "I (snd (and_then (createAdvanceRecoveryPlan en q st)
      (\<lambda>plan st1. (Inr (), update_payment p (\<lambda>d. d\<lparr>py_advanceRecoveryPlanId := Some plan\<rparr>) st1))))" for q
  proof (rule and_then_inv[OF plan_inv[OF assms]])
    fix x st1 assume "createAdvanceRecoveryPlan en q st = (Inr x, st1)"
    then have "I st1" using plan_inv[OF assms, of en q] by simp
    then show "I (snd (Inr (), update_payment p (\<lambda>d. d\<lparr>py_advanceRecoveryPlanId := Some x\<rparr>) st1))"
      by (simp add: update_payment_inv same_payment_def)
  qed
  let ?d = "createAdvanceRecoveryDeduction en ws tm month year amount p u None st"
  have 2: "I (snd (and_then ?d
      (\<lambda>k st1. (Inr (), case k of None \<Rightarrow> st1 | Some _ \<Rightarrow> update_payment p (\<lambda>d. d\<lparr>py_advanceRecoveryAdjustmentId := k\<rparr>) st1))))"
  proof (rule and_then_inv[OF deduction_inv[OF assms]])
    fix x st1 assume "?d = (Inr x, st1)"
    then have "I st1" using deduction_inv[OF assms, of en ws tm month year amount p u None] by simp
    then show "I (snd (Inr (), case x of None \<Rightarrow> st1 | Some _ \<Rightarrow> update_payment p (\<lambda>d. d\<lparr>py_advanceRecoveryAdjustmentId := x\<rparr>) st1))"
      by (simp add: update_payment_inv same_payment_def split: option.split)
  qed
  show ?thesis using 1 2 unfolding schedule_recovery_def Some a by simp
qed

lemma settle_payment_inv:
  assumes "I st" "owned st ws i" "\<forall>k\<in>set (pp_linked parts). k < length (ps_adjustments st) \<longrightarrow> aj_salaryId (ps_adjustments st ! k) = i"
  shows "I (snd (settle_payment en ws i u dto parts st))"
proof -
  let ?p = "payment_of en ws i u dto (sl_teamMemberId (ps_salaries st ! i)) (pp_advance parts)"
  have "I (save_payment ?p (pp_linked parts) st)"
    by (rule save_payment_inv[OF assms(1)]) (use assms(2,3) in \<open>auto simp: fresh_payment_def payment_of_def owned_iff\<close>)
  note 1 = schedule_inv[OF this]
  show ?thesis unfolding settle_payment_def Let_def
    by (rule and_then_inv[OF 1]) (metis 1 snd_conv sync_inv)
qed

lemma pay_record_inv:
  assumes "I st" "owned st ws i"
  shows "I (snd (pay_record en ws i u dto st))"
  unfolding pay_record_def
proof (rule guarded_inv[OF assms(1)], rule and_then_inv)
  show 1: "I (snd (linked_additions en ws i u dto st))" by (rule linked_additions_inv[OF assms])
  fix parts st1 assume r: "linked_additions en ws i u dto st = (Inr parts, st1)"
  note f = linked_additions_frame[OF r]
  have "I st1" using 1 r by simp
  moreover have "owned st1 ws i" using f assms(2) owned_cong by blast
  ultimately show "I (snd (if list_ex (is_duplicate en i dto) (ps_payments st1) then (Inl Duplicate_payment, st1)
      else settle_payment en ws i u dto parts st1))" using f by (auto intro: settle_payment_inv)
qed

lemma target_inv: "I st \<Longrightarrow> I (snd (target_salary en ws u dto st))"
proof -
  assume i: "I st"
  have "I (snd (and_then (ensureSalaryRecord en ws tm month year (Some u) st)
      (\<lambda>i st1. if is_locked st1 i then (Inl Salary_locked, st1) else (Inr i, st1))))" for tm month year
    by (rule and_then_same[OF ensure_inv[OF i]]) auto
  then show ?thesis using i by (simp add: target_salary_def split: option.split prod.split)
qed

lemma record_payment_inv: "I st \<Longrightarrow> I (snd (recordPayment en ws u dto st))"
  unfolding recordPayment_def
proof (rule and_then_inv)
  assume "I st"
  then show 1: "I (snd (target_salary en ws u dto st))" by (rule target_inv)
  fix i st1 assume r: "target_salary en ws u dto st = (Inr i, st1)"
  have "I st1" using 1 r by simp
  moreover have "owned st1 ws i" using target_owned[OF r] by simp
  ultimately show "I (snd (pay_record en ws i u dto st1))" by (rule pay_record_inv)
qed

lemma bulk_inv: "I st \<Longrightarrow> I (snd (recordBulkPayment en ws u dtos st))"
proof -
  have "I st \<Longrightarrow> I (snd (record_all en ws u dtos st))" for st
  proof (induction dtos arbitrary: st)
    case (Cons dto dtos)
    have "I (snd (recordPayment en ws u dto st))" by (rule record_payment_inv[OF Cons.prems])
    then show ?case using Cons.IH by (simp add: Let_def split: prod.split) (metis snd_conv)
  qed simp
  then show "I st \<Longrightarrow> ?thesis" by (auto simp: recordBulkPayment_def split: prod.split) (metis snd_conv)
qed

lemma reverse_docs_inv: "I st \<Longrightarrow> I (snd (reverse_docs en u r ks st))"
proof (induction ks arbitrary: st)
  case (Cons k ks)
  show ?case unfolding reverse_docs.simps
    by (rule and_then_inv[OF reverse_doc_inv[OF Cons.prems]]) (metis Cons.IH Cons.prems reverse_doc_inv snd_conv)
qed simp

lemma reverse_entries_inv: "I st \<Longrightarrow> I (snd (reverse_entries en u r es st))"
proof (induction es arbitrary: st)
  case (Cons e es)
  let ?r = "case ie_adjustmentId e of None \<Rightarrow> (Inr (), st)
     | Some k \<Rightarrow> if still_active st k then reverseAdjustmentDoc en u r k st else (Inr (), st)"
  have 1: "I (snd ?r)" using Cons.prems reverse_doc_inv[OF Cons.prems] by (simp split: option.split)
  have 2: "I (snd (and_then ?r (\<lambda>_ st1. and_then (reverse_entries en u r es st1)
      (\<lambda>es' st2. (Inr (e\<lparr>ie_status := Reversed_entry\<rparr> # es'), st2)))))"
  proof (rule and_then_inv[OF 1])
    fix x st1 assume "?r = (Inr x, st1)"
    then have "I st1" using 1 by simp
    from Cons.IH[OF this] show "I (snd (and_then (reverse_entries en u r es st1)
      (\<lambda>es' st2. (Inr (e\<lparr>ie_status := Reversed_entry\<rparr> # es'), st2))))" by simp
  qed
  show ?case using 2 Cons.IH[OF Cons.prems] by simp
qed simp

lemma reverse_plan_inv:
  assumes "I st"
  shows "I (snd (reverse_plan en u r plan st))"
proof -
  have "I (snd (and_then (reverse_entries en u r es st) (\<lambda>es st1. (Inr (), st1\<lparr>ps_plans := F es st1\<rparr>))))" for es F
    by (rule and_then_inv[OF reverse_entries_inv[OF assms]])
      (use reverse_entries_inv[OF assms, of en u r es] in \<open>auto intro: one_side(2)\<close>)
  then show ?thesis using assms by (simp add: reverse_plan_def split: option.split)
qed

lemma reverse_recovery_inv: "I st \<Longrightarrow> I (snd (reverse_recovery en u r p st))"
  by (simp add: reverse_recovery_def reverse_doc_inv reverse_plan_inv split: option.split)

lemma reverse_payment_inv:
  assumes "I st"
  shows "I (snd (reversePayment en ws p u reason st))"
proof -
  let ?st1 = "update_payment p (\<lambda>x. x\<lparr>py_active := False, py_reversedBy := Some u, py_reversalReason := Some (trim reason)\<rparr>) st"
  have 1: "I ?st1" by (rule update_payment_inv[OF assms]) (simp add: same_payment_def)
  have "I (snd (and_then (reverse_docs en u (trim reason) (linked_rows ?st1 p) ?st1) (\<lambda>_ st2.
      and_then (reverse_recovery en u (trim reason) d st2) (\<lambda>_ st3.
        if salary_of st3 ws (py_salaryId d) = None then (Inr (), st3)
        else recalculateSalaryFromAdjustments en (py_salaryId d) (Some u) False st3))))" for d
  proof (rule and_then_inv[OF reverse_docs_inv[OF 1]])
    fix x st2 assume "reverse_docs en u (trim reason) (linked_rows ?st1 p) ?st1 = (Inr x, st2)"
    then have "I st2" using reverse_docs_inv[OF 1, of en u "trim reason" "linked_rows ?st1 p"] by simp
    note 2 = reverse_recovery_inv[OF this, of en u "trim reason" d]
    show "I (snd (and_then (reverse_recovery en u (trim reason) d st2) (\<lambda>_ st3.
        if salary_of st3 ws (py_salaryId d) = None then (Inr (), st3)
        else recalculateSalaryFromAdjustments en (py_salaryId d) (Some u) False st3)))"
      by (rule and_then_inv[OF 2]) (use 2 in \<open>auto intro: recalc_inv\<close>)
  qed
  then show ?thesis using assms unfolding reversePayment_def Let_def
    by (auto simp del: guarded_simps intro!: guarded_inv split: option.split)
qed

lemma recompute_piece_inv:
  assumes "I st" "i < length (ps_salaries st)"
  shows "I (snd (recomputePieceRateForSalary en i m u st))"
proof -
  let ?f = "\<lambda>p d. d\<lparr>sl_data := (sl_data d)\<lparr>sd_piece := Some p\<rparr>, sl_updatedBy := Some u\<rparr>"
  have "I (update_salary i (?f p) st)" for p
    by (rule update_salary_inv[OF assms(1)]) (simp add: same_salary_def salary_id_def)
  moreover have "owned (update_salary i (?f p) st) (sl_workspaceId (ps_salaries st ! i)) i" for p
    using assms(2) by (simp add: owned_iff update_salary_def)
  ultimately have "I (snd (applyStatutoryDeductions en (sl_workspaceId (ps_salaries st ! i)) i m (update_salary i (?f p) st)))" for p
    by (rule apply_statutory_inv)
  then show ?thesis using assms(1) by (simp add: recomputePieceRateForSalary_def Let_def split: sum.split)
qed

lemma lock_inv:
  assumes "I st"
  shows "I (snd (lockSalaryRecord en ws i u st))"
proof (cases "salary_of st ws i")
  case None
  then show ?thesis using assms by (simp add: lockSalaryRecord_def)
next
  case (Some d)
  then have i: "i < length (ps_salaries st)" by (auto simp: salary_of_def salary_at_def nth_doc_def split: if_splits)
  let ?r = "case find_member st (sl_teamMemberId d) of
      Some m \<Rightarrow> if pm_salaryType m = Some Piece_rate then recomputePieceRateForSalary en i m u st else (Inr (), st)
    | None \<Rightarrow> (Inr (), st)"
  have 1: "I (snd ?r)" using assms recompute_piece_inv[OF assms i] by (simp split: option.split)
  have "I (snd (and_then ?r (\<lambda>_ st1. (Inr (), update_salary i (\<lambda>d. d\<lparr>sl_isLocked := True, sl_lockedBy := Some u,
      sl_lockedAt := Some (en_now en), sl_updatedBy := Some u\<rparr>) st1))))"
  proof (rule and_then_inv[OF 1])
    fix x st1 assume "?r = (Inr x, st1)"
    then have "I st1" using 1 by simp
    then show "I (snd (Inr (), update_salary i (\<lambda>d. d\<lparr>sl_isLocked := True, sl_lockedBy := Some u,
      sl_lockedAt := Some (en_now en), sl_updatedBy := Some u\<rparr>) st1))"
      by (simp add: update_salary_inv same_salary_def salary_id_def)
  qed
  then show ?thesis using assms Some unfolding lockSalaryRecord_def
    by (auto simp del: guarded_simps intro!: guarded_inv)
qed

lemma unlock_inv: "I st \<Longrightarrow> I (snd (unlockSalaryRecord en ws i u st))"
  unfolding unlockSalaryRecord_def
  by (auto simp del: guarded_simps simp: same_salary_def salary_id_def intro!: guarded_inv update_salary_inv split: option.split)

end

end
