(* ===== verification/AdvanceBooks.thy ===== *)
theory AdvanceBooks
  imports SalaryBooks
begin

text \<open>
  The operations on advance requests and on the pay of a member keep every invariant of the store
  as well.  They are sequences of operations of which \<open>SalaryBooks\<close> knows it already, so each proof
  follows the code.
\<close>

context store_invariant begin

lemmas built_up = ensure_inv deduction_inv plan_inv seq_inv

section \<open>Advance requests\<close>

lemma move_inv:
  assumes "I st" "\<And>a. av_status a = status \<Longrightarrow> same_request a (f a)"
  shows "I (snd (move_request status ws k f st))"
proof -
  have "I (update_advance k f st)" if "av_status (ps_advances st ! k) = status"
    unfolding update_advance_def by (rule update_advance_inv[OF assms(1)]) (use assms(2) that in simp)
  then show ?thesis using assms(1)
    by (auto simp: move_request_def request_of_def nth_doc_def split: option.splits if_splits)
qed

lemmas request_defs = same_request_def request_slot_def request_moves_def handled_def request_ok_def

lemma approve_request_inv: "I st \<Longrightarrow> I (snd (approve_request ws k u amount st))"
  unfolding approve_request_def by (erule move_inv) (simp add: request_defs)

lemma reject_request_inv: "I st \<Longrightarrow> I (snd (reject_request ws k u st))"
  unfolding reject_request_def by (erule move_inv) (simp add: request_defs)

lemma mark_paid_inv: "I st \<Longrightarrow> I (snd (markPaid ws k p plan adj same st))"
  unfolding markPaid_def by (erule move_inv) (auto simp: request_defs split: option.split)

lemma create_request_inv: "I st \<Longrightarrow> I (snd (createRequest en ws u tm dto st))"
  unfolding createRequest_def
  by (auto simp del: guarded_simps simp: fresh_request_def request_slot_def list_ex_iff
      intro!: guarded_inv new_advance split: prod.split)

lemma verify_inv: "I st \<Longrightarrow> I (snd (verifyRequest ws k u tm st))"
  unfolding verifyRequest_def update_advance_def
  by (auto simp del: guarded_simps simp: request_defs intro!: guarded_inv update_advance_inv split: option.split)

lemma pay_out_inv:
  assumes "I st"
  shows "I (snd (pay_out en ws u k a amount t st))"
  unfolding pay_out_def
proof (rule and_then_inv)
  show 1: "I (snd (ensureSalaryRecord en ws (av_teamMemberId a) (av_month a) (av_year a) (Some u) st))" by (rule ensure_inv[OF assms])
  fix i st1 assume e: "ensureSalaryRecord en ws (av_teamMemberId a) (av_month a) (av_year a) (Some u) st = (Inr i, st1)"
  have "fresh_payment st1 (request_payment en ws u k a amount t i)"
    using ensure_id[OF e] by (simp add: fresh_payment_def request_payment_def salary_id_def)
  moreover have "I st1" using 1 e by simp
  ultimately show "I (snd (Inr (length (ps_payments st1)), st1\<lparr>ps_payments := ps_payments st1 @ [request_payment en ws u k a amount t i]\<rparr>))"
    by (simp add: new_payment)
qed

lemma by_plan_inv: "I st \<Longrightarrow> I (snd (by_plan en ws u a amount t p st))"
  unfolding by_plan_def by (intro built_up) (simp_all add: update_payment_inv same_payment_def)

lemma by_deduction_inv: "I st \<Longrightarrow> I (snd (by_deduction en ws u a amount t p st))"
  unfolding by_deduction_def by (intro built_up) (simp_all add: update_payment_inv same_payment_def split: option.split)

lemma recover_and_close_inv: "I st \<Longrightarrow> I (snd (recover_and_close en ws u k a amount t settles p st))"
  unfolding recover_and_close_def by (auto intro!: seq_inv by_plan_inv by_deduction_inv mark_paid_inv)

lemma pay_approved_inv: "I st \<Longrightarrow> I (snd (payApprovedAdvance en ws u k t st))"
  unfolding payApprovedAdvance_def Let_def
  by (cases "request_of st ws k") (simp_all only: option.case snd_conv, intro guarded_inv seq_inv pay_out_inv recover_and_close_inv)

lemma first_step_inv:
  "I st \<Longrightarrow> I (snd (if b then approve_request ws k u amount st else if c then (Inr e, st) else (Inl x, st)))"
  by (simp add: approve_request_inv)

lemma pay_and_recover_inv:
  "I st \<Longrightarrow> I (snd (and_then (pay_out en ws u k a x t st) (\<lambda>p st1. recover_and_close en ws u k a x t settles p st1)))"
  by (intro seq_inv pay_out_inv recover_and_close_inv)

lemma disburse_inv:
  assumes "I st"
  shows "I (snd (approveAndDisburseAdvanceRequest en ws k u amount t st))"
proof (cases "request_of st ws k")
  case None
  then show ?thesis using assms by (simp add: approveAndDisburseAdvanceRequest_def)
next
  case (Some e)
  have step: "I (snd (if x \<le> 0 then (Inl Advance_amount_not_positive, st1)
      else case prior_payment st1 k of
          Some p \<Rightarrow> and_then (markPaid ws k p None None False st1) (\<lambda>_ st2. (Inr p, st2))
        | None \<Rightarrow> and_then (pay_out en ws u k a x t st1) (\<lambda>p st2. recover_and_close en ws u k a x t False p st2)))"
    if "I st1" for a x st1
    using that by (simp add: mark_paid_inv pay_and_recover_inv split: option.split)
  show ?thesis unfolding approveAndDisburseAdvanceRequest_def Some option.case Let_def
  proof (rule guarded_inv[OF assms])
    show "I (snd (if av_status e = ''paid'' \<and> av_paymentId e \<noteq> None then (Inr (the (av_paymentId e)), st)
       else and_then
         (if av_status e = ''pending'' then approve_request ws k u amount st
          else if av_status e = ''approved'' then (Inr e, st) else (Inl (Advance_wrong_status (av_status e)), st))
         (\<lambda>a st1.
            if roundCurrency (jdiv (coalesce (av_approvedAmount a) amount) 100) \<le> 0 then (Inl Advance_amount_not_positive, st1)
            else case prior_payment st1 k of
                None \<Rightarrow> and_then (pay_out en ws u k a (roundCurrency (jdiv (coalesce (av_approvedAmount a) amount) 100)) t st1)
                  (\<lambda>p st2. recover_and_close en ws u k a (roundCurrency (jdiv (coalesce (av_approvedAmount a) amount) 100)) t False p st2)
              | Some p \<Rightarrow> and_then (markPaid ws k p None None False st1) (\<lambda>_ st2. (Inr p, st2)))))"
      using assms seq_inv[OF first_step_inv[OF assms] step] by simp
  qed
qed

section \<open>A record and the pay of a member\<close>

lemma update_record_inv:
  assumes "I st"
  shows "I (snd (updateSalaryRecord en ws i base actor st))"
proof (cases "salary_of st ws i")
  case None
  then show ?thesis using assms by (simp add: updateSalaryRecord_def)
next
  case (Some d)
  show ?thesis unfolding updateSalaryRecord_def Some option.case
    by (intro guarded_inv recalc_inv update_salary_inv assms) (simp add: same_salary_def salary_id_def)
qed

lemma build_inv: "I st \<Longrightarrow> I (snd (buildSalaryRecordData en ws tm month year x y st))"
  using build_frame[of en ws tm month year x y st] increment_inv[of st]
  by (cases "buildSalaryRecordData en ws tm month year x y st") simp

lemma rebuild_inv:
  assumes "I st"
  shows "I (snd (rebuild_record en ws tm i actor st))"
proof (cases "is_locked st i \<or> salary_of st ws i = None")
  case True
  then show ?thesis using assms by (auto simp: rebuild_record_def)
next
  case False
  then obtain d where d: "\<not> is_locked st i" "salary_of st ws i = Some d" by auto
  show ?thesis unfolding rebuild_record_def if_not_P[OF d(1)] d(2) option.case
    by (rule seq_inv[OF build_inv[OF assms]], unfold snd_conv)
      (intro sync_inv update_salary_inv, simp_all add: same_salary_def salary_id_def)
qed

lemma set_base_pay_inv: "I st \<Longrightarrow> I (snd (setBasePay en ws tm cfg actor st))"
  unfolding setBasePay_def Let_def
proof (rule guarded_inv, assumption)
  assume st: "I st"
  let ?st1 = "\<lambda>j. st\<lparr>ps_members := (ps_members st)[j := with_base_pay cfg (ps_members st ! j)]\<rparr>"
  have "I (?st1 j)" for j using one_side(1)[OF st, where b = "ps_increments st"] by simp
  then show "I (snd (case find_index (\<lambda>m. pm_id m = tm \<and> pm_workspaceId m = ws) (ps_members st) of None \<Rightarrow> (Inl Member_not_found, st)
      | Some j \<Rightarrow> (case bp_salaryId cfg of None \<Rightarrow> (Inr (), ?st1 j) | Some i \<Rightarrow> rebuild_record en ws tm i actor (?st1 j))))"
    using st by (auto intro: rebuild_inv split: option.split)
qed

end

end
