(* ===== verification/SalaryHistory.thy ===== *)
theory SalaryHistory
  imports AdvanceBooks
begin

text \<open>
  The salary module as a transition system: a step is one operation run to completion, with
  whatever it returns or throws, or another service editing members, increments or tax declarations.  The settings and the clock may differ from step to step.  Both
  interpretations of \<open>store_invariant\<close> are here.
\<close>

inductive salary_step :: "pay_store \<Rightarrow> pay_store \<Rightarrow> bool" where
  ensure_step: "salary_step st (snd (ensureSalaryRecord en ws tm month year u st))"
| adjust_step: "0 \<le> ai_amount dto \<Longrightarrow> salary_step st (snd (createAdjustment en ws i user dto st))"
| reverse_step: "salary_step st (snd (reverseAdjustment en ws k user reason st))"
| pay_step: "salary_step st (snd (recordPayment en ws user input st))"
| bulk_step: "salary_step st (snd (recordBulkPayment en ws user inputs st))"
| unpay_step: "salary_step st (snd (reversePayment en ws p user reason st))"
| lock_step: "salary_step st (snd (lockSalaryRecord en ws i user st))"
| unlock_step: "salary_step st (snd (unlockSalaryRecord en ws i user st))"
| generate_step: "salary_step st (snd (generatePayroll en ws month year st))"
| record_step: "salary_step st (snd (updateSalaryRecord en ws i base actor st))"
| base_pay_step: "salary_step st (snd (setBasePay en ws tm cfg actor st))"
| edit_plan_step: "salary_step st (snd (editAdvanceRecoveryPlan en ws k user edit st))"
| payoff_step: "salary_step st (snd (earlyPayoffAdvanceRecoveryPlan en ws k user reason st))"
| request_step: "salary_step st (snd (createRequest en ws user tm ri st))"
| approve_step: "salary_step st (snd (approve_request ws k user amount st))"
| reject_step: "salary_step st (snd (reject_request ws k user st))"
| verify_step: "salary_step st (snd (verifyRequest ws k user tm st))"
| pay_advance_step: "salary_step st (snd (payApprovedAdvance en ws user k terms st))"
| disburse_step: "salary_step st (snd (approveAndDisburseAdvanceRequest en ws k user amount terms st))"
| elsewhere: "salary_step st (st\<lparr>ps_members := a, ps_increments := b, ps_declarations := e\<rparr>)"

context store_invariant begin

lemma elsewhere_inv:
  "I st \<Longrightarrow> I (st\<lparr>ps_members := a, ps_increments := b, ps_declarations := e\<rparr>)"
  using side[where a = a and b = b and d = "ps_plans st" and e = e, of st] by simp

lemmas operations_inv = ensure_inv create_adjustment_inv reverse_adjustment_inv record_payment_inv bulk_inv reverse_payment_inv
  lock_inv unlock_inv plans.generate update_record_inv set_base_pay_inv plans.edit_plan plans.payoff create_request_inv
  approve_request_inv reject_request_inv verify_inv pay_approved_inv disburse_inv elsewhere_inv

lemma salary_step_inv: "salary_step st st' \<Longrightarrow> I st \<Longrightarrow> I st'"
  by (induction rule: salary_step.induct) (auto intro: operations_inv)

lemma steps_inv: "salary_step\<^sup>*\<^sup>* st st' \<Longrightarrow> I st \<Longrightarrow> I st'"
  by (induction rule: rtranclp_induct) (auto intro: salary_step_inv)

end

section \<open>Well-formed documents\<close>

definition row_ok :: "pay_store \<Rightarrow> adjustment_doc \<Rightarrow> bool" where
  "row_ok st a \<longleftrightarrow> aj_salaryId a < length (ps_salaries st)
     \<and> salary_id (ps_salaries st ! aj_salaryId a) = (aj_workspaceId a, aj_teamMemberId a, aj_month a, aj_year a)
     \<and> 0 \<le> aj_amount a
     \<and> (\<forall>p. aj_linkedPaymentId a = Some p \<longrightarrow> p < length (ps_payments st) \<and> py_salaryId (ps_payments st ! p) = aj_salaryId a)"

definition payment_ok :: "pay_store \<Rightarrow> payment_doc \<Rightarrow> bool" where
  "payment_ok st p \<longleftrightarrow> py_salaryId p < length (ps_salaries st)
     \<and> py_workspaceId p = sl_workspaceId (ps_salaries st ! py_salaryId p)
     \<and> py_teamMemberId p = sl_teamMemberId (ps_salaries st ! py_salaryId p)"

definition wf_store :: "pay_store \<Rightarrow> bool" where
  "wf_store st \<longleftrightarrow> distinct (ids st)
     \<and> (\<forall>d\<in>set (ps_salaries st). sl_isLocked d \<longleftrightarrow> sl_lockedBy d \<noteq> None)
     \<and> (\<forall>a\<in>set (ps_adjustments st). row_ok st a) \<and> (\<forall>p\<in>set (ps_payments st). payment_ok st p)
     \<and> distinct (map request_slot (filter in_play (ps_advances st))) \<and> (\<forall>a\<in>set (ps_advances st). request_ok a)"

lemma later_ids: "later same_salary ds es \<Longrightarrow> map salary_id es = map salary_id ds"
  by (simp add: later_def list_all2_conv_all_nth list_eq_iff_nth_eq same_salary_def)

lemma later_set: "later R xs ys \<Longrightarrow> y \<in> set ys \<Longrightarrow> \<exists>x\<in>set xs. R x y"
  unfolding later_def list_all2_conv_all_nth in_set_conv_nth by fastforce

lemma later_nth: "later R xs ys \<Longrightarrow> length ys = length xs \<and> (\<forall>i<length xs. R (xs ! i) (ys ! i))"
  by (simp add: later_def list_all2_conv_all_nth)

lemma row_ok_mono:
  assumes "row_ok st a" "\<exists>xs. ids st' = ids st @ xs" "length (ps_payments st) \<le> length (ps_payments st')"
    "\<And>p. p < length (ps_payments st) \<Longrightarrow> py_salaryId (ps_payments st' ! p) = py_salaryId (ps_payments st ! p)"
  shows "row_ok st' a"
proof -
  have i: "aj_salaryId a < length (ids st)" using assms(1) by (simp add: row_ok_def length_ids)
  then have "ids st' ! aj_salaryId a = ids st ! aj_salaryId a" "aj_salaryId a < length (ids st')"
    using assms(2) by (auto simp: nth_append)
  then show ?thesis using assms(1,3,4) i by (fastforce simp: row_ok_def ids_def)
qed

lemma payment_ok_mono:
  assumes "payment_ok st p" "\<exists>xs. ids st' = ids st @ xs"
  shows "payment_ok st' p"
proof -
  have i: "py_salaryId p < length (ids st)" using assms(1) by (simp add: payment_ok_def length_ids)
  then have "ids st' ! py_salaryId p = ids st ! py_salaryId p" "py_salaryId p < length (ids st')"
    using assms(2) by (auto simp: nth_append)
  then show ?thesis using assms(1) i by (auto simp: payment_ok_def ids_def salary_id_def)
qed

lemma row_ok_later: "row_ok st a \<Longrightarrow> same_row a b \<Longrightarrow> owned_row st a b \<Longrightarrow> row_ok st b"
  by (auto simp: row_ok_def same_row_def owned_row_def salary_id_def)

lemma payment_ok_later: "payment_ok st p \<Longrightarrow> same_payment p q \<Longrightarrow> payment_ok st q"
  by (simp add: payment_ok_def same_payment_def)

lemma same_request_in_play: "same_request a b \<Longrightarrow> in_play b \<Longrightarrow> in_play a"
  unfolding same_request_def request_moves_def in_play_def by (elim conjE disjE) simp_all

lemma later_requests:
  assumes "later same_request xs ys" "distinct (map request_slot (filter in_play xs))" "\<forall>a\<in>set xs. request_ok a"
  shows "distinct (map request_slot (filter in_play ys)) \<and> (\<forall>a\<in>set ys. request_ok a)"
proof -
  have "set (map request_slot (filter in_play ys)) \<subseteq> set (map request_slot (filter in_play xs))
      \<and> distinct (map request_slot (filter in_play ys)) \<and> (\<forall>a\<in>set ys. request_ok a)"
    using assms unfolding later_def
  proof (induction rule: list_all2_induct)
    case (Cons x xs y ys)
    have s: "set (map request_slot (filter in_play ys)) \<subseteq> set (map request_slot (filter in_play xs))"
      "distinct (map request_slot (filter in_play ys))" "\<forall>a\<in>set ys. request_ok a"
      using Cons.IH Cons.prems by (simp_all split: if_splits)
    have y: "request_slot y = request_slot x" "request_ok y" using Cons.hyps(1) Cons.prems by (simp_all add: same_request_def)
    show ?case
    proof (cases "in_play y")
      case True
      then have x: "in_play x" by (rule same_request_in_play[OF Cons.hyps(1)])
      have "request_slot x \<notin> set (map request_slot (filter in_play xs))" using Cons.prems(1) x by simp
      then have "request_slot x \<notin> set (map request_slot (filter in_play ys))" using s(1) by blast
      then show ?thesis using s y x True by auto
    next
      case False
      then show ?thesis using s y by auto
    qed
  qed simp
  then show ?thesis by blast
qed

interpretation wf: store_invariant wf_store
proof (unfold_locales, goal_cases)
  case (1 st a b d e)
  then show ?case by (simp add: wf_store_def ids_def row_ok_def payment_ok_def)
next
  case (2 st rs)
  have "distinct (map request_slot (filter in_play rs)) \<and> (\<forall>a\<in>set rs. request_ok a)"
    using later_requests[OF 2(2)] 2(1) by (simp add: wf_store_def)
  then show ?case using 2(1) by (simp add: wf_store_def ids_def row_ok_def payment_ok_def)
next
  case (3 st a)
  then show ?case
    by (auto simp: wf_store_def ids_def row_ok_def payment_ok_def fresh_request_def request_ok_def)
next
  case (4 st ds)
  let ?s = "st\<lparr>ps_salaries := ds\<rparr>"
  have e: "ids ?s = ids st" using later_ids[OF 4(2)] by (simp add: ids_def)
  then have "row_ok st a \<Longrightarrow> row_ok ?s a" "payment_ok st p \<Longrightarrow> payment_ok ?s p" for a p
    using row_ok_mono[of st a ?s] payment_ok_mono[of st p ?s] by auto
  moreover have "sl_isLocked d \<longleftrightarrow> sl_lockedBy d \<noteq> None" if d: "d \<in> set ds" for d
  proof -
    obtain d0 where "d0 \<in> set (ps_salaries st)" "same_salary d0 d" using later_set[OF 4(2) d] by blast
    then show ?thesis using 4(1) by (auto simp: wf_store_def same_salary_def)
  qed
  ultimately show ?case using 4(1) e by (simp add: wf_store_def)
next
  case (5 st d)
  let ?s = "st\<lparr>ps_salaries := ps_salaries st @ [d]\<rparr>"
  have e: "ids ?s = ids st @ [salary_id d]" by (simp add: ids_def)
  then have "row_ok st a \<Longrightarrow> row_ok ?s a" "payment_ok st p \<Longrightarrow> payment_ok ?s p" for a p
    using row_ok_mono[of st a ?s] payment_ok_mono[of st p ?s] by auto
  moreover have "salary_id d \<notin> set (ids st)" using 5(2) by (simp add: ids_def)
  ultimately show ?case using 5 e by (auto simp: wf_store_def)
next
  case (6 st rs)
  have "row_ok (st\<lparr>ps_adjustments := rs\<rparr>) b" if "b \<in> set rs" for b
  proof -
    from later_set[OF 6(2) that] obtain a where "a \<in> set (ps_adjustments st)" "same_row a b \<and> owned_row st a b" ..
    then have "row_ok st b" using 6(1) row_ok_later by (auto simp: wf_store_def)
    then show ?thesis by (simp add: row_ok_def)
  qed
  then show ?case using 6(1) by (simp add: wf_store_def ids_def payment_ok_def)
next
  case (7 st a)
  then show ?case by (auto simp: wf_store_def ids_def payment_ok_def row_ok_def fresh_row_def)
next
  case (8 st ps)
  note l = later_nth[OF 8(2)]
  let ?s = "st\<lparr>ps_payments := ps\<rparr>"
  have "row_ok st a \<Longrightarrow> row_ok ?s a" for a
    using row_ok_mono[of st a ?s] l by (simp add: ids_def same_payment_def)
  moreover have "payment_ok ?s q" if q: "q \<in> set ps" for q
  proof -
    obtain p where "p \<in> set (ps_payments st)" "same_payment p q" using later_set[OF 8(2) q] by blast
    then have "payment_ok st q" using 8(1) payment_ok_later by (auto simp: wf_store_def)
    then show ?thesis by (simp add: payment_ok_def)
  qed
  ultimately show ?case using 8(1) by (simp add: wf_store_def ids_def)
next
  case (9 st p)
  let ?s = "st\<lparr>ps_payments := ps_payments st @ [p]\<rparr>"
  have "row_ok st a \<Longrightarrow> row_ok ?s a" for a
    using row_ok_mono[of st a ?s] by (simp add: ids_def nth_append)
  moreover have "payment_ok st q \<Longrightarrow> payment_ok ?s q" for q by (simp add: payment_ok_def)
  ultimately show ?case using 9 by (auto simp: wf_store_def ids_def fresh_payment_def payment_ok_def)
qed

section \<open>History\<close>

definition history :: "pay_store \<Rightarrow> pay_store \<Rightarrow> bool" where
  "history st st' \<longleftrightarrow> (\<exists>xs. ids st' = ids st @ xs)
     \<and> length (ps_adjustments st) \<le> length (ps_adjustments st')
     \<and> (\<forall>k<length (ps_adjustments st). same_row (ps_adjustments st ! k) (ps_adjustments st' ! k))
     \<and> length (ps_payments st) \<le> length (ps_payments st')
     \<and> (\<forall>p<length (ps_payments st). same_payment (ps_payments st ! p) (ps_payments st' ! p))
     \<and> length (ps_advances st) \<le> length (ps_advances st')
     \<and> (\<forall>k<length (ps_advances st). same_request (ps_advances st ! k) (ps_advances st' ! k))"

lemma same_row_refl [simp]: "same_row a a" by (simp add: same_row_def)
lemma same_row_trans: "same_row a b \<Longrightarrow> same_row b c \<Longrightarrow> same_row a c" by (auto simp: same_row_def)
lemma same_payment_refl [simp]: "same_payment a a" by (simp add: same_payment_def)
lemma same_payment_trans: "same_payment a b \<Longrightarrow> same_payment b c \<Longrightarrow> same_payment a c" by (auto simp: same_payment_def)

lemma history_refl [simp]: "history st st" by (simp add: history_def)

lemma historyD:
  assumes "history st st'"
  shows "\<exists>xs. ids st' = ids st @ xs"
    "length (ps_adjustments st) \<le> length (ps_adjustments st')"
    "k < length (ps_adjustments st) \<Longrightarrow> same_row (ps_adjustments st ! k) (ps_adjustments st' ! k)"
    "length (ps_payments st) \<le> length (ps_payments st')"
    "k < length (ps_payments st) \<Longrightarrow> same_payment (ps_payments st ! k) (ps_payments st' ! k)"
    "length (ps_advances st) \<le> length (ps_advances st')"
    "k < length (ps_advances st) \<Longrightarrow> same_request (ps_advances st ! k) (ps_advances st' ! k)"
  using assms by (simp_all add: history_def)

lemma history_trans:
  assumes "history a b" "history b c"
  shows "history a c"
proof -
  note x = historyD[OF assms(1)] and y = historyD[OF assms(2)]
  show ?thesis unfolding history_def
  proof (intro conjI allI impI)
    obtain xs ys where "ids b = ids a @ xs" "ids c = ids b @ ys" using x(1) y(1) by blast
    then show "\<exists>xs. ids c = ids a @ xs" by simp
    fix k
    show "same_row (ps_adjustments a ! k) (ps_adjustments c ! k)" if "k < length (ps_adjustments a)"
      by (rule same_row_trans[OF x(3)[OF that] y(3)]) (use that x(2) in linarith)
    show "same_payment (ps_payments a ! k) (ps_payments c ! k)" if "k < length (ps_payments a)"
      by (rule same_payment_trans[OF x(5)[OF that] y(5)]) (use that x(4) in linarith)
    show "same_request (ps_advances a ! k) (ps_advances c ! k)" if "k < length (ps_advances a)"
      by (rule same_request_trans[OF x(7)[OF that] y(7)]) (use that x(6) in linarith)
  qed (use x(2,4,6) y(2,4,6) in linarith)+
qed

interpretation hist: store_invariant "history st0" for st0
proof (unfold_locales, goal_cases)
  case (1 st a b d e)
  then show ?case by (elim history_trans) (simp add: history_def ids_def)
next
  case (2 st rs)
  have "history st (st\<lparr>ps_advances := rs\<rparr>)" using later_nth[OF 2(2)] by (simp add: history_def ids_def)
  with 2(1) show ?case by (rule history_trans)
next
  case (3 st a)
  have "history st (st\<lparr>ps_advances := ps_advances st @ [a]\<rparr>)" by (simp add: history_def ids_def nth_append)
  with 3(1) show ?case by (rule history_trans)
next
  case (4 st ds)
  have "history st (st\<lparr>ps_salaries := ds\<rparr>)" using later_ids[OF 4(2)] by (simp add: history_def ids_def)
  with 4(1) show ?case by (rule history_trans)
next
  case (5 st d)
  have "history st (st\<lparr>ps_salaries := ps_salaries st @ [d]\<rparr>)" by (simp add: history_def ids_def)
  with 5(1) show ?case by (rule history_trans)
next
  case (6 st rs)
  have "history st (st\<lparr>ps_adjustments := rs\<rparr>)" using later_nth[OF 6(2)] by (simp add: history_def ids_def)
  with 6(1) show ?case by (rule history_trans)
next
  case (7 st a)
  have "history st (st\<lparr>ps_adjustments := ps_adjustments st @ [a]\<rparr>)" by (simp add: history_def ids_def nth_append)
  with 7(1) show ?case by (rule history_trans)
next
  case (8 st ps)
  have "history st (st\<lparr>ps_payments := ps\<rparr>)" using later_nth[OF 8(2)] by (simp add: history_def ids_def)
  with 8(1) show ?case by (rule history_trans)
next
  case (9 st p)
  have "history st (st\<lparr>ps_payments := ps_payments st @ [p]\<rparr>)" by (simp add: history_def ids_def nth_append)
  with 9(1) show ?case by (rule history_trans)
qed

section \<open>The properties\<close>

text \<open>
  C3. Every reachable store of the salary module is well-typed: there is one record for a member
  and a month, a record is flagged locked exactly when someone is named as having locked it,
  every adjustment has a nonnegative amount and the workspace, member and month of the record it
  points to, a linked adjustment points to a payment of the same record, every payment
  belongs to the member of its record, a member has at most one advance request for a month that is
  pending, approved or paid, an approved request has its amount and a paid one its payment.  No operation breaks this, not even one that throws.
\<close>

theorem salary_store_well_typed:
  assumes "wf_store st" "salary_step\<^sup>*\<^sup>* st st'"
  shows "wf_store st'"
  using assms by (blast intro: wf.steps_inv)


end
