(* ===== verification/SalaryAgree.thy ===== *)
theory SalaryAgree
  imports SalaryHistory
begin

text \<open>
  The derived fields of a salary record against the rows they are derived from.  The data of a
  record agree when its additions, deductions and net salary are the ones computed from its active
  adjustments; its status agrees when it is the one computed from its active payments.  The sum
  \<open>S\<close> is the \<open>$sum\<close> of the environment.  The lemmas follow the operations: each says at which
  records the agreement may be broken on the way, and that it is restored at the end.
\<close>

definition total_of :: "(rat list \<Rightarrow> rat) \<Rightarrow> adjustment_doc list \<Rightarrow> nat \<Rightarrow> adjustment_type \<Rightarrow> rat" where
  "total_of S rs i ty = (let amounts = map aj_amount (filter (\<lambda>a. aj_salaryId a = i \<and> aj_active a
       \<and> aj_category a \<noteq> ''loan_perquisite'' \<and> aj_type a = ty) rs)
     in if amounts = [] then 0 else S amounts)"

lemma rollup_total: "rollup en st i ty = total_of (en_sum en) (ps_adjustments st) i ty"
  by (simp add: rollup_def total_of_def)

definition data_ok :: "(rat list \<Rightarrow> rat) \<Rightarrow> pay_store \<Rightarrow> nat \<Rightarrow> bool" where
  "data_ok S st i \<longleftrightarrow> sl_data (ps_salaries st ! i) = with_rollups (total_of S (ps_adjustments st) i Addition)
     (total_of S (ps_adjustments st) i Deduction) (sl_data (ps_salaries st ! i))"

definition status_ok :: "pay_store \<Rightarrow> nat \<Rightarrow> bool" where
  "status_ok st i \<longleftrightarrow> sl_status (ps_salaries st ! i)
     = settlement_status (sumPaidAmountForSalary st i) (sd_netSalary (sl_data (ps_salaries st ! i)))"

definition agree :: "(rat list \<Rightarrow> rat) \<Rightarrow> nat set \<Rightarrow> nat set \<Rightarrow> pay_store \<Rightarrow> bool" where
  \<comment> \<open>the data agree but for the first set of records, the statuses but for the second\<close>
  "agree S D E st \<longleftrightarrow> (\<forall>i<length (ps_salaries st). (i \<notin> D \<longrightarrow> data_ok S st i) \<and> (i \<notin> E \<longrightarrow> status_ok st i))"

lemma agree_mono: "agree S D E st \<Longrightarrow> D \<subseteq> D' \<Longrightarrow> E \<subseteq> E' \<Longrightarrow> agree S D' E' st"
  unfolding agree_def by blast

lemma with_rollups_idem [simp]: "with_rollups a b (with_rollups a b d) = with_rollups a b d"
  by (simp add: with_rollups_def)

section \<open>Primitive updates\<close>

lemma agree_cong:
  assumes "ps_salaries st' = ps_salaries st" "ps_adjustments st' = ps_adjustments st" "ps_payments st' = ps_payments st"
  shows "agree S D E st' = agree S D E st"
  using assms by (simp add: agree_def data_ok_def status_ok_def sumPaidAmountForSalary_def)

lemma agree_rows:
  assumes "agree S D E st" "\<And>i ty. i \<notin> K \<Longrightarrow> total_of S rs i ty = total_of S (ps_adjustments st) i ty"
  shows "agree S (D \<union> K) E (st\<lparr>ps_adjustments := rs\<rparr>)"
  using assms by (simp add: agree_def data_ok_def status_ok_def sumPaidAmountForSalary_def)

lemma total_add: "i \<noteq> aj_salaryId a \<Longrightarrow> total_of S (rs @ [a]) i ty = total_of S rs i ty"
  by (simp add: total_of_def)

lemma filter_update_irrelevant:
  assumes "\<not> P (xs ! k)" "\<not> P y"
  shows "filter P (xs[k := y]) = filter P xs"
  using assms by (induction xs arbitrary: k) (auto split: nat.splits)

lemma total_update:
  "i \<noteq> aj_salaryId (rs ! k) \<Longrightarrow> aj_salaryId b = aj_salaryId (rs ! k) \<Longrightarrow> total_of S (rs[k := b]) i ty = total_of S rs i ty"
  unfolding total_of_def by (subst filter_update_irrelevant) auto

lemma total_map:
  assumes "\<And>a. aj_salaryId (f a) = aj_salaryId a" "\<And>a. aj_salaryId a = i \<Longrightarrow> f a = a"
  shows "total_of S (map f rs) i ty = total_of S rs i ty"
proof -
  have "map aj_amount (filter (\<lambda>a. aj_salaryId a = i \<and> aj_active a \<and> aj_category a \<noteq> ''loan_perquisite'' \<and> aj_type a = ty) (map f rs))
      = map aj_amount (filter (\<lambda>a. aj_salaryId a = i \<and> aj_active a \<and> aj_category a \<noteq> ''loan_perquisite'' \<and> aj_type a = ty) rs)"
    by (induction rs) (use assms in auto)
  then show ?thesis by (simp add: total_of_def)
qed

lemma agree_update_salary:
  assumes "agree S D E st"
  shows "agree S (D \<union> {i}) (E \<union> {i}) (update_salary i f st)"
  using assms by (auto simp: agree_def data_ok_def status_ok_def sumPaidAmountForSalary_def update_salary_def)

lemma paid_update_salary [simp]: "sumPaidAmountForSalary (update_salary i f st) j = sumPaidAmountForSalary st j"
  by (simp add: sumPaidAmountForSalary_def update_salary_def)

lemma rows_update_salary [simp]: "ps_adjustments (update_salary i f st) = ps_adjustments st"
  by (simp add: update_salary_def)

lemma salaries_update_salary: "ps_salaries (update_salary i f st) = (ps_salaries st)[i := f (ps_salaries st ! i)]"
  by (simp add: update_salary_def)

lemma agree_sync:
  assumes "agree S D E st"
  shows "agree S D (E - {i}) (syncSalaryStatus i st)"
proof -
  have "data_ok S (syncSalaryStatus i st) j" if "data_ok S st j" "j < length (ps_salaries st)" for j
    using that by (cases "j = i") (simp_all add: data_ok_def syncSalaryStatus_def salaries_update_salary)
  moreover have "status_ok (syncSalaryStatus i st) j" if "j = i \<or> status_ok st j" "j < length (ps_salaries st)" for j
    using that by (cases "j = i") (simp_all add: status_ok_def syncSalaryStatus_def salaries_update_salary)
  ultimately show ?thesis using assms by (auto simp: agree_def) (simp_all add: syncSalaryStatus_def salaries_update_salary)
qed

lemma agree_recalc:
  assumes "agree (en_sum en) D E st" "recalculateSalaryFromAdjustments en i u skip st = (Inr x, st')"
  shows "agree (en_sum en) (D - {i}) (E - {i}) st'"
proof -
  let ?f = "\<lambda>d. d\<lparr>sl_data := with_rollups (rollup en st i Addition) (rollup en st i Deduction) (sl_data d),
      sl_updatedBy := (case u of None \<Rightarrow> sl_updatedBy d | Some u \<Rightarrow> Some u)\<rparr>"
  have st': "st' = syncSalaryStatus i (update_salary i ?f st)"
    using assms(2) by (simp add: recalculateSalaryFromAdjustments_def split: if_splits)
  have "agree (en_sum en) (D - {i}) (E \<union> {i}) (update_salary i ?f st)"
  proof -
    have "data_ok (en_sum en) (update_salary i ?f st) j" if "j = i \<or> data_ok (en_sum en) st j" "j < length (ps_salaries st)" for j
      using that by (cases "j = i") (simp_all add: data_ok_def salaries_update_salary rollup_total)
    then show ?thesis using agree_update_salary[OF assms(1), of i ?f] assms(1)
      by (auto simp: agree_def salaries_update_salary)
  qed
  from agree_sync[OF this, of i] show ?thesis unfolding st' by (rule agree_mono) auto
qed

lemma recalc_unlocked:
  "skip \<or> \<not> is_locked st i \<Longrightarrow> \<exists>st'. recalculateSalaryFromAdjustments en i u skip st = (Inr (), st')"
  by (simp add: recalculateSalaryFromAdjustments_def)

section \<open>Producing a record\<close>

lemma is_locked_cong: "ps_salaries st' = ps_salaries st \<Longrightarrow> is_locked st' i = is_locked st i"
  by (simp add: is_locked_def salary_at_def)

lemma agree_add_row: "agree S D E st \<Longrightarrow> agree S (D \<union> {aj_salaryId a}) E (add_adjustment a st)"
  unfolding add_adjustment_def by (rule agree_rows) (auto intro: total_add)

lemma agree_put_system:
  assumes "agree S D E st"
  shows "agree S (D \<union> {i}) E (put_system ws i cat u due st)"
proof (cases due)
  case (Inr reason)
  show ?thesis unfolding put_system_def Inr sum.case reverse_system_def
    by (rule agree_rows[OF assms]) (rule total_map, auto simp: is_system_row_def)
next
  case (Inl amount)
  let ?P = "\<lambda>a. is_system_row ws i cat a \<and> aj_month a = sl_month (ps_salaries st ! i) \<and> aj_year a = sl_year (ps_salaries st ! i)"
  show ?thesis
  proof (cases "find_index ?P (ps_adjustments st)")
    case None
    then show ?thesis using agree_add_row[OF assms, of "new_adjustment (ps_salaries st ! i) i ws Deduction cat amount System u"]
      by (simp add: put_system_def Inl upsert_system_def Let_def new_adjustment_def)
  next
    case (Some k)
    then have k: "aj_salaryId (ps_adjustments st ! k) = i" using find_index_SomeD by (fastforce simp: is_system_row_def)
    have "agree S (D \<union> {i}) E (st\<lparr>ps_adjustments := (ps_adjustments st)[k := (ps_adjustments st ! k)
        \<lparr>aj_teamMemberId := sl_teamMemberId (ps_salaries st ! i), aj_type := Deduction, aj_amount := amount\<rparr>]\<rparr>)"
      by (rule agree_rows[OF assms], rule total_update) (use k in simp_all)
    then show ?thesis using Some by (simp add: put_system_def Inl upsert_system_def Let_def)
  qed
qed

lemma agree_in: "agree S (D \<union> {i}) E st \<Longrightarrow> i \<in> D \<Longrightarrow> agree S D E st"
  by (simp add: insert_absorb)

lemma agree_statutory_rows:
  assumes "agree S D E st"
  shows "agree S (D \<union> {i}) E (statutory_rows en c ws i m u st)"
proof -
  have p: "agree S (D \<union> {i}) E (put_system ws i cat u due s)" if "agree S (D \<union> {i}) E s" for cat due s
    using agree_put_system[OF that, of i ws cat u due] by simp
  show ?thesis unfolding statutory_rows_def Let_def by (intro p agree_mono[OF assms]) auto
qed

lemma agree_tds:
  assumes "agree S D E st"
  shows "agree S (D \<union> {i}) E (tds_step en ws i m u st)"
proof -
  have d: "agree S D' E (s\<lparr>ps_declarations := ds\<rparr>) = agree S D' E s" for s ds D' by (rule agree_cong) simp_all
  show ?thesis unfolding tds_step_def Let_def
    by (cases "getOrCreateDeclaration (ps_declarations st)
          (ws, pm_id m, getFinancialYear (sl_month (ps_salaries st ! i)) (sl_year (ps_salaries st ! i)) (en_fiscalYearStartMonth en))
          (member_regime m) u")
      (simp only: prod.case d, rule agree_put_system, simp only: d assms)
qed

lemma agree_reverse_system: "agree S D E st \<Longrightarrow> agree S (D \<union> {i}) E (reverse_system ws i cat reason st)"
  using agree_put_system[of S D E st i ws cat undefined "Inr reason"] by (simp add: put_system_def)

lemma agree_statutory_some:
  assumes "agree (en_sum en) D E st" "\<not> is_locked st i" "en_statutory en = Some c"
  shows "\<exists>st'. applyStatutoryDeductions en ws i m st = (Inr (), st') \<and> agree (en_sum en) (D - {i}) (E - {i}) st'"
proof -
  define d u where "d = ps_salaries st ! i" and "u = coalesce (sl_updatedBy d) (coalesce (sl_createdBy d) (pm_id m))"
  define st1 where "st1 = statutory_rows en c ws i m u st"
  define st2 where "st2 = (if tds_applies c m then tds_step en ws i m u st1
                      else reverse_system ws i ''tds_employee'' ''TDS not applicable'' st1)"
  have a1: "agree (en_sum en) (D \<union> {i}) E st1" unfolding st1_def by (rule agree_statutory_rows[OF assms(1)])
  then have a2: "agree (en_sum en) (D \<union> {i}) E st2"
    using agree_tds[OF a1, of i en ws m u] agree_reverse_system[OF a1, of i] by (simp add: st2_def insert_absorb)
  have "ps_salaries st2 = ps_salaries st" by (simp add: st2_def st1_def)
  then have "\<not> is_locked st2 i" using assms(2) is_locked_cong by blast
  then obtain st' where r: "recalculateSalaryFromAdjustments en i None False st2 = (Inr (), st')"
    using recalc_unlocked[of False st2 i en None] by auto
  have "applyStatutoryDeductions en ws i m st = (Inr (), st')"
    using r unfolding applyStatutoryDeductions_def assms(3) option.case Let_def d_def[symmetric] u_def[symmetric]
      st1_def[symmetric] st2_def[symmetric] .
  moreover have "agree (en_sum en) (D - {i}) (E - {i}) st'" using agree_recalc[OF a2 r] by (rule agree_mono) auto
  ultimately show ?thesis by blast
qed

lemma agree_statutory:
  assumes "agree (en_sum en) D E st" "\<not> is_locked st i"
  shows "\<exists>st'. applyStatutoryDeductions en ws i m st = (Inr (), st') \<and> agree (en_sum en) D E st'"
proof (cases "en_statutory en")
  case None
  then show ?thesis using assms by (simp add: applyStatutoryDeductions_def)
next
  case (Some c)
  then show ?thesis using agree_statutory_some[OF assms] agree_mono Diff_subset by metis
qed

lemma agree_auto_deductions:
  assumes "agree S D E st"
  shows "agree S (D \<union> {i}) E (applyAdvanceAutoDeductions ws i st)"
proof -
  have r: "agree S (D \<union> {i}) E (recover_advance ws i j s)" if s: "agree S (D \<union> {i}) E s" for s j
  proof -
    define a where "a = ps_advances s ! j"
    define amount where "amount = roundCurrency (jdiv (coalesce (av_approvedAmount a) 0) 100)"
    define row where "row = new_adjustment (ps_salaries s ! i) i ws Deduction ''advance_recovery'' amount System (sl_teamMemberId (ps_salaries s ! i))"
    have "aj_salaryId row = i" by (simp add: row_def new_adjustment_def)
    then have 1: "agree S (D \<union> {i}) E (s\<lparr>ps_adjustments := ps_adjustments s @ [row]\<rparr>)"
      using agree_add_row[OF s, of row] by (simp add: add_adjustment_def)
    have "agree S (D \<union> {i}) E (s\<lparr>ps_adjustments := ps_adjustments s @ [row], ps_advances := x\<rparr>)" for x
      using 1 agree_cong[of "s\<lparr>ps_adjustments := ps_adjustments s @ [row], ps_advances := x\<rparr>" "s\<lparr>ps_adjustments := ps_adjustments s @ [row]\<rparr>"]
      by simp
    then show ?thesis using s
      by (simp add: recover_advance_def Let_def a_def[symmetric] amount_def[symmetric] row_def[symmetric])
  qed
  have "agree S (D \<union> {i}) E (fold (recover_advance ws i) js s)" if "agree S (D \<union> {i}) E s" for js s
    using that by (induction js arbitrary: s) (simp_all add: r[simplified])
  moreover have "agree S (D \<union> {i}) E st" by (rule agree_mono[OF assms]) auto
  ultimately show ?thesis unfolding applyAdvanceAutoDeductions_def by blast
qed

lemma locked_update_salary: "(\<And>d. sl_isLocked (f d) = sl_isLocked d) \<Longrightarrow> is_locked (update_salary k f st) i = is_locked st i"
  by (cases "k = i") (auto simp: is_locked_def salary_at_def nth_doc_def update_salary_def)

lemma locked_sync [simp]: "is_locked (syncSalaryStatus k st) i = is_locked st i"
  unfolding syncSalaryStatus_def by (rule locked_update_salary) simp

lemma locked_recalc: "recalculateSalaryFromAdjustments en k u skip st = (r, st') \<Longrightarrow> is_locked st' i = is_locked st i"
  by (auto simp: recalculateSalaryFromAdjustments_def locked_update_salary split: if_splits)

lemma agree_settle:
  assumes "agree (en_sum en) D E st" "\<not> is_locked st i"
  shows "agree (en_sum en) (D - {i}) (E - {i}) (snd (settle_record en ws tm i u st))"
proof -
  let ?a = "applyAdvanceAutoDeductions ws i st"
  have nl: "\<not> is_locked ?a i" using assms(2) is_locked_cong[of ?a st i] by simp
  then obtain st2 where r: "recalculateSalaryFromAdjustments en i u False ?a = (Inr (), st2)"
    using recalc_unlocked[of False ?a i en u] by auto
  have 2: "agree (en_sum en) (D - {i}) (E - {i}) st2"
    using agree_recalc[OF agree_auto_deductions[OF assms(1)] r] by (rule agree_mono) auto
  have nl2: "\<not> is_locked st2 i" using locked_recalc[OF r] nl by simp
  show ?thesis
  proof (cases "find_member st2 tm")
    case None
    then show ?thesis using 2 r by (simp add: settle_record_def)
  next
    case (Some m)
    obtain st3 where "applyStatutoryDeductions en ws i m st2 = (Inr (), st3)" "agree (en_sum en) (D - {i}) (E - {i}) st3"
      using agree_statutory[OF 2 nl2] by blast
    then show ?thesis using Some r by (simp add: settle_record_def)
  qed
qed

lemma agree_ensure:
  assumes "agree (en_sum en) D E st"
  shows "agree (en_sum en) D E (snd (ensureSalaryRecord en ws tm month year u st))"
proof (cases "find_salary st ws tm month year")
  case (Some i)
  show ?thesis
  proof (cases "is_locked st i")
    case True
    then show ?thesis using Some assms by (simp add: ensureSalaryRecord_def)
  next
    case False
    obtain q st1 where q: "refresh_piece en ws tm i st = (q, st1)" by force
    have a: "agree (en_sum en) (D \<union> {i}) (E \<union> {i}) st1" "\<not> is_locked st1 i"
      using q agree_update_salary[OF assms, of i] agree_mono[OF assms, of "D \<union> {i}" "E \<union> {i}"] False
      by (auto simp: refresh_piece_def Let_def locked_update_salary split: option.splits if_splits sum.splits)
    show ?thesis
    proof (cases q)
      case (Inl e)
      then have "st1 = st" using q by (auto simp: refresh_piece_def Let_def split: option.splits if_splits sum.splits)
      then show ?thesis using Some False q Inl assms by (simp add: ensureSalaryRecord_def)
    next
      case (Inr x)
      have "agree (en_sum en) D E (snd (settle_record en ws tm i u st1))"
        using agree_settle[OF a] by (rule agree_mono) auto
      then show ?thesis using Some False q Inr by (simp add: ensureSalaryRecord_def)
    qed
  qed
next
  case None
  obtain q st1 where q: "buildSalaryRecordData en ws tm month year 0 0 st = (q, st1)" by force
  then have "st1 = applyPendingIncrement ws tm month year st" by (rule build_frame)
  then have 1: "agree (en_sum en) D E st1"
    using assms agree_cong[of st1 st] by (auto simp: applyPendingIncrement_def split: option.splits)
  show ?thesis
  proof (cases q)
    case (Inl e)
    then show ?thesis using None q 1 by (simp add: ensureSalaryRecord_def)
  next
    case (Inr d)
    let ?n = "length (ps_salaries st1)"
    let ?s = "st1\<lparr>ps_salaries := ps_salaries st1 @ [new_salary ws tm month year d u]\<rparr>"
    have "agree (en_sum en) (D \<union> {?n}) (E \<union> {?n}) ?s"
      using 1 by (auto simp: agree_def data_ok_def status_ok_def sumPaidAmountForSalary_def nth_append less_Suc_eq)
    moreover have "\<not> is_locked ?s ?n" by (simp add: is_locked_def salary_at_def nth_doc_def new_salary_def)
    ultimately have "agree (en_sum en) (D \<union> {?n} - {?n}) (E \<union> {?n} - {?n}) (snd (settle_record en ws tm ?n u ?s))"
      by (rule agree_settle)
    then have "agree (en_sum en) D E (snd (settle_record en ws tm ?n u ?s))" by (rule agree_mono) auto
    then show ?thesis using None q Inr by (simp add: ensureSalaryRecord_def Let_def)
  qed
qed

section \<open>Recovering advances\<close>

lemma agree_pass:
  assumes "agree S D E (snd r)" "\<And>x st. r = (Inr x, st) \<Longrightarrow> agree S D E st \<Longrightarrow> agree S D E (snd (f x st))"
  shows "agree S D E (snd (and_then r f))"
  using assms by (cases r) (auto simp: and_then_def split: sum.split)

lemma agree_deduction:
  assumes "agree (en_sum en) D E st"
  shows "agree (en_sum en) D E (snd (createAdvanceRecoveryDeduction en ws tm month year amount p u plan st))"
proof (cases "amount \<le> 0")
  case True
  then show ?thesis using assms by (simp add: createAdvanceRecoveryDeduction_def)
next
  case False
  have step: "agree (en_sum en) D E (snd (recalculateSalaryFromAdjustments en i v True (add_adjustment row s)))"
    if s: "agree (en_sum en) D E s" and i: "aj_salaryId row = i" for row v s i
  proof -
    obtain s' where r: "recalculateSalaryFromAdjustments en i v True (add_adjustment row s) = (Inr (), s')"
      using recalc_unlocked[of True "add_adjustment row s" i en v] by auto
    show ?thesis using agree_recalc[OF agree_add_row[OF s] r] unfolding r snd_conv i by (rule agree_mono) auto
  qed
  show ?thesis using False unfolding createAdvanceRecoveryDeduction_def Let_def
    by simp (rule agree_pass[OF agree_ensure[OF assms]], simp add: step new_adjustment_def)
qed

lemma agree_update_adjustment:
  assumes "agree S D E st" "\<And>a. aj_salaryId (f a) = aj_salaryId a"
  shows "agree S (D \<union> {aj_salaryId (ps_adjustments st ! k)}) E (update_adjustment k f st)"
  unfolding update_adjustment_def by (rule agree_rows[OF assms(1)]) (use assms(2) total_update in auto)

lemma reversed_salary [simp]: "aj_salaryId (reversed u r a) = aj_salaryId a"
  by (simp add: reversed_def)

lemma agree_outside: "agree S (D \<union> {i}) E st \<Longrightarrow> length (ps_salaries st) \<le> i \<Longrightarrow> agree S D E st"
  by (auto simp: agree_def)

lemma agree_reverse_doc:
  assumes "agree (en_sum en) D E st"
  shows "agree (en_sum en) D E (snd (reverseAdjustmentDoc en u r k st))"
proof -
  let ?s = "update_adjustment k (reversed u r) st" and ?i = "aj_salaryId (ps_adjustments st ! k)"
  have 1: "agree (en_sum en) (D \<union> {?i}) E ?s" by (rule agree_update_adjustment[OF assms]) simp
  obtain s' where c: "recalculateSalaryFromAdjustments en ?i (Some u) True ?s = (Inr (), s')"
    using recalc_unlocked[of True ?s ?i en "Some u"] by auto
  have "agree (en_sum en) D E s'" using agree_recalc[OF 1 c] by (rule agree_mono) auto
  moreover have "salary_at ?s ?i = None \<Longrightarrow> agree (en_sum en) D E ?s"
    using agree_outside[OF 1] by (simp add: salary_at_def nth_doc_def split: if_splits)
  ultimately show ?thesis using c by (simp add: reverseAdjustmentDoc_def Let_def)
qed

interpretation books: plan_invariant "agree (en_sum en) D E" en for D E en
proof (unfold_locales, goal_cases)
  case (4 st d)
  moreover have "agree (en_sum en) D E (st\<lparr>ps_plans := d\<rparr>) = agree (en_sum en) D E st" by (rule agree_cong) simp_all
  ultimately show ?case by simp
qed (simp_all add: agree_ensure agree_deduction agree_reverse_doc)

lemma agree_plan: "agree (en_sum en) D E st \<Longrightarrow> agree (en_sum en) D E (snd (createAdvanceRecoveryPlan en q st))"
  by (rule books.create_plan)

section \<open>Recording a payment\<close>

lemma paid_links:
  assumes "\<And>d. py_salaryId (f d) = py_salaryId d" "\<And>d. py_active (f d) = py_active d"
    "\<And>d. py_amount (f d) = py_amount d" "\<And>d. py_commission (f d) = py_commission d"
  shows "sumPaidAmountForSalary (update_payment p f st) i = sumPaidAmountForSalary st i"
proof -
  let ?P = "\<lambda>x. py_salaryId x = i \<and> py_active x" and ?g = "\<lambda>sum x. jadd (jadd sum (py_amount x)) (py_commission x)"
  have "foldl ?g s (filter ?P (xs[p := f (xs ! p)])) = foldl ?g s (filter ?P xs)" for s xs
    by (induction xs arbitrary: p s) (use assms in \<open>auto split: nat.split\<close>)
  then show ?thesis by (simp add: sumPaidAmountForSalary_def update_payment_def)
qed

lemma agree_links:
  assumes "\<And>d. py_salaryId (f d) = py_salaryId d" "\<And>d. py_active (f d) = py_active d"
    "\<And>d. py_amount (f d) = py_amount d" "\<And>d. py_commission (f d) = py_commission d" "agree S D E st"
  shows "agree S D E (update_payment p f st)"
  using assms(5) paid_links[OF assms(1-4)] by (simp add: agree_def data_ok_def status_ok_def) (simp add: update_payment_def)

lemma agree_schedule:
  assumes "agree (en_sum en) D E st"
  shows "agree (en_sum en) D E (snd (schedule_recovery en ws u dto tm p adv st))"
  unfolding schedule_recovery_def
  by (auto simp del: snd_and_then split: option.split
      intro!: agree_pass agree_plan agree_deduction agree_links assms)

lemma agree_save_payment:
  assumes "agree S D E st"
  shows "agree S D (E \<union> {py_salaryId p}) (save_payment p linked st)"
proof -
  let ?g = "\<lambda>(k, a). if k \<in> set linked then a\<lparr>aj_linkedPaymentId := Some (length (ps_payments st))\<rparr> else a"
  have u: "map aj_amount (filter (\<lambda>a. aj_salaryId a = i \<and> aj_active a \<and> aj_category a \<noteq> ''loan_perquisite'' \<and> aj_type a = ty)
        (map ?g (enumerate n rs)))
      = map aj_amount (filter (\<lambda>a. aj_salaryId a = i \<and> aj_active a \<and> aj_category a \<noteq> ''loan_perquisite'' \<and> aj_type a = ty) rs)"
    for i ty n rs by (induction rs arbitrary: n) simp_all
  then have t: "total_of S (map ?g (enumerate 0 rs)) i ty = total_of S rs i ty" for rs i ty
    unfolding total_of_def by (simp only: u)
  show ?thesis using assms
    by (auto simp: save_payment_def agree_def data_ok_def status_ok_def sumPaidAmountForSalary_def t)
qed

lemma agree_settle_payment:
  assumes "agree (en_sum en) D E st" "settle_payment en ws i u dto parts st = (Inr k, st')"
  shows "agree (en_sum en) D E st'"
proof -
  let ?p = "payment_of en ws i u dto (sl_teamMemberId (ps_salaries st ! i)) (pp_advance parts)"
  let ?r = "schedule_recovery en ws u dto (sl_teamMemberId (ps_salaries st ! i)) (length (ps_payments st)) (pp_advance parts)
      (save_payment ?p (pp_linked parts) st)"
  have "agree (en_sum en) D (E \<union> {i}) (save_payment ?p (pp_linked parts) st)"
    using agree_save_payment[OF assms(1), of ?p "pp_linked parts"] by (simp add: payment_of_def)
  then have 1: "agree (en_sum en) D (E \<union> {i}) (snd ?r)" by (rule agree_schedule)
  have "st' = syncSalaryStatus i (snd ?r)"
    using assms(2) by (cases ?r; cases "fst ?r") (auto simp: settle_payment_def Let_def)
  then show ?thesis using agree_sync[OF 1, of i] by (auto intro: agree_mono)
qed

lemma agree_linked_addition:
  assumes "agree S D E st"
  shows "agree S (D \<union> {i}) E (snd (createPaymentLinkedAddition ws i u amount cat st))"
  using agree_add_row[OF assms, of "new_adjustment (ps_salaries st ! i) i ws Addition cat amount Payment_recording u"]
    agree_mono[OF assms, of "D \<union> {i}" E]
  by (auto simp: createPaymentLinkedAddition_def new_adjustment_def)

lemma agree_linked_additions:
  assumes "agree (en_sum en) D E st" "linked_additions en ws i u dto st = (Inr parts, st')"
  shows "agree (en_sum en) D E st'"
proof -
  define c where "c = max 0 (coalesce (pi_commission dto) 0)"
  define x where "x = max 0 (jsub (pi_amount dto) (max 0 (jsub (sd_netSalary (sl_data (ps_salaries st ! i))) (sumPaidAmountForSalary st i))))"
  obtain l1 st1 where r1: "(if c > 0 then createPaymentLinkedAddition ws i u c ''commission'' st else ([], st)) = (l1, st1)" by force
  obtain l2 st2 where r2: "createPaymentLinkedAddition ws i u x ''other'' st1 = (l2, st2)" by force
  obtain m y where my: "following_month (sl_month (ps_salaries st ! i)) (sl_year (ps_salaries st ! i)) = (m, y)" by force
  have a1: "agree (en_sum en) (D \<union> {i}) E st1"
    using agree_linked_addition[OF assms(1), of i ws u c "''commission''"] agree_mono[OF assms(1), of "D \<union> {i}" E] r1
    by (auto split: if_splits)
  have a2: "agree (en_sum en) (D \<union> {i}) E st2"
    using agree_linked_addition[OF a1, of i ws u x "''other''"] r2 by simp
  have restored: "agree (en_sum en) D E s'"
    if "recalculateSalaryFromAdjustments en i (Some u) False s = (Inr q, s')" "agree (en_sum en) (D \<union> {i}) E s" for q s s'
    using agree_recalc[OF that(2,1)] by (rule agree_mono) auto
  have "c \<le> 0 \<Longrightarrow> st1 = st" using r1 by (simp add: not_less[symmetric])
  then show ?thesis using assms a1 a2
    unfolding linked_additions_def Let_def c_def[symmetric] x_def[symmetric] r1 prod.case r2 my
    by (auto simp: and_then_def dest: restored split: if_splits prod.splits sum.splits)
qed

definition avoids :: "salary_error set \<Rightarrow> 'a pay \<Rightarrow> bool" where
  \<comment> \<open>none of these errors is reported\<close>
  "avoids X r \<longleftrightarrow> (\<forall>e\<in>X. fst r \<noteq> Inl e)"

definition late_errors :: "salary_error set" where
  \<comment> \<open>of the repeated payment and of the compliance guard\<close>
  "late_errors = insert Duplicate_payment (range Compliance_breach)"

lemma late_iff [simp]: "e \<in> late_errors \<longleftrightarrow> (case e of Duplicate_payment \<Rightarrow> True | Compliance_breach _ \<Rightarrow> True | _ \<Rightarrow> False)"
  by (cases e) (auto simp: late_errors_def)

lemma avoids_simps [simp]: "avoids X (Inr x, st)" "avoids X (Inl e, st) \<longleftrightarrow> e \<notin> X"
  by (auto simp: avoids_def)

lemma avoids_and_then [intro!]: "avoids X r \<Longrightarrow> (\<And>x st. avoids X (f x st)) \<Longrightarrow> avoids X (and_then r f)"
  by (cases r) (auto simp: avoids_def and_then_def split: sum.split)

lemma avoids_recalc [simp]: "avoids late_errors (recalculateSalaryFromAdjustments en i u skip st)"
  by (simp add: recalculateSalaryFromAdjustments_def)

lemma avoids_statutory [simp]: "avoids late_errors (applyStatutoryDeductions en ws i m st)"
  by (simp add: applyStatutoryDeductions_def Let_def split: option.split)

lemma piece_errors: "computePieceRateEarnings en ws m month year = Inl e \<Longrightarrow> e \<notin> late_errors"
  by (auto simp: computePieceRateEarnings_def split: if_splits option.splits)

lemma avoids_ensure [simp]: "avoids late_errors (ensureSalaryRecord en ws tm month year u st)"
proof -
  have s: "avoids late_errors (settle_record en ws tm i u st1)" for i st1
    unfolding settle_record_def by (auto split: option.split)
  have r: "avoids late_errors (refresh_piece en ws tm i st)" for i
    by (auto simp: refresh_piece_def Let_def dest: piece_errors split: option.split sum.split)
  have b: "avoids late_errors (buildSalaryRecordData en ws tm month year x y st)" for x y
    by (auto simp: buildSalaryRecordData_def Let_def dest: piece_errors split: option.split sum.split prod.split)
  show ?thesis unfolding ensureSalaryRecord_def
    by (auto simp: Let_def s r b split: option.split)
qed

lemma avoids_deduction [simp]: "avoids late_errors (createAdvanceRecoveryDeduction en ws tm month year amount p u plan st)"
  unfolding createAdvanceRecoveryDeduction_def Let_def by auto

lemma avoids_linked [simp]: "avoids late_errors (linked_additions en ws i u dto st)"
  unfolding linked_additions_def Let_def by (auto split: prod.split)

lemma avoids_mono: "avoids X r \<Longrightarrow> Y \<subseteq> X \<Longrightarrow> avoids Y r"
  by (auto simp: avoids_def)

lemma no_duplicate [simp]: "avoids late_errors r \<Longrightarrow> avoids {Duplicate_payment} r"
  by (erule avoids_mono) (simp add: late_errors_def)

lemma avoids_validate [simp]: "avoids {Duplicate_payment} (validate_month en q m planned carry schedule w st)"
  unfolding validate_month_def Let_def
  by (rule avoids_and_then) (auto simp: applyComplianceGuard_def Let_def split: sum.split if_splits)

lemma avoids_first_pass [simp]: "avoids {Duplicate_payment} (first_pass en q m planned st)"
proof -
  have "avoids {Duplicate_payment} (validate_installments en q m n ps w s)" for n ps w s by (induction ps arbitrary: w s) auto
  moreover have "avoids {Duplicate_payment} (validate_carries en q m n w s)" for n w s by (induction n arbitrary: w s) auto
  ultimately show ?thesis unfolding first_pass_def by auto
qed

lemma avoids_second_pass [simp]: "avoids late_errors (second_pass en q planId vs st)"
  by (induction vs arbitrary: st) auto

lemma avoids_schedule [simp]: "avoids {Duplicate_payment} (schedule_recovery en ws u dto tm p adv st)"
proof -
  have "avoids {Duplicate_payment} (createAdvanceRecoveryPlan en q s)" for q s
    unfolding createAdvanceRecoveryPlan_def Let_def by (auto split: sum.split option.split)
  then show ?thesis unfolding schedule_recovery_def by (auto split: option.split)
qed

lemma avoids_settle [simp]: "avoids {Duplicate_payment} (settle_payment en ws i u dto parts st)"
  unfolding settle_payment_def Let_def by auto

definition completed :: "'a pay \<Rightarrow> bool" where
  \<comment> \<open>the operation returned, or rejected a repeated payment\<close>
  "completed r \<longleftrightarrow> (case fst r of Inr _ \<Rightarrow> True | Inl e \<Rightarrow> e = Duplicate_payment)"

lemma agree_pay_record:
  assumes "agree (en_sum en) D E st" "completed (pay_record en ws i u dto st)"
  shows "agree (en_sum en) D E (snd (pay_record en ws i u dto st))"
proof -
  let ?cs = "payment_checks en ws i u dto st"
  let ?rest = "\<lambda>parts st1. if list_ex (is_duplicate en i dto) (ps_payments st1) then (Inl Duplicate_payment, st1)
      else settle_payment en ws i u dto parts st1"
  show ?thesis
  proof (cases "pay_record en ws i u dto st = and_then (linked_additions en ws i u dto st) ?rest")
    case False
    then show ?thesis using guarded_cases[of ?cs "and_then (linked_additions en ws i u dto st) ?rest" st] assms(1)
      by (auto simp: pay_record_def)
  next
    case True
    show ?thesis
    proof (cases "linked_additions en ws i u dto st")
      case (Pair r st1)
      show ?thesis
      proof (cases r)
        case (Inl e)
        have "r \<noteq> Inl Duplicate_payment" using avoids_linked[of en ws i u dto st] Pair by (fastforce simp: avoids_def)
        then show ?thesis using assms(2) True Pair Inl by (simp add: completed_def)
      next
        case (Inr parts)
        then have 1: "agree (en_sum en) D E st1" using agree_linked_additions[OF assms(1)] Pair by simp
        obtain q st2 where s: "settle_payment en ws i u dto parts st1 = (q, st2)" by force
        have "q \<noteq> Inl Duplicate_payment" using avoids_settle[of en ws i u dto parts st1] s by (simp add: avoids_def)
        then show ?thesis using 1 True Pair Inr s agree_settle_payment[OF 1] assms(2)
          by (cases q) (auto simp: completed_def)
      qed
    qed
  qed
qed

lemma agree_target:
  "agree (en_sum en) D E st \<Longrightarrow> agree (en_sum en) D E (snd (target_salary en ws u dto st))"
  unfolding target_salary_def
  by (auto intro!: agree_pass agree_ensure split: option.split)

lemma completed_and_then:
  assumes "completed (and_then r f)" "avoids {Duplicate_payment} r"
  obtains x st where "r = (Inr x, st)" "completed (f x st)"
  using assms by (cases r) (auto simp: completed_def and_then_def avoids_def split: sum.splits)

lemma agree_record_payment:
  assumes "agree (en_sum en) D E st" "completed (recordPayment en ws u dto st)"
  shows "agree (en_sum en) D E (snd (recordPayment en ws u dto st))"
proof -
  have "avoids {Duplicate_payment} (target_salary en ws u dto st)" unfolding target_salary_def by (auto split: option.split)
  then obtain i st1 where r: "target_salary en ws u dto st = (Inr i, st1)" and c: "completed (pay_record en ws i u dto st1)"
    using completed_and_then[OF assms(2)[unfolded recordPayment_def]] by blast
  have "agree (en_sum en) D E st1" using agree_target[OF assms(1), of ws u dto] r by simp
  from agree_pay_record[OF this c] show ?thesis by (simp add: recordPayment_def r)
qed

definition all_completed :: "(salary_error + 'a) list \<Rightarrow> bool" where
  "all_completed rs \<longleftrightarrow> (\<forall>r\<in>set rs. case r of Inr _ \<Rightarrow> True | Inl e \<Rightarrow> e = Duplicate_payment)"

lemma agree_record_all:
  "agree (en_sum en) D E st \<Longrightarrow> record_all en ws u dtos st = (rs, st') \<Longrightarrow> all_completed rs \<Longrightarrow> agree (en_sum en) D E st'"
proof (induction dtos arbitrary: st rs st')
  case (Cons dto dtos)
  obtain r st1 where 1: "recordPayment en ws u dto st = (r, st1)" by force
  obtain rs2 st2 where 2: "record_all en ws u dtos st1 = (rs2, st2)" by force
  have "completed (recordPayment en ws u dto st)" "all_completed rs2"
    using Cons.prems(2,3) 1 2 by (auto simp: completed_def all_completed_def)
  then show ?case using agree_record_payment[OF Cons.prems(1), of ws u dto] Cons.IH[OF _ 2] Cons.prems(2) 1 2 by auto
qed simp

section \<open>Adjustments and reversals\<close>

lemma agree_create_adjustment:
  assumes "agree (en_sum en) D E st" "createAdjustment en ws i u dto st = (Inr k, st')"
  shows "agree (en_sum en) D E st'"
proof -
  have "agree (en_sum en) D E s'"
    if "recalculateSalaryFromAdjustments en i (Some u) False (add_adjustment row st) = (Inr x, s')" "aj_salaryId row = i" for row s' x
    using agree_recalc[OF agree_add_row[OF assms(1)] that(1)] unfolding that(2) by (rule agree_mono) auto
  then show ?thesis using assms(2)
    by (auto simp: createAdjustment_def Let_def and_then_def new_adjustment_def split: if_splits option.splits prod.splits sum.splits)
qed

lemma agree_reverse_adjustment:
  assumes "agree (en_sum en) D E st" "reverseAdjustment en ws k u reason st = (Inr x, st')"
  shows "agree (en_sum en) D E st'"
proof -
  let ?s = "update_adjustment k (reversed u (trim reason)) st" and ?i = "aj_salaryId (ps_adjustments st ! k)"
  have "recalculateSalaryFromAdjustments en ?i (Some u) False ?s = (Inr x, st')"
    using assms(2)
    by (auto simp: reverseAdjustment_def Let_def adjustment_of_def nth_doc_def split: if_splits option.splits)
  from agree_recalc[OF agree_update_adjustment[OF assms(1) reversed_salary] this] show ?thesis
    by (rule agree_mono) auto
qed

lemma agree_reverse_docs: "agree (en_sum en) D E st \<Longrightarrow> agree (en_sum en) D E (snd (reverse_docs en u r ks st))"
proof (induction ks arbitrary: st)
  case (Cons k ks)
  show ?case unfolding reverse_docs.simps
    by (rule agree_pass[OF agree_reverse_doc[OF Cons.prems] Cons.IH])
qed simp

lemma agree_reverse_entries: "agree (en_sum en) D E st \<Longrightarrow> agree (en_sum en) D E (snd (reverse_entries en u r es st))"
proof (induction es arbitrary: st)
  case (Cons e es)
  let ?r = "case ie_adjustmentId e of None \<Rightarrow> (Inr (), st)
     | Some k \<Rightarrow> if still_active st k then reverseAdjustmentDoc en u r k st else (Inr (), st)"
  have 1: "agree (en_sum en) D E (snd ?r)" using Cons.prems agree_reverse_doc[OF Cons.prems] by (simp split: option.split)
  have "agree (en_sum en) D E (snd (and_then ?r (\<lambda>_ st1. and_then (reverse_entries en u r es st1)
      (\<lambda>es' st2. (Inr (e\<lparr>ie_status := Reversed_entry\<rparr> # es'), st2)))))"
    by (rule agree_pass[OF 1]) (simp add: Cons.IH)
  then show ?case using Cons.IH[OF Cons.prems] by simp
qed simp

lemma agree_reverse_recovery:
  assumes "agree (en_sum en) D E st"
  shows "agree (en_sum en) D E (snd (reverse_recovery en u r p st))"
proof -
  have c: "agree S D E (s\<lparr>ps_plans := x\<rparr>) = agree S D E s" for S s x by (rule agree_cong) simp_all
  have "agree (en_sum en) D E (snd (reverse_plan en u r plan st))" for plan
    using assms unfolding reverse_plan_def
    by (auto split: option.split) (rule agree_pass[OF agree_reverse_entries[OF assms]], simp add: c)
  then show ?thesis using assms by (simp add: reverse_recovery_def agree_reverse_doc split: option.split)
qed

lemma agree_reversed_payment:
  assumes "agree S D E st" "py_salaryId (f (ps_payments st ! p)) = py_salaryId (ps_payments st ! p)"
  shows "agree S D (E \<union> {py_salaryId (ps_payments st ! p)}) (update_payment p f st)"
proof -
  have "sumPaidAmountForSalary (update_payment p f st) i = sumPaidAmountForSalary st i"
    if "i \<noteq> py_salaryId (ps_payments st ! p)" for i
    unfolding sumPaidAmountForSalary_def update_payment_def
    by simp (subst filter_update_irrelevant, use that assms(2) in auto)
  then show ?thesis using assms(1)
    by (simp add: agree_def data_ok_def status_ok_def) (simp add: update_payment_def)
qed

lemma agree_reverse_payment:
  assumes "agree (en_sum en) D E st" "wf_store st" "reversePayment en ws p u reason st = (Inr x, st')"
  shows "agree (en_sum en) D E st'"
proof -
  let ?f = "\<lambda>x. x\<lparr>py_active := False, py_reversedBy := Some u, py_reversalReason := Some (trim reason)\<rparr>"
  let ?st1 = "update_payment p ?f st" and ?d = "ps_payments st ! p"
  have d: "p < length (ps_payments st)" "py_workspaceId ?d = ws"
    using assms(3) by (auto simp: reversePayment_def nth_doc_def split: option.splits if_splits)
  let ?docs = "reverse_docs en u (trim reason) (linked_rows ?st1 p) ?st1"
  have "agree (en_sum en) D (E \<union> {py_salaryId ?d}) ?st1" by (rule agree_reversed_payment[OF assms(1)]) simp
  then have 2: "agree (en_sum en) D (E \<union> {py_salaryId ?d}) (snd ?docs)" by (rule agree_reverse_docs)
  have "history st ?st1" by (rule hist.update_payment_inv[OF history_refl]) (simp add: same_payment_def)
  then have h2: "history st (snd ?docs)" by (rule hist.reverse_docs_inv)
  let ?rec = "reverse_recovery en u (trim reason) ?d (snd ?docs)"
  have 3: "agree (en_sum en) D (E \<union> {py_salaryId ?d}) (snd ?rec)" by (rule agree_reverse_recovery[OF 2])
  have h3: "history st (snd ?rec)" by (rule hist.reverse_recovery_inv[OF h2])
  have "owned st ws (py_salaryId ?d)"
    using assms(2) d by (auto simp: wf_store_def payment_ok_def owned_iff)
  then have "owned (snd ?rec) ws (py_salaryId ?d)" using h3 by (auto simp: history_def owned_def nth_append)
  then have s: "salary_of (snd ?rec) ws (py_salaryId ?d) \<noteq> None"
    by (simp add: owned_iff salary_of_def salary_at_def nth_doc_def)
  have "recalculateSalaryFromAdjustments en (py_salaryId ?d) (Some u) False (snd ?rec) = (Inr x, st')"
    using assms(3) d s
    by (cases ?docs; cases "fst ?docs"; cases ?rec; cases "fst ?rec")
      (simp_all add: reversePayment_def nth_doc_def Let_def split: if_splits)
  from agree_recalc[OF 3 this] show ?thesis by (rule agree_mono) auto
qed

lemma agree_flags:
  assumes "agree S D E st" "\<And>d. sl_data (f d) = sl_data d" "\<And>d. sl_status (f d) = sl_status d"
  shows "agree S D E (update_salary i f st)"
  unfolding agree_def
proof (intro allI impI)
  fix j assume j: "j < length (ps_salaries (update_salary i f st))"
  then show "(j \<notin> D \<longrightarrow> data_ok S (update_salary i f st) j) \<and> (j \<notin> E \<longrightarrow> status_ok (update_salary i f st) j)"
    using assms by (cases "i = j") (auto simp: agree_def data_ok_def status_ok_def salaries_update_salary)
qed

lemma agree_lock:
  assumes "agree (en_sum en) D E st" "lockSalaryRecord en ws i u st = (Inr x, st')" "en_statutory en \<noteq> None"
  shows "agree (en_sum en) D E st'"
proof -
  obtain d where d: "salary_of st ws i = Some d" "\<not> sl_isLocked d"
    using assms(2) by (auto simp: lockSalaryRecord_def split: option.splits if_splits)
  then have l: "\<not> is_locked st i" by (auto simp: is_locked_def salary_of_def split: option.splits if_splits)
  have piece: "\<exists>s. q = (Inr (), s) \<and> agree (en_sum en) D E s \<or> (\<exists>e. q = (Inl e, s))" if "q = recomputePieceRateForSalary en i m u st" for m q
  proof -
    let ?f = "\<lambda>p d. d\<lparr>sl_data := (sl_data d)\<lparr>sd_piece := Some p\<rparr>, sl_updatedBy := Some u\<rparr>"
    obtain c where c: "en_statutory en = Some c" using assms(3) by auto
    have "\<exists>s. applyStatutoryDeductions en ws' i m (update_salary i (?f p) st) = (Inr (), s) \<and> agree (en_sum en) D E s" for ws' p
    proof -
      have "\<not> is_locked (update_salary i (?f p) st) i" using l by (simp add: locked_update_salary)
      from agree_statutory_some[OF agree_update_salary[OF assms(1)] this c, of ws' m]
      show ?thesis by (auto intro: agree_mono)
    qed
    then show ?thesis unfolding that recomputePieceRateForSalary_def Let_def by (auto split: sum.split) blast
  qed
  let ?q = "case find_member st (sl_teamMemberId d) of
      Some m \<Rightarrow> if pm_salaryType m = Some Piece_rate then recomputePieceRateForSalary en i m u st else (Inr (), st)
    | None \<Rightarrow> (Inr (), st)"
  let ?g = "\<lambda>d. d\<lparr>sl_isLocked := True, sl_lockedBy := Some u, sl_lockedAt := Some (en_now en), sl_updatedBy := Some u\<rparr>"
  have q: "\<exists>s. ?q = (Inr (), s) \<and> agree (en_sum en) D E s \<or> (\<exists>e. ?q = (Inl e, s))"
    using assms(1) piece by (auto split: option.split)
  have "and_then ?q (\<lambda>_ st1. (Inr (), update_salary i ?g st1)) = (Inr x, st')"
    using assms(2) d unfolding lockSalaryRecord_def by (simp split: if_splits)
  with q obtain s where "agree (en_sum en) D E s" "st' = update_salary i ?g s" by (auto simp: and_then_def)
  then show ?thesis by (simp add: agree_flags)
qed

lemma agree_unlock:
  assumes "agree S D E st" "unlockSalaryRecord en ws i u st = (Inr x, st')"
  shows "agree S D E st'"
  using assms by (auto simp: unlockSalaryRecord_def agree_flags split: option.splits if_splits)

section \<open>A base salary and advance requests\<close>

lemma agree_update_record:
  assumes "agree (en_sum en) D E st" "updateSalaryRecord en ws i base actor st = (Inr x, st')"
  shows "agree (en_sum en) D E st'"
proof -
  let ?f = "\<lambda>d. d\<lparr>sl_data := (sl_data d)\<lparr>sd_baseSalary := coalesce base (sd_baseSalary (sl_data d))\<rparr>\<rparr>"
  have "recalculateSalaryFromAdjustments en i actor False (update_salary i ?f st) = (Inr x, st')"
    using assms(2) by (auto simp: updateSalaryRecord_def split: option.splits if_splits)
  from agree_recalc[OF agree_update_salary[OF assms(1)] this] show ?thesis by (rule agree_mono) auto
qed

lemma agree_advances: "agree S D E (st\<lparr>ps_advances := c\<rparr>) = agree S D E st"
  by (rule agree_cong) simp_all

lemma agree_move: "agree S D E st \<Longrightarrow> agree S D E (snd (move_request status ws k f st))"
  by (simp add: move_request_def update_advance_def agree_advances split: option.split)

lemma agree_create_request: "agree S D E st \<Longrightarrow> agree S D E (snd (createRequest en ws u tm ri st))"
  by (simp add: createRequest_def agree_advances split: prod.split)

lemma agree_verify: "agree S D E st \<Longrightarrow> agree S D E (snd (verifyRequest ws k u tm st))"
  by (simp add: verifyRequest_def update_advance_def agree_advances split: option.split)

section \<open>The books agree\<close>

inductive settled_step :: "(rat list \<Rightarrow> rat) \<Rightarrow> pay_store \<Rightarrow> pay_store \<Rightarrow> bool" where
  \<comment> \<open>an operation that was not interrupted by an exception after its first write\<close>
  settled_ensure: "settled_step (en_sum en) st (snd (ensureSalaryRecord en ws tm month year u st))"
| settled_adjust: "createAdjustment en ws i u dto st = (Inr k, st') \<Longrightarrow> 0 \<le> ai_amount dto \<Longrightarrow> settled_step (en_sum en) st st'"
| settled_reverse: "reverseAdjustment en ws k u reason st = (Inr x, st') \<Longrightarrow> settled_step (en_sum en) st st'"
| settled_pay: "recordPayment en ws u dto st = r \<Longrightarrow> completed r \<Longrightarrow> settled_step (en_sum en) st (snd r)"
| settled_bulk: "recordBulkPayment en ws u dtos st = (Inr rs, st') \<Longrightarrow> all_completed rs \<Longrightarrow> settled_step (en_sum en) st st'"
| settled_unpay: "reversePayment en ws p u reason st = (Inr x, st') \<Longrightarrow> settled_step (en_sum en) st st'"
| settled_lock: "lockSalaryRecord en ws i u st = (Inr x, st') \<Longrightarrow> en_statutory en \<noteq> None \<Longrightarrow> settled_step (en_sum en) st st'"
| settled_unlock: "unlockSalaryRecord en ws i u st = (Inr x, st') \<Longrightarrow> settled_step (en_sum en) st st'"
| settled_generate: "settled_step (en_sum en) st (snd (generatePayroll en ws month year st))"
| settled_record: "updateSalaryRecord en ws i base actor st = (Inr x, st') \<Longrightarrow> settled_step (en_sum en) st st'"
| settled_edit: "settled_step (en_sum en) st (snd (editAdvanceRecoveryPlan en ws k u edit st))"
| settled_payoff: "settled_step (en_sum en) st (snd (earlyPayoffAdvanceRecoveryPlan en ws k u reason st))"
| settled_request: "settled_step S st (snd (createRequest en ws u tm ri st))"
| settled_approve: "settled_step S st (snd (approve_request ws k u amount st))"
| settled_reject: "settled_step S st (snd (reject_request ws k u st))"
| settled_verify: "settled_step S st (snd (verifyRequest ws k u tm st))"
| settled_elsewhere: "settled_step S st (st\<lparr>ps_members := a, ps_increments := b, ps_declarations := e\<rparr>)"

lemma settled_is_step: "settled_step S st st' \<Longrightarrow> salary_step\<^sup>*\<^sup>* st st'"
  by (induction rule: settled_step.induct)
    (metis salary_step.intros r_into_rtranclp snd_conv)+

lemma agree_elsewhere:
  "agree S D E (st\<lparr>ps_members := a, ps_increments := b, ps_declarations := e\<rparr>) = agree S D E st"
  by (rule agree_cong) simp_all

lemma settled_agree:
  assumes "settled_step S st st'" "wf_store st" "agree S {} {} st"
  shows "agree S {} {} st'"
  using assms
proof (induction rule: settled_step.induct)
  case (settled_bulk en ws u dtos st rs st')
  then have "record_all en ws u dtos st = (rs, st')" by (simp add: recordBulkPayment_def split: if_splits prod.splits)
  then show ?case using settled_bulk agree_record_all by blast
next
  case settled_elsewhere
  then show ?case by (simp add: agree_elsewhere)
next
  case settled_approve
  then show ?case by (simp add: approve_request_def agree_move)
next
  case settled_reject
  then show ?case by (simp add: reject_request_def agree_move)
qed (auto intro: agree_ensure agree_create_adjustment agree_reverse_adjustment agree_record_payment agree_reverse_payment
    agree_lock agree_unlock books.generate agree_update_record books.edit_plan books.payoff agree_create_request agree_verify)

definition record_agrees :: "(rat list \<Rightarrow> rat) \<Rightarrow> pay_store \<Rightarrow> nat \<Rightarrow> bool" where
  \<comment> \<open>totals, net pay and status are the ones of the active rows and payments\<close>
  "record_agrees S st i \<longleftrightarrow> (let r = ps_salaries st ! i; d = sl_data r in
     sd_additions d = total_of S (ps_adjustments st) i Addition
     \<and> sd_deductions d = total_of S (ps_adjustments st) i Deduction
     \<and> sd_netSalary d = roundCurrency (calculateNetSalary (sd_baseSalary d) (sd_totalDays d) (sd_presentDays d)
          (sd_additions d) (sd_deductions d) (piece_part (sd_piece d)))
     \<and> sl_status r = settlement_status (sumPaidAmountForSalary st i) (sd_netSalary d))"

lemma record_agrees_iff: "record_agrees S st i \<longleftrightarrow> data_ok S st i \<and> status_ok st i"
proof -
  have "d = with_rollups a b d \<longleftrightarrow> sd_additions d = a \<and> sd_deductions d = b
      \<and> sd_netSalary d = roundCurrency (calculateNetSalary (sd_baseSalary d) (sd_totalDays d) (sd_presentDays d) a b (piece_part (sd_piece d)))"
    for d a b by (cases d) (auto simp: with_rollups_def)
  then show ?thesis unfolding record_agrees_def data_ok_def status_ok_def Let_def by auto
qed


end
