(* ===== verification/LoanInvariants.thy ===== *)
theory LoanInvariants
  imports LoanRequests SalaryAgree
begin

text \<open>
  What the operations on loans do to the documents of the salary module.  The locale extends
  \<open>plan_invariant\<close> by two laws, for the deduction of an installment and for the row of a perquisite; every
  operation on a loan keeps a predicate with these laws.  Every \<open>store_invariant\<close> has them, and so has the
  agreement of records and rows.
\<close>

lemma single_is_doc: "reverseSingleAdjustment = reverseAdjustmentDoc"
  by (intro ext) (simp add: reverseSingleAdjustment_def reverseAdjustmentDoc_def Let_def)

locale loan_invariant = plan_invariant I "le_pay len" for I and len :: loan_env +
  assumes loan_deducted: "\<And>st ws tm month year amount index u. I st
      \<Longrightarrow> I (snd (createLoanRecoveryAdjustment (le_pay len) ws tm month year amount index u st))"
    and perquisite_added: "\<And>st ws tm month year x u. I st \<Longrightarrow> 0 \<le> x \<Longrightarrow> I (snd (perquisite_row (le_pay len) ws tm month year x u st))"
begin

lemma loan_ensured: "I st \<Longrightarrow> I (snd (in_pay (ensureSalaryRecord (le_pay len) ws tm month year u st)))"
  by (simp add: ensured)

lemma loan_row: "I st \<Longrightarrow> I (snd (in_pay (createLoanRecoveryAdjustment (le_pay len) ws tm month year amount index u st)))"
  by (simp add: loan_deducted)

lemma entry: "I st \<Longrightarrow> I (snd (loan_entry (le_pay len) ws u m i w st))"
  unfolding loan_entry_def Let_def
  by (auto intro!: seq loan_ensured loan_row loan_deducted split: option.split)

lemma entries: "I st \<Longrightarrow> I (snd (loan_entries (le_pay len) ws u m is w st))"
  by (induction "is" arbitrary: w st) (simp_all add: seq entry)

lemma carry: "I st \<Longrightarrow> I (snd (loan_carry (le_pay len) ws u m w st))"
  unfolding loan_carry_def Let_def by (intro seq loan_ensured loan_row) simp_all

lemma loan_carried: "I st \<Longrightarrow> I (snd (loan_carries (le_pay len) ws u m n w st))"
  by (induction n arbitrary: w st) (simp_all add: seq carry)

lemma loan_materialized: "I st \<Longrightarrow> I (snd (materializeLoanInstallments (le_pay len) ws u month year loan st))"
  unfolding materializeLoanInstallments_def
  by (auto intro!: seq entries loan_carried split: option.split)

lemma rematerialized: "I st \<Longrightarrow> I (snd (rematerializeSingleInstallment (le_pay len) ws u i loan st))"
  unfolding rematerializeSingleInstallment_def Let_def
  by (auto intro!: seq loan_ensured loan_row loan_deducted split: option.split)

lemma undone_entry: "I st \<Longrightarrow> I (snd (undo_entry (le_pay len) u r e st))"
  by (auto simp: undo_entry_def single_is_doc intro: undone split: option.split)

lemma reversed_entries: "I st \<Longrightarrow> I (snd (reverse_loan_entries (le_pay len) u r is loan st))"
  by (induction "is" arbitrary: loan st) (simp_all add: seq undone_entry)

lemma reversed_future: "I st \<Longrightarrow> I (snd (reverseFutureLoanAdjustments (le_pay len) u r loan st))"
  unfolding reverseFutureLoanAdjustments_def by (rule reversed_entries)

lemma extended: "I st \<Longrightarrow> I (snd (extend_tenor (le_pay len) ws u e loan st))"
  unfolding extend_tenor_def Let_def by (auto intro: rematerialized split: prod.split)

lemma raised_slots: "I st \<Longrightarrow> I (snd (raise_slots (le_pay len) ws u x n rank is loan st))"
  by (induction "is" arbitrary: rank loan st) (simp_all add: Let_def seq rematerialized)

lemma raised: "I st \<Longrightarrow> I (snd (raise_emi (le_pay len) ws u e is loan st))"
  unfolding raise_emi_def by (auto intro!: seq raised_slots)

section \<open>The handlers\<close>

lemma then_loan: "I (lb_pay (snd r)) \<Longrightarrow> (\<And>x s. I (lb_pay s) \<Longrightarrow> I (lb_pay (snd (f x s)))) \<Longrightarrow> I (lb_pay (snd (and_then r f)))"
  by (cases r) (auto simp: and_then_def split: sum.split)

lemma saved [simp]: "lb_pay (save_loan k loan s) = lb_pay s" "lb_pay (save_loan_request j r s) = lb_pay s"
  by (simp_all add: save_loan_def save_loan_request_def)

lemma guarded_loan: "I (lb_pay s) \<Longrightarrow> I (lb_pay (snd r)) \<Longrightarrow> I (lb_pay (snd (guarded cs r s)))"
  by (simp add: guarded_def split: option.split)

lemma inserted: "I (lb_pay s) \<Longrightarrow> I (lb_pay (snd (insert_loan loan s)))"
  by (simp add: insert_loan_def)

lemma refreshed_loan: "I (lb_pay s) \<Longrightarrow> I (lb_pay (snd (refreshLoanProgress (le_pay len) k loan s)))"
  by (simp add: refreshLoanProgress_def Let_def)

lemma materialized: "I (lb_pay s) \<Longrightarrow> I (lb_pay (snd (materialize len ws u month year k loan s)))"
  unfolding materialize_def by (auto intro!: then_loan loan_materialized)

lemma created: "I (lb_pay s) \<Longrightarrow> I (lb_pay (snd (createLoan len ws u dto s)))"
  unfolding createLoan_def Let_def
  by (auto simp del: guarded_simps simp: guarded_loan intro!: guarded_loan then_loan inserted materialized split: sum.split)

lemma approved: "I (lb_pay s) \<Longrightarrow> I (lb_pay (snd (approveLoan len ws k u approve s)))"
  unfolding approveLoan_def Let_def
  by (auto simp del: guarded_simps intro!: guarded_loan then_loan materialized split: option.split)

lemma skipped: "I (lb_pay s) \<Longrightarrow> I (lb_pay (snd (skipInstallment len ws k u index longer r s)))"
  unfolding skipInstallment_def Let_def
  by (auto intro!: then_loan seq undone_entry reversed_entries extended raised split: option.split)

lemma paused: "I (lb_pay s) \<Longrightarrow> I (lb_pay (snd (pauseLoan len ws k u r s)))"
  unfolding pauseLoan_def Let_def
  by (auto intro!: then_loan refreshed_loan reversed_future split: option.split)

lemma resumed: "I (lb_pay s) \<Longrightarrow> I (lb_pay (snd (resumeLoan len ws k u s)))"
  unfolding resumeLoan_def Let_def
  by (auto intro!: then_loan refreshed_loan materialized split: option.split prod.split)

lemma partly_paid: "I (lb_pay s) \<Longrightarrow> I (lb_pay (snd (partial_payoff len ws k u x loan s)))"
  unfolding partial_payoff_def Let_def
  by (auto intro!: then_loan materialized split: list.split sum.split)

lemma paid_off: "I (lb_pay s) \<Longrightarrow> I (lb_pay (snd (earlyPayoffLoan len ws k u x r s)))"
  unfolding earlyPayoffLoan_def Let_def
  by (auto intro!: then_loan reversed_future partly_paid split: option.split)

lemma topped: "I (lb_pay s) \<Longrightarrow> I (lb_pay (snd (topUpLoan len ws k u dto s)))"
  unfolding topUpLoan_def Let_def
  by (auto simp del: guarded_simps intro!: guarded_loan then_loan reversed_future inserted materialized split: option.split prod.split sum.split)

lemma written_off: "I (lb_pay s) \<Longrightarrow> I (lb_pay (snd (writeOffLoan len ws k u x r s)))"
  unfolding writeOffLoan_def Let_def
  by (auto simp del: guarded_simps intro!: guarded_loan then_loan reversed_future split: option.split)

lemma perquisite: "I (lb_pay s) \<Longrightarrow> I (lb_pay (snd (perquisite_loan len ws u month year dry exempt k tally s)))"
  unfolding perquisite_loan_def Let_def
  by (auto intro!: then_loan perquisite_added)

lemma perquisites: "I (lb_pay s) \<Longrightarrow> I (lb_pay (snd (perquisite_loans len ws u month year dry ks tally s)))"
  by (induction ks arbitrary: tally s) (auto intro!: then_loan perquisite)

lemma month_perquisites: "I (lb_pay s) \<Longrightarrow> I (lb_pay (snd (computeMonthlyPerquisites len ws month year dry u s)))"
  unfolding computeMonthlyPerquisites_def by (rule perquisites)

lemma loaded: "I (lb_pay s) \<Longrightarrow> I (lb_pay (snd (loadPendingRequest ws j s)))"
  by (simp add: loadPendingRequest_def split: option.split)

lemma approved_request: "I (lb_pay s) \<Longrightarrow> I (lb_pay (snd (approveLoanRequest len ws j u dto s)))"
  unfolding approveLoanRequest_def Let_def by (intro then_loan loaded created) simp_all

end

section \<open>Every invariant of the store\<close>

context store_invariant begin

lemma system_row_inv:
  assumes "I st" "0 \<le> amount" "ensureSalaryRecord en ws tm month year u st = (Inr i, st1)"
    "row = (new_adjustment (ps_salaries st1 ! i) i ws ty cat amount System v)\<lparr>aj_teamMemberId := tm, aj_month := month, aj_year := year,
       aj_planInstallmentIndex := index\<rparr>"
  shows "I (snd (recalculateSalaryFromAdjustments en i u2 skip (add_adjustment row st1)))"
proof -
  have "I st1" using ensure_inv[OF assms(1), of en ws tm month year u] assms(3) by simp
  then show ?thesis unfolding add_adjustment_def
    by (intro recalc_inv new_row) (use ensure_id[OF assms(3)] assms(2,4) in \<open>simp_all add: fresh_row_def new_adjustment_def\<close>)
qed

lemma loan_deduction_inv:
  assumes "I st"
  shows "I (snd (createLoanRecoveryAdjustment en ws tm month year amount index u st))"
proof (cases "amount \<le> 0")
  case False
  show ?thesis unfolding createLoanRecoveryAdjustment_def if_not_P[OF False] Let_def
    by (rule and_then_inv[OF ensure_inv[OF assms]], unfold snd_and_then, rule system_row_inv[OF assms])
      (use False in \<open>auto\<close>)
qed (simp add: assms createLoanRecoveryAdjustment_def)

lemma perquisite_inv:
  assumes "I st" "0 \<le> x"
  shows "I (snd (perquisite_row en ws tm month year x u st))"
  unfolding perquisite_row_def Let_def
  by (rule and_then_inv[OF ensure_inv[OF assms(1)]], unfold snd_and_then, rule system_row_inv[OF assms(1,2)])
    (auto simp: new_adjustment_def)

end

sublocale store_invariant \<subseteq> loans: loan_invariant I len for len
  by unfold_locales (simp_all add: loan_deduction_inv perquisite_inv)

section \<open>The agreement of records and rows\<close>

lemma agree_system_row:
  assumes "agree (en_sum en) D E st" "\<And>i s. aj_salaryId (row i s) = i"
  shows "agree (en_sum en) D E (snd (and_then (ensureSalaryRecord en ws tm month year u st) (\<lambda>i st1.
    and_then (recalculateSalaryFromAdjustments en i v True (add_adjustment (row i st1) st1)) (\<lambda>_ st2. (Inr (g st1), st2)))))"
proof -
  have step: "agree (en_sum en) D E (snd (recalculateSalaryFromAdjustments en i v True (add_adjustment (row i s) s)))"
    if s: "agree (en_sum en) D E s" for i s
  proof -
    obtain s' where r: "recalculateSalaryFromAdjustments en i v True (add_adjustment (row i s) s) = (Inr (), s')"
      using recalc_unlocked[of True "add_adjustment (row i s) s" i en v] by auto
    show ?thesis using agree_recalc[OF agree_add_row[OF s] r] unfolding r snd_conv assms(2) by (rule agree_mono) auto
  qed
  show ?thesis by (rule agree_pass[OF agree_ensure[OF assms(1)]]) (simp add: step)
qed

lemma agree_loan_deduction:
  "agree (en_sum en) D E st \<Longrightarrow> agree (en_sum en) D E (snd (createLoanRecoveryAdjustment en ws tm month year amount index u st))"
  unfolding createLoanRecoveryAdjustment_def Let_def
  by (auto simp del: snd_and_then simp: new_adjustment_def intro!: agree_system_row)

lemma agree_perquisite:
  "agree (en_sum en) D E st \<Longrightarrow> agree (en_sum en) D E (snd (perquisite_row en ws tm month year x u st))"
  unfolding perquisite_row_def Let_def
  by (auto simp del: snd_and_then simp: new_adjustment_def intro!: agree_system_row)

interpretation loan_books: loan_invariant "agree (en_sum (le_pay len)) D E" len for D E len
  by unfold_locales (simp_all add: agree_loan_deduction agree_perquisite)

end
