(* ===== verification/LoanHistory.thy ===== *)
theory LoanHistory
  imports LoanInvariants
begin

text \<open>
  What happens to a loan over time.  \<open>loan_change\<close> relates a loan before and after an operation, together
  with the documents of the salary module: the loan keeps its head, its status only moves forward, and
  it gains links to deductions that were written for it meanwhile.  The operations on the loan in
  memory satisfy it; the locale \<open>loan_store_invariant\<close> turns it into an invariant of all handlers.
\<close>

section \<open>Loans before and after\<close>

definition recovery_row :: "string \<Rightarrow> string \<Rightarrow> pay_store \<Rightarrow> nat \<Rightarrow> bool" where
  \<comment> \<open>a deduction for a loan, on a record of the member\<close>
  "recovery_row ws tm st k \<longleftrightarrow> k < length (ps_adjustments st) \<and> (let a = ps_adjustments st ! k in
     aj_category a = ''loan_recovery'' \<and> aj_source a = System \<and> aj_workspaceId a = ws
     \<and> aj_salaryId a < length (ids st) \<and> ids st ! aj_salaryId a = (ws, tm, aj_month a, aj_year a))"

lemma recovery_row_later:
  assumes "recovery_row ws tm st k" "history st st'"
  shows "recovery_row ws tm st' k"
proof -
  have k: "k < length (ps_adjustments st)" "aj_salaryId (ps_adjustments st ! k) < length (ids st)"
    using assms(1) by (simp_all add: recovery_row_def Let_def)
  obtain xs where "ids st' = ids st @ xs" using historyD(1)[OF assms(2)] by blast
  moreover have "same_row (ps_adjustments st ! k) (ps_adjustments st' ! k)" using historyD(3)[OF assms(2) k(1)] .
  ultimately show ?thesis using assms(1) k historyD(2)[OF assms(2)]
    by (simp add: recovery_row_def Let_def same_row_def nth_append)
qed

definition loan_head :: "employer_loan \<Rightarrow> string \<times> string \<times> string \<times> string \<times> rat \<times> int \<times> int \<times> nat option \<times> string" where
  "loan_head l = (lo_workspaceId l, lo_teamMemberId l, lo_loanType l, lo_interestType l, lo_principalAmount l, lo_startMonth l,
     lo_startYear l, lo_supersedes l, lo_createdBy l)"

definition loan_closed :: "employer_loan \<Rightarrow> bool" where
  "loan_closed l \<longleftrightarrow> lo_status l \<in> {''completed'', ''written_off'', ''reversed''}"

definition loan_runs :: "string \<Rightarrow> bool" where
  "loan_runs s \<longleftrightarrow> s = ''active'' \<or> s = ''paused''"

definition loan_moves :: "string \<Rightarrow> string \<Rightarrow> bool" where
  "loan_moves s t \<longleftrightarrow> s = t \<or> loan_runs t \<and> (s = ''pending_approval'' \<or> loan_runs s)
     \<or> (t = ''completed'' \<or> t = ''written_off'') \<and> (s = ''pending_approval'' \<or> loan_runs s)
     \<or> t = ''reversed'' \<and> s = ''pending_approval''"

lemma loan_moves_refl [simp]: "loan_moves s s" by (simp add: loan_moves_def)

lemma runs_not: "loan_runs s \<Longrightarrow> s \<noteq> ''pending_approval'' \<and> s \<noteq> ''completed'' \<and> s \<noteq> ''written_off'' \<and> s \<noteq> ''reversed''"
  by (auto simp: loan_runs_def)

lemma ends_differ: "''completed'' \<noteq> ''pending_approval''" "''written_off'' \<noteq> ''pending_approval''" "''reversed'' \<noteq> ''pending_approval''"
  by simp_all

lemma loan_moves_trans: "loan_moves s t \<Longrightarrow> loan_moves t u \<Longrightarrow> loan_moves s u"
  unfolding loan_moves_def using runs_not[of s] runs_not[of t] runs_not[of u] ends_differ by metis

definition unapproved :: "string \<Rightarrow> bool" where
  "unapproved s \<longleftrightarrow> s = ''pending_approval'' \<or> s = ''reversed''"

lemma unapproved_before: "loan_moves s t \<Longrightarrow> unapproved t \<Longrightarrow> unapproved s"
  unfolding loan_moves_def unapproved_def using runs_not[of t] ends_differ by auto

lemma runs_approved: "loan_runs s \<Longrightarrow> \<not> unapproved s"
  using runs_not[of s] by (auto simp: unapproved_def)

definition entries_linked :: "employer_loan \<Rightarrow> bool" where
  "entries_linked l \<longleftrightarrow> (\<forall>e\<in>set (lo_installments l). set_option (li_adjustmentId e) \<subseteq> set (lo_linkedAdjustmentIds l))"

definition loan_change :: "pay_store \<Rightarrow> employer_loan \<Rightarrow> pay_store \<Rightarrow> employer_loan \<Rightarrow> bool" where
  "loan_change st a p b \<longleftrightarrow> history st p \<and> loan_head b = loan_head a \<and> loan_moves (lo_status a) (lo_status b)
     \<and> (entries_linked a \<longrightarrow> entries_linked b)
     \<and> (unapproved (lo_status b) \<longrightarrow> lo_linkedAdjustmentIds b = lo_linkedAdjustmentIds a)
     \<and> (\<exists>xs. lo_linkedAdjustmentIds b = lo_linkedAdjustmentIds a @ xs \<and> distinct xs
          \<and> (\<forall>k\<in>set xs. length (ps_adjustments st) \<le> k \<and> recovery_row (lo_workspaceId a) (lo_teamMemberId a) p k))"

lemma head_owner: "loan_head b = loan_head a \<Longrightarrow> lo_workspaceId b = lo_workspaceId a \<and> lo_teamMemberId b = lo_teamMemberId a"
  by (simp add: loan_head_def)

lemma unchanged: "history st p \<Longrightarrow> loan_change st a p a"
  by (simp add: loan_change_def)

lemma loan_changeD:
  assumes "loan_change st a p b"
  shows "history st p" "loan_head b = loan_head a" "loan_moves (lo_status a) (lo_status b)" "entries_linked a \<Longrightarrow> entries_linked b"
    "\<exists>xs. lo_linkedAdjustmentIds b = lo_linkedAdjustmentIds a @ xs \<and> distinct xs
          \<and> (\<forall>k\<in>set xs. length (ps_adjustments st) \<le> k \<and> recovery_row (lo_workspaceId a) (lo_teamMemberId a) p k)"
    "unapproved (lo_status b) \<Longrightarrow> lo_linkedAdjustmentIds b = lo_linkedAdjustmentIds a"
  using assms unfolding loan_change_def by blast+

lemma loan_change_trans:
  assumes "loan_change st a p b" "loan_change p b q c"
  shows "loan_change st a q c"
proof -
  note A = loan_changeD[OF assms(1)] and B = loan_changeD[OF assms(2)]
  have o: "lo_workspaceId b = lo_workspaceId a" "lo_teamMemberId b = lo_teamMemberId a" using head_owner[OF A(2)] by simp_all
  obtain xs where x: "lo_linkedAdjustmentIds b = lo_linkedAdjustmentIds a @ xs" "distinct xs"
    "\<forall>k\<in>set xs. length (ps_adjustments st) \<le> k \<and> recovery_row (lo_workspaceId a) (lo_teamMemberId a) p k" using A(5) by blast
  obtain ys where y: "lo_linkedAdjustmentIds c = lo_linkedAdjustmentIds b @ ys" "distinct ys"
    "\<forall>k\<in>set ys. length (ps_adjustments p) \<le> k \<and> recovery_row (lo_workspaceId b) (lo_teamMemberId b) q k" using B(5) by blast
  have xl: "k < length (ps_adjustments p)" if "k \<in> set xs" for k
  proof -
    have "recovery_row (lo_workspaceId a) (lo_teamMemberId a) p k" using x(3) that by blast
    then show ?thesis unfolding recovery_row_def by blast
  qed
  have "set xs \<inter> set ys = {}"
  proof (rule Int_emptyI)
    fix k assume "k \<in> set xs" "k \<in> set ys"
    then have "k < length (ps_adjustments p)" "length (ps_adjustments p) \<le> k" using xl y(3) by blast+
    then show False by simp
  qed
  then have d: "distinct (xs @ ys)" using x(2) y(2) by simp
  have "length (ps_adjustments st) \<le> k \<and> recovery_row (lo_workspaceId a) (lo_teamMemberId a) q k" if "k \<in> set (xs @ ys)" for k
  proof (cases "k \<in> set xs")
    case True
    then show ?thesis using x(3) recovery_row_later[OF _ B(1)] by blast
  next
    case False
    then have "length (ps_adjustments p) \<le> k \<and> recovery_row (lo_workspaceId b) (lo_teamMemberId b) q k" using that y(3) by auto
    then show ?thesis using o historyD(2)[OF A(1)] by simp
  qed
  then have z: "\<exists>zs. lo_linkedAdjustmentIds c = lo_linkedAdjustmentIds a @ zs \<and> distinct zs
          \<and> (\<forall>k\<in>set zs. length (ps_adjustments st) \<le> k \<and> recovery_row (lo_workspaceId a) (lo_teamMemberId a) q k)"
    using d x(1) y(1) by (intro exI[of _ "xs @ ys"]) simp
  have h: "loan_head c = loan_head a" "entries_linked a \<Longrightarrow> entries_linked c" using A B by simp_all
  have n: "unapproved (lo_status c) \<Longrightarrow> lo_linkedAdjustmentIds c = lo_linkedAdjustmentIds a"
    using A(6) B(6) unapproved_before[OF B(3)] by simp
  show ?thesis unfolding loan_change_def
    using history_trans[OF A(1) B(1)] loan_moves_trans[OF A(3) B(3)] h n z by blast
qed

section \<open>The loan in memory\<close>

definition changes :: "('x \<Rightarrow> employer_loan) \<Rightarrow> employer_loan \<Rightarrow> pay_store \<Rightarrow> 'x loan_pay \<Rightarrow> bool" where
  "changes f l st r \<longleftrightarrow> history st (snd r) \<and> (\<forall>x. fst r = Inr x \<longrightarrow> loan_change st l (snd r) (f x) \<and> lo_status (f x) = lo_status l)"

lemma changes_seq:
  assumes "changes f l st r" "\<And>x st1. r = (Inr x, st1) \<Longrightarrow> loan_change st l st1 (f x) \<Longrightarrow> lo_status (f x) = lo_status l \<Longrightarrow> changes g (f x) st1 (h x st1)"
  shows "changes g l st (and_then r h)"
proof (cases r)
  case (Pair q st1)
  show ?thesis
  proof (cases q)
    case (Inl e)
    then show ?thesis using assms(1) Pair by (simp add: changes_def)
  next
    case (Inr x)
    have "loan_change st l st1 (f x)" "lo_status (f x) = lo_status l" "history st st1" using assms(1) Pair Inr by (simp_all add: changes_def)
    then show ?thesis using assms(2)[of x st1] Pair Inr
      by (auto simp: changes_def intro: history_trans loan_change_trans)
  qed
qed

lemma changes_pass: "history st (snd r) \<Longrightarrow> changes (\<lambda>_. l) l st r"
  by (simp add: changes_def unchanged)

lemma changes_stop: "changes f l st (Inl e, st)"
  by (simp add: changes_def)

lemma changes_done: "loan_change st l st (f x) \<Longrightarrow> lo_status (f x) = lo_status l \<Longrightarrow> changes f l st (Inr x, st)"
  by (simp add: changes_def)

lemma changes_ensure: "changes (\<lambda>_. l) l st (in_pay (ensureSalaryRecord en ws tm month year u st))"
  by (rule changes_pass) (simp add: hist.ensure_inv)

lemma deduction_row:
  assumes "createLoanRecoveryAdjustment en ws tm month year amount index u st = (Inr (Some k), st')"
  shows "length (ps_adjustments st) \<le> k \<and> recovery_row ws tm st' k"
proof -
  obtain r s1 where e: "ensureSalaryRecord en ws tm month year (Some u) st = (r, s1)" by force
  have "\<not> amount \<le> 0" using assms by (auto simp: createLoanRecoveryAdjustment_def split: if_splits)
  moreover obtain i where r: "r = Inr i" using assms e calculation by (cases r) (simp_all add: createLoanRecoveryAdjustment_def)
  note i = ensure_id[OF e[unfolded r]]
  let ?row = "(new_adjustment (ps_salaries s1 ! i) i ws Deduction ''loan_recovery'' amount System u)
              \<lparr>aj_teamMemberId := tm, aj_month := month, aj_year := year, aj_planInstallmentIndex := Some (nat index)\<rparr>"
  obtain s2 where c: "recalculateSalaryFromAdjustments en i (Some u) True (add_adjustment ?row s1) = (Inr (), s2)"
    using recalc_unlocked[of True "add_adjustment ?row s1" i en "Some u"] by auto
  have s2: "ps_adjustments s2 = ps_adjustments s1 @ [?row]" "ids s2 = ids s1"
    using recalc_frame(1)[of en i "Some u" True "add_adjustment ?row s1"] ids_recalc[of en i "Some u" True "add_adjustment ?row s1"]
    unfolding c snd_conv by (simp_all add: add_adjustment_def ids_def)
  have "k = length (ps_adjustments s1)" "st' = s2"
    using assms e r calculation c by (simp_all add: createLoanRecoveryAdjustment_def Let_def)
  moreover have "history st s1" using hist.ensure_inv[of st st en ws tm month year "Some u"] e by simp
  then have "length (ps_adjustments st) \<le> length (ps_adjustments s1)" by (rule historyD)
  ultimately show ?thesis using i s2 by (simp add: recovery_row_def new_adjustment_def length_ids) (simp add: ids_def)
qed

definition ready :: "string \<Rightarrow> employer_loan \<Rightarrow> bool" where
  "ready ws l \<longleftrightarrow> lo_workspaceId l = ws \<and> loan_runs (lo_status l)"

lemma ready_kept: "loan_change st a p b \<Longrightarrow> lo_status b = lo_status a \<Longrightarrow> ready ws a \<Longrightarrow> ready ws b"
  using head_owner[OF loan_changeD(2)] by (simp add: ready_def)

lemma changes_deduct:
  assumes "ready ws l" "tm = lo_teamMemberId l"
    "\<And>adj. entries_linked l \<Longrightarrow> entries_linked (f adj)" "\<And>adj. loan_head (f adj) = loan_head l" "\<And>adj. lo_status (f adj) = lo_status l"
    "\<And>adj. lo_linkedAdjustmentIds (f adj) = lo_linkedAdjustmentIds l @ (case adj of None \<Rightarrow> [] | Some k \<Rightarrow> [k])"
  shows "changes f l st (in_pay (createLoanRecoveryAdjustment en ws tm month year amount index u st))"
proof -
  let ?r = "createLoanRecoveryAdjustment en ws tm month year amount index u st"
  have o: "lo_workspaceId l = ws" "\<not> unapproved (lo_status l)" using assms(1) runs_approved by (simp_all add: ready_def)
  have h: "history st (snd ?r)" by (simp add: hist.loan_deduction_inv)
  have "loan_change st l (snd ?r) (f adj)" if "fst ?r = Inr adj" for adj
  proof (cases adj)
    case None
    then show ?thesis using h assms(3-)[of adj] by (simp add: loan_change_def)
  next
    case (Some k)
    then have "?r = (Inr (Some k), snd ?r)" using that by (simp add: prod_eq_iff)
    note k = deduction_row[OF this]
    show ?thesis unfolding loan_change_def
      by (intro conjI exI[of _ "[k]"] impI) (use h assms(2) assms(3-)[of adj] Some k o in simp_all)
  qed
  then show ?thesis using h assms(5) by (cases "fst ?r") (simp_all add: changes_def in_pay_def)
qed

lemma changes_link:
  "ready ws l \<Longrightarrow> tm = lo_teamMemberId l \<Longrightarrow> changes (\<lambda>adj. link_deduction i e proposed applied adj l) l st
    (in_pay (createLoanRecoveryAdjustment en ws tm month year amount index u st))"
proof (erule changes_deduct, assumption)
  fix adj
  show "entries_linked l \<Longrightarrow> entries_linked (link_deduction i e proposed applied adj l)"
    using set_update_subset_insert[of "lo_installments l" i]
    by (cases adj) (fastforce simp: link_deduction_def entries_linked_def)+
qed (simp_all add: link_deduction_def loan_head_def split: option.split)

lemma changes_carry:
  assumes "ready ws l" "tm = lo_teamMemberId l" "\<And>adj. li_adjustmentId (e adj) = adj"
  shows "changes (\<lambda>adj. l\<lparr>lo_installments := lo_installments l @ [e adj],
      lo_linkedAdjustmentIds := lo_linkedAdjustmentIds l @ (case adj of None \<Rightarrow> [] | Some j \<Rightarrow> [j])\<rparr>) l st
    (in_pay (createLoanRecoveryAdjustment en ws tm month year amount index u st))"
  by (rule changes_deduct[OF assms(1,2)]) (auto simp: entries_linked_def loan_head_def assms(3) split: option.split)

lemma changes_return:
  assumes "changes f l st r" "\<And>x. g (h x) = f x"
  shows "changes g l st (and_then r (\<lambda>x st1. (Inr (h x), st1)))"
  using assms by (cases r; cases "fst r") (simp_all add: changes_def)

lemma step_walk_loan [simp]: "lw_loan (step_walk w) = lw_loan w"
  by (simp add: step_walk_def)

lemma changes_entry:
  assumes "ready ws (lw_loan w)"
  shows "changes lw_loan (lw_loan w) st (loan_entry en ws u m i w st)"
proof (cases "li_status (lo_installments (lw_loan w) ! i) \<noteq> Loan_scheduled")
  case True
  then show ?thesis by (simp add: loan_entry_def Let_def changes_def unchanged)
next
  case False
  show ?thesis unfolding loan_entry_def Let_def if_not_P[OF False]
    by (rule changes_seq[OF changes_ensure], split option.split, intro conjI impI allI,
        rule changes_seq[OF changes_ensure], rule changes_stop,
        rule changes_return, rule changes_link[OF assms refl]) simp
qed

lemma changes_entries:
  "ready ws (lw_loan w) \<Longrightarrow> changes lw_loan (lw_loan w) st (loan_entries en ws u m is w st)"
proof (induction "is" arbitrary: w st)
  case Nil
  show ?case by (simp add: changes_def unchanged)
next
  case (Cons i "is")
  show ?case unfolding loan_entries.simps
    by (rule changes_seq[OF changes_entry[OF Cons.prems]], rule Cons.IH, rule ready_kept[OF _ _ Cons.prems])
qed

lemma changes_carry_month:
  assumes "ready ws (lw_loan w)"
  shows "changes lw_loan (lw_loan w) st (loan_carry en ws u m w st)"
  unfolding loan_carry_def Let_def
  by (rule changes_seq[OF changes_ensure], rule changes_return, rule changes_carry[OF assms refl]) simp_all

lemma changes_carries:
  "ready ws (lw_loan w) \<Longrightarrow> changes lw_loan (lw_loan w) st (loan_carries en ws u m n w st)"
proof (induction n arbitrary: w st)
  case 0
  show ?case by (simp add: changes_def unchanged)
next
  case (Suc n)
  show ?case unfolding loan_carries.simps
    by (split if_split, intro conjI impI, rule changes_seq[OF changes_carry_month[OF Suc.prems]], rule Suc.IH,
        rule ready_kept[OF _ _ Suc.prems], simp_all add: changes_def unchanged)
qed

lemma changes_materialize:
  assumes "ready ws loan"
  shows "changes (\<lambda>l. l) loan st (materializeLoanInstallments en ws u fromMonth fromYear loan st)"
proof (cases "find_member st (lo_teamMemberId loan)")
  case None
  then show ?thesis by (simp add: materializeLoanInstallments_def changes_stop)
next
  case (Some m)
  let ?w = "\<lparr>lw_month = fromMonth, lw_year = fromYear, lw_shortfall = 0, lw_loan = loan\<rparr>"
  have o: "ready ws (lw_loan ?w)" using assms by simp
  have "changes lw_loan (lw_loan ?w) st (loan_entries en ws u m [0..<length (lo_installments loan)] ?w st)"
    by (rule changes_entries[OF o])
  then have e: "changes lw_loan loan st (loan_entries en ws u m [0..<length (lo_installments loan)] ?w st)" by simp
  show ?thesis unfolding materializeLoanInstallments_def Some option.case
    by (rule changes_seq[OF e], rule changes_return[where h = lw_loan], rule changes_carries, rule ready_kept[OF _ _ assms]) simp_all
qed

lemma changes_rematerialize:
  assumes "ready ws loan"
  shows "changes (\<lambda>l. l) loan st (rematerializeSingleInstallment en ws u i loan st)"
proof (cases "li_status (lo_installments loan ! i) \<noteq> Loan_scheduled")
  case True
  then show ?thesis by (simp add: rematerializeSingleInstallment_def Let_def changes_def unchanged)
next
  case False
  show ?thesis unfolding rematerializeSingleInstallment_def Let_def if_not_P[OF False]
    by (rule changes_seq[OF changes_ensure], split option.split, intro conjI impI allI,
        rule changes_seq[OF changes_ensure], rule changes_stop, rule changes_return, rule changes_link[OF assms refl]) simp
qed

section \<open>Changes without a deduction\<close>

definition quiet :: "employer_loan \<Rightarrow> employer_loan \<Rightarrow> bool" where
  "quiet a b \<longleftrightarrow> loan_head b = loan_head a \<and> lo_linkedAdjustmentIds b = lo_linkedAdjustmentIds a \<and> (entries_linked a \<longrightarrow> entries_linked b)"

lemma quiet_refl [simp]: "quiet a a"
  by (simp add: quiet_def)

lemma quiet_trans: "quiet a b \<Longrightarrow> quiet b c \<Longrightarrow> quiet a c"
  by (simp add: quiet_def)

lemma quiet_change: "history st p \<Longrightarrow> quiet a b \<Longrightarrow> loan_moves (lo_status a) (lo_status b) \<Longrightarrow> loan_change st a p b"
  by (simp add: quiet_def loan_change_def)

lemma quiet_entries:
  assumes "loan_head b = loan_head a" "lo_linkedAdjustmentIds b = lo_linkedAdjustmentIds a"
    "\<And>e. e \<in> set (lo_installments b) \<Longrightarrow> li_adjustmentId e = None \<or> (\<exists>e'\<in>set (lo_installments a). li_adjustmentId e = li_adjustmentId e')"
  shows "quiet a b"
proof -
  have "set_option (li_adjustmentId e) \<subseteq> set (lo_linkedAdjustmentIds b)" if "entries_linked a" "e \<in> set (lo_installments b)" for e
    using assms(3)[OF that(2)] that(1) assms(2) by (auto simp: entries_linked_def)
  then show ?thesis using assms(1,2) by (simp add: quiet_def entries_linked_def)
qed

lemma quiet_update:
  assumes "li_adjustmentId (f (lo_installments a ! i)) \<in> {None, li_adjustmentId (lo_installments a ! i)}"
  shows "quiet a (a\<lparr>lo_installments := (lo_installments a)[i := f (lo_installments a ! i)]\<rparr>)"
proof (cases "i < length (lo_installments a)")
  case True
  show ?thesis
  proof (rule quiet_entries, goal_cases)
    case (3 e)
    then have "e = f (lo_installments a ! i) \<or> e \<in> set (lo_installments a)" using set_update_subset_insert by fastforce
    then show ?case using assms nth_mem[OF True] by auto
  qed (simp_all add: loan_head_def)
qed (simp add: list_update_beyond)

lemma quiet_mark: "quiet a (mark_entry i s a)"
  unfolding mark_entry_def by (rule quiet_update) simp

definition quietly :: "employer_loan \<Rightarrow> pay_store \<Rightarrow> employer_loan loan_pay \<Rightarrow> bool" where
  \<comment> \<open>an operation that writes no deduction\<close>
  "quietly l st r \<longleftrightarrow> history st (snd r) \<and> (\<forall>x. fst r = Inr x \<longrightarrow> quiet l x \<and> lo_status x = lo_status l)"

lemma quietly_changes: "quietly l st r \<Longrightarrow> changes (\<lambda>x. x) l st r"
  by (auto simp: quietly_def changes_def intro: quiet_change)

lemma undo_history: "history st (snd (undo_entry en u r e st))"
  by (cases "li_adjustmentId e") (auto simp: undo_entry_def single_is_doc intro: hist.plans.undone)

lemma quietly_reverse: "quietly loan st (reverse_loan_entries en u r is loan st)"
proof (induction "is" arbitrary: loan st)
  case (Cons i "is")
  let ?q = "undo_entry en u r (lo_installments loan ! i) st"
  obtain q st1 where q: "?q = (q, st1)" by force
  then have h: "history st st1" using undo_history[of st en u r "lo_installments loan ! i"] by simp
  show ?case
  proof (cases q)
    case (Inl e)
    then show ?thesis using q h by (simp add: quietly_def)
  next
    case (Inr x)
    have m: "lo_status (mark_entry i Loan_reversed loan) = lo_status loan" by (simp add: mark_entry_def)
    have "quietly (mark_entry i Loan_reversed loan) st1 (reverse_loan_entries en u r is (mark_entry i Loan_reversed loan) st1)"
      by (rule Cons.IH)
    then show ?thesis using q Inr h m quiet_mark[of loan i Loan_reversed]
      by (auto simp: quietly_def intro: history_trans quiet_trans)
  qed
qed (simp add: quietly_def)

lemma quietly_future: "quietly loan st (reverseFutureLoanAdjustments en u r loan st)"
  unfolding reverseFutureLoanAdjustments_def by (rule quietly_reverse)

lemma changes_edit:
  assumes "quiet l l'" "lo_status l' = lo_status l" "changes f l' st r"
  shows "changes f l st r"
proof -
  have c: "loan_change st l st l'" by (rule quiet_change) (use assms in simp_all)
  show ?thesis using assms(2,3) loan_change_trans[OF c] by (auto simp: changes_def)
qed

lemma changes_finish:
  assumes "changes f l st r" "\<And>x. quiet (f x) (h x)" "\<And>x. lo_status (h x) = lo_status (f x)"
  shows "changes h l st r"
proof -
  have "loan_change st l (snd r) (h x)" if "loan_change st l (snd r) (f x)" for x
    by (rule loan_change_trans[OF that], rule quiet_change) (simp_all add: assms)
  then show ?thesis using assms(1,3) by (auto simp: changes_def)
qed

lemma changes_extend:
  assumes "ready ws loan"
  shows "changes (\<lambda>l. l) loan st (extend_tenor en ws u e loan st)"
proof (cases "120 \<le> length (lo_installments loan)")
  case True
  then show ?thesis by (simp add: extend_tenor_def changes_stop)
next
  case False
  have q: "quiet loan (loan\<lparr>lo_installments := lo_installments loan @ [x], lo_tenorMonths := n\<rparr>)" if "li_adjustmentId x = None" for x n
    by (rule quiet_entries) (use that in \<open>auto simp: loan_head_def\<close>)
  show ?thesis unfolding extend_tenor_def if_not_P[OF False] Let_def case_prod_beta
    by (rule changes_edit[rotated 2], rule changes_rematerialize) (use assms in \<open>simp_all add: q ready_def\<close>)
qed

lemma changes_slots:
  "ready ws loan \<Longrightarrow> changes (\<lambda>l. l) loan st (raise_slots en ws u x n rank is loan st)"
proof (induction "is" arbitrary: rank loan st)
  case Nil
  show ?case by (simp add: changes_def unchanged)
next
  case (Cons i "is")
  have r: "ready ws (loan\<lparr>lo_installments := es\<rparr>)" for es using Cons.prems by (simp add: ready_def)
  show ?case unfolding raise_slots.simps Let_def
    by (rule changes_edit[rotated 2], rule changes_seq[OF changes_rematerialize], rule r, rule Cons.IH,
        erule ready_kept, assumption, rule r, rule quiet_update) (simp_all add: raised_entry_def)
qed

lemma changes_raise:
  assumes "ready ws loan"
  shows "changes (\<lambda>l. l) loan st (raise_emi en ws u e is loan st)"
proof -
  have q: "quiet l (l\<lparr>lo_emiAmount := coalesce (li_emiPlanned (lo_installments l ! hd is)) (lo_emiAmount l)\<rparr>)" for l by (simp add: quiet_def loan_head_def entries_linked_def)
  show ?thesis unfolding raise_emi_def
    by (split if_split, intro conjI impI changes_stop, rule changes_return, rule changes_finish[OF changes_slots[OF assms] q], simp, rule refl)
qed

end
