(* ===== verification/LoanLedger.thy ===== *)
theory LoanLedger
  imports LoanHistory
begin

text \<open>
  The handlers of loans and loan requests over the whole store.  The locale \<open>loan_ledger\<close> states what a
  predicate of the store must survive: changes of the salary documents, a \<open>loan_change\<close> of a loan that is not
  closed, new loans, new requests and decisions.  Every handler then keeps it.
\<close>

section \<open>What a handler holds\<close>

definition fresh_loan :: "employer_loan \<Rightarrow> bool" where
  "fresh_loan l \<longleftrightarrow> lo_status l \<in> {''pending_approval'', ''active''} \<and> lo_linkedAdjustmentIds l = []
     \<and> (\<forall>e\<in>set (lo_installments l). li_adjustmentId e = None)"

definition request_decision :: "loan_store \<Rightarrow> loan_request \<Rightarrow> loan_request \<Rightarrow> bool" where
  "request_decision s r r' \<longleftrightarrow> lr_status r = ''pending'' \<and> (\<exists>u. r' = r\<lparr>lr_status := ''rejected'', lr_reviewedBy := Some u\<rparr>
     \<or> (\<exists>k l. nth_doc (lb_loans s) k = Some l \<and> lo_workspaceId l = lr_workspaceId r \<and> lo_teamMemberId l = lr_teamMemberId r
          \<and> lo_createdBy l = u \<and> r' = r\<lparr>lr_status := ''approved'', lr_createdEmployerLoanId := Some k, lr_reviewedBy := Some u\<rparr>))"

definition loan_held :: "(loan_store \<Rightarrow> bool) \<Rightarrow> string \<Rightarrow> nat \<Rightarrow> employer_loan \<Rightarrow> loan_store \<Rightarrow> bool" where
  \<comment> \<open>the loan in memory may be saved over loan \<open>k\<close>\<close>
  "loan_held L ws k l s \<longleftrightarrow> L s \<and> lo_workspaceId l = ws \<and> (\<exists>s0. L s0 \<and> k < length (lb_loans s0) \<and> \<not> loan_closed (lb_loans s0 ! k)
     \<and> s = s0\<lparr>lb_pay := lb_pay s\<rparr> \<and> loan_change (lb_pay s0) (lb_loans s0 ! k) (lb_pay s) l)"

definition loan_kept :: "(loan_store \<Rightarrow> bool) \<Rightarrow> string \<Rightarrow> nat \<Rightarrow> ('x \<Rightarrow> employer_loan) \<Rightarrow> string \<Rightarrow> 'x loaned \<Rightarrow> bool" where
  "loan_kept L ws k f status r \<longleftrightarrow> L (snd r) \<and> (\<forall>x. fst r = Inr x \<longrightarrow> loan_held L ws k (f x) (snd r) \<and> lo_status (f x) = status)"

lemma heldD: "loan_held L ws k l s \<Longrightarrow> L s"
  by (simp add: loan_held_def)

lemma held_index: "loan_held L ws k l s \<Longrightarrow> k < length (lb_loans s)"
  unfolding loan_held_def by (metis loan_store.simps(2) loan_store.surjective loan_store.update_convs(1))

lemma keptD: "loan_kept L ws k f status r \<Longrightarrow> L (snd r)"
  by (simp add: loan_kept_def)

lemma kept_then:
  assumes "loan_kept L ws k f status r" "\<And>x s1. loan_held L ws k (f x) s1 \<Longrightarrow> lo_status (f x) = status \<Longrightarrow> L (snd (h x s1))"
  shows "L (snd (and_then r h))"
  using assms by (cases r; cases "fst r") (simp_all add: loan_kept_def)

lemma loan_moves_simps:
  "loan_moves ''pending_approval'' ''active''" "loan_moves ''pending_approval'' ''reversed''" "loan_moves ''active'' ''paused''"
  "loan_moves ''paused'' ''active''" "loan_moves ''active'' ''completed''" "loan_moves ''paused'' ''completed''"
  "loan_moves ''active'' ''written_off''" "loan_moves ''paused'' ''written_off''"
  by (simp_all add: loan_moves_def loan_runs_def)

lemma loan_ofD: "loan_of s ws k = Some l \<Longrightarrow> k < length (lb_loans s) \<and> lb_loans s ! k = l \<and> lo_workspaceId l = ws"
  by (auto simp: loan_of_def nth_doc_def split: option.splits if_splits)

lemma guarded_split: "guarded cs r s = r \<and> list_all fst cs \<or> (\<exists>e. guarded cs r s = (Inl e, s))"
proof (induction cs)
  case (Cons c cs)
  then show ?case by (cases c) auto
qed simp

lemma changes_undo: "changes (\<lambda>_. l) l st (in_pay (undo_entry en u r e st))"
  by (rule changes_pass) (simp add: undo_history)

lemma quiet_closed: "quiet l (l\<lparr>lo_status := x, lo_closureType := c, lo_closedBy := u, lo_remainingAmount := y, lo_remainingPrincipal := z\<rparr>)"
  "quiet l (l\<lparr>lo_status := x, lo_closureType := c, lo_closedBy := u, lo_remainingAmount := y\<rparr>)"
  "quiet l (l\<lparr>lo_status := x, lo_closureType := c, lo_closedBy := u, lo_writeOffAmount := w\<rparr>)"
  by (simp_all add: quiet_def loan_head_def entries_linked_def)

lemma quiet_reduced:
  "quiet l (l\<lparr>lo_remainingAmount := x, lo_remainingPrincipal := y\<rparr>)" "quiet l (l\<lparr>lo_emiAmount := x, lo_totalInterestScheduled := y\<rparr>)"
  "quiet l (l\<lparr>lo_status := t\<rparr>)"
  by (simp_all add: quiet_def loan_head_def entries_linked_def)

lemma adjustments_rescheduled:
  "e \<in> set (reschedule is rows es) \<Longrightarrow> li_adjustmentId e = None \<or> (\<exists>e'\<in>set es. li_adjustmentId e = li_adjustmentId e')"
proof (induction "is" rows es rule: reschedule.induct)
  case (1 i "is" row rows es)
  then show ?case using set_update_subset_insert[of es i "rescheduled_entry row (es ! i)"] by (fastforce simp: rescheduled_entry_def)
qed auto

lemma quiet_rescheduled: "quiet l (l\<lparr>lo_installments := reschedule is rows (lo_installments l)\<rparr>)"
  by (rule quiet_entries) (auto simp: loan_head_def dest: adjustments_rescheduled)

lemma materialize_others:
  "lb_requests (snd (materialize en ws u month year j l s)) = lb_requests s"
  "length (lb_loans (snd (materialize en ws u month year j l s))) = length (lb_loans s)"
  "k \<noteq> j \<Longrightarrow> lb_loans (snd (materialize en ws u month year j l s)) ! k = lb_loans s ! k"
  by (simp_all add: materialize_def and_then_def on_pay_def save_loan_def split: prod.split sum.split)

lemma insert_requests: "lb_requests (snd (insert_loan l s)) = lb_requests s"
  by (simp add: insert_loan_def)

lemma create_requests: "lb_requests (snd (createLoan en ws u dto s)) = lb_requests s"
proof -
  have i: "lb_requests (snd (and_then (insert_loan l s) (\<lambda>k s1. if b then and_then (materialize en ws u m y k l s1) (\<lambda>_ s2. (Inr k, s2))
      else (Inr k, s1)))) = lb_requests s" for l b m y
    using materialize_others(1)[of en ws u m y "length (lb_loans s)" l "s\<lparr>lb_loans := lb_loans s @ [l]\<rparr>"]
    by (cases "materialize en ws u m y (length (lb_loans s)) l (s\<lparr>lb_loans := lb_loans s @ [l]\<rparr>)")
      (simp add: insert_loan_def)
  show ?thesis unfolding createLoan_def Let_def
    by (rule disjE[OF guarded_split], elim conjE, erule ssubst, split sum.split, intro conjI allI impI, simp, rule i, elim exE, simp)
qed

section \<open>The laws\<close>

locale loan_ledger =
  fixes L :: "loan_store \<Rightarrow> bool"
  assumes pay_moved: "\<And>s p. L s \<Longrightarrow> history (lb_pay s) p \<Longrightarrow> L (s\<lparr>lb_pay := p\<rparr>)"
    and loan_changed: "\<And>s k p l. L s \<Longrightarrow> k < length (lb_loans s) \<Longrightarrow> \<not> loan_closed (lb_loans s ! k)
      \<Longrightarrow> loan_change (lb_pay s) (lb_loans s ! k) p l \<Longrightarrow> L (save_loan k l (s\<lparr>lb_pay := p\<rparr>))"
    and loan_added: "\<And>s l. L s \<Longrightarrow> fresh_loan l \<Longrightarrow> L (s\<lparr>lb_loans := lb_loans s @ [l]\<rparr>)"
    and requested: "\<And>s r. L s \<Longrightarrow> lr_status r = ''pending'' \<Longrightarrow> lr_createdEmployerLoanId r = None
      \<Longrightarrow> \<not> list_ex (pending_request (lr_workspaceId r) (lr_teamMemberId r)) (lb_requests s)
      \<Longrightarrow> L (s\<lparr>lb_requests := lb_requests s @ [r]\<rparr>)"
    and decided: "\<And>s j r. L s \<Longrightarrow> j < length (lb_requests s) \<Longrightarrow> request_decision s (lb_requests s ! j) r \<Longrightarrow> L (save_loan_request j r s)"
begin

lemma loaded_held:
  assumes "L s" "loan_of s ws k = Some l" "\<not> loan_closed l"
  shows "loan_held L ws k l s"
  unfolding loan_held_def by (intro conjI exI[of _ s]) (use assms loan_ofD[OF assms(2)] unchanged in \<open>simp_all add: assms\<close>)

lemma saved_loan:
  assumes "loan_held L ws k l s"
  shows "L (save_loan k l s)"
proof -
  obtain s0 where s: "L s0" "k < length (lb_loans s0)" "\<not> loan_closed (lb_loans s0 ! k)" "s = s0\<lparr>lb_pay := lb_pay s\<rparr>"
    "loan_change (lb_pay s0) (lb_loans s0 ! k) (lb_pay s) l" using assms unfolding loan_held_def by blast
  have "L (save_loan k l (s0\<lparr>lb_pay := lb_pay s\<rparr>))" by (rule loan_changed[OF s(1,2,3,5)])
  then show ?thesis by (subst s(4))
qed

lemma saved_held:
  assumes "loan_held L ws k l s" "\<not> loan_closed l"
  shows "loan_held L ws k l (save_loan k l s)"
proof -
  have k: "k < length (lb_loans s)" by (rule held_index[OF assms(1)])
  show ?thesis unfolding loan_held_def
    by (intro conjI exI[of _ "save_loan k l s"] saved_loan[OF assms(1)])
      (use k assms in \<open>simp_all add: save_loan_def unchanged loan_held_def\<close>)
qed

lemma edited:
  assumes "loan_held L ws k l s" "quiet l l'" "loan_moves (lo_status l) (lo_status l')"
  shows "loan_held L ws k l' s"
proof -
  obtain s0 where s: "L s0" "k < length (lb_loans s0)" "\<not> loan_closed (lb_loans s0 ! k)" "s = s0\<lparr>lb_pay := lb_pay s\<rparr>"
    "loan_change (lb_pay s0) (lb_loans s0 ! k) (lb_pay s) l" using assms unfolding loan_held_def by blast
  have "loan_change (lb_pay s) l (lb_pay s) l'" using assms(2,3) by (intro quiet_change) simp_all
  from loan_change_trans[OF s(5) this] have c: "loan_change (lb_pay s0) (lb_loans s0 ! k) (lb_pay s) l'" .
  have "lo_workspaceId l' = ws" using assms(1,2) head_owner[of l' l] by (simp add: loan_held_def quiet_def)
  then show ?thesis using assms(1) s(1-4) c unfolding loan_held_def by blast
qed

lemma moved:
  assumes "loan_held L ws k l s" "changes f l (lb_pay s) r"
  shows "loan_kept L ws k f (lo_status l) (on_pay r s)"
proof -
  obtain s0 where s: "L s0" "k < length (lb_loans s0)" "\<not> loan_closed (lb_loans s0 ! k)" "s = s0\<lparr>lb_pay := lb_pay s\<rparr>"
    "loan_change (lb_pay s0) (lb_loans s0 ! k) (lb_pay s) l" using assms unfolding loan_held_def by blast
  have n: "L (snd (on_pay r s))" using pay_moved[OF heldD[OF assms(1)]] assms(2) by (simp add: on_pay_def changes_def)
  have "loan_held L ws k (f x) (snd (on_pay r s)) \<and> lo_status (f x) = lo_status l" if "fst r = Inr x" for x
  proof -
    have c: "loan_change (lb_pay s) l (snd r) (f x)" "lo_status (f x) = lo_status l" using assms(2) that by (simp_all add: changes_def)
    have o: "lo_workspaceId (f x) = ws" using head_owner[OF loan_changeD(2)[OF c(1)]] assms(1) by (simp add: loan_held_def)
    have e: "snd (on_pay r s) = s0\<lparr>lb_pay := snd r\<rparr>" by (simp add: on_pay_def) (subst s(4), simp)
    have h: "loan_held L ws k (f x) (snd (on_pay r s))" unfolding loan_held_def
      by (intro conjI exI[of _ s0] n o s(1-3)) (use e loan_change_trans[OF s(5) c(1)] in simp_all)
    show ?thesis using h c(2) by blast
  qed
  then show ?thesis using n by (simp add: loan_kept_def)
qed

lemma materialize_kept:
  assumes "loan_held L ws k l s" "loan_runs (lo_status l)"
  shows "loan_kept L ws k (\<lambda>x. x) (lo_status l) (materialize en ws u month year k l s)"
proof -
  have o: "ready ws l" using assms by (simp add: loan_held_def ready_def)
  note m = moved[OF assms(1) changes_materialize[OF o, of "lb_pay s" "le_pay en" u month year]]
  obtain r where r: "materializeLoanInstallments (le_pay en) ws u month year l (lb_pay s) = r" by simp
  show ?thesis
  proof (cases "fst r")
    case (Inl e)
    then show ?thesis using keptD[OF m] r by (simp add: materialize_def loan_kept_def and_then_def on_pay_def)
  next
    case (Inr x)
    have h: "loan_held L ws k x (snd (on_pay r s))" "lo_status x = lo_status l" using m Inr r by (simp_all add: loan_kept_def)
    have c: "\<not> loan_closed x" using runs_not[OF assms(2)] h(2) by (simp add: loan_closed_def)
    have e: "materialize en ws u month year k l s = (Inr x, save_loan k x (snd (on_pay r s)))"
      using Inr r by (simp add: materialize_def and_then_def on_pay_def)
    show ?thesis unfolding e loan_kept_def using saved_loan[OF h(1)] saved_held[OF h(1) c] h(2) by simp
  qed
qed

section \<open>The handlers\<close>

lemma guarded_kept: "L s \<Longrightarrow> (list_all fst cs \<Longrightarrow> L (snd r)) \<Longrightarrow> L (snd (guarded cs r s))"
  using guarded_split[of cs r s] by auto

lemma inserted_held:
  assumes "L s" "fresh_loan l" "lo_workspaceId l = ws"
  shows "loan_kept L ws (length (lb_loans s)) (\<lambda>k. l) (lo_status l) (insert_loan l s)"
proof (cases "loan_valid l")
  case True
  have n: "L (s\<lparr>lb_loans := lb_loans s @ [l]\<rparr>)" by (rule loan_added[OF assms(1,2)])
  moreover have "\<not> loan_closed l" using assms(2) by (auto simp: fresh_loan_def loan_closed_def)
  ultimately have "loan_held L ws (length (lb_loans s)) l (s\<lparr>lb_loans := lb_loans s @ [l]\<rparr>)" unfolding loan_held_def
    by (intro conjI exI[of _ "s\<lparr>lb_loans := lb_loans s @ [l]\<rparr>"]) (simp_all add: assms(3) unchanged)
  then show ?thesis using True n by (simp add: insert_loan_def loan_kept_def)
qed (simp add: insert_loan_def loan_kept_def assms)

lemma loan_refreshed:
  assumes "loan_held L ws k l s" "loan_runs (lo_status l)"
  shows "L (snd (refreshLoanProgress en k l s))"
proof -
  have q: "quiet l (loan_progress en (lb_pay s) l)"
    by (simp add: loan_progress_def Let_def quiet_def loan_head_def entries_linked_def)
  have m: "loan_moves (lo_status l) (lo_status (loan_progress en (lb_pay s) l))"
    using assms(2) by (simp add: loan_progress_def Let_def loan_moves_def)
  show ?thesis using saved_loan[OF edited[OF assms(1) q m]] heldD[OF assms(1)]
    by (simp add: refreshLoanProgress_def Let_def)
qed

lemma paused_loan:
  assumes "L s"
  shows "L (snd (pauseLoan en ws k u r s))"
proof (cases "loan_of s ws k")
  case (Some loan)
  show ?thesis
  proof (cases "lo_status loan = ''active''")
    case True
    have h: "loan_held L ws k loan s" by (rule loaded_held[OF assms Some]) (simp add: loan_closed_def True)
    have p: "L (snd (refreshLoanProgress (le_pay en) k (l\<lparr>lo_status := ''paused''\<rparr>) (save_loan k (l\<lparr>lo_status := ''paused''\<rparr>) s1)))"
      if "loan_held L ws k l s1" "lo_status l = lo_status loan" for l s1
    proof -
      have q: "quiet l (l\<lparr>lo_status := ''paused''\<rparr>)" by (simp add: quiet_def loan_head_def entries_linked_def)
      have "loan_held L ws k (l\<lparr>lo_status := ''paused''\<rparr>) s1" by (rule edited[OF that(1) q]) (simp add: that True loan_moves_simps)
      from saved_held[OF this] show ?thesis by (intro loan_refreshed) (simp_all add: loan_closed_def loan_runs_def)
    qed
    show ?thesis unfolding pauseLoan_def Some option.case Let_def
      by (split if_split, intro conjI impI, simp add: assms,
          rule kept_then[OF moved[OF h quietly_changes[OF quietly_future]] p])
  qed (use Some assms in \<open>simp add: pauseLoan_def\<close>)
qed (simp add: pauseLoan_def assms)

lemma approved_loan:
  assumes "L s"
  shows "L (snd (approveLoan en ws k u approve s))"
proof (cases "loan_of s ws k")
  case (Some loan)
  let ?r = "\<lambda>status x c y. loan\<lparr>lo_approvalChain := c, lo_status := status, lo_closureType := x, lo_closedBy := y\<rparr>"
  have h: "loan_held L ws k loan s" if "lo_status loan = ''pending_approval''"
    by (rule loaded_held[OF assms Some]) (simp add: loan_closed_def that)
  have q: "quiet loan (loan\<lparr>lo_approvalChain := c\<rparr>)" "quiet loan (loan\<lparr>lo_approvalChain := c, lo_status := x, lo_approvedBy := y\<rparr>)"
    "quiet loan (loan\<lparr>lo_approvalChain := c, lo_status := x, lo_closureType := y, lo_closedBy := z\<rparr>)" for c x y z
    by (simp_all add: quiet_def loan_head_def entries_linked_def)
  have a: "L (snd (materialize en ws u m y k l (save_loan k l s)))"
    if p: "lo_status loan = ''pending_approval''" and l: "l = loan\<lparr>lo_approvalChain := c, lo_status := ''active'', lo_approvedBy := z\<rparr>" for m y c z l
  proof -
    have "loan_held L ws k l s" unfolding l by (rule edited[OF h[OF p] q(2)]) (simp add: p loan_moves_simps)
    then show ?thesis by (intro keptD[OF materialize_kept[OF saved_held]]) (simp_all add: loan_closed_def loan_runs_def l)
  qed
  have b: "L (save_loan k (loan\<lparr>lo_approvalChain := c\<rparr>) s)" "L (save_loan k (loan\<lparr>lo_approvalChain := c, lo_status := ''reversed'', lo_closureType := y, lo_closedBy := z\<rparr>) s)"
    if p: "lo_status loan = ''pending_approval''" for c y z
    by (rule saved_loan[OF edited[OF h[OF p] q(1)]], simp, rule saved_loan[OF edited[OF h[OF p] q(3)]], simp add: p loan_moves_simps)
  show ?thesis unfolding approveLoan_def Some option.case Let_def
    by (rule guarded_kept[OF assms]) (simp add: assms a b split: option.split)
qed (simp add: approveLoan_def assms)

lemma skipped_loan:
  assumes "L s"
  shows "L (snd (skipInstallment en ws k u index longer reason s))"
proof (cases "loan_of s ws k")
  case (Some loan)
  show ?thesis
  proof (cases "lo_status loan = ''active''")
    case True
    have h: "loan_held L ws k loan s" by (rule loaded_held[OF assms Some]) (simp add: loan_closed_def True)
    have o: "ready ws loan" using loan_ofD[OF Some] True by (simp add: ready_def loan_runs_def)
    have c: "changes (\<lambda>l. l) loan (lb_pay s) (and_then (in_pay (undo_entry pay u reason e (lb_pay s))) (\<lambda>_ st1.
        and_then (reverse_loan_entries pay u r is (mark_entry i Loan_skipped loan) st1) (\<lambda>l st2.
          if longer then extend_tenor pay ws u e l st2 else raise_emi pay ws u e is l st2)))" for pay e r i "is"
    proof (rule changes_seq[OF changes_undo])
      fix x st1
      have m: "quiet loan (mark_entry i Loan_skipped loan)" "lo_status (mark_entry i Loan_skipped loan) = lo_status loan"
        by (rule quiet_mark) (simp add: mark_entry_def)
      have w: "ready ws (mark_entry i Loan_skipped loan)" using o by (simp add: mark_entry_def ready_def)
      show "changes (\<lambda>l. l) loan st1 (and_then (reverse_loan_entries pay u r is (mark_entry i Loan_skipped loan) st1) (\<lambda>l st2.
          if longer then extend_tenor pay ws u e l st2 else raise_emi pay ws u e is l st2))"
        by (rule changes_edit[OF m], rule changes_seq[OF quietly_changes[OF quietly_reverse]], split if_split, intro conjI impI,
            rule changes_extend[OF ready_kept[OF _ _ w]], assumption+, rule changes_raise[OF ready_kept[OF _ _ w]])
    qed
    have f: "L (snd (if loan_valid l then (Inr l, save_loan k l s1) else (Inl Loan_invalid, s1)))"
      if "loan_held L ws k l s1" for l s1 using saved_loan[OF that] heldD[OF that] by simp
    show ?thesis unfolding skipInstallment_def Some option.case Let_def
      by (auto simp del: snd_and_then simp: assms split: option.split intro!: kept_then[OF moved[OF h c]] f)
  qed (use Some assms in \<open>simp add: skipInstallment_def\<close>)
qed (simp add: skipInstallment_def assms)

lemma written_off_loan:
  assumes "L s"
  shows "L (snd (writeOffLoan en ws k u amount reason s))"
proof (cases "loan_of s ws k")
  case (Some loan)
  have f: "L (snd (and_then (on_pay (reverseFutureLoanAdjustments (le_pay en) u reason loan (lb_pay s)) s) (\<lambda>l s1.
      (Inr (l\<lparr>lo_status := ''written_off'', lo_closureType := x, lo_closedBy := y, lo_writeOffAmount := z\<rparr>),
        save_loan k (l\<lparr>lo_status := ''written_off'', lo_closureType := x, lo_closedBy := y, lo_writeOffAmount := z\<rparr>) s1))))"
    if r: "loan_runs (lo_status loan)" for x y z
  proof -
    have h: "loan_held L ws k loan s" by (rule loaded_held[OF assms Some]) (use runs_not[OF r] in \<open>simp add: loan_closed_def\<close>)
    show ?thesis
    proof (rule kept_then[OF moved[OF h quietly_changes[OF quietly_future]]], unfold snd_conv, rule saved_loan, erule edited[OF _ quiet_closed(3)])
      fix l :: employer_loan
      assume "lo_status l = lo_status loan"
      then show "loan_moves (lo_status l) (lo_status (l\<lparr>lo_status := ''written_off'', lo_closureType := x, lo_closedBy := y, lo_writeOffAmount := z\<rparr>))"
        using r by (auto simp: loan_runs_def loan_moves_simps)
    qed
  qed
  show ?thesis unfolding writeOffLoan_def Some option.case Let_def
    by (rule guarded_kept[OF assms], rule f) (simp add: loan_runs_def)
qed (simp add: writeOffLoan_def assms)

lemma partly_paid_loan:
  assumes "loan_held L ws k loan s" "loan_runs (lo_status loan)"
  shows "L (snd (partial_payoff en ws k u x loan s))"
proof -
  define reduced where "reduced = loan\<lparr>lo_remainingAmount := round2 (jsub (lo_remainingAmount loan) x),
            lo_remainingPrincipal := round2 (max 0 (jsub (lo_remainingPrincipal loan) x))\<rparr>"
  have st: "lo_status reduced = lo_status loan" by (simp add: reduced_def)
  have h: "loan_held L ws k reduced s" unfolding reduced_def by (rule edited[OF assms(1) quiet_reduced(1)]) simp
  have f: "L (save_loan k (l\<lparr>lo_status := ''active''\<rparr>) s1)" if "loan_held L ws k l s1" "lo_status l = lo_status loan" for l s1
    by (rule saved_loan[OF edited[OF that(1) quiet_reduced(3)]]) (use that(2) assms(2) in \<open>auto simp: loan_runs_def loan_moves_simps\<close>)
  have g: "L (snd (and_then (materialize en ws u m y k (reduced\<lparr>lo_installments := reschedule is rows (lo_installments reduced)\<rparr>) s)
      (\<lambda>l s1. (Inr (F l), save_loan k (l\<lparr>lo_emiAmount := a, lo_totalInterestScheduled := b l, lo_status := ''active''\<rparr>) s1))))"
    for m y "is" rows a b F
  proof (rule kept_then[OF materialize_kept[OF edited[OF h quiet_rescheduled]]])
    show "loan_runs (lo_status (reduced\<lparr>lo_installments := reschedule is rows (lo_installments reduced)\<rparr>))"
      using assms(2) st by simp
    fix l s1
    assume l: "loan_held L ws k l s1" "lo_status l = lo_status (reduced\<lparr>lo_installments := reschedule is rows (lo_installments reduced)\<rparr>)"
    have "loan_held L ws k (l\<lparr>lo_emiAmount := a, lo_totalInterestScheduled := b l\<rparr>) s1" by (rule edited[OF l(1) quiet_reduced(2)]) simp
    from f[OF this] show "L (snd (Inr (F l), save_loan k (l\<lparr>lo_emiAmount := a, lo_totalInterestScheduled := b l, lo_status := ''active''\<rparr>) s1))"
      using l(2) st by simp
  qed simp
  show ?thesis unfolding partial_payoff_def Let_def reduced_def[symmetric]
    using f[OF h st] g heldD[OF h] by (auto simp del: snd_and_then split: list.split sum.split)
qed

lemma paid_off_loan:
  assumes "L s"
  shows "L (snd (earlyPayoffLoan en ws k u x reason s))"
proof (cases "loan_of s ws k")
  case (Some loan)
  show ?thesis
  proof (cases "loan_runs (lo_status loan)")
    case True
    have h: "loan_held L ws k loan s" by (rule loaded_held[OF assms Some]) (use runs_not[OF True] in \<open>simp add: loan_closed_def\<close>)
    have f: "L (snd (if c then (Inr (F l), save_loan k (l\<lparr>lo_status := ''completed'', lo_closureType := t, lo_closedBy := v,
          lo_remainingAmount := 0, lo_remainingPrincipal := 0\<rparr>) s1) else partial_payoff en ws k u y l s1))"
      if l: "loan_held L ws k l s1" "lo_status l = lo_status loan" for c y l s1 t v F
    proof -
      have m: "loan_moves (lo_status l) ''completed''" using True l(2) by (auto simp: loan_runs_def loan_moves_simps)
      have "L (save_loan k (l\<lparr>lo_status := ''completed'', lo_closureType := t, lo_closedBy := v, lo_remainingAmount := 0, lo_remainingPrincipal := 0\<rparr>) s1)"
        by (rule saved_loan[OF edited[OF l(1) quiet_closed(1)]]) (simp add: m)
      then show ?thesis using partly_paid_loan[OF l(1)] True l(2) by simp
    qed
    have n: "\<not> (lo_status loan \<noteq> ''active'' \<and> lo_status loan \<noteq> ''paused'')" using True by (auto simp: loan_runs_def)
    show ?thesis unfolding earlyPayoffLoan_def Some option.case Let_def if_not_P[OF n]
      by (rule kept_then[OF moved[OF h quietly_changes[OF quietly_future]]], rule f)
  qed (use Some assms in \<open>simp add: earlyPayoffLoan_def loan_runs_def\<close>)
qed (simp add: earlyPayoffLoan_def assms)

lemma resumed_loan:
  assumes "L s"
  shows "L (snd (resumeLoan en ws k u s))"
proof (cases "loan_of s ws k")
  case (Some loan)
  show ?thesis
  proof (cases "lo_status loan = ''paused''")
    case True
    let ?l = "loan\<lparr>lo_status := ''active'', lo_installments := map (reopened (le_pay en)) (lo_installments loan)\<rparr>"
    have h: "loan_held L ws k loan s" by (rule loaded_held[OF assms Some]) (simp add: loan_closed_def True)
    have q: "quiet loan ?l" by (rule quiet_entries) (auto simp: loan_head_def reopened_def)
    have "loan_held L ws k ?l s" by (rule edited[OF h q]) (simp add: True loan_moves_simps)
    from saved_held[OF this] have g: "loan_held L ws k ?l (save_loan k ?l s)" by (simp add: loan_closed_def)
    show ?thesis unfolding resumeLoan_def Some option.case Let_def case_prod_beta
      by (split if_split, intro conjI impI, simp add: assms,
          rule kept_then[OF materialize_kept[OF g] loan_refreshed]) (simp_all add: loan_closed_def loan_runs_def)
  qed (use Some assms in \<open>simp add: resumeLoan_def\<close>)
qed (simp add: resumeLoan_def assms)

lemma created_kept:
  assumes "L s"
  shows "L (snd (createLoan en ws u dto s)) \<and> (\<forall>k. fst (createLoan en ws u dto s) = Inr k \<longrightarrow>
    (\<exists>l. nth_doc (lb_loans (snd (createLoan en ws u dto s))) k = Some l \<and> lo_workspaceId l = ws
       \<and> lo_teamMemberId l = ln_teamMemberId dto \<and> lo_createdBy l = u))"
    (is "?P (createLoan en ws u dto s)")
proof -
  let ?Q = "\<lambda>l. lo_workspaceId l = ws \<and> lo_teamMemberId l = ln_teamMemberId dto \<and> lo_createdBy l = u"
  have own: "?Q x" if "loan_head x = loan_head l" "?Q l" for x l
    using that by (simp add: loan_head_def)
  have m: "?P (and_then (insert_loan l s) (\<lambda>k s1. if lo_status l = ''active''
      then and_then (materialize en ws u m y k l s1) (\<lambda>_ s2. (Inr k, s2)) else (Inr k, s1)))"
    if l: "fresh_loan l" "?Q l" for l m y
  proof (cases "loan_valid l")
    case False
    then show ?thesis by (simp add: insert_loan_def assms)
  next
    case True
    have o: "lo_workspaceId l = ws" using l(2) by blast
    let ?k = "length (lb_loans s)" and ?s = "s\<lparr>lb_loans := lb_loans s @ [l]\<rparr>"
    have i: "insert_loan l s = (Inr ?k, ?s)" using True by (simp add: insert_loan_def)
    have h: "loan_held L ws ?k l ?s" using inserted_held[OF assms l(1) o] i by (simp add: loan_kept_def)
    have n: "\<exists>l'. nth_doc (lb_loans s2) ?k = Some l' \<and> ?Q l'"
      if a: "lo_status l = ''active''" and r: "materialize en ws u m y ?k l ?s = (Inr x, s2)" for x s2
    proof -
      have d: "ready ws l" using o a by (simp add: ready_def loan_runs_def)
      obtain q where q: "materializeLoanInstallments (le_pay en) ws u m y l (lb_pay s) = (Inr x, q)" "s2 = save_loan ?k x (?s\<lparr>lb_pay := q\<rparr>)"
        using r by (cases "materializeLoanInstallments (le_pay en) ws u m y l (lb_pay s)"; cases "fst (materializeLoanInstallments (le_pay en) ws u m y l (lb_pay s))")
          (auto simp: materialize_def on_pay_def)
      have "loan_change (lb_pay s) l q x" using changes_materialize[OF d, of "lb_pay s" "le_pay en" u m y] q(1) by (simp add: changes_def)
      from own[OF loan_changeD(2)[OF this] l(2)] show ?thesis by (simp add: q(2) save_loan_def nth_doc_def)
    qed
    show ?thesis
    proof (cases "lo_status l = ''active''")
      case True
      obtain r s2 where r: "materialize en ws u m y ?k l ?s = (r, s2)" by force
      have k: "L s2" using keptD[OF materialize_kept[OF h, of en u m y]] r True by (simp add: loan_runs_def)
      show ?thesis using k n[OF True] r by (cases r) (simp_all add: i True)
    next
      case False
      then show ?thesis using heldD[OF h] l(2) by (simp add: i nth_doc_def)
    qed
  qed
  have f: "fresh_loan (new_loan ws dto sch chain u)" "?Q (new_loan ws dto sch chain u)" for sch chain
    by (auto simp: fresh_loan_def new_loan_def scheduled_row_def)
  have g: "?P (case x of Inl e \<Rightarrow> (Inl e, s) | Inr sch \<Rightarrow>
      (let chain = resolveApprovalChain en c; loan = new_loan ws dto sch chain u in
             and_then (insert_loan loan s) (\<lambda>k s1.
               if lo_status loan = ''active''
               then and_then (materialize en ws u m y k loan s1) (\<lambda>_ s2. (Inr k, s2))
               else (Inr k, s1))))" for x c m y
    by (cases x) (use m[OF f] assms in \<open>simp_all only: sum.case Let_def, simp_all\<close>)
  show ?thesis unfolding createLoan_def
    by (rule disjE[OF guarded_split], elim conjE, erule ssubst, rule g, elim exE, simp add: assms)
qed

lemma topped_loan:
  assumes "L s"
  shows "L (snd (topUpLoan en ws k u dto s))"
proof (cases "loan_of s ws k")
  case (Some old)
  note k = loan_ofD[OF Some]
  define t where "t = (\<lambda>newTenor (x :: employer_loan) month year (sch :: loan_schedule).
    topped_up x k (round2 (jadd (lo_remainingPrincipal x) (tu_additionalAmount dto))) newTenor month year sch u)"
  define fin where "fin = (\<lambda>x. x\<lparr>lo_status := ''completed'', lo_closureType := Some ''top_up_superseded'', lo_closedBy := Some u,
    lo_remainingAmount := (0 :: rat)\<rparr> :: employer_loan)"
  have r: "L (snd (and_then (on_pay (reverseFutureLoanAdjustments (le_pay en) u x old (lb_pay s)) s) h))"
    if a: "lo_status old = ''active''" and h: "\<And>l s1. L s1 \<Longrightarrow> lb_loans s1 = lb_loans s \<Longrightarrow> quiet old l \<Longrightarrow> lo_status l = ''active'' \<Longrightarrow> L (snd (h l s1))"
    for h :: "employer_loan \<Rightarrow> loan_store \<Rightarrow> nat loaned" and x
  proof -
    let ?r = "reverseFutureLoanAdjustments (le_pay en) u x old (lb_pay s)"
    have q: "quietly old (lb_pay s) ?r" by (rule quietly_future)
    have n: "L (snd (on_pay ?r s))" using pay_moved[OF assms] q by (simp add: on_pay_def quietly_def)
    show ?thesis
    proof (cases "fst ?r")
      case (Inl e)
      then show ?thesis using n by (simp add: and_then_def on_pay_def)
    next
      case (Inr l)
      have "quiet old l" "lo_status l = ''active''" using q Inr a by (simp_all add: quietly_def)
      then show ?thesis using h[of "snd (on_pay ?r s)" l] n Inr by (simp add: and_then_def on_pay_def)
    qed
  qed
  have c: "L (snd (and_then (insert_loan l s1) (\<lambda>j s2. and_then (materialize en ws u m y j l s2) (\<lambda>_ s3. (Inr j, save_loan k (fin x) s3)))))"
    if s1: "L s1" "lb_loans s1 = lb_loans s" and x: "quiet old x" "lo_status x = ''active''" and l: "fresh_loan l" "lo_workspaceId l = ws" "lo_status l = ''active''"
      and a: "lo_status old = ''active''" for l s1 m y x
  proof (cases "loan_valid l")
    case True
    let ?j = "length (lb_loans s1)" and ?s = "s1\<lparr>lb_loans := lb_loans s1 @ [l]\<rparr>"
    have i: "insert_loan l s1 = (Inr ?j, ?s)" using True by (simp add: insert_loan_def)
    have h: "loan_held L ws ?j l ?s" using inserted_held[OF s1(1) l(1,2)] i by (simp add: loan_kept_def)
    have o: "loan_runs (lo_status l)" using l(3) by (simp add: loan_runs_def)
    obtain q s3 where q: "materialize en ws u m y ?j l ?s = (q, s3)" by force
    have n: "L s3" using keptD[OF materialize_kept[OF h o, of en u m y]] q by simp
    have f: "lb_loans s3 ! k = old" "k < length (lb_loans s3)"
      using materialize_others(2)[of en ws u m y ?j l ?s] materialize_others(3)[of k ?j en ws u m y l ?s] q k s1(2) by (simp_all add: nth_append)
    have e: "quiet x (fin x)" unfolding fin_def by (rule quiet_closed)
    have "loan_change (lb_pay s3) (lb_loans s3 ! k) (lb_pay s3) (fin x)" unfolding f(1)
      by (rule quiet_change[OF history_refl quiet_trans[OF x(1) e]]) (simp add: a fin_def loan_moves_simps)
    from loan_changed[OF n f(2) _ this] have "L (save_loan k (fin x) s3)" using a f(1) by (simp add: loan_closed_def)
    then show ?thesis using n q i by (cases q) simp_all
  qed (simp add: insert_loan_def s1(1))
  have f: "fresh_loan (t newTenor x m y sch)" "lo_status (t newTenor x m y sch) = ''active''" for newTenor x m y sch
    by (auto simp: fresh_loan_def topped_up_def t_def scheduled_row_def)
  have w: "lo_workspaceId (t newTenor x m y sch) = ws" if "quiet old x" for newTenor x m y sch
    using that k by (simp add: t_def topped_up_def quiet_def loan_head_def)
  show ?thesis unfolding topUpLoan_def Some option.case Let_def case_prod_beta
    by (rule guarded_kept[OF assms], rule r, simp, split sum.split, intro conjI allI impI, simp,
        rule c[unfolded fin_def], assumption+, rule f(1)[unfolded t_def], erule w[unfolded t_def], rule f(2)[unfolded t_def], simp)
qed (simp add: topUpLoan_def assms)

lemma perquisite_kept:
  assumes "L s" "k < length (lb_loans s)" "\<not> loan_closed (lb_loans s ! k)"
  shows "L (snd (perquisite_loan en ws u month year dry exempt k tally s))
    \<and> map lo_status (lb_loans (snd (perquisite_loan en ws u month year dry exempt k tally s))) = map lo_status (lb_loans s)"
    (is "?P (perquisite_loan en ws u month year dry exempt k tally s)")
proof -
  let ?log = "\<lambda>xs s1. save_loan k ((lb_loans s ! k)\<lparr>lo_perquisiteHistory := xs\<rparr>) s1"
  have h: "loan_held L (lo_workspaceId (lb_loans s ! k)) k (lb_loans s ! k) s"
    by (rule loaded_held) (use assms in \<open>simp_all add: loan_of_def nth_doc_def\<close>)
  have q: "quiet l (l\<lparr>lo_perquisiteHistory := xs\<rparr>)" for l xs by (simp add: quiet_def loan_head_def entries_linked_def)
  have st: "map lo_status ((lb_loans s)[k := (lb_loans s ! k)\<lparr>lo_perquisiteHistory := xs\<rparr>]) = map lo_status (lb_loans s)" for xs
    by (rule nth_equalityI) (use assms(2) in \<open>auto simp: nth_list_update\<close>)
  have g: "L (?log xs s) \<and> map lo_status (lb_loans (?log xs s)) = map lo_status (lb_loans s)" for xs
    using saved_loan[OF edited[OF h q]] st by (simp add: save_loan_def)
  have p: "L (snd (and_then (on_pay (in_pay (perquisite_row (le_pay en) ws tm month year x u (lb_pay s))) s)
        (\<lambda>adj s1. (Inr (Some adj), ?log (xs adj) s1))))
      \<and> map lo_status (lb_loans (snd (and_then (on_pay (in_pay (perquisite_row (le_pay en) ws tm month year x u (lb_pay s))) s)
        (\<lambda>adj s1. (Inr (Some adj), ?log (xs adj) s1))))) = map lo_status (lb_loans s)" if x: "0 \<le> x" for x xs tm
  proof -
    let ?r = "perquisite_row (le_pay en) ws tm month year x u (lb_pay s)"
    have c: "changes (\<lambda>_. lb_loans s ! k) (lb_loans s ! k) (lb_pay s) (in_pay ?r)"
      by (rule changes_pass) (simp add: hist.perquisite_inv x)
    note m = moved[OF h c]
    show ?thesis
    proof (cases "fst ?r")
      case (Inl e)
      then show ?thesis using keptD[OF m] by (simp add: and_then_def on_pay_def in_pay_def)
    next
      case (Inr j)
      have "loan_held L (lo_workspaceId (lb_loans s ! k)) k (lb_loans s ! k) (snd (on_pay (in_pay ?r) s))"
        using m Inr by (simp add: loan_kept_def in_pay_def)
      from saved_loan[OF edited[OF this q]] show ?thesis using Inr st by (simp add: and_then_def on_pay_def in_pay_def save_loan_def)
    qed
  qed
  have pass: "?P (and_then r (\<lambda>_ s1. (Inr z, s1)))" if "L (snd r) \<and> map lo_status (lb_loans (snd r)) = map lo_status (lb_loans s)"
    for r :: "nat option loaned" and z using that by simp
  show ?thesis unfolding perquisite_loan_def Let_def
    by (auto simp del: snd_and_then simp: assms(1) g intro!: pass p g)
qed

lemma perquisites_kept:
  assumes "L s" "\<And>k. k \<in> fst ` set ks \<Longrightarrow> k < length (lb_loans s) \<and> \<not> loan_closed (lb_loans s ! k)"
  shows "L (snd (perquisite_loans en ws u month year dry ks tally s))"
  using assms
proof (induction ks arbitrary: tally s)
  case (Cons x ks)
  obtain k exempt where x: "x = (k, exempt)" by force
  have o: "k < length (lb_loans s)" "\<not> loan_closed (lb_loans s ! k)" using Cons.prems(2)[of k] x by simp_all
  obtain r s1 where r: "perquisite_loan en ws u month year dry exempt k tally s = (r, s1)" by force
  have n: "L s1" "map lo_status (lb_loans s1) = map lo_status (lb_loans s)"
    using perquisite_kept[OF Cons.prems(1) o, of en ws u month year dry exempt tally] r by simp_all
  have l: "length (lb_loans s1) = length (lb_loans s)" using n(2) by (rule map_eq_imp_length_eq)
  have "i < length (lb_loans s1) \<and> \<not> loan_closed (lb_loans s1 ! i)" if "i \<in> fst ` set ks" for i
  proof -
    have i: "i < length (lb_loans s)" "\<not> loan_closed (lb_loans s ! i)" using Cons.prems(2)[of i] that by simp_all
    have "lo_status (lb_loans s1 ! i) = lo_status (lb_loans s ! i)" using n(2) l i(1) by (metis nth_map)
    then show ?thesis using i l by (simp add: loan_closed_def)
  qed
  from Cons.IH[OF n(1) this] show ?case using r n(1) by (cases r) (simp_all add: x)
qed simp

lemma month_perquisites_kept:
  assumes "L s"
  shows "L (snd (computeMonthlyPerquisites en ws month year dry u s))"
  unfolding computeMonthlyPerquisites_def
  by (rule perquisites_kept[OF assms]) (auto simp: loans_by_member_def running_loans_def loan_closed_def Let_def)

lemma request_created:
  assumes "L s"
  shows "L (snd (createLoanRequest en ws tm x n s))"
  unfolding createLoanRequest_def
  by (rule guarded_kept[OF assms]) (auto intro!: requested[OF assms])

lemma load_pending: "loadPendingRequest ws j s = (Inr r, s1)
    \<Longrightarrow> s1 = s \<and> j < length (lb_requests s) \<and> lb_requests s ! j = r \<and> lr_workspaceId r = ws \<and> lr_status r = ''pending''"
  by (auto simp: loadPendingRequest_def nth_doc_def split: option.splits if_splits)

lemma request_rejected:
  assumes "L s"
  shows "L (snd (rejectLoanRequest ws j u s))"
proof (cases "loadPendingRequest ws j s")
  case (Pair q s1)
  show ?thesis
  proof (cases q)
    case (Inl e)
    then show ?thesis using Pair assms by (auto simp: rejectLoanRequest_def loadPendingRequest_def split: option.splits if_splits)
  next
    case (Inr r)
    note l = load_pending[OF Pair[unfolded Inr]]
    have "request_decision s r (r\<lparr>lr_status := ''rejected'', lr_reviewedBy := Some u\<rparr>)" using l by (auto simp: request_decision_def)
    then have "L (save_loan_request j (r\<lparr>lr_status := ''rejected'', lr_reviewedBy := Some u\<rparr>) s)" using l by (intro decided[OF assms]) simp_all
    then show ?thesis using Pair Inr l by (simp add: rejectLoanRequest_def Let_def)
  qed
qed

lemma request_approved:
  assumes "L s"
  shows "L (snd (approveLoanRequest en ws j u dto s))"
proof (cases "loadPendingRequest ws j s")
  case (Pair q s1)
  show ?thesis
  proof (cases q)
    case (Inl e)
    then show ?thesis using Pair assms by (auto simp: approveLoanRequest_def loadPendingRequest_def split: option.splits if_splits)
  next
    case (Inr r)
    note l = load_pending[OF Pair[unfolded Inr]]
    obtain x s2 where c: "createLoan en ws u (loan_for_request r dto) s = (x, s2)" by force
    note k = created_kept[OF assms, of en ws u "loan_for_request r dto", unfolded c fst_conv snd_conv]
    have rs: "lb_requests s2 = lb_requests s" using create_requests[of en ws u "loan_for_request r dto" s] c by simp
    show ?thesis
    proof (cases x)
      case (Inl e)
      then show ?thesis using k Pair Inr l c by (simp add: approveLoanRequest_def)
    next
      case x: (Inr n)
      have "request_decision s2 r (r\<lparr>lr_status := ''approved'', lr_createdEmployerLoanId := Some n, lr_reviewedBy := Some u\<rparr>)"
        using k x l by (fastforce simp: request_decision_def loan_for_request_def)
      then have "L (save_loan_request j (r\<lparr>lr_status := ''approved'', lr_createdEmployerLoanId := Some n, lr_reviewedBy := Some u\<rparr>) s2)"
        using k l rs by (intro decided) simp_all
      then show ?thesis using Pair Inr l c x by (simp add: approveLoanRequest_def Let_def)
    qed
  qed
qed

end

section \<open>Sequences of operations\<close>

inductive loan_step :: "(loan_env \<Rightarrow> bool) \<Rightarrow> (pay_store \<Rightarrow> pay_store \<Rightarrow> bool) \<Rightarrow> loan_store \<Rightarrow> loan_store \<Rightarrow> bool"
  for E :: "loan_env \<Rightarrow> bool" and R :: "pay_store \<Rightarrow> pay_store \<Rightarrow> bool" where
  \<comment> \<open>in the environments \<open>E\<close>, with the operations \<open>R\<close> of the salary module\<close>
  salary: "R (lb_pay s) p \<Longrightarrow> loan_step E R s (s\<lparr>lb_pay := p\<rparr>)"
| create: "E en \<Longrightarrow> loan_step E R s (snd (createLoan en ws u dto s))"
| approve: "E en \<Longrightarrow> loan_step E R s (snd (approveLoan en ws k u approve s))"
| skip: "E en \<Longrightarrow> loan_step E R s (snd (skipInstallment en ws k u index longer reason s))"
| pause: "E en \<Longrightarrow> loan_step E R s (snd (pauseLoan en ws k u reason s))"
| resume: "E en \<Longrightarrow> loan_step E R s (snd (resumeLoan en ws k u s))"
| pay_off: "E en \<Longrightarrow> loan_step E R s (snd (earlyPayoffLoan en ws k u x reason s))"
| top: "E en \<Longrightarrow> loan_step E R s (snd (topUpLoan en ws k u extra s))"
| write_off: "E en \<Longrightarrow> loan_step E R s (snd (writeOffLoan en ws k u x reason s))"
| perquisites: "E en \<Longrightarrow> loan_step E R s (snd (computeMonthlyPerquisites en ws month year dry u s))"
| request: "E en \<Longrightarrow> loan_step E R s (snd (createLoanRequest en ws tm x n s))"
| approve_request: "E en \<Longrightarrow> loan_step E R s (snd (approveLoanRequest en ws j u terms s))"
| reject_request: "loan_step E R s (snd (rejectLoanRequest ws j u s))"

abbreviation loan_steps :: "loan_store \<Rightarrow> loan_store \<Rightarrow> bool" where
  "loan_steps \<equiv> (loan_step (\<lambda>_. True) salary_step)\<^sup>*\<^sup>*"

context loan_ledger begin

lemma salary_kept:
  assumes "L s" "salary_step (lb_pay s) p"
  shows "L (s\<lparr>lb_pay := p\<rparr>)"
  by (rule pay_moved[OF assms(1)], rule hist.steps_inv[OF r_into_rtranclp, OF assms(2)]) simp

lemma step_kept: "loan_step E salary_step s s' \<Longrightarrow> L s \<Longrightarrow> L s'"
  by (induction rule: loan_step.induct)
    (blast intro: salary_kept created_kept[THEN conjunct1] approved_loan skipped_loan paused_loan resumed_loan paid_off_loan topped_loan
      written_off_loan month_perquisites_kept request_created request_approved request_rejected)+

lemma ledger_steps: "loan_steps s s' \<Longrightarrow> L s \<Longrightarrow> L s'"
  by (induction rule: rtranclp_induct) (auto intro: step_kept)

end

end
