(* ===== verification/LoanBooks.thy ===== *)
theory LoanBooks
  imports LoanLedger
begin

text \<open>
  The books of loans: every deduction of a loan is a row of its member that no other loan has, a loan that
  is not approved has none, a closed loan never changes again, a request leads to at most one loan, and the
  records of the salary module agree with their rows whatever is done to loans.
\<close>

section \<open>The deductions of the loans\<close>

definition loan_ok :: "pay_store \<Rightarrow> employer_loan \<Rightarrow> bool" where
  "loan_ok st l \<longleftrightarrow> entries_linked l \<and> distinct (lo_linkedAdjustmentIds l)
     \<and> (\<forall>j\<in>set (lo_linkedAdjustmentIds l). recovery_row (lo_workspaceId l) (lo_teamMemberId l) st j)
     \<and> (unapproved (lo_status l) \<longrightarrow> lo_linkedAdjustmentIds l = [])"

definition loans_ok :: "loan_store \<Rightarrow> bool" where
  "loans_ok s \<longleftrightarrow> (\<forall>k<length (lb_loans s). loan_ok (lb_pay s) (lb_loans s ! k))
     \<and> (\<forall>j<length (lb_loans s). \<forall>k<length (lb_loans s). j \<noteq> k
          \<longrightarrow> set (lo_linkedAdjustmentIds (lb_loans s ! j)) \<inter> set (lo_linkedAdjustmentIds (lb_loans s ! k)) = {})"

lemma loan_ok_later: "loan_ok st l \<Longrightarrow> history st p \<Longrightarrow> loan_ok p l"
  by (auto simp: loan_ok_def intro: recovery_row_later)

lemma loan_ok_changed:
  assumes "loan_ok st a" "loan_change st a p b"
  shows "loan_ok p b"
proof -
  note c = loan_changeD[OF assms(2)]
  obtain xs where x: "lo_linkedAdjustmentIds b = lo_linkedAdjustmentIds a @ xs" "distinct xs"
    "\<forall>k\<in>set xs. length (ps_adjustments st) \<le> k \<and> recovery_row (lo_workspaceId a) (lo_teamMemberId a) p k" using c(5) by blast
  have a: "recovery_row (lo_workspaceId a) (lo_teamMemberId a) st j" if "j \<in> set (lo_linkedAdjustmentIds a)" for j
    using assms(1) that by (simp add: loan_ok_def)
  then have "j < length (ps_adjustments st)" if "j \<in> set (lo_linkedAdjustmentIds a)" for j
    using that by (simp add: recovery_row_def)
  then have "set (lo_linkedAdjustmentIds a) \<inter> set xs = {}" using x(3) by fastforce
  moreover have "unapproved (lo_status b) \<Longrightarrow> lo_linkedAdjustmentIds b = []"
    using c(6) unapproved_before[OF c(3)] assms(1) by (simp add: loan_ok_def)
  ultimately show ?thesis using assms(1) x a recovery_row_later[OF a c(1)] head_owner[OF c(2)] c(4) by (auto simp: loan_ok_def)
qed

interpretation deductions: loan_ledger loans_ok
proof (unfold_locales, goal_cases)
  case (1 s p)
  then show ?case unfolding loans_ok_def by (auto intro: loan_ok_later)
next
  case (2 s k p b)
  let ?a = "lb_loans s ! k" and ?links = "\<lambda>l. set (lo_linkedAdjustmentIds l)"
  note c = loan_changeD[OF 2(4)]
  have ok: "loan_ok (lb_pay s) (lb_loans s ! j)" if "j < length (lb_loans s)" for j using 2(1) that by (simp add: loans_ok_def)
  have b: "loan_ok p b" by (rule loan_ok_changed[OF ok[OF 2(2)] 2(4)])
  obtain xs where x: "lo_linkedAdjustmentIds b = lo_linkedAdjustmentIds ?a @ xs" "\<forall>i\<in>set xs. length (ps_adjustments (lb_pay s)) \<le> i"
    using c(5) by blast
  have other: "?links (lb_loans s ! j) \<inter> ?links b = {}" if j: "j < length (lb_loans s)" "j \<noteq> k" for j
  proof -
    have "?links (lb_loans s ! j) \<inter> ?links ?a = {}" using 2(1,2) j by (simp add: loans_ok_def)
    moreover have "i < length (ps_adjustments (lb_pay s))" if "i \<in> ?links (lb_loans s ! j)" for i
      using ok[OF j(1)] that by (simp add: loan_ok_def recovery_row_def)
    then have "?links (lb_loans s ! j) \<inter> set xs = {}" using x(2) by fastforce
    ultimately show ?thesis using x(1) by auto
  qed
  have "?links ((lb_loans s)[k := b] ! i) \<inter> ?links ((lb_loans s)[k := b] ! j) = {}"
    if "i < length (lb_loans s)" "j < length (lb_loans s)" "i \<noteq> j" for i j
    using other[of i] other[of j] 2(1) that by (cases "i = k"; cases "j = k") (auto simp: loans_ok_def)
  moreover have "loan_ok p ((lb_loans s)[k := b] ! j)" if "j < length (lb_loans s)" for j
    using b loan_ok_later[OF ok[OF that] c(1)] that by (cases "j = k") simp_all
  ultimately show ?case by (simp add: loans_ok_def save_loan_def)
next
  case (3 s l)
  then have "loan_ok (lb_pay s) l" by (auto simp: loan_ok_def fresh_loan_def entries_linked_def)
  then show ?case using 3 by (auto simp: loans_ok_def nth_append less_Suc_eq fresh_loan_def)
next
  case (4 s r)
  then show ?case by (simp add: loans_ok_def)
next
  case (5 s j r)
  then show ?case by (simp add: loans_ok_def save_loan_request_def)
qed

lemma loan_deductions:
  assumes "loans_ok s" "k < length (lb_loans s)" "j \<in> set (lo_linkedAdjustmentIds (lb_loans s ! k))"
  shows "recovery_row (lo_workspaceId (lb_loans s ! k)) (lo_teamMemberId (lb_loans s ! k)) (lb_pay s) j"
    "\<not> unapproved (lo_status (lb_loans s ! k))" "i < length (lb_loans s) \<Longrightarrow> j \<in> set (lo_linkedAdjustmentIds (lb_loans s ! i)) \<Longrightarrow> i = k"
    "distinct (lo_linkedAdjustmentIds (lb_loans s ! k))"
proof -
  have k: "loan_ok (lb_pay s) (lb_loans s ! k)" using assms by (simp add: loans_ok_def)
  then show "recovery_row (lo_workspaceId (lb_loans s ! k)) (lo_teamMemberId (lb_loans s ! k)) (lb_pay s) j"
    "\<not> unapproved (lo_status (lb_loans s ! k))" "distinct (lo_linkedAdjustmentIds (lb_loans s ! k))"
    using assms(3) by (auto simp: loan_ok_def)
  show "i = k" if "i < length (lb_loans s)" "j \<in> set (lo_linkedAdjustmentIds (lb_loans s ! i))"
    using assms that unfolding loans_ok_def by blast
qed

section \<open>The life of a loan\<close>

definition later_loan :: "employer_loan \<Rightarrow> employer_loan \<Rightarrow> bool" where
  "later_loan a b \<longleftrightarrow> loan_head b = loan_head a \<and> loan_moves (lo_status a) (lo_status b) \<and> (loan_closed a \<longrightarrow> b = a)
     \<and> (\<exists>xs. lo_linkedAdjustmentIds b = lo_linkedAdjustmentIds a @ xs)"

lemma later_loan_refl [simp]: "later_loan a a"
  by (simp add: later_loan_def)

lemma later_loan_trans:
  assumes "later_loan a b" "later_loan b c"
  shows "later_loan a c"
  using assms loan_moves_trans[of "lo_status a" "lo_status b" "lo_status c"] by (auto simp: later_loan_def)

definition loans_later :: "loan_store \<Rightarrow> loan_store \<Rightarrow> bool" where
  "loans_later s s' \<longleftrightarrow> length (lb_loans s) \<le> length (lb_loans s')
     \<and> (\<forall>k<length (lb_loans s). later_loan (lb_loans s ! k) (lb_loans s' ! k))
     \<and> length (lb_requests s) \<le> length (lb_requests s')
     \<and> (\<forall>j<length (lb_requests s). lr_status (lb_requests s ! j) \<noteq> ''pending'' \<longrightarrow> lb_requests s' ! j = lb_requests s ! j)"

interpretation life: loan_ledger "loans_later s0" for s0
proof (unfold_locales, goal_cases)
  case (1 s p)
  then show ?case by (simp add: loans_later_def)
next
  case (2 s k p b)
  have "later_loan (lb_loans s ! k) b" using loan_changeD[OF 2(4)] 2(3) by (auto simp: later_loan_def)
  then have "later_loan (lb_loans s0 ! i) ((lb_loans s)[k := b] ! i)" if "i < length (lb_loans s0)" for i
    using 2(1,2) that later_loan_trans[of "lb_loans s0 ! i" "lb_loans s ! i" b] by (cases "i = k") (auto simp: loans_later_def)
  then show ?case using 2(1) by (simp add: loans_later_def save_loan_def)
next
  case (3 s l)
  then show ?case by (auto simp: loans_later_def nth_append)
next
  case (4 s r)
  then show ?case by (auto simp: loans_later_def nth_append)
next
  case (5 s j r)
  have "(lb_requests s)[j := r] ! i = lb_requests s0 ! i"
    if "i < length (lb_requests s0)" "lr_status (lb_requests s0 ! i) \<noteq> ''pending''" for i
    using 5 that by (cases "i = j") (auto simp: loans_later_def request_decision_def)
  then show ?case using 5 by (simp add: loans_later_def save_loan_request_def)
qed

section \<open>Requests\<close>

definition loan_request_ok :: "loan_store \<Rightarrow> loan_request \<Rightarrow> bool" where
  \<comment> \<open>an approved request has its loan\<close>
  "loan_request_ok s r \<longleftrightarrow> (case lr_createdEmployerLoanId r of
      None \<Rightarrow> lr_status r \<noteq> ''approved''
    | Some k \<Rightarrow> lr_status r = ''approved'' \<and> (\<exists>l. nth_doc (lb_loans s) k = Some l \<and> lo_workspaceId l = lr_workspaceId r
        \<and> lo_teamMemberId l = lr_teamMemberId r \<and> Some (lo_createdBy l) = lr_reviewedBy r))"

definition requests_ok :: "loan_store \<Rightarrow> bool" where
  "requests_ok s \<longleftrightarrow> (\<forall>j<length (lb_requests s). loan_request_ok s (lb_requests s ! j))
     \<and> (\<forall>i<length (lb_requests s). \<forall>j<length (lb_requests s).
          (\<exists>ws tm. pending_request ws tm (lb_requests s ! i) \<and> pending_request ws tm (lb_requests s ! j)) \<longrightarrow> i = j)"

definition same_owners :: "loan_store \<Rightarrow> loan_store \<Rightarrow> bool" where
  "same_owners s s' \<longleftrightarrow> (\<forall>k<length (lb_loans s). k < length (lb_loans s')
     \<and> lo_workspaceId (lb_loans s' ! k) = lo_workspaceId (lb_loans s ! k)
     \<and> lo_teamMemberId (lb_loans s' ! k) = lo_teamMemberId (lb_loans s ! k) \<and> lo_createdBy (lb_loans s' ! k) = lo_createdBy (lb_loans s ! k))"

lemma loan_request_ok_kept: "loan_request_ok s r \<Longrightarrow> same_owners s s' \<Longrightarrow> loan_request_ok s' r"
  by (auto simp: loan_request_ok_def same_owners_def nth_doc_def split: option.splits if_splits)

lemma requests_ok_kept: "requests_ok s \<Longrightarrow> same_owners s s' \<Longrightarrow> lb_requests s' = lb_requests s \<Longrightarrow> requests_ok s'"
  unfolding requests_ok_def by (auto intro: loan_request_ok_kept)

interpretation requests: loan_ledger requests_ok
proof (unfold_locales, goal_cases)
  case (1 s p)
  then show ?case by (elim requests_ok_kept) (simp_all add: same_owners_def)
next
  case (2 s k p b)
  have "loan_head b = loan_head (lb_loans s ! k)" using loan_changeD[OF 2(4)] by blast
  then show ?case
    by (intro requests_ok_kept[OF 2(1)]) (use 2(2) in \<open>auto simp: same_owners_def save_loan_def loan_head_def nth_list_update\<close>)
next
  case (3 s l)
  then show ?case by (elim requests_ok_kept) (simp_all add: same_owners_def nth_append)
next
  case (4 s r)
  have old: "loan_request_ok (s\<lparr>lb_requests := x\<rparr>) q = loan_request_ok s q" for x q by (simp add: loan_request_ok_def split: option.split)
  have "loan_request_ok s r" using 4 by (simp add: loan_request_ok_def)
  moreover have "\<not> (pending_request ws tm (lb_requests s ! i) \<and> pending_request ws tm r)" if "i < length (lb_requests s)" for i ws tm
    using 4(4) that by (auto simp: pending_request_def list_ex_iff)
  ultimately show ?case using 4(1) by (auto simp: requests_ok_def old nth_append less_Suc_eq)
next
  case (5 s j r)
  let ?q = "lb_requests s ! j"
  have old: "loan_request_ok (s\<lparr>lb_requests := x\<rparr>) q = loan_request_ok s q" for x q by (simp add: loan_request_ok_def split: option.split)
  have q: "loan_request_ok s ?q" "lr_status ?q = ''pending''" using 5 by (simp_all add: requests_ok_def request_decision_def)
  then have n: "lr_createdEmployerLoanId ?q = None" by (auto simp: loan_request_ok_def split: option.splits)
  have "loan_request_ok s r" using 5(3) n by (auto simp: request_decision_def loan_request_ok_def)
  moreover have "\<not> pending_request ws tm r" for ws tm using 5(3) by (auto simp: request_decision_def pending_request_def)
  ultimately show ?case using 5(1,2) by (auto simp: requests_ok_def old save_loan_request_def nth_list_update)
qed

text \<open>
  C7. Every deduction of a loan is accounted for: along any sequence of operations on loans, loan requests and
  the salary module that starts without loans, each deduction linked from a loan is a row the system wrote
  for loan recovery, on a record of the borrower in the workspace of the loan and for the month of that record,
  it is linked once and from no other loan, the loan has been approved (its status is neither pending approval
  nor reversed), and the deduction that an installment names is among the linked ones.
\<close>

theorem loan_deductions_accounted:
  assumes "loan_steps s s'" "lb_loans s = []" "k < length (lb_loans s')"
  shows "let l = lb_loans s' ! k in
      distinct (lo_linkedAdjustmentIds l)
      \<and> (\<forall>e\<in>set (lo_installments l). set_option (li_adjustmentId e) \<subseteq> set (lo_linkedAdjustmentIds l))
      \<and> (\<forall>j\<in>set (lo_linkedAdjustmentIds l). j < length (ps_adjustments (lb_pay s')) \<and>
          (let a = ps_adjustments (lb_pay s') ! j in
             aj_category a = ''loan_recovery'' \<and> aj_source a = System \<and> aj_workspaceId a = lo_workspaceId l
             \<and> aj_salaryId a < length (ps_salaries (lb_pay s'))
             \<and> salary_id (ps_salaries (lb_pay s') ! aj_salaryId a) = (lo_workspaceId l, lo_teamMemberId l, aj_month a, aj_year a))
          \<and> lo_status l \<noteq> ''pending_approval'' \<and> lo_status l \<noteq> ''reversed''
          \<and> (\<forall>i<length (lb_loans s'). j \<in> set (lo_linkedAdjustmentIds (lb_loans s' ! i)) \<longrightarrow> i = k))"
proof -
  have ok: "loans_ok s'" by (rule deductions.ledger_steps[OF assms(1)]) (simp add: loans_ok_def assms(2))
  let ?l = "lb_loans s' ! k"
  have k: "loan_ok (lb_pay s') ?l" using ok assms(3) by (simp add: loans_ok_def)
  have "j < length (ps_adjustments (lb_pay s')) \<and>
          (let a = ps_adjustments (lb_pay s') ! j in
             aj_category a = ''loan_recovery'' \<and> aj_source a = System \<and> aj_workspaceId a = lo_workspaceId ?l
             \<and> aj_salaryId a < length (ps_salaries (lb_pay s'))
             \<and> salary_id (ps_salaries (lb_pay s') ! aj_salaryId a) = (lo_workspaceId ?l, lo_teamMemberId ?l, aj_month a, aj_year a))
          \<and> lo_status ?l \<noteq> ''pending_approval'' \<and> lo_status ?l \<noteq> ''reversed''
          \<and> (\<forall>i<length (lb_loans s'). j \<in> set (lo_linkedAdjustmentIds (lb_loans s' ! i)) \<longrightarrow> i = k)"
    if j: "j \<in> set (lo_linkedAdjustmentIds ?l)" for j
    using loan_deductions[OF ok assms(3) j]
    by (auto simp: recovery_row_def unapproved_def Let_def length_ids) (simp add: ids_def)
  then show ?thesis using k by (simp add: Let_def loan_ok_def entries_linked_def)
qed


text \<open>
  Requests for loans: along any sequence of operations that starts without requests, a member never has
  two pending requests in a workspace, and a request is approved exactly when it names a loan, which
  exists, belongs to the member and the workspace of the request and was created by the one who approved it.
\<close>

theorem loan_requests_sound:
  assumes "loan_steps s s'" "lb_requests s = []" "j < length (lb_requests s')"
  shows "let r = lb_requests s' ! j in
      (lr_status r = ''approved'' \<longleftrightarrow> lr_createdEmployerLoanId r \<noteq> None)
      \<and> (\<forall>k. lr_createdEmployerLoanId r = Some k \<longrightarrow> k < length (lb_loans s') \<and> (let l = lb_loans s' ! k in
           lo_workspaceId l = lr_workspaceId r \<and> lo_teamMemberId l = lr_teamMemberId r \<and> lr_reviewedBy r = Some (lo_createdBy l)))
      \<and> (\<forall>i<length (lb_requests s'). (let q = lb_requests s' ! i in lr_status r = ''pending'' \<and> lr_status q = ''pending''
           \<and> lr_workspaceId q = lr_workspaceId r \<and> lr_teamMemberId q = lr_teamMemberId r) \<longrightarrow> i = j)"
proof -
  have ok: "requests_ok s'" by (rule requests.ledger_steps[OF assms(1)]) (simp add: requests_ok_def assms(2))
  have r: "loan_request_ok s' (lb_requests s' ! j)" using ok assms(3) by (simp add: requests_ok_def)
  have one: "i = j" if "i < length (lb_requests s')" "lr_status (lb_requests s' ! j) = ''pending''" "lr_status (lb_requests s' ! i) = ''pending''"
    "lr_workspaceId (lb_requests s' ! i) = lr_workspaceId (lb_requests s' ! j)" "lr_teamMemberId (lb_requests s' ! i) = lr_teamMemberId (lb_requests s' ! j)" for i
    using ok that assms(3) unfolding requests_ok_def pending_request_def by blast
  show ?thesis unfolding Let_def
    using r one by (auto simp: loan_request_ok_def nth_doc_def split: option.splits if_splits)
qed

section \<open>The salary module\<close>

lemma request_pay [simp]: "lb_pay (snd (createLoanRequest en ws tm x n s)) = lb_pay s" "lb_pay (snd (rejectLoanRequest ws j u s)) = lb_pay s"
proof -
  show "lb_pay (snd (createLoanRequest en ws tm x n s)) = lb_pay s"
    by (simp add: createLoanRequest_def guarded_def split: option.split)
  show "lb_pay (snd (rejectLoanRequest ws j u s)) = lb_pay s"
    by (simp add: rejectLoanRequest_def loadPendingRequest_def save_loan_request_def Let_def split: option.split)
qed

context store_invariant begin

lemmas loan_operations_inv = loans.created loans.approved loans.skipped loans.paused loans.resumed loans.paid_off loans.topped
  loans.written_off loans.month_perquisites loans.approved_request

lemma loan_step_inv: "loan_step E salary_step s s' \<Longrightarrow> I (lb_pay s) \<Longrightarrow> I (lb_pay s')"
proof (induction rule: loan_step.induct)
  case (salary s p)
  then show ?case using salary_step_inv by simp
qed (auto intro: loan_operations_inv)

end

lemma agree_loan_step:
  assumes "loan_step (\<lambda>en. en_sum (le_pay en) = S) (settled_step S) s s'" "wf_store (lb_pay s)" "agree S {} {} (lb_pay s)"
  shows "agree S {} {} (lb_pay s') \<and> wf_store (lb_pay s')"
proof -
  have w: "wf_store (lb_pay s')" using assms(1,2)
  proof (induction rule: loan_step.induct)
    case (salary s p)
    then show ?case using wf.steps_inv[OF settled_is_step] by simp
  qed (auto intro: wf.loan_operations_inv)
  have "agree S {} {} (lb_pay s')" using assms
  proof (induction rule: loan_step.induct)
    case (salary s p)
    then show ?case using settled_agree by simp
  qed (auto intro: loan_books.created loan_books.approved loan_books.skipped loan_books.paused loan_books.resumed loan_books.paid_off
      loan_books.topped loan_books.written_off loan_books.month_perquisites loan_books.approved_request)
  then show ?thesis using w by blast
qed


end
