(* ===== verification/PlanChanges.thy ===== *)
theory PlanChanges
  imports SalaryAgree
begin

text \<open>
  What closing a recovery plan early does, exactly: which deductions are taken back and which stay.
\<close>

lemma reverse_doc_result:
  "\<exists>st'. reverseAdjustmentDoc en u r k st = (Inr (), st')
    \<and> ps_adjustments st' = (ps_adjustments st)[k := reversed u r (ps_adjustments st ! k)] \<and> ps_plans st' = ps_plans st"
  by (auto simp: reverseAdjustmentDoc_def Let_def update_adjustment_def recalculateSalaryFromAdjustments_def syncSalaryStatus_def
      update_salary_def)

definition deductions_of :: "recovery_plan \<Rightarrow> nat list \<Rightarrow> nat set" where
  "deductions_of plan is = {j. \<exists>i\<in>set is. ie_adjustmentId (rp_installments plan ! i) = Some j}"

definition reversed_entries :: "nat list \<Rightarrow> plan_entry list \<Rightarrow> plan_entry list" where
  "reversed_entries is es = map (\<lambda>i. if i \<in> set is then (es ! i)\<lparr>ie_status := Reversed_entry\<rparr> else es ! i) [0..<length es]"

lemma reversed_entries_Cons:
  assumes "i < length es"
  shows "reversed_entries is (es[i := (es ! i)\<lparr>ie_status := Reversed_entry\<rparr>]) = reversed_entries (i # is) es"
  using assms by (auto simp: reversed_entries_def nth_list_update intro!: map_cong)

lemma reverse_future_result:
  assumes "\<forall>i\<in>set is. i < length (rp_installments plan)"
  shows "\<exists>st'. reverse_future en u r is plan st = (Inr (plan\<lparr>rp_installments := reversed_entries is (rp_installments plan)\<rparr>), st')
    \<and> ps_plans st' = ps_plans st \<and> length (ps_adjustments st') = length (ps_adjustments st)
    \<and> (\<forall>j<length (ps_adjustments st). (j \<notin> deductions_of plan is \<longrightarrow> ps_adjustments st' ! j = ps_adjustments st ! j)
         \<and> (j \<in> deductions_of plan is \<or> \<not> aj_active (ps_adjustments st ! j) \<longrightarrow> \<not> aj_active (ps_adjustments st' ! j)))"
  using assms
proof (induction "is" arbitrary: plan st)
  case Nil
  show ?case by (simp add: reversed_entries_def deductions_of_def map_nth)
next
  case (Cons i "is")
  let ?e = "rp_installments plan ! i"
  let ?plan1 = "plan\<lparr>rp_installments := (rp_installments plan)[i := ?e\<lparr>ie_status := Reversed_entry\<rparr>]\<rparr>"
  have i: "i < length (rp_installments plan)" using Cons.prems by simp
  have d: "deductions_of plan (i # is) = set_option (ie_adjustmentId ?e) \<union> deductions_of plan is"
    by (auto simp: deductions_of_def)
  have same: "deductions_of ?plan1 is = deductions_of plan is"
    using i by (auto simp: deductions_of_def nth_list_update split: if_splits)
  obtain st1 where s1: "(case ie_adjustmentId ?e of None \<Rightarrow> (Inr (), st)
       | Some k \<Rightarrow> if still_active st k then reverseAdjustmentDoc en u r k st else (Inr (), st)) = (Inr (), st1)"
    "ps_plans st1 = ps_plans st" "length (ps_adjustments st1) = length (ps_adjustments st)"
    "\<forall>j<length (ps_adjustments st). (ie_adjustmentId ?e \<noteq> Some j \<longrightarrow> ps_adjustments st1 ! j = ps_adjustments st ! j)
       \<and> (ie_adjustmentId ?e = Some j \<or> \<not> aj_active (ps_adjustments st ! j) \<longrightarrow> \<not> aj_active (ps_adjustments st1 ! j))"
  proof (cases "ie_adjustmentId ?e")
    case None
    then show ?thesis using that[of st] by simp
  next
    case (Some k)
    show ?thesis
    proof (cases "still_active st k")
      case True
      obtain s where "reverseAdjustmentDoc en u r k st = (Inr (), s)"
        "ps_adjustments s = (ps_adjustments st)[k := reversed u r (ps_adjustments st ! k)]" "ps_plans s = ps_plans st"
        using reverse_doc_result[of en u r k st] by auto
      note r = this
      have "(Some k \<noteq> Some j \<longrightarrow> ps_adjustments s ! j = ps_adjustments st ! j)
          \<and> (Some k = Some j \<or> \<not> aj_active (ps_adjustments st ! j) \<longrightarrow> \<not> aj_active (ps_adjustments s ! j))"
        if "j < length (ps_adjustments st)" for j
        using that unfolding r(2) by (cases "j = k") (simp_all add: reversed_def)
      moreover have "length (ps_adjustments s) = length (ps_adjustments st)" using r(2) by simp
      ultimately show ?thesis using that[of s] r(1,3) unfolding Some using True by simp
    next
      case False
      then show ?thesis using that[of st] Some by (auto simp: still_active_def nth_doc_def split: if_splits)
    qed
  qed
  have "\<forall>i\<in>set is. i < length (rp_installments ?plan1)" using Cons.prems by simp
  from Cons.IH[OF this, of st1] obtain st2 where s2:
    "reverse_future en u r is ?plan1 st1 = (Inr (?plan1\<lparr>rp_installments := reversed_entries is (rp_installments ?plan1)\<rparr>), st2)"
    "ps_plans st2 = ps_plans st1" "length (ps_adjustments st2) = length (ps_adjustments st1)"
    "\<forall>j<length (ps_adjustments st1). (j \<notin> deductions_of plan is \<longrightarrow> ps_adjustments st2 ! j = ps_adjustments st1 ! j)
       \<and> (j \<in> deductions_of plan is \<or> \<not> aj_active (ps_adjustments st1 ! j) \<longrightarrow> \<not> aj_active (ps_adjustments st2 ! j))"
    unfolding same by blast
  have "reverse_future en u r (i # is) plan st
      = (Inr (plan\<lparr>rp_installments := reversed_entries (i # is) (rp_installments plan)\<rparr>), st2)"
    using s1(1) s2(1) reversed_entries_Cons[OF i] by (simp add: Let_def)
  moreover have "(j \<notin> deductions_of plan (i # is) \<longrightarrow> ps_adjustments st2 ! j = ps_adjustments st ! j)
      \<and> (j \<in> deductions_of plan (i # is) \<or> \<not> aj_active (ps_adjustments st ! j) \<longrightarrow> \<not> aj_active (ps_adjustments st2 ! j))"
    if "j < length (ps_adjustments st)" for j
    using that s1(3,4) s2(4) unfolding d by auto
  ultimately show ?case using s1(2,3) s2(2,3) by (intro exI[of _ st2]) simp
qed

text \<open>
  C21. Paying a recovery plan off early closes it exactly: the plan is completed with nothing left, every
  installment from the current month on is reversed and its deduction no longer active, and the
  installments of past months and all other adjustments are untouched.
\<close>

theorem early_payoff_exact:
  assumes "plan_of st ws k = Some plan" "rp_status plan \<in> {''active'', ''paused''}"
  shows "\<exists>plan' st'. earlyPayoffAdvanceRecoveryPlan en ws k u reason st = (Inr plan', st')
    \<and> rp_status plan' = ''completed'' \<and> rp_closureType plan' = Some ''early_payoff'' \<and> rp_remainingAmount plan' = 0
    \<and> rp_totalAmount plan' = rp_totalAmount plan \<and> nth_doc (ps_plans st') k = Some plan'
    \<and> length (rp_installments plan') = length (rp_installments plan)
    \<and> (\<forall>i<length (rp_installments plan). let e = rp_installments plan ! i; e' = rp_installments plan' ! i in
         if is_elapsed en (ie_month e) (ie_year e) then e' = e
         else ie_status e' = Reversed_entry
           \<and> (ie_status e \<noteq> Reversed_entry \<longrightarrow> (\<forall>j. ie_adjustmentId e = Some j \<longrightarrow> \<not> still_active st' j)))
    \<and> (\<forall>j<length (ps_adjustments st). (\<forall>e\<in>set (rp_installments plan). ie_adjustmentId e = Some j
           \<longrightarrow> ie_status e = Reversed_entry \<or> is_elapsed en (ie_month e) (ie_year e))
         \<longrightarrow> ps_adjustments st' ! j = ps_adjustments st ! j)"
proof -
  let ?is = "payoff_entries en plan" and ?es = "rp_installments plan"
  have k: "k < length (ps_plans st)" using assms(1) by (auto simp: plan_of_def nth_doc_def split: option.splits if_splits)
  have "\<forall>i\<in>set ?is. i < length ?es" by (simp add: payoff_entries_def Let_def)
  from reverse_future_result[OF this, where en = en and u = u and r = reason and st = st] obtain st1 where s:
    "reverse_future en u reason ?is plan st = (Inr (plan\<lparr>rp_installments := reversed_entries ?is ?es\<rparr>), st1)"
    "ps_plans st1 = ps_plans st" "length (ps_adjustments st1) = length (ps_adjustments st)"
    "\<And>j. j < length (ps_adjustments st) \<Longrightarrow> j \<notin> deductions_of plan ?is \<Longrightarrow> ps_adjustments st1 ! j = ps_adjustments st ! j"
    "\<And>j. j < length (ps_adjustments st) \<Longrightarrow> j \<in> deductions_of plan ?is \<Longrightarrow> \<not> aj_active (ps_adjustments st1 ! j)" by auto
  define plan' where "plan' = plan\<lparr>rp_installments := reversed_entries ?is ?es, rp_status := ''completed'',
      rp_closureType := Some ''early_payoff'', rp_remainingAmount := 0\<rparr>"
  define st' where "st' = save_plan k plan' st1"
  have run: "earlyPayoffAdvanceRecoveryPlan en ws k u reason st = (Inr plan', st')"
    using assms s(1) by (auto simp: earlyPayoffAdvanceRecoveryPlan_def refreshPlanProgress_def Let_def plan'_def st'_def)
  have entry: "rp_installments plan' ! i = (if i \<in> set ?is then (?es ! i)\<lparr>ie_status := Reversed_entry\<rparr> else ?es ! i)"
    if "i < length ?es" for i using that by (simp add: plan'_def reversed_entries_def)
  have inactive: "\<not> still_active st' j" if "ie_adjustmentId (?es ! i) = Some j" "i \<in> set ?is" for i j
  proof -
    have "j \<in> deductions_of plan ?is" using that by (auto simp: deductions_of_def)
    then show ?thesis using s(3) s(5)[of j] by (auto simp: still_active_def nth_doc_def st'_def save_plan_def)
  qed
  have mem: "i \<in> set ?is \<longleftrightarrow> i < length ?es \<and> ie_status (?es ! i) \<noteq> Reversed_entry \<and> \<not> is_elapsed en (ie_month (?es ! i)) (ie_year (?es ! i))"
    for i by (auto simp: payoff_entries_def Let_def)
  have kept: "ps_adjustments st' ! j = ps_adjustments st ! j" if "j < length (ps_adjustments st)"
    "\<forall>e\<in>set ?es. ie_adjustmentId e = Some j \<longrightarrow> ie_status e = Reversed_entry \<or> is_elapsed en (ie_month e) (ie_year e)" for j
  proof -
    have "j \<notin> deductions_of plan ?is" using that(2) by (auto simp: deductions_of_def mem)
    then show ?thesis using s(4)[OF that(1)] by (simp add: st'_def save_plan_def)
  qed
  have "let e = ?es ! i; e' = rp_installments plan' ! i in
         if is_elapsed en (ie_month e) (ie_year e) then e' = e
         else ie_status e' = Reversed_entry
           \<and> (ie_status e \<noteq> Reversed_entry \<longrightarrow> (\<forall>j. ie_adjustmentId e = Some j \<longrightarrow> \<not> still_active st' j))" if "i < length ?es" for i
    using entry[OF that] mem[of i] inactive[of i] that by (auto simp: Let_def)
  moreover have "length (rp_installments plan') = length ?es" by (simp add: plan'_def reversed_entries_def)
  moreover have "nth_doc (ps_plans st') k = Some plan'" using k s(2) by (simp add: nth_doc_def st'_def save_plan_def)
  ultimately show ?thesis using run kept by (intro exI[of _ plan'] exI[of _ st']) (simp add: plan'_def)
qed

end
