(* ===== verification/AdvanceHistory.thy ===== *)
theory AdvanceHistory
  imports SalaryAgree
begin

text \<open>
  What happens to an advance request and to its money: the life cycle of a request, what paying it
  leaves behind, and what repeating the payment does.
\<close>

section \<open>Payments made for a request\<close>

lemma ensure_payments [simp]: "ps_payments (snd (ensureSalaryRecord en ws tm month year u st)) = ps_payments st"
  using grows_ensure[of st en ws tm month year u] by (simp add: grows_def)

lemma plan_payments [simp]: "ps_payments (snd (createAdvanceRecoveryPlan en q st)) = ps_payments st"
  using grows_plan[of st en q] by (simp add: grows_def)

lemma deduction_payments [simp]: "ps_payments (snd (createAdvanceRecoveryDeduction en ws tm month year amount p u plan st)) = ps_payments st"
  using grows_deduction[of st en ws tm month year amount p u plan] by (simp add: grows_def)

lemma move_payments [simp]: "ps_payments (snd (move_request status ws k f st)) = ps_payments st"
  by (simp add: move_request_def update_advance_def split: option.split)

lemma decision_payments [simp]:
  "ps_payments (snd (approve_request ws k u amount st)) = ps_payments st"
  "ps_payments (snd (markPaid ws k p plan adj same st)) = ps_payments st"
  by (simp_all add: approve_request_def markPaid_def)

definition same_money :: "payment_doc \<Rightarrow> payment_doc \<Rightarrow> bool" where
  \<comment> \<open>but for the links to its recovery the same payment\<close>
  "same_money d d' \<longleftrightarrow> same_payment d d' \<and> py_active d' = py_active d"

lemma same_money_refl [simp]: "same_money d d" by (simp add: same_money_def)

lemma same_money_trans: "same_money a b \<Longrightarrow> same_money b c \<Longrightarrow> same_money a c"
  by (auto simp: same_money_def intro: same_payment_trans)

definition touched :: "nat \<Rightarrow> pay_store \<Rightarrow> pay_store \<Rightarrow> bool" where
  \<comment> \<open>at most the links of one payment differ\<close>
  "touched p st st' \<longleftrightarrow> (\<exists>d. ps_payments st' = (ps_payments st)[p := d] \<and> same_money (ps_payments st ! p) d)"

lemma touched_same: "ps_payments st' = ps_payments st \<Longrightarrow> touched p st st'"
  unfolding touched_def by (rule exI[of _ "ps_payments st ! p"]) simp

lemma touched_update: "(\<And>d. same_money d (f d)) \<Longrightarrow> touched p st (update_payment p f st)"
  by (auto simp: touched_def update_payment_def)

lemma touched_trans:
  assumes "touched p a b" "touched p b c"
  shows "touched p a c"
proof (cases "p < length (ps_payments a)")
  case True
  obtain d where d: "ps_payments b = (ps_payments a)[p := d]" "same_money (ps_payments a ! p) d" using assms(1) by (auto simp: touched_def)
  then obtain e where e: "ps_payments c = (ps_payments a)[p := e]" "same_money d e" using assms(2) True by (auto simp: touched_def)
  show ?thesis unfolding touched_def by (intro exI[of _ e] conjI e(1) same_money_trans[OF d(2) e(2)])
next
  case False
  then show ?thesis using assms by (auto simp: touched_def list_update_beyond)
qed

lemma touched_and_then:
  "touched p st (snd r) \<Longrightarrow> (\<And>x st1. r = (Inr x, st1) \<Longrightarrow> touched p st1 (snd (f x st1))) \<Longrightarrow> touched p st (snd (and_then r f))"
  by (cases r) (auto simp: and_then_def split: sum.split intro: touched_trans)

lemma touched_by_plan: "touched p st (snd (by_plan en ws u a amount t p st))"
  unfolding by_plan_def
  by (rule touched_and_then) (auto intro!: touched_same touched_update simp: same_money_def same_payment_def)

lemma touched_by_deduction: "touched p st (snd (by_deduction en ws u a amount t p st))"
  unfolding by_deduction_def
  by (rule touched_and_then) (auto intro!: touched_same touched_update simp: same_money_def same_payment_def split: option.split)

lemma touched_close: "touched p st (snd (recover_and_close en ws u k a amount t settles p st))"
proof -
  have m: "touched p s (snd (and_then (markPaid ws k p plan adj same s) (\<lambda>_ s'. (Inr p, s'))))" for s plan adj same
    by (rule touched_same) simp
  show ?thesis unfolding recover_and_close_def
    by (auto simp del: snd_and_then intro!: touched_and_then[OF touched_by_plan] touched_and_then[OF touched_by_deduction] m)
qed

lemma pay_out_result:
  assumes "pay_out en ws u k a amount t st = (r, st1)"
  shows "(\<exists>i. r = Inr (length (ps_payments st)) \<and> ps_payments st1 = ps_payments st @ [request_payment en ws u k a amount t i])
    \<or> (\<exists>e. r = Inl e \<and> ps_payments st1 = ps_payments st)"
proof (cases "ensureSalaryRecord en ws (av_teamMemberId a) (av_month a) (av_year a) (Some u) st")
  case (Pair q s)
  then have "ps_payments s = ps_payments st"
    using ensure_payments[of en ws "av_teamMemberId a" "av_month a" "av_year a" "Some u" st] by simp
  then show ?thesis using assms Pair by (cases q) (auto simp: pay_out_def)
qed

definition paid_for :: "pay_env \<Rightarrow> string \<Rightarrow> nat \<Rightarrow> advance_request \<Rightarrow> rat \<Rightarrow> payment_doc \<Rightarrow> bool" where
  \<comment> \<open>the money of a request\<close>
  "paid_for en ws k a amount d \<longleftrightarrow> py_active d \<and> py_isAdvance d \<and> py_advanceRequestId d = Some k \<and> py_amount d = amount
     \<and> py_teamMemberId d = av_teamMemberId a \<and> py_workspaceId d = ws \<and> py_createdAt d = en_now en"

lemma pay_and_recover_payments:
  fixes r :: "nat pay"
  assumes "r = and_then (pay_out en ws u k a amount t st) (\<lambda>p st1. recover_and_close en ws u k a amount t settles p st1)"
  shows "ps_payments (snd r) = ps_payments st \<and> (\<exists>e. pay_out en ws u k a amount t st = (Inl e, snd r) \<and> fst r = Inl e)
    \<or> (\<exists>d. ps_payments (snd r) = ps_payments st @ [d] \<and> paid_for en ws k a amount d)"
proof (cases "pay_out en ws u k a amount t st")
  case (Pair q st1)
  from pay_out_result[OF Pair] show ?thesis
  proof (elim disjE exE conjE)
    fix i assume q: "q = Inr (length (ps_payments st))" and s: "ps_payments st1 = ps_payments st @ [request_payment en ws u k a amount t i]"
    have "r = recover_and_close en ws u k a amount t settles (length (ps_payments st)) st1"
      unfolding assms Pair q by simp
    then have "touched (length (ps_payments st)) st1 (snd r)" using touched_close by simp
    then show ?thesis unfolding touched_def s
      by (auto simp: same_money_def same_payment_def request_payment_def paid_for_def)
  qed (simp add: assms Pair)
qed

section \<open>The life cycle\<close>


section \<open>Statuses are changed by decisions only\<close>

definition statuses :: "pay_store \<Rightarrow> string list" where
  "statuses st = map av_status (ps_advances st)"

lemma statuses_eqI: "ps_advances st' = ps_advances st \<Longrightarrow> statuses st' = statuses st"
  by (simp add: statuses_def)

lemma statuses_recover: "statuses (recover_advance ws i j st) = statuses st"
  by (cases "j < length (ps_advances st)")
    (simp_all add: recover_advance_def Let_def statuses_def map_update list_update_same_conv list_update_beyond)

lemma statuses_auto: "statuses (applyAdvanceAutoDeductions ws i st) = statuses st"
  unfolding applyAdvanceAutoDeductions_def by (rule fold_frame) (rule statuses_recover)

lemma advances_recalc [simp]: "ps_advances (snd (recalculateSalaryFromAdjustments en i u skip st)) = ps_advances st"
  by (simp add: recalculateSalaryFromAdjustments_def syncSalaryStatus_def update_salary_def)

lemma advances_put [simp]: "ps_advances (put_system ws i cat u due st) = ps_advances st"
  by (auto simp: put_system_def upsert_system_def reverse_system_def add_adjustment_def Let_def split: sum.split option.split)

lemma advances_statutory [simp]: "ps_advances (snd (applyStatutoryDeductions en ws i m st)) = ps_advances st"
  by (auto simp: applyStatutoryDeductions_def statutory_rows_def tds_step_def reverse_system_def Let_def split: option.split prod.split)

lemma advances_refresh [simp]: "ps_advances (snd (refresh_piece en ws tm i st)) = ps_advances st"
  by (auto simp: refresh_piece_def update_salary_def Let_def split: option.split sum.split)

lemma advances_build [simp]: "ps_advances (snd (buildSalaryRecordData en ws tm month year x y st)) = ps_advances st"
  using build_frame[of en ws tm month year x y st]
  by (cases "buildSalaryRecordData en ws tm month year x y st") (auto simp: applyPendingIncrement_def split: option.split)

lemma statuses_and_then:
  "statuses (snd r) = xs \<Longrightarrow> (\<And>x st. statuses st = xs \<Longrightarrow> statuses (snd (f x st)) = xs) \<Longrightarrow> statuses (snd (and_then r f)) = xs"
  by (cases r) (auto simp: and_then_def split: sum.split)

lemma statuses_recalc: "statuses (snd (recalculateSalaryFromAdjustments en i u skip st)) = statuses st"
  by (rule statuses_eqI) simp

lemma statuses_statutory: "statuses (snd (applyStatutoryDeductions en ws i m st)) = statuses st"
  by (rule statuses_eqI) simp

lemma statuses_settle: "statuses (snd (settle_record en ws tm i u st)) = statuses st"
  unfolding settle_record_def
proof (rule statuses_and_then)
  show "statuses (snd (recalculateSalaryFromAdjustments en i u False (applyAdvanceAutoDeductions ws i st))) = statuses st"
    by (simp only: statuses_recalc statuses_auto)
  fix x st2 assume s: "statuses st2 = statuses st"
  show "statuses (snd (case find_member st2 tm of None \<Rightarrow> (Inl Member_not_found, st2)
      | Some m \<Rightarrow> and_then (applyStatutoryDeductions en ws i m st2) (\<lambda>_ st3. (Inr i, st3)))) = statuses st"
    by (cases "find_member st2 tm") (simp_all add: s statuses_statutory)
qed

lemma statuses_ensure: "statuses (snd (ensureSalaryRecord en ws tm month year u st)) = statuses st"
proof (cases "find_salary st ws tm month year")
  case (Some i)
  have "statuses (snd (and_then (refresh_piece en ws tm i st) (\<lambda>_ st1. settle_record en ws tm i u st1))) = statuses st"
    by (rule statuses_and_then) (simp_all only: statuses_settle statuses_eqI[OF advances_refresh])
  then show ?thesis using Some by (simp add: ensureSalaryRecord_def)
next
  case None
  have new: "statuses (st\<lparr>ps_salaries := ds\<rparr>) = statuses st" for st ds by (rule statuses_eqI) simp
  have "statuses (snd (and_then (buildSalaryRecordData en ws tm month year 0 0 st) (\<lambda>d st1.
      settle_record en ws tm (length (ps_salaries st1)) u (st1\<lparr>ps_salaries := ps_salaries st1 @ [new_salary ws tm month year d u]\<rparr>)))) = statuses st"
    by (rule statuses_and_then) (simp_all only: statuses_settle new statuses_eqI[OF advances_build])
  then show ?thesis using None by (simp add: ensureSalaryRecord_def Let_def)
qed

lemma statuses_deduction: "statuses (snd (createAdvanceRecoveryDeduction en ws tm month year amount p u plan st)) = statuses st"
  unfolding createAdvanceRecoveryDeduction_def Let_def
  by (simp, intro impI statuses_and_then) (simp_all add: statuses_ensure, simp add: statuses_def add_adjustment_def)

interpretation status: plan_invariant "\<lambda>st. statuses st = xs" en for xs en
proof (unfold_locales, goal_cases)
  case (3 st u r k)
  then show ?case by (simp add: reverseAdjustmentDoc_def Let_def update_adjustment_def statuses_def)
qed (simp_all add: statuses_ensure statuses_deduction, simp add: statuses_def)

lemma statuses_pay_out: "statuses (snd (pay_out en ws u k a amount t st)) = statuses st"
  unfolding pay_out_def by (rule statuses_and_then) (simp_all add: statuses_ensure, simp add: statuses_def)

lemma statuses_by_plan: "statuses (snd (by_plan en ws u a amount t p st)) = statuses st"
  unfolding by_plan_def
  by (rule statuses_and_then) (simp_all add: status.create_plan, simp add: statuses_def update_payment_def)

section \<open>Paying a request\<close>

lemma move_result:
  assumes "move_request status ws k f st = (Inr x, st')"
  shows "k < length (ps_advances st) \<and> av_status (ps_advances st ! k) = status \<and> av_workspaceId (ps_advances st ! k) = ws
    \<and> x = f (ps_advances st ! k) \<and> st' = update_advance k f st"
  using assms by (auto simp: move_request_def request_of_def nth_doc_def split: option.splits if_splits)

definition closed_by :: "nat \<Rightarrow> nat \<Rightarrow> pay_store \<Rightarrow> bool" where
  \<comment> \<open>the request is paid by this payment and marked as recovered\<close>
  "closed_by k p st \<longleftrightarrow> k < length (ps_advances st) \<and> av_status (ps_advances st ! k) = ''paid''
     \<and> av_paymentId (ps_advances st ! k) = Some p \<and> handled (ps_advances st ! k)"

lemma mark_paid_closes:
  assumes "markPaid ws k p plan adj same st = (Inr x, st')" "plan \<noteq> None \<or> adj \<noteq> None \<or> same"
  shows "closed_by k p st'"
  using move_result[OF assms(1)[unfolded markPaid_def]] assms(2)
  by (auto simp: closed_by_def update_advance_def handled_def split: option.split)

lemma deduction_written:
  assumes "by_deduction en ws u a amount t p st = (Inr adj, st')" "0 < amount"
  shows "adj \<noteq> None"
  using assms by (auto simp: by_deduction_def createAdvanceRecoveryDeduction_def Let_def and_then_def
      split: prod.splits sum.splits)

lemma and_then_InrE:
  assumes "and_then r f = (Inr x, st')"
  obtains y st1 where "r = (Inr y, st1)" "f y st1 = (Inr x, st')"
  using assms by (auto simp: and_then_def split: prod.splits sum.splits)

lemma close_result:
  assumes "recover_and_close en ws u k a amount t settles p st = (Inr q, st')" "0 < amount"
  shows "q = p \<and> closed_by k p st'"
proof -
  have m: "q = p \<and> closed_by k p st'"
    if "and_then (markPaid ws k p plan adj same s) (\<lambda>_ s'. (Inr p, s')) = (Inr q, st')" "plan \<noteq> None \<or> adj \<noteq> None \<or> same"
    for plan adj same s
    using that(1) by (elim and_then_InrE) (simp add: mark_paid_closes[OF _ that(2)])
  show ?thesis
  proof (cases "in_installments t")
    case True
    then show ?thesis using assms(1) unfolding recover_and_close_def by (auto elim!: and_then_InrE simp: mark_paid_closes)
  next
    case False
    then show ?thesis using assms deduction_written[OF _ assms(2)] unfolding recover_and_close_def
      by (auto elim!: and_then_InrE simp: mark_paid_closes split: if_splits)
  qed
qed

lemma pay_approved_run:
  assumes "payApprovedAdvance en ws u k t st = r" "\<And>e. fst r = Inl e \<Longrightarrow> \<exists>b. e = Compliance_breach b"
  obtains a where "request_of st ws k = Some a" "av_status a = ''approved''"
    "0 < roundCurrency (jdiv (coalesce (av_approvedAmount a) 0) 100)"
    "r = and_then (pay_out en ws u k a (roundCurrency (jdiv (coalesce (av_approvedAmount a) 0) 100)) t st)
       (\<lambda>p st1. recover_and_close en ws u k a (roundCurrency (jdiv (coalesce (av_approvedAmount a) 0) 100)) t True p st1)"
proof (cases "request_of st ws k")
  case None
  then have "fst r = Inl Advance_not_found" using assms(1) by (auto simp: payApprovedAdvance_def)
  from assms(2)[OF this] show ?thesis by simp
next
  case (Some a)
  let ?x = "roundCurrency (jdiv (coalesce (av_approvedAmount a) 0) 100)"
  define checks where "checks = [(not_self_edit en u (av_teamMemberId a), Self_edit_blocked),
      (member_writable st ws (av_teamMemberId a), Member_offboarded),
      (av_status a = ''approved'', Advance_wrong_status (av_status a)), (?x > 0, Advance_amount_not_positive),
      (at_paymentMode t = Some ''split'' \<or> at_hasSplitLines t \<longrightarrow> feature en ''splitPayments'', Feature_disabled ''splitPayments'')]"
  let ?run = "and_then (pay_out en ws u k a ?x t st) (\<lambda>p st1. recover_and_close en ws u k a ?x t True p st1)"
  have r: "r = guarded checks ?run st"
    using assms(1) Some unfolding payApprovedAdvance_def Let_def checks_def by simp
  have "list_all fst checks"
  proof (rule ccontr)
    assume "\<not> list_all fst checks"
    then obtain c where "List.find (\<lambda>c. \<not> fst c) checks = Some c"
      by (cases "List.find (\<lambda>c. \<not> fst c) checks") (auto simp: list_all_iff find_None_iff)
    moreover from this have "c \<in> set checks" by (auto simp: find_Some_iff)
    ultimately have "fst r = Inl (snd c)" "\<forall>b. snd c \<noteq> Compliance_breach b" by (auto simp: r guarded_def checks_def)
    then show False using assms(2) by blast
  qed
  then show ?thesis using that[OF Some] r by (simp add: checks_def)
qed


section \<open>Paying twice\<close>

lemma prior_cong: "ps_payments st' = ps_payments st \<Longrightarrow> prior_payment st' k = prior_payment st k"
  by (simp add: prior_payment_def)

lemma prior_appended: "paid_for en ws k a x d \<Longrightarrow> ps_payments st' = ps_payments st @ [d] \<Longrightarrow> prior_payment st' k \<noteq> None"
  by (auto simp: prior_payment_def find_index_None_iff paid_for_def)

lemma disburse_payments:
  fixes r :: "nat pay"
  assumes "r = approveAndDisburseAdvanceRequest en ws k u amount t st"
  shows "ps_payments (snd r) = ps_payments st
    \<or> prior_payment st k = None \<and> (\<exists>d. ps_payments (snd r) = ps_payments st @ [d]) \<and> prior_payment (snd r) k \<noteq> None"
proof (cases "request_of st ws k")
  case None
  then show ?thesis by (simp add: assms approveAndDisburseAdvanceRequest_def)
next
  case (Some e)
  define first where "first = (if av_status e = ''pending'' then approve_request ws k u amount st
      else if av_status e = ''approved'' then (Inr e, st) else (Inl (Advance_wrong_status (av_status e)), st))"
  have f: "ps_payments (snd first) = ps_payments st" by (simp add: first_def)
  define body where "body = (\<lambda>a st1. let x = roundCurrency (jdiv (coalesce (av_approvedAmount a) amount) 100)
      in if x \<le> 0 then (Inl Advance_amount_not_positive, st1)
         else case prior_payment st1 k of
             Some p \<Rightarrow> and_then (markPaid ws k p None None False st1) (\<lambda>_ st2. (Inr p, st2))
           | None \<Rightarrow> and_then (pay_out en ws u k a x t st1) (\<lambda>p st2. recover_and_close en ws u k a x t False p st2))"
  have "ps_payments (snd (body a st1)) = ps_payments st1
      \<or> prior_payment st1 k = None \<and> (\<exists>d. ps_payments (snd (body a st1)) = ps_payments st1 @ [d]) \<and> prior_payment (snd (body a st1)) k \<noteq> None" for a st1
  proof -
    define x where "x = roundCurrency (jdiv (coalesce (av_approvedAmount a) amount) 100)"
    define q where "q = and_then (pay_out en ws u k a x t st1) (\<lambda>p st2. recover_and_close en ws u k a x t False p st2)"
    from pay_and_recover_payments[OF q_def]
    have "ps_payments (snd q) = ps_payments st1 \<or> (\<exists>d. ps_payments (snd q) = ps_payments st1 @ [d]) \<and> prior_payment (snd q) k \<noteq> None"
      using prior_appended by blast
    then show ?thesis unfolding body_def Let_def x_def[symmetric] q_def[symmetric] by (simp split: option.split)
  qed
  then have step: "ps_payments (snd (and_then first body)) = ps_payments st
      \<or> prior_payment st k = None \<and> (\<exists>d. ps_payments (snd (and_then first body)) = ps_payments st @ [d])
        \<and> prior_payment (snd (and_then first body)) k \<noteq> None"
    using f by (cases first; cases "fst first") (auto dest: prior_cong, (metis prior_cong)+)
  have "r = guarded [(not_self_edit en u (av_teamMemberId e), Self_edit_blocked), (member_writable st ws (av_teamMemberId e), Member_offboarded)]
      (if av_status e = ''paid'' \<and> av_paymentId e \<noteq> None then (Inr (the (av_paymentId e)), st) else and_then first body) st"
    unfolding assms approveAndDisburseAdvanceRequest_def Some option.case first_def body_def by (rule refl)
  then show ?thesis using step by (auto split: if_splits)
qed

lemma at_most_once:
  assumes run: "\<And>c s. pays (run c s) = pays s \<or> \<not> made s \<and> (\<exists>d. pays (run c s) = pays s @ [d]) \<and> made (run c s)"
    and cong: "\<And>s s'. pays s' = pays s \<Longrightarrow> made s' = made s"
  shows "length (pays (fold run calls st)) \<le> length (pays st) + 1"
proof -
  have once: "pays (fold run calls s) = pays s" if "made s" for s calls
    using that
  proof (induction calls arbitrary: s)
    case (Cons c calls)
    then show ?case using run[of c s] cong[of "run c s" s] by auto
  qed simp
  show ?thesis
  proof (induction calls arbitrary: st)
    case (Cons c calls)
    from run[of c st] show ?case
    proof (elim disjE conjE exE)
      assume "pays (run c st) = pays st"
      moreover have "length (pays (fold run calls (run c st))) \<le> length (pays (run c st)) + 1" by (rule Cons.IH)
      ultimately show ?thesis by simp
    next
      fix d assume "pays (run c st) = pays st @ [d]" "made (run c st)"
      then show ?thesis using once[of "run c st"] by simp
    qed
  qed simp
qed

definition disburse_call :: "string \<Rightarrow> nat \<Rightarrow> pay_env \<times> string \<times> rat \<times> advance_terms \<Rightarrow> pay_store \<Rightarrow> pay_store" where
  \<comment> \<open>what a call leaves, whether it returns or throws\<close>
  "disburse_call ws k c st = (case c of (en, u, amount, t) \<Rightarrow> snd (approveAndDisburseAdvanceRequest en ws k u amount t st))"


lemma avoids_breach: "avoids late_errors r \<Longrightarrow> r \<noteq> (Inl (Compliance_breach b), st)"
  by (auto simp: avoids_def late_errors_def)

lemma mark_paid_no_breach: "markPaid ws k p plan adj same st \<noteq> (Inl (Compliance_breach b), st')"
  by (simp add: markPaid_def move_request_def split: option.split)

lemma pay_out_no_breach: "pay_out en ws u k a amount t st \<noteq> (Inl (Compliance_breach b), st')"
  by (rule avoids_breach) (auto simp: pay_out_def)

lemma by_deduction_no_breach: "by_deduction en ws u a amount t p st \<noteq> (Inl (Compliance_breach b), st')"
  by (rule avoids_breach) (auto simp: by_deduction_def)

lemma and_then_InlE:
  assumes "and_then r f = (Inl e, st')"
  obtains "r = (Inl e, st')" | y st1 where "r = (Inr y, st1)" "f y st1 = (Inl e, st')"
  using assms by (auto simp: and_then_def split: prod.splits sum.splits)

lemma refused_close_statuses:
  assumes "recover_and_close en ws u k a amount t settles p st = (Inl (Compliance_breach b), st')"
  shows "statuses st' = statuses st"
proof -
  have "by_plan en ws u a amount t p st = (Inl (Compliance_breach b), st')"
    using assms by (auto simp: recover_and_close_def by_deduction_no_breach mark_paid_no_breach elim!: and_then_InlE split: if_splits)
  then show ?thesis using statuses_by_plan[of en ws u a amount t p st] by simp
qed

text \<open>
  C30. A refused recovery plan leaves an advance paid but not closed: when the compliance guard rejects the
  plan, \<open>payApprovedAdvance\<close> has already written the payment, active and without any recovery, and the
  request is still approved; when the payment is then tried again on other terms and succeeds, the
  member has two active payments over the same amount for one request.
\<close>

theorem refused_advance_is_paid_again:
  assumes "payApprovedAdvance en ws u k t st = (Inl (Compliance_breach b), st')"
  shows "av_status (ps_advances st' ! k) = ''approved''
    \<and> (\<exists>d. ps_payments st' = ps_payments st @ [d] \<and> py_active d \<and> py_advanceRequestId d = Some k \<and> 0 < py_amount d
      \<and> (\<forall>en2 u2 t2 p st2. payApprovedAdvance en2 ws u2 k t2 st' = (Inr p, st2)
           \<longrightarrow> (\<exists>e. ps_payments st2 = ps_payments st @ [d, e] \<and> py_active e \<and> py_advanceRequestId e = Some k
                 \<and> py_amount e = py_amount d \<and> py_teamMemberId e = py_teamMemberId d)))"
proof -
  obtain a where a: "request_of st ws k = Some a" "av_status a = ''approved''"
    "0 < roundCurrency (jdiv (coalesce (av_approvedAmount a) 0) 100)"
    and run: "(Inl (Compliance_breach b), st') = and_then (pay_out en ws u k a (roundCurrency (jdiv (coalesce (av_approvedAmount a) 0) 100)) t st)
       (\<lambda>p st1. recover_and_close en ws u k a (roundCurrency (jdiv (coalesce (av_approvedAmount a) 0) 100)) t True p st1)"
    using pay_approved_run[OF assms] by (metis fst_conv sum.inject(1))
  let ?amount = "roundCurrency (jdiv (coalesce (av_approvedAmount a) 0) 100)"
  have k: "k < length (ps_advances st)" "ps_advances st ! k = a"
    using a(1) by (auto simp: request_of_def nth_doc_def split: if_splits option.splits)
  from run[symmetric] obtain q st1 where o: "pay_out en ws u k a ?amount t st = (Inr q, st1)"
    and c: "recover_and_close en ws u k a ?amount t True q st1 = (Inl (Compliance_breach b), st')"
    by (auto elim: and_then_InlE simp: pay_out_no_breach)
  have "statuses st' = statuses st" using refused_close_statuses[OF c] statuses_pay_out[of en ws u k a ?amount t st] o by simp
  then have s: "length (ps_advances st') = length (ps_advances st)" "av_status (ps_advances st' ! k) = ''approved''"
    using k a(2) unfolding statuses_def by (metis length_map, metis length_map nth_map)
  obtain d where d: "ps_payments st' = ps_payments st @ [d]" "paid_for en ws k a ?amount d"
    using pay_and_recover_payments[OF run] o by auto
  have "history st st'" using hist.pay_approved_inv[OF history_refl, of st en ws u k t] assms by simp
  from historyD(7)[OF this k(1)] have r: "request_slot (ps_advances st' ! k) = request_slot a"
    "av_approvedAmount (ps_advances st' ! k) = av_approvedAmount a"
    using a(2) unfolding k(2) same_request_def by auto
  have again: "\<exists>e. ps_payments st2 = ps_payments st @ [d, e] \<and> py_active e \<and> py_advanceRequestId e = Some k
      \<and> py_amount e = py_amount d \<and> py_teamMemberId e = py_teamMemberId d"
    if "payApprovedAdvance en2 ws u2 k t2 st' = (Inr p, st2)" for en2 u2 t2 p st2
  proof -
    from pay_approved_run[OF that] obtain a2 where a2: "request_of st' ws k = Some a2"
      and run2: "(Inr p, st2) = and_then (pay_out en2 ws u2 k a2 (roundCurrency (jdiv (coalesce (av_approvedAmount a2) 0) 100)) t2 st')
       (\<lambda>p st1. recover_and_close en2 ws u2 k a2 (roundCurrency (jdiv (coalesce (av_approvedAmount a2) 0) 100)) t2 True p st1)"
      by (metis Inl_Inr_False fst_conv)
    then have "a2 = ps_advances st' ! k" by (auto simp: request_of_def nth_doc_def split: if_splits option.splits)
    then have same: "av_approvedAmount a2 = av_approvedAmount a" "av_teamMemberId a2 = av_teamMemberId a"
      using r by (simp_all add: request_slot_def)
    from run2[symmetric] obtain q2 s2 where o2: "pay_out en2 ws u2 k a2 (roundCurrency (jdiv (coalesce (av_approvedAmount a2) 0) 100)) t2 st' = (Inr q2, s2)"
      by (rule and_then_InrE)
    obtain e where "ps_payments st2 = ps_payments st' @ [e]"
      "paid_for en2 ws k a2 (roundCurrency (jdiv (coalesce (av_approvedAmount a2) 0) 100)) e"
      using pay_and_recover_payments[OF run2] o2 by auto
    then show ?thesis using d same by (auto simp: paid_for_def)
  qed
  show ?thesis using s(2) d a(3) again by (auto simp: paid_for_def)
qed

end
