(* ===== verification/LoanSafety.thy ===== *)
theory LoanSafety
  imports LoanBooks PlanChanges AdvanceHistory
begin

text \<open>
  Single operations on loans, exactly: who activates a loan, which months the deductions of a loan go to,
  what writing a loan off takes back, and how a request is decided.
\<close>

section \<open>What materializing changes\<close>

definition only_rows :: "employer_loan \<Rightarrow> employer_loan \<Rightarrow> bool" where
  "only_rows a b \<longleftrightarrow> (\<exists>es ks. b = a\<lparr>lo_installments := es, lo_linkedAdjustmentIds := ks\<rparr>)"

lemma only_rows_refl [simp]: "only_rows a a"
  unfolding only_rows_def by (intro exI[of _ "lo_installments a"] exI[of _ "lo_linkedAdjustmentIds a"]) simp

lemma only_rows_update [simp]: "only_rows a (a\<lparr>lo_installments := es, lo_linkedAdjustmentIds := ks\<rparr>)"
  unfolding only_rows_def by blast

lemma only_rows_trans: "only_rows a b \<Longrightarrow> only_rows b c \<Longrightarrow> only_rows a c"
  unfolding only_rows_def by (elim exE) (intro exI, simp)

lemma only_rowsD: "only_rows a b \<Longrightarrow> lo_status b = lo_status a \<and> lo_approvalChain b = lo_approvalChain a \<and> lo_approvedBy b = lo_approvedBy a
    \<and> lo_teamMemberId b = lo_teamMemberId a"
  by (auto simp: only_rows_def)

definition walked :: "nat \<Rightarrow> int \<times> int \<Rightarrow> int \<times> int" where
  \<comment> \<open>a number of months later\<close>
  "walked n p = ((\<lambda>(m, y). nextMonth m y) ^^ n) p"

lemma walked_simps [simp]: "walked 0 p = p" "walked (Suc n) p = walked n (nextMonth (fst p) (snd p))"
  by (simp_all add: walked_def funpow_swap1 case_prod_beta)

definition deducted_in :: "pay_store \<Rightarrow> int \<times> int \<Rightarrow> nat \<Rightarrow> bool" where
  "deducted_in st p j \<longleftrightarrow> j < length (ps_adjustments st) \<and> (aj_month (ps_adjustments st ! j), aj_year (ps_adjustments st ! j)) = p"

lemma deducted_later: "deducted_in st p j \<Longrightarrow> history st st' \<Longrightarrow> deducted_in st' p j"
  using historyD(2,3)[of st st'] by (fastforce simp: deducted_in_def same_row_def)

lemma in_pay_InrE: "in_pay r = (Inr x, st) \<Longrightarrow> r = (Inr x, st)"
  by (cases r; cases "fst r") auto

lemma deduction_month:
  assumes "createLoanRecoveryAdjustment en ws tm month year amount index u st = (Inr (Some k), st')"
  shows "deducted_in st' (month, year) k"
proof -
  have "\<not> amount \<le> 0" using assms by (auto simp: createLoanRecoveryAdjustment_def split: if_splits)
  then obtain i s1 where e: "ensureSalaryRecord en ws tm month year (Some u) st = (Inr i, s1)"
    using assms by (cases "ensureSalaryRecord en ws tm month year (Some u) st"; cases "fst (ensureSalaryRecord en ws tm month year (Some u) st)")
      (simp_all add: createLoanRecoveryAdjustment_def)
  let ?row = "(new_adjustment (ps_salaries s1 ! i) i ws Deduction ''loan_recovery'' amount System u)
              \<lparr>aj_teamMemberId := tm, aj_month := month, aj_year := year, aj_planInstallmentIndex := Some (nat index)\<rparr>"
  obtain s2 where c: "recalculateSalaryFromAdjustments en i (Some u) True (add_adjustment ?row s1) = (Inr (), s2)"
    using recalc_unlocked[of True "add_adjustment ?row s1" i en "Some u"] by auto
  have "ps_adjustments s2 = ps_adjustments s1 @ [?row]"
    using recalc_frame(1)[of en i "Some u" True "add_adjustment ?row s1"] unfolding c snd_conv by (simp add: add_adjustment_def)
  moreover have "k = length (ps_adjustments s1)" "st' = s2"
    using assms e \<open>\<not> amount \<le> 0\<close> c by (simp_all add: createLoanRecoveryAdjustment_def Let_def)
  ultimately show ?thesis by (simp add: deducted_in_def)
qed

definition entry_deducted :: "pay_store \<Rightarrow> int \<times> int \<Rightarrow> loan_installment \<Rightarrow> loan_installment \<Rightarrow> bool" where
  \<comment> \<open>an installment is left alone, or it has a new deduction in the month\<close>
  "entry_deducted st p e e' \<longleftrightarrow> e' = e \<or> (\<exists>j. li_adjustmentId e' = Some j \<and> deducted_in st p j)"

lemma entry_deducted_later: "entry_deducted st p e e' \<Longrightarrow> history st st' \<Longrightarrow> entry_deducted st' p e e'"
  unfolding entry_deducted_def by (blast intro: deducted_later)

lemma loan_entry_result:
  assumes "loan_entry en ws u m i w st = (Inr w', st')" "i < length (lo_installments (lw_loan w))"
  shows "(lw_month w', lw_year w') = nextMonth (lw_month w) (lw_year w)" "only_rows (lw_loan w) (lw_loan w')" "history st st'"
    "length (lo_installments (lw_loan w')) = length (lo_installments (lw_loan w))"
    "k \<noteq> i \<Longrightarrow> lo_installments (lw_loan w') ! k = lo_installments (lw_loan w) ! k"
    "entry_deducted st' (lw_month w, lw_year w) (lo_installments (lw_loan w) ! i) (lo_installments (lw_loan w') ! i)"
proof -
  let ?e = "lo_installments (lw_loan w) ! i"
  have "(lw_month w', lw_year w') = nextMonth (lw_month w) (lw_year w) \<and> only_rows (lw_loan w) (lw_loan w') \<and> history st st'
    \<and> (\<exists>e. lo_installments (lw_loan w') = (lo_installments (lw_loan w))[i := e] \<and> entry_deducted st' (lw_month w, lw_year w) ?e e)"
  proof (cases "li_status ?e \<noteq> Loan_scheduled")
    case True
    then have "w' = step_walk w" "st' = st" using assms(1) by (simp_all add: loan_entry_def Let_def)
    then show ?thesis by (intro conjI exI[of _ ?e]) (simp_all add: step_walk_def entry_deducted_def)
  next
    case False
    from assms(1) obtain k s1 where s1: "in_pay (ensureSalaryRecord en ws (lo_teamMemberId (lw_loan w)) (lw_month w) (lw_year w) (Some u) st) = (Inr k, s1)"
      unfolding loan_entry_def Let_def if_not_P[OF False] by (rule and_then_InrE)
    have h1: "history st s1" using hist.ensure_inv[of st st en ws "lo_teamMemberId (lw_loan w)" "lw_month w" "lw_year w" "Some u"]
      in_pay_InrE[OF s1] by simp
    obtain proposed where p: "li_emiPlanned ?e = Some proposed"
      using assms(1) False s1 by (cases "li_emiPlanned ?e") (auto simp: loan_entry_def Let_def elim: and_then_InrE)
    obtain applied where a: "and_then (in_pay (createLoanRecoveryAdjustment en ws (lo_teamMemberId (lw_loan w)) (lw_month w) (lw_year w) applied (li_index ?e) u s1))
        (\<lambda>adj st2. (Inr ((step_walk w)\<lparr>lw_loan := link_deduction i ?e proposed applied adj (lw_loan w),
           lw_shortfall := (if applied < proposed then round2 (jadd (lw_shortfall w) (jsub proposed applied)) else lw_shortfall w)\<rparr>), st2)) = (Inr w', st')"
      using assms(1) False s1 p by (simp add: loan_entry_def Let_def)
    then obtain adj s2 where s2: "in_pay (createLoanRecoveryAdjustment en ws (lo_teamMemberId (lw_loan w)) (lw_month w) (lw_year w) applied (li_index ?e) u s1) = (Inr adj, s2)"
      and w': "(Inr ((step_walk w)\<lparr>lw_loan := link_deduction i ?e proposed applied adj (lw_loan w),
           lw_shortfall := (if applied < proposed then round2 (jadd (lw_shortfall w) (jsub proposed applied)) else lw_shortfall w)\<rparr>), s2) = (Inr w' :: loan_error + loan_walk, st')"
      by (rule and_then_InrE)
    have h2: "history s1 s2" using hist.loan_deduction_inv[of s1 s1 en ws "lo_teamMemberId (lw_loan w)" "lw_month w" "lw_year w" applied "li_index ?e" u]
      in_pay_InrE[OF s2] by simp
    have l: "lw_loan w' = link_deduction i ?e proposed applied adj (lw_loan w)" "st' = s2" "lw_month w' = lw_month (step_walk w)" "lw_year w' = lw_year (step_walk w)"
      using w' by auto
    show ?thesis
    proof (intro conjI)
      show "\<exists>e. lo_installments (lw_loan w') = (lo_installments (lw_loan w))[i := e] \<and> entry_deducted st' (lw_month w, lw_year w) ?e e"
      proof (cases adj)
        case None
        then show ?thesis by (intro exI[of _ ?e]) (simp add: l link_deduction_def entry_deducted_def)
      next
        case (Some j)
        have "deducted_in s2 (lw_month w, lw_year w) j" by (rule deduction_month[OF in_pay_InrE[OF s2[unfolded Some]]])
        then show ?thesis
          by (intro exI[of _ "?e\<lparr>li_adjustmentId := Some j, li_appliedAmount := applied, li_status := (if applied \<ge> proposed then Loan_applied else Loan_carried)\<rparr>"])
            (simp add: l link_deduction_def entry_deducted_def Some)
      qed
      show "only_rows (lw_loan w) (lw_loan w')" unfolding l link_deduction_def by (cases adj) (auto simp: only_rows_def)
    qed (use l h1 h2 in \<open>auto simp: step_walk_def intro: history_trans\<close>)
  qed
  then show "(lw_month w', lw_year w') = nextMonth (lw_month w) (lw_year w)" "only_rows (lw_loan w) (lw_loan w')" "history st st'"
    "length (lo_installments (lw_loan w')) = length (lo_installments (lw_loan w))"
    "k \<noteq> i \<Longrightarrow> lo_installments (lw_loan w') ! k = lo_installments (lw_loan w) ! k"
    "entry_deducted st' (lw_month w, lw_year w) (lo_installments (lw_loan w) ! i) (lo_installments (lw_loan w') ! i)"
    using assms(2) by auto
qed

lemma loan_entries_result:
  "loan_entries en ws u m [a..<n] w st = (Inr w', st') \<Longrightarrow> length (lo_installments (lw_loan w)) = n
    \<Longrightarrow> only_rows (lw_loan w) (lw_loan w') \<and> history st st' \<and> length (lo_installments (lw_loan w')) = n
      \<and> (\<forall>i<n. if i < a then lo_installments (lw_loan w') ! i = lo_installments (lw_loan w) ! i
           else entry_deducted st' (walked (i - a) (lw_month w, lw_year w)) (lo_installments (lw_loan w) ! i) (lo_installments (lw_loan w') ! i))"
proof (induction "n - a" arbitrary: a w st)
  case 0
  then show ?case by simp
next
  case (Suc d)
  then have a: "a < n" by simp
  obtain w1 st1 where w1: "loan_entry en ws u m a w st = (Inr w1, st1)" "loan_entries en ws u m [Suc a..<n] w1 st1 = (Inr w', st')"
    using Suc.prems(1) unfolding upt_conv_Cons[OF a] loan_entries.simps by (rule and_then_InrE)
  have al: "a < length (lo_installments (lw_loan w))" using a Suc.prems(2) by simp
  note e = loan_entry_result[OF w1(1) al]
  have r: "only_rows (lw_loan w1) (lw_loan w')" "history st1 st'" "length (lo_installments (lw_loan w')) = n"
    "\<And>i. i < n \<Longrightarrow> i < Suc a \<Longrightarrow> lo_installments (lw_loan w') ! i = lo_installments (lw_loan w1) ! i"
    "\<And>i. i < n \<Longrightarrow> \<not> i < Suc a \<Longrightarrow> entry_deducted st' (walked (i - Suc a) (lw_month w1, lw_year w1)) (lo_installments (lw_loan w1) ! i) (lo_installments (lw_loan w') ! i)"
    using Suc.hyps(1)[of "Suc a" w1 st1] Suc.hyps(2) w1(2) e(4) Suc.prems(2) by (auto split: if_splits)
  have "entry_deducted st' (walked (i - a) (lw_month w, lw_year w)) (lo_installments (lw_loan w) ! i) (lo_installments (lw_loan w') ! i)"
    if i: "i < n" "\<not> i < a" for i
  proof (cases "i = a")
    case True
    then show ?thesis using e(6) r(4)[of a] a deducted_later[OF _ r(2)] by (auto simp: entry_deducted_def)
  next
    case False
    then have "walked (i - a) (lw_month w, lw_year w) = walked (i - Suc a) (nextMonth (lw_month w) (lw_year w))"
      using i walked_simps(2)[of "i - Suc a" "(lw_month w, lw_year w)"] by (simp add: Suc_diff_Suc)
    then show ?thesis using r(5)[of i] i False e(1) e(5)[of i] by simp
  qed
  moreover have "lo_installments (lw_loan w') ! i = lo_installments (lw_loan w) ! i" if "i < n" "i < a" for i
    using r(4)[of i] e(5)[of i] that by simp
  ultimately show ?case using only_rows_trans[OF e(2) r(1)] history_trans[OF e(3) r(2)] r(3) by simp
qed

lemma loan_carry_result:
  assumes "loan_carry en ws u m w st = (Inr w', st')"
  shows "only_rows (lw_loan w) (lw_loan w') \<and> history st st'
    \<and> (\<exists>xs. lo_installments (lw_loan w') = lo_installments (lw_loan w) @ xs)"
proof -
  obtain k s1 where s1: "in_pay (ensureSalaryRecord en ws (lo_teamMemberId (lw_loan w)) (lw_month w) (lw_year w) (Some u) st) = (Inr k, s1)"
    using assms unfolding loan_carry_def Let_def by (rule and_then_InrE)
  define applied where "applied = round2 (min (lw_shortfall w) (max 0 (cap_basis m (sd_netSalary (sl_data (ps_salaries s1 ! k))))))"
  obtain adj s2 where s2: "in_pay (createLoanRecoveryAdjustment en ws (lo_teamMemberId (lw_loan w)) (lw_month w) (lw_year w) applied
      (int (length (lo_installments (lw_loan w))) + 1) u s1) = (Inr adj, s2)" "st' = s2"
    and l: "only_rows (lw_loan w) (lw_loan w') \<and> (\<exists>xs. lo_installments (lw_loan w') = lo_installments (lw_loan w) @ xs)"
    using assms unfolding loan_carry_def Let_def s1 applied_def[symmetric]
    by (auto simp: applied_def[symmetric] elim!: and_then_InrE)
  have "history st s1" using hist.ensure_inv[of st st en ws "lo_teamMemberId (lw_loan w)" "lw_month w" "lw_year w" "Some u"]
    in_pay_InrE[OF s1] by simp
  moreover have "history s1 s2" using hist.loan_deduction_inv[of s1 s1 en ws "lo_teamMemberId (lw_loan w)" "lw_month w" "lw_year w" applied
      "int (length (lo_installments (lw_loan w))) + 1" u] in_pay_InrE[OF s2(1)] by simp
  ultimately show ?thesis using l s2(2) history_trans by blast
qed

lemma loan_carries_result:
  "loan_carries en ws u m n w st = (Inr w', st') \<Longrightarrow> only_rows (lw_loan w) (lw_loan w') \<and> history st st'
    \<and> (\<exists>xs. lo_installments (lw_loan w') = lo_installments (lw_loan w) @ xs)"
proof (induction n arbitrary: w st)
  case (Suc n)
  show ?case
  proof (cases "lw_shortfall w > 0")
    case True
    then obtain w1 st1 where w1: "loan_carry en ws u m w st = (Inr w1, st1)" "loan_carries en ws u m n w1 st1 = (Inr w', st')"
      using Suc.prems by (auto elim: and_then_InrE)
    have c: "only_rows (lw_loan w) (lw_loan w1)" "history st st1" "\<exists>xs. lo_installments (lw_loan w1) = lo_installments (lw_loan w) @ xs"
      using loan_carry_result[OF w1(1)] by blast+
    have d: "only_rows (lw_loan w1) (lw_loan w')" "history st1 st'" "\<exists>xs. lo_installments (lw_loan w') = lo_installments (lw_loan w1) @ xs"
      using Suc.IH[OF w1(2)] by blast+
    show ?thesis using only_rows_trans[OF c(1) d(1)] history_trans[OF c(2) d(2)] c(3) d(3) by auto
  next
    case False
    then show ?thesis using Suc.prems by simp
  qed
qed simp

lemma materialized_months:
  assumes "materializeLoanInstallments en ws u fromMonth fromYear loan st = (Inr loan', st')"
  shows "only_rows loan loan'" "history st st'" "length (lo_installments loan) \<le> length (lo_installments loan')"
    "i < length (lo_installments loan) \<Longrightarrow> entry_deducted st' (walked i (fromMonth, fromYear)) (lo_installments loan ! i) (lo_installments loan' ! i)"
proof -
  let ?n = "length (lo_installments loan)"
  let ?w = "\<lparr>lw_month = fromMonth, lw_year = fromYear, lw_shortfall = 0, lw_loan = loan\<rparr>"
  obtain m where m: "find_member st (lo_teamMemberId loan) = Some m"
    using assms by (cases "find_member st (lo_teamMemberId loan)") (simp_all add: materializeLoanInstallments_def)
  obtain w1 st1 w2 where w: "loan_entries en ws u m [0..<?n] ?w st = (Inr w1, st1)" "loan_carries en ws u m max_extra w1 st1 = (Inr w2, st')"
    "loan' = lw_loan w2"
    using assms unfolding materializeLoanInstallments_def m option.case by (auto elim!: and_then_InrE)
  note e = loan_entries_result[OF w(1)] and c = loan_carries_result[OF w(2)]
  obtain xs where xs: "lo_installments loan' = lo_installments (lw_loan w1) @ xs" using c w(3) by blast
  have h: "history st1 st'" using c by blast
  show "only_rows loan loan'" using only_rows_trans[of loan "lw_loan w1" loan'] e c w(3) by simp
  show "history st st'" using history_trans[OF _ h] e by simp
  show "?n \<le> length (lo_installments loan')" using e xs by simp
  assume i: "i < ?n"
  then have "entry_deducted st1 (walked i (fromMonth, fromYear)) (lo_installments loan ! i) (lo_installments (lw_loan w1) ! i)"
    using e by simp
  then show "entry_deducted st' (walked i (fromMonth, fromYear)) (lo_installments loan ! i) (lo_installments loan' ! i)"
    using i e xs entry_deducted_later[OF _ h] by (auto simp: nth_append)
qed

lemma materialize_result:
  assumes "materialize en ws u fromMonth fromYear k loan s = (Inr loan', s')"
  shows "\<exists>p. materializeLoanInstallments (le_pay en) ws u fromMonth fromYear loan (lb_pay s) = (Inr loan', p)
    \<and> s' = save_loan k loan' (s\<lparr>lb_pay := p\<rparr>)"
proof -
  obtain x s1 where "on_pay (materializeLoanInstallments (le_pay en) ws u fromMonth fromYear loan (lb_pay s)) s = (Inr x, s1)"
    "(Inr x, save_loan k x s1) = (Inr loan' :: loan_error + employer_loan, s')"
    using assms unfolding materialize_def by (rule and_then_InrE)
  then show ?thesis by (auto simp: on_pay_def intro!: exI[of _ "snd (materializeLoanInstallments (le_pay en) ws u fromMonth fromYear loan (lb_pay s))"] prod_eqI)
qed

section \<open>Resuming a loan\<close>

lemma find_index_find: "find_index P xs = Some p \<Longrightarrow> List.find P xs = Some (xs ! p)"
  by (induction xs arbitrary: p) (auto split: if_splits)

lemma refreshed_rows:
  assumes "refreshLoanProgress en k loan s = (Inr loan', s')"
  shows "lo_installments loan' = lo_installments loan \<and> lb_pay s' = lb_pay s"
proof (cases "lo_status loan \<in> {''reversed'', ''completed'', ''written_off''}")
  case True
  then show ?thesis using assms unfolding refreshLoanProgress_def if_P[OF True] by simp
next
  case False
  have "lo_installments (loan_progress en (lb_pay s) loan) = lo_installments loan" by (simp add: loan_progress_def Let_def)
  then show ?thesis using assms unfolding refreshLoanProgress_def if_not_P[OF False] Let_def by (auto simp: save_loan_def)
qed

text \<open>
  C28. The months of a resumed loan: the installments that resuming reopens are counted from the first of them,
  but the month of each deduction is counted over all installments of the loan.  With \<open>p\<close> installments
  before the first reopened one, the deduction of installment \<open>i\<close> is written \<open>i\<close> months after the month of
  installment \<open>p\<close>, which is \<open>p\<close> months later than the month planned for it.
\<close>

theorem resumed_deductions_are_late:
  assumes "resumeLoan en ws k u s = (Inr loan', s')" "loan_of s ws k = Some loan"
    "find_index (reopens (le_pay en)) (lo_installments loan) = Some p"
    "i < length (lo_installments loan)" "reopens (le_pay en) (lo_installments loan ! i)"
    "li_adjustmentId (lo_installments loan' ! i) = Some j"
  shows "j < length (ps_adjustments (lb_pay s'))
    \<and> (aj_month (ps_adjustments (lb_pay s') ! j), aj_year (ps_adjustments (lb_pay s') ! j))
       = walked i (li_month (lo_installments loan ! p), li_year (lo_installments loan ! p))"
proof -
  let ?en = "le_pay en"
  let ?l = "loan\<lparr>lo_status := ''active'', lo_installments := map (reopened ?en) (lo_installments loan)\<rparr>"
  let ?c = "(li_month (lo_installments loan ! p), li_year (lo_installments loan ! p))"
  have c: "loan_cutover ?en loan = ?c"
    using find_index_find[OF assms(3)] by (simp add: loan_cutover_def)
  have st: "\<not> lo_status loan \<noteq> ''paused''" using assms(1,2) by (cases "lo_status loan = ''paused''") (simp_all add: resumeLoan_def)
  have run: "and_then (materialize en ws u (fst ?c) (snd ?c) k ?l (save_loan k ?l s)) (\<lambda>l s1. refreshLoanProgress ?en k l s1) = (Inr loan', s')"
    using assms(1) unfolding resumeLoan_def assms(2) option.case if_not_P[OF st] Let_def case_prod_beta c .
  obtain l1 s1 where m: "materialize en ws u (fst ?c) (snd ?c) k ?l (save_loan k ?l s) = (Inr l1, s1)"
    and r: "refreshLoanProgress ?en k l1 s1 = (Inr loan', s')"
    using run by (rule and_then_InrE)
  obtain q where q: "materializeLoanInstallments ?en ws u (fst ?c) (snd ?c) ?l (lb_pay (save_loan k ?l s)) = (Inr l1, q)" "lb_pay s1 = q"
    using materialize_result[OF m] by (auto simp: save_loan_def)
  have "entry_deducted q (walked i ?c) (reopened ?en (lo_installments loan ! i)) (lo_installments l1 ! i)"
    using materialized_months(4)[OF q(1), of i] assms(4) by simp
  moreover have "lo_installments l1 = lo_installments loan'" "lb_pay s' = q" using refreshed_rows[OF r] q(2) by simp_all
  ultimately show ?thesis using assms(5,6) by (auto simp: entry_deducted_def reopened_def deducted_in_def)
qed

section \<open>Approving a loan\<close>


section \<open>Writing a loan off\<close>

definition loan_deductions_of :: "employer_loan \<Rightarrow> nat list \<Rightarrow> nat set" where
  "loan_deductions_of loan is = {j. \<exists>i\<in>set is. li_adjustmentId (lo_installments loan ! i) = Some j}"

lemma undo_entry_result:
  "\<exists>st'. undo_entry en u r e st = (Inr (), st') \<and> length (ps_adjustments st') = length (ps_adjustments st)
    \<and> (\<forall>j<length (ps_adjustments st). (li_adjustmentId e = Some j \<longrightarrow> \<not> aj_active (ps_adjustments st' ! j))
        \<and> (li_adjustmentId e \<noteq> Some j \<longrightarrow> ps_adjustments st' ! j = ps_adjustments st ! j))"
proof (cases "li_adjustmentId e")
  case (Some k)
  show ?thesis
  proof (cases "still_active st k")
    case True
    then have k: "k < length (ps_adjustments st)" by (auto simp: still_active_def nth_doc_def split: if_splits)
    obtain st' where "reverseAdjustmentDoc en u r k st = (Inr (), st')"
      "ps_adjustments st' = (ps_adjustments st)[k := reversed u r (ps_adjustments st ! k)]" using reverse_doc_result by blast
    then show ?thesis using Some True k by (auto simp: undo_entry_def single_is_doc reversed_def nth_list_update)
  next
    case False
    then show ?thesis using Some by (auto simp: undo_entry_def still_active_def nth_doc_def split: if_splits)
  qed
qed (simp add: undo_entry_def)

lemma reverse_loan_result:
  "\<exists>loan' st'. reverse_loan_entries en u r is loan st = (Inr loan', st') \<and> length (ps_adjustments st') = length (ps_adjustments st)
    \<and> (\<forall>j<length (ps_adjustments st). (j \<in> loan_deductions_of loan is \<longrightarrow> \<not> aj_active (ps_adjustments st' ! j))
        \<and> (j \<notin> loan_deductions_of loan is \<longrightarrow> ps_adjustments st' ! j = ps_adjustments st ! j))"
proof (induction "is" arbitrary: loan st)
  case Nil
  then show ?case by (simp add: loan_deductions_of_def)
next
  case (Cons i "is")
  let ?e = "lo_installments loan ! i" and ?l = "mark_entry i Loan_reversed loan"
  obtain st1 where u: "undo_entry en u r ?e st = (Inr (), st1)" "length (ps_adjustments st1) = length (ps_adjustments st)"
    "\<forall>j<length (ps_adjustments st). (li_adjustmentId ?e = Some j \<longrightarrow> \<not> aj_active (ps_adjustments st1 ! j))
        \<and> (li_adjustmentId ?e \<noteq> Some j \<longrightarrow> ps_adjustments st1 ! j = ps_adjustments st ! j)" using undo_entry_result by blast
  obtain loan' st' where r: "reverse_loan_entries en u r is ?l st1 = (Inr loan', st')" "length (ps_adjustments st') = length (ps_adjustments st1)"
    "\<forall>j<length (ps_adjustments st1). (j \<in> loan_deductions_of ?l is \<longrightarrow> \<not> aj_active (ps_adjustments st' ! j))
        \<and> (j \<notin> loan_deductions_of ?l is \<longrightarrow> ps_adjustments st' ! j = ps_adjustments st1 ! j)" using Cons.IH[of ?l st1] by blast
  have "li_adjustmentId (lo_installments ?l ! x) = li_adjustmentId (lo_installments loan ! x)" for x
    by (cases "i < length (lo_installments loan)") (simp_all add: mark_entry_def nth_list_update list_update_beyond)
  then have d: "j \<in> loan_deductions_of loan (i # is) \<longleftrightarrow> li_adjustmentId ?e = Some j \<or> j \<in> loan_deductions_of ?l is" for j
    by (auto simp: loan_deductions_of_def)
  have "(j \<in> loan_deductions_of loan (i # is) \<longrightarrow> \<not> aj_active (ps_adjustments st' ! j))
        \<and> (j \<notin> loan_deductions_of loan (i # is) \<longrightarrow> ps_adjustments st' ! j = ps_adjustments st ! j)" if "j < length (ps_adjustments st)" for j
    using u(2,3) r(3) that unfolding d by (cases "j \<in> loan_deductions_of ?l is") auto
  then show ?case using u(1,2) r(1,2) by simp
qed

text \<open>
  C22. Writing a loan off takes back what is still to come and nothing else: it succeeds only for a loan that
  runs, by someone who is not the borrower; afterwards the loan is written off, the deductions of its
  installments of the current month and later that are neither reversed nor skipped are inactive, and every
  other row of the salary module is what it was.
\<close>

theorem write_off_exact:
  assumes "writeOffLoan en ws k u amount reason s = (Inr loan', s')" "loan_of s ws k = Some loan"
  shows "lo_status loan \<in> {''active'', ''paused''} \<and> not_self_edit (le_pay en) u (lo_teamMemberId loan)
    \<and> lo_status loan' = ''written_off'' \<and> lb_loans s' = (lb_loans s)[k := loan']
    \<and> length (ps_adjustments (lb_pay s')) = length (ps_adjustments (lb_pay s))
    \<and> (\<forall>j<length (ps_adjustments (lb_pay s)).
         (\<exists>e\<in>set (lo_installments loan). li_adjustmentId e = Some j \<and> li_status e \<noteq> Loan_reversed \<and> li_status e \<noteq> Loan_skipped
            \<and> \<not> is_elapsed (le_pay en) (li_month e) (li_year e)) \<and> \<not> aj_active (ps_adjustments (lb_pay s') ! j)
         \<or> ps_adjustments (lb_pay s') ! j = ps_adjustments (lb_pay s) ! j)
    \<and> (\<forall>e\<in>set (lo_installments loan). \<forall>j<length (ps_adjustments (lb_pay s)). li_adjustmentId e = Some j \<longrightarrow>
         li_status e \<noteq> Loan_reversed \<longrightarrow> li_status e \<noteq> Loan_skipped \<longrightarrow> \<not> is_elapsed (le_pay en) (li_month e) (li_year e)
         \<longrightarrow> \<not> aj_active (ps_adjustments (lb_pay s') ! j))"
proof -
  have g: "not_self_edit (le_pay en) u (lo_teamMemberId loan)" "lo_status loan = ''active'' \<or> lo_status loan = ''paused''"
    using assms by (auto simp: writeOffLoan_def split: if_splits)
  let ?is = "reversible_entries (le_pay en) loan"
  obtain l st where r: "reverse_loan_entries (le_pay en) u reason ?is loan (lb_pay s) = (Inr l, st)"
    "length (ps_adjustments st) = length (ps_adjustments (lb_pay s))"
    "\<forall>j<length (ps_adjustments (lb_pay s)). (j \<in> loan_deductions_of loan ?is \<longrightarrow> \<not> aj_active (ps_adjustments st ! j))
        \<and> (j \<notin> loan_deductions_of loan ?is \<longrightarrow> ps_adjustments st ! j = ps_adjustments (lb_pay s) ! j)" using reverse_loan_result by blast
  have f: "lb_pay s' = st" "lo_status loan' = ''written_off''" "lb_loans s' = (lb_loans s)[k := loan']"
    using assms g r(1) by (auto simp: writeOffLoan_def reverseFutureLoanAdjustments_def on_pay_def save_loan_def Let_def)
  have d: "j \<in> loan_deductions_of loan ?is \<longleftrightarrow> (\<exists>e\<in>set (lo_installments loan). li_adjustmentId e = Some j \<and> li_status e \<noteq> Loan_reversed
      \<and> li_status e \<noteq> Loan_skipped \<and> \<not> is_elapsed (le_pay en) (li_month e) (li_year e))" for j
    by (auto simp: loan_deductions_of_def reversible_entries_def is_future_entry_def Let_def list_ex_iff[symmetric] list_ex_length)
  show ?thesis using g f r(2,3) d by blast
qed

section \<open>Eligibility for a loan\<close>

text \<open>
  The eligibility that a worker is shown is the one that is enforced: a request for an amount is
  accepted exactly when the eligibility for that amount lists no reason and no request is pending, and
  otherwise it is refused with the first reason in the list, or as a duplicate when there is none.
\<close>

theorem eligibility_is_enforced:
  "fst (createLoanRequest en ws tm amount months s) = (case snd (evaluateEligibility en ws tm (Some amount) s) of
     e # _ \<Rightarrow> Inl e
   | [] \<Rightarrow> if list_ex (pending_request ws tm) (lb_requests s) then Inl Loan_request_duplicate else Inr (length (lb_requests s)))"
proof -
  have c: "within_loan_cap en (Some amount) = (case le_selfApplyMaxAmount en of None \<Rightarrow> True | Some most \<Rightarrow> amount \<le> most)"
    by (simp add: within_loan_cap_def split: option.split)
  show ?thesis unfolding createLoanRequest_def evaluateEligibility_def Let_def c[symmetric] by simp
qed

end
