(* ===== verification/SalaryEffects.thy ===== *)
theory SalaryEffects
  imports SalaryAgree
begin

text \<open>
  What single operations of the salary module do to the records, adjustments and payments: the
  record that \<open>ensureSalaryRecord\<close> returns, the lock, a payment and its reversal, a payment that
  is repeated or whose recovery plan is refused.
\<close>

section \<open>The ensured record\<close>

lemma agree_at: "agree S (UNIV - {i}) (UNIV - {i}) st \<Longrightarrow> i < length (ps_salaries st) \<Longrightarrow> record_agrees S st i"
  by (simp add: agree_def record_agrees_iff)

lemma settle_record_agrees:
  assumes "\<not> is_locked st i" "i < length (ps_salaries st)"
  shows "record_agrees (en_sum en) (snd (settle_record en ws tm i u st)) i"
proof (rule agree_at)
  have "agree (en_sum en) UNIV UNIV st" by (simp add: agree_def)
  from agree_settle[OF this assms(1)]
  show "agree (en_sum en) (UNIV - {i}) (UNIV - {i}) (snd (settle_record en ws tm i u st))" .
  show "i < length (ps_salaries (snd (settle_record en ws tm i u st)))"
    using settle_frame(1)[of en ws tm i u st] assms(2) by (simp add: length_ids[symmetric])
qed

lemma settle_id: "settle_record en ws tm i u st = (Inr j, st') \<Longrightarrow> j = i"
  by (auto simp: settle_record_def and_then_def split: prod.splits sum.splits option.splits)

text \<open>
  An unlocked record that \<open>ensureSalaryRecord\<close> returns agrees with its rows, whatever the documents
  were before: its additions and deductions are the sums of its active adjustments, its net salary the
  proration formula on them, its status the settlement of its active payments.  In particular the
  minute-accurate loss of pay, which enters only the deductions of a new record and has no row, is lost.
\<close>

theorem ensured_record_agrees:
  assumes "ensureSalaryRecord en ws tm month year u st = (Inr i, st')" "find_salary st ws tm month year = Some i \<longrightarrow> \<not> is_locked st i"
  shows "record_agrees (en_sum en) st' i"
proof (cases "find_salary st ws tm month year")
  case (Some k)
  have k: "k < length (ids st)" using find_salary_Some[OF Some] by simp
  have nl: "\<not> is_locked st k"
    using assms Some by (auto simp: ensureSalaryRecord_def split: if_splits)
  obtain q st1 where q: "refresh_piece en ws tm k st = (q, st1)" by force
  have r: "settle_record en ws tm k u st1 = (Inr i, st')"
    using assms(1) Some nl q by (cases q) (simp_all add: ensureSalaryRecord_def)
  have "\<not> is_locked st1 k"
    using q nl by (auto simp: refresh_piece_def Let_def locked_update_salary split: option.splits if_splits sum.splits)
  moreover have "k < length (ps_salaries st1)"
    using refresh_frame(1)[of en ws tm k st] q k by (simp add: length_ids[symmetric])
  ultimately show ?thesis using settle_record_agrees[of st1 k en ws tm u] settle_id[OF r] r by simp
next
  case None
  obtain q st1 where q: "buildSalaryRecordData en ws tm month year 0 0 st = (q, st1)" by force
  let ?n = "length (ps_salaries st1)"
  obtain d where d: "q = Inr d" using assms(1) None q by (cases q) (simp_all add: ensureSalaryRecord_def)
  let ?s = "st1\<lparr>ps_salaries := ps_salaries st1 @ [new_salary ws tm month year d u]\<rparr>"
  have r: "settle_record en ws tm ?n u ?s = (Inr i, st')"
    using assms(1) None q d by (simp add: ensureSalaryRecord_def Let_def)
  have "\<not> is_locked ?s ?n" by (simp add: is_locked_def salary_at_def nth_doc_def new_salary_def)
  from settle_record_agrees[OF this, of en ws tm u] show ?thesis using settle_id[OF r] r by simp
qed

section \<open>A payment that is refused\<close>

lemma linked_single:
  assumes "pi_commission dto = None" "\<not> pi_nextMonth dto" "feature en ''advancePayments''"
    "x = max 0 (jsub (pi_amount dto) (max 0 (jsub (sd_netSalary (sl_data (ps_salaries st ! i))) (sumPaidAmountForSalary st i))))"
    "0 < x" "\<not> is_locked st i"
  shows "\<exists>st'. linked_additions en ws i u dto st = (Inr \<lparr>pp_linked = [length (ps_adjustments st)], pp_advance = None\<rparr>, st')
    \<and> ps_payments st' = ps_payments st
    \<and> ps_adjustments st' = ps_adjustments st @ [new_adjustment (ps_salaries st ! i) i ws Addition ''other'' x Payment_recording u]"
proof -
  let ?st1 = "add_adjustment (new_adjustment (ps_salaries st ! i) i ws Addition ''other'' x Payment_recording u) st"
  have "\<not> is_locked ?st1 i" using assms(6) is_locked_cong[of ?st1 st i] by (simp add: add_adjustment_def)
  then obtain st' where r: "recalculateSalaryFromAdjustments en i (Some u) False ?st1 = (Inr (), st')"
    using recalc_unlocked[of False ?st1 i en "Some u"] by auto
  have "ps_payments st' = ps_payments ?st1" "ps_adjustments st' = ps_adjustments ?st1"
    using recalc_frame(1,2)[of en i "Some u" False ?st1] r by simp_all
  moreover have "linked_additions en ws i u dto st = (Inr \<lparr>pp_linked = [length (ps_adjustments st)], pp_advance = None\<rparr>, st')"
    using assms(1-3,5) r unfolding linked_additions_def Let_def assms(4)[symmetric]
    by (simp add: createPaymentLinkedAddition_def)
  ultimately show ?thesis by (simp add: add_adjustment_def)
qed

text \<open>
  C29. Repeating the payment of a settled month raises the net salary: when the record is fully paid and
  the same amount is sent again within a minute, the repetition is rejected, but the addition written
  for the excess stays, active, unlinked and of a kind that no user can reverse.
\<close>

theorem repeated_payment_leaves_addition:
  assumes "pi_salaryId dto = Some i" "salary_of st ws i = Some d" "\<not> is_locked st i"
    "list_all fst (payment_checks en ws i u dto st)" "pi_commission dto = None" "0 < pi_amount dto" "\<not> pi_nextMonth dto"
    "feature en ''advancePayments''" "sd_netSalary (sl_data d) \<le> sumPaidAmountForSalary st i"
    "list_ex (is_duplicate en i dto) (ps_payments st)"
  shows "\<exists>a st'. recordPayment en ws u dto st = (Inl Duplicate_payment, st')
    \<and> ps_payments st' = ps_payments st \<and> ps_adjustments st' = ps_adjustments st @ [a]
    \<and> aj_active a \<and> aj_salaryId a = i \<and> aj_type a = Addition \<and> aj_amount a = fl (pi_amount dto) \<and> aj_linkedPaymentId a = None
    \<and> (\<forall>en' ws' v reason. \<exists>e. fst (reverseAdjustment en' ws' (length (ps_adjustments st)) v reason st') = Inl e)"
proof -
  have d: "ps_salaries st ! i = d" using assms(2) by (auto simp: salary_of_def salary_at_def nth_doc_def split: if_splits)
  have "jsub (sd_netSalary (sl_data d)) (sumPaidAmountForSalary st i) \<le> 0" using assms(9) by (simp add: jsub_def)
  then have x: "fl (pi_amount dto) = max 0 (jsub (pi_amount dto)
      (max 0 (jsub (sd_netSalary (sl_data (ps_salaries st ! i))) (sumPaidAmountForSalary st i))))"
    using assms(6) d by (simp add: max_def jsub_def)
  obtain st' where l: "linked_additions en ws i u dto st = (Inr \<lparr>pp_linked = [length (ps_adjustments st)], pp_advance = None\<rparr>, st')"
    "ps_payments st' = ps_payments st"
    "ps_adjustments st' = ps_adjustments st @ [new_adjustment d i ws Addition ''other'' (fl (pi_amount dto)) Payment_recording u]"
    using linked_single[OF assms(5,7,8) x, of ws u] assms(3,6) d by auto
  have g: "guarded cs r st = r" if "list_all fst cs" for cs and r :: "nat pay"
    using that by (induction cs) (auto simp: guarded_def)
  have "recordPayment en ws u dto st = (Inl Duplicate_payment, st')"
    using assms(1-3,10) l by (simp add: recordPayment_def target_salary_def pay_record_def g[OF assms(4)])
  moreover have "\<exists>e. fst (reverseAdjustment en' ws' (length (ps_adjustments st)) v reason st') = Inl e" for en' ws' v reason
    using l(3) by (auto simp: reverseAdjustment_def adjustment_of_def nth_doc_def new_adjustment_def split: option.splits)
  ultimately show ?thesis using l(2,3) by (simp add: new_adjustment_def)
qed

lemma guarded_error: "guarded cs r st = (Inl e, st') \<Longrightarrow> r = (Inl e, st') \<or> e \<in> snd ` set cs \<and> st' = st"
  by (induction cs) (auto simp: guarded_def split: if_splits)

lemma target_payments: "ps_payments (snd (target_salary en ws u dto st)) = ps_payments st"
proof -
  have e: "ps_payments (snd (ensureSalaryRecord en ws tm m y v st)) = ps_payments st" for tm m y v
    using grows_ensure[of st en ws tm m y v] by (simp add: grows_def)
  have "ps_payments (snd (and_then r (\<lambda>i s. if is_locked s i then (Inl Salary_locked, s) else (Inr i, s)))) = ps_payments (snd r)" for r
    by (cases r) (auto simp: and_then_def split: sum.split)
  then show ?thesis by (simp add: target_salary_def e split: option.split)
qed

lemma refused_schedule:
  assumes "schedule_recovery en ws u dto tm p adv st = (Inl (Compliance_breach bs), st')"
  shows "adv \<noteq> None \<and> ps_payments st' = ps_payments st"
proof (cases adv)
  case None
  then show ?thesis using assms by (simp add: schedule_recovery_def)
next
  case (Some a)
  obtain m y x where a: "a = (m, y, x)" by (cases a) auto
  have n: "fst (createAdvanceRecoveryDeduction en ws tm m y x p u None st) \<noteq> Inl (Compliance_breach bs)"
    using avoids_deduction by (fastforce simp: avoids_def)
  let ?q = "\<lparr>pq_ws = ws, pq_tm = tm, pq_sourcePaymentId = p, pq_totalAmount = x, pq_startMonth = m, pq_startYear = y,
      pq_installmentCount = (case pi_installments dto of None \<Rightarrow> None | Some (c, _) \<Rightarrow> c),
      pq_installmentAmount = (case pi_installments dto of None \<Rightarrow> None | Some (_, a) \<Rightarrow> a), pq_userId = u,
      pq_overrideCompliance = pi_overrideCompliance dto, pq_overrideReason = pi_overrideReason dto\<rparr>"
  have "createAdvanceRecoveryPlan en ?q st = (Inl (Compliance_breach bs), st')"
    using assms n Some a
    by (cases "createAdvanceRecoveryDeduction en ws tm m y x p u None st"; cases "createAdvanceRecoveryPlan en ?q st")
      (auto simp: schedule_recovery_def and_then_def split: if_splits sum.splits)
  then show ?thesis using grows_plan[of st en ?q] Some by (simp add: grows_def)
qed

text \<open>
  An advance whose recovery plan is refused stays paid: when the compliance guard blocks the plan of a
  payment that was recorded with an advance for the next month, the payment remains as an active
  advance, with neither a plan nor a deduction that takes it back.
\<close>

theorem refused_plan_keeps_payment:
  assumes "recordPayment en ws u dto st = (Inl (Compliance_breach bs), st')"
  shows "\<exists>p. ps_payments st' = ps_payments st @ [p] \<and> py_active p \<and> py_isAdvance p \<and> py_amount p = pi_amount dto
    \<and> py_advanceRecoveryPlanId p = None \<and> py_advanceRecoveryAdjustmentId p = None"
proof -
  obtain i st1 where t: "target_salary en ws u dto st = (Inr i, st1)" and r: "pay_record en ws i u dto st1 = (Inl (Compliance_breach bs), st')"
  proof -
    have "avoids late_errors (target_salary en ws u dto st)" unfolding target_salary_def by (auto split: option.split)
    then show ?thesis using assms that
      by (cases "target_salary en ws u dto st") (fastforce simp: recordPayment_def and_then_def avoids_def split: sum.splits)
  qed
  have p1: "ps_payments st1 = ps_payments st" using target_payments[of en ws u dto st] t by simp
  have "Compliance_breach bs \<notin> snd ` set (payment_checks en ws i u dto st1)" by (simp add: payment_checks_def Let_def)
  then have r2: "and_then (linked_additions en ws i u dto st1) (\<lambda>parts st2.
      if list_ex (is_duplicate en i dto) (ps_payments st2) then (Inl Duplicate_payment, st2)
      else settle_payment en ws i u dto parts st2) = (Inl (Compliance_breach bs), st')"
    using guarded_error[OF r[unfolded pay_record_def]] by blast
  have "fst (linked_additions en ws i u dto st1) \<noteq> Inl (Compliance_breach bs)"
    using avoids_linked by (fastforce simp: avoids_def)
  then obtain parts st2 where l: "linked_additions en ws i u dto st1 = (Inr parts, st2)"
    and s: "settle_payment en ws i u dto parts st2 = (Inl (Compliance_breach bs), st')"
    using r2 by (cases "linked_additions en ws i u dto st1") (auto simp: and_then_def split: sum.splits if_splits)
  have p2: "ps_payments st2 = ps_payments st" using linked_additions_frame[OF l] p1 by simp
  let ?p = "payment_of en ws i u dto (sl_teamMemberId (ps_salaries st2 ! i)) (pp_advance parts)"
  have "schedule_recovery en ws u dto (sl_teamMemberId (ps_salaries st2 ! i)) (length (ps_payments st2)) (pp_advance parts)
      (save_payment ?p (pp_linked parts) st2) = (Inl (Compliance_breach bs), st')"
    using s by (auto simp: settle_payment_def Let_def and_then_def split: prod.splits sum.splits)
  from refused_schedule[OF this] show ?thesis by (auto simp: save_payment_def p2 payment_of_def)
qed

section \<open>Recording and reversing a payment\<close>

definition core :: "salary_data \<Rightarrow> salary_data" where
  \<comment> \<open>without the totals\<close>
  "core d = d\<lparr>sd_additions := 0, sd_deductions := 0, sd_netSalary := 0\<rparr>"

lemma with_rollups_core: "core d = core e \<Longrightarrow> with_rollups a b d = with_rollups a b e"
  by (cases d; cases e) (simp add: core_def with_rollups_def)

lemma core_with_rollups [simp]: "core (with_rollups a b d) = core d"
  by (simp add: core_def with_rollups_def)

definition only_totals :: "nat \<Rightarrow> pay_store \<Rightarrow> pay_store \<Rightarrow> bool" where
  \<comment> \<open>of the records, only the totals and the status of one changed\<close>
  "only_totals i st st' \<longleftrightarrow> length (ps_salaries st') = length (ps_salaries st)
     \<and> (\<forall>j. j \<noteq> i \<longrightarrow> ps_salaries st' ! j = ps_salaries st ! j)
     \<and> core (sl_data (ps_salaries st' ! i)) = core (sl_data (ps_salaries st ! i))"

lemma only_totals_same: "ps_salaries st' = ps_salaries st \<Longrightarrow> only_totals i st st'"
  by (simp add: only_totals_def)

lemma only_totals_trans: "only_totals i a b \<Longrightarrow> only_totals i b c \<Longrightarrow> only_totals i a c"
  by (simp add: only_totals_def)

lemma only_totals_update: "(\<And>d. core (sl_data (f d)) = core (sl_data d)) \<Longrightarrow> only_totals i st (update_salary i f st)"
  by (cases "i < length (ps_salaries st)") (simp_all add: only_totals_def update_salary_def list_update_beyond)

lemma only_totals_recalc: "recalculateSalaryFromAdjustments en i u skip st = (r, st') \<Longrightarrow> only_totals i st st'"
  unfolding recalculateSalaryFromAdjustments_def syncSalaryStatus_def
  by (auto simp: only_totals_same split: if_splits intro!: only_totals_trans[OF only_totals_update only_totals_update])

lemma linked_shape:
  assumes "linked_additions en ws i u dto st = (Inr parts, st')" "\<not> pi_nextMonth dto"
  shows "pp_advance parts = None \<and> only_totals i st st' \<and> ps_payments st' = ps_payments st
    \<and> (\<exists>rows. ps_adjustments st' = ps_adjustments st @ rows \<and> (\<forall>a\<in>set rows. aj_salaryId a = i \<and> aj_active a)
         \<and> set (pp_linked parts) = {length (ps_adjustments st)..<length (ps_adjustments st')})"
proof -
  define c where "c = max 0 (coalesce (pi_commission dto) 0)"
  define x where "x = max 0 (jsub (pi_amount dto) (max 0 (jsub (sd_netSalary (sl_data (ps_salaries st ! i))) (sumPaidAmountForSalary st i))))"
  obtain l1 st1 where r1: "(if c > 0 then createPaymentLinkedAddition ws i u c ''commission'' st else ([], st)) = (l1, st1)" by force
  obtain l2 st2 where r2: "(if x > 0 then createPaymentLinkedAddition ws i u x ''other'' st1 else ([], st1)) = (l2, st2)" by force
  have 1: "ps_salaries st1 = ps_salaries st \<and> (\<exists>rows. ps_adjustments st1 = ps_adjustments st @ rows
      \<and> (\<forall>a\<in>set rows. aj_salaryId a = i \<and> aj_active a) \<and> set l1 = {length (ps_adjustments st)..<length (ps_adjustments st1)})"
    using r1 by (auto simp: createPaymentLinkedAddition_def add_adjustment_def new_adjustment_def split: if_splits)
  have 2: "ps_salaries st2 = ps_salaries st1 \<and> (\<exists>rows. ps_adjustments st2 = ps_adjustments st1 @ rows
      \<and> (\<forall>a\<in>set rows. aj_salaryId a = i \<and> aj_active a) \<and> set l2 = {length (ps_adjustments st1)..<length (ps_adjustments st2)})"
    using r2 by (auto simp: createPaymentLinkedAddition_def add_adjustment_def new_adjustment_def split: if_splits)
  obtain a b where ab: "ps_adjustments st1 = ps_adjustments st @ a" "ps_adjustments st2 = ps_adjustments st @ a @ b"
    "\<forall>r\<in>set (a @ b). aj_salaryId r = i \<and> aj_active r" using 1 2 by (clarsimp) (metis UnE)
  have l: "set (l1 @ l2) = {length (ps_adjustments st)..<length (ps_adjustments st2)}" using 1 2 ab by auto
  have main: "pp_advance parts = None \<and> pp_linked parts = l1 @ l2 \<and>
      (st' = st2 \<or> recalculateSalaryFromAdjustments en i (Some u) False st2 = (Inr (), st'))"
    using assms r1 r2 unfolding linked_additions_def Let_def c_def[symmetric] x_def[symmetric] r1
    by (auto simp: and_then_def split: if_splits prod.splits sum.splits)
  have "only_totals i st st' \<and> ps_adjustments st' = ps_adjustments st2"
  proof (cases "st' = st2")
    case True
    then show ?thesis using 1 2 by (simp add: only_totals_same)
  next
    case False
    then have r: "recalculateSalaryFromAdjustments en i (Some u) False st2 = (Inr (), st')" using main by simp
    have "only_totals i st st2" using 1 2 by (simp add: only_totals_same)
    then show ?thesis using only_totals_trans[OF _ only_totals_recalc[OF r]] recalc_frame(1)[of en i "Some u" False st2] r by simp
  qed
  then show ?thesis using main l ab linked_additions_frame[OF assms(1)] by auto
qed

lemma guarded_value: "guarded cs r st = (Inr x, st') \<Longrightarrow> r = (Inr x, st')"
  by (induction cs) (auto simp: guarded_def split: if_splits)

lemma recorded:
  assumes "recordPayment en ws u dto st = (Inr p, st')" "pi_salaryId dto = Some i" "\<not> pi_nextMonth dto"
  shows "p = length (ps_payments st) \<and> only_totals i st st'
    \<and> (\<exists>d. ps_payments st' = ps_payments st @ [d] \<and> py_salaryId d = i \<and> py_workspaceId d = ws \<and> \<not> py_isAdvance d)
    \<and> (\<exists>rows. ps_adjustments st' = ps_adjustments st @ rows
         \<and> (\<forall>a\<in>set rows. aj_salaryId a = i \<and> aj_active a \<and> aj_linkedPaymentId a = Some p))"
proof -
  have t: "target_salary en ws u dto st = (Inr i, st)"
    using assms(1,2) by (auto simp: recordPayment_def target_salary_def split: if_splits)
  then have r: "pay_record en ws i u dto st = (Inr p, st')" using assms(1) by (simp add: recordPayment_def)
  obtain parts st1 where l: "linked_additions en ws i u dto st = (Inr parts, st1)"
    and s: "settle_payment en ws i u dto parts st1 = (Inr p, st')"
    using guarded_value[OF r[unfolded pay_record_def]]
    by (cases "linked_additions en ws i u dto st") (auto simp: and_then_def split: sum.splits if_splits)
  note sh = linked_shape[OF l assms(3)]
  obtain rows where rows: "ps_adjustments st1 = ps_adjustments st @ rows" "\<forall>a\<in>set rows. aj_salaryId a = i \<and> aj_active a"
    "set (pp_linked parts) = {length (ps_adjustments st)..<length (ps_adjustments st1)}" using sh by blast
  let ?d = "payment_of en ws i u dto (sl_teamMemberId (ps_salaries st1 ! i)) None"
  have p: "p = length (ps_payments st)" "st' = syncSalaryStatus i (save_payment ?d (pp_linked parts) st1)"
    using s sh by (auto simp: settle_payment_def Let_def schedule_recovery_def)
  let ?link = "\<lambda>a. a\<lparr>aj_linkedPaymentId := Some p\<rparr>"
  have "map (\<lambda>(k, a). if k \<in> {length xs..<length xs + length ys} then ?link a else a) (enumerate 0 (xs @ ys)) = xs @ map ?link ys"
    for xs ys :: "adjustment_doc list"
    by (rule nth_equalityI) (auto simp: nth_enumerate_eq nth_append)
  note link = this[of "ps_adjustments st" rows]
  have n: "length (ps_payments st1) = p" using sh p(1) by simp
  have "ps_adjustments (save_payment ?d (pp_linked parts) st1) = ps_adjustments st @ map ?link rows"
    unfolding save_payment_def n rows(3) using link rows(1) by simp
  then have a: "ps_adjustments st' = ps_adjustments st @ map ?link rows" by (simp add: p(2) syncSalaryStatus_def)
  have "only_totals i st (save_payment ?d (pp_linked parts) st1)"
    using sh by (simp add: only_totals_def save_payment_def)
  then have "only_totals i st st'" unfolding p(2) syncSalaryStatus_def
    by (rule only_totals_trans) (rule only_totals_update, simp)
  moreover have "ps_payments st' = ps_payments st @ [?d]"
    using sh by (simp add: p(2) syncSalaryStatus_def save_payment_def update_salary_def)
  ultimately show ?thesis using p(1) a rows(2)
    by (intro conjI exI[of _ ?d] exI[of _ "map ?link rows"]) (auto simp: payment_of_def)
qed

lemma reversed_doc:
  assumes "aj_salaryId (ps_adjustments st ! k) = i"
  shows "only_totals i st (snd (reverseAdjustmentDoc en u r k st))
    \<and> ps_adjustments (snd (reverseAdjustmentDoc en u r k st)) = (ps_adjustments st)[k := reversed u r (ps_adjustments st ! k)]
    \<and> ps_payments (snd (reverseAdjustmentDoc en u r k st)) = ps_payments st"
proof -
  let ?s = "update_adjustment k (reversed u r) st"
  obtain s' where c: "recalculateSalaryFromAdjustments en i (Some u) True ?s = (Inr (), s')"
    using recalc_unlocked[of True ?s i en "Some u"] by auto
  have s: "only_totals i st ?s" by (rule only_totals_same) (simp add: update_adjustment_def)
  then have "only_totals i st s'" using only_totals_recalc[OF c] only_totals_trans by blast
  moreover have "ps_adjustments s' = ps_adjustments ?s" "ps_payments s' = ps_payments ?s"
    using recalc_frame(1,2)[of en i "Some u" True ?s] c by simp_all
  ultimately show ?thesis using s c assms by (simp add: reverseAdjustmentDoc_def Let_def update_adjustment_def)
qed

lemma reversed_docs:
  assumes "\<And>k. k \<in> set ks \<Longrightarrow> aj_salaryId (ps_adjustments st ! k) = i"
  shows "only_totals i st (snd (reverse_docs en u r ks st)) \<and> ps_payments (snd (reverse_docs en u r ks st)) = ps_payments st
    \<and> length (ps_adjustments (snd (reverse_docs en u r ks st))) = length (ps_adjustments st)
    \<and> (\<forall>k<length (ps_adjustments st). ps_adjustments (snd (reverse_docs en u r ks st)) ! k
         = (if k \<in> set ks then reversed u r (ps_adjustments st ! k) else ps_adjustments st ! k))"
  using assms
proof (induction ks arbitrary: st)
  case (Cons k ks)
  let ?r = "reverseAdjustmentDoc en u r k st"
  have "\<exists>s. ?r = (Inr (), s)"
    using recalc_unlocked[of True "update_adjustment k (reversed u r) st" "aj_salaryId (ps_adjustments st ! k)" en "Some u"]
    by (auto simp: reverseAdjustmentDoc_def Let_def)
  then obtain s where s: "?r = (Inr (), s)" ..
  have d: "only_totals i st s" "ps_adjustments s = (ps_adjustments st)[k := reversed u r (ps_adjustments st ! k)]" "ps_payments s = ps_payments st"
    using reversed_doc[OF Cons.prems[of k], of en u r] s by simp_all
  have "aj_salaryId (ps_adjustments s ! q) = i" if "q \<in> set ks" for q
    using Cons.prems[of q] that unfolding d(2)
    by (cases "q = k"; cases "k < length (ps_adjustments st)") (simp_all add: list_update_beyond)
  note IH = Cons.IH[OF this]
  have idem: "reversed u r (reversed u r a) = reversed u r a" for a by (simp add: reversed_def)
  have "ps_adjustments (snd (reverse_docs en u r ks s)) ! q
      = (if q \<in> set (k # ks) then reversed u r (ps_adjustments st ! q) else ps_adjustments st ! q)"
    if "q < length (ps_adjustments st)" for q
    using IH that unfolding d(2) by (cases "q = k") (simp_all add: idem)
  then show ?case using IH d s only_totals_trans by auto
qed (simp add: only_totals_same)

lemma reversed_payment:
  assumes "reversePayment en ws p v reason st = (Inr x, st')" "p < length (ps_payments st)" "\<not> py_isAdvance (ps_payments st ! p)"
    "i = py_salaryId (ps_payments st ! p)" "\<And>k. k \<in> set (linked_rows st p) \<Longrightarrow> aj_salaryId (ps_adjustments st ! k) = i"
  shows "only_totals i st st' \<and> length (ps_adjustments st') = length (ps_adjustments st)
    \<and> (\<forall>k<length (ps_adjustments st). ps_adjustments st' ! k
         = (if k \<in> set (linked_rows st p) then reversed v (trim reason) (ps_adjustments st ! k) else ps_adjustments st ! k))
    \<and> (\<exists>d. ps_payments st' = (ps_payments st)[p := d] \<and> \<not> py_active d \<and> py_salaryId d = i)"
proof -
  let ?f = "\<lambda>x. x\<lparr>py_active := False, py_reversedBy := Some v, py_reversalReason := Some (trim reason)\<rparr>"
  define st1 where "st1 = update_payment p ?f st"
  have l: "linked_rows st1 p = linked_rows st p" "ps_adjustments st1 = ps_adjustments st" "ps_salaries st1 = ps_salaries st"
    by (simp_all add: st1_def update_payment_def linked_rows_def)
  have d: "only_totals i st1 (snd (reverse_docs en v (trim reason) (linked_rows st p) st1))
      \<and> ps_payments (snd (reverse_docs en v (trim reason) (linked_rows st p) st1)) = ps_payments st1
      \<and> length (ps_adjustments (snd (reverse_docs en v (trim reason) (linked_rows st p) st1))) = length (ps_adjustments st1)
      \<and> (\<forall>k<length (ps_adjustments st1). ps_adjustments (snd (reverse_docs en v (trim reason) (linked_rows st p) st1)) ! k
         = (if k \<in> set (linked_rows st p) then reversed v (trim reason) (ps_adjustments st1 ! k) else ps_adjustments st1 ! k))"
    by (rule reversed_docs) (use assms(5) l in simp)
  obtain q s2 where s2: "reverse_docs en v (trim reason) (linked_rows st p) st1 = (q, s2)" by force
  have main: "st' = s2 \<or> recalculateSalaryFromAdjustments en i (Some v) False s2 = (Inr x, st')"
    using assms(1-4) s2 l(1)
    by (cases q) (auto simp: reversePayment_def nth_doc_def Let_def st1_def[symmetric] reverse_recovery_def split: if_splits)
  have "only_totals i s2 st' \<and> ps_adjustments st' = ps_adjustments s2 \<and> ps_payments st' = ps_payments s2"
  proof (cases "st' = s2")
    case False
    then have r: "recalculateSalaryFromAdjustments en i (Some v) False s2 = (Inr x, st')" using main by simp
    then show ?thesis using only_totals_recalc[OF r] recalc_frame(1,2)[of en i "Some v" False s2] by simp
  qed (simp add: only_totals_same)
  moreover have "only_totals i st st1" by (rule only_totals_same) (simp add: l)
  moreover have "only_totals i st1 s2" "ps_payments s2 = ps_payments st1" using d unfolding s2 by simp_all
  ultimately have t: "only_totals i st st'" "ps_adjustments st' = ps_adjustments s2" "ps_payments st' = ps_payments st1"
    using only_totals_trans[of i st st1 s2] only_totals_trans[of i st s2 st'] by simp_all
  have "ps_payments st' = (ps_payments st)[p := ?f (ps_payments st ! p)]" by (simp add: t(3) st1_def update_payment_def)
  moreover have "\<not> py_active (?f (ps_payments st ! p))" "py_salaryId (?f (ps_payments st ! p)) = i" using assms(4) by simp_all
  ultimately have "\<exists>d. ps_payments st' = (ps_payments st)[p := d] \<and> \<not> py_active d \<and> py_salaryId d = i" by blast
  then show ?thesis using t(1,2) d l(2) unfolding s2 snd_conv by simp
qed

lemma total_inactive: "\<forall>a\<in>set rows. \<not> aj_active a \<Longrightarrow> total_of S (rs @ rows) i ty = total_of S rs i ty"
proof -
  assume a: "\<forall>a\<in>set rows. \<not> aj_active a"
  have "filter (\<lambda>a. aj_salaryId a = i \<and> aj_active a \<and> aj_category a \<noteq> ''loan_perquisite'' \<and> aj_type a = ty) rows = []"
    using a by (auto simp: filter_empty_conv)
  then show ?thesis by (simp add: total_of_def)
qed

text \<open>
  C9. Reversing a payment undoes it: in books that agree, a payment that was recorded without an advance for the next
  month and then reversed leaves the record with the totals, the net salary and the status it had, all
  other records and all earlier adjustments and payments as they were, and only inactive rows behind.
\<close>

theorem payment_round_trip:
  assumes "wf_store st" "record_agrees (en_sum en) st i" "en_sum en' = en_sum en" "pi_salaryId dto = Some i" "\<not> pi_nextMonth dto"
    "recordPayment en ws u dto st = (Inr p, st1)" "reversePayment en' ws p v reason st1 = (Inr x, st2)"
  shows "sl_data (ps_salaries st2 ! i) = sl_data (ps_salaries st ! i)
    \<and> sl_status (ps_salaries st2 ! i) = sl_status (ps_salaries st ! i)
    \<and> (\<forall>j. j \<noteq> i \<longrightarrow> ps_salaries st2 ! j = ps_salaries st ! j)
    \<and> (\<exists>rows. ps_adjustments st2 = ps_adjustments st @ rows \<and> (\<forall>a\<in>set rows. \<not> aj_active a))
    \<and> (\<exists>d. ps_payments st2 = ps_payments st @ [d] \<and> \<not> py_active d)"
proof -
  obtain d rows where r1: "p = length (ps_payments st)" "only_totals i st st1" "ps_payments st1 = ps_payments st @ [d]"
    "py_salaryId d = i" "\<not> py_isAdvance d" and rows: "ps_adjustments st1 = ps_adjustments st @ rows"
    "\<forall>a\<in>set rows. aj_salaryId a = i \<and> aj_active a \<and> aj_linkedPaymentId a = Some p"
    using recorded[OF assms(6,4,5)] by auto
  have old: "aj_linkedPaymentId a \<noteq> Some p" if "a \<in> set (ps_adjustments st)" for a
    using assms(1) that r1(1) by (auto simp: wf_store_def row_ok_def)
  have l: "set (linked_rows st1 p) = {length (ps_adjustments st)..<length (ps_adjustments st) + length rows}"
  proof (intro set_eqI)
    fix k
    show "k \<in> set (linked_rows st1 p) \<longleftrightarrow> k \<in> {length (ps_adjustments st)..<length (ps_adjustments st) + length rows}"
      using rows(2) old by (cases "k < length (ps_adjustments st)") (auto simp: linked_rows_def rows(1) nth_append)
  qed
  have k: "aj_salaryId (ps_adjustments st1 ! k) = i" if "k \<in> set (linked_rows st1 p)" for k
    using that rows(2) unfolding l by (auto simp: rows(1) nth_append)
  have d: "ps_payments st1 ! p = d" "p < length (ps_payments st1)" using r1 by simp_all
  obtain e where r2: "only_totals i st1 st2" "length (ps_adjustments st2) = length (ps_adjustments st1)"
    "\<And>k. k < length (ps_adjustments st1) \<Longrightarrow> ps_adjustments st2 ! k
         = (if k \<in> set (linked_rows st1 p) then reversed v (trim reason) (ps_adjustments st1 ! k) else ps_adjustments st1 ! k)"
    and e: "ps_payments st2 = (ps_payments st1)[p := e]" "\<not> py_active e" "py_salaryId e = i"
    using reversed_payment[OF assms(7) d(2), of i] d(1) r1(4,5) k by auto
  have a: "ps_adjustments st2 = ps_adjustments st @ map (reversed v (trim reason)) rows"
    by (rule nth_equalityI) (auto simp: r2 l rows(1) nth_append)
  have py: "ps_payments st2 = ps_payments st @ [e]" using e(1) r1(1,3) by simp
  have t: "only_totals i st st2" by (rule only_totals_trans[OF r1(2) r2(1)])
  have "agree (en_sum en) (UNIV - {i}) (UNIV - {i}) st" using assms(2) by (auto simp: agree_def record_agrees_iff)
  then have "agree (en_sum en) (UNIV - {i}) (UNIV - {i}) st1"
    using agree_record_payment[of en _ _ st ws u dto] assms(6) by (simp add: completed_def)
  moreover have "wf_store st1" using wf.record_payment_inv[OF assms(1), of en ws u dto] assms(6) by simp
  ultimately have 2: "agree (en_sum en) (UNIV - {i}) (UNIV - {i}) st2"
    using agree_reverse_payment[of en' _ _ st1 ws p v reason x st2] assms(3,7) by simp
  have i: "i < length (ps_salaries st)"
  proof -
    have "salary_of st ws i \<noteq> None" using assms(4,6) by (auto simp: recordPayment_def target_salary_def split: if_splits)
    then show ?thesis by (auto simp: salary_of_def salary_at_def nth_doc_def split: if_splits)
  qed
  have "record_agrees (en_sum en) st2 i" using agree_at[OF 2] i t by (simp add: only_totals_def)
  then have ok: "data_ok (en_sum en) st2 i" "status_ok st2 i" "data_ok (en_sum en) st i" "status_ok st i"
    using assms(2) by (simp_all add: record_agrees_iff)
  have tot: "total_of (en_sum en) (ps_adjustments st2) i ty = total_of (en_sum en) (ps_adjustments st) i ty" for ty
    unfolding a by (rule total_inactive) (simp add: reversed_def)
  have data: "sl_data (ps_salaries st2 ! i) = sl_data (ps_salaries st ! i)"
    using ok(1,3) t with_rollups_core[of "sl_data (ps_salaries st2 ! i)" "sl_data (ps_salaries st ! i)"]
    unfolding data_ok_def tot by (metis only_totals_def)
  moreover have "sumPaidAmountForSalary st2 i = sumPaidAmountForSalary st i"
    using e(2) by (simp add: sumPaidAmountForSalary_def py)
  ultimately have "sl_status (ps_salaries st2 ! i) = sl_status (ps_salaries st ! i)"
    using ok(2,4) by (simp add: status_ok_def)
  then show ?thesis using data t a py e(2) by (auto simp: only_totals_def reversed_def)
qed

end
