(* ===== verification/SalaryLocks.thy ===== *)
theory SalaryLocks
  imports SalaryEffects
begin

text \<open>
  What a lock protects.  Producing, adjusting, paying and reversing keep a locked record and its
  adjustments as they are; the recovery of an advance does not ask for the lock.
\<close>

definition kept :: "nat \<Rightarrow> pay_store \<Rightarrow> pay_store \<Rightarrow> bool" where
  \<comment> \<open>the record and its adjustments are the same\<close>
  "kept k st st' \<longleftrightarrow> length (ps_salaries st) \<le> length (ps_salaries st') \<and> ps_salaries st' ! k = ps_salaries st ! k
     \<and> filter (\<lambda>a. aj_salaryId a = k) (ps_adjustments st') = filter (\<lambda>a. aj_salaryId a = k) (ps_adjustments st)"

lemma kept_refl [simp]: "kept k st st" by (simp add: kept_def)

lemma kept_trans: "kept k a b \<Longrightarrow> kept k b c \<Longrightarrow> kept k a c" by (simp add: kept_def)

lemma kept_side: "ps_salaries st' = ps_salaries st \<Longrightarrow> ps_adjustments st' = ps_adjustments st \<Longrightarrow> kept k st st'"
  by (simp add: kept_def)

lemma kept_update_salary: "i \<noteq> k \<Longrightarrow> kept k st (update_salary i f st)"
  by (simp add: kept_def update_salary_def)

lemma kept_and_then:
  "kept k st (snd r) \<Longrightarrow> (\<And>x s. r = (Inr x, s) \<Longrightarrow> kept k s (snd (f x s))) \<Longrightarrow> kept k st (snd (and_then r f))"
  by (cases r) (auto simp: and_then_def split: sum.split intro: kept_trans)

lemma kept_guarded: "kept k st (snd r) \<Longrightarrow> kept k st (snd (guarded cs r st))"
  using guarded_cases[of cs r st] by (metis kept_refl snd_conv)

lemma kept_recalc: "i \<noteq> k \<Longrightarrow> kept k st (snd (recalculateSalaryFromAdjustments en i u skip st))"
  unfolding recalculateSalaryFromAdjustments_def syncSalaryStatus_def
  by (rule kept_guarded) (auto intro!: kept_trans[OF kept_update_salary kept_update_salary])

lemma kept_add: "aj_salaryId a \<noteq> k \<Longrightarrow> kept k st (add_adjustment a st)"
  by (simp add: kept_def add_adjustment_def)

lemma kept_row: "aj_salaryId (ps_adjustments st ! q) \<noteq> k \<Longrightarrow> aj_salaryId b \<noteq> k
    \<Longrightarrow> kept k st (st\<lparr>ps_adjustments := (ps_adjustments st)[q := b]\<rparr>)"
  by (simp add: kept_def filter_update_irrelevant)

lemma filter_map_keep: "(\<And>a. aj_salaryId (f a) = aj_salaryId a) \<Longrightarrow> (\<And>a. aj_salaryId a = k \<Longrightarrow> f a = a)
    \<Longrightarrow> filter (\<lambda>a. aj_salaryId a = k) (map f xs) = filter (\<lambda>a. aj_salaryId a = k) xs"
  by (induction xs) auto

lemma kept_put_system:
  assumes "i \<noteq> k"
  shows "kept k st (put_system ws i cat u due st)"
proof (cases due)
  case (Inr reason)
  show ?thesis unfolding put_system_def Inr sum.case reverse_system_def
    by (simp add: kept_def) (rule filter_map_keep, use assms in \<open>auto simp: is_system_row_def\<close>)
next
  case (Inl amount)
  let ?P = "\<lambda>a. is_system_row ws i cat a \<and> aj_month a = sl_month (ps_salaries st ! i) \<and> aj_year a = sl_year (ps_salaries st ! i)"
  show ?thesis
  proof (cases "find_index ?P (ps_adjustments st)")
    case None
    then show ?thesis using assms
      by (simp add: put_system_def Inl upsert_system_def Let_def kept_add new_adjustment_def)
  next
    case (Some q)
    then have "aj_salaryId (ps_adjustments st ! q) = i" using find_index_SomeD by (fastforce simp: is_system_row_def)
    then show ?thesis using Some assms
      by (simp add: put_system_def Inl upsert_system_def Let_def kept_row)
  qed
qed

lemma kept_statutory:
  assumes "i \<noteq> k"
  shows "kept k st (snd (applyStatutoryDeductions en ws i m st))"
proof (cases "en_statutory en")
  case (Some c)
  have p: "kept k st (put_system ws i cat u due s)" if "kept k st s" for cat u due s
    using that kept_put_system[OF assms] kept_trans by blast
  have rows: "kept k st (statutory_rows en c ws i m u st)" for u
    unfolding statutory_rows_def Let_def by (intro p kept_refl)
  have t: "kept k s (tds_step en ws i m u s)" for u s
  proof -
    have d: "kept k s (r\<lparr>ps_declarations := x\<rparr>) = kept k s r" for r x by (simp add: kept_def)
    show ?thesis unfolding tds_step_def Let_def
      by (cases "getOrCreateDeclaration (ps_declarations s)
          (ws, pm_id m, getFinancialYear (sl_month (ps_salaries s ! i)) (sl_year (ps_salaries s ! i)) (en_fiscalYearStartMonth en))
          (member_regime m) u")
        (simp only: prod.case d, rule kept_trans[OF _ kept_put_system[OF assms]], simp add: d)
  qed
  have r: "kept k s (reverse_system ws i cat reason s)" for s cat reason
    using kept_put_system[OF assms, of s ws cat undefined "Inr reason"] by (simp add: put_system_def)
  show ?thesis unfolding applyStatutoryDeductions_def Some option.case Let_def
    by (rule kept_trans[OF _ kept_recalc[OF assms]]) (auto intro: kept_trans[OF rows t] kept_trans[OF rows r])
qed (simp add: applyStatutoryDeductions_def)

lemma kept_auto_deductions:
  assumes "i \<noteq> k"
  shows "kept k st (applyAdvanceAutoDeductions ws i st)"
proof -
  have r: "kept k s (recover_advance ws i j s)" for j s
    using assms by (simp add: recover_advance_def Let_def kept_def new_adjustment_def)
  have "kept k s (fold (recover_advance ws i) js s)" for js s
    by (induction js arbitrary: s) (auto intro: kept_trans[OF r])
  then show ?thesis unfolding applyAdvanceAutoDeductions_def .
qed

lemma kept_settle: "i \<noteq> k \<Longrightarrow> kept k st (snd (settle_record en ws tm i u st))"
  unfolding settle_record_def
  by (rule kept_and_then[OF kept_trans[OF kept_auto_deductions kept_recalc]])
    (auto intro: kept_statutory split: option.split)

lemma locked_is: "is_locked st k \<Longrightarrow> k < length (ps_salaries st)"
  by (auto simp: is_locked_def salary_at_def nth_doc_def split: option.splits if_splits)

lemma kept_ensure:
  assumes "is_locked st k"
  shows "kept k st (snd (ensureSalaryRecord en ws tm month year u st))"
proof (cases "find_salary st ws tm month year")
  case (Some i)
  show ?thesis
  proof (cases "is_locked st i")
    case False
    then have i: "i \<noteq> k" using assms by auto
    have "kept k st (snd (refresh_piece en ws tm i st))"
      by (auto simp: refresh_piece_def Let_def kept_update_salary[OF i] split: option.split sum.split)
    from kept_and_then[OF this kept_settle[OF i]] show ?thesis using Some False by (simp add: ensureSalaryRecord_def)
  qed (simp add: ensureSalaryRecord_def Some)
next
  case None
  have b: "kept k st (snd (buildSalaryRecordData en ws tm month year 0 0 st))"
    using build_frame[of en ws tm month year 0 0 st] by (cases "buildSalaryRecordData en ws tm month year 0 0 st")
      (auto intro!: kept_side simp: applyPendingIncrement_def split: option.split)
  show ?thesis unfolding ensureSalaryRecord_def None option.case Let_def
  proof (rule kept_and_then[OF b])
    fix d s assume "buildSalaryRecordData en ws tm month year 0 0 st = (Inr d, s)"
    then have l: "length (ps_salaries s) = length (ps_salaries st)"
      using build_frame[of en ws tm month year 0 0 st] ids_increment(1)[of ws tm month year st]
      by (metis ids_def length_map)
    then have n: "length (ps_salaries s) \<noteq> k" using locked_is[OF assms] by simp
    have "kept k s (s\<lparr>ps_salaries := ps_salaries s @ [new_salary ws tm month year d u]\<rparr>)"
      using locked_is[OF assms] l by (simp add: kept_def nth_append)
    then show "kept k s (snd (settle_record en ws tm (length (ps_salaries s)) u
        (s\<lparr>ps_salaries := ps_salaries s @ [new_salary ws tm month year d u]\<rparr>)))"
      by (rule kept_trans) (rule kept_settle[OF n])
  qed
qed

lemma kept_locked: "kept k st st' \<Longrightarrow> is_locked st k \<Longrightarrow> is_locked st' k"
  by (auto simp: kept_def is_locked_def salary_at_def nth_doc_def split: option.splits if_splits)

lemma kept_create_adjustment:
  assumes "is_locked st k"
  shows "kept k st (snd (createAdjustment en ws i u dto st))"
proof (cases "i = k")
  case True
  then show ?thesis using assms by (simp add: createAdjustment_def split: option.split)
next
  case False
  have "kept k st (snd (recalculateSalaryFromAdjustments en i (Some u) False (add_adjustment row st)))" if "aj_salaryId row = i" for row
    by (rule kept_trans[OF kept_add kept_recalc[OF False]]) (simp add: that False)
  then show ?thesis unfolding createAdjustment_def Let_def
    by (auto simp del: guarded_simps simp: new_adjustment_def intro!: kept_guarded split: option.split)
qed

lemma kept_reversed:
  assumes "aj_salaryId (ps_adjustments st ! q) \<noteq> k"
  shows "kept k st (update_adjustment q (reversed u r) st)"
  unfolding update_adjustment_def by (rule kept_row) (simp_all add: assms)

lemma kept_reverse_adjustment:
  assumes "is_locked st k"
  shows "kept k st (snd (reverseAdjustment en ws q u reason st))"
proof (cases "aj_salaryId (ps_adjustments st ! q) = k")
  case True
  then show ?thesis using assms
    by (auto simp: reverseAdjustment_def adjustment_of_def nth_doc_def split: option.split)
next
  case False
  have "kept k st (snd (recalculateSalaryFromAdjustments en (aj_salaryId (ps_adjustments st ! q)) (Some u) False
      (update_adjustment q (reversed u (trim reason)) st)))"
    by (rule kept_trans[OF kept_reversed[OF False] kept_recalc[OF False]])
  then show ?thesis unfolding reverseAdjustment_def Let_def
    by (auto simp del: guarded_simps simp: adjustment_of_def nth_doc_def kept_reversed[OF False] intro!: kept_guarded split: option.split)
qed

lemma kept_lock:
  assumes "is_locked st k"
  shows "kept k st (snd (lockSalaryRecord en ws i u st))"
proof (cases "i = k")
  case True
  have "salary_of st ws i = Some d \<Longrightarrow> sl_isLocked d" for d
    using assms True by (auto simp: salary_of_def is_locked_def split: option.splits if_splits)
  then show ?thesis by (simp add: lockSalaryRecord_def split: option.split)
next
  case False
  have p: "kept k st (snd (recomputePieceRateForSalary en i m u st))" for m
    by (auto simp: recomputePieceRateForSalary_def Let_def split: sum.split
        intro!: kept_trans[OF kept_update_salary[OF False] kept_statutory[OF False]])
  show ?thesis unfolding lockSalaryRecord_def
    by (auto simp del: guarded_simps snd_and_then simp: p kept_update_salary[OF False] intro!: kept_guarded kept_and_then split: option.split)
qed

lemma kept_linked_addition:
  "i \<noteq> k \<Longrightarrow> kept k st (snd (createPaymentLinkedAddition ws i u amount cat st))"
  by (simp add: createPaymentLinkedAddition_def kept_add new_adjustment_def)

lemma kept_linked_additions:
  assumes "i \<noteq> k"
  shows "kept k st (snd (linked_additions en ws i u dto st))"
proof -
  define c where "c = max 0 (coalesce (pi_commission dto) 0)"
  define x where "x = max 0 (jsub (pi_amount dto) (max 0 (jsub (sd_netSalary (sl_data (ps_salaries st ! i))) (sumPaidAmountForSalary st i))))"
  obtain l1 st1 where r1: "(if c > 0 then createPaymentLinkedAddition ws i u c ''commission'' st else ([], st)) = (l1, st1)" by force
  obtain l2 st2 where r2: "createPaymentLinkedAddition ws i u x ''other'' st1 = (l2, st2)" by force
  obtain m y where my: "following_month (sl_month (ps_salaries st ! i)) (sl_year (ps_salaries st ! i)) = (m, y)" by force
  have 1: "kept k st st1" using kept_linked_addition[OF assms, of st ws u c "''commission''"] r1 by (auto split: if_splits)
  have 2: "kept k st st2" using kept_trans[OF 1] kept_linked_addition[OF assms, of st1 ws u x "''other''"] r2 by simp
  have r: "kept k st s \<Longrightarrow> kept k st (snd (recalculateSalaryFromAdjustments en i (Some u) False s))" for s
    using kept_recalc[OF assms] kept_trans by blast
  have f: "kept k st (snd r) \<Longrightarrow> kept k st (snd (and_then r (\<lambda>_ s. (Inr z, s))))" for r :: "unit pay" and z :: payment_parts
    by simp
  show ?thesis unfolding linked_additions_def Let_def c_def[symmetric] x_def[symmetric] r1 prod.case r2 my
    using 1 2 by (simp add: r)
qed

lemma kept_links:
  assumes "\<And>q. q \<in> L \<Longrightarrow> q < length rs \<Longrightarrow> aj_salaryId (rs ! q) \<noteq> k"
  shows "filter (\<lambda>a. aj_salaryId a = k) (map (\<lambda>(q, a). if q \<in> L then a\<lparr>aj_linkedPaymentId := z\<rparr> else a) (enumerate 0 rs))
    = filter (\<lambda>a. aj_salaryId a = k) rs"
  using assms
proof (induction rs rule: rev_induct)
  case (snoc r rs)
  have "aj_salaryId (rs ! q) \<noteq> k" if "q \<in> L" "q < length rs" for q
    using snoc.prems[OF that(1)] that(2) by (simp add: nth_append)
  note IH = snoc.IH[OF this]
  show ?case using IH snoc.prems[of "length rs"] by (auto simp: enumerate_append_eq)
qed simp

lemma kept_pay_record:
  assumes "i \<noteq> k" "\<not> pi_nextMonth dto"
  shows "kept k st (snd (pay_record en ws i u dto st))"
  unfolding pay_record_def
proof (rule kept_guarded, rule kept_and_then[OF kept_linked_additions[OF assms(1)]])
  fix parts s assume l: "linked_additions en ws i u dto st = (Inr parts, s)"
  let ?p = "payment_of en ws i u dto (sl_teamMemberId (ps_salaries s ! i)) None"
  have a: "pp_advance parts = None" using linked_shape[OF l assms(2)] by simp
  have "aj_salaryId (ps_adjustments s ! q) = i" if "q \<in> set (pp_linked parts)" for q
    using linked_additions_frame[OF l] that by auto
  then have "filter (\<lambda>a. aj_salaryId a = k) (map (\<lambda>(q, a). if q \<in> set (pp_linked parts) then a\<lparr>aj_linkedPaymentId := z\<rparr> else a)
      (enumerate 0 (ps_adjustments s))) = filter (\<lambda>a. aj_salaryId a = k) (ps_adjustments s)" for z
    using kept_links assms(1) by blast
  then have "kept k s (save_payment ?p (pp_linked parts) s)" by (simp add: kept_def save_payment_def)
  then have "kept k s (snd (settle_payment en ws i u dto parts s))"
    using kept_trans[OF _ kept_update_salary[OF assms(1)]]
    by (simp add: settle_payment_def Let_def a schedule_recovery_def syncSalaryStatus_def)
  then show "kept k s (snd (if list_ex (is_duplicate en i dto) (ps_payments s) then (Inl Duplicate_payment, s)
      else settle_payment en ws i u dto parts s))" by simp
qed

lemma kept_record_payment:
  assumes "is_locked st k" "\<not> pi_nextMonth dto"
  shows "kept k st (snd (recordPayment en ws u dto st))"
  unfolding recordPayment_def
proof (rule kept_and_then)
  have s: "kept k st (snd (and_then r (\<lambda>i s. if is_locked s i then (Inl Salary_locked, s) else (Inr i, s))))"
    if "kept k st (snd r)" for r :: "nat pay"
    by (rule kept_and_then[OF that]) simp
  show t: "kept k st (snd (target_salary en ws u dto st))"
    unfolding target_salary_def by (auto intro!: s kept_ensure assms(1) split: option.split)
  fix i st1 assume r: "target_salary en ws u dto st = (Inr i, st1)"
  then have "is_locked st1 k" using kept_locked[OF _ assms(1)] t by simp
  then have "i \<noteq> k" using target_owned[OF r] by auto
  then show "kept k st1 (snd (pay_record en ws i u dto st1))" by (rule kept_pay_record) (rule assms(2))
qed

lemma kept_reverse_docs:
  assumes "\<And>q. q \<in> set qs \<Longrightarrow> aj_salaryId (ps_adjustments st ! q) = i" "i \<noteq> k"
  shows "kept k st (snd (reverse_docs en u r qs st))"
  using assms(1)
proof (induction qs arbitrary: st)
  case (Cons q qs)
  show ?case unfolding reverse_docs.simps
  proof (rule kept_and_then)
    have i: "aj_salaryId (ps_adjustments st ! q) = i" using Cons.prems by simp
    show "kept k st (snd (reverseAdjustmentDoc en u r q st))"
      unfolding reverseAdjustmentDoc_def Let_def i
      by (simp, intro conjI impI kept_trans[OF kept_reversed kept_recalc] kept_reversed) (simp_all add: i assms(2))
    fix x s assume s: "reverseAdjustmentDoc en u r q st = (Inr x, s)"
    have "aj_salaryId (ps_adjustments s ! z) = i" if "z \<in> set qs" for z
      using reversed_doc[OF i, of en u r] s Cons.prems[of z] that i
      by (cases "z = q"; cases "q < length (ps_adjustments st)") (simp_all add: list_update_beyond)
    then show "kept k s (snd (reverse_docs en u r qs s))" by (rule Cons.IH)
  qed
qed simp

lemma kept_reverse_payment:
  assumes "is_locked st k" "wf_store st" "\<not> py_isAdvance (ps_payments st ! p)"
  shows "kept k st (snd (reversePayment en ws p u reason st))"
proof (cases "p < length (ps_payments st) \<and> py_salaryId (ps_payments st ! p) \<noteq> k")
  case False
  then show ?thesis using assms(1) by (auto simp: reversePayment_def nth_doc_def)
next
  case True
  let ?i = "py_salaryId (ps_payments st ! p)"
  let ?f = "\<lambda>x. x\<lparr>py_active := False, py_reversedBy := Some u, py_reversalReason := Some (trim reason)\<rparr>"
  let ?st1 = "update_payment p ?f st"
  have "aj_salaryId (ps_adjustments ?st1 ! q) = ?i" if q: "q \<in> set (linked_rows ?st1 p)" for q
  proof -
    have "row_ok st (ps_adjustments st ! q)" "aj_linkedPaymentId (ps_adjustments st ! q) = Some p"
      using assms(2) q by (auto simp: wf_store_def linked_rows_def update_payment_def)
    then show ?thesis by (simp add: row_ok_def update_payment_def)
  qed
  then have "kept k ?st1 (snd (reverse_docs en u (trim reason) (linked_rows ?st1 p) ?st1))"
    using kept_reverse_docs[of "linked_rows ?st1 p" ?st1 ?i k en u "trim reason"] True by blast
  moreover have "kept k st ?st1" by (rule kept_side) (simp_all add: update_payment_def)
  ultimately have 1: "kept k st (snd (reverse_docs en u (trim reason) (linked_rows ?st1 p) ?st1))"
    using kept_trans by blast
  have "kept k st (snd (and_then (reverse_docs en u (trim reason) (linked_rows ?st1 p) ?st1) (\<lambda>_ st2.
      and_then (reverse_recovery en u (trim reason) (ps_payments st ! p) st2) (\<lambda>_ st3.
        if salary_of st3 ws ?i = None then (Inr (), st3)
        else recalculateSalaryFromAdjustments en ?i (Some u) False st3))))"
    by (rule kept_and_then[OF 1]) (simp add: reverse_recovery_def assms(3) kept_recalc True)
  then show ?thesis using True unfolding reversePayment_def Let_def nth_doc_def
    by (auto simp del: guarded_simps intro!: kept_guarded)
qed

section \<open>The payroll of a month, a record and the pay of a member\<close>

lemma kept_ensure_all: "is_locked st k \<Longrightarrow> kept k st (snd (ensure_all en ws month year tms st))"
proof (induction tms arbitrary: st)
  case (Cons tm tms)
  note e = kept_ensure[OF Cons.prems, of en ws tm month year None]
  show ?case unfolding ensure_all.simps
  proof (rule kept_and_then[OF e])
    fix i s assume "ensureSalaryRecord en ws tm month year None st = (Inr i, s)"
    then have "is_locked s k" using kept_locked[OF e Cons.prems] by simp
    then show "kept k s (snd (and_then (ensure_all en ws month year tms s) (\<lambda>is st2. (Inr (i # is), st2))))"
      by (simp add: Cons.IH)
  qed
qed simp

lemma kept_update_record:
  assumes "is_locked st k"
  shows "kept k st (snd (updateSalaryRecord en ws i base actor st))"
proof (cases "i = k \<or> salary_of st ws i = None")
  case True
  then show ?thesis using assms by (auto simp: updateSalaryRecord_def split: option.split)
next
  case False
  then obtain d where d: "salary_of st ws i = Some d" "i \<noteq> k" by auto
  show ?thesis unfolding updateSalaryRecord_def d(1) option.case
    by (rule kept_guarded, rule kept_trans[OF kept_update_salary kept_recalc]) (rule d(2))+
qed

lemma kept_build: "kept k st (snd (buildSalaryRecordData en ws tm month year x y st))"
  using build_frame[of en ws tm month year x y st]
  by (cases "buildSalaryRecordData en ws tm month year x y st") (auto intro!: kept_side simp: applyPendingIncrement_def split: option.split)

lemma kept_rebuild:
  assumes "is_locked st k"
  shows "kept k st (snd (rebuild_record en ws tm i actor st))"
proof (cases "is_locked st i \<or> salary_of st ws i = None")
  case True
  then show ?thesis by (auto simp: rebuild_record_def)
next
  case False
  then obtain d where d: "\<not> is_locked st i" "salary_of st ws i = Some d" by auto
  then have i: "i \<noteq> k" using assms by auto
  have "kept k s (snd (Inr (), syncSalaryStatus i (update_salary i f s)))" for f s
    unfolding snd_conv syncSalaryStatus_def by (rule kept_trans[OF kept_update_salary kept_update_salary]) (rule i)+
  then show ?thesis unfolding rebuild_record_def if_not_P[OF d(1)] d(2) option.case by (rule kept_and_then[OF kept_build])
qed

lemma kept_set_base_pay:
  assumes "is_locked st k"
  shows "kept k st (snd (setBasePay en ws tm cfg actor st))"
proof -
  have "kept k st (snd (rebuild_record en ws tm i actor (st\<lparr>ps_members := ms\<rparr>)))" for i ms
  proof (rule kept_trans)
    show "kept k st (st\<lparr>ps_members := ms\<rparr>)" by (rule kept_side) simp_all
    have "is_locked (st\<lparr>ps_members := ms\<rparr>) k" using assms by (simp add: is_locked_def salary_at_def)
    then show "kept k (st\<lparr>ps_members := ms\<rparr>) (snd (rebuild_record en ws tm i actor (st\<lparr>ps_members := ms\<rparr>)))" by (rule kept_rebuild)
  qed
  moreover have "kept k st (st\<lparr>ps_members := ms\<rparr>)" for ms by (rule kept_side) simp_all
  ultimately show ?thesis unfolding setBasePay_def Let_def by (intro kept_guarded) (auto split: option.split)
qed

section \<open>The properties\<close>


text \<open>
  The recovery of an advance ignores the lock: when the month from which an advance is taken back
  already has a locked record, the deduction is written to that record and its totals are recomputed,
  while the lock stays on.
\<close>

theorem recovery_changes_locked_record:
  assumes "find_salary st ws tm month year = Some i" "is_locked st i" "0 < amount"
  shows "\<exists>row st'. createAdvanceRecoveryDeduction en ws tm month year amount p u plan st
      = (Inr (Some (length (ps_adjustments st))), st')
    \<and> ps_adjustments st' = ps_adjustments st @ [row] \<and> aj_salaryId row = i \<and> aj_type row = Deduction \<and> aj_amount row = amount
    \<and> is_locked st' i \<and> sd_deductions (sl_data (ps_salaries st' ! i)) = rollup en st' i Deduction"
proof -
  have e: "ensureSalaryRecord en ws tm month year (Some u) st = (Inr i, st)"
    using assms(1,2) by (simp add: ensureSalaryRecord_def)
  define row where "row = (new_adjustment (ps_salaries st ! i) i ws Deduction ''advance_recovery'' amount System u)
              \<lparr>aj_teamMemberId := tm, aj_month := month, aj_year := year, aj_advanceSourcePaymentId := Some p,
               aj_advanceRecoveryPlanId := map_option fst plan, aj_planInstallmentIndex := map_option snd plan\<rparr>"
  obtain st' where r: "recalculateSalaryFromAdjustments en i (Some u) True (add_adjustment row st) = (Inr (), st')"
    using recalc_unlocked[of True "add_adjustment row st" i en "Some u"] by auto
  have "ps_adjustments st' = ps_adjustments (add_adjustment row st)"
    using recalc_frame(1)[of en i "Some u" True "add_adjustment row st"] unfolding r by simp
  then have a: "ps_adjustments st' = ps_adjustments st @ [row]" by (simp add: add_adjustment_def)
  have i: "i < length (ps_salaries st)" using locked_is[OF assms(2)] .
  have "is_locked st' i" using locked_recalc[OF r, of i] assms(2) is_locked_cong[of "add_adjustment row st" st i]
    by (simp add: add_adjustment_def)
  moreover have "sd_deductions (sl_data (ps_salaries st' ! i)) = rollup en st' i Deduction"
    using r i a by (auto simp: recalculateSalaryFromAdjustments_def syncSalaryStatus_def update_salary_def with_rollups_def
        rollup_def add_adjustment_def)
  moreover have "createAdvanceRecoveryDeduction en ws tm month year amount p u plan st = (Inr (Some (length (ps_adjustments st))), st')"
    using assms(3) e r by (simp add: createAdvanceRecoveryDeduction_def Let_def row_def)
  ultimately show ?thesis using a by (auto simp: row_def new_adjustment_def)
qed

end
