(* ===== verification/SalaryIncrements.thy ===== *)
theory SalaryIncrements
  imports SalaryStore
begin

text \<open>
  Salary increments (\<open>addIncrement\<close>, \<open>deleteIncrement\<close> and \<open>applyPendingIncrement\<close> of
  \<open>salary/salary.service.ts\<close>).  An increment that is already due raises the salary of the member at
  once; a later one stays pending until a salary record of its month or a later one is built, which
  applies one pending increment, the one with the latest month.
\<close>

section \<open>Operations\<close>

datatype increment_error = Increments_disabled | Increment_member_missing | Increment_exists | Increment_missing
  | Increment_already_applied

datatype increment_type = Fixed_amount | Percentage

record increment_input =
  ii_teamMemberId :: string
  ii_effectiveMonth :: int
  ii_effectiveYear :: int
  ii_type :: increment_type
  ii_value :: rat

definition raised :: "increment_type \<Rightarrow> rat \<Rightarrow> rat \<Rightarrow> rat" where
  "raised ty v previousSalary = (case ty of Fixed_amount \<Rightarrow> jadd previousSalary v
     | Percentage \<Rightarrow> of_int (round (jmul previousSalary (jadd 1 (jdiv v 100)))))"

definition latest_increment :: "pay_store \<Rightarrow> string \<Rightarrow> string \<Rightarrow> nat option" where
  "latest_increment st ws tm = latest_index (\<lambda>x. ic_workspaceId x = ws \<and> ic_teamMemberId x = tm) effective_key (ps_increments st)"

definition set_salary :: "nat \<Rightarrow> rat \<Rightarrow> pay_store \<Rightarrow> pay_store" where
  "set_salary j v st = st\<lparr>ps_members := (ps_members st)[j := (ps_members st ! j)\<lparr>pm_salaryAmount := Some v\<rparr>]\<rparr>"

definition is_due :: "pay_env \<Rightarrow> increment_input \<Rightarrow> bool" where
  \<comment> \<open>\<open>isPastOrCurrent\<close>\<close>
  "is_due en dto = (let now = local_day (en_tz en) (en_now en); currentMonth = month_of_day now + 1; currentYear = year_of_day now
     in ii_effectiveYear dto < currentYear \<or> ii_effectiveYear dto = currentYear \<and> ii_effectiveMonth dto \<le> currentMonth)"

definition same_increment :: "string \<Rightarrow> increment_input \<Rightarrow> increment_doc \<Rightarrow> bool" where
  \<comment> \<open>the unique index of the collection\<close>
  "same_increment ws dto x \<longleftrightarrow> ic_workspaceId x = ws \<and> ic_teamMemberId x = ii_teamMemberId dto
     \<and> ic_effectiveMonth x = ii_effectiveMonth dto \<and> ic_effectiveYear x = ii_effectiveYear dto"

definition addIncrement :: "pay_env \<Rightarrow> string \<Rightarrow> increment_input \<Rightarrow> pay_store \<Rightarrow> (increment_error + increment_doc) \<times> pay_store" where
  "addIncrement en ws dto st =
     (if \<not> feature en ''salaryIncrements'' then (Inl Increments_disabled, st)
      else case find_index (\<lambda>m. pm_id m = ii_teamMemberId dto) (ps_members st) of
        None \<Rightarrow> (Inl Increment_member_missing, st)
      | Some j \<Rightarrow>
          (let previousSalary = (case latest_increment st ws (ii_teamMemberId dto) of
                   Some i \<Rightarrow> ic_newSalary (ps_increments st ! i)
                 | None \<Rightarrow> coalesce (pm_salaryAmount (ps_members st ! j)) 0);
               newSalary = raised (ii_type dto) (ii_value dto) previousSalary;
               x = \<lparr>ic_workspaceId = ws, ic_teamMemberId = ii_teamMemberId dto, ic_newSalary = newSalary,
                    ic_effectiveMonth = ii_effectiveMonth dto, ic_effectiveYear = ii_effectiveYear dto, ic_isApplied = is_due en dto\<rparr>
           in if list_ex (same_increment ws dto) (ps_increments st) then (Inl Increment_exists, st)
              else (Inr x, (if is_due en dto then set_salary j newSalary else id)
                     (st\<lparr>ps_increments := ps_increments st @ [x]\<rparr>))))"

definition deleteIncrement :: "pay_env \<Rightarrow> string \<Rightarrow> nat \<Rightarrow> pay_store \<Rightarrow> (increment_error + unit) \<times> pay_store" where
  \<comment> \<open>the increments after the deleted one move down\<close>
  "deleteIncrement en ws k st =
     (if \<not> feature en ''salaryIncrements'' then (Inl Increments_disabled, st)
      else case nth_doc (ps_increments st) k of
        None \<Rightarrow> (Inl Increment_missing, st)
      | Some x \<Rightarrow>
          if ic_workspaceId x \<noteq> ws then (Inl Increment_missing, st)
          else if ic_isApplied x then (Inl Increment_already_applied, st)
          else (Inr (), st\<lparr>ps_increments := take k (ps_increments st) @ drop (Suc k) (ps_increments st)\<rparr>))"

definition current_salary :: "pay_store \<Rightarrow> string \<Rightarrow> rat option" where
  "current_salary st tm = (case find_member st tm of None \<Rightarrow> None | Some m \<Rightarrow> pm_salaryAmount m)"

section \<open>Applying one pending increment\<close>

definition member_at :: "pay_store \<Rightarrow> string \<Rightarrow> nat option" where
  "member_at st tm = find_index (\<lambda>m. pm_id m = tm) (ps_members st)"

lemma find_index_map: "find_index (\<lambda>x. P (f x)) xs = find_index P (map f xs)"
  by (induction xs) simp_all

lemma find_at: "find_index P xs = Some j \<Longrightarrow> List.find P xs = Some (xs ! j)"
  by (induction xs arbitrary: j) (auto split: if_splits)

lemma current_salary_at: "member_at st tm = Some j \<Longrightarrow> current_salary st tm = pm_salaryAmount (ps_members st ! j)"
  by (simp add: current_salary_def find_member_def member_at_def find_at)

definition mark_applied :: "nat \<Rightarrow> pay_store \<Rightarrow> pay_store" where
  "mark_applied i st = st\<lparr>ps_increments := (ps_increments st)[i := (ps_increments st ! i)\<lparr>ic_isApplied := True\<rparr>]\<rparr>"

lemma apply_Some:
  assumes "member_at st tm = Some j" "latest_effective st ws tm month year = Some i"
  shows "applyPendingIncrement ws tm month year st = mark_applied i (set_salary j (ic_newSalary (ps_increments st ! i)) st)"
  using assms by (simp add: applyPendingIncrement_def member_at_def set_salary_def mark_applied_def)

lemma apply_None: "latest_effective st ws tm month year = None \<Longrightarrow> applyPendingIncrement ws tm month year st = st"
  by (simp add: applyPendingIncrement_def)

lemma map_update_same: "f y = f (xs ! j) \<Longrightarrow> map f (xs[j := y]) = map f xs"
  by (cases "j < length xs") (simp_all add: map_update list_update_same_conv list_update_beyond)

lemma member_at_update [simp]:
  "member_at (mark_applied i st) tm = member_at st tm" "member_at (set_salary j v st) tm = member_at st tm"
  unfolding member_at_def by (subst (1 2) find_index_map, simp add: mark_applied_def set_salary_def map_update_same)+

lemma salary_after_set:
  assumes "member_at st tm = Some j"
  shows "current_salary (mark_applied i (set_salary j v st)) tm = Some v" "current_salary (set_salary j v st) tm = Some v"
proof -
  have "j < length (ps_members st)" using assms find_index_SomeD by (fastforce simp: member_at_def)
  then have v: "pm_salaryAmount (ps_members (set_salary j v st) ! j) = Some v" by (simp add: set_salary_def)
  show "current_salary (set_salary j v st) tm = Some v"
    using v by (subst current_salary_at[where j = j]) (simp_all add: assms)
  show "current_salary (mark_applied i (set_salary j v st)) tm = Some v"
    using v by (subst current_salary_at[where j = j]) (simp add: assms, simp add: mark_applied_def)
qed

definition pending :: "string \<Rightarrow> string \<Rightarrow> pay_store \<Rightarrow> nat set" where
  "pending ws tm st = {i. i < length (ps_increments st) \<and> ic_workspaceId (ps_increments st ! i) = ws
     \<and> ic_teamMemberId (ps_increments st ! i) = tm \<and> \<not> ic_isApplied (ps_increments st ! i)}"

lemma finite_pending [simp]: "finite (pending ws tm st)"
  by (rule finite_subset[of _ "{..<length (ps_increments st)}"]) (auto simp: pending_def)

definition month_key :: "int \<times> int \<Rightarrow> int" where
  "month_key = (\<lambda>(month, year). year * 12 + month)"

definition valid_months :: "string \<Rightarrow> string \<Rightarrow> pay_store \<Rightarrow> bool" where
  "valid_months ws tm st \<longleftrightarrow> (\<forall>i\<in>pending ws tm st. 1 \<le> ic_effectiveMonth (ps_increments st ! i) \<and> ic_effectiveMonth (ps_increments st ! i) \<le> 12)"

lemma pending_by_iff:
  assumes "valid_months ws tm st" "1 \<le> month" "month \<le> 12" "i < length (ps_increments st)"
  shows "pending_by ws tm month year (ps_increments st ! i)
    \<longleftrightarrow> i \<in> pending ws tm st \<and> effective_key (ps_increments st ! i) \<le> month_key (month, year)"
  using assms by (fastforce simp: pending_by_def pending_def valid_months_def effective_key_def month_key_def)

lemma nth_mark: "ps_increments (mark_applied i st) ! k
    = (if k = i \<and> i < length (ps_increments st) then (ps_increments st ! i)\<lparr>ic_isApplied := True\<rparr> else ps_increments st ! k)"
  by (cases "i < length (ps_increments st)") (simp_all add: mark_applied_def nth_list_update list_update_beyond)

lemma mark_frame:
  "effective_key (ps_increments (mark_applied i st) ! k) = effective_key (ps_increments st ! k)"
  "ic_newSalary (ps_increments (mark_applied i st) ! k) = ic_newSalary (ps_increments st ! k)"
  "ic_effectiveMonth (ps_increments (mark_applied i st) ! k) = ic_effectiveMonth (ps_increments st ! k)"
  by (simp_all add: nth_mark effective_key_def)

lemma pending_mark: "pending ws tm (mark_applied i st) = pending ws tm st - {i}"
proof (intro set_eqI)
  fix k
  show "k \<in> pending ws tm (mark_applied i st) \<longleftrightarrow> k \<in> pending ws tm st - {i}"
    by (cases "k = i"; cases "i < length (ps_increments st)") (auto simp: pending_def mark_applied_def)
qed

lemma set_salary_increments [simp]: "ps_increments (set_salary j v st) = ps_increments st"
  by (simp add: set_salary_def)

lemma pending_set_salary [simp]: "pending ws tm (set_salary j v st) = pending ws tm st"
  by (simp add: pending_def)

lemma apply_run:
  assumes "member_at st tm = Some j" "latest_effective st ws tm month year = Some i"
    and st': "st' = applyPendingIncrement ws tm month year st"
  shows "member_at st' tm = Some j" "current_salary st' tm = Some (ic_newSalary (ps_increments st ! i))"
    "pending ws tm st' = pending ws tm st - {i}" "length (ps_increments st') = length (ps_increments st)"
    "\<And>k. effective_key (ps_increments st' ! k) = effective_key (ps_increments st ! k)"
    "\<And>k. ic_newSalary (ps_increments st' ! k) = ic_newSalary (ps_increments st ! k)"
    "\<And>k. ic_effectiveMonth (ps_increments st' ! k) = ic_effectiveMonth (ps_increments st ! k)"
  unfolding st' apply_Some[OF assms(1,2)]
  by (simp_all add: assms(1) salary_after_set pending_mark mark_frame) (simp add: mark_applied_def)

section \<open>Overdue increments\<close>

lemma run_oldest:
  assumes "member_at st tm = Some j" "oldest \<in> pending ws tm st"
    "\<And>i. i \<in> pending ws tm st \<Longrightarrow> i \<noteq> oldest \<Longrightarrow> effective_key (ps_increments st ! oldest) < effective_key (ps_increments st ! i)"
    "\<And>i run. i \<in> pending ws tm st \<Longrightarrow> run \<in> set runs \<Longrightarrow> pending_by ws tm (fst run) (snd run) (ps_increments st ! i)"
    "length runs = card (pending ws tm st)"
  shows "pending ws tm (fold (\<lambda>run. applyPendingIncrement ws tm (fst run) (snd run)) runs st) = {}
    \<and> current_salary (fold (\<lambda>run. applyPendingIncrement ws tm (fst run) (snd run)) runs st) tm
        = Some (ic_newSalary (ps_increments st ! oldest))"
  using assms
proof (induction runs arbitrary: st)
  case Nil
  then show ?case by simp
next
  case (Cons run runs)
  let ?st = "applyPendingIncrement ws tm (fst run) (snd run) st"
  have by_run: "pending_by ws tm (fst run) (snd run) (ps_increments st ! i)" if "i \<in> pending ws tm st" for i
    using Cons.prems(4)[OF that] by simp
  have lt: "i < length (ps_increments st)" if "i \<in> pending ws tm st" for i using that by (simp add: pending_def)
  obtain i where l: "latest_effective st ws tm (fst run) (snd run) = Some i"
    using latest_index_None[of "pending_by ws tm (fst run) (snd run)" effective_key "ps_increments st"]
      by_run[OF Cons.prems(2)] lt[OF Cons.prems(2)] unfolding latest_effective_def by blast
  note d = latest_index_SomeD[OF l[unfolded latest_effective_def]]
  have i: "i \<in> pending ws tm st" using d by (auto simp: pending_by_def pending_def)
  note r = apply_run[OF Cons.prems(1) l refl]
  show ?case
  proof (cases "pending ws tm st = {oldest}")
    case True
    then have "i = oldest" "runs = []" using i Cons.prems(5) by auto
    then show ?thesis using r True by simp
  next
    case False
    then obtain k where k: "k \<in> pending ws tm st" "k \<noteq> oldest" using Cons.prems(2) by blast
    have "effective_key (ps_increments st ! k) \<le> effective_key (ps_increments st ! i)"
      using d by_run[OF k(1)] lt[OF k(1)] by blast
    then have "i \<noteq> oldest" using Cons.prems(3)[OF k] by auto
    moreover have "pending_by ws tm m y (ps_increments ?st ! q)" if "q \<in> pending ws tm ?st" "pending_by ws tm m y (ps_increments st ! q)" for q m y
    proof -
      have "q \<noteq> i" using that(1) r(3) by auto
      then have "ps_increments ?st ! q = ps_increments st ! q" by (simp add: apply_Some[OF Cons.prems(1) l] nth_mark)
      then show ?thesis using that(2) by simp
    qed
    ultimately have "pending ws tm (fold (\<lambda>run. applyPendingIncrement ws tm (fst run) (snd run)) runs ?st) = {}
      \<and> current_salary (fold (\<lambda>run. applyPendingIncrement ws tm (fst run) (snd run)) runs ?st) tm
        = Some (ic_newSalary (ps_increments ?st ! oldest))"
      using Cons.prems i r by (intro Cons.IH) auto
    then show ?thesis using r(6) by simp
  qed
qed

text \<open>
  Overdue increments are applied in the wrong order: when several increments of a member are
  pending and overdue, each salary record built from then on applies the latest of those that are left, so
  after as many records as there are increments all of them are marked applied and the salary of the
  member is the one of the oldest increment.
\<close>

theorem overdue_increments_end_at_oldest:
  assumes "member_at st tm = Some j" "oldest \<in> pending ws tm st"
    "\<And>i. i \<in> pending ws tm st \<Longrightarrow> i \<noteq> oldest \<Longrightarrow> effective_key (ps_increments st ! oldest) < effective_key (ps_increments st ! i)"
    "\<And>i run. i \<in> pending ws tm st \<Longrightarrow> run \<in> set runs \<Longrightarrow> pending_by ws tm (fst run) (snd run) (ps_increments st ! i)"
    "length runs = card (pending ws tm st)"
  shows "let st' = fold (\<lambda>run. applyPendingIncrement ws tm (fst run) (snd run)) runs st in
    pending ws tm st' = {} \<and> current_salary st' tm = Some (ic_newSalary (ps_increments st ! oldest))"
  using run_oldest[of st tm j oldest ws runs] assms by (simp add: Let_def)

section \<open>A record every month\<close>

definition month_pair :: "int \<Rightarrow> int \<times> int" where
  \<comment> \<open>the month with this number\<close>
  "month_pair n = ((n - 1) mod 12 + 1, (n - 1) div 12)"

lemma month_pair: "month_key (month_pair n) = n" "1 \<le> fst (month_pair n)" "fst (month_pair n) \<le> 12"
  by (simp_all add: month_key_def month_pair_def)

definition monthly_runs :: "string \<Rightarrow> string \<Rightarrow> int \<Rightarrow> nat \<Rightarrow> pay_store \<Rightarrow> pay_store" where
  \<comment> \<open>a record is built in each of this many consecutive months\<close>
  "monthly_runs ws tm a k st = fold (\<lambda>q. applyPendingIncrement ws tm (fst (month_pair (a + int q))) (snd (month_pair (a + int q)))) [0..<k] st"

lemma monthly_runs_Suc: "monthly_runs ws tm a (Suc k) st
    = applyPendingIncrement ws tm (fst (month_pair (a + int k))) (snd (month_pair (a + int k))) (monthly_runs ws tm a k st)"
  by (simp add: monthly_runs_def)

lemma monthly_frame:
  assumes "member_at st tm = Some j" "valid_months ws tm st" "inj_on (\<lambda>i. effective_key (ps_increments st ! i)) (pending ws tm st)"
    "\<And>i. i \<in> pending ws tm st \<Longrightarrow> a \<le> effective_key (ps_increments st ! i)"
  defines "key \<equiv> \<lambda>i. effective_key (ps_increments st ! i)"
  shows "member_at (monthly_runs ws tm a k st) tm = Some j
    \<and> length (ps_increments (monthly_runs ws tm a k st)) = length (ps_increments st)
    \<and> (\<forall>i. effective_key (ps_increments (monthly_runs ws tm a k st) ! i) = key i
        \<and> ic_newSalary (ps_increments (monthly_runs ws tm a k st) ! i) = ic_newSalary (ps_increments st ! i)
        \<and> ic_effectiveMonth (ps_increments (monthly_runs ws tm a k st) ! i) = ic_effectiveMonth (ps_increments st ! i))
    \<and> pending ws tm (monthly_runs ws tm a k st) = {i \<in> pending ws tm st. a + int k \<le> key i}
    \<and> (\<forall>i\<in>pending ws tm st. key i < a + int k \<and> (\<forall>q\<in>pending ws tm st. key q < a + int k \<longrightarrow> key q \<le> key i)
        \<longrightarrow> current_salary (monthly_runs ws tm a k st) tm = Some (ic_newSalary (ps_increments st ! i)))
    \<and> ((\<forall>i\<in>pending ws tm st. a + int k \<le> key i) \<longrightarrow> current_salary (monthly_runs ws tm a k st) tm = current_salary st tm)"
proof (induction k)
  case 0
  have "a \<le> key i" if "i \<in> pending ws tm st" for i using assms(4)[OF that] by (simp add: key_def)
  then show ?case using assms(1) by (fastforce simp: monthly_runs_def key_def)
next
  case (Suc k)
  let ?s = "monthly_runs ws tm a k st" and ?n = "a + int k"
  let ?m = "month_pair ?n"
  let ?t = "applyPendingIncrement ws tm (fst ?m) (snd ?m) ?s"
  note IH = Suc.IH
  have v: "valid_months ws tm ?s" using assms(2) IH by (auto simp: valid_months_def)
  have by_month: "pending_by ws tm (fst ?m) (snd ?m) (ps_increments ?s ! i) \<longleftrightarrow> i \<in> pending ws tm ?s \<and> key i \<le> ?n"
    if "i < length (ps_increments ?s)" for i
    using pending_by_iff[OF v month_pair(2,3)[of ?n] that, of "snd ?m"] month_pair(1)[of ?n] IH by simp
  show ?case
  proof (cases "latest_effective ?s ws tm (fst ?m) (snd ?m)")
    case None
    have "\<not> key i \<le> ?n" if "i \<in> pending ws tm ?s" for i
      using None[unfolded latest_effective_def latest_index_None] by_month[of i] that by (auto simp: pending_def)
    then have "pending ws tm st \<inter> {i. key i = ?n} = {}" using IH by force
    then have "a + int (Suc k) \<le> key i \<longleftrightarrow> ?n \<le> key i" "key i < a + int (Suc k) \<longleftrightarrow> key i < ?n" if "i \<in> pending ws tm st" for i
      using that by force+
    then show ?thesis using IH unfolding monthly_runs_Suc apply_None[OF None] by (auto cong: conj_cong)
  next
    case (Some i)
    note d = latest_index_SomeD[OF Some[unfolded latest_effective_def]]
    have i: "i \<in> pending ws tm ?s" "key i \<le> ?n" using d by_month by auto
    then have n: "key i = ?n" "i \<in> pending ws tm st" using IH by auto
    have only: "q = i" if "q \<in> pending ws tm st" "key q = ?n" for q
      using assms(3) that n by (auto simp: inj_on_def key_def)
    note r = apply_run[OF conjunct1[OF IH] Some refl]
    have p: "pending ws tm ?t = {q \<in> pending ws tm st. a + int (Suc k) \<le> key q}"
    proof (intro set_eqI iffI)
      fix q assume "q \<in> pending ws tm ?t"
      then have "q \<in> pending ws tm st" "?n \<le> key q" "q \<noteq> i" using r(3) IH by auto
      then show "q \<in> {q \<in> pending ws tm st. a + int (Suc k) \<le> key q}" using only[of q] by force
    next
      fix q assume q: "q \<in> {q \<in> pending ws tm st. a + int (Suc k) \<le> key q}"
      then have "q \<noteq> i" using n by auto
      then show "q \<in> pending ws tm ?t" using q r(3) IH by auto
    qed
    have sal: "current_salary ?t tm = Some (ic_newSalary (ps_increments st ! q))"
      if "q \<in> pending ws tm st" "key q < a + int (Suc k) \<and> (\<forall>r\<in>pending ws tm st. key r < a + int (Suc k) \<longrightarrow> key r \<le> key q)" for q
    proof -
      have "key i < a + int (Suc k)" using n by simp
      then have "key i \<le> key q" using that(2) n(2) by blast
      then have "q = i" using only[of q] that n by simp
      then show ?thesis using r(2) IH by simp
    qed
    have none: "\<not> (\<forall>q\<in>pending ws tm st. a + int (Suc k) \<le> key q)" using n by force
    have "\<forall>q. effective_key (ps_increments ?t ! q) = key q \<and> ic_newSalary (ps_increments ?t ! q) = ic_newSalary (ps_increments st ! q)
        \<and> ic_effectiveMonth (ps_increments ?t ! q) = ic_effectiveMonth (ps_increments st ! q)" "length (ps_increments ?t) = length (ps_increments st)"
      using r(4-7) IH by simp_all
    then show ?thesis unfolding monthly_runs_Suc using r(1) p sal none by (intro conjI ballI impI; blast)
  qed
qed

text \<open>
  When a salary record is built in every month, increments take effect on time: of the increments that
  are pending at the first month, exactly the ones due by then have been applied after each month, and the
  salary of the member is the one of the latest due increment, or the old one while none is due.
\<close>

theorem monthly_records_apply_increments_in_time:
  assumes "member_at st tm = Some j" "valid_months ws tm st" "inj_on (\<lambda>i. effective_key (ps_increments st ! i)) (pending ws tm st)"
    "\<And>i. i \<in> pending ws tm st \<Longrightarrow> a \<le> effective_key (ps_increments st ! i)"
  shows "let st' = monthly_runs ws tm a k st; key = (\<lambda>i. effective_key (ps_increments st ! i));
             due = {i \<in> pending ws tm st. key i < a + int k} in
    pending ws tm st' = pending ws tm st - due
    \<and> (due = {} \<longrightarrow> current_salary st' tm = current_salary st tm)
    \<and> (\<forall>i\<in>due. (\<forall>q\<in>due. key q \<le> key i) \<longrightarrow> current_salary st' tm = Some (ic_newSalary (ps_increments st ! i)))"
  using monthly_frame[OF assms, of k] unfolding Let_def by (auto simp: not_less[symmetric])

section \<open>Adding an increment\<close>

lemma add_due:
  assumes "feature en ''salaryIncrements''" "member_at st (ii_teamMemberId dto) = Some j" "is_due en dto"
    "\<not> list_ex (same_increment ws dto) (ps_increments st)"
    "prev = (case latest_increment st ws (ii_teamMemberId dto) of Some i \<Rightarrow> ic_newSalary (ps_increments st ! i)
       | None \<Rightarrow> coalesce (pm_salaryAmount (ps_members st ! j)) 0)"
  shows "addIncrement en ws dto st = (Inr \<lparr>ic_workspaceId = ws, ic_teamMemberId = ii_teamMemberId dto,
      ic_newSalary = raised (ii_type dto) (ii_value dto) prev, ic_effectiveMonth = ii_effectiveMonth dto,
      ic_effectiveYear = ii_effectiveYear dto, ic_isApplied = True\<rparr>,
    set_salary j (raised (ii_type dto) (ii_value dto) prev) (st\<lparr>ps_increments := ps_increments st @ [\<lparr>ic_workspaceId = ws,
      ic_teamMemberId = ii_teamMemberId dto, ic_newSalary = raised (ii_type dto) (ii_value dto) prev,
      ic_effectiveMonth = ii_effectiveMonth dto, ic_effectiveYear = ii_effectiveYear dto, ic_isApplied = True\<rparr>]\<rparr>))"
  using assms(1-4) unfolding assms(5) by (simp add: addIncrement_def member_at_def Let_def)

lemma member_at_increments [simp]: "member_at (st\<lparr>ps_increments := xs\<rparr>) tm = member_at st tm"
  by (simp add: member_at_def)

text \<open>
  A raise that is entered late is computed on a raise still to come, and lost when that one takes
  effect: with one pending increment, which is also the latest of the member, an increment that is due at once
  starts from the future salary instead of the current one, and the month in which the pending
  increment is applied sets the salary back to the pending one.
\<close>

theorem late_raise_is_lost:
  assumes "feature en ''salaryIncrements''" "member_at st tm = Some j" "ii_teamMemberId dto = tm" "is_due en dto"
    "\<not> list_ex (same_increment ws dto) (ps_increments st)"
    "pending ws tm st = {p}" "latest_increment st ws tm = Some p" "pending_by ws tm month year (ps_increments st ! p)"
  shows "let st1 = snd (addIncrement en ws dto st); future = ic_newSalary (ps_increments st ! p) in
    current_salary st1 tm = Some (raised (ii_type dto) (ii_value dto) future)
    \<and> current_salary (applyPendingIncrement ws tm month year st1) tm = Some future"
proof -
  let ?v = "raised (ii_type dto) (ii_value dto) (ic_newSalary (ps_increments st ! p))"
  define x where "x = \<lparr>ic_workspaceId = ws, ic_teamMemberId = tm, ic_newSalary = ?v, ic_effectiveMonth = ii_effectiveMonth dto,
      ic_effectiveYear = ii_effectiveYear dto, ic_isApplied = True\<rparr>"
  define s where "s = set_salary j ?v (st\<lparr>ps_increments := ps_increments st @ [x]\<rparr>)"
  have s: "snd (addIncrement en ws dto st) = s"
    using add_due[of en st dto j ws, OF assms(1) _ assms(4,5) refl] assms(2,3,7) by (simp add: s_def x_def)
  have m: "member_at s tm = Some j" by (simp add: s_def assms(2))
  have p: "p < length (ps_increments st)" using assms(6) by (auto simp: pending_def)
  then have inc: "ps_increments s ! p = ps_increments st ! p" by (simp add: s_def nth_append)
  have "latest_effective s ws tm month year = Some p"
  proof (cases "latest_effective s ws tm month year")
    case None
    have "p < length (ps_increments s)" using p by (simp add: s_def)
    then have False using None assms(8) inc by (auto simp: latest_effective_def latest_index_None)
    then show ?thesis ..
  next
    case (Some q)
    note q = latest_index_SomeD[OF Some[unfolded latest_effective_def]]
    then have "q < length (ps_increments st)" by (auto simp: s_def nth_append pending_by_def x_def less_Suc_eq)
    then have "q \<in> pending ws tm st" using q by (auto simp: pending_def pending_by_def s_def nth_append)
    then show ?thesis using Some assms(6) by simp
  qed
  from apply_run(2)[OF m this refl] show ?thesis
    unfolding s Let_def inc by (simp add: s_def salary_after_set assms(2))
qed

text \<open>
  An increment can raise the pay of another workspace: whoever may edit the salaries of one workspace changes, by
  naming a member of any other one in a due increment, the salary amount of that member.
\<close>

theorem increment_reaches_other_workspaces:
  assumes "feature en ''salaryIncrements''" "member_at st tm = Some j" "pm_workspaceId (ps_members st ! j) \<noteq> ws"
    "\<And>x. x \<in> set (ps_increments st) \<Longrightarrow> ic_workspaceId x \<noteq> ws" "ii_teamMemberId dto = tm" "is_due en dto"
  shows "\<exists>x st'. addIncrement en ws dto st = (Inr x, st')
    \<and> current_salary st' tm = Some (raised (ii_type dto) (ii_value dto) (coalesce (current_salary st tm) 0))"
proof -
  have "\<not> list_ex (same_increment ws dto) (ps_increments st)" using assms(4) by (auto simp: list_ex_iff same_increment_def)
  moreover have "latest_increment st ws tm = None"
    unfolding latest_increment_def latest_index_None using assms(4) by auto
  ultimately show ?thesis
    using add_due[of en st dto j ws, OF assms(1) _ assms(6) _ refl] assms(2,5)
      salary_after_set(2)[of "st\<lparr>ps_increments := xs\<rparr>" tm j for xs] current_salary_at[OF assms(2)] by simp
qed

end
