(* ===== verification/SalaryExact.thy ===== *)
theory SalaryExact
  imports SalaryCompute
begin

text \<open>
  How exact the net salary is.  \<open>calculateNetSalary\<close> works in binary floating point; for amounts of at
  most a billion its result is the exact proration, rounded to paise with an error of at most a hundredth of a paisa.
\<close>

lemma abs_mult_le: "\<bar>x\<bar> \<le> a \<Longrightarrow> \<bar>y\<bar> \<le> b \<Longrightarrow> \<bar>x * y\<bar> \<le> a * (b :: rat)"
  unfolding abs_mult by (rule mult_mono) auto

lemma fl_within: "\<bar>x\<bar> \<le> m \<Longrightarrow> \<bar>fl x - x\<bar> \<le> m / 9007199254740992"
  using fl_error[of x] divide_right_mono[of "\<bar>x\<bar>" m "2 ^ 53"] by simp

lemma fl_step: "\<bar>x - a\<bar> \<le> e \<Longrightarrow> \<bar>a\<bar> \<le> m \<Longrightarrow> e \<le> m \<Longrightarrow> \<bar>fl x - a\<bar> \<le> e + 2 * m / 9007199254740992"
  using fl_within[of x "2 * m"] by linarith

lemma prorated_close:
  assumes "0 \<le> b" "b \<le> 1000000000" "1 \<le> t" "0 \<le> q" "q \<le> 31"
  shows "\<bar>jmul (jdiv b t) q - b / t * q\<bar> \<le> 1/50000"
proof -
  have q: "\<bar>b / t\<bar> \<le> 1000000000"
  proof -
    have "b / t \<le> b / 1" using assms by (intro divide_left_mono) auto
    then show ?thesis using assms by simp
  qed
  then have "\<bar>jdiv b t - b / t\<bar> \<le> 1/9000000" using fl_within[of "b / t" 1000000000] by (simp add: jdiv_def)
  then have "\<bar>(jdiv b t - b / t) * q\<bar> \<le> 1/9000000 * 31" using assms by (intro abs_mult_le) auto
  then have 1: "\<bar>jdiv b t * q - b / t * q\<bar> \<le> 31/9000000" by (simp add: left_diff_distrib)
  have "\<bar>b / t * q\<bar> \<le> 1000000000 * 31" using q assms by (intro abs_mult_le) auto
  from fl_step[OF 1 this] show ?thesis by (simp add: jmul_def)
qed

definition exact_net :: "rat \<Rightarrow> rat \<Rightarrow> rat \<Rightarrow> rat \<Rightarrow> rat \<Rightarrow> rat \<Rightarrow> rat" where
  \<comment> \<open>the formula over the rationals\<close>
  "exact_net baseSalary totalDays presentDays additions deductions pieceEarnings =
     max 0 (baseSalary / totalDays * presentDays + pieceEarnings + additions - deductions)"

lemma net_close:
  assumes "0 \<le> b" "b \<le> 1000000000" "1 \<le> t" "0 \<le> q" "q \<le> 31" "0 \<le> a" "a \<le> 1000000000"
    "0 \<le> d" "d \<le> 1000000000" "0 \<le> p" "p \<le> 1000000000"
  shows "\<bar>max 0 (jsub (jadd (jadd (jmul (jdiv b t) q) p) a) d) - exact_net b t q a d p\<bar> \<le> 1/20000"
proof -
  define x where "x = b / t * q"
  have "\<bar>x\<bar> \<le> 31000000000"
  proof -
    have "b / t \<le> b / 1" using assms by (intro divide_left_mono) auto
    then have "\<bar>b / t\<bar> \<le> 1000000000" using assms by simp
    then have "\<bar>b / t * q\<bar> \<le> 1000000000 * 31" using assms by (intro abs_mult_le) auto
    then show ?thesis by (simp add: x_def)
  qed
  note x = this
  have 0: "\<bar>jmul (jdiv b t) q - x\<bar> \<le> 1/50000" unfolding x_def using prorated_close[of b t q] assms by simp
  define y where "y = jmul (jdiv b t) q"
  have 1: "\<bar>jadd y p - (x + p)\<bar> \<le> 1/50000 + 2 * 40000000000 / 9007199254740992"
    unfolding jadd_def by (rule fl_step) (use 0 x assms in \<open>auto simp: y_def\<close>)
  have 2: "\<bar>jadd (jadd y p) a - (x + p + a)\<bar> \<le> 1/50000 + 4 * 40000000000 / 9007199254740992"
  proof -
    have s: "\<bar>jadd y p + a - (x + p + a)\<bar> \<le> 1/50000 + 2 * 40000000000 / 9007199254740992" using 1 by simp
    have "\<bar>x + p + a\<bar> \<le> 40000000000" using x assms by auto
    from fl_step[OF s this] show ?thesis unfolding jadd_def[of "jadd y p" a] by simp
  qed
  have 3: "\<bar>jsub (jadd (jadd y p) a) d - (x + p + a - d)\<bar> \<le> 1/50000 + 6 * 40000000000 / 9007199254740992"
  proof -
    have e: "jadd (jadd y p) a - d - (x + p + a - d) = jadd (jadd y p) a - (x + p + a)" by simp
    have s: "\<bar>jadd (jadd y p) a - d - (x + p + a - d)\<bar> \<le> 1/50000 + 4 * 40000000000 / 9007199254740992" using 2 unfolding e .
    have "\<bar>x + p + a - d\<bar> \<le> 40000000000" using x assms by auto
    from fl_step[OF s this] show ?thesis unfolding jsub_def[of "jadd (jadd y p) a" d] by simp
  qed
  have "\<bar>max 0 u - max 0 v\<bar> \<le> \<bar>u - v\<bar>" for u v :: rat by (simp add: max_def)
  from this[of "jsub (jadd (jadd y p) a) d" "x + p + a - d"] show ?thesis
    using 3 unfolding exact_net_def x_def[symmetric] y_def[symmetric] by simp
qed

lemma round_error: "\<bar>of_int (round x) - x\<bar> \<le> (1/2 :: rat)"
  using of_int_round_abs_le[of x] by simp

text \<open>
  C38. The net salary is exact to half a paisa: for base salary, piece earnings, additions and deductions between 0
  and a billion, at least one day in the month and at most 31 days present, \<open>calculateNetSalary\<close> returns a
  whole number of paise that differs from the exact proration (not below 0) by at most 0.0051.
\<close>

theorem net_salary_accurate:
  assumes "0 \<le> b" "b \<le> 1000000000" "1 \<le> t" "0 \<le> q" "q \<le> 31" "0 \<le> a" "a \<le> 1000000000"
    "0 \<le> d" "d \<le> 1000000000" "0 \<le> p" "p \<le> 1000000000"
  shows "\<exists>K\<ge>0. calculateNetSalary b t q a d p = paise K \<and> \<bar>of_int K / 100 - exact_net b t q a d p\<bar> \<le> 51/10000"
proof -
  define v where "v = max 0 (jsub (jadd (jadd (jmul (jdiv b t) q) p) a) d)"
  have c: "\<bar>v - exact_net b t q a d p\<bar> \<le> 1/20000" unfolding v_def by (rule net_close[OF assms])
  have "b / t * q \<le> 31000000000"
  proof -
    have "b / t \<le> b / 1" using assms by (intro divide_left_mono) auto
    then have "b / t * q \<le> 1000000000 * 31" using assms by (intro mult_mono) auto
    then show ?thesis by simp
  qed
  then have "0 \<le> exact_net b t q a d p" "exact_net b t q a d p \<le> 33000000000" using assms by (auto simp: exact_net_def)
  then have v: "0 \<le> v" "v \<le> 34000000000" using abs_le_D1[OF c] by (simp_all add: v_def[symmetric]) (simp add: v_def)
  have "\<bar>jmul v 100 - v * 100\<bar> \<le> 3400000000000 / 9007199254740992"
    unfolding jmul_def by (rule fl_within) (use v in auto)
  moreover have "\<bar>of_int (paise_of v) - jmul v 100\<bar> \<le> 1/2" unfolding paise_of_def by (rule round_error)
  ultimately have "\<bar>of_int (paise_of v) - v * 100\<bar> \<le> 1/2 + 3400000000000 / 9007199254740992" by linarith
  moreover have "\<bar>of_int (paise_of v) / 100 - v\<bar> = \<bar>of_int (paise_of v) - v * 100\<bar> / 100"
  proof -
    have "of_int (paise_of v) / 100 - v = (of_int (paise_of v) - v * 100) / 100" by (simp add: field_simps)
    then show ?thesis by (simp only: abs_divide abs_numeral)
  qed
  ultimately have "\<bar>of_int (paise_of v) / 100 - v\<bar> \<le> 1/200 + 1/20000" by linarith
  moreover have "0 \<le> paise_of v" using v(1) by (simp add: paise_of_def jmul_def round_mono[of 0, simplified])
  moreover have "calculateNetSalary b t q a d p = paise (paise_of v)"
    using assms(3) by (simp add: calculateNetSalary_def Let_def v_def roundCurrency_paise_of)
  ultimately show ?thesis using c by (intro exI[of _ "paise_of v"] conjI; linarith)
qed

lemma net_salary_accurate_witness:
  "\<exists>K\<ge>0. calculateNetSalary 25000 31 17 0 200 0 = paise K \<and> \<bar>of_int K / 100 - exact_net 25000 31 17 0 200 0\<bar> \<le> 51/10000"
  by (rule net_salary_accurate) simp_all

end
