(* ===== verification/AdvanceTotals.thy ===== *)
theory AdvanceTotals
  imports AdvanceRecovery
begin

text \<open>
  What an advance recovery plan takes back.  In whole paise the first pass moves every shortfall to the
  following months: what it applies and what is still short add up to the planned total.  After twelve
  extra months it stops, and the plan is created with the rest missing.
\<close>

section \<open>One month\<close>

lemma paise_of_mono: "x \<le> y \<Longrightarrow> paise_of x \<le> paise_of y"
  unfolding paise_of_def jmul_def by (intro round_mono fl_mono) simp

lemma paise_of_zero [simp]: "paise_of 0 = 0"
  by (simp add: paise_of_def jmul_def)

definition small :: "int \<Rightarrow> bool" where
  "small k \<longleftrightarrow> 0 \<le> k \<and> k \<le> 2 ^ 40"

lemma small_bounds: "small k \<Longrightarrow> \<bar>k\<bar> \<le> money_max \<and> \<bar>k\<bar> \<le> money_max div 4"
  by (auto simp: small_def money_max_def)

lemma applied_paise:
  assumes "small k" "0 \<le> avail"
  shows "\<exists>a. roundCurrency (min (paise k) avail) = paise a \<and> 0 \<le> a \<and> a \<le> k"
proof -
  have "0 \<le> min (paise k) avail" using assms by (simp add: small_def)
  then have "0 \<le> paise_of (min (paise k) avail)" using paise_of_mono[of 0 "min (paise k) avail"] by simp
  moreover have "paise_of (min (paise k) avail) \<le> k"
    using paise_of_mono[of "min (paise k) avail" "paise k"] small_bounds[OF assms(1)] by simp
  ultimately show ?thesis by (auto simp: roundCurrency_paise_of)
qed

lemma shortfall_added:
  assumes "small s" "small k" "0 \<le> a" "a \<le> k"
  shows "roundCurrency (jadd (paise s) (jsub (paise k) (paise a))) = paise (s + (k - a))"
proof -
  have a: "small a" using assms by (simp add: small_def)
  have 1: "\<bar>jsub (paise k) (paise a) - of_int (k - a) / 100\<bar> \<le> 1/1000"
    by (rule jsub_paise_close) (use small_bounds assms(2) a in auto)
  have 2: "\<bar>paise s - of_int s / 100\<bar> \<le> 1/10000" by (rule paise_close) (use small_bounds assms(1) in auto)
  have bound: "0 \<le> (of_int x :: rat) / 100 \<and> (of_int x :: rat) / 100 \<le> 10995116278" if "small x" for x
  proof -
    have "(of_int x :: rat) \<le> of_int (2 ^ 40)" "0 \<le> (of_int x :: rat)" using that by (simp_all add: small_def)
    then show ?thesis by simp
  qed
  have "small (k - a)" using assms by (simp add: small_def)
  then have m: "\<bar>paise s + jsub (paise k) (paise a)\<bar> \<le> 30000000000"
    using 1 2 bound[of "k - a"] bound[OF assms(1)] by linarith
  have j: "\<bar>jadd (paise s) (jsub (paise k) (paise a)) - (of_int s / 100 + of_int (k - a) / 100)\<bar> \<le> 1/10000 + 1/1000 + 30000000000 / 2 ^ 53"
    by (rule jadd_close[OF 2 1 m])
  have e: "(of_int s :: rat) / 100 + of_int (k - a) / 100 = of_int (s + (k - a)) / 100" by (simp add: add_divide_distrib)
  have "\<bar>jadd (paise s) (jsub (paise k) (paise a)) - of_int (s + (k - a)) / 100\<bar> \<le> 1/300"
    by (rule order_trans[OF j[unfolded e]]) simp
  then show ?thesis by (intro roundCurrency_near) (use assms in \<open>simp_all add: small_def money_max_def\<close>)
qed

definition walk_of :: "int list \<Rightarrow> int \<Rightarrow> plan_walk \<Rightarrow> bool" where
  \<comment> \<open>amounts applied so far and the amount still short, in paise\<close>
  "walk_of as s w \<longleftrightarrow> map vm_effectiveAmount (wk_months w) = map paise as \<and> wk_shortfall w = paise s
     \<and> (\<forall>a\<in>set as. 0 \<le> a) \<and> small s"

lemma validated:
  assumes "validate_month en q m planned carry schedule w st = (Inr w', st')" "\<not> pq_overrideCompliance q"
  shows "\<exists>avail applied row. 0 \<le> avail \<and> applied = roundCurrency (min planned avail) \<and> wk_months w' = wk_months w @ [row]
    \<and> vm_effectiveAmount row = applied
    \<and> wk_shortfall w' = (if carry then roundCurrency (jsub (wk_shortfall w) applied)
        else if applied < planned then roundCurrency (jadd (wk_shortfall w) (jsub planned applied)) else wk_shortfall w)"
proof -
  obtain r st1 where e: "ensureSalaryRecord en (pq_ws q) (pq_tm q) (wk_month w) (wk_year w) (Some (pq_userId q)) st = (r, st1)" by force
  then obtain i where r: "r = Inr i" using assms(1) by (cases r) (simp_all add: validate_month_def)
  let ?avail = "max 0 (cap_basis m (sd_netSalary (sl_data (ps_salaries st1 ! i))))"
  have "wk_months w' = wk_months w @ [\<lparr>vm_index = length (wk_months w) + 1, vm_month = wk_month w, vm_year = wk_year w,
      vm_plannedAmount = planned, vm_effectiveAmount = roundCurrency (min planned ?avail)\<rparr>]
    \<and> wk_shortfall w' = (if carry then roundCurrency (jsub (wk_shortfall w) (roundCurrency (min planned ?avail)))
        else if roundCurrency (min planned ?avail) < planned
        then roundCurrency (jadd (wk_shortfall w) (jsub planned (roundCurrency (min planned ?avail)))) else wk_shortfall w)"
    using assms e r by (auto simp: validate_month_def Let_def split: sum.splits prod.splits)
  then show ?thesis by (intro exI[of _ ?avail] exI conjI) auto
qed

lemma walk_step:
  assumes "validate_month en q m (paise k) carry schedule w st = (Inr w', st')" "\<not> pq_overrideCompliance q"
    "walk_of as s w" "small k" "if carry then k = s else small (s + k)"
  shows "\<exists>a. 0 \<le> a \<and> a \<le> k \<and> walk_of (as @ [a]) (if carry then s - a else s + (k - a)) w'"
proof -
  obtain avail applied row where v: "0 \<le> avail" "applied = roundCurrency (min (paise k) avail)" "wk_months w' = wk_months w @ [row]"
    "vm_effectiveAmount row = applied"
    "wk_shortfall w' = (if carry then roundCurrency (jsub (wk_shortfall w) applied)
        else if applied < paise k then roundCurrency (jadd (wk_shortfall w) (jsub (paise k) applied)) else wk_shortfall w)"
    using validated[OF assms(1,2)] by blast
  obtain a where a: "applied = paise a" "0 \<le> a" "a \<le> k" using applied_paise[OF assms(4) v(1)] v(2) by auto
  have s: "small s" "wk_shortfall w = paise s" using assms(3) by (simp_all add: walk_of_def)
  have ak: "small a" using a assms(4) by (simp add: small_def)
  have "wk_shortfall w' = paise (if carry then s - a else s + (k - a))"
  proof (cases carry)
    case True
    then show ?thesis using v(5) s a(1) round_jsub(1)[of s a] small_bounds[OF s(1)] small_bounds[OF ak] by simp
  next
    case False
    have "paise a < paise k \<longleftrightarrow> a < k" using small_bounds ak assms(4) by (intro paise_less_iff) auto
    then show ?thesis using False v(5) s a shortfall_added[OF s(1) assms(4) a(2,3)] by auto
  qed
  moreover have "small (if carry then s - a else s + (k - a))" using assms(5) a s(1) by (auto simp: small_def split: if_splits)
  ultimately show ?thesis using a v(3,4) assms(3) by (intro exI[of _ a]) (auto simp: walk_of_def)
qed

section \<open>The first pass\<close>

lemma installments_walk:
  assumes "validate_installments en q m n (map paise ks) w st = (Inr w', st')" "\<not> pq_overrideCompliance q"
    "walk_of as s w" "\<forall>k\<in>set ks. 0 \<le> k" "small (s + sum_list ks)"
  shows "\<exists>bs s'. walk_of (as @ bs) s' w' \<and> length bs = length ks \<and> sum_list bs + s' = s + sum_list ks"
  using assms
proof (induction ks arbitrary: w st as s)
  case Nil
  then show ?case by (intro exI[of _ "[]"] exI[of _ s]) simp
next
  case (Cons k ks)
  have nn: "0 \<le> sum_list ks" "0 \<le> s" using Cons.prems by (auto simp: sum_list_nonneg walk_of_def small_def)
  then have k: "small k" "small (s + k)" using Cons.prems(4,5) by (auto simp: small_def)
  obtain w1 st1 where v: "validate_month en q m (paise k) False (Some (n, en_advisoryMaxMonths en)) w st = (Inr w1, st1)"
    and r: "validate_installments en q m n (map paise ks) w1 st1 = (Inr w', st')"
    using Cons.prems(1) by (auto simp: and_then_def split: prod.splits sum.splits)
  obtain a where a: "0 \<le> a" "a \<le> k" "walk_of (as @ [a]) (s + (k - a)) w1"
    using walk_step[OF v Cons.prems(2,3) k(1)] k(2) by auto
  have "small (s + (k - a) + sum_list ks)" using Cons.prems(5) a nn by (simp add: small_def)
  from Cons.IH[OF r Cons.prems(2) a(3) _ this] obtain bs s' where
    "walk_of ((as @ [a]) @ bs) s' w'" "length bs = length ks" "sum_list bs + s' = s + (k - a) + sum_list ks"
    using Cons.prems(4) by auto
  then show ?case by (intro exI[of _ "a # bs"] exI[of _ s']) simp
qed

lemma carries_walk:
  assumes "validate_carries en q m n w st = (Inr w', st')" "\<not> pq_overrideCompliance q" "walk_of as s w"
  shows "\<exists>bs s'. walk_of (as @ bs) s' w' \<and> length bs \<le> n \<and> sum_list bs + s' = s \<and> (s' > 0 \<longrightarrow> length bs = n)"
  using assms
proof (induction n arbitrary: w st as s)
  case 0
  then show ?case by (intro exI[of _ "[]"] exI[of _ s]) simp
next
  case (Suc n)
  have s: "small s" "wk_shortfall w = paise s" using Suc.prems(3) by (simp_all add: walk_of_def)
  show ?case
  proof (cases "s > 0")
    case False
    then show ?thesis using Suc.prems s by (intro exI[of _ "[]"] exI[of _ s]) simp
  next
    case True
    obtain w1 st1 where v: "validate_month en q m (paise s) True None w st = (Inr w1, st1)"
      and r: "validate_carries en q m n w1 st1 = (Inr w', st')"
      using Suc.prems(1) s(2) True by (auto simp: and_then_def split: prod.splits sum.splits)
    obtain a where a: "0 \<le> a" "a \<le> s" "walk_of (as @ [a]) (s - a) w1"
      using walk_step[OF v Suc.prems(2,3) s(1)] by auto
    from Suc.IH[OF r Suc.prems(2) a(3)] obtain bs s' where
      "walk_of ((as @ [a]) @ bs) s' w'" "length bs \<le> n" "sum_list bs + s' = s - a" "s' > 0 \<longrightarrow> length bs = n" by auto
    then show ?thesis by (intro exI[of _ "a # bs"] exI[of _ s']) simp
  qed
qed

lemma second_pass_amounts:
  "second_pass en q planId vs st = (Inr es, st') \<Longrightarrow> map ie_appliedAmount es = map vm_effectiveAmount vs
    \<and> map ie_plannedAmount es = map vm_plannedAmount vs"
  by (induction vs arbitrary: st es) (auto simp: and_then_def split: prod.splits sum.splits)


end
