(* ===== verification/SalaryExamples.thy ===== *)
theory SalaryExamples
  imports SalaryLocks SalaryIncrements SalaryExact AdvanceTotals
begin

text \<open>
  A small workspace, and the properties of the salary store at it: one member with a monthly
  salary, settings without attendance and statutory deductions, and the clock in April 2025.
\<close>

definition example_member :: pay_member where
  "example_member = \<lparr>pm_id = ''m'', pm_workspaceId = ''w'', pm_isActive = True, pm_isDeleted = False, pm_reportsTo = None, pm_dateOfJoining = None,
     pm_dateOfResignation = None, pm_salaryType = Some Monthly, pm_salaryAmount = Some 3000, pm_dailyHours = None,
     pm_salaryDayBasis = None, pm_fixedMonthDays = None, pm_workingDays = None, pm_attendancePayMode = None,
     pm_finalMonthlyOverride = None, pm_ctcAmount = None, pm_componentTemplateId = None, pm_pieceRateConfig = None, pm_shiftId = None, pm_employmentType = None,
     pm_pfApplicable = None, pm_pfOptedOut = False, pm_esiApplicable = False, pm_stateOfEmployment = '''', pm_taxOld = False,
     pm_pan = '''', pm_isNonItrFiler = False\<rparr>"

definition example_env :: pay_env where
  "example_env = \<lparr>en_tz = 19800000, en_now = 1745000000000,
     en_rules = \<lparr>ru_attendanceBasedPay = True, ru_defaultWorkingDays = None, ru_attendanceDefaultDisabled = True,
       ru_holidayCountsAsPresent = False, ru_weekOffCountsAsPresent = False, ru_lateMarkAsHalfDay = False\<rparr>,
     en_features = [''adjustments'', ''advancePayments'', ''salaryIncrements'', ''bulkPayments''], en_statutory = None,
     en_attendanceModule = False, en_attendance = [], en_leaves = [], en_leaveTypePaid = (\<lambda>_. None), en_latePolicy = None,
     en_shifts = (\<lambda>_. None), en_logs = [], en_machines = (\<lambda>_. None), en_ptSlabs = (\<lambda>_. []), en_fiscalYearStartMonth = 4,
     en_caller = (\<lambda>_. \<lparr>cx_isOwner = True, cx_teamMemberId = None, cx_permissions = [], cx_permissionPaths = []\<rparr>),
     en_sum = js_sum, en_minimumWageMonthly = None, en_minimumWageOverride = (\<lambda>_. None), en_deductionCapPercent = 50,
     en_advisoryMaxMonths = 12,
     en_disbursement = \<lparr>dr_advanceRequestDay = None, dr_advanceRequestPolicy = None, dr_advanceMaxPercentOfNet = None,
       dr_advanceMaxPerYear = None, dr_advanceMinTenureMonths = None\<rparr>\<rparr>"

definition example_data :: salary_data where
  "example_data = \<lparr>sd_baseSalary = 3000, sd_totalDays = 30, sd_presentDays = 30, sd_salaryType = Monthly,
     sd_salaryDayBasis = Fixed_month_days, sd_fixedMonthDays = Some 26, sd_attendancePay = False, sd_additions = 0,
     sd_deductions = 0, sd_piece = None, sd_netSalary = 3000\<rparr>"

definition example_salary :: salary_doc where
  "example_salary = \<lparr>sl_workspaceId = ''w'', sl_teamMemberId = ''m'', sl_month = 4, sl_year = 2025, sl_data = example_data,
     sl_status = Pending_pay, sl_isLocked = False, sl_lockedBy = None, sl_lockedAt = None, sl_createdBy = None, sl_updatedBy = None\<rparr>"

definition example_store :: pay_store where
  "example_store = \<lparr>ps_members = [example_member], ps_increments = [], ps_salaries = [example_salary], ps_adjustments = [],
     ps_payments = [], ps_advances = [], ps_plans = [], ps_declarations = Map.empty\<rparr>"

definition example_bonus :: adjustment_input where
  "example_bonus = \<lparr>ai_type = Addition, ai_category = ''bonus'', ai_amount = 500, ai_correctionOf = None\<rparr>"

lemma example_wf: "wf_store example_store"
  by (simp add: wf_store_def example_store_def ids_def example_salary_def)

lemma bonus_steps:
  "salary_step\<^sup>*\<^sup>* example_store (snd (createAdjustment example_env ''w'' 0 ''u'' example_bonus example_store))"
  by (rule r_into_rtranclp, rule adjust_step) (simp add: example_bonus_def)

lemma salary_store_well_typed_witness:
  "wf_store (snd (createAdjustment example_env ''w'' 0 ''u'' example_bonus example_store))"
  by (rule salary_store_well_typed[OF example_wf bonus_steps])


lemma calculate_example [simp]: "calculateNetSalary 3000 30 30 0 0 0 = 3000"
  by (simp add: calculateNetSalary_def roundCurrency_def jmul_def jdiv_def jadd_def jsub_def)

lemma round_example [simp]: "roundCurrency 3000 = 3000" "roundCurrency 0 = 0"
  by (simp_all add: roundCurrency_def jmul_def jdiv_def)

lemma example_agrees: "record_agrees js_sum example_store 0"
  by (simp add: record_agrees_def Let_def total_of_def example_store_def example_salary_def example_data_def piece_part_def
      settlement_status_def sumPaidAmountForSalary_def)


section \<open>Payments and locks\<close>

definition full_payment :: payment_input where
  "full_payment = \<lparr>pi_salaryId = Some 0, pi_target = None, pi_amount = 3000, pi_paymentMode = ''cash'', pi_hasSplitLines = False,
     pi_commission = None, pi_nextMonth = False, pi_installments = None, pi_overrideCompliance = False, pi_overrideReason = ''''\<rparr>"

lemma caller_example [simp]: "not_self_edit example_env u tm"
  by (simp add: not_self_edit_def example_env_def)

lemma features_example [simp]: "feature example_env ''adjustments''" "feature example_env ''advancePayments''"
  by (simp_all add: feature_def example_env_def)

definition paid_store :: pay_store where
  \<comment> \<open>the month is paid in full\<close>
  "paid_store = example_store\<lparr>ps_payments := [payment_of example_env ''w'' 0 ''u'' full_payment ''m'' None]\<rparr>"

lemma paid_example: "sumPaidAmountForSalary paid_store 0 = 3000"
  by (simp add: sumPaidAmountForSalary_def paid_store_def payment_of_def full_payment_def jadd_def)

lemma checks_example: "ps_members st = [example_member] \<Longrightarrow> sl_teamMemberId (ps_salaries st ! 0) = ''m''
    \<Longrightarrow> list_all fst (payment_checks example_env ''w'' 0 ''u'' full_payment st)"
  by (simp add: payment_checks_def Let_def full_payment_def member_writable_def example_member_def)

lemma repeated_payment_leaves_addition_witness:
  "\<exists>a st'. recordPayment example_env ''w'' ''u'' full_payment paid_store = (Inl Duplicate_payment, st')
    \<and> ps_adjustments st' = [a] \<and> aj_active a \<and> aj_amount a = 3000 \<and> aj_linkedPaymentId a = None"
proof -
  have p: "ps_members paid_store = [example_member]" "ps_salaries paid_store = [example_salary]" "ps_adjustments paid_store = []"
    by (simp_all add: paid_store_def example_store_def)
  have s: "salary_of paid_store ''w'' 0 = Some example_salary"
    by (simp add: salary_of_def salary_at_def nth_doc_def p example_salary_def)
  have d: "list_ex (is_duplicate example_env 0 full_payment) (ps_payments paid_store)"
    by (simp add: paid_store_def payment_of_def is_duplicate_def full_payment_def)
  have t: "sl_teamMemberId (ps_salaries paid_store ! 0) = ''m''" by (simp add: p example_salary_def)
  have n: "sd_netSalary (sl_data example_salary) \<le> sumPaidAmountForSalary paid_store 0"
    by (simp add: paid_example example_salary_def example_data_def)
  have l: "\<not> is_locked paid_store 0" by (simp add: is_locked_def salary_at_def nth_doc_def p example_salary_def)
  have "0 < pi_amount full_payment" "\<not> pi_nextMonth full_payment" "pi_commission full_payment = None"
    "pi_salaryId full_payment = Some 0" "fl (pi_amount full_payment) = 3000" by (simp_all add: full_payment_def)
  then show ?thesis
    using repeated_payment_leaves_addition[OF _ s l checks_example[OF p(1) t] _ _ _ features_example(2) n d] unfolding p(3) by auto
qed

lemma ensured_record_agrees_witness:
  "\<exists>st'. ensureSalaryRecord example_env ''w'' ''m'' 4 2025 None example_store = (Inr 0, st') \<and> record_agrees js_sum st' 0"
proof -
  have f: "find_salary example_store ''w'' ''m'' 4 2025 = Some 0" by (simp add: find_salary_def example_store_def example_salary_def)
  have l: "\<not> is_locked example_store 0" by (simp add: is_locked_def salary_at_def nth_doc_def example_store_def example_salary_def)
  have r: "refresh_piece example_env ''w'' ''m'' 0 example_store = (Inr (), example_store)"
    by (simp add: refresh_piece_def find_member_def example_store_def example_member_def)
  have a: "applyAdvanceAutoDeductions ''w'' 0 example_store = example_store"
    by (simp add: applyAdvanceAutoDeductions_def example_store_def)
  obtain st' where c: "recalculateSalaryFromAdjustments example_env 0 None False example_store = (Inr (), st')"
    using recalc_unlocked[of False example_store 0 example_env None] l by auto
  have "ps_members st' = [example_member]" using recalc_frame(3)[of example_env 0 None False example_store] unfolding c snd_conv by (simp add: example_store_def)
  then have "find_member st' ''m'' = Some example_member" by (simp add: find_member_def example_member_def)
  moreover have "applyStatutoryDeductions example_env ''w'' 0 m s = (Inr (), s)" for m s
    by (simp add: applyStatutoryDeductions_def example_env_def)
  ultimately have e: "ensureSalaryRecord example_env ''w'' ''m'' 4 2025 None example_store = (Inr 0, st')"
    using f l r a c by (simp add: ensureSalaryRecord_def settle_record_def)
  have "record_agrees (en_sum example_env) st' 0" by (rule ensured_record_agrees[OF e]) (simp add: l)
  then show ?thesis using e by (simp add: example_env_def)
qed

definition locked_may :: salary_doc where
  "locked_may = example_salary\<lparr>sl_month := 5, sl_isLocked := True, sl_lockedBy := Some ''o''\<rparr>"

definition locked_store :: pay_store where
  \<comment> \<open>April is open and May is locked\<close>
  "locked_store = example_store\<lparr>ps_salaries := [example_salary, locked_may]\<rparr>"

lemma may_locked: "is_locked locked_store 1"
  by (simp add: is_locked_def salary_at_def nth_doc_def locked_store_def locked_may_def)

lemma may_found: "find_salary locked_store ''w'' ''m'' 5 2025 = Some 1"
  by (simp add: find_salary_def locked_store_def locked_may_def example_salary_def)

lemma locked_wf: "wf_store locked_store"
  by (simp add: wf_store_def locked_store_def example_store_def ids_def example_salary_def locked_may_def salary_id_def)


lemma recovery_changes_locked_record_witness:
  "\<exists>row st'. createAdvanceRecoveryDeduction example_env ''w'' ''m'' 5 2025 1000 0 ''u'' None locked_store = (Inr (Some 0), st')
    \<and> ps_adjustments st' = [row] \<and> aj_salaryId row = 1 \<and> aj_amount row = 1000 \<and> is_locked st' 1"
proof -
  have "ps_adjustments locked_store = []" by (simp add: locked_store_def example_store_def)
  then show ?thesis
    using recovery_changes_locked_record[OF may_found may_locked, of 1000 example_env 0 "''u''" None] by auto
qed

lemma payment_round_trip_witness:
  "\<exists>st1 st2. recordPayment example_env ''w'' ''u'' full_payment example_store = (Inr 0, st1)
    \<and> reversePayment example_env ''w'' 0 ''u'' ''typo'' st1 = (Inr (), st2)
    \<and> sl_status (ps_salaries st2 ! 0) = Pending_pay \<and> sd_netSalary (sl_data (ps_salaries st2 ! 0)) = 3000"
proof -
  have p: "ps_members example_store = [example_member]" "ps_salaries example_store = [example_salary]" "ps_adjustments example_store = []"
    "ps_payments example_store = []" by (simp_all add: example_store_def)
  have t: "target_salary example_env ''w'' ''u'' full_payment example_store = (Inr 0, example_store)"
    by (simp add: target_salary_def full_payment_def is_locked_def salary_of_def salary_at_def nth_doc_def p example_salary_def)
  have paid0: "sumPaidAmountForSalary example_store 0 = 0" by (simp add: sumPaidAmountForSalary_def p)
  have x: "max 0 (jsub (pi_amount full_payment) (max 0 (jsub (sd_netSalary (sl_data (ps_salaries example_store ! 0))) (sumPaidAmountForSalary example_store 0)))) = 0"
    by (simp add: paid0 p example_salary_def example_data_def full_payment_def jsub_def)
  have l: "linked_additions example_env ''w'' 0 ''u'' full_payment example_store = (Inr \<lparr>pp_linked = [], pp_advance = None\<rparr>, example_store)"
    using x by (simp add: linked_additions_def Let_def full_payment_def[THEN arg_cong[where f = pi_commission]])
  have sl: "sl_teamMemberId (ps_salaries example_store ! 0) = ''m''" by (simp add: p example_salary_def)
  define d where "d = payment_of example_env ''w'' 0 ''u'' full_payment ''m'' None"
  define st1 where "st1 = syncSalaryStatus 0 (save_payment d [] example_store)"
  have g: "guarded cs r st = r" if "list_all fst cs" for cs st and r :: "nat pay"
    using that by (induction cs) (auto simp: guarded_def)
  have rp: "recordPayment example_env ''w'' ''u'' full_payment example_store = (Inr 0, st1)"
    using t l sl by (simp add: recordPayment_def pay_record_def g[OF checks_example[OF p(1) sl]] settle_payment_def schedule_recovery_def
        Let_def st1_def d_def p)
  have py: "ps_payments st1 = [d]" "ps_members st1 = [example_member]" "ps_adjustments st1 = []"
    by (simp_all add: st1_def syncSalaryStatus_def update_salary_def save_payment_def p)
  have sal: "salary_at st1 0 = Some (example_salary\<lparr>sl_status := s\<rparr>)" if "s = sl_status (ps_salaries st1 ! 0)" for s
    using that by (simp add: st1_def syncSalaryStatus_def update_salary_def save_payment_def p salary_at_def nth_doc_def)
  have nl: "\<not> is_locked st1 0" using sal by (simp add: is_locked_def example_salary_def)
  define st2 where "st2 = update_payment 0 (\<lambda>x. x\<lparr>py_active := False, py_reversedBy := Some ''u'', py_reversalReason := Some (trim ''typo'')\<rparr>) st1"
  have lr: "linked_rows st2 0 = []" by (simp add: linked_rows_def st2_def update_payment_def py)
  have s2: "ps_salaries st2 = ps_salaries st1" by (simp add: st2_def update_payment_def)
  then have "\<not> is_locked st2 0" using nl is_locked_cong by blast
  then obtain st3 where r: "recalculateSalaryFromAdjustments example_env 0 (Some ''u'') False st2 = (Inr (), st3)"
    using recalc_unlocked[of False st2 0 example_env "Some ''u''"] by auto
  have "salary_of st2 ''w'' 0 \<noteq> None" using sal s2 by (simp add: salary_of_def salary_at_def example_salary_def)
  then obtain y where "salary_of st2 ''w'' 0 = Some y" by blast
  then have rv: "reversePayment example_env ''w'' 0 ''u'' ''typo'' st1 = (Inr (), st3)"
    using nl lr r by (simp add: reversePayment_def nth_doc_def py d_def payment_of_def member_writable_def example_member_def Let_def
        st2_def[symmetric] reverse_recovery_def)
  have "record_agrees (en_sum example_env) example_store 0" using example_agrees by (simp add: example_env_def)
  from payment_round_trip[OF example_wf this refl _ _ rp rv] show ?thesis
    using rp rv by (simp add: full_payment_def p example_salary_def example_data_def)
qed

section \<open>Recovery plans\<close>

lemma round2_rupees: "\<bar>100 * n\<bar> \<le> money_max \<Longrightarrow> round2 (of_int n) = of_int n"
proof -
  assume n: "\<bar>100 * n\<bar> \<le> money_max"
  then have "\<bar>n\<bar> \<le> 2 ^ 53" by (auto simp: money_max_def)
  then show ?thesis using round_paise(2)[OF n] paise_rupees[of n] by simp
qed

lemma round2_example: "round2 1500 = 1500" "round2 2000 = 2000" "round2 1000 = 1000"
  using round2_rupees[of 1500] round2_rupees[of 2000] round2_rupees[of 1000] by (simp_all add: money_max_def)

definition with_may :: "pay_store \<Rightarrow> bool" where
  \<comment> \<open>the locked May is there\<close>
  "with_may st \<longleftrightarrow> find_salary st ''w'' ''m'' 5 2025 = Some 1 \<and> is_locked st 1 \<and> sl_data (ps_salaries st ! 1) = example_data
     \<and> find_member st ''m'' = Some example_member"

lemma with_may_locked: "with_may locked_store"
  using may_found may_locked
  by (simp add: with_may_def locked_store_def locked_may_def example_salary_def find_member_def example_store_def example_member_def)

lemma may_ensured: "with_may st \<Longrightarrow> ensureSalaryRecord example_env ''w'' ''m'' 5 2025 u st = (Inr 1, st)"
  by (simp add: ensureSalaryRecord_def with_may_def)

definition may_guard :: "rat \<Rightarrow> (nat \<times> nat) option \<Rightarrow> guard_input" where
  "may_guard amount schedule = \<lparr>gi_proposedInstallment = amount, gi_currentTotalDeductions = 0, gi_grossSalaryForMonth = 3000,
     gi_netSalaryBeforeRecovery = 3000, gi_minimumWageMonthly = None, gi_deductionCapPercent = 50, gi_periodicWages = 3000,
     gi_schedule = schedule\<rparr>"

lemma may_breaches:
  "gr_breaches (evaluate (may_guard 1000 s)) = []" "map (\<lambda>_. x) (gr_breaches (evaluate (may_guard 2000 s))) = [x]"
  by (simp_all add: evaluate_def may_guard_def cap_rule_def floor_rule_def round2_example jmul_def jdiv_def jadd_def Let_def)

lemma may_validated:
  assumes "with_may st" "pq_ws q = ''w''" "pq_tm q = ''m''" "wk_month w = 5" "wk_year w = 2025" "\<not> pq_overrideCompliance q"
  shows "\<exists>w'. validate_month example_env q example_member amount False schedule w st = (Inr w', st)
    \<and> wk_breaches w' = wk_breaches w @ map (\<lambda>_. (5, 2025)) (gr_breaches (evaluate (may_guard amount schedule)))
    \<and> (roundCurrency (min amount 3000) = amount \<longrightarrow> wk_shortfall w' = wk_shortfall w)
    \<and> (\<exists>row. wk_months w' = wk_months w @ [row] \<and> vm_month row = 5 \<and> vm_year row = 2025)"
proof -
  have d: "sl_data (ps_salaries st ! Suc 0) = example_data" using assms(1) by (simp add: with_may_def)
  have c: "cap_basis example_member x = x" for x by (simp add: cap_basis_def example_member_def)
  have e: "en_minimumWageOverride example_env tm = None" "en_minimumWageMonthly example_env = None" "en_deductionCapPercent example_env = 50" for tm
    by (simp_all add: example_env_def)
  show ?thesis
    using assms(6) by (auto simp: validate_month_def assms(2-5) may_ensured[OF assms(1)] d c e Let_def applyComplianceGuard_def
        may_guard_def[symmetric] example_data_def jadd_def)
qed

lemma may_first_pass:
  assumes "with_may st" "pq_ws q = ''w''" "pq_tm q = ''m''" "pq_startMonth q = 5" "pq_startYear q = 2025" "\<not> pq_overrideCompliance q"
    "roundCurrency (min amount 3000) = amount"
  shows "\<exists>w row. first_pass example_env q example_member [amount] st
      = (if gr_breaches (evaluate (may_guard amount (Some (1, 12)))) = [] then (Inr w, st)
         else (Inl (Compliance_breach (map (\<lambda>_. (5, 2025)) (gr_breaches (evaluate (may_guard amount (Some (1, 12))))))), st))
    \<and> wk_months w = [row] \<and> vm_month row = 5 \<and> vm_year row = 2025"
proof -
  define w0 where "w0 = \<lparr>wk_month = pq_startMonth q, wk_year = pq_startYear q, wk_shortfall = 0, wk_months = [], wk_breaches = [], wk_warnings = []\<rparr>"
  have w0: "wk_month w0 = 5" "wk_year w0 = 2025" "wk_shortfall w0 = 0" "wk_months w0 = []" "wk_breaches w0 = []"
    using assms(4,5) by (simp_all add: w0_def)
  obtain w row where v: "validate_month example_env q example_member amount False (Some (1, 12)) w0 st = (Inr w, st)"
    "wk_breaches w = map (\<lambda>_. (5, 2025)) (gr_breaches (evaluate (may_guard amount (Some (1, 12)))))" "wk_shortfall w = 0"
    "wk_months w = [row]" "vm_month row = 5" "vm_year row = 2025"
    using may_validated[OF assms(1-3) w0(1,2) assms(6), of amount "Some (1, 12)"] assms(7) w0 by auto
  have "validate_carries en q m n w st = (Inr w, st)" for en q m n by (cases n) (simp_all add: v(3))
  moreover have "en_advisoryMaxMonths example_env = 12" by (simp add: example_env_def)
  ultimately show ?thesis using v
    by (intro exI[of _ w] exI[of _ row]) (simp add: first_pass_def w0_def[symmetric] max_extra_def)
qed

lemma recovery_example:
  "\<exists>k s. createAdvanceRecoveryDeduction example_env ''w'' ''m'' 5 2025 amount 0 ''u'' plan locked_store = (Inr k, s)"
proof (cases "amount \<le> 0")
  case False
  have "\<exists>s. recalculateSalaryFromAdjustments example_env i u True st = (Inr (), s)" for i u st
    by (rule recalc_unlocked) simp
  then have "\<exists>s. and_then (recalculateSalaryFromAdjustments example_env i u True st) (\<lambda>_ st2. (Inr k, st2)) = (Inr k, s)"
    for i u st and k :: "nat option" by (metis and_then_simps(2))
  then show ?thesis using False may_ensured[OF with_may_locked] by (simp add: createAdvanceRecoveryDeduction_def Let_def) blast
qed (simp add: createAdvanceRecoveryDeduction_def)

definition advance_payment :: payment_input where
  \<comment> \<open>more than is due, the rest as an advance for May, to be taken back in installments of 2000\<close>
  "advance_payment = full_payment\<lparr>pi_amount := 5000, pi_nextMonth := True, pi_installments := Some (None, Some 2000)\<rparr>"

lemma refused_plan_keeps_payment_witness:
  "\<exists>st' p. recordPayment example_env ''w'' ''u'' advance_payment locked_store = (Inl (Compliance_breach [(5, 2025)]), st')
    \<and> ps_payments st' = [p] \<and> py_active p \<and> py_amount p = 5000 \<and> py_advanceRecoveryPlanId p = None"
proof -
  let ?dto = "advance_payment" and ?st = locked_store
  have f: "pi_commission ?dto = None" "pi_nextMonth ?dto" "pi_amount ?dto = 5000" "pi_salaryId ?dto = Some 0"
    "pi_installments ?dto = Some (None, Some 2000)" "\<not> pi_overrideCompliance ?dto"
    by (simp_all add: advance_payment_def full_payment_def)
  have p: "ps_members ?st = [example_member]" "ps_salaries ?st = [example_salary, locked_may]" "ps_payments ?st = []"
    by (simp_all add: locked_store_def example_store_def)
  have s0: "ps_salaries ?st ! 0 = example_salary" by (simp add: p)
  have l0: "\<not> is_locked ?st 0" by (simp add: is_locked_def salary_at_def nth_doc_def p example_salary_def)
  have t: "target_salary example_env ''w'' ''u'' ?dto ?st = (Inr 0, ?st)"
    using l0 f by (simp add: target_salary_def salary_of_def salary_at_def nth_doc_def p example_salary_def)
  obtain st1 where r: "recalculateSalaryFromAdjustments example_env 0 (Some ''u'') False ?st = (Inr (), st1)"
    using recalc_unlocked[of False ?st 0 example_env "Some ''u''"] l0 by auto
  have paid0: "sumPaidAmountForSalary ?st 0 = 0" by (simp add: sumPaidAmountForSalary_def p)
  have x: "max 0 (jsub (pi_amount ?dto) (max 0 (jsub (sd_netSalary (sl_data (ps_salaries ?st ! 0))) (sumPaidAmountForSalary ?st 0)))) = 2000"
    by (simp add: paid0 p example_salary_def example_data_def f jsub_def)
  have l: "linked_additions example_env ''w'' 0 ''u'' ?dto ?st = (Inr \<lparr>pp_linked = [], pp_advance = Some (5, 2025, 2000)\<rparr>, st1)"
    unfolding linked_additions_def Let_def x using f r by (simp add: s0 example_salary_def following_month_def)
  have o: "only_totals 0 ?st st1" by (rule only_totals_recalc[OF r])
  have s1: "ps_payments st1 = []" "ps_members st1 = [example_member]" "ids st1 = ids ?st"
    using recalc_frame(2,3)[of example_env 0 "Some ''u''" False ?st] ids_recalc[of example_env 0 "Some ''u''" False ?st] p
    unfolding r snd_conv by simp_all
  have may: "with_may st" if "ps_salaries st = ps_salaries st1" "ps_members st = ps_members st1" for st
  proof -
    have i: "find_salary s ''w'' ''m'' 5 2025 = find_index (\<lambda>k. k = (''w'', ''m'', 5, 2025)) (ids s)" for s
      unfolding find_salary_def ids_def by (subst find_index_map[symmetric]) (rule arg_cong2[where f = find_index], auto simp: salary_id_def)
    have "ids st = ids ?st" using that(1) s1(3) by (simp add: ids_def)
    then have "find_salary st ''w'' ''m'' 5 2025 = Some 1" using may_found unfolding i by simp
    moreover have "length (ps_salaries st) = 2" "ps_salaries st ! 1 = locked_may" using that(1) o by (simp_all add: only_totals_def p)
    ultimately show ?thesis using that(2) s1(2)
      by (simp add: with_may_def is_locked_def salary_at_def nth_doc_def locked_may_def example_salary_def find_member_def example_member_def)
  qed
  have tm: "sl_teamMemberId (ps_salaries st1 ! 0) = ''m''"
  proof -
    have "ids st1 ! 0 = (''w'', ''m'', 4, 2025)" using s1(3) by (simp add: ids_def p example_salary_def salary_id_def)
    moreover have "0 < length (ps_salaries st1)" using o by (simp add: only_totals_def p)
    ultimately show ?thesis by (simp add: ids_def salary_id_def)
  qed
  define d where "d = payment_of example_env ''w'' 0 ''u'' ?dto ''m'' (Some (5, 2025, 2000))"
  define st2 where "st2 = save_payment d [] st1"
  have m2: "with_may st2" by (rule may) (simp_all add: st2_def save_payment_def)
  define q where "q = \<lparr>pq_ws = ''w'', pq_tm = ''m'', pq_sourcePaymentId = 0, pq_totalAmount = 2000, pq_startMonth = 5, pq_startYear = 2025,
      pq_installmentCount = None, pq_installmentAmount = Some 2000, pq_userId = ''u'', pq_overrideCompliance = pi_overrideCompliance ?dto,
      pq_overrideReason = pi_overrideReason ?dto\<rparr>"
  have ro: "roundCurrency (min 2000 3000) = 2000" by (simp add: roundCurrency_def jmul_def jdiv_def)
  have "\<exists>w row. first_pass example_env q example_member [2000] st2
      = (if gr_breaches (evaluate (may_guard 2000 (Some (1, 12)))) = [] then (Inr w, st2)
         else (Inl (Compliance_breach (map (\<lambda>_. (5, 2025)) (gr_breaches (evaluate (may_guard 2000 (Some (1, 12))))))), st2))
    \<and> wk_months w = [row] \<and> vm_month row = 5 \<and> vm_year row = 2025"
    by (rule may_first_pass[OF m2 _ _ _ _ _ ro]) (simp_all add: q_def f)
  moreover have "gr_breaches (evaluate (may_guard 2000 (Some (1, 12)))) \<noteq> []" using may_breaches(2)[of x "Some (1, 12)" for x] by auto
  ultimately have fp: "first_pass example_env q example_member [2000] st2 = (Inl (Compliance_breach [(5, 2025)]), st2)"
    using may_breaches(2)[of "(5, 2025)" "Some (1, 12)"] by simp
  have "find_member st2 ''m'' = Some example_member" using m2 by (simp add: with_may_def)
  then have pl: "createAdvanceRecoveryPlan example_env q st2 = (Inl (Compliance_breach [(5, 2025)]), st2)"
    using fp by (simp add: createAdvanceRecoveryPlan_def buildInstallmentSchedule_def q_def round2_example)
  have sc: "schedule_recovery example_env ''w'' ''u'' ?dto ''m'' 0 (Some (5, 2025, 2000)) st2 = (Inl (Compliance_breach [(5, 2025)]), st2)"
    using pl f by (simp add: schedule_recovery_def several_installments_def q_def)
  have g: "guarded cs r st = r" if "list_all fst cs" for cs st and r :: "nat pay"
    using that by (induction cs) (auto simp: guarded_def)
  have ck: "list_all fst (payment_checks example_env ''w'' 0 ''u'' ?dto ?st)"
    using f by (simp add: payment_checks_def Let_def s0 example_salary_def member_writable_def p example_member_def advance_payment_def full_payment_def)
  have "settle_payment example_env ''w'' 0 ''u'' ?dto \<lparr>pp_linked = [], pp_advance = Some (5, 2025, 2000)\<rparr> st1
      = (Inl (Compliance_breach [(5, 2025)]), st2)"
    using sc tm s1 by (simp add: settle_payment_def Let_def st2_def d_def)
  then have rp: "recordPayment example_env ''w'' ''u'' ?dto ?st = (Inl (Compliance_breach [(5, 2025)]), st2)"
    using t l s1(1) by (simp add: recordPayment_def pay_record_def g[OF ck])
  from refused_plan_keeps_payment[OF this] show ?thesis using rp p(3) f(3) by auto
qed

definition may_request :: plan_request where
  "may_request = \<lparr>pq_ws = ''w'', pq_tm = ''m'', pq_sourcePaymentId = 0, pq_totalAmount = paise 100000, pq_startMonth = 5, pq_startYear = 2025,
      pq_installmentCount = Some (of_int 1), pq_installmentAmount = None, pq_userId = ''u'', pq_overrideCompliance = False,
      pq_overrideReason = ''''\<rparr>"


section \<open>Increments\<close>

definition raise_to :: "rat \<Rightarrow> int \<Rightarrow> int \<Rightarrow> increment_doc" where
  "raise_to v month year = \<lparr>ic_workspaceId = ''w'', ic_teamMemberId = ''m'', ic_newSalary = v, ic_effectiveMonth = month,
     ic_effectiveYear = year, ic_isApplied = False\<rparr>"

definition raises :: "increment_doc list \<Rightarrow> pay_store" where
  "raises xs = example_store\<lparr>ps_increments := xs\<rparr>"

lemma raises_member: "member_at (raises xs) ''m'' = Some 0"
  by (simp add: raises_def member_at_def example_store_def example_member_def)

lemma raises_pending: "pending ''w'' ''m'' (raises [raise_to a m y, raise_to b n z]) = {0, 1}"
  by (auto simp: pending_def raises_def raise_to_def less_Suc_eq)

lemma raises_increments: "ps_increments (raises xs) = xs"
  by (simp add: raises_def)

lemma key_raise: "effective_key (raise_to v m y) = y * 12 + m"
  by (simp add: effective_key_def raise_to_def)

lemma overdue_increments_end_at_oldest_witness:
  "let st' = fold (\<lambda>run. applyPendingIncrement ''w'' ''m'' (fst run) (snd run)) [(5, 2025), (6, 2025)]
       (raises [raise_to 3500 3 2025, raise_to 4000 5 2025]) in
   pending ''w'' ''m'' st' = {} \<and> current_salary st' ''m'' = Some 3500"
proof -
  let ?st = "raises [raise_to 3500 3 2025, raise_to 4000 5 2025]"
  have "let st' = fold (\<lambda>run. applyPendingIncrement ''w'' ''m'' (fst run) (snd run)) [(5, 2025), (6, 2025)] ?st in
      pending ''w'' ''m'' st' = {} \<and> current_salary st' ''m'' = Some (ic_newSalary (ps_increments ?st ! 0))"
  proof (rule overdue_increments_end_at_oldest[OF raises_member])
    fix i run assume i: "i \<in> pending ''w'' ''m'' ?st"
    then show "i \<noteq> 0 \<Longrightarrow> effective_key (ps_increments ?st ! 0) < effective_key (ps_increments ?st ! i)"
      unfolding raises_pending raises_increments by (auto simp: key_raise)
    show "run \<in> set [(5, 2025), (6, 2025)] \<Longrightarrow> pending_by ''w'' ''m'' (fst run) (snd run) (ps_increments ?st ! i)"
      using i unfolding raises_pending raises_increments by (auto simp: pending_by_def raise_to_def)
  qed (simp_all add: raises_pending)
  then show ?thesis by (simp only: raises_increments nth_Cons_0) (simp add: raise_to_def)
qed

lemma monthly_records_apply_increments_in_time_witness:
  "current_salary (monthly_runs ''w'' ''m'' (2025 * 12 + 3) 4 (raises [raise_to 3500 4 2025, raise_to 4000 6 2025])) ''m'' = Some 4000"
proof -
  let ?st = "raises [raise_to 3500 4 2025, raise_to 4000 6 2025]"
  have v: "valid_months ''w'' ''m'' ?st" unfolding valid_months_def raises_pending raises_increments by (simp add: raise_to_def)
  have inj: "inj_on (\<lambda>i. effective_key (ps_increments ?st ! i)) (pending ''w'' ''m'' ?st)"
    unfolding raises_pending raises_increments by (simp add: key_raise)
  have late: "2025 * 12 + 3 \<le> effective_key (ps_increments ?st ! i)" if "i \<in> pending ''w'' ''m'' ?st" for i
    using that unfolding raises_pending raises_increments by (auto simp: key_raise)
  have due: "1 \<in> {i \<in> pending ''w'' ''m'' ?st. effective_key (ps_increments ?st ! i) < 2025 * 12 + 3 + int 4}"
    unfolding raises_pending raises_increments by (simp add: key_raise)
  have last: "\<forall>q\<in>{i \<in> pending ''w'' ''m'' ?st. effective_key (ps_increments ?st ! i) < 2025 * 12 + 3 + int 4}.
      effective_key (ps_increments ?st ! q) \<le> effective_key (ps_increments ?st ! 1)"
    unfolding raises_pending raises_increments by (auto simp: key_raise)
  have "current_salary (monthly_runs ''w'' ''m'' (2025 * 12 + 3) 4 ?st) ''m'' = Some (ic_newSalary (ps_increments ?st ! 1))"
    using monthly_records_apply_increments_in_time[OF raises_member v inj late, of 4] due last unfolding Let_def by blast
  then show ?thesis by (simp only: raises_increments) (simp add: raise_to_def)
qed

definition april_raise :: increment_input where
  "april_raise = \<lparr>ii_teamMemberId = ''m'', ii_effectiveMonth = 4, ii_effectiveYear = 2025, ii_type = Fixed_amount, ii_value = 500\<rparr>"

lemma april_due: "is_due example_env april_raise"
  by code_simp

lemma late_raise_is_lost_witness:
  "let st1 = snd (addIncrement example_env ''w'' april_raise (raises [raise_to 4000 6 2025])) in
   current_salary st1 ''m'' = Some 4500 \<and> current_salary (applyPendingIncrement ''w'' ''m'' 6 2025 st1) ''m'' = Some 4000"
proof -
  let ?st = "raises [raise_to 4000 6 2025]"
  have r: "raised (ii_type april_raise) (ii_value april_raise) 4000 = 4500" by (simp add: raised_def april_raise_def jadd_def)
  have "let st1 = snd (addIncrement example_env ''w'' april_raise ?st); future = ic_newSalary (ps_increments ?st ! 0) in
      current_salary st1 ''m'' = Some (raised (ii_type april_raise) (ii_value april_raise) future)
      \<and> current_salary (applyPendingIncrement ''w'' ''m'' 6 2025 st1) ''m'' = Some future"
  proof (rule late_raise_is_lost[OF _ raises_member _ april_due])
    show "feature example_env ''salaryIncrements''" by (simp add: feature_def example_env_def)
    show "\<not> list_ex (same_increment ''w'' april_raise) (ps_increments ?st)"
      by (simp add: raises_increments same_increment_def april_raise_def raise_to_def)
    show "pending ''w'' ''m'' ?st = {0}" by (auto simp: pending_def raises_increments raise_to_def)
    show "latest_increment ?st ''w'' ''m'' = Some 0" by (simp add: latest_increment_def latest_index_def raises_increments raise_to_def)
    show "pending_by ''w'' ''m'' 6 2025 (ps_increments ?st ! 0)" by (simp add: raises_increments pending_by_def raise_to_def)
  qed (simp add: april_raise_def)
  moreover have "ic_newSalary (ps_increments ?st ! 0) = 4000" by (simp add: raises_increments raise_to_def)
  ultimately show ?thesis unfolding Let_def by (simp only: r)
qed

lemma increment_reaches_other_workspaces_witness:
  "\<exists>x st'. addIncrement example_env ''other'' april_raise (raises []) = (Inr x, st') \<and> current_salary st' ''m'' = Some 3500"
proof -
  have "\<exists>x st'. addIncrement example_env ''other'' april_raise (raises []) = (Inr x, st')
      \<and> current_salary st' ''m'' = Some (raised (ii_type april_raise) (ii_value april_raise) (coalesce (current_salary (raises []) ''m'') 0))"
  proof (rule increment_reaches_other_workspaces[OF _ raises_member _ _ _ april_due])
    show "feature example_env ''salaryIncrements''" by (simp add: feature_def example_env_def)
    show "pm_workspaceId (ps_members (raises []) ! 0) \<noteq> ''other''" by (simp add: raises_def example_store_def example_member_def)
  qed (simp_all add: raises_def april_raise_def)
  moreover have "current_salary (raises []) ''m'' = Some 3000"
    by (simp add: current_salary_def raises_def example_store_def find_member_def example_member_def)
  moreover have "raised (ii_type april_raise) (ii_value april_raise) (coalesce (Some 3000) 0) = 3500"
    by (simp add: raised_def april_raise_def jadd_def)
  ultimately show ?thesis by simp
qed

end
