(* ===== verification/PayrollCoverage.thy ===== *)
theory PayrollCoverage
  imports SalaryBooks
begin

text \<open>
  Which records the payroll of a month leaves: one for every eligible member and no other new one.
\<close>

lemma ensure_ids:
  assumes "ensureSalaryRecord en ws tm month year u st = (Inr i, st')"
  shows "ids st' = ids st @ (if (ws, tm, month, year) \<in> set (ids st) then [] else [(ws, tm, month, year)])"
proof (cases "find_salary st ws tm month year")
  case (Some j)
  then have mem: "(ws, tm, month, year) \<in> set (ids st)" using find_salary_None[of st ws tm month year] by simp
  show ?thesis
  proof (cases "is_locked st j")
    case True
    then show ?thesis using assms Some mem by (simp add: ensureSalaryRecord_def)
  next
    case False
    obtain q s where q: "refresh_piece en ws tm j st = (q, s)" by force
    have "ids s = ids st" using refresh_frame(1)[of en ws tm j st] q by simp
    moreover have "\<exists>x. q = Inr x \<and> settle_record en ws tm j u s = (Inr i, st')"
      using assms Some False q by (cases q) (simp_all add: ensureSalaryRecord_def)
    ultimately show ?thesis using settle_frame(1)[of en ws tm j u s] mem by auto
  qed
next
  case None
  then have mem: "(ws, tm, month, year) \<notin> set (ids st)" by (simp add: find_salary_None)
  obtain q s where q: "buildSalaryRecordData en ws tm month year 0 0 st = (q, s)" by force
  have s: "ids s = ids st" using build_frame[OF q] by simp
  from q obtain d where d: "q = Inr d" using assms None by (cases q) (simp_all add: ensureSalaryRecord_def)
  let ?s = "s\<lparr>ps_salaries := ps_salaries s @ [new_salary ws tm month year d u]\<rparr>"
  have "settle_record en ws tm (length (ps_salaries s)) u ?s = (Inr i, st')"
    using assms None q d by (simp add: ensureSalaryRecord_def Let_def)
  then have "ids st' = ids ?s" using settle_frame(1)[of en ws tm "length (ps_salaries s)" u ?s] by simp
  moreover have "ids ?s = ids s @ [(ws, tm, month, year)]" by (simp add: ids_def salary_id_def new_salary_def)
  ultimately show ?thesis using s mem by simp
qed

lemma ensure_all_ids:
  assumes "ensure_all en ws month year tms st = (Inr is, st')" "distinct tms"
  shows "ids st' = ids st @ map (\<lambda>tm. (ws, tm, month, year)) (filter (\<lambda>tm. (ws, tm, month, year) \<notin> set (ids st)) tms)
    \<and> list_all2 (\<lambda>tm i. i < length (ids st') \<and> ids st' ! i = (ws, tm, month, year)) tms is"
  using assms
proof (induction tms arbitrary: st "is")
  case (Cons tm tms)
  obtain q st1 where q: "ensureSalaryRecord en ws tm month year None st = (q, st1)" by force
  then obtain i where i: "q = Inr i" using Cons.prems(1) by (cases q) simp_all
  obtain r st2 where r: "ensure_all en ws month year tms st1 = (r, st2)" by force
  then obtain js where j: "r = Inr js" "is = i # js" "st2 = st'" using Cons.prems(1) q i by (cases r) simp_all
  note e = ensure_ids[OF q[unfolded i]]
  have IH: "ids st' = ids st1 @ map (\<lambda>tm. (ws, tm, month, year)) (filter (\<lambda>tm. (ws, tm, month, year) \<notin> set (ids st1)) tms)"
    "list_all2 (\<lambda>tm i. i < length (ids st') \<and> ids st' ! i = (ws, tm, month, year)) tms js"
    using Cons.IH[of st1 js] r j Cons.prems(2) unfolding distinct.simps by blast+
  have f: "filter (\<lambda>x. (ws, x, month, year) \<notin> set (ids st1)) tms = filter (\<lambda>x. (ws, x, month, year) \<notin> set (ids st)) tms"
    using Cons.prems(2) by (intro filter_cong) (auto simp: e)
  have "i < length (ids st1) \<and> ids st1 ! i = (ws, tm, month, year)" using ensure_id[OF q[unfolded i]] by (simp add: ids_def)
  then have "i < length (ids st') \<and> ids st' ! i = (ws, tm, month, year)" by (simp add: IH(1) nth_append)
  then have "list_all2 (\<lambda>tm i. i < length (ids st') \<and> ids st' ! i = (ws, tm, month, year)) (tm # tms) is"
    unfolding j(2) using IH(2) by (simp only: list_all2_Cons)
  moreover have "ids st' = ids st @ map (\<lambda>tm. (ws, tm, month, year)) (filter (\<lambda>tm. (ws, tm, month, year) \<notin> set (ids st)) (tm # tms))"
    using IH(1) e f by simp
  ultimately show ?case by blast
qed simp

section \<open>Who is employed in a month\<close>

definition employed_in :: "int \<Rightarrow> int \<Rightarrow> int \<Rightarrow> pay_member \<Rightarrow> bool" where
  \<comment> \<open>by the calendar days of the local zone: joined before the next month, not resigned before this one\<close>
  "employed_in tz month year m \<longleftrightarrow>
     (case pm_dateOfJoining m of None \<Rightarrow> True | Some d \<Rightarrow> local_day tz d < make_day year month 1)
     \<and> (case pm_dateOfResignation m of None \<Rightarrow> True | Some d \<Rightarrow> make_day year (month - 1) 1 \<le> local_day tz d)"

definition whole_seconds :: "int \<Rightarrow> pay_member \<Rightarrow> bool" where
  "whole_seconds tz m \<longleftrightarrow> (case pm_dateOfJoining m of None \<Rightarrow> True | Some d \<Rightarrow> (d + tz) mod 1000 = 0)"

lemma div_less_int:
  assumes "0 < (q::int)"
  shows "m div q < n \<longleftrightarrow> m < n * q"
proof
  assume "m div q < n"
  then have "(m div q + 1) * q \<le> n * q" using assms by (intro mult_right_mono) auto
  then show "m < n * q" using div_mult_mod_eq[of m q] pos_mod_bound[OF assms, of m] unfolding distrib_right mult_1 by linarith
next
  assume "m < n * q"
  moreover have "m div q * q \<le> m" using div_mult_mod_eq[of m q] pos_mod_sign[OF assms, of m] by linarith
  ultimately have "m div q * q < n * q" by linarith
  then show "m div q < n" using assms by simp
qed

lemma le_div_int: "0 < (q::int) \<Longrightarrow> n \<le> m div q \<longleftrightarrow> n * q \<le> m"
  using div_less_int[of q m n] by linarith

lemma before_last_second:
  assumes "(d + tz) mod 1000 = 0"
  shows "d \<le> local_midnight tz year month 0 + (ms_per_day - 1000) \<longleftrightarrow> local_day tz d < make_day year month 1"
proof -
  let ?M = "make_day year month 0"
  have M: "make_day year month 1 = ?M + 1" by (simp add: make_day_def)
  from assms obtain k where k: "d + tz = 1000 * k" by (metis mod_0_imp_dvd dvdE)
  have "d \<le> local_midnight tz year month 0 + (ms_per_day - 1000) \<longleftrightarrow> 1000 * k \<le> (?M + 1) * 86400000 - 1000"
    using k by (auto simp: local_midnight_def ms_per_day_def)
  also have "\<dots> \<longleftrightarrow> k < (?M + 1) * 86400" by auto
  also have "\<dots> \<longleftrightarrow> 1000 * k < (?M + 1) * 86400000" by auto
  also have "\<dots> \<longleftrightarrow> local_day tz d < make_day year month 1"
    unfolding M local_day_def day_of_def ms_per_day_def k by (rule div_less_int[symmetric]) simp
  finally show ?thesis .
qed

lemma from_first_moment: "d \<ge> local_midnight tz year (month - 1) 1 \<longleftrightarrow> make_day year (month - 1) 1 \<le> local_day tz d"
  by (simp add: local_midnight_def local_day_def day_of_def ms_per_day_def le_div_int algebra_simps)

lemma eligible_is_employed:
  assumes "whole_seconds (en_tz en) m"
  shows "eligible_member en ws month year m
    \<longleftrightarrow> pm_workspaceId m = ws \<and> pm_isActive m \<and> \<not> pm_isDeleted m \<and> employed_in (en_tz en) month year m"
  using assms unfolding eligible_member_def employed_in_def whole_seconds_def Let_def
  by (simp add: before_last_second from_first_moment split: option.splits)

text \<open>
  C17. The payroll of a month covers exactly the active members of the workspace who are employed for
  some day of the month by the local calendar (their joining dates being stored to the second): when it completes, the
  records are the ones there were, followed by one new record for each such member that had none for the
  month, in the order of the members, and it returns one record per such member, the member's own for
  that month.
\<close>

theorem payroll_covers_month:
  assumes "generatePayroll en ws month year st = (Inr is, st')" "distinct (map pm_id (ps_members st))"
    and "list_all (whole_seconds (en_tz en)) (ps_members st)"
  shows "let staff = map pm_id (filter (\<lambda>m. pm_workspaceId m = ws \<and> pm_isActive m \<and> \<not> pm_isDeleted m
             \<and> employed_in (en_tz en) month year m) (ps_members st));
           key = (\<lambda>tm. (ws, tm, month, year)) in
    ids st' = ids st @ map key (filter (\<lambda>tm. key tm \<notin> set (ids st)) staff)
    \<and> list_all2 (\<lambda>tm i. i < length (ps_salaries st') \<and> salary_id (ps_salaries st' ! i) = key tm) staff is"
proof -
  let ?el = "map pm_id (filter (eligible_member en ws month year) (ps_members st))"
  have el: "filter (\<lambda>m. pm_workspaceId m = ws \<and> pm_isActive m \<and> \<not> pm_isDeleted m \<and> employed_in (en_tz en) month year m) (ps_members st)
      = filter (eligible_member en ws month year) (ps_members st)"
    using assms(3) by (intro filter_cong refl) (simp add: eligible_is_employed list_all_iff)
  have "distinct ?el" using assms(2) by (rule distinct_map_filter)
  note both = ensure_all_ids[OF assms(1)[unfolded generatePayroll_def] this]
  have "ids st' = ids st @ map (\<lambda>tm. (ws, tm, month, year)) (filter (\<lambda>tm. (ws, tm, month, year) \<notin> set (ids st)) ?el)"
    and l: "list_all2 (\<lambda>tm i. i < length (ids st') \<and> ids st' ! i = (ws, tm, month, year)) ?el is" using both by blast+
  moreover have "list_all2 (\<lambda>tm i. i < length (ps_salaries st') \<and> salary_id (ps_salaries st' ! i) = (ws, tm, month, year)) ?el is"
    using l by (rule list_all2_mono) (auto simp: ids_def)
  ultimately show ?thesis unfolding Let_def el by blast
qed

end
