(* ===== verification/AdvanceExamples.thy ===== *)
theory AdvanceExamples
  imports SalaryExamples AdvanceHistory PlanChanges PayrollCoverage
begin

text \<open>
  The properties of advance requests, plans and the payroll of a month at a small workspace: April and
  May 2025 are locked, the member has a request for April, and the clock stands in April.
\<close>

definition april_request :: "string \<Rightarrow> advance_request" where
  "april_request status = \<lparr>av_workspaceId = ''w'', av_teamMemberId = ''m'', av_month = 4, av_year = 2025, av_requestedAmount = 200000,
     av_requestedBy = ''v'', av_status = status, av_approvedAmount = (if status = ''approved'' then Some 200000 else None),
     av_reviewedBy = None, av_verifiedBy = None, av_paymentId = None, av_recoveryAdjustmentId = None, av_recoveryPlanId = None,
     av_sameMonthRecovery = False\<rparr>"

definition request_store :: "string \<Rightarrow> pay_store" where
  "request_store status = locked_store\<lparr>ps_salaries := [locked_may\<lparr>sl_month := 4\<rparr>, locked_may], ps_advances := [april_request status]\<rparr>"

lemma request_store_simps [simp]:
  "ps_advances (request_store status) = [april_request status]" "ps_payments (request_store status) = []"
  "ps_members (request_store status) = [example_member]"
  by (simp_all add: request_store_def locked_store_def example_store_def)

lemma april_found: "find_salary (request_store status) ''w'' ''m'' 4 2025 = Some 0"
  by (simp add: find_salary_def request_store_def locked_may_def example_salary_def)

lemma april_locked: "is_locked (request_store status) 0"
  by (simp add: is_locked_def salary_at_def nth_doc_def request_store_def locked_may_def)

lemma april_ensured: "ensureSalaryRecord example_env ''w'' ''m'' 4 2025 u (request_store status) = (Inr 0, request_store status)"
  by (simp add: ensureSalaryRecord_def april_found april_locked)


definition terms :: "rat option \<Rightarrow> int \<Rightarrow> advance_terms" where
  "terms amount month = \<lparr>at_installmentCount = None, at_installmentAmount = amount, at_startMonth = Some month, at_startYear = Some 2025,
     at_paymentMode = None, at_hasSplitLines = False, at_overrideCompliance = False, at_overrideReason = ''''\<rparr>"

lemma two_thousand: "roundCurrency (jdiv 200000 100) = 2000"
  by (simp add: roundCurrency_def jmul_def jdiv_def)

lemma member_example: "member_writable (request_store status) ''w'' ''m''"
  by (simp add: member_writable_def example_member_def)

lemma april_paid_out:
  "pay_out example_env ''w'' ''o'' 0 (april_request s) amount t (request_store s)
     = (Inr 0, (request_store s)\<lparr>ps_payments := [request_payment example_env ''w'' ''o'' 0 (april_request s) amount t 0]\<rparr>)"
  by (simp add: pay_out_def april_ensured april_request_def[THEN arg_cong[where f = av_teamMemberId]]
      april_request_def[THEN arg_cong[where f = av_month]] april_request_def[THEN arg_cong[where f = av_year]])

lemma april_run:
  "payApprovedAdvance example_env ''w'' ''o'' 0 (terms amount month) (request_store ''approved'')
     = recover_and_close example_env ''w'' ''o'' 0 (april_request ''approved'') 2000 (terms amount month) True 0
         ((request_store ''approved'')\<lparr>ps_payments :=
            [request_payment example_env ''w'' ''o'' 0 (april_request ''approved'') 2000 (terms amount month) 0]\<rparr>)"
  using member_example[of "''approved''"]
  by (simp add: payApprovedAdvance_def request_of_def nth_doc_def april_paid_out Let_def two_thousand terms_def
      april_request_def[THEN arg_cong[where f = av_workspaceId]] april_request_def[THEN arg_cong[where f = av_teamMemberId]]
      april_request_def[THEN arg_cong[where f = av_status]] april_request_def[THEN arg_cong[where f = av_approvedAmount]])


lemma refused_advance_is_paid_again_witness:
  "\<exists>st'. payApprovedAdvance example_env ''w'' ''o'' 0 (terms (Some 200000) 5) (request_store ''approved'')
      = (Inl (Compliance_breach [(5, 2025)]), st')
    \<and> av_status (ps_advances st' ! 0) = ''approved'' \<and> (\<exists>d. ps_payments st' = [d] \<and> py_active d)"
proof -
  let ?t = "terms (Some 200000) 5"
  let ?d = "request_payment example_env ''w'' ''o'' 0 (april_request ''approved'') 2000 ?t 0"
  define s where "s = (request_store ''approved'')\<lparr>ps_payments := [?d]\<rparr>"
  have m: "with_may s"
    by (simp add: with_may_def s_def request_store_def locked_store_def locked_may_def example_store_def example_salary_def find_salary_def
        is_locked_def salary_at_def nth_doc_def find_member_def example_member_def)
  define q where "q = \<lparr>pq_ws = ''w'', pq_tm = ''m'', pq_sourcePaymentId = 0, pq_totalAmount = 2000, pq_startMonth = 5, pq_startYear = 2025,
      pq_installmentCount = None, pq_installmentAmount = Some 2000, pq_userId = ''o'', pq_overrideCompliance = False,
      pq_overrideReason = ''''\<rparr>"
  have ro: "roundCurrency (min 2000 3000) = 2000" by (simp add: roundCurrency_def jmul_def jdiv_def)
  obtain w row where "first_pass example_env q example_member [2000] s
      = (if gr_breaches (evaluate (may_guard 2000 (Some (1, 12)))) = [] then (Inr w, s)
         else (Inl (Compliance_breach (map (\<lambda>_. (5, 2025)) (gr_breaches (evaluate (may_guard 2000 (Some (1, 12))))))), s))"
    using may_first_pass[OF m _ _ _ _ _ ro, of q] by (auto simp: q_def)
  moreover have "gr_breaches (evaluate (may_guard 2000 (Some (1, 12)))) \<noteq> []" using may_breaches(2)[of x "Some (1, 12)" for x] by auto
  ultimately have fp: "first_pass example_env q example_member [2000] s = (Inl (Compliance_breach [(5, 2025)]), s)"
    using may_breaches(2)[of "(5, 2025)" "Some (1, 12)"] by simp
  have "find_member s ''m'' = Some example_member" using m by (simp add: with_may_def)
  then have pl: "createAdvanceRecoveryPlan example_env q s = (Inl (Compliance_breach [(5, 2025)]), s)"
    using fp by (simp add: createAdvanceRecoveryPlan_def buildInstallmentSchedule_def q_def round2_example)
  have "by_plan example_env ''w'' ''o'' (april_request ''approved'') 2000 ?t 0 s = (Inl (Compliance_breach [(5, 2025)]), s)"
    using pl by (simp add: by_plan_def start_of_def terms_def april_request_def q_def two_thousand)
  moreover have "in_installments ?t" by (simp add: in_installments_def terms_def)
  ultimately have r: "payApprovedAdvance example_env ''w'' ''o'' 0 ?t (request_store ''approved'')
      = (Inl (Compliance_breach [(5, 2025)]), s)"
    unfolding april_run by (simp add: recover_and_close_def s_def)
  show ?thesis using refused_advance_is_paid_again[OF r] r by auto
qed

definition april_staff :: pay_store where
  \<comment> \<open>one joined on 10 April, the other left on 31 March\<close>
  "april_staff = (request_store ''pending'')\<lparr>ps_members := [example_member\<lparr>pm_dateOfJoining := Some 1744223400000\<rparr>,
     example_member\<lparr>pm_id := ''l'', pm_dateOfResignation := Some 1743359400000\<rparr>]\<rparr>"

lemma april_staff_eligible:
  "map (eligible_member example_env ''w'' 4 2025) (ps_members april_staff) = [True, False]"
  "map (\<lambda>m. (whole_seconds (en_tz example_env) m, employed_in (en_tz example_env) 4 2025 m)) (ps_members april_staff) = [(True, True), (True, False)]"
  by code_simp+

lemma payroll_covers_month_witness:
  "generatePayroll example_env ''w'' 4 2025 april_staff = (Inr [0], april_staff)
    \<and> list_all2 (\<lambda>tm i. i < 2 \<and> salary_id (ps_salaries april_staff ! i) = (''w'', tm, 4, 2025)) [''m''] [0]"
proof -
  note e = april_staff_eligible[unfolded april_staff_def, simplified]
  have "find_salary april_staff ''w'' ''m'' 4 2025 = Some 0" "is_locked april_staff 0"
    using april_found[of "''pending''"] april_locked[of "''pending''"]
    by (simp_all add: april_staff_def find_salary_def is_locked_def salary_at_def)
  then have "ensureSalaryRecord example_env ''w'' ''m'' 4 2025 None april_staff = (Inr 0, april_staff)"
    by (simp add: ensureSalaryRecord_def)
  then have g: "generatePayroll example_env ''w'' 4 2025 april_staff = (Inr [0], april_staff)"
    using e by (simp add: generatePayroll_def april_staff_def example_member_def)
  from payroll_covers_month[OF g] show ?thesis using g e
    by (simp add: Let_def april_staff_def example_member_def request_store_def locked_store_def locked_may_def example_store_def)
qed

definition april_entry :: plan_entry where
  "april_entry = \<lparr>ie_index = 1, ie_month = 4, ie_year = 2025, ie_plannedAmount = 1000, ie_appliedAmount = 1000, ie_adjustmentId = Some 0,
     ie_status = Applied_entry\<rparr>"

definition plan_store :: pay_store where
  "plan_store = example_store\<lparr>
     ps_adjustments := [new_adjustment example_salary 0 ''w'' Deduction ''advance_recovery'' 1000 System ''u''],
     ps_plans := [\<lparr>rp_workspaceId = ''w'', rp_teamMemberId = ''m'', rp_sourcePaymentId = 0, rp_totalAmount = 1000, rp_installmentAmount = 1000,
       rp_startMonth = 4, rp_startYear = 2025, rp_status = ''active'', rp_recoveredAmount = 0, rp_remainingAmount = 1000,
       rp_installments = [april_entry], rp_linkedAdjustmentIds = [0], rp_closureType = None\<rparr>]\<rparr>"

lemma april_current: "\<not> is_elapsed example_env 4 2025"
  by code_simp

lemma early_payoff_exact_witness:
  "\<exists>plan' st'. earlyPayoffAdvanceRecoveryPlan example_env ''w'' 0 ''u'' ''paid in cash'' plan_store = (Inr plan', st')
    \<and> rp_status plan' = ''completed'' \<and> still_active plan_store 0 \<and> \<not> still_active st' 0"
proof -
  let ?plan = "ps_plans plan_store ! 0"
  have p: "plan_of plan_store ''w'' 0 = Some ?plan" "rp_status ?plan \<in> {''active'', ''paused''}" "rp_installments ?plan = [april_entry]"
    by (simp_all add: plan_of_def nth_doc_def plan_store_def)
  have a: "still_active plan_store 0" by (simp add: still_active_def nth_doc_def plan_store_def new_adjustment_def)
  show ?thesis using early_payoff_exact[OF p(1,2), of example_env "''u''" "''paid in cash''"] a p(3) april_current
    by (auto simp: Let_def april_entry_def)
qed

end
