(* ===== verification/LoanExamples.thy ===== *)
theory LoanExamples
  imports LoanSafety AdvanceExamples
begin

text \<open>
  The properties of loans at a small workspace: April and May 2025 are locked, the clock stands in April, a
  loan needs the approval of two persons, and the member has a loan of two installments, for March and April.
\<close>

definition loan_settings :: loan_env where
  "loan_settings = \<lparr>le_pay = example_env\<lparr>en_features := [''loanManagement'']\<rparr>, le_pow = (\<lambda>x n. x ^ nat n),
     le_approvalChainDefault = [''a'', ''b''], le_sbiBenchmarkRate = 9, le_perquisiteExemptionThreshold = 200000,
     le_selfApplyEnabled = True, le_selfApplyMaxAmount = None, le_selfApplyMinTenureMonths = None,
     le_maxActiveLoanAmount = 0, le_maxActiveLoanCount = 0\<rparr>"

definition empty_loans :: loan_store where
  "empty_loans = \<lparr>lb_pay = request_store ''pending'', lb_loans = [], lb_requests = []\<rparr>"

definition small_loan :: "string list \<Rightarrow> loan_input" where
  "small_loan chain = \<lparr>ln_teamMemberId = ''m'', ln_loanType = ''personal'', ln_principalAmount = 1000, ln_interestType = ''zero'',
     ln_annualInterestRate = 0, ln_tenorMonths = 1, ln_startMonth = 5, ln_startYear = 2025, ln_approvalChain = chain,
     ln_medicalLoanExempt = False\<rparr>"

definition march_entry :: loan_installment where
  "march_entry = \<lparr>li_index = 1, li_month = 3, li_year = 2025, li_principalPlanned = 1000, li_interestPlanned = 0, li_emiPlanned = Some 1000,
     li_appliedAmount = 1000, li_adjustmentId = None, li_status = Loan_applied\<rparr>"

definition due_in_april :: "loan_entry_status \<Rightarrow> nat option \<Rightarrow> loan_installment" where
  "due_in_april status adj = \<lparr>li_index = 2, li_month = 4, li_year = 2025, li_principalPlanned = 1000, li_interestPlanned = 0,
     li_emiPlanned = Some 1000, li_appliedAmount = 0, li_adjustmentId = adj, li_status = status\<rparr>"

definition running_loan :: "string \<Rightarrow> loan_entry_status \<Rightarrow> nat option \<Rightarrow> employer_loan" where
  "running_loan status due adj = \<lparr>lo_workspaceId = ''w'', lo_teamMemberId = ''m'', lo_loanType = ''personal'', lo_principalAmount = 2000,
     lo_interestType = ''zero'', lo_annualInterestRate = 0, lo_tenorMonths = 2, lo_emiAmount = 1000, lo_startMonth = 3, lo_startYear = 2025,
     lo_status = status, lo_recoveredAmount = 1000, lo_remainingPrincipal = 1000, lo_remainingAmount = 1000, lo_totalInterestScheduled = 0,
     lo_installments = [march_entry, due_in_april due adj], lo_linkedAdjustmentIds = (case adj of None \<Rightarrow> [] | Some j \<Rightarrow> [j]),
     lo_approvalChain = [], lo_approvedBy = None, lo_closureType = None, lo_closedBy = None, lo_writeOffAmount = None, lo_supersedes = None,
     lo_medicalLoanExempt = False, lo_perquisiteHistory = [], lo_createdBy = ''o''\<rparr>"

definition paused_loan_store :: loan_store where
  "paused_loan_store = empty_loans\<lparr>lb_loans := [running_loan ''paused'' Loan_reversed None]\<rparr>"

abbreviation settings_pay :: pay_env where
  "settings_pay \<equiv> le_pay loan_settings"

lemma settings_simps [simp]:
  "not_self_edit settings_pay u tm" "feature settings_pay ''loanManagement''" "en_minimumWageOverride settings_pay tm = None"
  "en_minimumWageMonthly settings_pay = None" "en_deductionCapPercent settings_pay = 50"
  by (simp_all add: loan_settings_def not_self_edit_def example_env_def feature_def)

lemma clock_settings: "is_elapsed settings_pay m y = is_elapsed example_env m y"
  by (simp add: loan_settings_def is_elapsed_def current_month_def)

lemma may_ensured_here: "with_may st \<Longrightarrow> ensureSalaryRecord en ''w'' ''m'' 5 2025 u st = (Inr 1, st)"
  by (simp add: ensureSalaryRecord_def with_may_def)

lemma may_in_store: "with_may (request_store status)"
proof -
  have "ps_salaries (request_store status) = [locked_may\<lparr>sl_month := 4\<rparr>, locked_may]" by (simp add: request_store_def)
  then show ?thesis
    by (simp add: with_may_def find_salary_def is_locked_def salary_at_def nth_doc_def find_member_def)
      (simp add: locked_may_def example_salary_def example_member_def)
qed

lemma thousand_allowed: "gr_allowedInstallment (evaluate (may_guard 1000 s)) = 1000"
  by (simp add: evaluate_def may_guard_def cap_rule_def floor_rule_def round2_example jmul_def jdiv_def jadd_def Let_def)

lemma may_deducted:
  assumes "with_may st"
  shows "\<exists>st'. createLoanRecoveryAdjustment en ''w'' ''m'' 5 2025 1000 index u st = (Inr (Some (length (ps_adjustments st))), st')"
proof -
  have "\<exists>s. recalculateSalaryFromAdjustments en i (Some u) True x = (Inr (), s)" for i x by (rule recalc_unlocked) simp
  then show ?thesis using may_ensured_here[OF assms] by (simp add: createLoanRecoveryAdjustment_def Let_def) (metis and_then_simps(2))
qed

lemma may_entry:
  assumes "with_may st" "li_status (lo_installments (lw_loan w) ! i) = Loan_scheduled" "li_emiPlanned (lo_installments (lw_loan w) ! i) = Some 1000"
    "lw_month w = 5" "lw_year w = 2025" "lo_teamMemberId (lw_loan w) = ''m''" "i < length (lo_installments (lw_loan w))"
  shows "\<exists>w' st'. loan_entry settings_pay ''w'' u example_member i w st = (Inr w', st') \<and> lw_shortfall w' = lw_shortfall w
    \<and> li_adjustmentId (lo_installments (lw_loan w') ! i) = Some (length (ps_adjustments st))
    \<and> lo_linkedAdjustmentIds (lw_loan w') = lo_linkedAdjustmentIds (lw_loan w) @ [length (ps_adjustments st)]"
proof -
  have d: "sl_data (ps_salaries st ! Suc 0) = example_data" using assms(1) by (simp add: with_may_def)
  have c: "cap_basis example_member x = x" for x by (simp add: cap_basis_def example_member_def)
  have g: "loan_guard settings_pay ''m'' example_member 1000 example_data 3000 = may_guard 1000 None"
    by (simp add: loan_guard_def may_guard_def c example_data_def jadd_def Let_def)
  have n: "sd_netSalary example_data = 3000" by (simp add: example_data_def)
  obtain st' where st': "createLoanRecoveryAdjustment settings_pay ''w'' ''m'' 5 2025 1000 (li_index (lo_installments (lw_loan w) ! i)) u st
      = (Inr (Some (length (ps_adjustments st))), st')" using may_deducted[OF assms(1)] by blast
  show ?thesis
    by (simp add: loan_entry_def Let_def assms(2-7) may_ensured_here[OF assms(1)] d c n g thousand_allowed round2_example st' link_deduction_def)
qed

lemma no_carry: "\<not> lw_shortfall w > 0 \<Longrightarrow> loan_carries en ws u m n w st = (Inr w, st)"
  by (cases n) simp_all

lemma may_materialized:
  assumes "with_may st" "lo_installments loan = [e]" "li_status e = Loan_scheduled" "li_emiPlanned e = Some 1000" "lo_teamMemberId loan = ''m''"
  shows "\<exists>loan' st'. materializeLoanInstallments settings_pay ''w'' u 5 2025 loan st = (Inr loan', st')
    \<and> lo_linkedAdjustmentIds loan' = lo_linkedAdjustmentIds loan @ [length (ps_adjustments st)]"
proof -
  let ?w = "\<lparr>lw_month = 5, lw_year = 2025, lw_shortfall = 0, lw_loan = loan\<rparr>"
  obtain w st' where "loan_entry settings_pay ''w'' u example_member 0 ?w st = (Inr w, st')" "lw_shortfall w = 0"
    "lo_linkedAdjustmentIds (lw_loan w) = lo_linkedAdjustmentIds loan @ [length (ps_adjustments st)]"
    using may_entry[of st ?w 0 u] assms by auto
  moreover have "find_member st (lo_teamMemberId loan) = Some example_member" using assms by (simp add: with_may_def)
  ultimately show ?thesis using assms(2) by (simp add: materializeLoanInstallments_def no_carry)
qed

lemma april_materialized:
  assumes "with_may st" "lo_installments loan = [march_entry, due_in_april Loan_scheduled None]" "lo_teamMemberId loan = ''m''"
  shows "\<exists>loan' st'. materializeLoanInstallments settings_pay ''w'' u 4 2025 loan st = (Inr loan', st')
    \<and> li_adjustmentId (lo_installments loan' ! 1) = Some (length (ps_adjustments st))"
proof -
  let ?w = "\<lparr>lw_month = 4, lw_year = 2025, lw_shortfall = 0, lw_loan = loan\<rparr>"
  have a: "loan_entry settings_pay ''w'' u example_member 0 ?w st = (Inr (step_walk ?w), st)"
    by (simp add: loan_entry_def Let_def assms(2) march_entry_def)
  have w: "lw_month (step_walk ?w) = 5" "lw_year (step_walk ?w) = 2025" "lw_shortfall (step_walk ?w) = 0" by (simp_all add: step_walk_def nextMonth_def)
  obtain w' st' where b: "loan_entry settings_pay ''w'' u example_member 1 (step_walk ?w) st = (Inr w', st')" "lw_shortfall w' = 0"
    "li_adjustmentId (lo_installments (lw_loan w') ! 1) = Some (length (ps_adjustments st))"
    using may_entry[OF assms(1), of "step_walk ?w" 1 u] w assms(2,3) by (auto simp: due_in_april_def)
  have "find_member st (lo_teamMemberId loan) = Some example_member" using assms by (simp add: with_may_def)
  moreover have "[0..<length (lo_installments loan)] = [0, 1]" by (simp add: assms(2) upt_rec)
  ultimately show ?thesis using a b by (simp add: materializeLoanInstallments_def no_carry)
qed

section \<open>The properties\<close>

lemma may_schedule:
  "\<exists>sch row. schedule_of en ''zero'' 1000 0 1 5 2025 = Inr sch \<and> ls_installments sch = [row] \<and> ir_emiAmount row = Some 1000
     \<and> ls_emiAmount sch = Some 1000 \<and> ls_totalInterest sch = 0"
  by (simp add: schedule_of_def computeSchedule_def buildZeroRateSchedule_def buildInstallmentSchedule_def round2_example nextMonth_def)

definition direct_settings :: loan_env where
  \<comment> \<open>no approval is needed\<close>
  "direct_settings = loan_settings\<lparr>le_approvalChainDefault := []\<rparr>"

lemma direct_pay [simp]: "le_pay direct_settings = settings_pay"
  by (simp add: direct_settings_def)

lemma created_example:
  "\<exists>s'. createLoan direct_settings ''w'' ''o'' (small_loan []) empty_loans = (Inr 0, s') \<and> length (lb_loans s') = 1
     \<and> lo_linkedAdjustmentIds (lb_loans s' ! 0) = [0]"
proof -
  obtain sch row where sch: "schedule_of direct_settings ''zero'' 1000 0 1 5 2025 = Inr sch" "ls_installments sch = [row]"
    "ir_emiAmount row = Some 1000" "ls_emiAmount sch = Some 1000" "ls_totalInterest sch = 0" using may_schedule by blast
  let ?l = "new_loan ''w'' (small_loan []) sch [] ''o''"
  have l: "lo_installments ?l = [scheduled_row row]" "lo_status ?l = ''active''" "lo_linkedAdjustmentIds ?l = []" "lo_teamMemberId ?l = ''m''"
    "loan_valid ?l"
    by (simp_all add: new_loan_def small_loan_def sch loan_valid_def scheduled_row_def)
  have e: "li_status (scheduled_row row) = Loan_scheduled" "li_emiPlanned (scheduled_row row) = Some 1000" by (simp_all add: scheduled_row_def sch)
  have p: "lb_pay empty_loans = request_store ''pending''" by (simp add: empty_loans_def)
  have n: "length (ps_adjustments (request_store ''pending'')) = 0" by (simp add: request_store_def locked_store_def example_store_def)
  obtain l' st' where m: "materializeLoanInstallments settings_pay ''w'' ''o'' 5 2025 ?l (request_store ''pending'') = (Inr l', st')"
    "lo_linkedAdjustmentIds l' = [0]"
    using may_materialized[OF may_in_store l(1) e l(4), of "''o''" "''pending''"] l(3) n by auto
  have "member_writable (request_store ''pending'') ''w'' ''m''" by (rule member_example)
  moreover have "resolveApprovalChain direct_settings [] = []" by (simp add: resolveApprovalChain_def direct_settings_def)
  ultimately show ?thesis using sch(1) l m
    by (simp add: createLoan_def loan_write_allowed_def small_loan_def[THEN arg_cong[where f = ln_teamMemberId]]
        small_loan_def[THEN arg_cong[where f = ln_interestType]] small_loan_def[THEN arg_cong[where f = ln_principalAmount]]
        small_loan_def[THEN arg_cong[where f = ln_annualInterestRate]] small_loan_def[THEN arg_cong[where f = ln_tenorMonths]]
        small_loan_def[THEN arg_cong[where f = ln_startMonth]] small_loan_def[THEN arg_cong[where f = ln_startYear]]
        small_loan_def[THEN arg_cong[where f = ln_approvalChain]] p insert_loan_def materialize_def on_pay_def save_loan_def)
      (simp add: empty_loans_def)
qed

lemma loan_deductions_accounted_witness:
  "\<exists>s'. createLoan direct_settings ''w'' ''o'' (small_loan []) empty_loans = (Inr 0, s')
    \<and> lo_linkedAdjustmentIds (lb_loans s' ! 0) = [0] \<and> aj_category (ps_adjustments (lb_pay s') ! 0) = ''loan_recovery''"
proof -
  obtain s' where s': "createLoan direct_settings ''w'' ''o'' (small_loan []) empty_loans = (Inr 0, s')" "length (lb_loans s') = 1"
    "lo_linkedAdjustmentIds (lb_loans s' ! 0) = [0]" using created_example by blast
  have "loan_steps empty_loans (snd (createLoan direct_settings ''w'' ''o'' (small_loan []) empty_loans))"
    by (rule r_into_rtranclp, rule loan_step.create) simp
  then have "loan_steps empty_loans s'" by (simp add: s'(1))
  moreover have "lb_loans empty_loans = []" by (simp add: empty_loans_def)
  ultimately show ?thesis using loan_deductions_accounted[of empty_loans s' 0] s' by (simp add: Let_def)
qed

definition awaiting_loan :: employer_loan where
  "awaiting_loan = (running_loan ''pending_approval'' Loan_scheduled None)\<lparr>lo_startMonth := 5,
     lo_installments := [due_in_april Loan_scheduled None], lo_approvalChain := chain_steps [''a'', ''b'']\<rparr>"

definition awaiting_store :: loan_store where
  "awaiting_store = empty_loans\<lparr>lb_loans := [awaiting_loan]\<rparr>"

lemma awaiting_simps [simp]:
  "lo_teamMemberId awaiting_loan = ''m''" "lo_status awaiting_loan = ''pending_approval''" "lo_startMonth awaiting_loan = 5"
  "lo_startYear awaiting_loan = 2025" "lo_installments awaiting_loan = [due_in_april Loan_scheduled None]"
  "lo_approvalChain awaiting_loan = [\<lparr>as_stepIndex = 0, as_approverId = ''a'', as_status = Step_pending\<rparr>,
     \<lparr>as_stepIndex = 1, as_approverId = ''b'', as_status = Step_pending\<rparr>]"
  "loan_of awaiting_store ''w'' 0 = Some awaiting_loan" "lb_pay awaiting_store = request_store ''pending''"
  "lb_loans awaiting_store = [awaiting_loan]"
  by (simp_all add: awaiting_loan_def running_loan_def chain_steps_def loan_of_def nth_doc_def awaiting_store_def empty_loans_def upt_rec)



lemma refresh_returns: "\<exists>l' s'. refreshLoanProgress en k l s = (Inr l', s')"
  by (cases "lo_status l \<in> {''reversed'', ''completed'', ''written_off''}") (auto simp: refreshLoanProgress_def Let_def)

lemma resumed_deductions_are_late_witness:
  "\<exists>l s'. resumeLoan loan_settings ''w'' 0 ''o'' paused_loan_store = (Inr l, s')
    \<and> li_month (due_in_april Loan_reversed None) = 4 \<and> aj_month (ps_adjustments (lb_pay s') ! 0) = 5"
proof -
  let ?loan = "running_loan ''paused'' Loan_reversed None"
  let ?l = "?loan\<lparr>lo_status := ''active'', lo_installments := [march_entry, due_in_april Loan_scheduled None]\<rparr>"
  have o: "loan_of paused_loan_store ''w'' 0 = Some ?loan" by (simp add: loan_of_def nth_doc_def paused_loan_store_def running_loan_def)
  have es: "lo_installments ?loan = [march_entry, due_in_april Loan_reversed None]" by (simp add: running_loan_def)
  have a: "\<not> is_elapsed settings_pay 4 2025" using april_current by (simp add: clock_settings)
  have re: "\<not> reopens settings_pay march_entry" "reopens settings_pay (due_in_april Loan_reversed None)"
    using a by (simp_all add: reopens_def march_entry_def due_in_april_def is_future_entry_def)
  have f: "find_index (reopens settings_pay) (lo_installments ?loan) = Some 1" using re by (simp add: es)
  have op: "map (reopened settings_pay) (lo_installments ?loan) = [march_entry, due_in_april Loan_scheduled None]"
    using re by (simp add: es reopened_def) (simp add: due_in_april_def)
  have c: "loan_cutover settings_pay ?loan = (4, 2025)" using re by (simp add: loan_cutover_def es) (simp add: due_in_april_def)
  have n: "length (ps_adjustments (request_store ''pending'')) = 0" by (simp add: request_store_def locked_store_def example_store_def)
  obtain l st' where m: "materializeLoanInstallments settings_pay ''w'' ''o'' 4 2025 ?l (request_store ''pending'') = (Inr l, st')"
    "li_adjustmentId (lo_installments l ! 1) = Some 0"
    using april_materialized[OF may_in_store, of ?l "''o''" "''pending''"] n by (auto simp: running_loan_def)
  have s: "lo_status ?loan = ''paused''" "lb_pay paused_loan_store = request_store ''pending''"
    by (simp_all add: running_loan_def paused_loan_store_def empty_loans_def)
  let ?s1 = "save_loan 0 l (paused_loan_store\<lparr>lb_pay := st', lb_loans := [?l]\<rparr>)"
  have "resumeLoan loan_settings ''w'' 0 ''o'' paused_loan_store = refreshLoanProgress settings_pay 0 l ?s1"
    by (simp add: resumeLoan_def o s op c materialize_def on_pay_def save_loan_def m(1)) (simp add: paused_loan_store_def)
  moreover obtain l2 s2 where q: "refreshLoanProgress settings_pay 0 l ?s1 = (Inr l2, s2)" using refresh_returns by blast
  ultimately have r: "resumeLoan loan_settings ''w'' 0 ''o'' paused_loan_store = (Inr l2, s2)" by simp
  have "li_adjustmentId (lo_installments l2 ! 1) = Some 0" using refreshed_rows[OF q] m(2) by simp
  from resumed_deductions_are_late[OF r o f _ _ this] have "aj_month (ps_adjustments (lb_pay s2) ! 0) = 5"
    using re es by (simp add: due_in_april_def nextMonth_def)
  then show ?thesis using r by (simp add: due_in_april_def)
qed

definition deducted_store :: loan_store where
  "deducted_store = empty_loans\<lparr>lb_pay := (request_store ''pending'')\<lparr>ps_adjustments :=
       [new_adjustment example_salary 0 ''w'' Deduction ''loan_recovery'' 1000 System ''o'']\<rparr>,
     lb_loans := [running_loan ''active'' Loan_applied (Some 0)]\<rparr>"

lemma write_off_exact_witness:
  "\<exists>l s'. writeOffLoan loan_settings ''w'' 0 ''o'' 1000 ''left'' deducted_store = (Inr l, s') \<and> lo_status l = ''written_off''
    \<and> aj_active (ps_adjustments (lb_pay deducted_store) ! 0) \<and> \<not> aj_active (ps_adjustments (lb_pay s') ! 0)"
proof -
  let ?loan = "running_loan ''active'' Loan_applied (Some 0)"
  have o: "loan_of deducted_store ''w'' 0 = Some ?loan" by (simp add: loan_of_def nth_doc_def deducted_store_def running_loan_def)
  have a: "\<not> is_elapsed settings_pay 4 2025" using april_current by (simp add: clock_settings)
  obtain l st where "reverse_loan_entries settings_pay ''o'' ''left'' (reversible_entries settings_pay ?loan) ?loan (lb_pay deducted_store) = (Inr l, st)"
    using reverse_loan_result by blast
  then have "\<exists>l s'. writeOffLoan loan_settings ''w'' 0 ''o'' 1000 ''left'' deducted_store = (Inr l, s')"
    by (simp add: writeOffLoan_def o Let_def reverseFutureLoanAdjustments_def on_pay_def) (simp add: running_loan_def)
  then obtain l s' where r: "writeOffLoan loan_settings ''w'' 0 ''o'' 1000 ''left'' deducted_store = (Inr l, s')" by blast
  have e: "due_in_april Loan_applied (Some 0) \<in> set (lo_installments ?loan)" by (simp add: running_loan_def)
  have n: "ps_adjustments (lb_pay deducted_store) = [new_adjustment example_salary 0 ''w'' Deduction ''loan_recovery'' 1000 System ''o'']"
    by (simp add: deducted_store_def)
  have w: "lo_status l = ''written_off''" "\<forall>e\<in>set (lo_installments ?loan). \<forall>j<length (ps_adjustments (lb_pay deducted_store)). li_adjustmentId e = Some j \<longrightarrow>
         li_status e \<noteq> Loan_reversed \<longrightarrow> li_status e \<noteq> Loan_skipped \<longrightarrow> \<not> is_elapsed settings_pay (li_month e) (li_year e)
         \<longrightarrow> \<not> aj_active (ps_adjustments (lb_pay s') ! j)" using write_off_exact[OF r o] by blast+
  have "\<not> aj_active (ps_adjustments (lb_pay s') ! 0)" using w(2)[rule_format, OF e, of 0] a by (simp add: due_in_april_def n)
  then show ?thesis using r w(1) by (simp add: n new_adjustment_def)
qed


end
