(* ===== verification/Spec2Isabelle.thy ===== *)
theory Spec2Isabelle
  imports AttProjection LeaveLifecycle RbacService SalaryComponents PaySchedule LoanExamples
begin

text \<open>
  A verification of the core of ManekHR, a multi-tenant server for attendance, leave, payroll and
  the permissions around them, written in TypeScript on NestJS and MongoDB (\<open>src/src\<close> in the
  repository).  The development models the rules the server decides by, not the transport: a
  handler is a function from the documents it finds to a result and the documents it leaves, with
  every exception as a value.

  \<^bold>\<open>Parts and theories.\<close>

  \<^item> JavaScript.  \<open>JsNumber\<close> (binary64 addition, multiplication and division as exact rational
    operations followed by rounding to 53 bits), \<open>JsDate\<close> (days, months and the calendar),
    \<open>JsString\<close> (the string methods in use), \<open>JsMap\<close> (insertion-ordered maps) and \<open>Money\<close>
    (rounding to paise).  \<open>Prelude\<close> has the shared list and option lemmas.

  \<^item> Attendance.  \<open>AttProjection\<close> is \<open>modules/attendance/projection/compute.ts\<close>: the punches and
    overrides of a day become its status, minutes and sessions.

  \<^item> Leave.  \<open>LeaveDays\<close> (charged days, paid and unpaid split, approval chain), \<open>LeaveLedger\<close>
    (the append-only ledger and its balance row, with concurrent writers), \<open>LeaveAccrual\<close> (accrual
    and year-end close), \<open>LeaveCompOff\<close> (lots, first in first out), \<open>LeaveRequests\<close> (the five
    handlers of \<open>leave-request.service.ts\<close>) and \<open>LeaveLifecycle\<close> (the reachable states).

  \<^item> Permissions.  \<open>RbacRegistry\<close>, \<open>RbacDeps\<close>, \<open>RbacGrants\<close>, \<open>RbacFlat\<close> and \<open>RbacConverter\<close>
    (permission paths, their dependencies, grants, overrides and the conversion of the older flat
    permissions), \<open>RbacGuard\<close> and \<open>RbacAccess\<close> (the guard of a request and the scope lookups of
    the services), \<open>RbacCache\<close> and \<open>RbacCoherence\<close> (the cached context and its invalidation),
    \<open>RbacService\<close> (editing roles and members).

  \<^item> Pay structure.  \<open>SalaryComponents\<close> is \<open>salary/utils/component-calculator.ts\<close>, \<open>PaySchedule\<close> the
    installment and loan schedules.

  \<^item> Payroll.  \<open>PayrollTax\<close> and \<open>TaxDeclarations\<close> (\<open>salary/tds.service.ts\<close>, the welfare fund rates
    and the endpoint for declarations), \<open>SalaryCompute\<close> (the figures of a record from member,
    attendance, leave and production), \<open>SalaryStore\<close> (the documents, the totals and the status),
    \<open>SalaryRuns\<close> (\<open>ensureSalaryRecord\<close>: statutory rows, income tax, recovery of earlier advances),
    \<open>AdvanceRecovery\<close> (\<open>compliance-guard.service.ts\<close> and the recovery plans), \<open>SalaryPayments\<close>
    (adjustments, payments, reversals, locks), \<open>SalaryIncrements\<close>, \<open>RecoveryPlans\<close> (pausing, resuming,
    editing and closing a plan) and \<open>PayrollRuns\<close> (the payroll of a month, the pay of a member); all
    of it from \<open>salary/salary.service.ts\<close> unless said otherwise.  \<open>AdvanceRequests\<close> is
    \<open>salary/advance-salary-request.service.ts\<close> with the payment of a request.

  \<^item> Loans.  \<open>EmployerLoans\<close> and \<open>LoanChanges\<close> are \<open>salary/loan.service.ts\<close> with
    \<open>salary/schemas/employer-loan.schema.ts\<close>: a loan, its approval, the deductions of its installments, skipping,
    pausing, resuming, early payoff, top-up, write-off and the perquisite of a month.  \<open>LoanRequests\<close> is
    \<open>salary/loan-request.service.ts\<close>.  The deductions are rows of the payroll documents (\<open>lb_pay\<close>), written with
    \<open>ensureSalaryRecord\<close> and the compliance guard; the schedules are those of \<open>PaySchedule\<close>.

  The leave credit and the attendance rows enter the payroll as parts of its environment
  (\<open>pay_env\<close>), the caller's grants through \<open>scope_context\<close> of \<open>RbacGuard\<close>, and a recovery plan uses
  the schedule of \<open>PaySchedule\<close>.

  \<^bold>\<open>State.\<close>  A collection of the payroll is a list in \<open>pay_store\<close> and the identifier of a document is its
  position; the leave collections are lists and maps in the state records of \<open>LeaveLedger\<close> and
  \<open>LeaveRequests\<close>; the caches of the guard are maps with their expiry.  A result is the left side
  of a sum for an exception, next to the documents as they are when it is thrown, so that a
  handler that fails half-way is visible as such.

  \<^bold>\<open>What the lemmas show.\<close>  \<open>SalaryBooks\<close> has, operation by operation, what each adds to or keeps of the
  documents, under the locale \<open>store_invariant\<close> which turns the laws of the single operations into an
  invariant of all of them; it is interpreted for well-typedness and for the history of the
  documents (\<open>SalaryHistory\<close>).  It extends \<open>plan_invariant\<close> of \<open>PlanInvariants\<close>, whose laws are those the
  operations on plans and the payroll runs need, and which \<open>SalaryAgree\<close> interprets a second time;
  \<open>AdvanceBooks\<close> carries the invariant over to requests.  \<open>AdvanceHistory\<close> is the life of a request and the
  payments made for it, \<open>PlanChanges\<close> the early payoff and \<open>PayrollCoverage\<close> whom a payroll run reaches.
  \<open>LoanInvariants\<close> extends these laws to the rows that loans write, with the locale \<open>loan_invariant\<close>, interpreted for
  every invariant of the documents and for their agreement.  \<open>LoanHistory\<close> relates a loan before and after an
  operation, and the locale \<open>loan_ledger\<close> of \<open>LoanLedger\<close> turns the laws of a predicate of loans and requests into an
  invariant of all handlers; \<open>LoanBooks\<close> interprets it for the deductions of the loans, for their history and for
  the requests.  \<open>LoanSafety\<close> has single operations on loans, exactly.
  \<open>SalaryAgree\<close> shows that records agree with their rows, \<open>SalaryEffects\<close>
  the effect of single operations, \<open>SalaryLocks\<close> that locked records are kept, \<open>SalaryExact\<close> and
  \<open>AdvanceTotals\<close> the arithmetic, and \<open>SalaryExamples\<close>, \<open>AdvanceExamples\<close> and \<open>LoanExamples\<close> hold the concrete stores on
  which the properties are applied.  In the leave and permission theories the lemmas follow the definitions they are about.

  \<^bold>\<open>Bounds.\<close>  Binary64 is modelled without limits on the exponent; with the amounts in play no operation
  comes near them.  Statements about money carry the range in which rounding to paise is exact
  (2 to the 46 paise for one amount, 2 to the 40 for the sums of a plan, a billion rupees for the net
  salary).  The walks of a recovery plan and of a loan visit at most twelve extra months, as in the code; the depth-first
  search and the worklist of the component calculator take as many steps as there are components, which their
  theorems show to be enough.

  \<^bold>\<open>Parameters.\<close>  Not under \<open>src/\<close> and therefore arguments: \<open>Math.pow\<close> of the loan schedules, the \<open>$sum\<close> of
  MongoDB (\<open>en_sum\<close>), the clock, and the offset of the local zone, which is taken as constant.  Of MongoDB the
  model uses that a unique index rejects a second document, that an update with a conflict between
  \<open>$set\<close> and \<open>$setOnInsert\<close> is refused, that \<open>findOne\<close> with a sort returns an extremal document and that
  documents are found in insertion order otherwise.

  \<^bold>\<open>Not modelled.\<close>  Authentication, billing, notifications, uploads, device protocols, imports, exports, PDF files, the list
  and report queries, and the wiring of the framework: input and output, or aggregation pipelines whose meaning
  is that of the database.  Of the salary module the bonus, commission, gratuity and settlement
  services are left out; of a loan the dates, references and comments, on which nothing depends; audit events, analytics and postings to
  the finance module have no effect on the documents modelled here.
\<close>

end
